(* ===== verification/Prelude.thy ===== *)
theory Prelude
  imports Complex_Main "HOL-Library.AList" "HOL-Library.Sublist"
begin

text \<open>
  What every component shares: the JavaScript values the library computes with (strings, Maps,
  numbers), and the model of a call that may throw.

  A JavaScript string is a list of bytes, its UTF-8 encoding (the on-disk form); a length test
  against zero, equality, a prefix test, an ASCII split and \<open>Buffer.byteLength\<close> agree with the
  code on every string, and white space and letter case are the ASCII ones.
  A JavaScript \<open>Map\<close> is an association list in insertion order: \<open>set\<close> on a key that is there
  keeps its position, a new key goes to the end, \<open>delete\<close> removes it: \<open>AList.update\<close>,
  \<open>AList.delete\<close> and \<open>map_of\<close> are these operations.
  A call that may throw returns a sum: \<open>Inl\<close> the error, \<open>Inr\<close> the value.
\<close>

named_theorems io_simps \<open>the laws of calls that may throw\<close>
named_theorems string_simps \<open>splitting, trimming and joining strings\<close>
named_theorems map_simps \<open>get, set and delete on insertion-ordered maps\<close>

section \<open>Numbers\<close>

definition MAX_SAFE_INTEGER :: int where
  "MAX_SAFE_INTEGER = 9007199254740991"

definition isSafeInteger :: "int \<Rightarrow> bool" where
  "isSafeInteger n \<longleftrightarrow> \<bar>n\<bar> \<le> MAX_SAFE_INTEGER"

fun show_nat :: "nat \<Rightarrow> string" where
  "show_nat n = (if n < 10 then [char_of (48 + n)] else show_nat (n div 10) @ [char_of (48 + n mod 10)])"

declare show_nat.simps [simp del]

definition show_int :: "int \<Rightarrow> string" where
  "show_int i = (if i < 0 then CHR ''-'' # show_nat (nat (- i)) else show_nat (nat i))"

definition is_digit :: "char \<Rightarrow> bool" where
  "is_digit c \<longleftrightarrow> 48 \<le> (of_char c :: nat) \<and> (of_char c :: nat) \<le> 57"

definition digit_val :: "char \<Rightarrow> nat" where
  "digit_val c = of_char c - 48"

definition nat_of_digits :: "string \<Rightarrow> nat" where
  "nat_of_digits s = foldl (\<lambda>n c. 10 * n + digit_val c) 0 s"

lemma is_digit_char_of: "(n::nat) < 10 \<Longrightarrow> is_digit (char_of (48 + n))"
  by (simp add: is_digit_def)

lemma digit_val_char_of: "n < 10 \<Longrightarrow> digit_val (char_of (48 + n)) = n"
  by (simp add: digit_val_def)

lemma show_nat_digits: "c \<in> set (show_nat n) \<Longrightarrow> is_digit c"
proof (induction n rule: show_nat.induct)
  case (1 n)
  have small: "is_digit (char_of (48 + n mod 10))" by (rule is_digit_char_of) simp
  show ?case
  proof (cases "n < 10")
    case True
    with 1(2) show ?thesis by (subst (asm) show_nat.simps) (simp add: is_digit_char_of)
  next
    case False
    with 1(2) have "c = char_of (48 + n mod 10) \<or> c \<in> set (show_nat (n div 10))"
      by (subst (asm) show_nat.simps) simp
    with 1(1) False small show ?thesis by blast
  qed
qed

lemma show_nat_not_Nil [simp]: "show_nat n \<noteq> []"
  by (subst show_nat.simps) simp

lemma nat_of_digits_snoc: "nat_of_digits (s @ [c]) = 10 * nat_of_digits s + digit_val c"
  by (simp add: nat_of_digits_def)

lemma nat_of_digits_show [simp]: "nat_of_digits (show_nat n) = n"
proof (induction n rule: show_nat.induct)
  case (1 n)
  show ?case
  proof (cases "n < 10")
    case True
    then show ?thesis
      by (subst show_nat.simps) (simp add: nat_of_digits_def digit_val_char_of)
  next
    case False
    have "digit_val (char_of (48 + n mod 10)) = n mod 10" by (rule digit_val_char_of) simp
    with 1 False show ?thesis
      by (subst show_nat.simps) (simp add: nat_of_digits_snoc)
  qed
qed

lemma show_nat_inj: "show_nat m = show_nat n \<Longrightarrow> m = n"
  by (metis nat_of_digits_show)

section \<open>Strings\<close>

definition is_space :: "char \<Rightarrow> bool" where
  "is_space c \<longleftrightarrow> c \<in> set [CHR '' '', CHR 0x09, CHR 0x0A, CHR 0x0B, CHR 0x0C, CHR 0x0D]"

definition js_trim :: "string \<Rightarrow> string" where
  "js_trim s = rev (dropWhile is_space (rev (dropWhile is_space s)))"

fun js_split :: "char \<Rightarrow> string \<Rightarrow> string list" where
  "js_split c [] = [[]]"
| "js_split c (x # xs) =
     (if x = c then [] # js_split c xs
      else (case js_split c xs of [] \<Rightarrow> [[x]] | l # ls \<Rightarrow> (x # l) # ls))"

fun js_join :: "string \<Rightarrow> string list \<Rightarrow> string" where
  "js_join sep [] = []"
| "js_join sep [s] = s"
| "js_join sep (s # t # ss) = s @ sep @ js_join sep (t # ss)"

definition NL :: char where "NL = CHR 0x0A"
definition NUL :: string where "NUL = [CHR 0x00]"
definition APOS :: string where "APOS = [CHR 0x27]"
definition EM_DASH :: string where "EM_DASH = [CHR 0xE2, CHR 0x80, CHR 0x94]"

text \<open>\<open>toLowerCase\<close> and \<open>toUpperCase\<close> on the ASCII letters, and \<open>includes\<close>.\<close>

definition char_lower :: "char \<Rightarrow> char" where
  "char_lower c = (let n = of_char c :: nat in if 65 \<le> n \<and> n \<le> 90 then char_of (n + 32) else c)"

definition char_upper :: "char \<Rightarrow> char" where
  "char_upper c = (let n = of_char c :: nat in if 97 \<le> n \<and> n \<le> 122 then char_of (n - 32) else c)"

definition js_lower :: "string \<Rightarrow> string" where "js_lower = map char_lower"
definition js_upper :: "string \<Rightarrow> string" where "js_upper = map char_upper"

text \<open>\<open>/^[0-9a-f]{4}:[0-9a-f]{4}$/\<close>, a USB vendor and product.\<close>

definition is_lower_hex :: "char \<Rightarrow> bool" where
  "is_lower_hex c \<longleftrightarrow> c \<in> set ''0123456789abcdef''"

definition hex_pair :: "string \<Rightarrow> bool" where
  "hex_pair s \<longleftrightarrow> length s = 9 \<and> list_all is_lower_hex (take 4 s) \<and> s ! 4 = CHR '':'' \<and>
     list_all is_lower_hex (drop 5 s)"

fun js_includes :: "string \<Rightarrow> string \<Rightarrow> bool" where
  "js_includes needle [] \<longleftrightarrow> needle = []"
| "js_includes needle (c # s) \<longleftrightarrow> prefix needle (c # s) \<or> js_includes needle s"

lemma js_split_not_Nil [simp]: "js_split c s \<noteq> []"
  by (cases s) (auto split: list.splits)

lemma js_split_append [string_simps]:
  "c \<notin> set l \<Longrightarrow> js_split c (l @ c # r) = l # js_split c r"
  by (induction l) auto

lemma js_split_single [string_simps]: "c \<notin> set l \<Longrightarrow> js_split c l = [l]"
  by (induction l) auto

lemma js_split_append_any:
  "js_split c (s @ c # r) = js_split c s @ js_split c r"
proof (induction s)
  case Nil
  show ?case by simp
next
  case (Cons x s)
  then show ?case by (cases "js_split c s") auto
qed

lemma js_split_no_sep: "l \<in> set (js_split c s) \<Longrightarrow> c \<notin> set l"
proof (induction s arbitrary: l)
  case Nil
  then show ?case by simp
next
  case (Cons x s)
  then show ?case by (cases "js_split c s") (auto split: if_splits)
qed

lemma js_trim_Nil_iff: "js_trim s = [] \<longleftrightarrow> (\<forall>c \<in> set s. is_space c)"
proof
  assume "js_trim s = []"
  then have all: "\<forall>c \<in> set (dropWhile is_space s). is_space c"
    by (simp add: js_trim_def dropWhile_eq_Nil_conv)
  have "dropWhile is_space s = []"
  proof (rule ccontr)
    assume ne: "dropWhile is_space s \<noteq> []"
    then have "\<not> is_space (hd (dropWhile is_space s))" by (rule hd_dropWhile)
    with all list.set_sel(1) [OF ne] show False by blast
  qed
  then show "\<forall>c \<in> set s. is_space c" by (simp add: dropWhile_eq_Nil_conv)
next
  assume "\<forall>c \<in> set s. is_space c"
  then have nil: "dropWhile is_space s = []" by (simp add: dropWhile_eq_Nil_conv)
  show "js_trim s = []" by (simp only: js_trim_def nil) simp
qed

section \<open>Distinct elements in order of first appearance\<close>

text \<open>\<open>[...new Set(xs)]\<close>.\<close>

definition js_unique :: "'a list \<Rightarrow> 'a list" where
  "js_unique xs = foldl (\<lambda>acc x. if x \<in> set acc then acc else acc @ [x]) [] xs"

lemma js_unique_Nil [simp]: "js_unique [] = []"
  by (simp add: js_unique_def)

lemma js_unique_snoc: "js_unique (xs @ [x]) = (if x \<in> set (js_unique xs) then js_unique xs else js_unique xs @ [x])"
  by (simp add: js_unique_def)

lemma set_js_unique [simp]: "set (js_unique xs) = set xs"
  by (induction xs rule: rev_induct) (auto simp: js_unique_snoc)

lemma distinct_js_unique [simp]: "distinct (js_unique xs)"
  by (induction xs rule: rev_induct) (auto simp: js_unique_snoc)

section \<open>Insertion-ordered maps\<close>

lemma map_get_set [map_simps]: "map_of (AList.update k v m) k' = (if k' = k then Some v else map_of m k')"
  by (simp add: update_conv')

lemma map_get_delete [map_simps]: "map_of (AList.delete k m) k' = (if k' = k then None else map_of m k')"
  by (simp add: delete_conv')

lemma distinct_keys_set: "distinct (map fst m) \<Longrightarrow> distinct (map fst (AList.update k v m))"
  by (rule distinct_update)

lemma distinct_keys_delete: "distinct (map fst m) \<Longrightarrow> distinct (map fst (AList.delete k m))"
  by (rule distinct_delete)

lemma set_keys_update: "fst ` set (AList.update k v m) = insert k (fst ` set m)"
  by (simp add: dom_update)

section \<open>Computations that may throw\<close>

text \<open>Straight-line code with a possible exception: \<open>Inl\<close> is the error.\<close>

definition sum_bind :: "'e + 'a \<Rightarrow> ('a \<Rightarrow> 'e + 'b) \<Rightarrow> 'e + 'b" where
  "sum_bind m f = (case m of Inl e \<Rightarrow> Inl e | Inr a \<Rightarrow> f a)"

lemma sum_bind_simps [simp]: "sum_bind (Inl e) f = Inl e" "sum_bind (Inr a) f = f a"
  by (simp_all add: sum_bind_def)

lemma sum_bind_Inr: "sum_bind m f = Inr b \<longleftrightarrow> (\<exists>a. m = Inr a \<and> f a = Inr b)"
  by (cases m) auto

section \<open>Calls that may throw\<close>

type_synonym ('w, 'a) io = "'w \<Rightarrow> (string + 'a) \<times> 'w"

definition io_return :: "'a \<Rightarrow> ('w, 'a) io" where
  "io_return a w = (Inr a, w)"

definition io_throw :: "string \<Rightarrow> ('w, 'a) io" where
  "io_throw e w = (Inl e, w)"

definition io_bind :: "('w, 'a) io \<Rightarrow> ('a \<Rightarrow> ('w, 'b) io) \<Rightarrow> ('w, 'b) io" where
  "io_bind m f w = (case m w of (Inl e, w') \<Rightarrow> (Inl e, w') | (Inr a, w') \<Rightarrow> f a w')"

text \<open>\<open>try body finally fin\<close>: an error of \<open>fin\<close> replaces the outcome of the body.\<close>

definition io_finally :: "('w, 'a) io \<Rightarrow> ('w, unit) io \<Rightarrow> ('w, 'a) io" where
  "io_finally body fin w =
     (case body w of (r, w1) \<Rightarrow>
        (case fin w1 of (Inl e, w2) \<Rightarrow> (Inl e, w2) | (Inr _, w2) \<Rightarrow> (r, w2)))"

text \<open>\<open>call.catch(() => undefined)\<close>: the outcome of the call is dropped.\<close>

definition io_ignore :: "('w, 'a) io \<Rightarrow> ('w, unit) io" where
  "io_ignore m w = (Inr (), snd (m w))"

text \<open>\<open>try body catch (error) handler\<close>.\<close>

definition io_catch :: "('w, 'a) io \<Rightarrow> (string \<Rightarrow> ('w, 'a) io) \<Rightarrow> ('w, 'a) io" where
  "io_catch m handler w = (case m w of (Inl e, w1) \<Rightarrow> handler e w1 | (Inr a, w1) \<Rightarrow> (Inr a, w1))"

definition io_gets :: "('w \<Rightarrow> 'a) \<Rightarrow> ('w, 'a) io" where
  "io_gets f w = (Inr (f w), w)"

lemma io_return_apply [io_simps]: "io_return a w = (Inr a, w)"
  by (simp add: io_return_def)

lemma io_bind_cases:
  "io_bind m f w = (r, w') \<Longrightarrow>
     (\<exists>e. m w = (Inl e, w') \<and> r = Inl e) \<or> (\<exists>a w1. m w = (Inr a, w1) \<and> f a w1 = (r, w'))"
  by (auto simp: io_bind_def split: prod.splits sum.splits)

lemma io_bind_Inr [io_simps]: "m w = (Inr a, w1) \<Longrightarrow> io_bind m f w = f a w1"
  by (simp add: io_bind_def)

lemma io_bind_Inl [io_simps]: "m w = (Inl e, w1) \<Longrightarrow> io_bind m f w = (Inl e, w1)"
  by (simp add: io_bind_def)

lemma io_finally_cases:
  "io_finally body fin w = (r, w') \<Longrightarrow>
     \<exists>rb w1 rf. body w = (rb, w1) \<and> fin w1 = (rf, w') \<and>
       r = (case rf of Inl e \<Rightarrow> Inl e | Inr _ \<Rightarrow> rb)"
  by (auto simp: io_finally_def split: prod.splits sum.splits)

section \<open>Hoare triples for calls that may throw\<close>

text \<open>
  \<open>triple P m Q E\<close>: started where \<open>P\<close> holds, a normal return leaves \<open>Q\<close> of the value, a throw
  leaves \<open>E\<close> of the error. The rules follow the structure of the call.
\<close>

named_theorems triple_intros \<open>rules for triples, one per combinator\<close>

definition triple ::
  "('w \<Rightarrow> bool) \<Rightarrow> ('w, 'a) io \<Rightarrow> ('a \<Rightarrow> 'w \<Rightarrow> bool) \<Rightarrow> (string \<Rightarrow> 'w \<Rightarrow> bool) \<Rightarrow> bool" where
  "triple P m Q E \<longleftrightarrow> (\<forall>w. P w \<longrightarrow> (case m w of (Inr a, w') \<Rightarrow> Q a w' | (Inl e, w') \<Rightarrow> E e w'))"

lemma tripleD_Inr: "triple P m Q E \<Longrightarrow> P w \<Longrightarrow> m w = (Inr a, w') \<Longrightarrow> Q a w'"
  by (force simp: triple_def)

lemma tripleD_Inl: "triple P m Q E \<Longrightarrow> P w \<Longrightarrow> m w = (Inl e, w') \<Longrightarrow> E e w'"
  by (force simp: triple_def)

lemma triple_return [triple_intros]: "(\<And>w. P w \<Longrightarrow> Q a w) \<Longrightarrow> triple P (io_return a) Q E"
  by (simp add: triple_def io_return_def)

lemma triple_bind [triple_intros]:
  assumes "triple P m R E" and "\<And>a. triple (R a) (f a) Q E"
  shows "triple P (io_bind m f) Q E"
  using assms by (fastforce simp: triple_def io_bind_def split: prod.splits sum.splits)

lemma triple_finally [triple_intros]:
  assumes "triple P body R F"
    and "\<And>a. triple (R a) fin (\<lambda>_. Q a) E"
    and "\<And>e. triple (F e) fin (\<lambda>_. E e) E"
  shows "triple P (io_finally body fin) Q E"
  using assms by (fastforce simp: triple_def io_finally_def split: prod.splits sum.splits)

lemma triple_pre: "triple P m Q E \<Longrightarrow> (\<And>w. P' w \<Longrightarrow> P w) \<Longrightarrow> triple P' m Q E"
  by (simp add: triple_def)

lemma triple_post:
  assumes "triple P m Q E" and "\<And>a w. Q a w \<Longrightarrow> Q' a w" and "\<And>e w. E e w \<Longrightarrow> E' e w"
  shows "triple P m Q' E'"
  unfolding triple_def
proof (intro allI impI)
  fix w assume "P w"
  with assms show "case m w of (Inr a, w') \<Rightarrow> Q' a w' | (Inl e, w') \<Rightarrow> E' e w'"
    by (auto simp: triple_def split: prod.splits sum.splits)
qed

lemma triple_pure: "(p \<Longrightarrow> triple P m Q E) \<Longrightarrow> triple (\<lambda>w. p \<and> P w) m Q E"
  by (auto simp: triple_def)

lemma triple_ex:
  assumes "\<And>x. triple (P x) m Q E"
  shows "triple (\<lambda>w. \<exists>x. P x w) m Q E"
  unfolding triple_def
proof (intro allI impI)
  fix w assume "\<exists>x. P x w"
  then obtain x where "P x w" by blast
  with assms [of x] show "case m w of (Inr a, w') \<Rightarrow> Q a w' | (Inl e, w') \<Rightarrow> E e w'"
    by (simp add: triple_def)
qed

lemma triple_fun_of_state:
  assumes "\<And>y. triple P (m y) Q E"
  shows "triple P (\<lambda>w. m (f w) w) Q E"
  using assms by (simp add: triple_def)

lemma triple_apply:
  "triple P m Q E \<Longrightarrow> P w \<Longrightarrow> case m w of (Inr a, w') \<Rightarrow> Q a w' | (Inl e, w') \<Rightarrow> E e w'"
  by (simp add: triple_def)

lemma triple_disj:
  assumes "triple P m Q E" and "triple P' m Q' E'"
  shows "triple (\<lambda>w. P w \<or> P' w) m (\<lambda>a w. Q a w \<or> Q' a w) (\<lambda>e w. E e w \<or> E' e w)"
  unfolding triple_def
proof (intro allI impI)
  fix w assume "P w \<or> P' w"
  then show "case m w of (Inr a, w') \<Rightarrow> Q a w' \<or> Q' a w' | (Inl e, w') \<Rightarrow> E e w' \<or> E' e w'"
  proof
    assume "P w"
    from triple_apply [OF assms(1) this] show ?thesis by (auto split: prod.splits sum.splits)
  next
    assume "P' w"
    from triple_apply [OF assms(2) this] show ?thesis by (auto split: prod.splits sum.splits)
  qed
qed

end
