(* ===== verification/Domain_State.thy ===== *)
theory Domain_State
  imports Prelude
begin

text \<open>
  The domain vocabulary (\<open>control/src/domain/\<close>: brand, errors, generation, identity, state,
  snapshot, guards, policy): the dimensions of one modem's snapshot, the guards that refuse
  impossible combinations, and the transitions that keep the revision monotone.
  A \<open>number\<close> that every caller keeps integral is an \<open>int\<close>; the safe-integer check of the
  constructors is written out. A \<open>ReadonlySet\<close> of technologies is a HOL set.
\<close>

section \<open>Errors and constructors of branded values\<close>

datatype impossible_state_code =
    RegisteredWhileAbsent
  | RegisteredRadioOff
  | RegisteredEmptyRatSet
  | ActiveStateWhileAbsent
  | RadioOffWhileActive
  | NmActivatedWhileAbsent
  | NmActivatedWithoutInterface
  | NmActivatedWithoutMmConnected
  | MultipleActiveSimSlots
  | LockedSimInEmptySlot
  | MmLockedWithoutSimLock
  | DataInterfaceNameWithoutPresence
  | RecoveryAttemptsNegative
  | RecoveryCooldownStageMismatch
  | RecoveryIdleWithAttempts

datatype domain_error =
    PlainDomainError string
  | ImpossibleStateError impossible_state_code string
  | PolicyBindingRefusedError string
  | RevisionMonotonicityError int int

definition nonEmptyString :: "string \<Rightarrow> string \<Rightarrow> domain_error + string" where
  "nonEmptyString value label =
     (if length value = 0 then Inl (PlainDomainError (label @ '' must be a non-empty string'')) else Inr value)"

definition nonNegativeInteger :: "int \<Rightarrow> string \<Rightarrow> domain_error + int" where
  "nonNegativeInteger value label =
     (if \<not> isSafeInteger value \<or> value < 0
      then Inl (PlainDomainError (label @ '' must be a non-negative safe integer, got '' @ show_int value))
      else Inr value)"

definition deviceGeneration :: "int \<Rightarrow> domain_error + int" where
  "deviceGeneration value = nonNegativeInteger value ''deviceGeneration''"

definition nextDeviceGeneration :: "int \<Rightarrow> domain_error + int" where
  "nextDeviceGeneration current = deviceGeneration (current + 1)"

definition isCurrentGeneration :: "int \<Rightarrow> int \<Rightarrow> bool" where
  "isCurrentGeneration completion current \<longleftrightarrow> completion = current"

definition epochMillis :: "int \<Rightarrow> domain_error + int" where
  "epochMillis value = nonNegativeInteger value ''epochMillis''"

section \<open>The dimensions of a snapshot\<close>

datatype presence = Present | Absent

datatype source_health = Live | Stale | SourceUnavailable

datatype sim_lock =
    LockUnknown | LockNone | SimPin | SimPuk | SimPin2 | SimPuk2 | NetPers | PermanentlyBlocked

record sim_slot =
  slot_index :: int
  slot_occupied :: bool
  slot_active :: bool
  slot_lock :: sim_lock

definition SIM_LOCK_REQUIRES_CARD :: "sim_lock set" where
  "SIM_LOCK_REQUIRES_CARD = {SimPin, SimPuk, SimPin2, SimPuk2, NetPers, PermanentlyBlocked}"

datatype radio_power = PowerUnknown | PowerOff | PowerLow | PowerOn

datatype mm_state =
    MmFailed | MmUnknown | MmInitializing | MmLocked | MmDisabled | MmDisabling | MmEnabling
  | MmEnabled | MmSearching | MmRegistered | MmDisconnecting | MmConnecting | MmConnected

definition MM_STATES_REQUIRING_RADIO :: "mm_state set" where
  "MM_STATES_REQUIRING_RADIO =
     {MmEnabled, MmSearching, MmRegistered, MmConnecting, MmConnected, MmDisconnecting}"

datatype registration_status = RegIdle | RegHome | RegSearching | RegDenied | RegUnknown | RegRoaming

datatype radio_tech = Gsm | Umts | Lte | Nr5g

record registration =
  reg_status :: registration_status
  reg_activeRats :: "radio_tech set"

definition isRegistered :: "registration_status \<Rightarrow> bool" where
  "isRegistered status \<longleftrightarrow> status = RegHome \<or> status = RegRoaming"

datatype nm_activation =
    NmUnmanaged | NmUnavailable | NmDisconnected | NmActivating | NmActivated | NmDeactivating | NmFailed

record data_interface =
  di_present :: bool
  di_name :: "string option"

datatype reconcile_status = Converged | Reconciling | PendingReconcile | Divergent | Unsupported

datatype recovery_stage =
    StageIdle | StageAttributing | StageNmCycle | StageMmCycle | StageReset | StagePowerCycle
  | StageCooldown | StageExhausted

record recovery_state =
  rec_stage :: recovery_stage
  rec_attempts :: int
  rec_cooldownUntil :: "int option"

section \<open>Identity\<close>

datatype identity_confidence = ConfHigh | ConfMedium | ConfLow

text \<open>\<open>EquipmentId\<close> is a tagged union: an IMEI or a serial with its confidence, or none (always low).\<close>

datatype equipment_id =
    ImeiId string identity_confidence
  | SerialId string identity_confidence
  | NoEquipment

fun equipment_confidence :: "equipment_id \<Rightarrow> identity_confidence" where
  "equipment_confidence (ImeiId v c) = c"
| "equipment_confidence (SerialId v c) = c"
| "equipment_confidence NoEquipment = ConfLow"

fun provenance_text :: "equipment_id \<Rightarrow> string" where
  "provenance_text (ImeiId v c) = ''imei''"
| "provenance_text (SerialId v c) = ''serial''"
| "provenance_text NoEquipment = ''none''"

record modem_identity =
  id_logicalSlotId :: "string option"
  id_equipmentId :: equipment_id
  id_subscriptionId :: "string option"
  id_ownNumbers :: "string list option"
  id_runtimePath :: string

definition logicalSlotId :: "string \<Rightarrow> domain_error + string" where
  "logicalSlotId value = nonEmptyString value ''logicalSlotId''"

definition runtimePath :: "string \<Rightarrow> domain_error + string" where
  "runtimePath value = nonEmptyString value ''runtimePath''"

text \<open>The regular expressions \<open>/^0+$/\<close> and \<open>/^\d{15,16}$/\<close> on the trimmed value.\<close>

definition all_zeros :: "string \<Rightarrow> bool" where
  "all_zeros s \<longleftrightarrow> s \<noteq> [] \<and> (\<forall>c \<in> set s. c = CHR ''0'')"

definition gradeImei :: "string \<Rightarrow> identity_confidence" where
  "gradeImei value =
     (let trimmed = js_trim value in
      if length trimmed = 0 \<or> all_zeros trimmed then ConfLow
      else if (\<forall>c \<in> set trimmed. is_digit c) \<and> (length trimmed = 15 \<or> length trimmed = 16)
           then ConfHigh else ConfMedium)"

definition imeiEquipmentId :: "string \<Rightarrow> equipment_id" where
  "imeiEquipmentId value = ImeiId value (gradeImei value)"

definition serialEquipmentId :: "string \<Rightarrow> equipment_id" where
  "serialEquipmentId value = SerialId value (if length (js_trim value) = 0 then ConfLow else ConfMedium)"

fun demoteToLowConfidence :: "equipment_id \<Rightarrow> equipment_id" where
  "demoteToLowConfidence NoEquipment = NoEquipment"
| "demoteToLowConfidence (ImeiId v c) = ImeiId v ConfLow"
| "demoteToLowConfidence (SerialId v c) = SerialId v ConfLow"

definition canBindPolicy :: "modem_identity \<Rightarrow> bool" where
  "canBindPolicy identity \<longleftrightarrow> equipment_confidence (id_equipmentId identity) \<noteq> ConfLow"

definition assertCanBindPolicy :: "modem_identity \<Rightarrow> domain_error + unit" where
  "assertCanBindPolicy identity =
     (if \<not> canBindPolicy identity
      then Inl (PolicyBindingRefusedError
             (''equipment id (provenance='' @ provenance_text (id_equipmentId identity) @ '') is low-confidence''))
      else Inr ())"

section \<open>Desired policy\<close>

record policy_binding_key =
  pbk_logicalSlotId :: "string option"
  pbk_equipmentId :: equipment_id

datatype ip_family = Ipv4 | Ipv6 | Ipv4v6

record desired_auth =
  auth_username :: "string option"
  auth_password :: "string option"

record desired_connection =
  dc_apn :: string
  dc_ipFamily :: ip_family
  dc_auth :: "desired_auth option"
  dc_networkId :: "string option"

record desired_radio =
  dr_preferenceOrdered :: "radio_tech list"
  dr_allowedSet :: "radio_tech set option"

record desired_recovery =
  recovery_enabled :: bool

record desired_usage =
  du_cycleDay :: "int option"
  du_thresholdBytes :: "int option"

record desired_policy =
  dp_boundTo :: policy_binding_key
  dp_enabled :: bool
  dp_connection :: desired_connection
  dp_roaming :: bool
  dp_radio :: desired_radio
  dp_simSlot :: "int option"
  dp_recovery :: desired_recovery
  dp_usage :: desired_usage

definition RECOVERY_DISABLED :: desired_recovery where
  "RECOVERY_DISABLED = \<lparr>recovery_enabled = False\<rparr>"

definition defaultCellularPolicy :: "policy_binding_key \<Rightarrow> desired_policy" where
  "defaultCellularPolicy boundTo =
     \<lparr>dp_boundTo = boundTo, dp_enabled = True,
      dp_connection = \<lparr>dc_apn = ''auto'', dc_ipFamily = Ipv4v6, dc_auth = None, dc_networkId = None\<rparr>,
      dp_roaming = False,
      dp_radio = \<lparr>dr_preferenceOrdered = [Nr5g, Lte, Umts, Gsm], dr_allowedSet = None\<rparr>,
      dp_simSlot = None, dp_recovery = RECOVERY_DISABLED,
      dp_usage = \<lparr>du_cycleDay = None, du_thresholdBytes = None\<rparr>\<rparr>"

definition policyBindingKey :: "modem_identity \<Rightarrow> domain_error + policy_binding_key" where
  "policyBindingKey identity =
     (case assertCanBindPolicy identity of
        Inl e \<Rightarrow> Inl e
      | Inr _ \<Rightarrow> Inr \<lparr>pbk_logicalSlotId = id_logicalSlotId identity,
                      pbk_equipmentId = id_equipmentId identity\<rparr>)"

lemma nonNegativeInteger_Inr:
  "nonNegativeInteger v l = Inr w \<longleftrightarrow> w = v \<and> 0 \<le> v \<and> v \<le> MAX_SAFE_INTEGER"
  by (auto simp: nonNegativeInteger_def isSafeInteger_def)

lemma demote_cannot_bind:
  "id_equipmentId identity = demoteToLowConfidence e \<Longrightarrow> \<not> canBindPolicy identity"
  by (cases e) (auto simp: canBindPolicy_def)

lemma policyBindingKey_Inr:
  "policyBindingKey identity = Inr k \<longleftrightarrow>
     canBindPolicy identity \<and>
     k = \<lparr>pbk_logicalSlotId = id_logicalSlotId identity, pbk_equipmentId = id_equipmentId identity\<rparr>"
  by (auto simp: policyBindingKey_def assertCanBindPolicy_def)

end
