(* ===== verification/Managed_Objects.thy ===== *)
theory Managed_Objects
  imports Prelude
begin

text \<open>
  A decoded D-Bus value (\<open>transport/types.ts\<close>) and the walkers over a decoded
  \<open>GetManagedObjects\<close> tree (\<open>backend/managed-objects.ts\<close>). A dict is a list of entries in wire
  order and a variant keeps its signature. A JavaScript number is an integer here: no reader of
  the tree looks at a fractional one.
\<close>

datatype dbus_value =
    DStr string
  | DNum int
  | DBool bool
  | DBig int
  | DBytes "nat list"
  | DVariant string dbus_value
  | DArr "dbus_value list"

record dbus_variant =
  v_signature :: string
  v_value :: dbus_value

type_synonym decoded_props = "(string \<times> dbus_variant) list"
type_synonym decoded_object = "string \<times> (string \<times> decoded_props) list"
type_synonym managed_objects = "decoded_object list"

definition MM_BUS_NAME :: string where "MM_BUS_NAME = ''org.freedesktop.ModemManager1''"
definition MODEM_IFACE :: string where "MODEM_IFACE = ''org.freedesktop.ModemManager1.Modem''"
definition MODEM3GPP_IFACE :: string where "MODEM3GPP_IFACE = ''org.freedesktop.ModemManager1.Modem.Modem3gpp''"
definition SIM_IFACE :: string where "SIM_IFACE = ''org.freedesktop.ModemManager1.Sim''"

section \<open>Walkers\<close>

definition objectPaths :: "managed_objects \<Rightarrow> string list" where
  "objectPaths tree = map fst tree"

definition findObject :: "managed_objects \<Rightarrow> string \<Rightarrow> decoded_object option" where
  "findObject tree path = find (\<lambda>obj. fst obj = path) tree"

definition findInterface :: "managed_objects \<Rightarrow> string \<Rightarrow> string \<Rightarrow> decoded_props option" where
  "findInterface tree path iface =
     (case findObject tree path of
        None \<Rightarrow> None
      | Some obj \<Rightarrow> map_option snd (find (\<lambda>entry. fst entry = iface) (snd obj)))"

definition pathsWithInterface :: "managed_objects \<Rightarrow> string \<Rightarrow> string list" where
  "pathsWithInterface tree iface =
     map fst (filter (\<lambda>obj. list_ex (\<lambda>entry. fst entry = iface) (snd obj)) tree)"

definition hasInterface :: "managed_objects \<Rightarrow> string \<Rightarrow> string \<Rightarrow> bool" where
  "hasInterface tree path iface \<longleftrightarrow> findInterface tree path iface \<noteq> None"

definition propValue :: "decoded_props option \<Rightarrow> string \<Rightarrow> dbus_value option" where
  "propValue props name =
     (case props of
        None \<Rightarrow> None
      | Some ps \<Rightarrow> map_option (\<lambda>entry. v_value (snd entry)) (find (\<lambda>entry. fst entry = name) ps))"

definition stringProp :: "decoded_props option \<Rightarrow> string \<Rightarrow> string option" where
  "stringProp props name = (case propValue props name of Some (DStr s) \<Rightarrow> Some s | _ \<Rightarrow> None)"

definition numberProp :: "decoded_props option \<Rightarrow> string \<Rightarrow> int option" where
  "numberProp props name = (case propValue props name of Some (DNum n) \<Rightarrow> Some n | _ \<Rightarrow> None)"

fun string_items :: "dbus_value list \<Rightarrow> string list" where
  "string_items [] = []"
| "string_items (DStr s # rest) = s # string_items rest"
| "string_items (_ # rest) = string_items rest"

definition stringArrayProp :: "decoded_props option \<Rightarrow> string \<Rightarrow> string list option" where
  "stringArrayProp props name = (case propValue props name of Some (DArr items) \<Rightarrow> Some (string_items items) | _ \<Rightarrow> None)"

definition followObjectPath ::
  "managed_objects \<Rightarrow> decoded_props option \<Rightarrow> string \<Rightarrow> string \<Rightarrow> decoded_props option" where
  "followObjectPath tree props propName iface =
     (case propValue props propName of Some (DStr target) \<Rightarrow> findInterface tree target iface | _ \<Rightarrow> None)"

text \<open>The equipment id the mapper and the ladder read: the modem's own, else the 3GPP one.\<close>

definition equipment_of_tree :: "decoded_props option \<Rightarrow> decoded_props option \<Rightarrow> string" where
  "equipment_of_tree modem modem3gpp =
     (case stringProp modem ''EquipmentIdentifier'' of
        Some e \<Rightarrow> e
      | None \<Rightarrow> (case stringProp modem3gpp ''Imei'' of Some e \<Rightarrow> e | None \<Rightarrow> []))"

text \<open>A path that \<open>pathsWithInterface\<close> lists is one the walkers find, when no path repeats.\<close>

lemma listed_paths_have_interface:
  "distinct (map fst tree) \<Longrightarrow> path \<in> set (pathsWithInterface tree iface) \<longleftrightarrow> hasInterface tree path iface"
proof (induction tree)
  case (Cons obj tree)
  have here: "find (\<lambda>e. fst e = iface) (snd obj) \<noteq> None \<longleftrightarrow> list_ex (\<lambda>e. fst e = iface) (snd obj)"
    by (force simp: find_None_iff list_ex_iff)
  have only: "path \<notin> set (pathsWithInterface tree iface)" if "fst obj = path"
    using Cons.prems that by (auto simp: pathsWithInterface_def)
  have "pathsWithInterface (obj # tree) iface =
      (if list_ex (\<lambda>e. fst e = iface) (snd obj) then fst obj # pathsWithInterface tree iface
       else pathsWithInterface tree iface)"
    by (simp add: pathsWithInterface_def)
  moreover have "hasInterface (obj # tree) path iface =
      (if fst obj = path then find (\<lambda>e. fst e = iface) (snd obj) \<noteq> None else hasInterface tree path iface)"
    by (auto simp: hasInterface_def findInterface_def findObject_def)
  ultimately show ?case using Cons here only by auto
qed (simp add: pathsWithInterface_def hasInterface_def findInterface_def findObject_def)

end
