(* ===== verification/Identity_Ladder.thy ===== *)
theory Identity_Ladder
  imports Domain_State Managed_Objects "HOL-Library.List_Lexorder" "HOL-Library.Char_ord"
begin

text \<open>
  The identity ladder (\<open>backend/identity-ladder.ts\<close>), which finds a durable key for a live modem,
  and the registry above it (\<open>backend/identity-registry.ts\<close>), which keeps one row per key.
\<close>

section \<open>The ladder\<close>

datatype slot_source = DeviceSlotUid | PhysdevSource | SysfsWalk | EquipmentFallback

definition SLOT_UID_PREFIX :: string where "SLOT_UID_PREFIX = ''slot-''"

record identity_facts =
  if_runtimePath :: string
  if_device :: "string option"
  if_physdev :: "string option"
  if_ports :: "string list option"
  if_equipmentId :: equipment_id

record resolved_identity =
  ri_identity :: modem_identity
  ri_slotSource :: slot_source
  ri_confidence :: identity_confidence
  ri_stableKey :: string

definition looksLikeSlotUid :: "string option \<Rightarrow> bool" where
  "looksLikeSlotUid device =
     (case device of None \<Rightarrow> False
      | Some d \<Rightarrow> prefix SLOT_UID_PREFIX d \<and> length d > length SLOT_UID_PREFIX)"

definition sysfsWalkKey :: "string list \<Rightarrow> string option" where
  "sysfsWalkKey ports =
     (let named = filter (\<lambda>p. length p > 0) (map js_trim ports) in
      if named = [] then None else Some (js_join ''+'' (sort named)))"

definition buildIdentity :: "identity_facts \<Rightarrow> string option \<Rightarrow> domain_error + modem_identity" where
  "buildIdentity facts slot =
     sum_bind (runtimePath (if_runtimePath facts)) (\<lambda>path.
       Inr \<lparr>id_logicalSlotId = slot, id_equipmentId = if_equipmentId facts, id_subscriptionId = None,
            id_ownNumbers = None, id_runtimePath = path\<rparr>)"

text \<open>The value of an equipment id that has one: what the ladder counts and the registry compares.\<close>

fun equipmentValue :: "equipment_id \<Rightarrow> string option" where
  "equipmentValue NoEquipment = None"
| "equipmentValue (ImeiId v c) = (if length (js_trim v) > 0 then Some v else None)"
| "equipmentValue (SerialId v c) = (if length (js_trim v) > 0 then Some v else None)"

definition resolve_slot ::
  "identity_facts \<Rightarrow> string \<Rightarrow> slot_source \<Rightarrow> identity_confidence \<Rightarrow> string \<Rightarrow> domain_error + resolved_identity" where
  "resolve_slot facts slot source conf key =
     sum_bind (logicalSlotId slot) (\<lambda>s. sum_bind (buildIdentity facts (Some s)) (\<lambda>i.
       Inr \<lparr>ri_identity = i, ri_slotSource = source, ri_confidence = conf, ri_stableKey = key\<rparr>))"

definition resolve_equipment :: "identity_facts \<Rightarrow> domain_error + resolved_identity" where
  "resolve_equipment facts =
     (let stableKey = (case equipmentValue (if_equipmentId facts) of
                         Some v \<Rightarrow> ''equip:'' @ v
                       | None \<Rightarrow> ''path:'' @ if_runtimePath facts)
      in sum_bind (buildIdentity facts None) (\<lambda>i.
           Inr \<lparr>ri_identity = i, ri_slotSource = EquipmentFallback, ri_confidence = ConfLow,
                ri_stableKey = stableKey\<rparr>))"

definition resolveModemIdentity :: "identity_facts \<Rightarrow> domain_error + resolved_identity" where
  "resolveModemIdentity facts =
     (if looksLikeSlotUid (if_device facts)
      then (let device = the (if_device facts) in
            resolve_slot facts device DeviceSlotUid ConfHigh (''slot:'' @ device))
      else case map_option js_trim (if_physdev facts) of
        Some (c # cs) \<Rightarrow>
          resolve_slot facts (''physdev:'' @ c # cs) PhysdevSource ConfHigh (''physdev:'' @ c # cs)
      | _ \<Rightarrow>
          (case Option.bind (if_ports facts) sysfsWalkKey of
             Some walk \<Rightarrow> resolve_slot facts (''sysfs:'' @ walk) SysfsWalk ConfMedium (''sysfs:'' @ walk)
           | None \<Rightarrow> resolve_equipment facts))"

definition count_values :: "identity_facts list \<Rightarrow> (string \<times> nat) list" where
  "count_values fs = fold (\<lambda>f counts.
     case equipmentValue (if_equipmentId f) of
       None \<Rightarrow> counts
     | Some v \<Rightarrow> AList.update v ((case map_of counts v of Some n \<Rightarrow> n | None \<Rightarrow> 0) + 1) counts) fs []"

fun equipment_text :: "equipment_id \<Rightarrow> string option" where
  "equipment_text NoEquipment = None"
| "equipment_text (ImeiId v c) = Some v"
| "equipment_text (SerialId v c) = Some v"

definition duplicated :: "(string \<times> nat) list \<Rightarrow> equipment_id \<Rightarrow> bool" where
  "duplicated counts e =
     (case equipment_text e of None \<Rightarrow> False
      | Some v \<Rightarrow> (case map_of counts v of Some n \<Rightarrow> n > 1 | None \<Rightarrow> False))"

fun sum_map :: "('a \<Rightarrow> 'e + 'b) \<Rightarrow> 'a list \<Rightarrow> 'e + 'b list" where
  "sum_map f [] = Inr []"
| "sum_map f (x # xs) = sum_bind (f x) (\<lambda>y. sum_bind (sum_map f xs) (\<lambda>ys. Inr (y # ys)))"

definition demoted_facts :: "(string \<times> nat) list \<Rightarrow> identity_facts \<Rightarrow> identity_facts" where
  "demoted_facts counts f =
     (if duplicated counts (if_equipmentId f)
      then f\<lparr>if_equipmentId := demoteToLowConfidence (if_equipmentId f)\<rparr> else f)"

definition resolveModemIdentities :: "identity_facts list \<Rightarrow> domain_error + resolved_identity list" where
  "resolveModemIdentities fs = sum_map (\<lambda>f. resolveModemIdentity (demoted_facts (count_values fs) f)) fs"

fun port_names :: "dbus_value list \<Rightarrow> string list" where
  "port_names [] = []"
| "port_names (DArr (DStr name # _) # rest) = name # port_names rest"
| "port_names (_ # rest) = port_names rest"

definition portNames :: "dbus_value option \<Rightarrow> string list option" where
  "portNames v =
     (case v of Some (DArr entries) \<Rightarrow>
        (let names = port_names entries in if length names > 0 then Some names else None)
      | _ \<Rightarrow> None)"

definition modemIdentityFactsFromTree :: "managed_objects \<Rightarrow> string \<Rightarrow> identity_facts" where
  "modemIdentityFactsFromTree tree modemPath =
     (let modem = findInterface tree modemPath MODEM_IFACE;
          modem3gpp = findInterface tree modemPath MODEM3GPP_IFACE
      in \<lparr>if_runtimePath = modemPath, if_device = stringProp modem ''Device'',
          if_physdev = stringProp modem ''Physdev'', if_ports = portNames (propValue modem ''Ports''),
          if_equipmentId = imeiEquipmentId (equipment_of_tree modem modem3gpp)\<rparr>)"

section \<open>The registry\<close>

record identity_row =
  ir_stableKey :: string
  ir_logicalSlotId :: "string option"
  ir_equipmentId :: equipment_id
  ir_runtimePath :: string

datatype identity_transition =
    Attached identity_row
  | Replugged identity_row string
  | EquipmentSwappedInSlot identity_row equipment_id
  | EquipmentMoved identity_row string "string option"

type_synonym identity_rows = "(string \<times> identity_row) list"

definition rowFrom :: "resolved_identity \<Rightarrow> identity_row" where
  "rowFrom resolved = \<lparr>ir_stableKey = ri_stableKey resolved,
     ir_logicalSlotId = id_logicalSlotId (ri_identity resolved),
     ir_equipmentId = id_equipmentId (ri_identity resolved),
     ir_runtimePath = id_runtimePath (ri_identity resolved)\<rparr>"

definition findByEquipment :: "identity_rows \<Rightarrow> equipment_id \<Rightarrow> string \<Rightarrow> identity_row option" where
  "findByEquipment rows equipment exceptKey =
     (case equipmentValue equipment of
        None \<Rightarrow> None
      | Some value \<Rightarrow> find (\<lambda>row. ir_stableKey row \<noteq> exceptKey \<and> equipmentValue (ir_equipmentId row) = Some value)
                        (map snd rows))"

definition applyToExisting ::
  "identity_rows \<Rightarrow> identity_row \<Rightarrow> resolved_identity \<Rightarrow> identity_row \<Rightarrow> identity_transition \<times> identity_rows" where
  "applyToExisting rows existing resolved row =
     (case (equipmentValue (ir_equipmentId existing), equipmentValue (id_equipmentId (ri_identity resolved))) of
        (Some before, Some after) \<Rightarrow>
          if before \<noteq> after
          then (EquipmentSwappedInSlot row (ir_equipmentId existing), AList.update (ir_stableKey row) row rows)
          else (Replugged row (ir_runtimePath existing), AList.update (ir_stableKey row) row rows)
      | _ \<Rightarrow> (Replugged row (ir_runtimePath existing), AList.update (ir_stableKey row) row rows))"

definition registry_apply :: "identity_rows \<Rightarrow> resolved_identity \<Rightarrow> identity_transition \<times> identity_rows" where
  "registry_apply rows resolved =
     (let row = rowFrom resolved in
      case map_of rows (ir_stableKey row) of
        Some existing \<Rightarrow> applyToExisting rows existing resolved row
      | None \<Rightarrow>
          (case findByEquipment rows (ir_equipmentId row) (ir_stableKey row) of
             Some moved \<Rightarrow>
               (EquipmentMoved row (ir_stableKey moved) (ir_logicalSlotId moved),
                AList.update (ir_stableKey row) row (AList.delete (ir_stableKey moved) rows))
           | None \<Rightarrow> (Attached row, AList.update (ir_stableKey row) row rows)))"

definition registry_remove :: "identity_rows \<Rightarrow> string \<Rightarrow> identity_rows" where
  "registry_remove rows stableKey = AList.delete stableKey rows"

definition registry_get :: "identity_rows \<Rightarrow> string \<Rightarrow> identity_row option" where
  "registry_get rows stableKey = map_of rows stableKey"

section \<open>What the ladder resolves\<close>

lemma resolve_slot_Inr:
  "resolve_slot facts slot source conf key = Inr r \<longleftrightarrow>
     slot \<noteq> [] \<and> if_runtimePath facts \<noteq> [] \<and>
     r = \<lparr>ri_identity = \<lparr>id_logicalSlotId = Some slot, id_equipmentId = if_equipmentId facts,
           id_subscriptionId = None, id_ownNumbers = None, id_runtimePath = if_runtimePath facts\<rparr>,
          ri_slotSource = source, ri_confidence = conf, ri_stableKey = key\<rparr>"
  by (auto simp: resolve_slot_def buildIdentity_def sum_bind_Inr logicalSlotId_def runtimePath_def nonEmptyString_def)

lemma resolve_equipment_Inr:
  "resolve_equipment facts = Inr r \<longleftrightarrow>
     if_runtimePath facts \<noteq> [] \<and>
     r = \<lparr>ri_identity = \<lparr>id_logicalSlotId = None, id_equipmentId = if_equipmentId facts,
           id_subscriptionId = None, id_ownNumbers = None, id_runtimePath = if_runtimePath facts\<rparr>,
          ri_slotSource = EquipmentFallback, ri_confidence = ConfLow,
          ri_stableKey = (case equipmentValue (if_equipmentId facts) of
             Some v \<Rightarrow> ''equip:'' @ v | None \<Rightarrow> ''path:'' @ if_runtimePath facts)\<rparr>"
  by (auto simp: resolve_equipment_def buildIdentity_def sum_bind_Inr runtimePath_def nonEmptyString_def)

lemmas resolve_Inr = resolve_slot_Inr resolve_equipment_Inr

lemma resolved_equipment: "resolveModemIdentity f = Inr r \<Longrightarrow> id_equipmentId (ri_identity r) = if_equipmentId f"
  by (auto simp: resolveModemIdentity_def resolve_Inr Let_def split: if_splits option.splits list.splits)

lemma resolved_slot:
  "resolveModemIdentity f = Inr r \<Longrightarrow> id_logicalSlotId (ri_identity r) = None \<longleftrightarrow> ri_confidence r = ConfLow"
  by (auto simp: resolveModemIdentity_def resolve_Inr Let_def split: if_splits option.splits list.splits)

lemma equipmentValue_demote [simp]: "equipmentValue (demoteToLowConfidence e) = equipmentValue e"
  by (cases e) auto

text \<open>The equipment's confidence decides nothing but the binding.\<close>

lemma resolve_demoted:
  assumes "resolveModemIdentity (f\<lparr>if_equipmentId := demoteToLowConfidence (if_equipmentId f)\<rparr>) = Inr r"
  shows "\<exists>r'. resolveModemIdentity f = Inr r' \<and> ri_stableKey r = ri_stableKey r' \<and>
    id_logicalSlotId (ri_identity r) = id_logicalSlotId (ri_identity r')"
  using assms
  by (auto simp: resolveModemIdentity_def resolve_Inr Let_def split: if_splits option.splits list.splits)

lemma count_values_get:
  "(case map_of (count_values fs) v of Some n \<Rightarrow> n | None \<Rightarrow> 0) =
     length (filter (\<lambda>f. equipmentValue (if_equipmentId f) = Some v) fs)"
proof (induction fs rule: rev_induct)
  case (snoc f fs)
  then show ?case by (auto simp: count_values_def map_get_set split: option.splits)
qed (simp add: count_values_def)

lemma filter_more_than_one:
  assumes "i < length xs" and "P (xs ! i)"
  shows "1 < length (filter P xs) \<longleftrightarrow> (\<exists>j < length xs. j \<noteq> i \<and> P (xs ! j))"
proof -
  let ?S = "{j. j < length xs \<and> P (xs ! j)}"
  have fin: "finite ?S" by simp
  have i: "i \<in> ?S" using assms by simp
  have "1 < card ?S \<longleftrightarrow> card (?S - {i}) \<noteq> 0" using i by (auto simp: card_Diff_singleton)
  also have "\<dots> \<longleftrightarrow> ?S - {i} \<noteq> {}" using fin by simp
  also have "\<dots> \<longleftrightarrow> (\<exists>j < length xs. j \<noteq> i \<and> P (xs ! j))" by auto
  finally show ?thesis by (simp add: length_filter_conv_card)
qed

lemma equipmentValue_text: "equipmentValue e = Some v \<Longrightarrow> equipment_text e = Some v"
  by (cases e) (auto split: if_splits)

lemma equipment_text_value: "equipment_text e = Some v \<Longrightarrow> equipmentValue e \<noteq> Some v \<Longrightarrow> length (js_trim v) = 0"
  by (cases e) (auto split: if_splits)

lemma no_blank_value: "length (js_trim v) = 0 \<Longrightarrow> equipmentValue e \<noteq> Some v"
  by (cases e) (auto split: if_splits)

lemma duplicated_iff:
  "duplicated (count_values fs) e \<longleftrightarrow>
     (\<exists>v. equipmentValue e = Some v \<and> 1 < length (filter (\<lambda>f. equipmentValue (if_equipmentId f) = Some v) fs))"
proof (cases "equipment_text e")
  case None
  then show ?thesis using equipmentValue_text by (fastforce simp: duplicated_def)
next
  case (Some v)
  have get: "(case map_of (count_values fs) v of Some n \<Rightarrow> n > 1 | None \<Rightarrow> False) \<longleftrightarrow>
      1 < length (filter (\<lambda>f. equipmentValue (if_equipmentId f) = Some v) fs)"
    unfolding count_values_get [symmetric] by (auto split: option.split)
  show ?thesis
  proof (cases "equipmentValue e = Some v")
    case True
    then show ?thesis using Some get by (simp add: duplicated_def)
  next
    case False
    with equipment_text_value [OF Some] no_blank_value
    have "filter (\<lambda>f. equipmentValue (if_equipmentId f) = Some v) fs = []" by (simp add: filter_empty_conv)
    with get have "\<not> duplicated (count_values fs) e" using Some by (simp add: duplicated_def)
    moreover have "equipmentValue e = None" using False Some equipmentValue_text by (cases "equipmentValue e") fastforce+
    ultimately show ?thesis by simp
  qed
qed

lemma sum_map_Inr:
  "sum_map f xs = Inr ys \<Longrightarrow> length ys = length xs \<and> (\<forall>i < length xs. f (xs ! i) = Inr (ys ! i))"
  by (induction xs arbitrary: ys) (auto simp: sum_bind_Inr nth_Cons split: nat.split)

text \<open>The modem whose equipment another modem of the batch shows too.\<close>

definition shares_equipment :: "identity_facts list \<Rightarrow> nat \<Rightarrow> bool" where
  "shares_equipment fs i \<longleftrightarrow>
     equipmentValue (if_equipmentId (fs ! i)) \<noteq> None \<and>
     (\<exists>j < length fs. j \<noteq> i \<and> equipmentValue (if_equipmentId (fs ! j)) = equipmentValue (if_equipmentId (fs ! i)))"

lemma duplicated_shares:
  assumes "i < length fs"
  shows "duplicated (count_values fs) (if_equipmentId (fs ! i)) \<longleftrightarrow> shares_equipment fs i"
proof (cases "equipmentValue (if_equipmentId (fs ! i))")
  case (Some v)
  then show ?thesis
    using filter_more_than_one [OF assms, of "\<lambda>f. equipmentValue (if_equipmentId f) = Some v"]
    by (simp add: duplicated_iff shares_equipment_def)
qed (simp add: duplicated_iff shares_equipment_def)

lemma resolved_in_batch:
  assumes "resolveModemIdentities fs = Inr rs" and "i < length fs"
  shows "resolveModemIdentity (demoted_facts (count_values fs) (fs ! i)) = Inr (rs ! i)"
  using sum_map_Inr [OF assms(1) [unfolded resolveModemIdentities_def]] assms(2) by blast

section \<open>The rows of the registry\<close>

definition registry_ok :: "identity_rows \<Rightarrow> bool" where
  "registry_ok rows \<longleftrightarrow> distinct (map fst rows) \<and> (\<forall>k row. (k, row) \<in> set rows \<longrightarrow> ir_stableKey row = k)"

lemma registry_ok_Nil: "registry_ok []"
  by (simp add: registry_ok_def)

lemma registry_ok_delete: "registry_ok rows \<Longrightarrow> registry_ok (AList.delete k rows)"
  unfolding registry_ok_def by (intro conjI distinct_delete) (auto simp: AList.delete_eq)

lemma registry_ok_set:
  assumes "registry_ok rows"
  shows "registry_ok (AList.update (ir_stableKey row) row rows)"
proof -
  have d: "distinct (map fst (AList.update (ir_stableKey row) row rows))"
    using assms by (simp add: registry_ok_def distinct_keys_set)
  have "ir_stableKey r = k" if "(k, r) \<in> set (AList.update (ir_stableKey row) row rows)" for k r
  proof -
    from that d have "map_of (AList.update (ir_stableKey row) row rows) k = Some r" by simp
    then have "k = ir_stableKey row \<and> r = row \<or> map_of rows k = Some r" by (simp add: map_get_set split: if_splits)
    with assms show ?thesis unfolding registry_ok_def by (auto dest: map_of_SomeD)
  qed
  with d show ?thesis by (auto simp: registry_ok_def)
qed

text \<open>Every operation keeps one row per key, under its own key.\<close>

lemma applyToExisting_rows:
  "snd (applyToExisting rows existing resolved row) = AList.update (ir_stableKey row) row rows"
  by (auto simp: applyToExisting_def split: option.split)

lemma registry_ok_apply: "registry_ok rows \<Longrightarrow> registry_ok (snd (registry_apply rows resolved))"
  by (auto simp: registry_apply_def Let_def applyToExisting_rows intro!: registry_ok_set registry_ok_delete
      split: option.split)

inductive registry_run :: "identity_rows \<Rightarrow> bool" where
  registry_new: "registry_run []"
| registry_applied: "registry_run rows \<Longrightarrow> registry_run (snd (registry_apply rows resolved))"
| registry_removed: "registry_run rows \<Longrightarrow> registry_run (registry_remove rows stableKey)"

lemma registry_run_ok: "registry_run rows \<Longrightarrow> registry_ok rows"
  by (induction rule: registry_run.induct)
     (auto simp: registry_ok_Nil registry_ok_apply registry_ok_delete registry_remove_def)

lemma findByEquipment_Some:
  assumes "registry_ok rows" and "findByEquipment rows e key = Some row"
  shows "map_of rows (ir_stableKey row) = Some row \<and> ir_stableKey row \<noteq> key \<and>
    equipmentValue e \<noteq> None \<and> equipmentValue (ir_equipmentId row) = equipmentValue e"
proof -
  obtain v where v: "equipmentValue e = Some v" using assms(2) by (auto simp: findByEquipment_def split: option.splits)
  with assms(2) have "row \<in> snd ` set rows" "ir_stableKey row \<noteq> key" "equipmentValue (ir_equipmentId row) = Some v"
    by (auto simp: findByEquipment_def find_Some_iff)
  with assms(1) v show ?thesis by (auto simp: registry_ok_def)
qed

lemma length_update: "length (AList.update k v m) = (if map_of m k = None then length m + 1 else length m)"
  by (induction m) auto

lemma length_delete_present:
  assumes "distinct (map fst m)" and "map_of m k \<noteq> None"
  shows "length (AList.delete k m) + 1 = length m"
  using assms by (induction m) (auto simp: map_of_eq_None_iff image_iff, force)

section \<open>Properties\<close>

text \<open>C28: a duplicated equipment id never binds a policy: in a resolved batch, a modem whose equipment another modem shows too is resolved like alone, with the same durable key and slot, but may not bind a durable policy, and every other modem keeps its equipment id; a modem without a slot is exactly one of low confidence.\<close>

theorem duplicate_equipment_never_binds:
  assumes "resolveModemIdentities fs = Inr rs"
  shows "length rs = length fs \<and>
    (\<forall>i < length fs.
      (if shares_equipment fs i then \<not> canBindPolicy (ri_identity (rs ! i))
       else id_equipmentId (ri_identity (rs ! i)) = if_equipmentId (fs ! i)) \<and>
      (id_logicalSlotId (ri_identity (rs ! i)) = None \<longleftrightarrow> ri_confidence (rs ! i) = ConfLow) \<and>
      (\<exists>r. resolveModemIdentity (fs ! i) = Inr r \<and> ri_stableKey (rs ! i) = ri_stableKey r \<and>
        id_logicalSlotId (ri_identity (rs ! i)) = id_logicalSlotId (ri_identity r)))"
proof (intro conjI allI impI)
  show "length rs = length fs" using assms sum_map_Inr by (fastforce simp: resolveModemIdentities_def)
next
  fix i assume i: "i < length fs"
  note r = resolved_in_batch [OF assms i]
  show "if shares_equipment fs i then \<not> canBindPolicy (ri_identity (rs ! i))
       else id_equipmentId (ri_identity (rs ! i)) = if_equipmentId (fs ! i)"
    using resolved_equipment [OF r]
    by (auto simp: demoted_facts_def duplicated_shares [OF i] intro!: demote_cannot_bind)
  show "id_logicalSlotId (ri_identity (rs ! i)) = None \<longleftrightarrow> ri_confidence (rs ! i) = ConfLow"
    by (rule resolved_slot [OF r])
  show "\<exists>r'. resolveModemIdentity (fs ! i) = Inr r' \<and> ri_stableKey (rs ! i) = ri_stableKey r' \<and>
      id_logicalSlotId (ri_identity (rs ! i)) = id_logicalSlotId (ri_identity r')"
    using r resolve_demoted by (auto simp: demoted_facts_def split: if_splits)
qed

definition sample_facts :: "string \<Rightarrow> string option \<Rightarrow> string \<Rightarrow> identity_facts" where
  "sample_facts path device imei = \<lparr>if_runtimePath = path, if_device = device, if_physdev = None,
     if_ports = None, if_equipmentId = imeiEquipmentId imei\<rparr>"

definition sample_batch :: "identity_facts list" where
  "sample_batch = [sample_facts ''/m/0'' (Some ''slot-a'') ''123456789012345'',
     sample_facts ''/m/1'' None ''123456789012345'', sample_facts ''/m/2'' None ''999999999999999'']"

lemma duplicate_equipment_never_binds_witness:
  "\<exists>r0 r1 r2. resolveModemIdentities sample_batch = Inr [r0, r1, r2] \<and>
     \<not> canBindPolicy (ri_identity r0) \<and> \<not> canBindPolicy (ri_identity r1) \<and> canBindPolicy (ri_identity r2)"
proof -
  have "\<not> isl (resolveModemIdentities sample_batch)" by code_simp
  then obtain rs where rs: "resolveModemIdentities sample_batch = Inr rs"
    by (cases "resolveModemIdentities sample_batch") auto
  note all = duplicate_equipment_never_binds [OF rs]
  have len: "length rs = 3" using all by (simp add: sample_batch_def)
  have shared: "shares_equipment sample_batch 0" "shares_equipment sample_batch 1" "\<not> shares_equipment sample_batch 2"
    by code_simp+
  have "length sample_batch = 3" by (simp add: sample_batch_def)
  with all shared have "\<not> canBindPolicy (ri_identity (rs ! 0))" "\<not> canBindPolicy (ri_identity (rs ! 1))"
      "id_equipmentId (ri_identity (rs ! 2)) = if_equipmentId (sample_batch ! 2)" by auto
  moreover have "equipment_confidence (if_equipmentId (sample_batch ! 2)) = ConfHigh" by code_simp
  ultimately show ?thesis using rs len by (auto simp: length_Suc_conv numeral_3_eq_3 canBindPolicy_def)
qed

text \<open>The registry keeps one row per durable key: after any operations each row stands under its own key, and applying a resolved identity leaves its row (with the live path) under its key, touches no other key but the one a move leaves, adds a row exactly when the modem attaches, and reports a replug, a swap or a move exactly with the row it replaced.\<close>

theorem registry_one_row_per_key:
  assumes "registry_run rows"
  shows "registry_ok rows \<and>
    (let row = rowFrom r; key = ri_stableKey r; out = registry_apply rows r; rows' = snd out in
     registry_ok rows' \<and> map_of rows' key = Some row \<and>
     (case fst out of
        Attached new \<Rightarrow> new = row \<and> map_of rows key = None \<and> length rows' = length rows + 1 \<and>
          (\<forall>k. k \<noteq> key \<longrightarrow> map_of rows' k = map_of rows k)
      | Replugged new path \<Rightarrow> new = row \<and> map_option ir_runtimePath (map_of rows key) = Some path \<and>
          length rows' = length rows \<and> (\<forall>k. k \<noteq> key \<longrightarrow> map_of rows' k = map_of rows k)
      | EquipmentSwappedInSlot new e \<Rightarrow> new = row \<and> map_option ir_equipmentId (map_of rows key) = Some e \<and>
          equipmentValue e \<noteq> equipmentValue (ir_equipmentId row) \<and>
          length rows' = length rows \<and> (\<forall>k. k \<noteq> key \<longrightarrow> map_of rows' k = map_of rows k)
      | EquipmentMoved new old slot \<Rightarrow> new = row \<and> map_of rows key = None \<and> old \<noteq> key \<and>
          map_option ir_logicalSlotId (map_of rows old) = Some slot \<and> map_of rows' old = None \<and>
          map_option (\<lambda>m. equipmentValue (ir_equipmentId m)) (map_of rows old) = Some (equipmentValue (ir_equipmentId row)) \<and>
          length rows' = length rows \<and> (\<forall>k. k \<notin> {key, old} \<longrightarrow> map_of rows' k = map_of rows k)))"
proof -
  note ok = registry_run_ok [OF assms]
  have key: "ir_stableKey (rowFrom r) = ri_stableKey r" "ir_equipmentId (rowFrom r) = id_equipmentId (ri_identity r)"
    by (simp_all add: rowFrom_def)
  show ?thesis
  proof (cases "map_of rows (ri_stableKey r)")
    case (Some existing)
    then show ?thesis
      using ok registry_ok_apply [OF ok, of r]
      by (auto simp: registry_apply_def Let_def key applyToExisting_def map_get_set length_update simp del: map_of_eq_Some_iff
          split: option.split)
  next
    case None
    show ?thesis
    proof (cases "findByEquipment rows (ir_equipmentId (rowFrom r)) (ri_stableKey r)")
      case free: None
      then show ?thesis
        using ok registry_ok_apply [OF ok, of r] None
        by (simp add: registry_apply_def Let_def key map_get_set length_update del: map_of_eq_Some_iff)
    next
      case (Some moved)
      note m = findByEquipment_Some [OF ok Some]
      have len: "length (AList.delete (ir_stableKey moved) rows) + 1 = length rows"
        using ok m by (intro length_delete_present) (auto simp: registry_ok_def)
      have "map_of (AList.delete (ir_stableKey moved) rows) (ri_stableKey r) = None"
        using None by (simp add: map_get_delete)
      with m len show ?thesis
        using ok registry_ok_apply [OF ok, of r] None Some
        by (simp add: registry_apply_def Let_def key map_get_set map_get_delete length_update del: map_of_eq_Some_iff)
    qed
  qed
qed

definition sample_resolved :: "string \<Rightarrow> string \<Rightarrow> resolved_identity" where
  "sample_resolved slot imei = \<lparr>ri_identity = \<lparr>id_logicalSlotId = Some slot, id_equipmentId = imeiEquipmentId imei,
     id_subscriptionId = None, id_ownNumbers = None, id_runtimePath = ''/m''\<rparr>,
     ri_slotSource = DeviceSlotUid, ri_confidence = ConfHigh, ri_stableKey = ''slot:'' @ slot\<rparr>"

lemma registry_one_row_per_key_witness:
  "fst (registry_apply (snd (registry_apply [] (sample_resolved ''slot-a'' ''12''))) (sample_resolved ''slot-b'' ''12'')) =
     EquipmentMoved (rowFrom (sample_resolved ''slot-b'' ''12'')) ''slot:slot-a'' (Some ''slot-a'') \<and>
   registry_ok (snd (registry_apply [] (sample_resolved ''slot-a'' ''12'')))"
proof
  show "registry_ok (snd (registry_apply [] (sample_resolved ''slot-a'' ''12'')))"
    using registry_one_row_per_key [OF registry_applied [OF registry_new]] by blast
qed code_simp

text \<open>
  What the row per key does not promise: one row per modem. A modem that moves into a slot the
  registry has a row for is reported as a swap, and its old row stays; two modems that share an
  equipment id and have no slot share one key.
\<close>

lemma swap_leaves_stale_row:
  assumes "registry_ok rows" and "map_of rows (ri_stableKey r) = Some old"
    and "map_of rows k = Some elsewhere" and "k \<noteq> ri_stableKey r"
    and "equipmentValue (ir_equipmentId elsewhere) = equipmentValue (id_equipmentId (ri_identity r))"
    and "equipmentValue (ir_equipmentId old) \<noteq> None" and "equipmentValue (id_equipmentId (ri_identity r)) \<noteq> None"
    and "equipmentValue (ir_equipmentId old) \<noteq> equipmentValue (id_equipmentId (ri_identity r))"
  shows "fst (registry_apply rows r) = EquipmentSwappedInSlot (rowFrom r) (ir_equipmentId old) \<and>
    map_of (snd (registry_apply rows r)) k = Some elsewhere \<and>
    map_of (snd (registry_apply rows r)) (ri_stableKey r) = Some (rowFrom r)"
  using assms
  by (auto simp: registry_apply_def Let_def rowFrom_def applyToExisting_def map_get_set simp del: map_of_eq_Some_iff)

lemma duplicates_share_a_key:
  "resolveModemIdentities [sample_facts ''/m/0'' None ''12'', sample_facts ''/m/1'' None ''12''] = Inr [r0, r1] \<Longrightarrow>
     ri_stableKey r0 = ri_stableKey r1"
proof -
  assume "resolveModemIdentities [sample_facts ''/m/0'' None ''12'', sample_facts ''/m/1'' None ''12''] = Inr [r0, r1]"
  note all = resolved_in_batch [OF this]
  have "ri_stableKey r0 = ''equip:12''" "ri_stableKey r1 = ''equip:12''"
    using all [of 0] all [of 1]
    by (auto simp: demoted_facts_def sample_facts_def imeiEquipmentId_def resolveModemIdentity_def
        resolve_equipment_Inr looksLikeSlotUid_def is_space_def js_trim_def split: if_splits)
  then show ?thesis by simp
qed

end
