(* ===== verification/Json.thy ===== *)
theory Json
  imports Prelude
begin

text \<open>
  \<open>JSON.stringify\<close> and \<open>JSON.parse\<close> on byte strings, the two functions the journal codec and the
  persisted stores of the library rest on. A printed document holds integers only (the code
  writes counters, days and epoch milliseconds); a parsed number is its exact decimal value, a
  rational. \<open>JSON.parse\<close> keeps the last value of a duplicate key at the place of the first.
  A \<open>\u\<close> escape is decoded to UTF-8, a surrogate pair to its one code point.
\<close>

datatype 'n json =
    JNull
  | JBool bool
  | JNum 'n
  | JStr string
  | JArr "'n json list"
  | JObj "(string \<times> 'n json) list"

section \<open>Printing\<close>

definition QUOTE :: char where "QUOTE = CHR 0x22"
definition BACKSLASH :: char where "BACKSLASH = CHR 0x5C"

definition hex_digit :: "nat \<Rightarrow> char" where
  "hex_digit n = (if n < 10 then char_of (48 + n) else char_of (87 + n))"

definition escape_char :: "char \<Rightarrow> string" where
  "escape_char c =
     (if c = QUOTE then [BACKSLASH, QUOTE]
      else if c = BACKSLASH then [BACKSLASH, BACKSLASH]
      else if c = CHR 0x08 then BACKSLASH # ''b''
      else if c = CHR 0x0C then BACKSLASH # ''f''
      else if c = CHR 0x0A then BACKSLASH # ''n''
      else if c = CHR 0x0D then BACKSLASH # ''r''
      else if c = CHR 0x09 then BACKSLASH # ''t''
      else if (of_char c :: nat) < 32
      then BACKSLASH # ''u00'' @ [hex_digit (of_char c div 16), hex_digit (of_char c mod 16)]
      else [c])"

definition json_string :: "string \<Rightarrow> string" where
  "json_string s = QUOTE # concat (map escape_char s) @ [QUOTE]"

fun json_print :: "int json \<Rightarrow> string"
and json_elems :: "int json list \<Rightarrow> string"
and json_members :: "(string \<times> int json) list \<Rightarrow> string" where
  "json_print JNull = ''null''"
| "json_print (JBool b) = (if b then ''true'' else ''false'')"
| "json_print (JNum i) = show_int i"
| "json_print (JStr s) = json_string s"
| "json_print (JArr xs) = ''['' @ json_elems xs @ '']''"
| "json_print (JObj ms) = ''{'' @ json_members ms @ ''}''"
| "json_elems [] = []"
| "json_elems [x] = json_print x"
| "json_elems (x # y # ys) = json_print x @ '','' @ json_elems (y # ys)"
| "json_members [] = []"
| "json_members [(k, v)] = json_string k @ '':'' @ json_print v"
| "json_members ((k, v) # m # ms) = json_string k @ '':'' @ json_print v @ '','' @ json_members (m # ms)"

section \<open>Parsing\<close>

definition json_ws :: "char \<Rightarrow> bool" where
  "json_ws c \<longleftrightarrow> c = CHR '' '' \<or> c = CHR 0x09 \<or> c = CHR 0x0A \<or> c = CHR 0x0D"

definition skip_ws :: "string \<Rightarrow> string" where
  "skip_ws s = dropWhile json_ws s"

definition hex_val :: "char \<Rightarrow> nat option" where
  "hex_val c =
     (let n = (of_char c :: nat) in
      if 48 \<le> n \<and> n \<le> 57 then Some (n - 48)
      else if 97 \<le> n \<and> n \<le> 102 then Some (n - 87)
      else if 65 \<le> n \<and> n \<le> 70 then Some (n - 55)
      else None)"

definition hex4 :: "char \<Rightarrow> char \<Rightarrow> char \<Rightarrow> char \<Rightarrow> nat option" where
  "hex4 a b c d =
     (case (hex_val a, hex_val b, hex_val c, hex_val d) of
        (Some a', Some b', Some c', Some d') \<Rightarrow> Some (4096 * a' + 256 * b' + 16 * c' + d')
      | _ \<Rightarrow> None)"

datatype piece = RawByte char | CodeUnit nat

definition simple_escape :: "char \<Rightarrow> char option" where
  "simple_escape e =
     (if e = QUOTE then Some QUOTE
      else if e = BACKSLASH then Some BACKSLASH
      else if e = CHR ''/'' then Some (CHR ''/'')
      else if e = CHR ''b'' then Some (CHR 0x08)
      else if e = CHR ''f'' then Some (CHR 0x0C)
      else if e = CHR ''n'' then Some (CHR 0x0A)
      else if e = CHR ''r'' then Some (CHR 0x0D)
      else if e = CHR ''t'' then Some (CHR 0x09)
      else None)"

text \<open>The characters of a string literal, after its opening quote.\<close>

fun parse_chars :: "string \<Rightarrow> (piece list \<times> string) option" where
  "parse_chars [] = None"
| "parse_chars (c # r) =
     (if c = QUOTE then Some ([], r)
      else if (of_char c :: nat) < 32 then None
      else if c = BACKSLASH
      then (case r of
              [] \<Rightarrow> None
            | e # r1 \<Rightarrow>
                if e = CHR ''u''
                then (case r1 of
                        h1 # h2 # h3 # h4 # r2 \<Rightarrow>
                          (case hex4 h1 h2 h3 h4 of
                             None \<Rightarrow> None
                           | Some u \<Rightarrow> map_option (apfst ((#) (CodeUnit u))) (parse_chars r2))
                      | _ \<Rightarrow> None)
                else (case simple_escape e of
                        None \<Rightarrow> None
                      | Some c' \<Rightarrow> map_option (apfst ((#) (RawByte c'))) (parse_chars r1)))
      else map_option (apfst ((#) (RawByte c))) (parse_chars r))"

definition utf8 :: "nat \<Rightarrow> string" where
  "utf8 n =
     (if n < 128 then [char_of n]
      else if n < 2048 then [char_of (192 + n div 64), char_of (128 + n mod 64)]
      else if n < 65536
      then [char_of (224 + n div 4096), char_of (128 + n div 64 mod 64), char_of (128 + n mod 64)]
      else [char_of (240 + n div 262144), char_of (128 + n div 4096 mod 64),
            char_of (128 + n div 64 mod 64), char_of (128 + n mod 64)])"

fun assemble :: "piece list \<Rightarrow> string" where
  "assemble [] = []"
| "assemble (RawByte c # ps) = c # assemble ps"
| "assemble (CodeUnit h # CodeUnit l # ps) =
     (if 55296 \<le> h \<and> h < 56320 \<and> 56320 \<le> l \<and> l < 57344
      then utf8 (65536 + 1024 * (h - 55296) + (l - 56320)) @ assemble ps
      else utf8 h @ assemble (CodeUnit l # ps))"
| "assemble (CodeUnit h # ps) = utf8 h @ assemble ps"

definition parse_string_tail :: "string \<Rightarrow> (string \<times> string) option" where
  "parse_string_tail s = map_option (apfst assemble) (parse_chars s)"

definition digits_of :: "string \<Rightarrow> string" where "digits_of s = takeWhile is_digit s"
definition after_digits :: "string \<Rightarrow> string" where "after_digits s = dropWhile is_digit s"

definition parse_fraction :: "string \<Rightarrow> (rat \<times> string) option" where
  "parse_fraction s =
     (case s of
        c # r \<Rightarrow>
          if c = CHR ''.''
          then (if digits_of r = [] then None
                else Some (of_nat (nat_of_digits (digits_of r)) / 10 ^ length (digits_of r), after_digits r))
          else Some (0, s)
      | [] \<Rightarrow> Some (0, s))"

definition parse_exponent :: "string \<Rightarrow> (rat \<times> string) option" where
  "parse_exponent s =
     (case s of
        c # r \<Rightarrow>
          if c = CHR ''e'' \<or> c = CHR ''E''
          then (let negative = (case r of d # _ \<Rightarrow> d = CHR ''-'' | [] \<Rightarrow> False);
                    r' = (case r of d # r1 \<Rightarrow> if d = CHR ''-'' \<or> d = CHR ''+'' then r1 else r | [] \<Rightarrow> r)
                in if digits_of r' = [] then None
                   else Some (if negative then 1 / 10 ^ nat_of_digits (digits_of r')
                              else 10 ^ nat_of_digits (digits_of r'), after_digits r'))
          else Some (1, s)
      | [] \<Rightarrow> Some (1, s))"

definition parse_number :: "string \<Rightarrow> (rat \<times> string) option" where
  "parse_number s =
     (let negative = (case s of c # _ \<Rightarrow> c = CHR ''-'' | [] \<Rightarrow> False);
          s1 = (if negative then tl s else s);
          ds = digits_of s1
      in if ds = [] \<or> (hd ds = CHR ''0'' \<and> length ds > 1) then None
         else case parse_fraction (after_digits s1) of
           None \<Rightarrow> None
         | Some (fraction, s2) \<Rightarrow>
             (case parse_exponent s2 of
                None \<Rightarrow> None
              | Some (scale, s3) \<Rightarrow>
                  let magnitude = (of_nat (nat_of_digits ds) + fraction) * scale
                  in Some (if negative then - magnitude else magnitude, s3)))"

definition js_object :: "(string \<times> 'v) list \<Rightarrow> (string \<times> 'v) list" where
  "js_object ms = foldl (\<lambda>m kv. AList.update (fst kv) (snd kv) m) [] ms"

definition literal :: "string \<Rightarrow> 'a \<Rightarrow> string \<Rightarrow> ('a \<times> string) option" where
  "literal word v s = (if take (length word) s = word then Some (v, drop (length word) s) else None)"

text \<open>
  The recursive descent, with the number of nested calls as fuel: every call consumes a
  character, so twice the length of the text is enough (\<open>parse_value_fuel\<close> below).
\<close>

fun parse_value :: "nat \<Rightarrow> string \<Rightarrow> (rat json \<times> string) option"
and parse_elems :: "nat \<Rightarrow> string \<Rightarrow> (rat json list \<times> string) option"
and parse_members :: "nat \<Rightarrow> string \<Rightarrow> ((string \<times> rat json) list \<times> string) option" where
  "parse_value 0 s = None"
| "parse_value (Suc n) s =
     (case skip_ws s of
        [] \<Rightarrow> None
      | c # r \<Rightarrow>
          if c = QUOTE then map_option (apfst JStr) (parse_string_tail r)
          else if c = CHR ''['' then
            (case skip_ws r of
               d # r' \<Rightarrow> if d = CHR '']'' then Some (JArr [], r')
                          else map_option (apfst JArr) (parse_elems n r)
             | [] \<Rightarrow> None)
          else if c = CHR ''{'' then
            (case skip_ws r of
               d # r' \<Rightarrow> if d = CHR ''}'' then Some (JObj [], r')
                          else map_option (apfst (\<lambda>ms. JObj (js_object ms))) (parse_members n r)
             | [] \<Rightarrow> None)
          else if c = CHR ''t'' then literal ''true'' (JBool True) (c # r)
          else if c = CHR ''f'' then literal ''false'' (JBool False) (c # r)
          else if c = CHR ''n'' then literal ''null'' JNull (c # r)
          else map_option (apfst JNum) (parse_number (c # r)))"
| "parse_elems 0 s = None"
| "parse_elems (Suc n) s =
     (case parse_value n s of
        None \<Rightarrow> None
      | Some (v, r) \<Rightarrow>
          (case skip_ws r of
             [] \<Rightarrow> None
           | d # r' \<Rightarrow>
               if d = CHR '','' then map_option (apfst ((#) v)) (parse_elems n r')
               else if d = CHR '']'' then Some ([v], r')
               else None))"
| "parse_members 0 s = None"
| "parse_members (Suc n) s =
     (case skip_ws s of
        [] \<Rightarrow> None
      | c # r \<Rightarrow>
          if c \<noteq> QUOTE then None
          else case parse_string_tail r of
            None \<Rightarrow> None
          | Some (k, r1) \<Rightarrow>
              (case skip_ws r1 of
                 [] \<Rightarrow> None
               | colon # r2 \<Rightarrow>
                   if colon \<noteq> CHR '':'' then None
                   else case parse_value n r2 of
                     None \<Rightarrow> None
                   | Some (v, r3) \<Rightarrow>
                       (case skip_ws r3 of
                          [] \<Rightarrow> None
                        | d # r4 \<Rightarrow>
                            if d = CHR '','' then map_option (apfst ((#) (k, v))) (parse_members n r4)
                            else if d = CHR ''}'' then Some ([(k, v)], r4)
                            else None)))"

text \<open>\<open>JSON.parse\<close>: \<open>None\<close> is the \<open>SyntaxError\<close>.\<close>

definition json_parse :: "string \<Rightarrow> rat json option" where
  "json_parse s =
     (case parse_value (2 * length s) s of
        None \<Rightarrow> None
      | Some (v, r) \<Rightarrow> if skip_ws r = [] then Some v else None)"

text \<open>A number that is \<open>Number.isFinite\<close>: its exact value does not round to an infinity.\<close>

definition js_finite :: "rat \<Rightarrow> bool" where
  "js_finite q \<longleftrightarrow> \<bar>q\<bar> < of_int (2 ^ 1024 - 2 ^ 970)"

datatype js_num = NaN | Infinite bool | Fin rat

definition finite_num :: "rat \<Rightarrow> js_num" where
  "finite_num q = (if js_finite q then Fin q else Infinite (q < 0))"

text \<open>The entries of an object in the order of \<open>Object.entries\<close>: the keys that are array indices come first.\<close>

definition is_array_index :: "string \<Rightarrow> bool" where
  "is_array_index k \<longleftrightarrow> list_all is_digit k \<and> k = show_nat (nat_of_digits k) \<and> nat_of_digits k < 4294967295"

definition object_entries :: "(string \<times> 'v) list \<Rightarrow> (string \<times> 'v) list" where
  "object_entries ms =
     sort_key (\<lambda>(k, _). nat_of_digits k) (filter (\<lambda>(k, _). is_array_index k) ms) @
     filter (\<lambda>(k, _). \<not> is_array_index k) ms"

text \<open>\<open>source[field]\<close> on a parsed value: \<open>None\<close> is \<open>undefined\<close>.\<close>

fun json_field :: "'n json \<Rightarrow> string \<Rightarrow> 'n json option" where
  "json_field (JObj ms) k = map_of ms k"
| "json_field _ k = None"

section \<open>Strings survive\<close>

declare parse_chars.simps [simp del]

definition control_escaped :: "char \<Rightarrow> bool" where
  "control_escaped c \<longleftrightarrow> (of_char c :: nat) < 32 \<and> c \<notin> {CHR 0x08, CHR 0x0C, CHR 0x0A, CHR 0x0D, CHR 0x09}"

definition piece_of :: "char \<Rightarrow> piece" where
  "piece_of c = (if control_escaped c then CodeUnit (of_char c) else RawByte c)"

lemma of_hex_digit: "m < 16 \<Longrightarrow> (of_char (hex_digit m) :: nat) = (if m < 10 then 48 + m else 87 + m)"
  by (auto simp: hex_digit_def)

lemma hex_val_digit: "m < 16 \<Longrightarrow> hex_val (hex_digit m) = Some m"
  by (simp add: hex_val_def of_hex_digit Let_def)

lemma hex4_control:
  "(n::nat) < 256 \<Longrightarrow> hex4 (CHR ''0'') (CHR ''0'') (hex_digit (n div 16)) (hex_digit (n mod 16)) = Some n"
proof -
  assume "n < 256"
  then have "hex_val (hex_digit (n div 16)) = Some (n div 16)" by (intro hex_val_digit) simp
  moreover have "hex_val (hex_digit (n mod 16)) = Some (n mod 16)" by (intro hex_val_digit) simp
  moreover have "hex_val (CHR ''0'') = Some 0" by (simp add: hex_val_def)
  ultimately show ?thesis by (simp add: hex4_def)
qed

lemma code_QUOTE: "(of_char QUOTE :: nat) = 34" "(of_char BACKSLASH :: nat) = 92"
  by (simp_all add: QUOTE_def BACKSLASH_def)

lemma distinct_marks: "QUOTE \<noteq> BACKSLASH"
  by (simp add: QUOTE_def BACKSLASH_def)

lemma parse_simple_escape:
  assumes "simple_escape e = Some c'" and "e \<noteq> CHR ''u''"
  shows "parse_chars (BACKSLASH # e # s) = map_option (apfst ((#) (RawByte c'))) (parse_chars s)"
  by (subst parse_chars.simps(2)) (simp add: code_QUOTE assms distinct_marks [symmetric])

lemma escape_char_simple:
  assumes "c \<in> {QUOTE, BACKSLASH, CHR 0x08, CHR 0x0C, CHR 0x0A, CHR 0x0D, CHR 0x09}"
  shows "\<exists>e. escape_char c = [BACKSLASH, e] \<and> simple_escape e = Some c \<and> e \<noteq> CHR ''u''"
  using assms
  by (elim insertE; simp add: escape_char_def simple_escape_def QUOTE_def BACKSLASH_def)

lemma parse_escaped:
  "parse_chars (escape_char c @ s) = map_option (apfst ((#) (piece_of c))) (parse_chars s)"
proof -
  consider "c \<in> {QUOTE, BACKSLASH, CHR 0x08, CHR 0x0C, CHR 0x0A, CHR 0x0D, CHR 0x09}"
    | "control_escaped c" | "c \<notin> {QUOTE, BACKSLASH}" "\<not> (of_char c :: nat) < 32"
    by (auto simp: control_escaped_def)
  then show ?thesis
  proof cases
    case 1
    then obtain e where "escape_char c = [BACKSLASH, e]" "simple_escape e = Some c" "e \<noteq> CHR ''u''"
      using escape_char_simple by blast
    moreover have "\<not> control_escaped c" using 1 by (auto simp: control_escaped_def code_QUOTE)
    ultimately show ?thesis by (simp add: parse_simple_escape piece_of_def)
  next
    case 2
    then have plain: "c \<noteq> QUOTE" "c \<noteq> BACKSLASH" "(of_char c :: nat) < 32"
      by (auto simp: control_escaped_def code_QUOTE)
    with 2 have "escape_char c = BACKSLASH # ''u00'' @ [hex_digit (of_char c div 16), hex_digit (of_char c mod 16)]"
      by (auto simp: escape_char_def control_escaped_def)
    then show ?thesis
      by (simp add: parse_chars.simps(2) [of BACKSLASH] 2 piece_of_def hex4_control code_QUOTE distinct_marks [symmetric])
  next
    case 3
    then have "escape_char c = [c]" by (auto simp: escape_char_def)
    with 3 show ?thesis
      by (simp add: parse_chars.simps(2) piece_of_def control_escaped_def)
  qed
qed

lemma parse_literal_chars:
  "parse_chars (concat (map escape_char s) @ QUOTE # r) = Some (map piece_of s, r)"
proof (induction s)
  case Nil
  show ?case by (simp add: parse_chars.simps(2))
next
  case (Cons c s)
  then show ?case by (simp add: parse_escaped)
qed

lemma assemble_pieces: "assemble (map piece_of s) = s"
proof (induction s)
  case Nil
  show ?case by simp
next
  case (Cons c s)
  show ?case
  proof (cases "control_escaped c")
    case True
    then have small: "(of_char c :: nat) < 32" by (simp add: control_escaped_def)
    then have byte: "utf8 (of_char c) = [c]" by (simp add: utf8_def)
    have "assemble (CodeUnit (of_char c) # ps) = utf8 (of_char c) @ assemble ps" for ps
      using small by (cases ps rule: assemble.cases) auto
    with Cons True byte show ?thesis by (simp add: piece_of_def)
  next
    case False
    with Cons show ?thesis by (simp add: piece_of_def)
  qed
qed

lemma parse_json_string: "parse_string_tail (concat (map escape_char s) @ QUOTE # r) = Some (s, r)"
  by (simp add: parse_string_tail_def parse_literal_chars assemble_pieces)

section \<open>Numbers survive\<close>

definition stops :: "string \<Rightarrow> bool" where
  "stops r \<longleftrightarrow> (case r of [] \<Rightarrow> True | c # _ \<Rightarrow> \<not> is_digit c \<and> c \<notin> {CHR ''.'', CHR ''e'', CHR ''E''})"

lemma stops_marks [simp]:
  "stops []" "stops (CHR '','' # r)" "stops (CHR '']'' # r)" "stops (CHR ''}'' # r)"
  by (simp_all add: stops_def is_digit_def)

lemma hd_show_nat: "n > 0 \<Longrightarrow> hd (show_nat n) \<noteq> CHR ''0''"
proof (induction n rule: show_nat.induct)
  case (1 n)
  show ?case
  proof (cases "n < 10")
    case True
    then have "(of_char (hd (show_nat n)) :: nat) = 48 + n" by (subst show_nat.simps) simp
    with 1(2) show ?thesis by auto
  next
    case False
    then have "hd (show_nat n) = hd (show_nat (n div 10))" by (subst show_nat.simps) simp
    with 1(1) False show ?thesis by simp
  qed
qed

lemma show_nat_zero: "show_nat 0 = ''0''"
proof -
  have "char_of (48 :: nat) = CHR ''0''" by code_simp
  then show ?thesis by (subst show_nat.simps) simp
qed

lemma digits_prefix:
  assumes "stops r"
  shows "digits_of (show_nat n @ r) = show_nat n" and "after_digits (show_nat n @ r) = r"
proof -
  have all: "\<forall>c \<in> set (show_nat n). is_digit c" using show_nat_digits by blast
  have stop: "takeWhile is_digit r = []" "dropWhile is_digit r = r"
    using assms by (cases r; simp add: stops_def)+
  from all stop show "digits_of (show_nat n @ r) = show_nat n" "after_digits (show_nat n @ r) = r"
    by (simp_all add: digits_of_def after_digits_def takeWhile_append2 dropWhile_append2)
qed

lemma no_leading_zero: "\<not> (hd (show_nat n) = CHR ''0'' \<and> length (show_nat n) > 1)"
  using hd_show_nat [of n] by (cases "n = 0") (auto simp: show_nat_zero)

lemma stops_fraction: "stops r \<Longrightarrow> parse_fraction r = Some (0, r)"
  by (cases r) (auto simp: parse_fraction_def stops_def)

lemma stops_exponent: "stops r \<Longrightarrow> parse_exponent r = Some (1, r)"
  by (cases r) (auto simp: parse_exponent_def stops_def)

lemma show_nat_head: "\<exists>c t. show_nat n = c # t \<and> is_digit c"
proof -
  obtain c t where "show_nat n = c # t" by (meson show_nat_not_Nil neq_Nil_conv)
  with show_nat_digits [of c n] show ?thesis by auto
qed

lemma parse_show_int:
  assumes "stops r"
  shows "parse_number (show_int i @ r) = Some (of_int i, r)"
proof (cases "i < 0")
  case True
  then show ?thesis
    using no_leading_zero [of "nat (- i)"]
    by (simp add: parse_number_def show_int_def Let_def digits_prefix assms stops_fraction stops_exponent
        of_nat_nat)
next
  case False
  obtain c t where ct: "show_nat (nat i) = c # t" "is_digit c" using show_nat_head by blast
  then have "c \<noteq> CHR ''-''" by (auto simp: is_digit_def)
  with ct have head: "(case show_nat (nat i) @ r of c # _ \<Rightarrow> c = CHR ''-'' | [] \<Rightarrow> False) = False" by simp
  show ?thesis
    using no_leading_zero [of "nat i"] False
    by (simp add: parse_number_def show_int_def Let_def head digits_prefix assms stops_fraction
        stops_exponent of_nat_nat)
qed

section \<open>Documents survive\<close>

fun json_unique :: "'n json \<Rightarrow> bool"
and json_unique_all :: "'n json list \<Rightarrow> bool"
and json_unique_members :: "(string \<times> 'n json) list \<Rightarrow> bool" where
  "json_unique (JArr xs) = json_unique_all xs"
| "json_unique (JObj ms) = (distinct (map fst ms) \<and> json_unique_members ms)"
| "json_unique _ = True"
| "json_unique_all [] = True"
| "json_unique_all (x # xs) = (json_unique x \<and> json_unique_all xs)"
| "json_unique_members [] = True"
| "json_unique_members ((k, v) # ms) = (json_unique v \<and> json_unique_members ms)"

lemma js_object_snoc:
  "distinct (map fst (acc @ ms)) \<Longrightarrow> foldl (\<lambda>m kv. AList.update (fst kv) (snd kv) m) acc ms = acc @ ms"
proof (induction ms arbitrary: acc)
  case Nil
  show ?case by simp
next
  case (Cons kv ms)
  have "AList.update k v al = al @ [(k, v)]" if "k \<notin> fst ` set al" for k v and al :: "('a \<times> 'b) list"
    using that by (induction al) auto
  with Cons show ?case by (cases kv) auto
qed

lemma js_object_distinct: "distinct (map fst ms) \<Longrightarrow> js_object ms = ms"
  using js_object_snoc [of "[]" ms] by (simp add: js_object_def)

lemma print_head: "\<exists>c t. json_print j = c # t \<and> \<not> json_ws c \<and> c \<noteq> CHR '']''"
proof (cases j)
  case (JNum i)
  obtain c t where ct: "show_nat (nat \<bar>i\<bar>) = c # t" "is_digit c" using show_nat_head by blast
  show ?thesis
  proof (cases "i < 0")
    case True
    with JNum show ?thesis by (simp add: show_int_def json_ws_def)
  next
    case False
    with JNum ct show ?thesis by (auto simp: show_int_def json_ws_def is_digit_def)
  qed
qed (auto simp: json_string_def json_ws_def QUOTE_def)

lemma skip_ws_print: "skip_ws (json_print j @ r) = json_print j @ r"
  using print_head [of j] by (auto simp: skip_ws_def)

lemma skip_ws_QUOTE [simp]: "skip_ws (QUOTE # r) = QUOTE # r"
  by (simp add: skip_ws_def json_ws_def QUOTE_def)

lemma skip_ws_marks [simp]:
  "skip_ws (CHR '','' # r) = CHR '','' # r" "skip_ws (CHR '']'' # r) = CHR '']'' # r"
  "skip_ws (CHR ''}'' # r) = CHR ''}'' # r" "skip_ws (CHR '':'' # r) = CHR '':'' # r"
  "skip_ws (CHR ''['' # r) = CHR ''['' # r" "skip_ws (CHR ''{'' # r) = CHR ''{'' # r"
  by (simp_all add: skip_ws_def json_ws_def)

lemma parse_elems_last:
  assumes "parse_value n s = Some (v, CHR '']'' # r)"
  shows "parse_elems (Suc n) s = Some ([v], r)"
  using assms by simp

lemma parse_elems_more:
  assumes "parse_value n s = Some (v, CHR '','' # r)" and "parse_elems n r = Some (vs, r')"
  shows "parse_elems (Suc n) s = Some (v # vs, r')"
  using assms by simp

lemma parse_member_value:
  assumes "parse_value n s = Some (v, d # r4)"
  shows "parse_members (Suc n) (json_string k @ CHR '':'' # s) =
     (case skip_ws (d # r4) of
        [] \<Rightarrow> None
      | d # r4 \<Rightarrow> if d = CHR '','' then map_option (apfst ((#) (k, v))) (parse_members n r4)
                   else if d = CHR ''}'' then Some ([(k, v)], r4) else None)"
  using assms by (simp add: json_string_def parse_json_string)

lemma elems_head: "\<exists>c t. json_elems (x # xs) = c # t \<and> \<not> json_ws c \<and> c \<noteq> CHR '']''"
  using print_head [of x] by (cases xs) auto

lemma members_head: "\<exists>t. json_members (m # ms) = QUOTE # t"
  by (cases m; cases ms) (auto simp: json_string_def)

lemma parse_value_number:
  assumes "stops r"
  shows "parse_value (Suc n) (show_int i @ r) = Some (JNum (of_int i), r)"
proof -
  obtain c t where ct: "show_nat (nat \<bar>i\<bar>) = c # t" "is_digit c" using show_nat_head by blast
  have "\<exists>d u. show_int i @ r = d # u \<and> (d = CHR ''-'' \<or> is_digit d)"
    using ct by (cases "i < 0") (auto simp: show_int_def)
  then obtain d u where du: "show_int i @ r = d # u" and d: "d = CHR ''-'' \<or> is_digit d" by blast
  from d have marks: "\<not> json_ws d" "d \<noteq> QUOTE" "d \<noteq> CHR ''[''" "d \<noteq> CHR ''{''" "d \<noteq> CHR ''t''"
    "d \<noteq> CHR ''f''" "d \<noteq> CHR ''n''"
    by (auto simp: json_ws_def is_digit_def QUOTE_def)
  then have "skip_ws (d # u) = d # u" by (simp add: skip_ws_def)
  with marks parse_show_int [OF assms, of i] show ?thesis by (simp add: du)
qed

lemma parse_value_array:
  assumes "parse_elems n (json_elems (x # xs) @ CHR '']'' # r) = Some (vs, r)"
  shows "parse_value (Suc n) (json_print (JArr (x # xs)) @ r) = Some (JArr vs, r)"
proof -
  obtain c t where ct: "json_elems (x # xs) = c # t" "\<not> json_ws c" "c \<noteq> CHR '']''"
    using elems_head by blast
  then have "skip_ws (c # t @ CHR '']'' # r) = c # t @ CHR '']'' # r" by (simp add: skip_ws_def)
  with ct assms show ?thesis by (simp add: QUOTE_def)
qed

lemma parse_value_object:
  assumes "parse_members n (json_members (m # ms) @ CHR ''}'' # r) = Some (vs, r)"
  shows "parse_value (Suc n) (json_print (JObj (m # ms)) @ r) = Some (JObj (js_object vs), r)"
proof -
  obtain t where t: "json_members (m # ms) = QUOTE # t" using members_head by blast
  have q: "QUOTE \<noteq> CHR ''}''" "QUOTE \<noteq> CHR ''{''" "QUOTE \<noteq> CHR ''[''" by (simp_all add: QUOTE_def)
  show ?thesis using assms t q [symmetric] by simp
qed

lemma print_length: "length (json_print j) \<ge> 1"
  using print_head [of j] by auto

text \<open>The round trip, for values in any context that ends the value, elements up to the closing
  bracket and members up to the closing brace; fuel as long as the text is enough.\<close>

declare parse_value.simps [simp del] parse_elems.simps [simp del] parse_members.simps [simp del]

abbreviation parsed :: "int json \<Rightarrow> rat json" where
  "parsed \<equiv> map_json of_int"

lemma parse_print:
  "json_unique j \<Longrightarrow> length (json_print j) \<le> n \<Longrightarrow> stops r \<Longrightarrow>
     parse_value n (json_print j @ r) = Some (parsed j, r)"
  "json_unique_all xs \<Longrightarrow> xs \<noteq> [] \<Longrightarrow> length (json_elems xs) < n \<Longrightarrow>
     parse_elems n (json_elems xs @ CHR '']'' # r) = Some (map parsed xs, r)"
  "json_unique_members ms \<Longrightarrow> ms \<noteq> [] \<Longrightarrow> length (json_members ms) < n \<Longrightarrow>
     parse_members n (json_members ms @ CHR ''}'' # r) = Some (map (map_prod id parsed) ms, r)"
proof (induction j and xs and ms arbitrary: n r and n r and n r
    rule: json_print_json_elems_json_members.induct)
  case 1
  then obtain m where "n = Suc m" by (cases n) auto
  then show ?case by (simp add: parse_value.simps skip_ws_def json_ws_def QUOTE_def literal_def)
next
  case (2 b)
  then obtain m where "n = Suc m" by (cases n) (auto split: if_splits)
  then show ?case by (simp add: parse_value.simps skip_ws_def json_ws_def QUOTE_def literal_def)
next
  case (3 i)
  then obtain m where "n = Suc m" using print_length [of "JNum i"] by (cases n) auto
  with 3 show ?case by (simp add: parse_value_number)
next
  case (4 s)
  then obtain m where "n = Suc m" by (cases n) (auto simp: json_string_def)
  then show ?case by (simp add: json_string_def parse_value.simps parse_json_string)
next
  case (5 xs)
  then obtain m where m: "n = Suc m" by (cases n) auto
  show ?case
  proof (cases xs)
    case Nil
    with m show ?thesis by (simp add: parse_value.simps QUOTE_def)
  next
    case (Cons x xs')
    have "parse_elems m (json_elems xs @ CHR '']'' # r) = Some (map parsed xs, r)"
      by (rule 5) (use 5 m Cons in auto)
    then show ?thesis unfolding m Cons by (subst parse_value_array) (auto simp: Cons)
  qed
next
  case (6 ms)
  then obtain m where m: "n = Suc m" by (cases n) auto
  show ?case
  proof (cases ms)
    case Nil
    with m show ?thesis by (simp add: parse_value.simps QUOTE_def)
  next
    case (Cons kv ms')
    have members: "parse_members m (json_members ms @ CHR ''}'' # r) = Some (map (map_prod id parsed) ms, r)"
      by (rule 6) (use 6 m Cons in auto)
    have "map fst (map (map_prod id parsed) ms) = map fst ms" by (simp add: comp_def)
    with 6 have "js_object (map (map_prod id parsed) ms) = map (map_prod id parsed) ms"
      by (intro js_object_distinct) simp
    with members show ?thesis unfolding m Cons by (subst parse_value_object) (auto simp: Cons)
  qed
next
  case 7
  then show ?case by simp
next
  case (8 x)
  then obtain m where m: "n = Suc m" by (cases n) auto
  have "parse_value m (json_print x @ CHR '']'' # r) = Some (parsed x, CHR '']'' # r)"
    by (rule 8) (use 8 m in auto)
  then show ?case unfolding m by (simp add: parse_elems.simps)
next
  case (9 x y ys)
  then obtain m where m: "n = Suc m" by (cases n) auto
  have v: "parse_value m (json_print x @ CHR '','' # json_elems (y # ys) @ CHR '']'' # r) =
      Some (parsed x, CHR '','' # json_elems (y # ys) @ CHR '']'' # r)"
    by (rule 9) (use 9 m in auto)
  have "parse_elems m (json_elems (y # ys) @ CHR '']'' # r) = Some (map parsed (y # ys), r)"
    by (rule 9) (use 9 m print_length [of x] in auto)
  with v show ?case unfolding m by (simp add: parse_elems.simps)
next
  case 10
  then show ?case by simp
next
  case (11 k v)
  then obtain m where m: "n = Suc m" by (cases n) auto
  have "parse_value m (json_print v @ CHR ''}'' # r) = Some (parsed v, CHR ''}'' # r)"
    by (rule 11) (use 11 m in auto)
  then show ?case unfolding m by (simp add: parse_member_value)
next
  case (12 k v kv ms)
  then obtain m where m: "n = Suc m" by (cases n) auto
  have v: "parse_value m (json_print v @ CHR '','' # json_members (kv # ms) @ CHR ''}'' # r) =
      Some (parsed v, CHR '','' # json_members (kv # ms) @ CHR ''}'' # r)"
    by (rule 12) (use 12 m in auto)
  have "parse_members m (json_members (kv # ms) @ CHR ''}'' # r) = Some (map (map_prod id parsed) (kv # ms), r)"
    by (rule 12) (use 12 m print_length [of v] in auto)
  with v show ?case unfolding m by (simp add: parse_member_value id_def)
qed

lemma json_parse_print: "json_unique j \<Longrightarrow> json_parse (json_print j) = Some (parsed j)"
  using parse_print(1) [of j "2 * length (json_print j)" "[]"] by (simp add: json_parse_def skip_ws_def)

text \<open>A printed document is one line: no control byte.\<close>

definition printable :: "string \<Rightarrow> bool" where
  "printable s \<longleftrightarrow> (\<forall>c \<in> set s. 32 \<le> (of_char c :: nat))"

lemma printable_append [simp]: "printable (s @ t) \<longleftrightarrow> printable s \<and> printable t"
  by (auto simp: printable_def)

lemma printable_Cons [simp]: "printable (c # s) \<longleftrightarrow> 32 \<le> (of_char c :: nat) \<and> printable s"
  by (auto simp: printable_def)

lemma printable_Nil [simp]: "printable []"
  by (simp add: printable_def)

lemma printable_show_nat [simp]: "printable (show_nat n)"
  by (auto simp: printable_def is_digit_def dest!: show_nat_digits)

lemma hex_digit_printable: "m < 16 \<Longrightarrow> 32 \<le> (of_char (hex_digit m) :: nat)"
  by (simp add: of_hex_digit)

lemma printable_escape [simp]: "printable (escape_char c)"
proof -
  have "(of_char c :: nat) div 16 < 16"
    using nat_of_char_less_256 [of c] by (simp add: div_less_iff_less_mult)
  then have "32 \<le> (of_char (hex_digit (of_char c div 16)) :: nat)" by (rule hex_digit_printable)
  moreover have "32 \<le> (of_char (hex_digit (of_char c mod 16)) :: nat)" by (rule hex_digit_printable) simp
  ultimately show ?thesis by (auto simp: escape_char_def code_QUOTE)
qed

lemma printable_concat: "(\<forall>s \<in> set ss. printable s) \<Longrightarrow> printable (concat ss)"
  by (induction ss) auto

lemma printable_json_string [simp]: "printable (json_string s)"
  by (simp add: json_string_def code_QUOTE printable_concat)

lemma printable_json:
  "printable (json_print j)" "printable (json_elems xs)" "printable (json_members ms)"
  by (induction j and xs and ms rule: json_print_json_elems_json_members.induct)
     (auto simp: show_int_def)

lemma print_no_NL: "NL \<notin> set (json_print j)"
  using printable_json(1) [of j] by (auto simp: printable_def NL_def)

lemma print_not_blank: "js_trim (json_print j) \<noteq> []"
proof -
  obtain c t where ct: "json_print j = c # t" "\<not> json_ws c" using print_head by blast
  moreover have "32 \<le> (of_char c :: nat)" using printable_json(1) [of j] ct by simp
  ultimately have "\<not> is_space c" by (auto simp: is_space_def json_ws_def)
  with ct show ?thesis by (simp add: js_trim_Nil_iff)
qed

section \<open>The fuel is enough\<close>

text \<open>What a parser leaves is shorter than what it was given, so more fuel than characters never
  changes the result.\<close>

lemma length_skip_ws: "length (skip_ws s) \<le> length s"
  by (simp add: skip_ws_def length_dropWhile_le)

lemma length_parse_chars: "parse_chars s = Some (p, r) \<Longrightarrow> length r < length s"
proof (induction "length s" arbitrary: s p r rule: less_induct)
  case less
  show ?case
  proof (cases s)
    case Nil
    with less.prems show ?thesis by (simp add: parse_chars.simps)
  next
    case (Cons c t)
    have tail: "length r < length u" if "parse_chars u = Some (p, r)" "length u \<le> length t" for u p
      using that less.hyps Cons by simp
    from less.prems show ?thesis
      unfolding Cons parse_chars.simps(2)
      by (auto split: if_splits list.splits option.splits) (force dest: tail)+
  qed
qed

lemma length_parse_string_tail: "parse_string_tail s = Some (v, r) \<Longrightarrow> length r < length s"
  by (auto simp: parse_string_tail_def dest: length_parse_chars)

lemma length_after_digits: "length (after_digits s) \<le> length s"
  by (simp add: after_digits_def length_dropWhile_le)

lemma length_after_digits_less: "digits_of s \<noteq> [] \<Longrightarrow> length (after_digits s) < length s"
  by (cases s) (auto simp: digits_of_def after_digits_def length_dropWhile_le le_imp_less_Suc split: if_splits)

lemma length_parse_fraction: "parse_fraction s = Some (v, r) \<Longrightarrow> length r \<le> length s"
  using length_after_digits [of "tl s"]
  by (auto simp: parse_fraction_def split: list.splits if_splits)

lemma length_parse_exponent: "parse_exponent s = Some (v, r) \<Longrightarrow> length r \<le> length s"
  using length_after_digits [of "tl s"] length_after_digits [of "tl (tl s)"]
  by (auto simp: parse_exponent_def Let_def split: list.splits if_splits)

lemma length_parse_number: "parse_number s = Some (v, r) \<Longrightarrow> length r < length s"
  using length_after_digits_less [of s] length_after_digits_less [of "tl s"]
  by (cases s)
     (auto simp: parse_number_def Let_def split: if_splits option.splits prod.splits
      dest!: length_parse_fraction length_parse_exponent)

lemma length_literal: "literal w v s = Some (v', r) \<Longrightarrow> w \<noteq> [] \<Longrightarrow> length r < length s"
  by (cases w; cases s) (auto simp: literal_def split: if_splits)

lemma length_Cons_skip: "skip_ws s = c # r \<Longrightarrow> length r < length s"
  using length_skip_ws [of s] by simp

lemma length_parse:
  "parse_value n s = Some (v, r) \<Longrightarrow> length r < length s"
  "parse_elems n s' = Some (vs, r') \<Longrightarrow> length r' < length s'"
  "parse_members n s'' = Some (ms, r'') \<Longrightarrow> length r'' < length s''"
proof (induction n arbitrary: s v r s' vs r' s'' ms r'')
  case 0
  { case 1 then show ?case by (simp add: parse_value.simps) }
  { case 2 then show ?case by (simp add: parse_elems.simps) }
  { case 3 then show ?case by (simp add: parse_members.simps) }
next
  case (Suc n)
  { case 1
    then obtain c t where ct: "skip_ws s = c # t" by (auto simp: parse_value.simps split: list.splits)
    note less = length_Cons_skip [OF ct]
    from 1 less show ?case
      unfolding parse_value.simps ct list.case
      by (auto split: if_splits list.splits
          dest!: length_parse_string_tail Suc.IH(2,3) length_literal length_parse_number length_Cons_skip) }
  { case 2
    then show ?case
      by (force simp: parse_elems.simps split: option.splits list.splits if_splits
          dest!: Suc.IH(1,2) length_Cons_skip) }
  { case 3
    then show ?case
      by (force simp: parse_members.simps split: option.splits list.splits if_splits
          dest!: Suc.IH(1,3) length_Cons_skip length_parse_string_tail) }
qed

lemma parse_fuel_step:
  "(\<forall>s. 2 * length s \<le> n \<longrightarrow> parse_value (Suc n) s = parse_value n s) \<and>
   (\<forall>s. 2 * length s + 1 \<le> n \<longrightarrow> parse_elems (Suc n) s = parse_elems n s) \<and>
   (\<forall>s. 2 * length s + 1 \<le> n \<longrightarrow> parse_members (Suc n) s = parse_members n s)"
proof (induction n)
  case 0
  show ?case by (simp add: parse_value.simps skip_ws_def)
next
  case (Suc n)
  then have IH: "\<And>s. 2 * length s \<le> n \<Longrightarrow> parse_value (Suc n) s = parse_value n s"
    "\<And>s. 2 * length s + 1 \<le> n \<Longrightarrow> parse_elems (Suc n) s = parse_elems n s"
    "\<And>s. 2 * length s + 1 \<le> n \<Longrightarrow> parse_members (Suc n) s = parse_members n s"
    by blast+
  have "parse_value (Suc (Suc n)) s = parse_value (Suc n) s" if "2 * length s \<le> Suc n" for s
  proof (cases "skip_ws s")
    case Nil
    then show ?thesis by (simp add: parse_value.simps)
  next
    case (Cons c t)
    from length_Cons_skip [OF this] that have "2 * length t + 1 \<le> n" by simp
    with IH(2,3) [of t] show ?thesis
      unfolding parse_value.simps Cons list.case by (cases "skip_ws t") simp_all
  qed
  moreover have "parse_elems (Suc (Suc n)) s = parse_elems (Suc n) s" if s: "2 * length s + 1 \<le> Suc n" for s
  proof -
    have "parse_value (Suc n) s = parse_value n s" using s by (intro IH(1)) simp
    moreover have "parse_elems (Suc n) r' = parse_elems n r'"
      if "parse_value n s = Some (v, r)" "skip_ws r = d # r'" for v r d r'
      using s length_parse(1) [OF that(1)] length_Cons_skip [OF that(2)] by (intro IH(2)) simp
    ultimately show ?thesis
      unfolding parse_elems.simps by (auto split: option.split list.split)
  qed
  moreover have "parse_members (Suc (Suc n)) s = parse_members (Suc n) s"
    if s: "2 * length s + 1 \<le> Suc n" for s
  proof -
    have "parse_value (Suc n) r2 = parse_value n r2"
      if "skip_ws s = c # r" "parse_string_tail r = Some (k, r1)" "skip_ws r1 = d # r2" for c r k r1 d r2
      using s length_Cons_skip [OF that(1)] length_parse_string_tail [OF that(2)] length_Cons_skip [OF that(3)]
      by (intro IH(1)) simp
    moreover have "parse_members (Suc n) r4 = parse_members n r4"
      if "skip_ws s = c # r" "parse_string_tail r = Some (k, r1)" "skip_ws r1 = d # r2"
        "parse_value n r2 = Some (v, r3)" "skip_ws r3 = d' # r4" for c r k r1 d r2 v r3 d' r4
      using s length_Cons_skip [OF that(1)] length_parse_string_tail [OF that(2)] length_Cons_skip [OF that(3)]
        length_parse(1) [OF that(4)] length_Cons_skip [OF that(5)]
      by (intro IH(3)) simp
    ultimately show ?thesis
      unfolding parse_members.simps by (auto split: option.split list.split)
  qed
  ultimately show ?case by blast
qed

lemma parse_value_fuel: "2 * length s \<le> n \<Longrightarrow> parse_value n s = parse_value (2 * length s) s"
  by (induction n rule: dec_induct) (use parse_fuel_step in auto)

section \<open>No proper prefix of an object is a document\<close>

text \<open>What a parser has accepted it accepts in front of any more text, if it did not stop at the
  end of the text inside a number.\<close>

lemma parse_chars_append: "parse_chars s = Some (p, r) \<Longrightarrow> parse_chars (s @ t) = Some (p, r @ t)"
proof (induction "length s" arbitrary: s p r rule: less_induct)
  case less
  show ?case
  proof (cases s)
    case Nil
    with less.prems show ?thesis by (simp add: parse_chars.simps)
  next
    case (Cons c u)
    have tail: "parse_chars (u' @ t) = Some (p, r @ t)" if "parse_chars u' = Some (p, r)" "length u' \<le> length u" for u' p
      using that less.hyps Cons by simp
    from less.prems show ?thesis
      unfolding Cons append_Cons parse_chars.simps(2)
      by (auto split: if_splits list.splits option.splits) (force dest: tail)+
  qed
qed

lemma parse_string_tail_append:
  "parse_string_tail s = Some (v, r) \<Longrightarrow> parse_string_tail (s @ t) = Some (v, r @ t)"
  by (auto simp: parse_string_tail_def dest: parse_chars_append)

lemma skip_ws_append: "skip_ws s = c # r \<Longrightarrow> skip_ws (s @ t) = c # r @ t"
proof -
  assume "skip_ws s = c # r"
  then have "dropWhile json_ws s \<noteq> []" and s: "dropWhile json_ws s = c # r" by (simp_all add: skip_ws_def)
  then have "\<not> (\<forall>c \<in> set s. json_ws c)" by (metis dropWhile_eq_Nil_conv)
  then show ?thesis using s by (auto simp: skip_ws_def dropWhile_append1)
qed

lemma digits_append:
  assumes "after_digits s \<noteq> []"
  shows "digits_of (s @ t) = digits_of s" and "after_digits (s @ t) = after_digits s @ t"
proof -
  from assms have "\<exists>c \<in> set s. \<not> is_digit c" by (simp add: after_digits_def dropWhile_eq_Nil_conv)
  then show "digits_of (s @ t) = digits_of s" "after_digits (s @ t) = after_digits s @ t"
    by (auto simp: digits_of_def after_digits_def)
qed

lemma parse_fraction_append:
  assumes "parse_fraction s = Some (v, r)" and "r \<noteq> []"
  shows "parse_fraction (s @ t) = Some (v, r @ t)"
proof (cases s)
  case Nil
  with assms show ?thesis by (auto simp: parse_fraction_def)
next
  case (Cons c u)
  with assms show ?thesis
    by (cases "c = CHR ''.''") (auto simp: parse_fraction_def digits_append split: if_splits)
qed

lemma parse_exponent_append:
  assumes "parse_exponent s = Some (v, r)" and "r \<noteq> []"
  shows "parse_exponent (s @ t) = Some (v, r @ t)"
proof (cases s)
  case Nil
  with assms show ?thesis by (auto simp: parse_exponent_def)
next
  case (Cons c u)
  show ?thesis
  proof (cases u)
    case Nil
    with assms Cons show ?thesis
      by (auto simp: parse_exponent_def digits_of_def split: if_splits)
  next
    case (Cons d w)
    with assms \<open>s = c # u\<close> show ?thesis
      using digits_append [of w t] digits_append [of u t]
      by (auto simp: parse_exponent_def Let_def split: if_splits)
  qed
qed

lemma parse_number_append:
  assumes "parse_number s = Some (v, r)" and "r \<noteq> []"
  shows "parse_number (s @ t) = Some (v, r @ t)"
proof -
  define negative where "negative = (case s of c # _ \<Rightarrow> c = CHR ''-'' | [] \<Rightarrow> False)"
  define u where "u = (if negative then tl s else s)"
  from assms have ne: "s \<noteq> []" by (auto simp: parse_number_def digits_of_def)
  then have neg: "(case s @ t of c # _ \<Rightarrow> c = CHR ''-'' | [] \<Rightarrow> False) = negative"
    by (cases s) (auto simp: negative_def)
  have u': "(if negative then tl (s @ t) else s @ t) = u @ t" using ne by (simp add: u_def)
  obtain fr s2 sc where parts: "digits_of u \<noteq> []" "\<not> (hd (digits_of u) = CHR ''0'' \<and> length (digits_of u) > 1)"
      "parse_fraction (after_digits u) = Some (fr, s2)" "parse_exponent s2 = Some (sc, r)"
    and v: "v = (let m = (of_nat (nat_of_digits (digits_of u)) + fr) * sc in if negative then - m else m)"
    using assms(1) unfolding parse_number_def Let_def negative_def [symmetric] u_def [symmetric]
    by (auto split: if_splits option.splits prod.splits)
  have s2: "s2 \<noteq> []" using parts(4) assms(2) by (auto simp: parse_exponent_def split: list.splits)
  then have "after_digits u \<noteq> []" using parts(3) by (auto simp: parse_fraction_def split: list.splits)
  note du = digits_append [OF this, of t]
  show ?thesis
    unfolding parse_number_def Let_def neg u' du
    using parts parse_fraction_append [OF parts(3) s2, of t] parse_exponent_append [OF parts(4) assms(2), of t]
    by (simp add: v Let_def)
qed

lemma literal_append: "literal w x s = Some (v, r) \<Longrightarrow> literal w x (s @ t) = Some (v, r @ t)"
proof -
  assume found: "literal w x s = Some (v, r)"
  then have w: "take (length w) s = w" by (auto simp: literal_def split: if_splits)
  then have "length w \<le> length s" by (metis length_take min.cobounded1)
  with found w show ?thesis by (auto simp: literal_def)
qed

lemma literal_Cons_append:
  "literal w x (c # u) = Some (v, r) \<Longrightarrow> literal w x (c # u @ t) = Some (v, r @ t)"
  using literal_append [of w x "c # u"] by simp

lemma parse_number_Cons_append:
  "parse_number (c # u) = Some (v, r) \<Longrightarrow> r \<noteq> [] \<Longrightarrow> parse_number (c # u @ t) = Some (v, r @ t)"
  using parse_number_append [of "c # u"] by simp

lemma parse_append:
  "(\<forall>s v r. parse_value n s = Some (v, r) \<longrightarrow> r \<noteq> [] \<or> (\<exists>u. skip_ws s = CHR ''{'' # u) \<longrightarrow>
      parse_value n (s @ t) = Some (v, r @ t)) \<and>
   (\<forall>s vs r. parse_elems n s = Some (vs, r) \<longrightarrow> parse_elems n (s @ t) = Some (vs, r @ t)) \<and>
   (\<forall>s ms r. parse_members n s = Some (ms, r) \<longrightarrow> parse_members n (s @ t) = Some (ms, r @ t))"
proof (induction n)
  case 0
  show ?case by (simp add: parse_value.simps parse_elems.simps parse_members.simps)
next
  case (Suc n)
  then have value_IH: "\<And>s v r. parse_value n s = Some (v, r) \<Longrightarrow> r \<noteq> [] \<Longrightarrow>
      parse_value n (s @ t) = Some (v, r @ t)"
    and elems: "\<And>s vs r. parse_elems n s = Some (vs, r) \<Longrightarrow> parse_elems n (s @ t) = Some (vs, r @ t)"
    and members: "\<And>s ms r. parse_members n s = Some (ms, r) \<Longrightarrow> parse_members n (s @ t) = Some (ms, r @ t)"
    by blast+
  have "parse_value (Suc n) (s @ t) = Some (v, r @ t)"
    if p: "parse_value (Suc n) s = Some (v, r)" and r: "r \<noteq> [] \<or> (\<exists>u. skip_ws s = CHR ''{'' # u)" for s v r
  proof -
    obtain c u where cu: "skip_ws s = c # u" using p by (auto simp: parse_value.simps split: list.splits)
    note front = skip_ws_append [OF cu, of t]
    have inner: "skip_ws (u @ t) = d # w @ t" if "skip_ws u = d # w" for d w
      by (rule skip_ws_append [OF that])
    show ?thesis
      using p r unfolding parse_value.simps cu front list.case
      by (auto split: if_splits list.splits simp: parse_number_Cons_append
          dest: literal_Cons_append [of _ _ _ _ _ _ t] parse_string_tail_append [of _ _ _ t] elems members inner)
  qed
  moreover have "parse_elems (Suc n) (s @ t) = Some (vs, r @ t)" if p: "parse_elems (Suc n) s = Some (vs, r)" for s vs r
  proof -
    obtain v r1 d r2 where v: "parse_value n s = Some (v, r1)" and d: "skip_ws r1 = d # r2"
      using p by (auto simp: parse_elems.simps split: option.splits list.splits)
    then have "r1 \<noteq> []" by (auto simp: skip_ws_def)
    from value_IH [OF v this] skip_ws_append [OF d, of t] v d p show ?thesis
      by (auto simp: parse_elems.simps dest: elems split: if_splits)
  qed
  moreover have "parse_members (Suc n) (s @ t) = Some (ms, r @ t)"
    if p: "parse_members (Suc n) s = Some (ms, r)" for s ms r
  proof -
    obtain c r0 k r1 d r2 v r3 d' r4
      where c: "skip_ws s = c # r0" and k: "parse_string_tail r0 = Some (k, r1)" and d: "skip_ws r1 = d # r2"
        and v: "parse_value n r2 = Some (v, r3)" and d': "skip_ws r3 = d' # r4"
      using p by (auto simp: parse_members.simps split: option.splits list.splits if_splits)
    then have "r3 \<noteq> []" by (auto simp: skip_ws_def)
    from value_IH [OF v this] p show ?thesis
      using skip_ws_append [OF c, of t] parse_string_tail_append [OF k, of t] skip_ws_append [OF d, of t]
        skip_ws_append [OF d', of t]
      by (auto simp: parse_members.simps c k d v d' dest: members split: if_splits)
  qed
  ultimately show ?case by blast
qed

lemma object_prefix_unparsable:
  assumes j: "json_unique (JObj ms)" and doc: "json_print (JObj ms) = p @ q" and q: "q \<noteq> []"
  shows "json_parse p = None"
proof (rule ccontr)
  assume "json_parse p \<noteq> None"
  then obtain v r where pv: "parse_value (2 * length p) p = Some (v, r)"
    by (auto simp: json_parse_def split: option.splits)
  let ?n = "2 * length (p @ q)"
  have p: "parse_value ?n p = Some (v, r)"
    using parse_value_fuel [of p ?n] pv by simp
  have "p \<noteq> []"
  proof
    assume "p = []"
    with pv show False by (simp add: parse_value.simps)
  qed
  then obtain u where "p = CHR ''{'' # u" using doc by (cases p) auto
  then have "\<exists>u. skip_ws p = CHR ''{'' # u" by simp
  with parse_append [of ?n q] p have "parse_value ?n (p @ q) = Some (v, r @ q)" by blast
  moreover have "length (json_print (JObj ms)) \<le> ?n" by (simp only: doc)
  then have "parse_value ?n (p @ q) = Some (parsed (JObj ms), [])"
    using parse_print(1) [OF j, of ?n "[]"] doc by (simp del: json_print.simps)
  ultimately show False using q by simp
qed

end
