(* ===== verification/Mm_Enrichment.thy ===== *)
theory Mm_Enrichment
  imports Managed_Objects Json "HOL-Library.Multiset" "HOL-Library.List_Lexorder" "HOL-Library.Char_ord" "HOL-Library.Product_Lexorder"
begin

text \<open>
  What is read of a modem beside its state: the visible cells and the choice of the serving one
  (\<open>backend/cell-info.ts\<close>), the revision and the eSIM facts (\<open>backend/enrichment.ts\<close>), and what the
  ModemManager daemon can do (\<open>backend/features.ts\<close>). A cell's numbers are doubles on the wire, so a cell
  dictionary has values of its own; the text of a finite number is a parameter. Strings are compared by their
  bytes, which is the code's order on all but characters outside the basic plane.
\<close>

section \<open>Cell readings\<close>

datatype cell_value = CellText string | CellNumber js_num | CellFlag bool | CellOther

type_synonym cell_dict = "(string \<times> cell_value) list"

record cell_reading =
  cr_serving :: bool
  cr_cellId :: "string option"
  cr_tac :: "string option"
  cr_pci :: "js_num option"
  cr_rsrp :: "js_num option"
  cr_rsrq :: "js_num option"
  cr_sinr :: "js_num option"
  cr_band :: "string option"
  cr_source :: string
  cr_observedAt :: int

definition cell_prop :: "cell_dict \<Rightarrow> string \<Rightarrow> cell_value option" where
  "cell_prop cell key = map_option snd (find (\<lambda>entry. fst entry = key) cell)"

definition cell_text :: "cell_dict \<Rightarrow> string \<Rightarrow> string option" where
  "cell_text cell key = (case cell_prop cell key of Some (CellText s) \<Rightarrow> Some s | _ \<Rightarrow> None)"

definition cell_number :: "cell_dict \<Rightarrow> string \<Rightarrow> js_num option" where
  "cell_number cell key = (case cell_prop cell key of Some (CellNumber n) \<Rightarrow> Some n | _ \<Rightarrow> None)"

definition readServing :: "cell_dict \<Rightarrow> bool" where
  "readServing cell =
     (case cell_prop cell ''serving'' of
        Some (CellFlag b) \<Rightarrow> b
      | _ \<Rightarrow> (case cell_text cell ''cell-type'' of Some t \<Rightarrow> js_includes ''serving'' (js_lower t) | None \<Rightarrow> False))"

definition normalizeCellReading :: "string \<Rightarrow> int \<Rightarrow> cell_dict \<Rightarrow> cell_reading" where
  "normalizeCellReading source observedAt cell =
     \<lparr>cr_serving = readServing cell,
      cr_cellId = (case cell_text cell ''ci'' of Some s \<Rightarrow> Some s | None \<Rightarrow> cell_text cell ''cell-id''),
      cr_tac = cell_text cell ''tac'', cr_pci = cell_number cell ''physical-ci'', cr_rsrp = cell_number cell ''rsrp'',
      cr_rsrq = cell_number cell ''rsrq'', cr_sinr = cell_number cell ''sinr'', cr_band = cell_text cell ''band'',
      cr_source = source, cr_observedAt = observedAt\<rparr>"

definition normalizeCellInfo :: "string \<Rightarrow> int \<Rightarrow> cell_dict list \<Rightarrow> cell_reading list" where
  "normalizeCellInfo source observedAt cells = map (normalizeCellReading source observedAt) cells"

section \<open>The serving cell\<close>

text \<open>The sign of a comparison; \<open>Unordered\<close> is NaN, which is neither zero nor below zero.\<close>

datatype rank = Before | Same | After | Unordered

fun js_less :: "js_num \<Rightarrow> js_num \<Rightarrow> bool" where
  "js_less (Fin a) (Fin b) \<longleftrightarrow> a < b"
| "js_less (Fin a) (Infinite negative) \<longleftrightarrow> \<not> negative"
| "js_less (Infinite negative) (Fin b) \<longleftrightarrow> negative"
| "js_less (Infinite n) (Infinite m) \<longleftrightarrow> n \<and> \<not> m"
| "js_less _ _ \<longleftrightarrow> False"

definition strictly_equal :: "js_num option \<Rightarrow> js_num option \<Rightarrow> bool" where
  "strictly_equal a b \<longleftrightarrow> a = b \<and> a \<noteq> Some NaN"

definition compareOptionalDesc :: "js_num option \<Rightarrow> js_num option \<Rightarrow> rank" where
  "compareOptionalDesc a b =
     (if strictly_equal a b then Same
      else case (a, b) of
        (None, _) \<Rightarrow> After
      | (_, None) \<Rightarrow> Before
      | (Some x, Some y) \<Rightarrow>
          if x = NaN \<or> y = NaN then Unordered else if js_less x y then After else Before)"

definition compareOptionalAsc :: "js_num option \<Rightarrow> js_num option \<Rightarrow> rank" where
  "compareOptionalAsc a b =
     (if strictly_equal a b then Same
      else case (a, b) of
        (None, _) \<Rightarrow> After
      | (_, None) \<Rightarrow> Before
      | (Some x, Some y) \<Rightarrow> if js_less x y then Before else After)"

definition compareOptionalText :: "string option \<Rightarrow> string option \<Rightarrow> rank" where
  "compareOptionalText a b =
     (if a = b then Same
      else case (a, b) of
        (None, _) \<Rightarrow> After
      | (_, None) \<Rightarrow> Before
      | (Some x, Some y) \<Rightarrow> if x < y then Before else After)"

definition text_item :: "string option \<Rightarrow> string" where
  "text_item v = (case v of None \<Rightarrow> ''null'' | Some s \<Rightarrow> json_string s)"

definition number_item :: "(rat \<Rightarrow> string) \<Rightarrow> js_num option \<Rightarrow> string" where
  "number_item num_text v = (case v of Some (Fin q) \<Rightarrow> num_text q | _ \<Rightarrow> ''null'')"

definition stableTag :: "(rat \<Rightarrow> string) \<Rightarrow> cell_reading \<Rightarrow> string" where
  "stableTag num_text r =
     ''['' @ js_join '','' [if cr_serving r then ''true'' else ''false'', text_item (cr_cellId r), text_item (cr_tac r),
        number_item num_text (cr_pci r), number_item num_text (cr_rsrp r), number_item num_text (cr_rsrq r),
        number_item num_text (cr_sinr r), text_item (cr_band r)] @ '']''"

definition compareServing :: "(rat \<Rightarrow> string) \<Rightarrow> cell_reading \<Rightarrow> cell_reading \<Rightarrow> rank" where
  "compareServing num_text a b =
     (if cr_serving a \<noteq> cr_serving b then (if cr_serving a then Before else After)
      else let rsrpRank = compareOptionalDesc (cr_rsrp a) (cr_rsrp b) in
        if rsrpRank \<noteq> Same then rsrpRank
        else let cellRank = compareOptionalText (cr_cellId a) (cr_cellId b) in
          if cellRank \<noteq> Same then cellRank
          else let pciRank = compareOptionalAsc (cr_pci a) (cr_pci b) in
            if pciRank \<noteq> Same then pciRank
            else if stableTag num_text a < stableTag num_text b then Before
            else if stableTag num_text b < stableTag num_text a then After else Same)"

definition selectServingCell :: "(rat \<Rightarrow> string) \<Rightarrow> cell_reading list \<Rightarrow> cell_reading option" where
  "selectServingCell num_text cells =
     (case cells of
        [] \<Rightarrow> None
      | c # cs \<Rightarrow> Some (foldl (\<lambda>best cell. if compareServing num_text cell best = Before then cell else best) c cs))"

section \<open>Enrichment\<close>

datatype sim_type = SimPhysical | SimEsim | SimTypeUnknown
datatype mm_esim_status = NoProfiles | WithProfiles | EsimStatusUnknown
datatype signal_cadence = CadenceActive | CadenceUnsupported | CadenceUnknown

definition mapSimType :: "int option \<Rightarrow> sim_type" where
  "mapSimType v = (if v = Some 1 then SimPhysical else if v = Some 2 then SimEsim else SimTypeUnknown)"

definition mapEsimStatus :: "int option \<Rightarrow> mm_esim_status" where
  "mapEsimStatus v = (if v = Some 1 then NoProfiles else if v = Some 2 then WithProfiles else EsimStatusUnknown)"

record modem_enrichment =
  me_revision :: "string option"
  me_esim :: "sim_type \<times> mm_esim_status"
  me_signalCadence :: signal_cadence
  me_cellInfo :: "cell_reading list"
  me_servingCell :: "cell_reading option"

definition readRevision :: "managed_objects \<Rightarrow> string \<Rightarrow> string option" where
  "readRevision tree modemPath =
     (case stringProp (findInterface tree modemPath MODEM_IFACE) ''Revision'' of
        Some r \<Rightarrow> if length r > 0 then Some r else None
      | None \<Rightarrow> None)"

definition readEsimInfo :: "managed_objects \<Rightarrow> string \<Rightarrow> sim_type \<times> mm_esim_status" where
  "readEsimInfo tree modemPath =
     (let sim = followObjectPath tree (findInterface tree modemPath MODEM_IFACE) ''Sim'' SIM_IFACE in
      (mapSimType (numberProp sim ''SimType''), mapEsimStatus (numberProp sim ''EsimStatus'')))"

definition buildEnrichment ::
  "(rat \<Rightarrow> string) \<Rightarrow> managed_objects \<Rightarrow> string \<Rightarrow> signal_cadence \<Rightarrow> cell_reading list \<Rightarrow> modem_enrichment" where
  "buildEnrichment num_text tree modemPath signalCadence cellInfo =
     \<lparr>me_revision = readRevision tree modemPath, me_esim = readEsimInfo tree modemPath,
      me_signalCadence = signalCadence, me_cellInfo = cellInfo, me_servingCell = selectServingCell num_text cellInfo\<rparr>"

section \<open>Features\<close>

datatype cell_info_tier = TierNone | TierBasic | TierRich

record mm_features =
  ft_physdev :: bool
  ft_cellInfo :: cell_info_tier
  ft_esimStatus :: bool
  ft_opSerialization :: bool

record mm_property_probe =
  pp_properties :: "string list"
  pp_cellInfoAvailable :: "bool option"
  pp_cellInfoFields :: "string list option"

text \<open>\<open>/^(\d+)\.(\d+)(?:\.\d+)*/\<close>: what follows the second number does not matter.\<close>

definition parseMmVersion :: "string \<Rightarrow> (nat \<times> nat) option" where
  "parseMmVersion version =
     (let s = js_trim version; majorText = digits_of s in
      case after_digits s of
        c # rest \<Rightarrow>
          (let minorText = digits_of rest; major = nat_of_digits majorText; minor = nat_of_digits minorText in
           if majorText \<noteq> [] \<and> c = CHR ''.'' \<and> minorText \<noteq> [] \<and> isSafeInteger (int major) \<and> isSafeInteger (int minor)
           then Some (major, minor) else None)
      | [] \<Rightarrow> None)"

definition versionAtLeast :: "(nat \<times> nat) option \<Rightarrow> nat \<Rightarrow> nat \<Rightarrow> bool" where
  "versionAtLeast version major minor =
     (case version of None \<Rightarrow> False | Some (vmajor, vminor) \<Rightarrow> vmajor > major \<or> (vmajor = major \<and> vminor \<ge> minor))"

definition detectCellInfo :: "mm_property_probe \<Rightarrow> bool \<Rightarrow> bool \<Rightarrow> bool \<Rightarrow> cell_info_tier" where
  "detectCellInfo probe supported modern physdev =
     (if \<not> supported then TierNone
      else if pp_cellInfoAvailable probe = Some False then TierNone
      else if (case pp_cellInfoFields probe of
                 Some fs \<Rightarrow> ''serving-type'' \<in> set fs \<or> ''bandwidth'' \<in> set fs | None \<Rightarrow> False) then TierRich
      else if modern \<or> physdev then TierRich else TierBasic)"

definition detectMmFeatures :: "string \<Rightarrow> mm_property_probe \<Rightarrow> mm_features" where
  "detectMmFeatures version probe =
     (let v = parseMmVersion version; supported = versionAtLeast v 1 20; modern = versionAtLeast v 1 22;
          physdev = (''Physdev'' \<in> set (pp_properties probe))
      in \<lparr>ft_physdev = physdev, ft_cellInfo = detectCellInfo probe supported modern physdev,
          ft_esimStatus = (''SimType'' \<in> set (pp_properties probe) \<or> ''EsimStatus'' \<in> set (pp_properties probe) \<or> supported),
          ft_opSerialization = supported\<rparr>)"

definition probeModemProperties :: "managed_objects \<Rightarrow> string \<Rightarrow> mm_property_probe" where
  "probeModemProperties tree modemPath =
     (let modem = findInterface tree modemPath MODEM_IFACE;
          modem3gpp = findInterface tree modemPath MODEM3GPP_IFACE;
          sim = followObjectPath tree modem ''Sim'' SIM_IFACE
      in \<lparr>pp_properties = js_unique (concat (map (\<lambda>source. case source of Some ps \<Rightarrow> map fst ps | None \<Rightarrow> []) [modem, modem3gpp, sim])),
          pp_cellInfoAvailable = None, pp_cellInfoFields = None\<rparr>)"

definition detectModemFeatures :: "string \<Rightarrow> managed_objects \<Rightarrow> string \<Rightarrow> mm_features" where
  "detectModemFeatures version tree modemPath = detectMmFeatures version (probeModemProperties tree modemPath)"

section \<open>The tag is injective\<close>

definition num_text_ok :: "(rat \<Rightarrow> string) \<Rightarrow> bool" where
  "num_text_ok num_text \<longleftrightarrow> inj num_text \<and> (\<forall>q. CHR '','' \<notin> set (num_text q) \<and> num_text q \<noteq> ''null'')"

definition finite_number :: "js_num option \<Rightarrow> bool" where
  "finite_number v \<longleftrightarrow> (case v of None \<Rightarrow> True | Some (Fin _) \<Rightarrow> True | _ \<Rightarrow> False)"

definition finite_reading :: "cell_reading \<Rightarrow> bool" where
  "finite_reading r \<longleftrightarrow> finite_number (cr_pci r) \<and> finite_number (cr_rsrp r) \<and> finite_number (cr_rsrq r) \<and> finite_number (cr_sinr r)"

lemma comma_split: "x @ c # r = y @ c # s \<Longrightarrow> c \<notin> set x \<Longrightarrow> c \<notin> set y \<Longrightarrow> x = y \<and> r = s"
proof (induction x arbitrary: y)
  case Nil
  then show ?case by (cases y) auto
next
  case (Cons d x)
  then show ?case by (cases y) auto
qed

lemma text_item_split: "text_item x @ CHR '','' # r = text_item y @ CHR '','' # s \<Longrightarrow> x = y \<and> r = s"
proof (cases x; cases y)
  fix a b assume "text_item x @ CHR '','' # r = text_item y @ CHR '','' # s" "x = Some a" "y = Some b"
  then have "concat (map escape_char a) @ QUOTE # CHR '','' # r = concat (map escape_char b) @ QUOTE # CHR '','' # s"
    by (simp add: text_item_def json_string_def)
  then have "Some (a, CHR '','' # r) = Some (b, CHR '','' # s)" using parse_json_string by metis
  with \<open>x = Some a\<close> \<open>y = Some b\<close> show ?thesis by simp
qed (auto simp: text_item_def json_string_def QUOTE_def)

lemma text_item_inj: "text_item x = text_item y \<Longrightarrow> x = y"
  using text_item_split [of x "[]" y "[]"] by simp

lemma number_item_split:
  assumes "num_text_ok num_text" and "finite_number x" and "finite_number y"
    and "number_item num_text x @ CHR '','' # r = number_item num_text y @ CHR '','' # s"
  shows "x = y \<and> r = s"
proof -
  have c: "CHR '','' \<notin> set (number_item num_text v)" for v
    using assms(1) by (auto simp: number_item_def num_text_ok_def split: option.split js_num.split)
  have "number_item num_text x = number_item num_text y \<and> r = s" by (rule comma_split [OF assms(4) c c])
  then show ?thesis
    using assms(1-3)
    by (auto simp: number_item_def num_text_ok_def finite_number_def dest: injD split: option.splits js_num.splits)
qed

lemma stableTag_inj:
  assumes "num_text_ok num_text" and "finite_reading a" and "finite_reading b"
    and "cr_source a = cr_source b" and "cr_observedAt a = cr_observedAt b"
    and "stableTag num_text a = stableTag num_text b"
  shows "a = b"
proof -
  let ?n = "number_item num_text"
  have f: "finite_number (cr_pci a)" "finite_number (cr_pci b)" "finite_number (cr_rsrp a)" "finite_number (cr_rsrp b)"
    "finite_number (cr_rsrq a)" "finite_number (cr_rsrq b)" "finite_number (cr_sinr a)" "finite_number (cr_sinr b)"
    using assms(2,3) by (auto simp: finite_reading_def)
  have "(if cr_serving a then ''true'' else ''false'') @ CHR '','' # text_item (cr_cellId a) @ CHR '','' # text_item (cr_tac a) @
      CHR '','' # ?n (cr_pci a) @ CHR '','' # ?n (cr_rsrp a) @ CHR '','' # ?n (cr_rsrq a) @ CHR '','' # ?n (cr_sinr a) @
      CHR '','' # text_item (cr_band a) @ '']'' =
    (if cr_serving b then ''true'' else ''false'') @ CHR '','' # text_item (cr_cellId b) @ CHR '','' # text_item (cr_tac b) @
      CHR '','' # ?n (cr_pci b) @ CHR '','' # ?n (cr_rsrp b) @ CHR '','' # ?n (cr_rsrq b) @ CHR '','' # ?n (cr_sinr b) @
      CHR '','' # text_item (cr_band b) @ '']''"
    using assms(6) by (simp add: stableTag_def)
  then have "cr_serving a = cr_serving b" and e1: "text_item (cr_cellId a) @ CHR '','' # text_item (cr_tac a) @
      CHR '','' # ?n (cr_pci a) @ CHR '','' # ?n (cr_rsrp a) @ CHR '','' # ?n (cr_rsrq a) @ CHR '','' # ?n (cr_sinr a) @
      CHR '','' # text_item (cr_band a) @ '']'' =
    text_item (cr_cellId b) @ CHR '','' # text_item (cr_tac b) @
      CHR '','' # ?n (cr_pci b) @ CHR '','' # ?n (cr_rsrp b) @ CHR '','' # ?n (cr_rsrq b) @ CHR '','' # ?n (cr_sinr b) @
      CHR '','' # text_item (cr_band b) @ '']''"
    by (auto split: if_splits)
  note t1 = text_item_split [OF e1]
  note t2 = text_item_split [OF t1 [THEN conjunct2]]
  note n1 = number_item_split [OF assms(1) f(1,2) t2 [THEN conjunct2]]
  note n2 = number_item_split [OF assms(1) f(3,4) n1 [THEN conjunct2]]
  note n3 = number_item_split [OF assms(1) f(5,6) n2 [THEN conjunct2]]
  note n4 = number_item_split [OF assms(1) f(7,8) n3 [THEN conjunct2]]
  have "cr_band a = cr_band b" using n4 text_item_inj by auto
  with \<open>cr_serving a = cr_serving b\<close> t1 t2 n1 n2 n3 n4 assms(4,5) show ?thesis by (cases a; cases b) simp
qed

section \<open>The comparison is an order on keys\<close>

definition number_key :: "js_num option \<Rightarrow> bool \<times> rat" where
  "number_key v = (case v of Some (Fin q) \<Rightarrow> (False, q) | _ \<Rightarrow> (True, 0))"

definition text_key :: "string option \<Rightarrow> bool \<times> string" where
  "text_key v = (case v of Some s \<Rightarrow> (False, s) | None \<Rightarrow> (True, []))"

definition down :: "bool \<times> rat \<Rightarrow> bool \<times> rat" where "down k = (fst k, - snd k)"

definition serving_key ::
  "(rat \<Rightarrow> string) \<Rightarrow> cell_reading \<Rightarrow> bool \<times> (bool \<times> rat) \<times> (bool \<times> string) \<times> (bool \<times> rat) \<times> string" where
  "serving_key num_text r =
     (\<not> cr_serving r, down (number_key (cr_rsrp r)), text_key (cr_cellId r), number_key (cr_pci r), stableTag num_text r)"

definition rank_of :: "'a::linorder \<Rightarrow> 'a \<Rightarrow> rank" where
  "rank_of x y = (if x < y then Before else if y < x then After else Same)"

lemma desc_key:
  "finite_number a \<Longrightarrow> finite_number b \<Longrightarrow> compareOptionalDesc a b = rank_of (down (number_key a)) (down (number_key b))"
  by (auto simp: rank_of_def compareOptionalDesc_def strictly_equal_def number_key_def down_def finite_number_def split: option.splits js_num.splits)

lemma asc_key:
  "finite_number a \<Longrightarrow> finite_number b \<Longrightarrow> compareOptionalAsc a b = rank_of (number_key a) (number_key b)"
  by (auto simp: rank_of_def compareOptionalAsc_def strictly_equal_def number_key_def finite_number_def split: option.splits js_num.splits)

lemma text_key_rank:
  "compareOptionalText a b = rank_of (text_key a) (text_key b)"
  by (auto simp: rank_of_def compareOptionalText_def text_key_def split: option.splits)

lemma rank_first: "(if rank_of x y \<noteq> Same then rank_of x y else rest) = Before \<longleftrightarrow> x < y \<or> x = y \<and> rest = Before"
  by (auto simp: rank_of_def)

lemma rank_serving:
  "(if a \<noteq> b then (if a then Before else After) else rest) = Before \<longleftrightarrow> (\<not> a) < (\<not> b) \<or> (\<not> a) = (\<not> b) \<and> rest = Before"
  by auto

lemma less_pair: "(x, u) < (y, v) \<longleftrightarrow> x < y \<or> x = y \<and> u < v" for x y :: "'a::linorder" and u v :: "'b::linorder"
  by auto

lemma compare_key:
  assumes "finite_reading a" and "finite_reading b"
  shows "compareServing num_text a b = Before \<longleftrightarrow> serving_key num_text a < serving_key num_text b"
proof -
  have f: "finite_number (cr_rsrp a)" "finite_number (cr_rsrp b)" "finite_number (cr_pci a)" "finite_number (cr_pci b)"
    using assms by (auto simp: finite_reading_def)
  show ?thesis
    unfolding compareServing_def serving_key_def Let_def desc_key [OF f(1,2)] asc_key [OF f(3,4)] text_key_rank
      rank_serving rank_first less_pair by simp
qed

text \<open>The fold keeps the reading with the least key.\<close>

lemma fold_least:
  assumes "list_all finite_reading (c # cs)"
  shows "let best = foldl (\<lambda>best cell. if compareServing num_text cell best = Before then cell else best) c cs in
     best \<in> set (c # cs) \<and> list_all (\<lambda>r. serving_key num_text best \<le> serving_key num_text r) (c # cs)"
  using assms
proof (induction cs arbitrary: c)
  case (Cons d cs)
  let ?c = "if compareServing num_text d c = Before then d else c"
  have IH: "let best = foldl (\<lambda>best cell. if compareServing num_text cell best = Before then cell else best) ?c cs in
     best \<in> set (?c # cs) \<and> list_all (\<lambda>r. serving_key num_text best \<le> serving_key num_text r) (?c # cs)"
    using Cons.prems by (intro Cons.IH) simp
  have "serving_key num_text ?c \<le> serving_key num_text c \<and> serving_key num_text ?c \<le> serving_key num_text d"
    using Cons.prems compare_key [of d c num_text] by auto
  with IH show ?case by (auto simp: Let_def list_all_iff split: if_splits intro: order_trans)
qed simp

section \<open>Properties\<close>

text \<open>C33: the serving cell does not depend on the order in which the modem lists the cells: on readings of one batch with finite numbers, two lists with the same readings select the same one, a reading of the list that no other outranks, and there is one whenever a cell is listed. The text of a number is any function that tells numbers apart, has no comma and is not null.\<close>

theorem serving_cell_ignores_order:
  assumes "num_text_ok num_text" and "list_all finite_reading cells"
    and "list_all (\<lambda>r. cr_source r = source \<and> cr_observedAt r = observedAt) cells"
    and "mset cells = mset shuffled"
  shows "selectServingCell num_text shuffled = selectServingCell num_text cells \<and>
     (case selectServingCell num_text cells of
        None \<Rightarrow> cells = []
      | Some best \<Rightarrow> best \<in> set cells \<and> list_all (\<lambda>r. compareServing num_text r best \<noteq> Before) cells)"
proof (cases cells)
  case Nil
  with assms(4) show ?thesis by (simp add: selectServingCell_def)
next
  case (Cons c cs)
  with assms(4) obtain d ds where ds: "shuffled = d # ds" by (cases shuffled) auto
  have sets: "set shuffled = set cells" using assms(4) by (metis set_mset_mset)
  let ?f = "foldl (\<lambda>best cell. if compareServing num_text cell best = Before then cell else best)"
  have "list_all finite_reading shuffled" using assms(2) sets by (simp add: list_all_iff)
  with fold_least [of c cs num_text] fold_least [of d ds num_text] assms(2)
  have least: "?f c cs \<in> set cells" "?f d ds \<in> set cells"
    "\<forall>r \<in> set cells. serving_key num_text (?f c cs) \<le> serving_key num_text r"
    "\<forall>r \<in> set cells. serving_key num_text (?f d ds) \<le> serving_key num_text r"
    using Cons ds sets by (auto simp: Let_def list_all_iff)
  then have "serving_key num_text (?f c cs) = serving_key num_text (?f d ds)" by (meson order_antisym)
  then have "stableTag num_text (?f c cs) = stableTag num_text (?f d ds)" by (simp add: serving_key_def)
  moreover have "finite_reading (?f c cs)" "finite_reading (?f d ds)"
    "cr_source (?f c cs) = cr_source (?f d ds)" "cr_observedAt (?f c cs) = cr_observedAt (?f d ds)"
    using least(1,2) assms(2,3) by (auto simp: list_all_iff)
  ultimately have "?f c cs = ?f d ds" using stableTag_inj [OF assms(1)] by blast
  moreover have "compareServing num_text r (?f c cs) \<noteq> Before" if "r \<in> set cells" for r
    using compare_key [of r "?f c cs" num_text] least(1,3) that assms(2) by (auto simp: list_all_iff not_less)
  ultimately show ?thesis using least(1) by (simp add: selectServingCell_def Cons ds list_all_iff)
qed

definition sample_num_text :: "rat \<Rightarrow> string" where
  "sample_num_text q = (case quotient_of q of (n, d) \<Rightarrow> show_int n @ CHR ''/'' # show_int d)"

lemma show_int_chars: "c \<in> set (show_int n) \<Longrightarrow> is_digit c \<or> c = CHR ''-''"
  by (auto simp: show_int_def split: if_splits dest: show_nat_digits)

lemma show_int_eq: "show_int a = show_int b \<Longrightarrow> a = b"
proof -
  assume e: "show_int a = show_int b"
  have m: "show_nat n \<noteq> CHR ''-'' # t" for n t
    using show_nat_digits [of "CHR ''-''" n] by (auto simp: is_digit_def)
  have "(a < 0) = (b < 0)" using e m by (auto simp: show_int_def split: if_splits) (metis m)+
  then show ?thesis using e by (auto simp: show_int_def split: if_splits dest: show_nat_inj)
qed

lemma sample_num_text_ok: "num_text_ok sample_num_text"
proof -
  have no: "CHR ''/'' \<notin> set (show_int n)" "CHR '','' \<notin> set (show_int n)" for n
    using show_int_chars [of "CHR ''/''" n] show_int_chars [of "CHR '',''" n] by (auto simp: is_digit_def)
  have "inj sample_num_text"
  proof (rule injI)
    fix p q assume e: "sample_num_text p = sample_num_text q"
    have "show_int (fst (quotient_of p)) = show_int (fst (quotient_of q)) \<and> show_int (snd (quotient_of p)) = show_int (snd (quotient_of q))"
      using e by (intro comma_split [OF _ no(1) no(1)]) (simp add: sample_num_text_def case_prod_beta)
    then have "quotient_of p = quotient_of q" by (simp add: prod_eq_iff show_int_eq)
    then show "p = q" by (simp add: quotient_of_inject)
  qed
  moreover have "sample_num_text q \<noteq> ''null''" for q
  proof
    have "CHR ''/'' \<in> set (sample_num_text q)" by (simp add: sample_num_text_def case_prod_beta)
    moreover assume "sample_num_text q = ''null''"
    ultimately show False by simp
  qed
  ultimately show ?thesis using no by (simp add: num_text_ok_def sample_num_text_def case_prod_beta)
qed

definition sample_cell :: "string \<Rightarrow> rat \<Rightarrow> cell_reading" where
  "sample_cell ci rsrp = normalizeCellReading ''/Modem/0'' 7
     [(''ci'', CellText ci), (''rsrp'', CellNumber (Fin rsrp)), (''snr'', CellNumber (Fin 3)), (''serving'', CellFlag False)]"

theorem serving_cell_ignores_order_witness:
  "selectServingCell sample_num_text [sample_cell ''B'' (- 101), sample_cell ''A'' (- 95), sample_cell ''C'' (- 95)] =
     Some (sample_cell ''A'' (- 95))"
proof -
  let ?a = "sample_cell ''A'' (- 95)" and ?b = "sample_cell ''B'' (- 101)" and ?c = "sample_cell ''C'' (- 95)"
  have f: "list_all finite_reading [?a, ?b, ?c]" by code_simp
  have s: "list_all (\<lambda>r. cr_source r = ''/Modem/0'' \<and> cr_observedAt r = 7) [?a, ?b, ?c]" by code_simp
  have "selectServingCell sample_num_text [?a, ?b, ?c] = Some ?a" by code_simp
  with serving_cell_ignores_order [OF sample_num_text_ok f s, of "[?b, ?a, ?c]"] show ?thesis by simp
qed

text \<open>A reading whose strength is not a number is outranked by no cell and outranks none: it is selected when it
  comes first and not when it comes last.\<close>

lemma nan_reading_keeps_its_place:
  assumes "r = normalizeCellReading s t [(''rsrp'', CellNumber NaN)]" and "c = normalizeCellReading s t [(''rsrp'', CellNumber (Fin q))]"
  shows "selectServingCell num_text [r, c] = Some r \<and> selectServingCell num_text [c, r] = Some c"
proof -
  have "cr_serving r = cr_serving c" "cr_rsrp r = Some NaN" "cr_rsrp c = Some (Fin q)"
    by (simp_all add: assms normalizeCellReading_def readServing_def cell_prop_def cell_number_def cell_text_def)
  then show ?thesis by (simp add: selectServingCell_def compareServing_def compareOptionalDesc_def strictly_equal_def)
qed

text \<open>\<open>physdev\<close> is read off the properties and nothing else, and a version that cannot be parsed turns every
  other feature off that no property shows.\<close>

lemma features_of_unparsable_version:
  "ft_physdev (detectMmFeatures version probe) \<longleftrightarrow> ''Physdev'' \<in> set (pp_properties probe)"
  "parseMmVersion version = None \<Longrightarrow> ft_cellInfo (detectMmFeatures version probe) = TierNone \<and>
     \<not> ft_opSerialization (detectMmFeatures version probe)"
  by (simp_all add: detectMmFeatures_def Let_def detectCellInfo_def versionAtLeast_def)

end
