(* ===== verification/Call_Log.thy ===== *)
theory Call_Log
  imports Prelude
begin

text \<open>
  The calls a computation makes: a world keeps a log of calls that only grows, read by a selector \<open>calls\<close>;
  \<open>emits_by calls S m\<close> says that whatever the world answers, the calls \<open>m\<close> adds satisfy \<open>S\<close>. One lemma per
  combinator of \<open>Prelude\<close>.
\<close>

definition emits_by :: "('w \<Rightarrow> 'c list) \<Rightarrow> ('c list \<Rightarrow> bool) \<Rightarrow> ('w, 'a) io \<Rightarrow> bool" where
  "emits_by calls S m \<longleftrightarrow> (\<forall>w. \<exists>cs. calls (snd (m w)) = calls w @ cs \<and> S cs)"

lemma emits_mono: "emits_by calls S m \<Longrightarrow> (\<And>cs. S cs \<Longrightarrow> T cs) \<Longrightarrow> emits_by calls T m"
  by (fastforce simp: emits_by_def)

text \<open>\<open>upto_calls n ok wr\<close>: calls of the kind \<open>ok\<close>, at most \<open>n\<close> of them of the kind \<open>wr\<close>.\<close>

definition upto_calls :: "nat \<Rightarrow> ('c \<Rightarrow> bool) \<Rightarrow> ('c \<Rightarrow> bool) \<Rightarrow> 'c list \<Rightarrow> bool" where
  "upto_calls n ok wr cs \<longleftrightarrow> list_all ok cs \<and> length (filter wr cs) \<le> n"

lemma upto_append: "upto_calls m ok wr cs \<Longrightarrow> upto_calls n ok wr ds \<Longrightarrow> upto_calls (m + n) ok wr (cs @ ds)"
  by (simp add: upto_calls_def)

lemma upto_le: "upto_calls m ok wr cs \<Longrightarrow> m \<le> n \<Longrightarrow> upto_calls n ok wr cs"
  by (simp add: upto_calls_def)

named_theorems emits_intros \<open>the calls of each combinator\<close>

lemma emits_pure: "(\<And>w. calls (snd (m w)) = calls w) \<Longrightarrow> emits_by calls (upto_calls n ok wr) m"
  by (simp add: emits_by_def upto_calls_def)

lemma emits_return [emits_intros]: "emits_by calls (upto_calls n ok wr) (io_return a)"
  by (rule emits_pure) (simp add: io_return_def)

lemma emits_throw [emits_intros]: "emits_by calls (upto_calls n ok wr) (io_throw e)"
  by (rule emits_pure) (simp add: io_throw_def)

lemma emits_bind:
  assumes "emits_by calls (upto_calls m ok wr) x" and "\<And>a. emits_by calls (upto_calls n ok wr) (f a)"
  shows "emits_by calls (upto_calls (m + n) ok wr) (io_bind x f)"
  unfolding emits_by_def
proof
  fix w
  obtain r w1 where x: "x w = (r, w1)" by force
  obtain cs where cs: "calls w1 = calls w @ cs" "upto_calls m ok wr cs"
    using assms(1) x by (auto simp: emits_by_def dest!: spec [of _ w])
  show "\<exists>cs. calls (snd (io_bind x f w)) = calls w @ cs \<and> upto_calls (m + n) ok wr cs"
  proof (cases r)
    case (Inl e)
    then show ?thesis using x cs upto_le [OF cs(2), of "m + n"] by (auto simp: io_bind_def)
  next
    case (Inr a)
    obtain ds where "calls (snd (f a w1)) = calls w1 @ ds" "upto_calls n ok wr ds"
      using assms(2) [of a] by (auto simp: emits_by_def)
    then show ?thesis using x cs Inr upto_append by (fastforce simp: io_bind_def)
  qed
qed

lemma emits_catch:
  assumes "emits_by calls (upto_calls m ok wr) x" and "\<And>e. emits_by calls (upto_calls n ok wr) (h e)"
  shows "emits_by calls (upto_calls (m + n) ok wr) (io_catch x h)"
  unfolding emits_by_def
proof
  fix w
  obtain r w1 where x: "x w = (r, w1)" by force
  obtain cs where cs: "calls w1 = calls w @ cs" "upto_calls m ok wr cs"
    using assms(1) x by (auto simp: emits_by_def dest!: spec [of _ w])
  show "\<exists>cs. calls (snd (io_catch x h w)) = calls w @ cs \<and> upto_calls (m + n) ok wr cs"
  proof (cases r)
    case (Inl e)
    obtain ds where "calls (snd (h e w1)) = calls w1 @ ds" "upto_calls n ok wr ds"
      using assms(2) [of e] by (auto simp: emits_by_def)
    then show ?thesis using x cs Inl upto_append by (fastforce simp: io_catch_def)
  next
    case (Inr a)
    then show ?thesis using x cs upto_le [OF cs(2), of "m + n"] by (auto simp: io_catch_def)
  qed
qed

lemma emits_finally:
  assumes "emits_by calls (upto_calls m ok wr) x" and "emits_by calls (upto_calls n ok wr) fin"
  shows "emits_by calls (upto_calls (m + n) ok wr) (io_finally x fin)"
  unfolding emits_by_def
proof
  fix w
  obtain r w1 where x: "x w = (r, w1)" by force
  obtain rf w2 where f: "fin w1 = (rf, w2)" by force
  obtain cs where cs: "calls w1 = calls w @ cs" "upto_calls m ok wr cs"
    using assms(1) x by (auto simp: emits_by_def dest!: spec [of _ w])
  obtain ds where ds: "calls w2 = calls w1 @ ds" "upto_calls n ok wr ds"
    using assms(2) f by (auto simp: emits_by_def dest!: spec [of _ w1])
  have "snd (io_finally x fin w) = w2" by (simp add: io_finally_def x f split: sum.splits)
  then show "\<exists>cs. calls (snd (io_finally x fin w)) = calls w @ cs \<and> upto_calls (m + n) ok wr cs"
    using cs ds upto_append by fastforce
qed

text \<open>Where one part makes no call of the kind that is counted.\<close>

lemma emits_bind0: "emits_by calls (upto_calls 0 ok wr) x \<Longrightarrow> (\<And>a. emits_by calls (upto_calls n ok wr) (f a)) \<Longrightarrow> emits_by calls (upto_calls n ok wr) (io_bind x f)"
  using emits_bind [of calls 0 ok wr x n f] by simp

lemma emits_bind1: "emits_by calls (upto_calls (Suc 0) ok wr) x \<Longrightarrow> (\<And>a. emits_by calls (upto_calls 0 ok wr) (f a)) \<Longrightarrow> emits_by calls (upto_calls (Suc 0) ok wr) (io_bind x f)"
  using emits_bind [of calls "Suc 0" ok wr x 0 f] by simp

lemma emits_catch0: "emits_by calls (upto_calls n ok wr) x \<Longrightarrow> (\<And>e. emits_by calls (upto_calls 0 ok wr) (h e)) \<Longrightarrow> emits_by calls (upto_calls n ok wr) (io_catch x h)"
  using emits_catch [of calls n ok wr x 0 h] by simp

text \<open>A computation of a part of the world.\<close>

lemma emits_part:
  assumes "emits_by calls S m" and "\<And>w. snd (M w) = put w (snd (m (get w)))" and "\<And>w p. get (put w p) = p"
  shows "emits_by (\<lambda>w. calls (get w)) S M"
  using assms by (auto simp: emits_by_def)

end
