(* ===== verification/Operation.thy ===== *)
theory Operation
  imports Domain_State
begin

text \<open>
  The operation contract of \<open>domain/operation.ts\<close>: descriptors, completions, results, the
  classification of a completion against the device generation, and the auto-retry rule.
  The input type \<open>'i\<close> and the output type \<open>'o\<close> are the type parameters of the code. The code
  compares inputs with \<open>Object.is\<close> and tests \<open>typeof input === 'number'\<close>, so an input is either
  a number or something else; an element of \<open>'i\<close> stands for a value up to \<open>Object.is\<close>.
\<close>

datatype operation_support = Supported | NotSupported string

datatype 'i operand = NumberOperand rat | OtherOperand 'i

datatype 'i operation_constraints =
    Unconstrained
  | AllowedValues "'i operand list"
  | NumericRange rat rat "rat option"

datatype operation_availability = Available | Unavailable string | RefusedAvailability string

datatype mutation_impact = ImpactRead | ImpactWrite | ImpactSession | ImpactDisruptive | ImpactRecovery

datatype retry_class = RetryNever | RetryIdempotentRead

datatype operation_confidence = OpConfHigh | OpConfMedium | OpConfLow | OpConfUnknown

datatype operation_requirement = NotRequired | Required string

datatype operation_authority = AuthProvider | AuthController | AuthHardware

datatype ('i, 'o) operation_readback =
    NoReadback
  | ReadbackRequired string "'i operand \<Rightarrow> 'o \<Rightarrow> bool"

record ('i, 'o) operation_descriptor =
  d_id :: string
  d_supportRead :: operation_support
  d_supportWrite :: operation_support
  d_authority :: operation_authority
  d_provider :: string
  d_constraints :: "'i operation_constraints"
  d_livePreconditions :: "string list"
  d_availability :: operation_availability
  d_mutationImpact :: mutation_impact
  d_retryClass :: retry_class
  d_readback :: "('i, 'o) operation_readback"
  d_rollback :: operation_requirement
  d_journal :: operation_requirement
  d_admission :: operation_requirement
  d_profiles :: "string list"
  d_firmware :: "string list"
  d_confidence :: operation_confidence

datatype descriptor_error = RetryRequiresIdempotentRead

definition defineOperationDescriptor ::
  "('i, 'o) operation_descriptor \<Rightarrow> descriptor_error + ('i, 'o) operation_descriptor" where
  "defineOperationDescriptor descriptor =
     (if d_retryClass descriptor = RetryIdempotentRead \<and>
         (d_mutationImpact descriptor \<noteq> ImpactRead \<or> d_supportRead descriptor \<noteq> Supported)
      then Inl RetryRequiresIdempotentRead
      else Inr descriptor)"

datatype 'o operation_completion =
    CompletionApplied 'o
  | CompletionRefused string
  | CompletionFailed string
  | CompletionTimedOut
  | CompletionDropped

datatype unknown_reason = StaleGeneration | WriteReplyTimedOut | WriteReplyDropped

text \<open>
  A result with its generation; \<open>requiresReconciliation\<close> is fixed by the status, so it is a
  function of the result rather than a field.
\<close>

datatype 'o operation_result =
    ResultApplied 'o int
  | ResultRefused string int
  | ResultUnknown unknown_reason int
  | ResultFailed string int

fun requiresReconciliation :: "'o operation_result \<Rightarrow> bool" where
  "requiresReconciliation (ResultApplied v g) = False"
| "requiresReconciliation (ResultRefused r g) = False"
| "requiresReconciliation (ResultUnknown r g) = True"
| "requiresReconciliation (ResultFailed r g) = False"

fun result_generation :: "'o operation_result \<Rightarrow> int" where
  "result_generation (ResultApplied v g) = g"
| "result_generation (ResultRefused r g) = g"
| "result_generation (ResultUnknown r g) = g"
| "result_generation (ResultFailed r g) = g"

datatype operation_kind = KindRead | KindWrite

fun classifyOperationCompletion ::
  "operation_kind \<Rightarrow> int \<Rightarrow> int \<Rightarrow> 'o operation_completion \<Rightarrow> 'o operation_result" where
  "classifyOperationCompletion operation generation currentGeneration completion =
     (if generation \<noteq> currentGeneration then ResultUnknown StaleGeneration generation
      else case completion of
        CompletionApplied value \<Rightarrow> ResultApplied value generation
      | CompletionRefused reason \<Rightarrow> ResultRefused reason generation
      | CompletionFailed reason \<Rightarrow> ResultFailed reason generation
      | CompletionTimedOut \<Rightarrow>
          (if operation = KindWrite then ResultUnknown WriteReplyTimedOut generation
           else ResultFailed ''read-reply-timed-out'' generation)
      | CompletionDropped \<Rightarrow>
          (if operation = KindWrite then ResultUnknown WriteReplyDropped generation
           else ResultFailed ''read-reply-dropped'' generation))"

definition canAutoRetry :: "('i, 'o) operation_descriptor \<Rightarrow> 'r operation_result \<Rightarrow> bool" where
  "canAutoRetry descriptor result \<longleftrightarrow>
     d_mutationImpact descriptor = ImpactRead \<and>
     d_supportRead descriptor = Supported \<and>
     d_retryClass descriptor = RetryIdempotentRead \<and>
     (case result of ResultFailed _ _ \<Rightarrow> True | _ \<Rightarrow> False)"

section \<open>What the classification promises\<close>

lemma classify_generation [simp]: "result_generation (classifyOperationCompletion k g c x) = g"
  by (cases x) auto

lemma classify_read_unknown:
  "classifyOperationCompletion KindRead g c x = ResultUnknown r g' \<Longrightarrow> r = StaleGeneration \<and> g \<noteq> c"
  by (cases x) (auto split: if_splits)

lemma classify_applied:
  "classifyOperationCompletion k g c x = ResultApplied v g' \<longleftrightarrow> g = c \<and> g' = g \<and> x = CompletionApplied v"
  by (cases x) (auto split: if_splits)

lemma not_canAutoRetry_write: "d_mutationImpact d \<noteq> ImpactRead \<Longrightarrow> \<not> canAutoRetry d r"
  by (simp add: canAutoRetry_def)

lemma defineOperationDescriptor_Inr:
  "defineOperationDescriptor d = Inr d' \<longleftrightarrow>
     d' = d \<and> (d_retryClass d = RetryIdempotentRead \<longrightarrow>
                 d_mutationImpact d = ImpactRead \<and> d_supportRead d = Supported)"
  by (auto simp: defineOperationDescriptor_def)

text \<open>A completion is exposed as a definite outcome only when the device generation did not
  move and, for a write, the reply arrived: the outcome is unknown exactly when the generation is
  stale or the operation is a write whose reply timed out or was dropped; a lost reply of a read
  is an ordinary failure, and only such a failure of an idempotent read may be retried.\<close>

theorem classification_exposes_uncertainty:
  "(requiresReconciliation (classifyOperationCompletion k g c x) \<longleftrightarrow>
      g \<noteq> c \<or> k = KindWrite \<and> (x = CompletionTimedOut \<or> x = CompletionDropped)) \<and>
   ((\<exists>v. classifyOperationCompletion k g c x = ResultApplied v g) \<longleftrightarrow>
      g = c \<and> (\<exists>v. x = CompletionApplied v)) \<and>
   (canAutoRetry d (classifyOperationCompletion KindRead g c x) \<longleftrightarrow>
      d_mutationImpact d = ImpactRead \<and> d_supportRead d = Supported \<and>
      d_retryClass d = RetryIdempotentRead \<and> g = c \<and>
      (x = CompletionTimedOut \<or> x = CompletionDropped \<or> (\<exists>reason. x = CompletionFailed reason)))"
  by (cases x; cases k) (auto simp: canAutoRetry_def)

theorem classification_exposes_uncertainty_witness:
  "requiresReconciliation (classifyOperationCompletion KindWrite 3 3 (CompletionTimedOut :: unit operation_completion)) \<and>
   requiresReconciliation (classifyOperationCompletion KindRead 3 4 (CompletionApplied ()))"
  using classification_exposes_uncertainty [of KindWrite 3 3 "CompletionTimedOut :: unit operation_completion"]
    classification_exposes_uncertainty [of KindRead 3 4 "CompletionApplied ()"]
  by simp

declare classifyOperationCompletion.simps [simp del]

end
