(* ===== verification/Band_Lock.thy ===== *)
theory Band_Lock
  imports Operation Managed_Objects Json "HOL-Library.Multiset" "HOL-Library.List_Lexorder" "HOL-Library.Char_ord"
begin

text \<open>
  Band names and numbers (\<open>band/band-names.ts\<close>), the catalog of certified band locks
  (\<open>band/certification.ts\<close>), and the band-write descriptor with its readback rule
  (\<open>radio/band-truth.ts\<close>). A band name is a string; the table of names is built from the irregular
  head and the arithmetic blocks, as the code builds its two Maps.
\<close>

section \<open>Names\<close>

definition BAND_UNKNOWN :: string where "BAND_UNKNOWN = ''unknown''"
definition BAND_ANY :: string where "BAND_ANY = ''any''"
definition BAND_ANY_VALUE :: int where "BAND_ANY_VALUE = 256"

definition IRREGULAR :: "(int \<times> string) list" where
  "IRREGULAR =
     [(0, BAND_UNKNOWN), (1, ''egsm''), (2, ''dcs''), (3, ''pcs''), (4, ''g850''), (5, ''utran-1''), (6, ''utran-3''),
      (7, ''utran-4''), (8, ''utran-6''), (9, ''utran-5''), (10, ''utran-8''), (11, ''utran-9''), (12, ''utran-2''),
      (13, ''utran-7''), (14, ''g450''), (15, ''g480''), (16, ''g750''), (17, ''g380''), (18, ''g410''), (19, ''g710''),
      (20, ''g810''), (BAND_ANY_VALUE, BAND_ANY)]"

text \<open>The arithmetic blocks: prefix, base, first and last index.\<close>

definition ARITHMETIC :: "(string \<times> nat \<times> nat \<times> nat) list" where
  "ARITHMETIC = [(''eutran-'', 30, 1, 71), (''cdma-bc'', 128, 0, 19), (''ngran-'', 300, 1, 261)]"

definition block_rows :: "string \<times> nat \<times> nat \<times> nat \<Rightarrow> (int \<times> string) list" where
  "block_rows blk = (case blk of (pre, base, lo, hi) \<Rightarrow>
     map (\<lambda>index. (int (base + index), pre @ show_nat index)) [lo..<Suc hi])"

definition NUMBER_TO_NAME :: "(int \<times> string) list" where
  "NUMBER_TO_NAME = IRREGULAR @ concat (map block_rows ARITHMETIC)"

definition NAME_TO_NUMBER :: "(string \<times> int) list" where
  "NAME_TO_NUMBER = map prod.swap NUMBER_TO_NAME"

definition BAND_PASSTHROUGH :: string where "BAND_PASSTHROUGH = ''band-''"

definition bandName :: "int \<Rightarrow> string" where
  "bandName value = (case map_of NUMBER_TO_NAME value of
     Some name \<Rightarrow> name | None \<Rightarrow> BAND_PASSTHROUGH @ show_int value)"

definition bandValue :: "string \<Rightarrow> int option" where
  "bandValue name =
     (case map_of NAME_TO_NUMBER name of
        Some known \<Rightarrow> Some known
      | None \<Rightarrow>
          (let digits = drop (length BAND_PASSTHROUGH) name in
           if prefix BAND_PASSTHROUGH name \<and> digits \<noteq> [] \<and> list_all is_digit digits
           then (let v = int (nat_of_digits digits) in if isSafeInteger v then Some v else None)
           else None))"

definition isNamedBand :: "string \<Rightarrow> bool" where
  "isNamedBand name \<longleftrightarrow> map_of NAME_TO_NUMBER name \<noteq> None"

fun band_members :: "dbus_value list \<Rightarrow> string list" where
  "band_members [] = []"
| "band_members (DNum member # members) =
     (if \<not> isSafeInteger member then band_members members
      else let name = bandName member in
        if name = BAND_UNKNOWN then band_members members else name # band_members members)"
| "band_members (_ # members) = band_members members"

definition decodeBandList :: "dbus_value option \<Rightarrow> string list" where
  "decodeBandList value = (case value of Some (DArr members) \<Rightarrow> band_members members | _ \<Rightarrow> [])"

text \<open>\<open>Inl\<close> the first name that has no value.\<close>

fun encodeBandList :: "string list \<Rightarrow> string + int list" where
  "encodeBandList [] = Inr []"
| "encodeBandList (name # names) =
     (case bandValue name of
        None \<Rightarrow> Inl name
      | Some v \<Rightarrow> sum_bind (encodeBandList names) (\<lambda>vs. Inr (v # vs)))"

definition isResetSelection :: "string list \<Rightarrow> bool" where
  "isResetSelection names \<longleftrightarrow> names = [BAND_ANY]"

section \<open>The catalog\<close>

record band_sku =
  bs_vidPid :: string
  bs_model :: string
  bs_firmwarePrefix :: string

record band_entry =
  be_vidPid :: string
  be_model :: string
  be_firmwarePrefix :: string
  be_evidence :: string
  be_provenBands :: "string list"

text \<open>
  \<open>loadBandCertificationCatalog\<close> on a parsed document: the strict objects of the schema refuse a key
  they do not name, every proof is the literal true, a missing \<open>provenBands\<close> is the empty list.
\<close>

definition strict_keys :: "string list \<Rightarrow> 'n json \<Rightarrow> bool" where
  "strict_keys keys value \<longleftrightarrow> (case value of JObj ms \<Rightarrow> list_all (\<lambda>m. fst m \<in> set keys) ms | _ \<Rightarrow> False)"

definition nonempty_string :: "'n json option \<Rightarrow> string option" where
  "nonempty_string value = (case value of Some (JStr s) \<Rightarrow> if s = [] then None else Some s | _ \<Rightarrow> None)"

definition vid_pid_string :: "'n json option \<Rightarrow> string option" where
  "vid_pid_string value = (case value of Some (JStr s) \<Rightarrow> if hex_pair s then Some s else None | _ \<Rightarrow> None)"

fun string_members :: "'n json list \<Rightarrow> string list option" where
  "string_members [] = Some []"
| "string_members (JStr s # xs) = map_option ((#) s) (string_members xs)"
| "string_members (_ # xs) = None"

definition proofs_ok :: "'n json \<Rightarrow> bool" where
  "proofs_ok value \<longleftrightarrow> strict_keys [''supportedRead'', ''set'', ''readback'', ''reset''] value \<and>
     list_all (\<lambda>k. json_field value k = Some (JBool True)) [''supportedRead'', ''set'', ''readback'', ''reset'']"

definition parse_band_entry :: "'n json \<Rightarrow> band_entry option" where
  "parse_band_entry value =
     (if \<not> strict_keys [''vidPid'', ''model'', ''firmwarePrefix'', ''evidence'', ''proofs'', ''provenBands''] value
      then None
      else case (vid_pid_string (json_field value ''vidPid''), nonempty_string (json_field value ''model''),
                 nonempty_string (json_field value ''firmwarePrefix''), nonempty_string (json_field value ''evidence''),
                 json_field value ''proofs'',
                 case json_field value ''provenBands'' of None \<Rightarrow> Some [] | Some (JArr xs) \<Rightarrow> string_members xs | _ \<Rightarrow> None) of
        (Some vidPid, Some model, Some firmware, Some evidence, Some proofs, Some proven) \<Rightarrow>
          if proofs_ok proofs
          then Some \<lparr>be_vidPid = vidPid, be_model = model, be_firmwarePrefix = firmware, be_evidence = evidence,
                     be_provenBands = proven\<rparr>
          else None
      | _ \<Rightarrow> None)"

fun parse_band_entries :: "'n json list \<Rightarrow> band_entry list option" where
  "parse_band_entries [] = Some []"
| "parse_band_entries (x # xs) =
     Option.bind (parse_band_entry x) (\<lambda>e. map_option ((#) e) (parse_band_entries xs))"

definition loadBandCertificationCatalog :: "int json \<Rightarrow> band_entry list option" where
  "loadBandCertificationCatalog value =
     (if \<not> strict_keys [''schemaVersion'', ''entries''] value \<or> json_field value ''schemaVersion'' \<noteq> Some (JNum 1)
      then None
      else case json_field value ''entries'' of Some (JArr xs) \<Rightarrow> parse_band_entries xs | _ \<Rightarrow> None)"

text \<open>The shipped document, \<open>band/certified-bands.json\<close>.\<close>

definition certified_bands_json :: "int json" where
  "certified_bands_json = JObj [(''schemaVersion'', JNum 1), (''entries'', JArr [])]"

definition BAND_CERTIFICATION_CATALOG :: "band_entry list" where
  "BAND_CERTIFICATION_CATALOG = the (loadBandCertificationCatalog certified_bands_json)"

definition findBandCertification :: "band_entry list \<Rightarrow> band_sku \<Rightarrow> band_entry option" where
  "findBandCertification catalog sku =
     find (\<lambda>entry. be_vidPid entry = bs_vidPid sku \<and> be_model entry = bs_model sku \<and>
                   prefix (be_firmwarePrefix entry) (bs_firmwarePrefix sku)) catalog"

definition isBandControlCertified :: "band_entry list \<Rightarrow> band_sku option \<Rightarrow> bool" where
  "isBandControlCertified catalog sku =
     (case sku of None \<Rightarrow> False | Some s \<Rightarrow> findBandCertification catalog s \<noteq> None)"

definition offerableBands :: "band_entry option \<Rightarrow> string list \<Rightarrow> string list" where
  "offerableBands entry supported =
     (case entry of
        None \<Rightarrow> []
      | Some e \<Rightarrow> if be_provenBands e = [] then supported
                  else filter (\<lambda>band. band \<in> set (be_provenBands e)) supported)"

section \<open>The band write\<close>

record modem_bands =
  mb_supported :: "string list"
  mb_current :: "string list"

definition BAND_WRITE_OPERATION_ID :: string where "BAND_WRITE_OPERATION_ID = ''modemmanager.bands''"
definition BAND_WRITE_REFUSAL :: string where "BAND_WRITE_REFUSAL = ''band-certification-required''"
definition BAND_READ_REFUSAL :: string where "BAND_READ_REFUSAL = ''band-read-unsupported''"
definition BAND_NONE_OFFERABLE_REFUSAL :: string where "BAND_NONE_OFFERABLE_REFUSAL = ''no-offerable-certified-bands''"

text \<open>\<open>required\<close> is the literal true, so the record has no field for it.\<close>

record band_write_certification =
  bc_satisfied :: bool
  bc_reason :: string
  bc_offerable :: "string list"

definition describeBandWriteCertification :: "band_entry option \<Rightarrow> string list \<Rightarrow> band_write_certification" where
  "describeBandWriteCertification entry supported =
     (let offerable = offerableBands entry supported in
      case entry of
        None \<Rightarrow> \<lparr>bc_satisfied = False, bc_reason = BAND_WRITE_REFUSAL, bc_offerable = offerable\<rparr>
      | Some _ \<Rightarrow> \<lparr>bc_satisfied = True, bc_reason = ''band-certification-proven'', bc_offerable = offerable\<rparr>)"

definition sameBandSet :: "string list \<Rightarrow> string list \<Rightarrow> bool" where
  "sameBandSet left right \<longleftrightarrow> length left = length right \<and> sort left = sort right"

definition bandWriteReadbackMatches :: "string list \<Rightarrow> modem_bands \<Rightarrow> bool" where
  "bandWriteReadbackMatches requested observed =
     (if requested = [BAND_ANY]
      then mb_current observed = [BAND_ANY] \<or> sameBandSet (mb_current observed) (mb_supported observed)
      else sameBandSet requested (mb_current observed))"

definition buildBandWriteDescriptor ::
  "string \<Rightarrow> string \<Rightarrow> band_write_certification \<Rightarrow> bool \<Rightarrow>
     descriptor_error + (string list, modem_bands) operation_descriptor" where
  "buildBandWriteDescriptor provider profile certification readSupported =
     (let refusal = (if \<not> bc_satisfied certification then Some BAND_WRITE_REFUSAL
                     else if bc_offerable certification = [] then Some BAND_NONE_OFFERABLE_REFUSAL else None)
      in defineOperationDescriptor
         \<lparr>d_id = BAND_WRITE_OPERATION_ID,
          d_supportRead = (if readSupported then Supported else NotSupported BAND_READ_REFUSAL),
          d_supportWrite = (if bc_satisfied certification then Supported else NotSupported BAND_WRITE_REFUSAL),
          d_authority = AuthProvider, d_provider = provider,
          d_constraints = AllowedValues [OtherOperand (bc_offerable certification)],
          d_livePreconditions = [''modem-present'', ''runtime-interface-present'', ''band-certification-present''],
          d_availability = (case refusal of None \<Rightarrow> Available | Some r \<Rightarrow> RefusedAvailability r),
          d_mutationImpact = ImpactDisruptive, d_retryClass = RetryNever,
          d_readback = ReadbackRequired ''band-write-readback''
            (\<lambda>operand observed. case operand of
               OtherOperand requested \<Rightarrow> bandWriteReadbackMatches requested observed | _ \<Rightarrow> False),
          d_rollback = NotRequired, d_journal = Required ''disruptive-radio-write'',
          d_admission = Required ''provider-mutation'', d_profiles = [profile], d_firmware = [],
          d_confidence = OpConfHigh\<rparr>)"

section \<open>The tables\<close>

text \<open>No number and no name stands twice in the table, so the two Maps are inverse to each other.\<close>

lemma block_row: "(n, name) \<in> set (block_rows (pre, base, lo, hi)) \<longleftrightarrow>
    (\<exists>i. lo \<le> i \<and> i \<le> hi \<and> n = int (base + i) \<and> name = pre @ show_nat i)"
  by (auto simp: block_rows_def image_iff)

lemma block_numbers: "distinct (map fst (block_rows blk))"
  by (cases blk) (auto simp: block_rows_def comp_def distinct_map inj_on_def)

lemma block_names: "distinct (map snd (block_rows blk))"
  by (cases blk) (auto simp: block_rows_def comp_def distinct_map inj_on_def dest: show_nat_inj)

lemma irregular_rows:
  "distinct (map fst IRREGULAR)" "distinct (map snd IRREGULAR)"
  "list_all (\<lambda>row. 0 \<le> fst row \<and> fst row \<le> 20 \<or> fst row = 256) IRREGULAR"
  "list_all (\<lambda>row. \<not> prefix ''eutran-'' (snd row) \<and> \<not> prefix ''cdma-bc'' (snd row) \<and> \<not> prefix ''ngran-'' (snd row)
     \<and> \<not> prefix BAND_PASSTHROUGH (snd row)) IRREGULAR"
  by code_simp+

lemma NUMBER_TO_NAME_rows:
  "(n, name) \<in> set NUMBER_TO_NAME \<longleftrightarrow>
     (n, name) \<in> set IRREGULAR \<or>
     (\<exists>i. 1 \<le> i \<and> i \<le> 71 \<and> n = int (30 + i) \<and> name = ''eutran-'' @ show_nat i) \<or>
     (\<exists>i. 0 \<le> i \<and> i \<le> 19 \<and> n = int (128 + i) \<and> name = ''cdma-bc'' @ show_nat i) \<or>
     (\<exists>i. 1 \<le> i \<and> i \<le> 261 \<and> n = int (300 + i) \<and> name = ''ngran-'' @ show_nat i)"
  by (simp only: NUMBER_TO_NAME_def ARITHMETIC_def list.map concat.simps append_Nil2 set_append Un_iff block_row)

lemma NUMBER_TO_NAME_blocks:
  "NUMBER_TO_NAME = IRREGULAR @ block_rows (''eutran-'', 30, 1, 71) @ block_rows (''cdma-bc'', 128, 0, 19) @
     block_rows (''ngran-'', 300, 1, 261)"
  by (simp only: NUMBER_TO_NAME_def ARITHMETIC_def list.map concat.simps append_Nil2)

lemma numbers_distinct: "distinct (map fst NUMBER_TO_NAME)"
  using irregular_rows(1,3)
  by (fastforce simp: NUMBER_TO_NAME_blocks block_numbers block_row list_all_iff simp del: upt_rec_numeral)

lemma names_distinct: "distinct (map snd NUMBER_TO_NAME)"
  using irregular_rows(2,4)
  by (fastforce simp: NUMBER_TO_NAME_blocks block_names block_row list_all_iff simp del: upt_rec_numeral)

lemma shipped_catalog_empty: "BAND_CERTIFICATION_CATALOG = []"
  by code_simp

section \<open>Names that come back\<close>

lemma NAME_TO_NUMBER_iff: "map_of NAME_TO_NUMBER name = Some n \<longleftrightarrow> map_of NUMBER_TO_NAME n = Some name"
proof -
  have "distinct (map fst NAME_TO_NUMBER)"
    using names_distinct by (simp add: NAME_TO_NUMBER_def comp_def case_prod_beta)
  then have "map_of NAME_TO_NUMBER name = Some n \<longleftrightarrow> (name, n) \<in> set NAME_TO_NUMBER" by simp
  also have "\<dots> \<longleftrightarrow> (n, name) \<in> set NUMBER_TO_NAME" by (auto simp: NAME_TO_NUMBER_def)
  also have "\<dots> \<longleftrightarrow> map_of NUMBER_TO_NAME n = Some name" using numbers_distinct by simp
  finally show ?thesis .
qed

lemma passthrough_unnamed: "map_of NAME_TO_NUMBER (BAND_PASSTHROUGH @ digits) = None"
proof -
  have "map_of NUMBER_TO_NAME n \<noteq> Some (BAND_PASSTHROUGH @ digits)" for n
  proof
    assume "map_of NUMBER_TO_NAME n = Some (BAND_PASSTHROUGH @ digits)"
    then have "(n, BAND_PASSTHROUGH @ digits) \<in> set NUMBER_TO_NAME" by (rule map_of_SomeD)
    moreover have "(n, BAND_PASSTHROUGH @ digits) \<notin> set IRREGULAR"
      using irregular_rows(4) by (auto simp: list_all_iff)
    ultimately show False by (auto simp: NUMBER_TO_NAME_rows BAND_PASSTHROUGH_def)
  qed
  then show ?thesis using NAME_TO_NUMBER_iff by (metis not_None_eq)
qed

lemma bandValue_bandName:
  assumes "0 \<le> n" and "n \<le> MAX_SAFE_INTEGER"
  shows "bandValue (bandName n) = Some n"
proof (cases "map_of NUMBER_TO_NAME n")
  case None
  have "list_all is_digit (show_int n)" using assms by (auto simp: list_all_iff show_int_def dest: show_nat_digits)
  moreover have "nat_of_digits (show_int n) = nat n" "show_int n \<noteq> []" using assms by (simp_all add: show_int_def)
  ultimately show ?thesis
    using assms None by (simp add: bandName_def bandValue_def passthrough_unnamed isSafeInteger_def)
next
  case (Some name)
  then have "map_of NAME_TO_NUMBER name = Some n" by (simp only: NAME_TO_NUMBER_iff)
  with Some show ?thesis by (simp add: bandName_def bandValue_def)
qed

lemma bandName_bandValue: "isNamedBand name \<Longrightarrow> bandValue name = Some n \<Longrightarrow> bandName n = name"
proof -
  assume "isNamedBand name" "bandValue name = Some n"
  then have "map_of NAME_TO_NUMBER name = Some n" by (auto simp: isNamedBand_def bandValue_def)
  then show ?thesis by (simp add: bandName_def NAME_TO_NUMBER_iff)
qed

lemma named_value_safe:
  assumes "map_of NAME_TO_NUMBER name = Some n"
  shows "0 \<le> n \<and> n \<le> 561"
proof -
  from assms have "(n, name) \<in> set NUMBER_TO_NAME" by (simp add: NAME_TO_NUMBER_iff map_of_SomeD)
  then show ?thesis using irregular_rows(3) by (fastforce simp: list_all_iff NUMBER_TO_NAME_rows)
qed

lemma unknown_value: "bandValue BAND_UNKNOWN = Some 0"
proof -
  have "(0, BAND_UNKNOWN) \<in> set NUMBER_TO_NAME" by (simp add: NUMBER_TO_NAME_def IRREGULAR_def)
  then have "map_of NUMBER_TO_NAME 0 = Some BAND_UNKNOWN" using numbers_distinct by simp
  then have "map_of NAME_TO_NUMBER BAND_UNKNOWN = Some 0" by (simp only: NAME_TO_NUMBER_iff)
  then show ?thesis by (simp add: bandValue_def)
qed

lemma any_value: "bandValue BAND_ANY = Some BAND_ANY_VALUE"
proof -
  have "(BAND_ANY_VALUE, BAND_ANY) \<in> set NUMBER_TO_NAME" by (simp add: NUMBER_TO_NAME_def IRREGULAR_def)
  then have "map_of NUMBER_TO_NAME BAND_ANY_VALUE = Some BAND_ANY" using numbers_distinct by simp
  then have "map_of NAME_TO_NUMBER BAND_ANY = Some BAND_ANY_VALUE" by (simp only: NAME_TO_NUMBER_iff)
  then show ?thesis by (simp add: bandValue_def)
qed

lemma bandName_unknown: "0 \<le> n \<Longrightarrow> n \<le> MAX_SAFE_INTEGER \<Longrightarrow> bandName n = BAND_UNKNOWN \<longleftrightarrow> n = 0"
proof
  assume "0 \<le> n" "n \<le> MAX_SAFE_INTEGER" "bandName n = BAND_UNKNOWN"
  then have "Some n = bandValue BAND_UNKNOWN" using bandValue_bandName by metis
  then show "n = 0" by (simp add: unknown_value)
next
  assume "n = 0"
  have "(0, BAND_UNKNOWN) \<in> set NUMBER_TO_NAME" by (simp add: NUMBER_TO_NAME_def IRREGULAR_def)
  then have "map_of NUMBER_TO_NAME 0 = Some BAND_UNKNOWN" using numbers_distinct by simp
  with \<open>n = 0\<close> show "bandName n = BAND_UNKNOWN" by (simp add: bandName_def)
qed

lemma encode_band_members:
  "list_all (\<lambda>n. 0 \<le> n \<and> n \<le> MAX_SAFE_INTEGER) ns \<Longrightarrow>
     encodeBandList (band_members (map DNum ns)) = Inr (filter (\<lambda>n. n \<noteq> 0) ns)"
  by (induction ns) (auto simp: isSafeInteger_def Let_def bandName_unknown bandValue_bandName)

lemma encode_named_bands:
  "list_all (\<lambda>name. isNamedBand name \<and> name \<noteq> BAND_UNKNOWN) names \<Longrightarrow>
     \<exists>ns. encodeBandList names = Inr ns \<and> band_members (map DNum ns) = names"
proof (induction names)
  case (Cons name names)
  then obtain ns where ns: "encodeBandList names = Inr ns" "band_members (map DNum ns) = names" by auto
  from Cons.prems obtain n where n: "map_of NAME_TO_NUMBER name = Some n" by (auto simp: isNamedBand_def)
  then have v: "bandValue name = Some n" by (simp add: bandValue_def)
  moreover have "bandName n = name" using Cons.prems v by (auto intro: bandName_bandValue)
  moreover have "isSafeInteger n" using named_value_safe [OF n] by (simp add: isSafeInteger_def MAX_SAFE_INTEGER_def)
  ultimately show ?case using ns Cons.prems by (auto simp: Let_def)
qed simp

section \<open>Properties\<close>

text \<open>C46: the bands a modem reports can be commanded back: decoding a list of band numbers and encoding the names gives the numbers again, less the number that means unknown and whether or not this build has a name for them, and a selection of names this build knows decodes, after encoding, to itself; a selection with a name that has no number is refused as a whole.\<close>

theorem band_selection_roundtrip:
  assumes "list_all (\<lambda>n. 0 \<le> n \<and> n \<le> MAX_SAFE_INTEGER) ns"
    and "list_all (\<lambda>name. isNamedBand name \<and> name \<noteq> BAND_UNKNOWN) names"
    and "bandValue stray = None"
  shows "encodeBandList (decodeBandList (Some (DArr (map DNum ns)))) = Inr (filter (\<lambda>n. n \<noteq> 0) ns) \<and>
     (\<exists>vs. encodeBandList names = Inr vs \<and> decodeBandList (Some (DArr (map DNum vs))) = names) \<and>
     encodeBandList (names @ stray # rest) = Inl stray"
proof -
  have "encodeBandList (names @ stray # rest) = Inl stray"
    using assms(2,3)
  proof (induction names)
    case (Cons name names)
    then obtain n where "map_of NAME_TO_NUMBER name = Some n" by (auto simp: isNamedBand_def)
    then show ?case using Cons by (simp add: bandValue_def)
  qed simp
  then show ?thesis
    using encode_band_members [OF assms(1)] encode_named_bands [OF assms(2)] by (simp add: decodeBandList_def)
qed

theorem band_selection_roundtrip_witness:
  "encodeBandList (decodeBandList (Some (DArr (map DNum [0, 33, 400, 4096])))) = Inr [33, 400, 4096] \<and>
   encodeBandList [''eutran-3'', ''lte''] = Inl ''lte''"
proof -
  have ns: "list_all (\<lambda>n. 0 \<le> n \<and> n \<le> MAX_SAFE_INTEGER) [0, 33, 400, 4096]" by (simp add: MAX_SAFE_INTEGER_def)
  have three: "show_nat 3 = ''3''" by code_simp
  have "(33, ''eutran-'' @ show_nat 3) \<in> set NUMBER_TO_NAME" by (simp only: NUMBER_TO_NAME_rows) force
  then have e: "map_of NAME_TO_NUMBER ''eutran-3'' = Some 33"
    using numbers_distinct by (simp add: NAME_TO_NUMBER_iff three)
  have l: "map_of NAME_TO_NUMBER ''lte'' = None"
  proof (rule ccontr)
    assume "map_of NAME_TO_NUMBER ''lte'' \<noteq> None"
    then obtain n where "(n, ''lte'') \<in> set NUMBER_TO_NAME" by (auto simp: NAME_TO_NUMBER_iff dest: map_of_SomeD)
    then show False by (auto simp: NUMBER_TO_NAME_rows IRREGULAR_def BAND_UNKNOWN_def BAND_ANY_def)
  qed
  have "list_all (\<lambda>name. isNamedBand name \<and> name \<noteq> BAND_UNKNOWN) [''eutran-3'']"
    by (simp add: isNamedBand_def e BAND_UNKNOWN_def)
  moreover have "bandValue ''lte'' = None" by (simp add: bandValue_def l BAND_PASSTHROUGH_def)
  ultimately show ?thesis
    using band_selection_roundtrip [OF ns, of "[''eutran-3'']" "''lte''" "[]"] by (simp only: filter.simps append.simps) simp
qed

text \<open>The numbers on the wire are unsigned 32-bit; the passthrough spells larger ones too, and names another
  number than its own: \<open>band-256\<close> is the reset value although it is not the reset selection.\<close>

lemma passthrough_aliases_reset:
  "bandValue ''band-256'' = Some BAND_ANY_VALUE \<and> \<not> isResetSelection [''band-256''] \<and> bandValue ''band-99999999999'' = Some 99999999999"
proof -
  have "bandValue (BAND_PASSTHROUGH @ ''256'') = Some 256" "bandValue (BAND_PASSTHROUGH @ ''99999999999'') = Some 99999999999"
    by (simp_all add: bandValue_def passthrough_unnamed is_digit_def nat_of_digits_def digit_val_def isSafeInteger_def MAX_SAFE_INTEGER_def)
  then show ?thesis by (simp add: BAND_PASSTHROUGH_def BAND_ANY_VALUE_def isResetSelection_def BAND_ANY_def)
qed

text \<open>A control is certified only by an entry of the catalog that names the device, and what it offers the modem advertises.\<close>

lemma offered_bands_certified:
  "band \<in> set (offerableBands (findBandCertification catalog sku) supported) \<Longrightarrow>
     band \<in> set supported \<and>
     (\<exists>entry \<in> set catalog. be_vidPid entry = bs_vidPid sku \<and> be_model entry = bs_model sku \<and>
        prefix (be_firmwarePrefix entry) (bs_firmwarePrefix sku) \<and>
        (be_provenBands entry = [] \<or> band \<in> set (be_provenBands entry)))"
proof (cases "findBandCertification catalog sku")
  case (Some entry)
  then have "entry \<in> set catalog \<and> be_vidPid entry = bs_vidPid sku \<and> be_model entry = bs_model sku \<and>
      prefix (be_firmwarePrefix entry) (bs_firmwarePrefix sku)"
    by (auto simp: findBandCertification_def find_Some_iff)
  moreover assume "band \<in> set (offerableBands (findBandCertification catalog sku) supported)"
  ultimately show ?thesis using Some by (auto simp: offerableBands_def split: if_splits)
qed (simp add: offerableBands_def)

lemma sameBandSet_mset: "sameBandSet left right \<longleftrightarrow> mset left = mset right"
proof
  assume "mset left = mset right"
  moreover from this have "length left = length right" by (metis size_mset)
  moreover have "sort left = sort right" using calculation(1) by (intro properties_for_sort) simp_all
  ultimately show "sameBandSet left right" by (simp add: sameBandSet_def)
qed (auto simp: sameBandSet_def dest: arg_cong [where f = mset])

lemma reset_readback:
  "bandWriteReadbackMatches [BAND_ANY] observed \<longleftrightarrow>
     mb_current observed = [BAND_ANY] \<or> mset (mb_current observed) = mset (mb_supported observed)"
  by (simp add: bandWriteReadbackMatches_def sameBandSet_mset)

text \<open>The descriptor's allowed values hold one selection, all offerable bands: any other lock, and the reset, is
  not among them.\<close>

lemma reset_not_allowed_by_descriptor:
  assumes "buildBandWriteDescriptor provider profile certification readSupported = Inr d"
    and "bc_offerable certification \<noteq> [BAND_ANY]"
  shows "case d_constraints d of AllowedValues vs \<Rightarrow> OtherOperand [BAND_ANY] \<notin> set vs | _ \<Rightarrow> False"
  using assms by (auto simp: buildBandWriteDescriptor_def Let_def defineOperationDescriptor_def)

end
