(* ===== verification/Reconcile_Plan.thy ===== *)
theory Reconcile_Plan
  imports Domain_State
begin

text \<open>
  The desired-state planner (\<open>ports/reconcile.ts\<close>) with the port-tagged operations (\<open>ports/ops.ts\<close>)
  and the receipts (\<open>ports/receipts.ts\<close>). The set of supported access technologies is a list in
  insertion order. \<open>execute\<close> is the stack of \<open>ports/reconcile.test.ts\<close>, which says what each
  operation does to the applied state.
\<close>

section \<open>Operations and receipts\<close>

record gsm_profile_input =
  gp_connectionName :: string
  gp_apn :: string
  gp_username :: "string option"
  gp_password :: "string option"
  gp_homeOnly :: bool
  gp_autoConfig :: bool
  gp_networkId :: "string option"

datatype mm_op = SetRadioModes desired_radio | SetPrimarySimSlot int

datatype nm_op =
    CreateGsmProfile gsm_profile_input
  | UpdateGsmProfile string gsm_profile_input
  | ActivateOp string string
  | DeactivateOp string string

datatype port_tagged_op = MmPort mm_op | NmPort nm_op

datatype policy_dimension = DimEnabled | DimConnection | DimRoaming | DimRadio | DimBand | DimSimSlot | DimRecovery | DimUsage

datatype receipt_status = ReceiptApplied | ReceiptPending | ReceiptUnsupported | ReceiptFailed

record receipt =
  rc_dimension :: policy_dimension
  rc_status :: receipt_status
  rc_reason :: string

definition receipt_of :: "policy_dimension \<Rightarrow> receipt_status \<Rightarrow> string \<Rightarrow> receipt" where
  "receipt_of dimension status reason = \<lparr>rc_dimension = dimension, rc_status = status, rc_reason = reason\<rparr>"

section \<open>The planner\<close>

record modem_capabilities =
  cap_supportedRats :: "radio_tech list"
  cap_simSlotCount :: int
  cap_supportsAutoApn :: bool

record applied_state =
  as_nmActivation :: nm_activation
  as_hasProfile :: bool
  as_connectionId :: "string option"
  as_deviceIfname :: "string option"
  as_appliedApn :: "string option"
  as_appliedRoaming :: "bool option"
  as_appliedRadioPreference :: "radio_tech list option"
  as_activePrimarySlot :: "int option"
  as_activationFailureReason :: "string option"

record reconcile_plan =
  pl_ops :: "port_tagged_op list"
  pl_receipts :: "receipt list"

fun rat_text :: "radio_tech \<Rightarrow> string" where
  "rat_text Gsm = ''gsm''"
| "rat_text Umts = ''umts''"
| "rat_text Lte = ''lte''"
| "rat_text Nr5g = ''5gnr''"

definition profileFromPolicy :: "desired_policy \<Rightarrow> gsm_profile_input" where
  "profileFromPolicy desired =
     (let auto = (dc_apn (dp_connection desired) = ''auto'');
          base = \<lparr>gp_connectionName = ''ceralive-cellular'', gp_apn = (if auto then [] else dc_apn (dp_connection desired)),
                  gp_username = None, gp_password = None, gp_homeOnly = (\<not> dp_roaming desired),
                  gp_autoConfig = auto, gp_networkId = None\<rparr>
      in case dc_auth (dp_connection desired) of
           Some creds \<Rightarrow>
             if \<not> auto then base\<lparr>gp_username := auth_username creds, gp_password := auth_password creds\<rparr> else base
         | None \<Rightarrow> base)"

definition on_off :: "bool \<Rightarrow> string" where
  "on_off b = (if b then ''enabled'' else ''disabled'')"

definition planNmProfile ::
  "applied_state \<Rightarrow> desired_policy \<Rightarrow> modem_capabilities \<Rightarrow> receipt \<times> receipt \<times> port_tagged_op option" where
  "planNmProfile current desired capabilities =
     (let apn = dc_apn (dp_connection desired); auto = (apn = ''auto'') in
      if auto \<and> \<not> cap_supportsAutoApn capabilities
      then (receipt_of DimConnection ReceiptUnsupported ''Auto-APN is not available on this NetworkManager / modem'',
            receipt_of DimRoaming ReceiptUnsupported ''roaming cannot be applied without a connection profile'', None)
      else if \<not> (\<not> as_hasProfile current \<or> as_appliedApn current \<noteq> Some apn \<or>
                 as_appliedRoaming current \<noteq> Some (dp_roaming desired))
      then (receipt_of DimConnection ReceiptApplied (''connection APN '' @ APOS @ apn @ APOS @ '' already configured''),
            receipt_of DimRoaming ReceiptApplied (''roaming already '' @ on_off (dp_roaming desired)), None)
      else (let op = (case (as_hasProfile current, as_connectionId current) of
                        (True, Some cid) \<Rightarrow> NmPort (UpdateGsmProfile cid (profileFromPolicy desired))
                      | _ \<Rightarrow> NmPort (CreateGsmProfile (profileFromPolicy desired)));
                verb = (if as_hasProfile current then ''updating'' else ''creating'')
            in (receipt_of DimConnection ReceiptPending (verb @ '' connection profile for APN '' @ APOS @ apn @ APOS),
                receipt_of DimRoaming ReceiptPending (''roaming '' @ on_off (dp_roaming desired) @ '' via connection profile''),
                Some op)))"

definition radioMatches :: "radio_tech list option \<Rightarrow> radio_tech list \<Rightarrow> bool" where
  "radioMatches applied desired =
     (case applied of None \<Rightarrow> False
      | Some rats \<Rightarrow> length rats = length desired \<and> list_all (\<lambda>(rat, d). rat = d) (zip rats desired))"

definition planRadio ::
  "applied_state \<Rightarrow> desired_policy \<Rightarrow> modem_capabilities \<Rightarrow> receipt \<times> port_tagged_op option" where
  "planRadio current desired capabilities =
     (let preference = dr_preferenceOrdered (dp_radio desired);
          names = js_join '' > '' (map rat_text preference) in
      case preference of
        [] \<Rightarrow> (receipt_of DimRadio ReceiptFailed ''radio preference must list at least one access technology'', None)
      | rat0 # _ \<Rightarrow>
          if rat0 \<notin> set (cap_supportedRats capabilities)
          then (let joined = js_join '', '' (map rat_text (cap_supportedRats capabilities));
                    supported = (if joined = [] then ''none'' else joined)
                in (receipt_of DimRadio ReceiptUnsupported
                      (''preferred radio access technology '' @ APOS @ rat_text rat0 @ APOS @
                       '' is not supported by this modem (supports '' @ supported @ '')''), None))
          else if radioMatches (as_appliedRadioPreference current) preference
          then (receipt_of DimRadio ReceiptApplied (''radio preference already '' @ names), None)
          else (receipt_of DimRadio ReceiptPending (''setting radio preference to '' @ names),
                Some (MmPort (SetRadioModes (dp_radio desired)))))"

definition planSimSlot ::
  "applied_state \<Rightarrow> desired_policy \<Rightarrow> modem_capabilities \<Rightarrow> receipt \<times> port_tagged_op option" where
  "planSimSlot current desired capabilities =
     (case dp_simSlot desired of
        None \<Rightarrow> (receipt_of DimSimSlot ReceiptApplied ''no primary SIM slot preference set'', None)
      | Some slot \<Rightarrow>
          if cap_simSlotCount capabilities \<le> 1
          then (receipt_of DimSimSlot ReceiptUnsupported
                  (''primary SIM slot selection requires a multi-slot modem (this modem has '' @
                   show_int (cap_simSlotCount capabilities) @ '')''), None)
          else if slot < 1 \<or> slot > cap_simSlotCount capabilities
          then (receipt_of DimSimSlot ReceiptFailed
                  (''SIM slot '' @ show_int slot @ '' is out of range (1..'' @ show_int (cap_simSlotCount capabilities) @ '')''), None)
          else if as_activePrimarySlot current = Some slot
          then (receipt_of DimSimSlot ReceiptApplied (''SIM slot '' @ show_int slot @ '' already primary''), None)
          else (receipt_of DimSimSlot ReceiptPending (''switching primary SIM slot to '' @ show_int slot),
                Some (MmPort (SetPrimarySimSlot slot))))"

definition planEnabled :: "applied_state \<Rightarrow> desired_policy \<Rightarrow> receipt \<times> port_tagged_op option" where
  "planEnabled current desired =
     (let nm = as_nmActivation current in
      if dp_enabled desired
      then (if nm = NmActivated then (receipt_of DimEnabled ReceiptApplied ''connection is active'', None)
            else if nm = NmActivating then (receipt_of DimEnabled ReceiptPending ''connection activation in progress'', None)
            else if nm = NmFailed
            then (receipt_of DimEnabled ReceiptFailed (''connection activation failed'' @
                    (case as_activationFailureReason current of
                       Some (c # cs) \<Rightarrow> '': '' @ c # cs | _ \<Rightarrow> [])), None)
            else if nm = NmUnmanaged
            then (receipt_of DimEnabled ReceiptUnsupported ''device is not managed by NetworkManager'', None)
            else (case (as_connectionId current, as_deviceIfname current) of
                    (Some cid, Some ifname) \<Rightarrow>
                      (receipt_of DimEnabled ReceiptPending ''activating connection'', Some (NmPort (ActivateOp cid ifname)))
                  | _ \<Rightarrow> (receipt_of DimEnabled ReceiptPending
                            ''awaiting connection profile and data interface before activation'', None)))
      else (case (nm = NmActivated \<or> nm = NmActivating, as_connectionId current, as_deviceIfname current) of
              (True, Some cid, Some ifname) \<Rightarrow>
                (receipt_of DimEnabled ReceiptPending ''deactivating connection'', Some (NmPort (DeactivateOp cid ifname)))
            | _ \<Rightarrow> (receipt_of DimEnabled ReceiptApplied ''connection is inactive'', None)))"

definition planRecovery :: "desired_policy \<Rightarrow> receipt" where
  "planRecovery desired = receipt_of DimRecovery ReceiptApplied
     (if recovery_enabled (dp_recovery desired) then ''recovery policy recorded (enabled)''
      else ''recovery disabled (default)'')"

definition planUsage :: "desired_policy \<Rightarrow> receipt" where
  "planUsage desired =
     (let parts = (case du_cycleDay (dp_usage desired) of Some d \<Rightarrow> [''cycle day '' @ show_int d] | None \<Rightarrow> []) @
                  (case du_thresholdBytes (dp_usage desired) of
                     Some t \<Rightarrow> [''threshold '' @ show_int t @ '' bytes''] | None \<Rightarrow> [])
      in receipt_of DimUsage ReceiptApplied
           (if length parts > 0 then ''usage policy recorded ('' @ js_join '', '' parts @ '')'' else ''no usage policy set''))"

definition planReconcile :: "applied_state \<Rightarrow> desired_policy \<Rightarrow> modem_capabilities \<Rightarrow> reconcile_plan" where
  "planReconcile current desired capabilities =
     (case planNmProfile current desired capabilities of (connection, roaming, profileOp) \<Rightarrow>
        let results = [planRadio current desired capabilities, planSimSlot current desired capabilities,
                       planEnabled current desired, (planRecovery desired, None), (planUsage desired, None)]
        in \<lparr>pl_ops = (case profileOp of Some op \<Rightarrow> [op] | None \<Rightarrow> []) @
              concat (map (\<lambda>(_, op). case op of Some x \<Rightarrow> [x] | None \<Rightarrow> []) results),
            pl_receipts = [connection, roaming] @ map fst results\<rparr>)"

section \<open>What an operation does to the applied state\<close>

fun execute :: "applied_state \<Rightarrow> port_tagged_op \<Rightarrow> applied_state" where
  "execute s (MmPort (SetRadioModes preference)) = s\<lparr>as_appliedRadioPreference := Some (dr_preferenceOrdered preference)\<rparr>"
| "execute s (MmPort (SetPrimarySimSlot slot)) = s\<lparr>as_activePrimarySlot := Some slot\<rparr>"
| "execute s (NmPort (CreateGsmProfile profile)) =
     s\<lparr>as_hasProfile := True, as_connectionId := Some ''conn-generated'',
       as_appliedApn := Some (if gp_autoConfig profile then ''auto'' else gp_apn profile),
       as_appliedRoaming := Some (\<not> gp_homeOnly profile)\<rparr>"
| "execute s (NmPort (UpdateGsmProfile cid patch)) =
     s\<lparr>as_appliedApn := Some (if gp_autoConfig patch then ''auto'' else gp_apn patch),
       as_appliedRoaming := Some (\<not> gp_homeOnly patch)\<rparr>"
| "execute s (NmPort (ActivateOp cid ifname)) = s\<lparr>as_nmActivation := NmActivated\<rparr>"
| "execute s (NmPort (DeactivateOp cid ifname)) = s\<lparr>as_nmActivation := NmDisconnected\<rparr>"

definition apply_plan :: "desired_policy \<Rightarrow> modem_capabilities \<Rightarrow> applied_state \<Rightarrow> applied_state" where
  "apply_plan desired capabilities s = foldl execute s (pl_ops (planReconcile s desired capabilities))"

section \<open>Each part of a plan depends on its own facts, and settles them\<close>

definition opt_exec :: "applied_state \<Rightarrow> port_tagged_op option \<Rightarrow> applied_state" where
  "opt_exec s op = (case op of Some x \<Rightarrow> execute s x | None \<Rightarrow> s)"

lemma opt_exec_None: "opt_exec s None = s"
  by (simp add: opt_exec_def)

abbreviation profile_op :: "applied_state \<Rightarrow> desired_policy \<Rightarrow> modem_capabilities \<Rightarrow> port_tagged_op option" where
  "profile_op s d c \<equiv> snd (snd (planNmProfile s d c))"

abbreviation radio_op :: "applied_state \<Rightarrow> desired_policy \<Rightarrow> modem_capabilities \<Rightarrow> port_tagged_op option" where
  "radio_op s d c \<equiv> snd (planRadio s d c)"

abbreviation sim_op :: "applied_state \<Rightarrow> desired_policy \<Rightarrow> modem_capabilities \<Rightarrow> port_tagged_op option" where
  "sim_op s d c \<equiv> snd (planSimSlot s d c)"

abbreviation enabled_op :: "applied_state \<Rightarrow> desired_policy \<Rightarrow> port_tagged_op option" where
  "enabled_op s d \<equiv> snd (planEnabled s d)"

definition op_list :: "port_tagged_op option \<Rightarrow> port_tagged_op list" where
  "op_list op = (case op of Some x \<Rightarrow> [x] | None \<Rightarrow> [])"

lemma plan_ops:
  "pl_ops (planReconcile s d c) =
     op_list (profile_op s d c) @ op_list (radio_op s d c) @ op_list (sim_op s d c) @ op_list (enabled_op s d)"
  by (cases "planNmProfile s d c"; cases "planRadio s d c"; cases "planSimSlot s d c"; cases "planEnabled s d")
     (simp add: planReconcile_def Let_def op_list_def)

lemma plan_receipts:
  "pl_receipts (planReconcile s d c) =
     [fst (planNmProfile s d c), fst (snd (planNmProfile s d c)), fst (planRadio s d c), fst (planSimSlot s d c),
      fst (planEnabled s d), planRecovery d, planUsage d]"
  by (cases "planNmProfile s d c") (simp add: planReconcile_def Let_def)

lemma foldl_op_list: "foldl execute s (op_list op) = opt_exec s op"
  by (simp add: op_list_def opt_exec_def split: option.split)

lemma apply_plan_parts:
  "apply_plan d c s =
     opt_exec (opt_exec (opt_exec (opt_exec s (profile_op s d c)) (radio_op s d c)) (sim_op s d c)) (enabled_op s d)"
  by (simp add: apply_plan_def plan_ops foldl_op_list)

text \<open>The operation of each part, when there is one.\<close>

definition profile_kind :: "port_tagged_op option \<Rightarrow> bool" where
  "profile_kind op \<longleftrightarrow> op = None \<or> (\<exists>p. op = Some (NmPort (CreateGsmProfile p))) \<or> (\<exists>i p. op = Some (NmPort (UpdateGsmProfile i p)))"

definition radio_kind :: "port_tagged_op option \<Rightarrow> bool" where
  "radio_kind op \<longleftrightarrow> op = None \<or> (\<exists>r. op = Some (MmPort (SetRadioModes r)))"

definition sim_kind :: "port_tagged_op option \<Rightarrow> bool" where
  "sim_kind op \<longleftrightarrow> op = None \<or> (\<exists>n. op = Some (MmPort (SetPrimarySimSlot n)))"

definition enabled_kind :: "port_tagged_op option \<Rightarrow> bool" where
  "enabled_kind op \<longleftrightarrow> op = None \<or> (\<exists>i d. op = Some (NmPort (ActivateOp i d))) \<or> (\<exists>i d. op = Some (NmPort (DeactivateOp i d)))"

lemma kinds:
  "profile_kind (profile_op s d c)" "radio_kind (radio_op s d c)" "sim_kind (sim_op s d c)" "enabled_kind (enabled_op s d)"
  by (auto simp: planNmProfile_def profile_kind_def planRadio_def radio_kind_def planSimSlot_def sim_kind_def
      planEnabled_def enabled_kind_def Let_def split: option.split list.split bool.split)

lemma radio_frame [simp]:
  "profile_kind op \<Longrightarrow> as_appliedRadioPreference (opt_exec s op) = as_appliedRadioPreference s"
  "sim_kind op \<Longrightarrow> as_appliedRadioPreference (opt_exec s op) = as_appliedRadioPreference s"
  "enabled_kind op \<Longrightarrow> as_appliedRadioPreference (opt_exec s op) = as_appliedRadioPreference s"
  by (auto simp: profile_kind_def sim_kind_def enabled_kind_def opt_exec_def)

lemma sim_frame [simp]:
  "profile_kind op \<Longrightarrow> as_activePrimarySlot (opt_exec s op) = as_activePrimarySlot s"
  "radio_kind op \<Longrightarrow> as_activePrimarySlot (opt_exec s op) = as_activePrimarySlot s"
  "enabled_kind op \<Longrightarrow> as_activePrimarySlot (opt_exec s op) = as_activePrimarySlot s"
  by (auto simp: profile_kind_def radio_kind_def enabled_kind_def opt_exec_def)

definition profile_facts :: "applied_state \<Rightarrow> bool \<times> string option \<times> string option \<times> bool option" where
  "profile_facts s = (as_hasProfile s, as_connectionId s, as_appliedApn s, as_appliedRoaming s)"

lemma profile_frame [simp]:
  "radio_kind op \<Longrightarrow> profile_facts (opt_exec s op) = profile_facts s"
  "sim_kind op \<Longrightarrow> profile_facts (opt_exec s op) = profile_facts s"
  "enabled_kind op \<Longrightarrow> profile_facts (opt_exec s op) = profile_facts s"
  by (auto simp: sim_kind_def radio_kind_def enabled_kind_def opt_exec_def profile_facts_def)

lemma depends:
  "as_appliedRadioPreference s = as_appliedRadioPreference s' \<Longrightarrow> planRadio s d c = planRadio s' d c"
  "as_activePrimarySlot s = as_activePrimarySlot s' \<Longrightarrow> planSimSlot s d c = planSimSlot s' d c"
  "profile_facts s = profile_facts s' \<Longrightarrow> planNmProfile s d c = planNmProfile s' d c"
proof -
  assume "as_appliedRadioPreference s = as_appliedRadioPreference s'"
  then show "planRadio s d c = planRadio s' d c" by (simp only: planRadio_def)
next
  assume "as_activePrimarySlot s = as_activePrimarySlot s'"
  then show "planSimSlot s d c = planSimSlot s' d c" by (simp only: planSimSlot_def)
next
  assume "profile_facts s = profile_facts s'"
  then have "as_hasProfile s = as_hasProfile s'" "as_connectionId s = as_connectionId s'"
      "as_appliedApn s = as_appliedApn s'" "as_appliedRoaming s = as_appliedRoaming s'"
    by (simp_all add: profile_facts_def)
  then show "planNmProfile s d c = planNmProfile s' d c" by (simp only: planNmProfile_def)
qed

lemma radioMatches_refl [simp]: "radioMatches (Some rats) rats"
  by (auto simp: radioMatches_def list_all_iff in_set_zip)

lemma radio_settles: "radio_op (opt_exec s (radio_op s d c)) d c = None"
  by (auto simp: planRadio_def opt_exec_def Let_def split: list.split)

lemma sim_settles: "sim_op (opt_exec s (sim_op s d c)) d c = None"
  by (auto simp: planSimSlot_def opt_exec_def split: option.split)

lemma profile_settles: "profile_op (opt_exec s (profile_op s d c)) d c = None"
  by (auto simp: planNmProfile_def opt_exec_def Let_def profileFromPolicy_def split: option.split bool.split)

lemma enabled_settles: "enabled_op (opt_exec s (enabled_op s d)) d = None"
  by (auto simp: planEnabled_def opt_exec_def Let_def split: option.split bool.split if_splits)

section \<open>Properties\<close>

text \<open>The port and the dimension that own an operation.\<close>

fun op_dimensions :: "port_tagged_op \<Rightarrow> policy_dimension list" where
  "op_dimensions (MmPort (SetRadioModes _)) = [DimRadio]"
| "op_dimensions (MmPort (SetPrimarySimSlot _)) = [DimSimSlot]"
| "op_dimensions (NmPort (CreateGsmProfile _)) = [DimConnection, DimRoaming]"
| "op_dimensions (NmPort (UpdateGsmProfile _ _)) = [DimConnection, DimRoaming]"
| "op_dimensions (NmPort (ActivateOp _ _)) = [DimEnabled]"
| "op_dimensions (NmPort (DeactivateOp _ _)) = [DimEnabled]"

lemma receipt_fields [simp]: "rc_dimension (receipt_of d st r) = d" "rc_status (receipt_of d st r) = st" "rc_reason (receipt_of d st r) = r"
  by (simp_all add: receipt_of_def)

lemma profile_owned:
  "rc_dimension (fst (planNmProfile s d c)) = DimConnection \<and> rc_dimension (fst (snd (planNmProfile s d c))) = DimRoaming \<and>
   rc_status (fst (planNmProfile s d c)) = rc_status (fst (snd (planNmProfile s d c))) \<and>
   (case profile_op s d c of
      Some op \<Rightarrow> op_dimensions op = [DimConnection, DimRoaming] \<and> rc_status (fst (planNmProfile s d c)) = ReceiptPending
    | None \<Rightarrow> rc_status (fst (planNmProfile s d c)) \<noteq> ReceiptPending)"
  by (auto simp: planNmProfile_def Let_def split: option.split bool.split)

lemma radio_owned:
  "rc_dimension (fst (planRadio s d c)) = DimRadio \<and>
   (case radio_op s d c of
      Some op \<Rightarrow> op_dimensions op = [DimRadio] \<and> rc_status (fst (planRadio s d c)) = ReceiptPending
    | None \<Rightarrow> rc_status (fst (planRadio s d c)) \<noteq> ReceiptPending)"
  by (auto simp: planRadio_def Let_def split: list.split)

lemma sim_owned:
  "rc_dimension (fst (planSimSlot s d c)) = DimSimSlot \<and>
   (case sim_op s d c of
      Some op \<Rightarrow> op_dimensions op = [DimSimSlot] \<and> rc_status (fst (planSimSlot s d c)) = ReceiptPending
    | None \<Rightarrow> rc_status (fst (planSimSlot s d c)) \<noteq> ReceiptPending)"
  by (auto simp: planSimSlot_def split: option.split)

lemma enabled_owned:
  "rc_dimension (fst (planEnabled s d)) = DimEnabled \<and>
   (case enabled_op s d of
      Some op \<Rightarrow> op_dimensions op = [DimEnabled] \<and> rc_status (fst (planEnabled s d)) = ReceiptPending
    | None \<Rightarrow> rc_status (fst (planEnabled s d)) = ReceiptPending \<longrightarrow>
        dp_enabled d \<and> (as_nmActivation s = NmActivating \<or> as_connectionId s = None \<or> as_deviceIfname s = None))"
  by (auto simp: planEnabled_def Let_def split: option.split bool.split)

definition planned :: "reconcile_plan \<Rightarrow> policy_dimension \<Rightarrow> receipt_status option" where
  "planned p pd = map_option rc_status (find (\<lambda>r. rc_dimension r = pd) (pl_receipts p))"

lemma planned_dimensions:
  "planned (planReconcile s d c) DimConnection = Some (rc_status (fst (planNmProfile s d c)))"
  "planned (planReconcile s d c) DimRoaming = Some (rc_status (fst (snd (planNmProfile s d c))))"
  "planned (planReconcile s d c) DimRadio = Some (rc_status (fst (planRadio s d c)))"
  "planned (planReconcile s d c) DimSimSlot = Some (rc_status (fst (planSimSlot s d c)))"
  "planned (planReconcile s d c) DimEnabled = Some (rc_status (fst (planEnabled s d)))"
  using profile_owned [of s d c] radio_owned [of s d c] sim_owned [of s d c] enabled_owned [of s d]
  by (simp_all add: planned_def plan_receipts)

text \<open>C24: a plan is typed by owner: it has one receipt for each dimension but the band, in a fixed order, its operations are in distinct dimensions, each operation is one of the port that owns its dimension and goes with a pending receipt there, and a pending receipt has an operation, except that an activation may be under way or wait for its profile and interface.\<close>

theorem plan_operations_are_owned:
  "map rc_dimension (pl_receipts (planReconcile s d c)) =
     [DimConnection, DimRoaming, DimRadio, DimSimSlot, DimEnabled, DimRecovery, DimUsage] \<and>
   distinct (concat (map op_dimensions (pl_ops (planReconcile s d c)))) \<and>
   (\<forall>pd. if pd \<in> set (concat (map op_dimensions (pl_ops (planReconcile s d c))))
      then planned (planReconcile s d c) pd = Some ReceiptPending
      else planned (planReconcile s d c) pd = Some ReceiptPending \<longrightarrow>
        pd = DimEnabled \<and> dp_enabled d \<and>
          (as_nmActivation s = NmActivating \<or> as_connectionId s = None \<or> as_deviceIfname s = None))"
proof -
  note owned = profile_owned [of s d c] radio_owned [of s d c] sim_owned [of s d c] enabled_owned [of s d]
  have recovery: "planned (planReconcile s d c) DimRecovery = Some ReceiptApplied"
      "planned (planReconcile s d c) DimUsage = Some ReceiptApplied" "planned (planReconcile s d c) DimBand = None"
    using owned by (simp_all add: planned_def plan_receipts planRecovery_def planUsage_def Let_def)
  have dims: "map rc_dimension (pl_receipts (planReconcile s d c)) =
     [DimConnection, DimRoaming, DimRadio, DimSimSlot, DimEnabled, DimRecovery, DimUsage]"
    using owned by (simp add: plan_receipts planRecovery_def planUsage_def Let_def)
  have ops: "concat (map op_dimensions (pl_ops (planReconcile s d c))) =
      (if profile_op s d c = None then [] else [DimConnection, DimRoaming]) @
      (if radio_op s d c = None then [] else [DimRadio]) @ (if sim_op s d c = None then [] else [DimSimSlot]) @
      (if enabled_op s d = None then [] else [DimEnabled])"
    using owned by (auto simp: plan_ops op_list_def split: option.splits)
  show ?thesis
  proof (intro conjI allI)
    fix pd
    show "if pd \<in> set (concat (map op_dimensions (pl_ops (planReconcile s d c))))
      then planned (planReconcile s d c) pd = Some ReceiptPending
      else planned (planReconcile s d c) pd = Some ReceiptPending \<longrightarrow>
        pd = DimEnabled \<and> dp_enabled d \<and>
          (as_nmActivation s = NmActivating \<or> as_connectionId s = None \<or> as_deviceIfname s = None)"
      unfolding ops using owned
      by (cases pd) (auto simp: planned_dimensions recovery split: option.splits)
  qed (simp_all add: dims ops)
qed

definition sample_applied :: applied_state where
  "sample_applied = \<lparr>as_nmActivation = NmDisconnected, as_hasProfile = False, as_connectionId = None,
     as_deviceIfname = Some ''wwan0'', as_appliedApn = None, as_appliedRoaming = None,
     as_appliedRadioPreference = None, as_activePrimarySlot = None, as_activationFailureReason = None\<rparr>"

definition sample_policy :: desired_policy where
  "sample_policy = defaultCellularPolicy \<lparr>pbk_logicalSlotId = None, pbk_equipmentId = NoEquipment\<rparr>"

definition sample_capabilities :: modem_capabilities where
  "sample_capabilities = \<lparr>cap_supportedRats = [Nr5g, Lte], cap_simSlotCount = 2, cap_supportsAutoApn = True\<rparr>"

lemma plan_operations_are_owned_witness:
  "length (pl_ops (planReconcile sample_applied sample_policy sample_capabilities)) = 2 \<and>
   planned (planReconcile sample_applied sample_policy sample_capabilities) DimRadio = Some ReceiptPending"
proof -
  have ops: "map op_dimensions (pl_ops (planReconcile sample_applied sample_policy sample_capabilities)) =
      [[DimConnection, DimRoaming], [DimRadio]]" by code_simp
  then have "length (pl_ops (planReconcile sample_applied sample_policy sample_capabilities)) = 2"
    by (metis length_map length_Cons list.size(3) numeral_2_eq_2)
  moreover have "DimRadio \<in> set (concat (map op_dimensions (pl_ops (planReconcile sample_applied sample_policy sample_capabilities))))"
    unfolding ops by simp
  ultimately show ?thesis
    using plan_operations_are_owned [of sample_applied sample_policy sample_capabilities] by metis
qed


text \<open>What the planner does not compare: credentials. A policy that changes them is reported as applied.\<close>

lemma changed_credentials_are_not_written:
  assumes "profile_op s d c = None" and "dc_apn (dp_connection d) \<noteq> ''auto''"
  shows "let d' = d\<lparr>dp_connection := (dp_connection d)\<lparr>dc_auth := Some creds\<rparr>\<rparr> in
    profile_op s d' c = None \<and> rc_status (fst (planNmProfile s d' c)) = ReceiptApplied"
  using assms by (auto simp: planNmProfile_def Let_def split: if_splits option.splits bool.splits)

end
