(* ===== verification/Radio_Modes.thy ===== *)
theory Radio_Modes
  imports Operation Managed_Objects "HOL-Library.Word" "HOL-Library.List_Lexorder" "HOL-Library.Char_ord"
begin

text \<open>
  Mode masks and their names (\<open>radio/mode-combinations.ts\<close>) and what a modem says of its modes
  (\<open>radio/mode-truth.ts\<close>). A JavaScript number is an integer; \<open>&\<close>, \<open>|\<close> and \<open>>>>\<close> go through 32-bit
  words: the operands are reduced, \<open>&\<close> and \<open>|\<close> give the signed value, \<open>>>> 0\<close> the unsigned one.
\<close>

unbundle bit_operations_syntax

definition to_word :: "int \<Rightarrow> 32 word" where "to_word n = word_of_int n"

definition js_and :: "int \<Rightarrow> int \<Rightarrow> int" where "js_and a b = sint (to_word a AND to_word b)"
definition js_or :: "int \<Rightarrow> int \<Rightarrow> int" where "js_or a b = sint (to_word a OR to_word b)"
definition js_not :: "int \<Rightarrow> int" where "js_not a = sint (NOT (to_word a))"
definition js_unsigned :: "int \<Rightarrow> int" where "js_unsigned a = uint (to_word a)"

section \<open>Names\<close>

definition MODE_NONE :: string where "MODE_NONE = ''none''"
definition MODE_ANY :: string where "MODE_ANY = ''any''"
definition MODE_ANY_VALUE :: int where "MODE_ANY_VALUE = 4294967295"

definition NAMED_BITS :: "(int \<times> string) list" where
  "NAMED_BITS = [(1, ''cs''), (2, ''2g''), (4, ''3g''), (8, ''4g''), (16, ''5g'')]"

definition NAME_TO_BIT :: "(string \<times> int) list" where
  "NAME_TO_BIT = map (\<lambda>(b, name). (name, b)) NAMED_BITS"

definition NAMED_MASK :: int where
  "NAMED_MASK = fold (\<lambda>(b, _) msk. js_or msk b) NAMED_BITS 0"

definition PASSTHROUGH :: string where "PASSTHROUGH = ''mode-bit-''"

definition modeName :: "int \<Rightarrow> string" where
  "modeName b = (case map_of NAMED_BITS b of Some name \<Rightarrow> name | None \<Rightarrow> PASSTHROUGH @ show_int b)"

definition modeValue :: "string \<Rightarrow> int option" where
  "modeValue name =
     (if name = MODE_NONE then Some 0
      else if name = MODE_ANY then Some MODE_ANY_VALUE
      else case map_of NAME_TO_BIT name of
        Some known \<Rightarrow> Some known
      | None \<Rightarrow>
          (let digits = drop (length PASSTHROUGH) name in
           if prefix PASSTHROUGH name \<and> digits \<noteq> [] \<and> (\<forall>c \<in> set digits. is_digit c)
           then (let parsed = int (nat_of_digits digits) in
                 if isSafeInteger parsed \<and> parsed > 0 then Some parsed else None)
           else None))"

definition isNamedMode :: "string \<Rightarrow> bool" where
  "isNamedMode name \<longleftrightarrow> name = MODE_NONE \<or> name = MODE_ANY \<or> map_of NAME_TO_BIT name \<noteq> None"

text \<open>The loop of \<open>modeNames\<close>, from \<open>bit\<close> on.\<close>

function mode_loop :: "int \<Rightarrow> int \<Rightarrow> string list" where
  "mode_loop msk b =
     (if b \<le> msk \<and> b > 0
      then (if js_and msk b \<noteq> 0 then [modeName b] else []) @ mode_loop msk (b * 2)
      else [])"
  by pat_completeness auto
termination by (relation "measure (\<lambda>(msk, b). nat (msk + 1 - b))") auto

declare mode_loop.simps [simp del]

definition modeNames :: "int \<Rightarrow> string list" where
  "modeNames msk =
     (if \<not> isSafeInteger msk \<or> msk \<le> 0 then []
      else if msk = MODE_ANY_VALUE then [MODE_ANY]
      else mode_loop msk 1)"

text \<open>\<open>encodeModeNames\<close>: \<open>Inl\<close> the first name it cannot place. The mask stays signed until the end.\<close>

fun encode_loop :: "int \<Rightarrow> string list \<Rightarrow> string + int" where
  "encode_loop msk [] = Inr msk"
| "encode_loop msk (name # names) =
     (case modeValue name of None \<Rightarrow> Inl name | Some v \<Rightarrow> encode_loop (js_or msk v) names)"

definition encodeModeNames :: "string list \<Rightarrow> string + int" where
  "encodeModeNames names = sum_bind (encode_loop 0 names) (\<lambda>msk. Inr (js_unsigned msk))"

section \<open>Combinations\<close>

datatype mode_anomaly =
    UnnamedAllowedBit | UnnamedPreferredBit | PreferredNotInAllowed | PreferredNotSingular | EmptyAllowed

datatype mode_classification = NamedCombination | UnknownCombination

record mode_combination =
  mc_allowedMask :: int
  mc_allowed :: "string list"
  mc_preferredMask :: int
  mc_preferred :: string
  mc_classification :: mode_classification
  mc_anomalies :: "mode_anomaly list"

record mode_combination_set =
  ms_combinations :: "mode_combination list"
  ms_undecodable :: "dbus_value list"

definition isUnnamed :: "string list \<Rightarrow> bool" where
  "isUnnamed names = list_ex (\<lambda>name. \<not> isNamedMode name) names"

definition modeCombination :: "int \<Rightarrow> int \<Rightarrow> mode_combination" where
  "modeCombination allowedMask preferredMask =
     (let allowed = modeNames allowedMask;
          preferredNames = modeNames preferredMask;
          anomalies =
            (if length allowed = 0 then [EmptyAllowed] else []) @
            (if isUnnamed allowed then [UnnamedAllowedBit] else []) @
            (if isUnnamed preferredNames then [UnnamedPreferredBit] else []) @
            (if length preferredNames > 1 then [PreferredNotSingular] else []) @
            (if length preferredNames > 0 \<and> preferredMask \<noteq> MODE_ANY_VALUE \<and>
                js_and preferredMask allowedMask \<noteq> preferredMask
             then [PreferredNotInAllowed] else [])
      in \<lparr>mc_allowedMask = allowedMask, mc_allowed = allowed, mc_preferredMask = preferredMask,
          mc_preferred = (if length preferredNames = 0 then MODE_NONE else js_join ''+'' preferredNames),
          mc_classification = (if length anomalies = 0 then NamedCombination else UnknownCombination),
          mc_anomalies = anomalies\<rparr>)"

definition statesNoPreference :: "mode_combination \<Rightarrow> bool" where
  "statesNoPreference combination \<longleftrightarrow> mc_preferredMask combination = 0"

fun decodePair :: "dbus_value \<Rightarrow> (int \<times> int) option" where
  "decodePair (DArr [DNum allowed, DNum preferred]) =
     (if \<not> isSafeInteger allowed \<or> allowed < 0 then None
      else if \<not> isSafeInteger preferred \<or> preferred < 0 then None
      else Some (allowed, preferred))"
| "decodePair _ = None"

definition decodeModeCombination :: "dbus_value option \<Rightarrow> mode_combination option" where
  "decodeModeCombination value =
     map_option (\<lambda>(allowed, preferred). modeCombination allowed preferred) (Option.bind value decodePair)"

fun decode_members :: "dbus_value list \<Rightarrow> mode_combination_set" where
  "decode_members [] = \<lparr>ms_combinations = [], ms_undecodable = []\<rparr>"
| "decode_members (member # members) =
     (let rest = decode_members members in
      case decodePair member of
        None \<Rightarrow> rest\<lparr>ms_undecodable := member # ms_undecodable rest\<rparr>
      | Some (allowed, preferred) \<Rightarrow>
          rest\<lparr>ms_combinations := modeCombination allowed preferred # ms_combinations rest\<rparr>)"

definition decodeSupportedModeCombinations :: "dbus_value option \<Rightarrow> mode_combination_set" where
  "decodeSupportedModeCombinations value =
     (case value of Some (DArr members) \<Rightarrow> decode_members members
      | _ \<Rightarrow> \<lparr>ms_combinations = [], ms_undecodable = []\<rparr>)"

definition hasUnknownCombination :: "mode_combination_set \<Rightarrow> bool" where
  "hasUnknownCombination s \<longleftrightarrow> length (ms_undecodable s) > 0 \<or>
     list_ex (\<lambda>each. mc_classification each = UnknownCombination) (ms_combinations s)"

definition isFullyNamedMask :: "int \<Rightarrow> bool" where
  "isFullyNamedMask msk \<longleftrightarrow> msk = MODE_ANY_VALUE \<or> msk = 0 \<or> js_and msk (js_not NAMED_MASK) = 0"

section \<open>What the modem says of its modes\<close>

record mode_selection =
  sel_allowed :: "string list"
  sel_preferred :: string

datatype mode_reading = ModesReported mode_combination | ModesNotReported

record radio_mode_truth =
  rt_current :: mode_reading
  rt_supported :: mode_combination_set

definition readRadioModeTruth :: "dbus_value option \<Rightarrow> dbus_value option \<Rightarrow> radio_mode_truth" where
  "readRadioModeTruth currentModes supportedModes =
     \<lparr>rt_current = (case decodeModeCombination currentModes of
         None \<Rightarrow> ModesNotReported | Some c \<Rightarrow> ModesReported c),
      rt_supported = decodeSupportedModeCombinations supportedModes\<rparr>"

definition selectionOf :: "mode_combination \<Rightarrow> mode_selection" where
  "selectionOf combination = \<lparr>sel_allowed = mc_allowed combination, sel_preferred = mc_preferred combination\<rparr>"

definition sameNameSet :: "string list \<Rightarrow> string list \<Rightarrow> bool" where
  "sameNameSet left right \<longleftrightarrow> length left = length right \<and>
     sort left = sort right"

definition sameSelection :: "mode_selection \<Rightarrow> mode_selection \<Rightarrow> bool" where
  "sameSelection left right \<longleftrightarrow>
     sel_preferred left = sel_preferred right \<and> sameNameSet (sel_allowed left) (sel_allowed right)"

definition matchAdvertisedCombination :: "mode_combination_set \<Rightarrow> mode_selection \<Rightarrow> mode_combination option" where
  "matchAdvertisedCombination supported selection =
     find (\<lambda>each. sameSelection (selectionOf each) selection) (ms_combinations supported)"

definition encodeModeSelection :: "mode_selection \<Rightarrow> string + int \<times> int" where
  "encodeModeSelection selection =
     sum_bind (encodeModeNames (sel_allowed selection)) (\<lambda>allowed.
     sum_bind (encodeModeNames (if sel_preferred selection = MODE_NONE then [] else [sel_preferred selection])) (\<lambda>preferred.
     Inr (allowed, preferred)))"

definition MODE_WRITE_OPERATION_ID :: string where
  "MODE_WRITE_OPERATION_ID = ''modemmanager.mode-combination''"

definition buildModeWriteDescriptor ::
  "string \<Rightarrow> string \<Rightarrow> radio_mode_truth \<Rightarrow> bool \<Rightarrow>
     descriptor_error + (mode_selection, radio_mode_truth) operation_descriptor" where
  "buildModeWriteDescriptor provider profile truth writeSupported =
     (let values = map selectionOf (ms_combinations (rt_supported truth));
          refusal = (if \<not> writeSupported then Some ''mode-write-unsupported''
                     else if length values = 0 then Some ''no-advertised-mode-combinations'' else None)
      in defineOperationDescriptor
         \<lparr>d_id = MODE_WRITE_OPERATION_ID, d_supportRead = Supported,
          d_supportWrite = (if writeSupported then Supported else NotSupported ''mode-write-unsupported''),
          d_authority = AuthProvider, d_provider = provider,
          d_constraints = AllowedValues (map OtherOperand values),
          d_livePreconditions = [''modem-present'', ''runtime-interface-present'', ''mode-combination-advertised''],
          d_availability = (case refusal of None \<Rightarrow> Available | Some r \<Rightarrow> RefusedAvailability r),
          d_mutationImpact = ImpactDisruptive, d_retryClass = RetryNever,
          d_readback = ReadbackRequired ''mode-write-readback''
            (\<lambda>operand observed. case (operand, rt_current observed) of
               (OtherOperand selection, ModesReported c) \<Rightarrow> sameSelection (selectionOf c) selection
             | _ \<Rightarrow> False),
          d_rollback = NotRequired, d_journal = Required ''disruptive-radio-write'',
          d_admission = Required ''provider-mutation'', d_profiles = [profile], d_firmware = [],
          d_confidence = OpConfHigh\<rparr>)"

definition advertisesNoPreference :: "radio_mode_truth \<Rightarrow> bool" where
  "advertisesNoPreference truth = list_ex statesNoPreference (ms_combinations (rt_supported truth))"

section \<open>Masks as words\<close>

lemma to_word_sint [simp]: "to_word (sint w) = w"
  by (simp add: to_word_def)

lemma to_word_exp: "to_word (2 ^ k) = 2 ^ k"
  by (simp add: to_word_def)

lemma to_word_bit: "Bit_Operations.bit (to_word n) k \<longleftrightarrow> k < 32 \<and> Bit_Operations.bit n k"
  by (simp add: to_word_def bit_word_of_int_iff)

lemma sint_zero_iff: "sint (w :: 32 word) = 0 \<longleftrightarrow> w = 0"
  by (metis sint_0 to_word_sint)

lemma js_and_exp: "js_and n (2 ^ k) \<noteq> 0 \<longleftrightarrow> Bit_Operations.bit (to_word n) k"
  by (simp add: js_and_def to_word_exp sint_zero_iff and_exp_eq_0_iff_not_bit)

lemma no_high_bit: "0 \<le> n \<Longrightarrow> n < 2 ^ k \<Longrightarrow> k \<le> j \<Longrightarrow> \<not> Bit_Operations.bit (n :: int) j"
proof -
  assume n: "0 \<le> n" "n < 2 ^ k" and "k \<le> j"
  then have "n < 2 ^ j" by (meson less_le_trans one_le_numeral power_increasing)
  with n show ?thesis by (simp add: bit_iff_odd)
qed

text \<open>The loop lists the names of the set bits, in order.\<close>

definition bits_from :: "int \<Rightarrow> nat \<Rightarrow> nat list" where
  "bits_from n k = filter (\<lambda>j. Bit_Operations.bit (to_word n) j) [k..<32]"

lemma mode_loop_bits:
  assumes "0 \<le> n" and "n < 2 ^ 32" and "k \<le> 32"
  shows "mode_loop n (2 ^ k) = map (\<lambda>j. modeName (2 ^ j)) (bits_from n k)"
  using assms(3)
proof (induction "32 - k" arbitrary: k)
  case 0
  then have "k = 32" by simp
  with assms(2) show ?case by (subst mode_loop.simps) (simp add: bits_from_def)
next
  case (Suc d)
  then have k: "k < 32" by simp
  have IH: "mode_loop n (2 ^ Suc k) = map (\<lambda>j. modeName (2 ^ j)) (bits_from n (Suc k))"
    using Suc.hyps(1) [of "Suc k"] Suc.hyps(2) k by simp
  have next_bit: "(2 :: int) ^ k * 2 = 2 ^ Suc k" by simp
  have upt: "[k..<32] = k # [Suc k..<32]" using k by (simp add: upt_conv_Cons)
  show ?case
  proof (cases "2 ^ k \<le> n")
    case True
    then show ?thesis
      using IH by (subst mode_loop.simps) (simp only: next_bit js_and_exp, simp add: bits_from_def upt)
  next
    case False
    then have "bits_from n k = []"
      using no_high_bit [OF assms(1), of k] by (auto simp: bits_from_def filter_empty_conv to_word_bit)
    with False show ?thesis by (subst mode_loop.simps) simp
  qed
qed

lemma modeNames_bits:
  assumes "0 \<le> n" and "n < 2 ^ 32" and "n \<noteq> MODE_ANY_VALUE"
  shows "modeNames n = map (\<lambda>j. modeName (2 ^ j)) (bits_from n 0)"
proof (cases "n = 0")
  case True
  then show ?thesis by (simp add: modeNames_def bits_from_def to_word_bit)
next
  case False
  have "isSafeInteger n" using assms by (simp add: isSafeInteger_def MAX_SAFE_INTEGER_def)
  with False assms mode_loop_bits [of n 0] show ?thesis by (simp add: modeNames_def)
qed

section \<open>Names that come back\<close>

lemma show_int_digits: "0 \<le> n \<Longrightarrow> c \<in> set (show_int n) \<Longrightarrow> is_digit c"
  by (auto simp: show_int_def dest: show_nat_digits)

lemma modeValue_passthrough:
  assumes "0 < n" and "n \<le> MAX_SAFE_INTEGER"
  shows "modeValue (PASSTHROUGH @ show_int n) = Some n"
proof -
  have "PASSTHROUGH @ show_int n \<noteq> MODE_NONE" "PASSTHROUGH @ show_int n \<noteq> MODE_ANY"
      "map_of NAME_TO_BIT (PASSTHROUGH @ show_int n) = None"
    by (auto simp: PASSTHROUGH_def MODE_NONE_def MODE_ANY_def NAME_TO_BIT_def NAMED_BITS_def)
  moreover have "nat_of_digits (show_int n) = nat n" "show_int n \<noteq> []" using assms by (simp_all add: show_int_def)
  ultimately show ?thesis
    using assms show_int_digits [of n] by (auto simp: modeValue_def Let_def isSafeInteger_def)
qed

lemma modeValue_modeName:
  assumes "0 < n" and "n \<le> MAX_SAFE_INTEGER"
  shows "modeValue (modeName n) = Some n"
proof (cases "map_of NAMED_BITS n")
  case None
  then show ?thesis using modeValue_passthrough [OF assms] by (simp add: modeName_def)
next
  case (Some name)
  then have "(n, name) \<in> set NAMED_BITS" by (rule map_of_SomeD)
  then show ?thesis
    by (auto simp: modeName_def modeValue_def NAMED_BITS_def NAME_TO_BIT_def MODE_NONE_def MODE_ANY_def)
qed

lemma modeValue_bit: "k < 32 \<Longrightarrow> modeValue (modeName (2 ^ k)) = Some (2 ^ k)"
proof (rule modeValue_modeName)
  assume "k < 32"
  then have "(2 :: int) ^ k \<le> 2 ^ 32" by (intro power_increasing) auto
  then show "(2 :: int) ^ k \<le> MAX_SAFE_INTEGER" by (simp add: MAX_SAFE_INTEGER_def)
qed simp

definition or_bits :: "nat list \<Rightarrow> 32 word" where
  "or_bits ks = foldr (\<lambda>k w. 2 ^ k OR w) ks 0"

lemma or_bits_bit: "Bit_Operations.bit (or_bits ks) j \<longleftrightarrow> j \<in> set ks \<and> j < 32"
  by (induction ks) (auto simp: or_bits_def bit_or_iff bit_exp_iff)

lemma encode_loop_bits:
  "\<forall>k \<in> set ks. k < 32 \<Longrightarrow>
     \<exists>n. encode_loop m (map (\<lambda>k. modeName (2 ^ k)) ks) = Inr n \<and> to_word n = to_word m OR or_bits ks"
proof (induction ks arbitrary: m)
  case Nil
  then show ?case by (simp add: or_bits_def)
next
  case (Cons k ks)
  then obtain n where n: "encode_loop (js_or m (2 ^ k)) (map (\<lambda>k. modeName (2 ^ k)) ks) = Inr n"
      "to_word n = to_word (js_or m (2 ^ k)) OR or_bits ks" by fastforce
  moreover have "to_word (js_or m (2 ^ k)) = to_word m OR 2 ^ k" by (simp add: js_or_def to_word_exp)
  ultimately show ?case using Cons.prems modeValue_bit [of k] by (simp add: or_bits_def or.assoc)
qed

lemma bits_word: "or_bits (bits_from n 0) = to_word n"
  by (rule bit_word_eqI) (auto simp: or_bits_bit bits_from_def)

lemma uint_to_word: "0 \<le> n \<Longrightarrow> n < 2 ^ 32 \<Longrightarrow> uint (to_word n) = n"
  by (simp add: to_word_def uint_word_of_int)

lemma encode_any: "encodeModeNames [MODE_ANY] = Inr MODE_ANY_VALUE"
  by code_simp

text \<open>Encoding the names of a 32-bit mask gives the mask back.\<close>

lemma encode_modeNames:
  assumes "0 \<le> n" and "n < 2 ^ 32"
  shows "encodeModeNames (modeNames n) = Inr n"
proof (cases "n = MODE_ANY_VALUE")
  case True
  then have "modeNames n = [MODE_ANY]" by (simp add: modeNames_def MODE_ANY_VALUE_def isSafeInteger_def MAX_SAFE_INTEGER_def)
  with True encode_any show ?thesis by simp
next
  case False
  have "\<forall>k \<in> set (bits_from n 0). k < 32" by (auto simp: bits_from_def)
  from encode_loop_bits [OF this, of 0] obtain m
    where m: "encode_loop 0 (modeNames n) = Inr m" "to_word m = to_word n"
    unfolding modeNames_bits [OF assms False] by (auto simp: bits_word to_word_def)
  show ?thesis using m uint_to_word [OF assms] by (simp add: encodeModeNames_def js_unsigned_def)
qed

section \<open>Selections\<close>

lemma js_join_plus: "length names > 1 \<Longrightarrow> CHR ''+'' \<in> set (js_join ''+'' names)"
  by (cases names rule: remdups_adj.cases) auto

lemma modeValue_plus: "CHR ''+'' \<in> set name \<Longrightarrow> modeValue name = None"
proof -
  assume plus: "CHR ''+'' \<in> set name"
  have "name \<noteq> MODE_NONE" "name \<noteq> MODE_ANY" using plus by (auto simp: MODE_NONE_def MODE_ANY_def)
  moreover have "map_of NAME_TO_BIT name = None"
  proof (rule ccontr)
    assume "map_of NAME_TO_BIT name \<noteq> None"
    then have "name \<in> fst ` set NAME_TO_BIT" by (simp add: map_of_eq_None_iff)
    moreover have "list_all (\<lambda>entry. CHR ''+'' \<notin> set (fst entry)) NAME_TO_BIT" by code_simp
    ultimately show False using plus by (auto simp: list_all_iff)
  qed
  moreover have "\<not> (prefix PASSTHROUGH name \<and> (\<forall>c \<in> set (drop (length PASSTHROUGH) name). is_digit c))"
  proof
    assume a: "prefix PASSTHROUGH name \<and> (\<forall>c \<in> set (drop (length PASSTHROUGH) name). is_digit c)"
    then obtain rest where rest: "name = PASSTHROUGH @ rest" by (auto elim: prefixE)
    with plus have "CHR ''+'' \<in> set rest" by (auto simp: PASSTHROUGH_def)
    with a rest show False by (auto simp: is_digit_def)
  qed
  ultimately show ?thesis by (auto simp: modeValue_def Let_def)
qed

lemma modeNames_not_none: "0 \<le> n \<Longrightarrow> n < 2 ^ 32 \<Longrightarrow> modeNames n = [name] \<Longrightarrow> name \<noteq> MODE_NONE"
proof
  assume n: "0 \<le> n" "n < 2 ^ 32" "modeNames n = [name]" "name = MODE_NONE"
  then have "encodeModeNames [MODE_NONE] = Inr n" using encode_modeNames by metis
  moreover have "encodeModeNames [MODE_NONE] = Inr 0" by code_simp
  ultimately have "n = 0" by simp
  with n(3) show False by (simp add: modeNames_def)
qed

section \<open>Properties\<close>

lemma combination_commands_back:
  assumes "0 \<le> allowed" and "allowed < 2 ^ 32" and "0 \<le> preferred" and "preferred < 2 ^ 32"
  shows "encodeModeSelection (selectionOf (modeCombination allowed preferred)) =
      (if length (modeNames preferred) \<le> 1 then Inr (allowed, preferred)
       else Inl (mc_preferred (modeCombination allowed preferred)))"
proof -
  let ?c = "modeCombination allowed preferred"
  have fields: "mc_allowedMask ?c = allowed" "mc_preferredMask ?c = preferred" "mc_allowed ?c = modeNames allowed"
      "mc_preferred ?c = (if length (modeNames preferred) = 0 then MODE_NONE else js_join ''+'' (modeNames preferred))"
    by (simp_all add: modeCombination_def Let_def)
  note returns = encode_modeNames [OF assms(3,4)]
  show ?thesis
  proof (cases "modeNames preferred")
    case Nil
    with returns encode_modeNames [OF assms(1,2)] show ?thesis
      by (simp add: encodeModeSelection_def selectionOf_def fields)
  next
    case (Cons name names)
    show ?thesis
    proof (cases names)
      case Nil
      with Cons returns encode_modeNames [OF assms(1,2)] modeNames_not_none [OF assms(3,4), of name] show ?thesis
        by (simp add: encodeModeSelection_def selectionOf_def fields)
    next
      case (Cons name2 names2)
      have many: "length (modeNames preferred) > 1" using Cons \<open>modeNames preferred = name # names\<close> by simp
      note plus = js_join_plus [OF many]
      then have "js_join ''+'' (modeNames preferred) \<noteq> MODE_NONE" by (auto simp: MODE_NONE_def)
      with many modeValue_plus [OF plus] encode_modeNames [OF assms(1,2)] show ?thesis
        by (auto simp: encodeModeSelection_def selectionOf_def fields encodeModeNames_def)
    qed
  qed
qed

text \<open>An advertised combination of 32-bit masks comes back: its member of the catalog is decoded with both masks, the selection it offers encodes to exactly those masks whenever its preferred mask names at most one mode (the mask none and the mask any included), whatever bits this build does not name, and otherwise, with several preferred modes, cannot be encoded at all.\<close>

theorem advertised_modes_command_back:
  assumes "0 \<le> allowed" and "allowed < 2 ^ 32" and "0 \<le> preferred" and "preferred < 2 ^ 32"
  shows "\<exists>c. decodeModeCombination (Some (DArr [DNum allowed, DNum preferred])) = Some c \<and>
    mc_allowedMask c = allowed \<and> mc_preferredMask c = preferred \<and>
    encodeModeSelection (selectionOf c) =
      (if length (modeNames preferred) \<le> 1 then Inr (allowed, preferred) else Inl (mc_preferred c))"
proof -
  let ?c = "modeCombination allowed preferred"
  have dec: "decodeModeCombination (Some (DArr [DNum allowed, DNum preferred])) = Some ?c"
    using assms by (simp add: decodeModeCombination_def isSafeInteger_def MAX_SAFE_INTEGER_def)
  moreover have "mc_allowedMask ?c = allowed" "mc_preferredMask ?c = preferred" by (simp_all add: modeCombination_def Let_def)
  ultimately show ?thesis using combination_commands_back [OF assms] by blast
qed

lemma advertised_modes_command_back_witness:
  "\<exists>c. decodeModeCombination (Some (DArr [DNum 2147483676, DNum 16])) = Some c \<and>
     encodeModeSelection (selectionOf c) = Inr (2147483676, 16)"
proof -
  have "length (modeNames 16) \<le> 1" by code_simp
  with advertised_modes_command_back [of 2147483676 16] show ?thesis by auto
qed

text \<open>A catalog is never shortened: every member is decoded or kept as it came.\<close>

lemma decode_members_all:
  "length (ms_combinations (decode_members members)) + length (ms_undecodable (decode_members members)) = length members"
  by (induction members) (auto simp: Let_def split: option.split prod.split)

text \<open>The signed result of \<open>&\<close> on the top bit: a preferred mode that is allowed is reported as not allowed.\<close>

lemma top_bit_reported_outside:
  "PreferredNotInAllowed \<in> set (mc_anomalies (modeCombination 2147483648 2147483648))"
proof -
  have "js_and 2147483648 2147483648 = -2147483648" by (simp add: js_and_def to_word_def)
  moreover have "modeNames 2147483648 \<noteq> []"
  proof
    assume "modeNames 2147483648 = []"
    moreover have "encodeModeNames [] = Inr 0" by (simp add: encodeModeNames_def js_unsigned_def to_word_def)
    ultimately show False using encode_modeNames [of 2147483648] by simp
  qed
  ultimately show ?thesis by (simp add: modeCombination_def Let_def MODE_ANY_VALUE_def)
qed

end
