(* ===== verification/Modem_Actor.thy ===== *)
theory Modem_Actor
  imports Prelude
begin

text \<open>
  The per-modem actor (\<open>backend/modem-actor.ts\<close>): one promise chain per stable key. The state is
  the map of tails and the tasks handed to \<open>run\<close> so far, a task being named by its position. The
  events are what the code and the promise queue do: a call of \<open>run\<close>, the start of a task whose
  prior promise has settled, its end (fulfilled or rejected), and the callback that drops the tail.
  The callbacks of one settlement run in either order here, so the order of microtasks is free.
\<close>

section \<open>State and operations\<close>

datatype task_phase = Queued | Running | Settled bool

record job =
  jb_key :: string
  jb_prior :: "nat option"
  jb_phase :: task_phase
  jb_swept :: bool

record actor =
  ac_tails :: "(string \<times> nat) list"
  ac_jobs :: "job list"

definition new_actor :: actor where
  "new_actor = \<lparr>ac_tails = [], ac_jobs = []\<rparr>"

definition jb_settled :: "job \<Rightarrow> bool" where
  "jb_settled j \<longleftrightarrow> (case jb_phase j of Settled _ \<Rightarrow> True | _ \<Rightarrow> False)"

text \<open>\<open>run\<close>: the prior promise is the tail of the key, or a resolved one; the new promise is the tail.\<close>

definition actor_run :: "string \<Rightarrow> actor \<Rightarrow> actor" where
  "actor_run key a =
     a\<lparr>ac_tails := AList.update key (length (ac_jobs a)) (ac_tails a),
       ac_jobs := ac_jobs a @ [\<lparr>jb_key = key, jb_prior = map_of (ac_tails a) key, jb_phase = Queued,
                               jb_swept = False\<rparr>]\<rparr>"

text \<open>\<open>prior.then(task, task)\<close>: the task starts when the prior promise has settled, either way.\<close>

definition can_begin :: "actor \<Rightarrow> nat \<Rightarrow> bool" where
  "can_begin a i \<longleftrightarrow> i < length (ac_jobs a) \<and> jb_phase (ac_jobs a ! i) = Queued \<and>
     (case jb_prior (ac_jobs a ! i) of None \<Rightarrow> True | Some p \<Rightarrow> jb_settled (ac_jobs a ! p))"

definition set_phase :: "nat \<Rightarrow> task_phase \<Rightarrow> actor \<Rightarrow> actor" where
  "set_phase i ph a = a\<lparr>ac_jobs := (ac_jobs a)[i := (ac_jobs a ! i)\<lparr>jb_phase := ph\<rparr>]\<rparr>"

text \<open>The callback on \<open>settled\<close>: the tail is dropped when it is still this promise.\<close>

definition sweep :: "nat \<Rightarrow> actor \<Rightarrow> actor" where
  "sweep i a =
     (let j = ac_jobs a ! i in
      a\<lparr>ac_tails := (if map_of (ac_tails a) (jb_key j) = Some i
                     then AList.delete (jb_key j) (ac_tails a) else ac_tails a),
        ac_jobs := (ac_jobs a)[i := j\<lparr>jb_swept := True\<rparr>]\<rparr>)"

definition activeKeyCount :: "actor \<Rightarrow> nat" where
  "activeKeyCount a = length (ac_tails a)"

datatype actor_event = Enqueue string | Begin nat | End nat bool | Sweep nat

inductive actor_step :: "actor \<Rightarrow> actor_event \<Rightarrow> actor \<Rightarrow> bool" where
  enqueue: "actor_step a (Enqueue key) (actor_run key a)"
| begins: "can_begin a i \<Longrightarrow> actor_step a (Begin i) (set_phase i Running a)"
| ends: "i < length (ac_jobs a) \<Longrightarrow> jb_phase (ac_jobs a ! i) = Running \<Longrightarrow>
     actor_step a (End i ok) (set_phase i (Settled ok) a)"
| sweeps: "i < length (ac_jobs a) \<Longrightarrow> jb_settled (ac_jobs a ! i) \<Longrightarrow> \<not> jb_swept (ac_jobs a ! i) \<Longrightarrow>
     actor_step a (Sweep i) (sweep i a)"

inductive_cases actor_stepE: "actor_step a e b"

inductive actor_reachable :: "actor \<Rightarrow> bool" where
  initial: "actor_reachable new_actor"
| step: "actor_reachable a \<Longrightarrow> actor_step a e b \<Longrightarrow> actor_reachable b"

text \<open>
  \<open>runQuiesced\<close>: the task with the quiesce lease around it. \<open>acquire\<close> and \<open>release\<close> are the hook.
\<close>

definition quiesced_task ::
  "('w, 'l) io \<Rightarrow> ('l \<Rightarrow> ('w, unit) io) \<Rightarrow> ('w, 'a) io \<Rightarrow> ('w, 'a) io" where
  "quiesced_task acquire release task = io_bind acquire (\<lambda>lease. io_finally task (release lease))"

definition NO_OP_QUIESCE_acquire :: "('w, unit) io" where "NO_OP_QUIESCE_acquire = io_return ()"
definition NO_OP_QUIESCE_release :: "unit \<Rightarrow> ('w, unit) io" where "NO_OP_QUIESCE_release lease = io_return ()"

section \<open>The invariant of the chains\<close>

definition same_key :: "actor \<Rightarrow> nat \<Rightarrow> nat \<Rightarrow> bool" where
  "same_key a i j \<longleftrightarrow> jb_key (ac_jobs a ! i) = jb_key (ac_jobs a ! j)"

definition chain_ok :: "actor \<Rightarrow> nat \<Rightarrow> bool" where
  "chain_ok a i \<longleftrightarrow>
     (case jb_prior (ac_jobs a ! i) of
        None \<Rightarrow> \<forall>j < i. same_key a j i \<longrightarrow> jb_settled (ac_jobs a ! j)
      | Some p \<Rightarrow> p < i \<and> same_key a p i \<and> (\<forall>j. p < j \<longrightarrow> j < i \<longrightarrow> \<not> same_key a j i))"

definition fifo_ok :: "actor \<Rightarrow> nat \<Rightarrow> bool" where
  "fifo_ok a i \<longleftrightarrow>
     (jb_phase (ac_jobs a ! i) \<noteq> Queued \<longrightarrow> (\<forall>j < i. same_key a j i \<longrightarrow> jb_settled (ac_jobs a ! j)))"

definition tails_ok :: "actor \<Rightarrow> bool" where
  "tails_ok a \<longleftrightarrow> distinct (map fst (ac_tails a)) \<and>
     (\<forall>key i. map_of (ac_tails a) key = Some i \<longrightarrow>
        i < length (ac_jobs a) \<and> jb_key (ac_jobs a ! i) = key \<and> \<not> jb_swept (ac_jobs a ! i) \<and>
        (\<forall>j. i < j \<longrightarrow> j < length (ac_jobs a) \<longrightarrow> jb_key (ac_jobs a ! j) \<noteq> key)) \<and>
     (\<forall>key. map_of (ac_tails a) key = None \<longrightarrow>
        (\<forall>j < length (ac_jobs a). jb_key (ac_jobs a ! j) = key \<longrightarrow> jb_settled (ac_jobs a ! j)))"

definition actor_inv :: "actor \<Rightarrow> bool" where
  "actor_inv a \<longleftrightarrow> tails_ok a \<and> (\<forall>i < length (ac_jobs a). chain_ok a i \<and> fifo_ok a i)"


lemma set_phase_simps [simp]:
  "length (ac_jobs (set_phase i ph a)) = length (ac_jobs a)"
  "ac_tails (set_phase i ph a) = ac_tails a"
  "i < length (ac_jobs a) \<Longrightarrow> jb_key (ac_jobs (set_phase i ph a) ! j) = jb_key (ac_jobs a ! j)"
  "i < length (ac_jobs a) \<Longrightarrow> jb_prior (ac_jobs (set_phase i ph a) ! j) = jb_prior (ac_jobs a ! j)"
  "i < length (ac_jobs a) \<Longrightarrow> jb_swept (ac_jobs (set_phase i ph a) ! j) = jb_swept (ac_jobs a ! j)"
  "i < length (ac_jobs a) \<Longrightarrow> jb_phase (ac_jobs (set_phase i ph a) ! j) =
     (if j = i then ph else jb_phase (ac_jobs a ! j))"
  by (auto simp: set_phase_def nth_list_update)

lemma sweep_simps [simp]:
  "length (ac_jobs (sweep i a)) = length (ac_jobs a)"
  "i < length (ac_jobs a) \<Longrightarrow> jb_key (ac_jobs (sweep i a) ! j) = jb_key (ac_jobs a ! j)"
  "i < length (ac_jobs a) \<Longrightarrow> jb_prior (ac_jobs (sweep i a) ! j) = jb_prior (ac_jobs a ! j)"
  "i < length (ac_jobs a) \<Longrightarrow> jb_phase (ac_jobs (sweep i a) ! j) = jb_phase (ac_jobs a ! j)"
  "i < length (ac_jobs a) \<Longrightarrow> jb_swept (ac_jobs (sweep i a) ! j) = (j = i \<or> jb_swept (ac_jobs a ! j))"
  by (auto simp: sweep_def Let_def nth_list_update)

lemma run_simps [simp]:
  "length (ac_jobs (actor_run key a)) = Suc (length (ac_jobs a))"
  "j < length (ac_jobs a) \<Longrightarrow> ac_jobs (actor_run key a) ! j = ac_jobs a ! j"
  "ac_jobs (actor_run key a) ! length (ac_jobs a) =
     \<lparr>jb_key = key, jb_prior = map_of (ac_tails a) key, jb_phase = Queued, jb_swept = False\<rparr>"
  by (simp_all add: actor_run_def nth_append)

lemma jb_settled_not_Queued: "jb_settled j \<Longrightarrow> jb_phase j \<noteq> Queued \<and> jb_phase j \<noteq> Running"
  by (auto simp: jb_settled_def)

lemma jb_settled_cases: "jb_phase j = Queued \<or> jb_phase j = Running \<or> jb_settled j"
  by (cases "jb_phase j") (auto simp: jb_settled_def)

lemma settled_set_phase:
  "i < length (ac_jobs a) \<Longrightarrow> jb_settled (ac_jobs (set_phase i ph a) ! j) =
     (if j = i then (case ph of Settled _ \<Rightarrow> True | _ \<Rightarrow> False) else jb_settled (ac_jobs a ! j))"
  by (simp add: jb_settled_def)

lemma settled_sweep:
  "i < length (ac_jobs a) \<Longrightarrow> jb_settled (ac_jobs (sweep i a) ! j) = jb_settled (ac_jobs a ! j)"
  by (simp add: jb_settled_def)

lemma actor_inv_new: "actor_inv new_actor"
  by (simp add: actor_inv_def tails_ok_def new_actor_def)

lemma actor_inv_run:
  assumes inv: "actor_inv a"
  shows "actor_inv (actor_run key a)"
proof -
  let ?n = "length (ac_jobs a)"
  have t: "tails_ok a" and old: "\<And>i. i < ?n \<Longrightarrow> chain_ok a i \<and> fifo_ok a i"
    using inv by (auto simp: actor_inv_def)
  have tails: "ac_tails (actor_run key a) = AList.update key ?n (ac_tails a)" by (simp add: actor_run_def)
  have "tails_ok (actor_run key a)"
    using t unfolding tails_ok_def tails
    by (auto simp: map_get_set distinct_keys_set less_Suc_eq)
  moreover have "chain_ok (actor_run key a) ?n"
    using t by (cases "map_of (ac_tails a) key") (auto simp: chain_ok_def same_key_def tails_ok_def)
  moreover have "fifo_ok (actor_run key a) ?n" by (simp add: fifo_ok_def)
  moreover have "chain_ok (actor_run key a) i \<and> fifo_ok (actor_run key a) i" if "i < ?n" for i
    using old [OF that] that
    by (auto simp: chain_ok_def fifo_ok_def same_key_def split: option.splits)
  ultimately show ?thesis by (auto simp: actor_inv_def less_Suc_eq)
qed

lemma prior_settled_all_settled:
  assumes inv: "actor_inv a" and c: "can_begin a i" and j: "j < i" "same_key a j i"
  shows "jb_settled (ac_jobs a ! j)"
proof (cases "jb_prior (ac_jobs a ! i)")
  case None
  with inv c j show ?thesis by (auto simp: actor_inv_def chain_ok_def can_begin_def)
next
  case (Some p)
  with c have i: "i < length (ac_jobs a)" and p: "jb_settled (ac_jobs a ! p)" by (auto simp: can_begin_def)
  with inv Some have chain: "p < i" "same_key a p i" "\<And>j. p < j \<Longrightarrow> j < i \<Longrightarrow> \<not> same_key a j i"
    by (auto simp: actor_inv_def chain_ok_def)
  with j have "j = p \<or> j < p" by (meson linorder_neqE_nat)
  then show ?thesis
  proof
    assume "j < p"
    moreover have "same_key a j p" using chain(2) j(2) by (simp add: same_key_def)
    moreover have "fifo_ok a p" using inv chain(1) i by (auto simp: actor_inv_def)
    ultimately show ?thesis using jb_settled_not_Queued [OF p] by (auto simp: fifo_ok_def)
  qed (use p in simp)
qed

lemma actor_inv_set_phase:
  assumes inv: "actor_inv a" and i: "i < length (ac_jobs a)"
    and up: "ph = Running \<and> can_begin a i \<or> (\<exists>ok. ph = Settled ok) \<and> jb_phase (ac_jobs a ! i) = Running"
  shows "actor_inv (set_phase i ph a)"
proof -
  let ?b = "set_phase i ph a"
  have mono: "jb_settled (ac_jobs a ! j) \<Longrightarrow> jb_settled (ac_jobs ?b ! j)" for j
    using up i by (auto simp: settled_set_phase can_begin_def jb_settled_def)
  have key: "same_key ?b j k = same_key a j k" for j k using i by (simp add: same_key_def)
  have "tails_ok ?b"
    using inv i mono by (auto simp: actor_inv_def tails_ok_def)
  moreover have "chain_ok ?b k" if "k < length (ac_jobs a)" for k
    using inv i mono that by (auto simp: actor_inv_def chain_ok_def key split: option.splits)
  moreover have "fifo_ok ?b k" if k: "k < length (ac_jobs a)" for k
  proof -
    have "jb_settled (ac_jobs a ! j)" if "jb_phase (ac_jobs ?b ! k) \<noteq> Queued" "j < k" "same_key a j k" for j
    proof (cases "k = i \<and> ph = Running")
      case True
      with up prior_settled_all_settled [OF inv _ that(2)] that(3) show ?thesis by auto
    next
      case False
      with that(1) up i have "jb_phase (ac_jobs a ! k) \<noteq> Queued" by (auto split: if_splits)
      with inv k that(2,3) show ?thesis by (auto simp: actor_inv_def fifo_ok_def)
    qed
    then show ?thesis using mono by (auto simp: fifo_ok_def key)
  qed
  ultimately show ?thesis by (simp add: actor_inv_def)
qed

lemma actor_inv_sweep:
  assumes inv: "actor_inv a" and i: "i < length (ac_jobs a)" and s: "jb_settled (ac_jobs a ! i)"
  shows "actor_inv (sweep i a)"
proof -
  let ?k = "jb_key (ac_jobs a ! i)"
  have t: "tails_ok a" and f: "fifo_ok a i" using inv i by (auto simp: actor_inv_def)
  have tails: "ac_tails (sweep i a) =
      (if map_of (ac_tails a) ?k = Some i then AList.delete ?k (ac_tails a) else ac_tails a)"
    by (simp add: sweep_def Let_def)
  have all: "jb_settled (ac_jobs a ! j)"
    if tail: "map_of (ac_tails a) ?k = Some i" and "j < length (ac_jobs a)" "jb_key (ac_jobs a ! j) = ?k" for j
  proof -
    have "j \<le> i" using t that by (metis tails_ok_def not_le)
    with f s that jb_settled_not_Queued [OF s] show ?thesis
      by (cases "j = i") (auto simp: fifo_ok_def same_key_def)
  qed
  have "tails_ok (sweep i a)"
  proof (cases "map_of (ac_tails a) ?k = Some i")
    case True
    then have tl: "ac_tails (sweep i a) = AList.delete ?k (ac_tails a)" using tails by simp
    show ?thesis
      using t all [OF True] i unfolding tails_ok_def tl
      by (auto simp: map_get_delete distinct_keys_delete settled_sweep split: if_splits)
  next
    case False
    then have tl: "ac_tails (sweep i a) = ac_tails a" using tails by simp
    show ?thesis
      using t False i unfolding tails_ok_def tl by (auto simp: settled_sweep)
  qed
  moreover have "chain_ok (sweep i a) k \<and> fifo_ok (sweep i a) k" if "k < length (ac_jobs a)" for k
    using inv i that
    by (auto simp: actor_inv_def chain_ok_def fifo_ok_def same_key_def settled_sweep split: option.splits)
  ultimately show ?thesis by (simp add: actor_inv_def)
qed

lemma actor_inv_step: "actor_step a e b \<Longrightarrow> actor_inv a \<Longrightarrow> actor_inv b"
  by (induction rule: actor_step.induct)
     (auto intro: actor_inv_run actor_inv_set_phase actor_inv_sweep simp: can_begin_def)

lemma reachable_actor_inv: "actor_reachable a \<Longrightarrow> actor_inv a"
  by (induction rule: actor_reachable.induct) (auto intro: actor_inv_new actor_inv_step)

section \<open>Progress\<close>

lemma earliest_unsettled_enabled:
  assumes inv: "actor_inv a" and i: "i < length (ac_jobs a)" "\<not> jb_settled (ac_jobs a ! i)"
  shows "\<exists>j \<le> i. same_key a j i \<and> (jb_phase (ac_jobs a ! j) = Running \<or> can_begin a j)"
  using i
proof (induction i rule: less_induct)
  case (less i)
  show ?case
  proof (cases "jb_phase (ac_jobs a ! i) = Running \<or> can_begin a i")
    case True
    then show ?thesis by (auto simp: same_key_def)
  next
    case False
    with less.prems obtain p where p: "jb_prior (ac_jobs a ! i) = Some p" "\<not> jb_settled (ac_jobs a ! p)"
      using jb_settled_cases [of "ac_jobs a ! i"] by (auto simp: can_begin_def split: option.splits)
    with inv less.prems have "p < i" "same_key a p i" by (auto simp: actor_inv_def chain_ok_def)
    with less.IH [of p] less.prems p(2) obtain j where j: "j \<le> p" "same_key a j p"
        "jb_phase (ac_jobs a ! j) = Running \<or> can_begin a j"
      by auto
    with \<open>p < i\<close> \<open>same_key a p i\<close> have "j \<le> i" "same_key a j i" by (auto simp: same_key_def)
    with j(3) show ?thesis by blast
  qed
qed

text \<open>What is left to do: three events a task.\<close>

definition job_work :: "job \<Rightarrow> nat" where
  "job_work j = (case jb_phase j of Queued \<Rightarrow> 2 | Running \<Rightarrow> 1 | Settled _ \<Rightarrow> 0) + (if jb_swept j then 0 else 1)"

definition actor_work :: "actor \<Rightarrow> nat" where
  "actor_work a = sum_list (map job_work (ac_jobs a))"

lemma work_update:
  assumes "i < length js" and "job_work j < job_work (js ! i)"
  shows "sum_list (map job_work (js[i := j])) < sum_list (map job_work js)"
  using assms by (induction js arbitrary: i) (auto split: nat.splits)

lemma step_work:
  "actor_step a e b \<Longrightarrow> (\<forall>key. e \<noteq> Enqueue key) \<Longrightarrow> actor_work b < actor_work a"
  by (induction rule: actor_step.induct)
     (auto simp: actor_work_def set_phase_def sweep_def Let_def can_begin_def job_work_def jb_settled_def
       intro!: work_update split: task_phase.splits)


lemma work_positive:
  "0 < actor_work a \<longleftrightarrow> (\<exists>i < length (ac_jobs a). \<not> jb_settled (ac_jobs a ! i) \<or> \<not> jb_swept (ac_jobs a ! i))"
proof -
  have "0 < actor_work a \<longleftrightarrow> (\<exists>j \<in> set (ac_jobs a). 0 < job_work j)"
    by (auto simp: actor_work_def sum_list_eq_0_iff simp flip: neq0_conv)
  moreover have "0 < job_work j \<longleftrightarrow> \<not> jb_settled j \<or> \<not> jb_swept j" for j
    by (auto simp: job_work_def jb_settled_def split: task_phase.splits)
  ultimately show ?thesis by (metis in_set_conv_nth)
qed

lemma work_left_step:
  assumes inv: "actor_inv a" and "0 < actor_work a"
  shows "\<exists>e b. actor_step a e b \<and> (\<forall>key. e \<noteq> Enqueue key)"
proof -
  obtain i where i: "i < length (ac_jobs a)" "\<not> jb_settled (ac_jobs a ! i) \<or> \<not> jb_swept (ac_jobs a ! i)"
    using assms(2) by (auto simp: work_positive)
  show ?thesis
  proof (cases "jb_settled (ac_jobs a ! i)")
    case True
    with i show ?thesis by (blast intro: actor_step.sweeps)
  next
    case False
    from earliest_unsettled_enabled [OF inv i(1) False] i(1)
    obtain j where j: "j < length (ac_jobs a)" "jb_phase (ac_jobs a ! j) = Running \<or> can_begin a j"
      by (auto intro: le_less_trans)
    then show ?thesis by (blast intro: actor_step.begins actor_step.ends)
  qed
qed

section \<open>Properties\<close>

text \<open>C10: two disruptive operations on one modem never interleave: when a task of a stable key has started, every task of the same key handed to run before it has settled, so tasks of one key run in the order of the calls and one at a time, whatever the order of the events and whether the earlier tasks resolved or rejected.\<close>

theorem actor_serializes:
  assumes "actor_reachable a" and "i < j" and "j < length (ac_jobs a)"
    and "jb_key (ac_jobs a ! i) = jb_key (ac_jobs a ! j)" and "jb_phase (ac_jobs a ! j) \<noteq> Queued"
  shows "jb_settled (ac_jobs a ! i)"
  using reachable_actor_inv [OF assms(1)] assms(2-)
  by (auto simp: actor_inv_def fifo_ok_def same_key_def)

lemmas sample_actor = new_actor_def actor_run_def set_phase_def sweep_def can_begin_def jb_settled_def

definition sample_chain :: actor where
  "sample_chain = set_phase 1 Running (set_phase 0 (Settled False) (set_phase 0 Running
     (actor_run ''slot'' (actor_run ''slot'' new_actor))))"

lemma sample_chain_reachable: "actor_reachable sample_chain"
proof -
  have "actor_reachable (actor_run ''slot'' (actor_run ''slot'' new_actor))"
    by (blast intro: actor_reachable.intros actor_step.enqueue)
  then have "actor_reachable (set_phase 0 Running (actor_run ''slot'' (actor_run ''slot'' new_actor)))"
    by (rule actor_reachable.step [OF _ actor_step.begins]) (simp add: sample_actor)
  then have "actor_reachable (set_phase 0 (Settled False) (set_phase 0 Running
      (actor_run ''slot'' (actor_run ''slot'' new_actor))))"
    by (rule actor_reachable.step [OF _ actor_step.ends]) (simp_all add: sample_actor)
  then show ?thesis unfolding sample_chain_def
    by (rule actor_reachable.step [OF _ actor_step.begins]) (simp add: sample_actor)
qed

lemma actor_serializes_witness: "jb_settled (ac_jobs sample_chain ! 0)"
  by (rule actor_serializes [OF sample_chain_reachable, of 0 1]) (simp_all add: sample_chain_def sample_actor)

text \<open>C11: the queues always drain: in a reachable state every event other than a new call uses up work, while work is left some such event is possible (a rejected task never stalls the tasks behind it), and when no work is left every task has settled and the map of tails is empty, so the map is bounded by the modems in use.\<close>

theorem actor_drains:
  assumes "actor_reachable a"
  shows "(\<forall>e b. actor_step a e b \<longrightarrow> (\<forall>key. e \<noteq> Enqueue key) \<longrightarrow> actor_work b < actor_work a) \<and>
    (0 < actor_work a \<longrightarrow> (\<exists>e b. actor_step a e b \<and> (\<forall>key. e \<noteq> Enqueue key))) \<and>
    (actor_work a = 0 \<longrightarrow> (\<forall>j \<in> set (ac_jobs a). jb_settled j) \<and> activeKeyCount a = 0)"
proof (intro conjI impI allI)
  fix e b assume "actor_step a e b" "\<forall>key. e \<noteq> Enqueue key"
  then show "actor_work b < actor_work a" by (rule step_work)
next
  assume "0 < actor_work a"
  then show "\<exists>e b. actor_step a e b \<and> (\<forall>key. e \<noteq> Enqueue key)"
    by (rule work_left_step [OF reachable_actor_inv [OF assms]])
next
  assume "actor_work a = 0"
  with work_positive [of a]
  have idle: "\<forall>i < length (ac_jobs a). jb_settled (ac_jobs a ! i) \<and> jb_swept (ac_jobs a ! i)" by simp
  then show "\<forall>j \<in> set (ac_jobs a). jb_settled j" by (auto simp: in_set_conv_nth)
  have tails: "map_of (ac_tails a) key = Some i \<Longrightarrow> i < length (ac_jobs a) \<and> \<not> jb_swept (ac_jobs a ! i)" for key i
    using reachable_actor_inv [OF assms] unfolding actor_inv_def tails_ok_def by blast
  have "map_of (ac_tails a) key = None" for key
    using tails [of key] idle by (cases "map_of (ac_tails a) key") auto
  then have "ac_tails a = []" by (metis list.set_intros(1) map_of_eq_None_iff neq_Nil_conv image_eqI empty_iff)
  then show "activeKeyCount a = 0" by (simp add: activeKeyCount_def)
qed

lemma actor_drains_witness: "\<exists>e b. actor_step sample_chain e b \<and> (\<forall>key. e \<noteq> Enqueue key)"
proof -
  have "0 < actor_work sample_chain"
    by (simp add: sample_chain_def sample_actor actor_work_def job_work_def)
  with actor_drains [OF sample_chain_reachable] show ?thesis by blast
qed

end
