(* ===== verification/Ussd.thy ===== *)
theory Ussd
  imports Managed_Objects
begin

text \<open>
  USSD: why a verb fails (\<open>ussd/refusal.ts\<close>), the registration facts (\<open>ussd/registration.ts\<close>), the
  calls (\<open>ussd/calls.ts\<close>), the session machine (\<open>ussd/session.ts\<close>) and the adapter
  (\<open>ussd/mm-ussd.ts\<close>). The adapter's maps are keyed by the stable key of a modem and every job runs
  alone on its key in the modem actor, so the state here is the entry of one key and a job is one
  step. A failed call is what the classifier reads of it: two names and a message.
\<close>

section \<open>Why a verb fails\<close>

datatype ussd_refusal =
    UssdUnsupported | LteOnlyUnsupported | CarrierRejected | NotRegistered | SessionBusy | NoSession
  | InvalidState | UssdTimeout | TransportFailed

record ussd_registration =
  ur_registered :: bool
  ur_csDomain :: "bool option"
  ur_accessTechnologies :: "string list option"

definition PACKET_ONLY_RATS :: "string list" where
  "PACKET_ONLY_RATS = [''lte'', ''5gnr'', ''lte-cat-m'', ''lte-nb-iot'']"

definition isPacketSwitchedOnly :: "ussd_registration \<Rightarrow> bool" where
  "isPacketSwitchedOnly facts =
     (if \<not> ur_registered facts then False
      else if ur_csDomain facts \<noteq> Some False then False
      else case ur_accessTechnologies facts of
        None \<Rightarrow> False
      | Some [] \<Rightarrow> False
      | Some rats \<Rightarrow> list_all (\<lambda>rat. js_lower rat \<in> set PACKET_ONLY_RATS) rats)"

record call_error =
  ce_dbusName :: "string option"
  ce_name :: "string option"
  ce_message :: string

definition ERROR_SUFFIX_REASONS :: "(string \<times> ussd_refusal) list" where
  "ERROR_SUFFIX_REASONS =
     [(''Unsupported'', UssdUnsupported), (''NotSupported'', UssdUnsupported), (''InProgress'', SessionBusy),
      (''NoNetwork'', NotRegistered), (''NotRegistered'', NotRegistered), (''Timeout'', UssdTimeout),
      (''Aborted'', CarrierRejected), (''Failed'', CarrierRejected)]"

text \<open>The patterns, on the lower-case message. \<open>.*\<close> stops at the end of a line.\<close>

definition rest_of_line :: "string \<Rightarrow> string" where
  "rest_of_line s = takeWhile (\<lambda>c. c \<noteq> NL \<and> c \<noteq> CHR 0x0D) s"

fun ussd_not_supported :: "string \<Rightarrow> bool" where
  "ussd_not_supported [] \<longleftrightarrow> False"
| "ussd_not_supported (c # s) \<longleftrightarrow>
     (prefix ''ussd'' (c # s) \<and>
      (js_includes ''not supported'' (rest_of_line (drop 4 (c # s))) \<or>
       js_includes ''unsupported'' (rest_of_line (drop 4 (c # s))))) \<or>
     ussd_not_supported s"

definition one_of :: "string list \<Rightarrow> string \<Rightarrow> bool" where
  "one_of needles s \<longleftrightarrow> list_ex (\<lambda>n. js_includes n s) needles"

definition MESSAGE_REASONS :: "((string \<Rightarrow> bool) \<times> ussd_refusal) list" where
  "MESSAGE_REASONS =
     [(ussd_not_supported, UssdUnsupported),
      (one_of [''session active'', ''session in progress'', ''session already active'', ''session already in progress'',
               ''operation active'', ''operation in progress'', ''operation already active'', ''operation already in progress''],
       SessionBusy),
      (one_of [''no ussd session'', ''no active ussd session''], NoSession),
      (one_of [''not registered'', ''no network''], NotRegistered),
      (one_of [''timed out'', ''timedout'', ''time out'', ''timeout''], UssdTimeout),
      (one_of [''rejected'', ''refused'', ''denied'', ''network error''], CarrierRejected)]"

definition has_dot :: "string option \<Rightarrow> bool" where
  "has_dot name = (case name of None \<Rightarrow> False | Some n \<Rightarrow> CHR ''.'' \<in> set n)"

definition errorName :: "call_error \<Rightarrow> string option" where
  "errorName error =
     (if has_dot (ce_dbusName error) then ce_dbusName error
      else if has_dot (ce_name error) then ce_name error else None)"

definition after_last_dot :: "string \<Rightarrow> string" where
  "after_last_dot name = rev (takeWhile (\<lambda>c. c \<noteq> CHR ''.'') (rev name))"

definition first_pattern :: "string \<Rightarrow> ussd_refusal option" where
  "first_pattern message = map_option snd (find (\<lambda>(matches, _). matches (js_lower message)) MESSAGE_REASONS)"

definition classifyUssdFailure :: "call_error \<Rightarrow> ussd_registration \<Rightarrow> ussd_refusal" where
  "classifyUssdFailure error registration =
     (let suffix = map_option after_last_dot (errorName error);
          named = Option.bind suffix (map_of ERROR_SUFFIX_REASONS);
          reason = (if named = None \<or> named = Some CarrierRejected
                    then (case first_pattern (ce_message error) of Some mapped \<Rightarrow> Some mapped | None \<Rightarrow> named)
                    else named)
      in case reason of
           None \<Rightarrow> TransportFailed
         | Some r \<Rightarrow>
             if (r = UssdUnsupported \<or> r = CarrierRejected) \<and> isPacketSwitchedOnly registration
             then LteOnlyUnsupported else r)"

section \<open>The registration\<close>

definition ACCESS_TECHNOLOGY_BITS :: "(nat \<times> string) list" where
  "ACCESS_TECHNOLOGY_BITS =
     [(1, ''gsm''), (2, ''gsm-compact''), (3, ''gprs''), (4, ''edge''), (5, ''umts''), (6, ''hsdpa''), (7, ''hsupa''),
      (8, ''hspa''), (9, ''hspa-plus''), (10, ''1xrtt''), (11, ''evdo0''), (12, ''evdoa''), (13, ''evdob''),
      (14, ''lte''), (15, ''5gnr''), (16, ''lte-cat-m''), (17, ''lte-nb-iot'')]"

definition REGISTERED_STATES :: "int list" where "REGISTERED_STATES = [1, 5, 6, 7, 9, 10]"
definition CSFB_STATES :: "int list" where "CSFB_STATES = [9, 10]"

text \<open>\<open>mask & (1 << n)\<close> for \<open>n \<le> 17\<close> is bit \<open>n\<close> of the mask's 32-bit value.\<close>

definition decodeAccessTechnologies :: "int \<Rightarrow> string list" where
  "decodeAccessTechnologies msk =
     map snd (filter (\<lambda>(n, _). (msk div 2 ^ n) mod 2 = 1) ACCESS_TECHNOLOGY_BITS)"

definition registrationFactsFromTree :: "managed_objects \<Rightarrow> string \<Rightarrow> ussd_registration" where
  "registrationFactsFromTree tree modemPath =
     (let registrationState = numberProp (findInterface tree modemPath MODEM3GPP_IFACE) ''RegistrationState'';
          accessMask = numberProp (findInterface tree modemPath MODEM_IFACE) ''AccessTechnologies'';
          technologies = map_option decodeAccessTechnologies accessMask;
          csDomain =
            (if (case registrationState of Some st \<Rightarrow> st \<in> set CSFB_STATES | None \<Rightarrow> False) then Some True
             else case technologies of
               Some (t # ts) \<Rightarrow>
                 Some (list_ex (\<lambda>rat. rat \<noteq> ''lte'' \<and> rat \<noteq> ''5gnr'' \<and> rat \<noteq> ''lte-cat-m'' \<and> rat \<noteq> ''lte-nb-iot'') (t # ts))
             | _ \<Rightarrow> None)
      in \<lparr>ur_registered = (case registrationState of Some st \<Rightarrow> st \<in> set REGISTERED_STATES | None \<Rightarrow> False),
          ur_csDomain = csDomain, ur_accessTechnologies = technologies\<rparr>)"

definition UNKNOWN_REGISTRATION :: ussd_registration where
  "UNKNOWN_REGISTRATION = \<lparr>ur_registered = False, ur_csDomain = None, ur_accessTechnologies = None\<rparr>"

section \<open>The session machine\<close>

datatype session_state = Idle | Initiating | ActiveSession | AwaitingReply | Responding | Cancelling | Closed

datatype session_outcome = Completed | Cancelled | TimedOut | FailedSession

datatype replied_state = RepliedAwaiting | RepliedActive | RepliedReleased

datatype session_event =
    Initiate | Respond | Cancel | Replied replied_state | CancelConfirmed | NetworkReleased | Timeout
  | CallFailed ussd_refusal

record session_snapshot =
  sn_state :: session_state
  sn_outcome :: "session_outcome option"
  sn_refusal :: "ussd_refusal option"

type_synonym ussd_transition = "ussd_refusal + session_snapshot"

definition IDLE_SESSION :: session_snapshot where
  "IDLE_SESSION = \<lparr>sn_state = Idle, sn_outcome = None, sn_refusal = None\<rparr>"

definition ACCEPTS_INITIATE :: "session_state set" where "ACCEPTS_INITIATE = {Idle}"
definition ACCEPTS_RESPOND :: "session_state set" where "ACCEPTS_RESPOND = {AwaitingReply}"
definition ACCEPTS_CANCEL :: "session_state set" where
  "ACCEPTS_CANCEL = {Initiating, ActiveSession, AwaitingReply, Responding}"
definition IN_FLIGHT :: "session_state set" where "IN_FLIGHT = {Initiating, Responding}"

definition open_session :: "session_state \<Rightarrow> ussd_transition" where
  "open_session st = Inr \<lparr>sn_state = st, sn_outcome = None, sn_refusal = None\<rparr>"

definition close_session :: "session_outcome \<Rightarrow> ussd_refusal option \<Rightarrow> ussd_transition" where
  "close_session outcome refusal = Inr \<lparr>sn_state = Closed, sn_outcome = Some outcome, sn_refusal = refusal\<rparr>"

definition refuse_session :: "ussd_refusal \<Rightarrow> ussd_transition" where
  "refuse_session refusal = Inl refusal"

fun replied_session :: "replied_state \<Rightarrow> session_state" where
  "replied_session RepliedAwaiting = AwaitingReply"
| "replied_session RepliedActive = ActiveSession"
| "replied_session RepliedReleased = Closed"

definition reduceUssdSession :: "session_snapshot \<Rightarrow> session_event \<Rightarrow> ussd_transition" where
  "reduceUssdSession snapshot event =
     (let st = sn_state snapshot; sessionOpen = (st \<noteq> Idle) in
      if st = Closed then refuse_session NoSession
      else case event of
        Initiate \<Rightarrow> if st \<in> ACCEPTS_INITIATE then open_session Initiating else refuse_session SessionBusy
      | Respond \<Rightarrow> if st \<in> ACCEPTS_RESPOND then open_session Responding else refuse_session InvalidState
      | Cancel \<Rightarrow>
          if st \<in> ACCEPTS_CANCEL then open_session Cancelling
          else refuse_session (if sessionOpen then InvalidState else NoSession)
      | Replied sessionState \<Rightarrow>
          if st \<notin> IN_FLIGHT then refuse_session InvalidState
          else if sessionState = RepliedReleased then close_session Completed None
          else open_session (replied_session sessionState)
      | CancelConfirmed \<Rightarrow> if st = Cancelling then close_session Cancelled None else refuse_session InvalidState
      | NetworkReleased \<Rightarrow>
          if \<not> sessionOpen then refuse_session NoSession
          else close_session (if st = Cancelling then Cancelled else Completed) None
      | Timeout \<Rightarrow> if sessionOpen then close_session TimedOut None else refuse_session NoSession
      | CallFailed reason \<Rightarrow>
          if sessionOpen then close_session FailedSession (Some reason) else refuse_session NoSession)"

definition isUssdSessionOpen :: "session_snapshot \<Rightarrow> bool" where
  "isUssdSessionOpen snapshot \<longleftrightarrow> sn_state snapshot \<noteq> Idle \<and> sn_state snapshot \<noteq> Closed"

section \<open>The calls\<close>

definition MODEM3GPP_USSD_IFACE :: string where "MODEM3GPP_USSD_IFACE = MODEM3GPP_IFACE @ ''.Ussd''"
definition PROPERTIES_IFACE :: string where "PROPERTIES_IFACE = ''org.freedesktop.DBus.Properties''"

record method_call =
  me_destination :: string
  me_path :: string
  me_interface :: string
  me_member :: string
  me_signature :: "string option"
  me_args :: "dbus_value list"
  me_timeoutMs :: "int option"

type_synonym 'w dbus_transport = "method_call \<Rightarrow> 'w \<Rightarrow> (call_error + dbus_value list) \<times> 'w"

definition decodeRepliedState :: "int \<Rightarrow> replied_state" where
  "decodeRepliedState st = (if st = 3 then RepliedAwaiting else if st = 2 then RepliedActive else RepliedReleased)"

definition firstString :: "dbus_value list \<Rightarrow> string" where
  "firstString body = (case body of DStr s # _ \<Rightarrow> s | _ \<Rightarrow> [])"

record 'w ussd_env =
  ue_transport :: "'w dbus_transport"
  ue_fetchTree :: "'w \<Rightarrow> (call_error + managed_objects) \<times> 'w"
  ue_destination :: string
  ue_callTimeoutMs :: int

definition ussd_call :: "'w ussd_env \<Rightarrow> string \<Rightarrow> string \<Rightarrow> string option \<Rightarrow> dbus_value list \<Rightarrow> string \<Rightarrow> method_call" where
  "ussd_call env iface member sig args modem =
     \<lparr>me_destination = ue_destination env, me_path = modem, me_interface = iface, me_member = member,
      me_signature = sig, me_args = args, me_timeoutMs = Some (ue_callTimeoutMs env)\<rparr>"

definition first_of_body :: "(call_error + dbus_value list) \<times> 'w \<Rightarrow> (call_error + string) \<times> 'w" where
  "first_of_body out = (case out of (Inl e, w) \<Rightarrow> (Inl e, w) | (Inr body, w) \<Rightarrow> (Inr (firstString body), w))"

definition callInitiate :: "'w ussd_env \<Rightarrow> string \<Rightarrow> string \<Rightarrow> 'w \<Rightarrow> (call_error + string) \<times> 'w" where
  "callInitiate env modem ussdCommand w =
     first_of_body (ue_transport env (ussd_call env MODEM3GPP_USSD_IFACE ''Initiate'' (Some ''s'') [DStr ussdCommand] modem) w)"

definition callRespond :: "'w ussd_env \<Rightarrow> string \<Rightarrow> string \<Rightarrow> 'w \<Rightarrow> (call_error + string) \<times> 'w" where
  "callRespond env modem ussdResponse w =
     first_of_body (ue_transport env (ussd_call env MODEM3GPP_USSD_IFACE ''Respond'' (Some ''s'') [DStr ussdResponse] modem) w)"

definition callCancel :: "'w ussd_env \<Rightarrow> string \<Rightarrow> 'w \<Rightarrow> (call_error + string) \<times> 'w" where
  "callCancel env modem w =
     first_of_body (ue_transport env (ussd_call env MODEM3GPP_USSD_IFACE ''Cancel'' None [] modem) w)"

definition readUssdState :: "'w ussd_env \<Rightarrow> string \<Rightarrow> 'w \<Rightarrow> int \<times> 'w" where
  "readUssdState env modem w =
     (case ue_transport env (ussd_call env PROPERTIES_IFACE ''Get'' (Some ''ss'')
             [DStr MODEM3GPP_USSD_IFACE, DStr ''State''] modem) w of
        (Inl _, w1) \<Rightarrow> (0, w1)
      | (Inr body, w1) \<Rightarrow>
          ((case body of DNum n # _ \<Rightarrow> n | DVariant _ (DNum n) # _ \<Rightarrow> n | _ \<Rightarrow> 0), w1))"

definition readUssdRegistrationFacts :: "'w ussd_env \<Rightarrow> string \<Rightarrow> 'w \<Rightarrow> ussd_registration \<times> 'w" where
  "readUssdRegistrationFacts env modemPath w =
     (case ue_fetchTree env w of
        (Inl _, w1) \<Rightarrow> (UNKNOWN_REGISTRATION, w1)
      | (Inr tree, w1) \<Rightarrow> (registrationFactsFromTree tree modemPath, w1))"

end
