(* ===== verification/Mm_Mutations.thy ===== *)
theory Mm_Mutations
  imports Call_Log Band_Lock Reconcile_Plan Radio_Modes Modem_Actor Ussd
begin

text \<open>
  The commands of the ModemManager backend (\<open>backend/mm-mutations/\<close>, \<open>backend/mm-mutations.ts\<close>) and the
  SIM unlock (\<open>backend/sim-unlock.ts\<close>). A command is a function of the replies of the bus: the device is
  a state of any type that a call changes and answers from, the world records the calls made. The quiesce
  lease is the hook of the actor; the order of the commands of one modem is the subject of \<open>Modem_Actor\<close>.
\<close>

section \<open>The bus\<close>

record 'd mm_world =
  mw_device :: 'd
  mw_calls :: "method_call list"

record 'd mm_context =
  mx_call :: "method_call \<Rightarrow> 'd \<Rightarrow> (call_error + dbus_value list) \<times> 'd"
  mx_tree :: "'d \<Rightarrow> (call_error + managed_objects) \<times> 'd"
  mx_acquire :: "string \<Rightarrow> 'd \<Rightarrow> (string + unit) \<times> 'd"
  mx_release :: "'d \<Rightarrow> (string + unit) \<times> 'd"
  mx_destination :: string
  mx_stableKey :: "string \<Rightarrow> string"
  mx_scanTimeoutMs :: int

definition DEFAULT_SCAN_TIMEOUT_MS :: int where "DEFAULT_SCAN_TIMEOUT_MS = 300000"
definition MM_ROOT_PATH :: string where "MM_ROOT_PATH = ''/org/freedesktop/ModemManager1''"
definition MM_MANAGER_IFACE :: string where "MM_MANAGER_IFACE = ''org.freedesktop.ModemManager1''"
definition OBJECT_MANAGER_IFACE :: string where "OBJECT_MANAGER_IFACE = ''org.freedesktop.DBus.ObjectManager''"

text \<open>\<open>describeMutationError\<close>: what a call throws is an Error.\<close>

definition describeMutationError :: "call_error \<Rightarrow> string" where
  "describeMutationError e = ce_message e"

definition mm_method ::
  "'d mm_context \<Rightarrow> string \<Rightarrow> string \<Rightarrow> string \<Rightarrow> string option \<Rightarrow> dbus_value list \<Rightarrow> int option \<Rightarrow> method_call" where
  "mm_method ctx path iface member sig args timeout =
     \<lparr>me_destination = mx_destination ctx, me_path = path, me_interface = iface, me_member = member,
      me_signature = sig, me_args = args, me_timeoutMs = timeout\<rparr>"

definition callMethod :: "'d mm_context \<Rightarrow> method_call \<Rightarrow> ('d mm_world, dbus_value list) io" where
  "callMethod ctx call w =
     (case mx_call ctx call (mw_device w) of
        (r, d) \<Rightarrow> (case r of Inl e \<Rightarrow> Inl (describeMutationError e) | Inr body \<Rightarrow> Inr body,
                   w\<lparr>mw_device := d, mw_calls := mw_calls w @ [call]\<rparr>))"

definition tree_call :: "'d mm_context \<Rightarrow> method_call" where
  "tree_call ctx = mm_method ctx MM_ROOT_PATH OBJECT_MANAGER_IFACE ''GetManagedObjects'' None [] None"

definition fetchManagedObjects :: "'d mm_context \<Rightarrow> ('d mm_world, managed_objects) io" where
  "fetchManagedObjects ctx w =
     (case mx_tree ctx (mw_device w) of
        (r, d) \<Rightarrow> (case r of Inl e \<Rightarrow> Inl (describeMutationError e) | Inr tree \<Rightarrow> Inr tree,
                   w\<lparr>mw_device := d, mw_calls := mw_calls w @ [tree_call ctx]\<rparr>))"

definition on_device :: "('d \<Rightarrow> (string + 'a) \<times> 'd) \<Rightarrow> ('d mm_world, 'a) io" where
  "on_device f w = (case f (mw_device w) of (r, d) \<Rightarrow> (r, w\<lparr>mw_device := d\<rparr>))"

text \<open>\<open>actor.runQuiesced\<close> around one task, which runs when its turn comes.\<close>

definition runQuiesced :: "'d mm_context \<Rightarrow> string \<Rightarrow> ('d mm_world, 'a) io \<Rightarrow> ('d mm_world, 'a) io" where
  "runQuiesced ctx stableKey task =
     quiesced_task (on_device (mx_acquire ctx stableKey)) (\<lambda>_. on_device (mx_release ctx)) task"

text \<open>A call that answers with a receipt: applied, or failed with the message of the error.\<close>

definition receipt_call ::
  "'d mm_context \<Rightarrow> method_call \<Rightarrow> policy_dimension \<Rightarrow> string \<Rightarrow> string \<Rightarrow> ('d mm_world, receipt) io" where
  "receipt_call ctx call dimension success failing =
     io_catch (io_bind (callMethod ctx call) (\<lambda>_. io_return (receipt_of dimension ReceiptApplied success)))
       (\<lambda>message. io_return (receipt_of dimension ReceiptFailed (failing @ '' failed: '' @ message)))"

section \<open>Radio modes\<close>

fun MODE_BIT :: "radio_tech \<Rightarrow> int" where
  "MODE_BIT Gsm = 2"
| "MODE_BIT Umts = 4"
| "MODE_BIT Lte = 8"
| "MODE_BIT Nr5g = 16"

text \<open>The bits of a set: the order of the members does not matter to a bitwise or.\<close>

definition maskOf :: "radio_tech set \<Rightarrow> int" where
  "maskOf rats = fold (\<lambda>rat msk. if rat \<in> rats then js_or msk (MODE_BIT rat) else msk) [Gsm, Umts, Lte, Nr5g] 0"

definition setModeMasks :: "'d mm_context \<Rightarrow> string \<Rightarrow> int \<Rightarrow> int \<Rightarrow> string \<Rightarrow> ('d mm_world, receipt) io" where
  "setModeMasks ctx modem allowed preferred success =
     runQuiesced ctx (mx_stableKey ctx modem)
       (receipt_call ctx (mm_method ctx modem MODEM_IFACE ''SetCurrentModes'' (Some ''(uu)'')
          [DArr [DNum allowed, DNum preferred]] None) DimRadio success ''SetCurrentModes'')"

definition no_modes :: receipt where
  "no_modes = receipt_of DimRadio ReceiptFailed ''no radio modes were requested''"

definition setRadioModes :: "'d mm_context \<Rightarrow> string \<Rightarrow> desired_radio \<Rightarrow> ('d mm_world, receipt) io" where
  "setRadioModes ctx modem preference =
     (let allowed = maskOf (case dr_allowedSet preference of Some s \<Rightarrow> s | None \<Rightarrow> set (dr_preferenceOrdered preference));
          preferredMask = (case dr_preferenceOrdered preference of p # _ \<Rightarrow> MODE_BIT p | [] \<Rightarrow> 0)
      in if allowed = 0 then io_return no_modes
         else setModeMasks ctx modem allowed preferredMask ''radio mode preference applied'')"

definition setModeCombination :: "'d mm_context \<Rightarrow> string \<Rightarrow> int \<Rightarrow> int \<Rightarrow> ('d mm_world, receipt) io" where
  "setModeCombination ctx modem allowed preferred =
     (if allowed = 0 then io_return no_modes
      else setModeMasks ctx modem allowed preferred ''radio mode combination applied'')"

section \<open>Bands\<close>

definition readBands :: "'d mm_context \<Rightarrow> string \<Rightarrow> ('d mm_world, string + modem_bands) io" where
  "readBands ctx modem =
     io_catch
       (io_bind (fetchManagedObjects ctx) (\<lambda>tree.
          case findInterface tree modem MODEM_IFACE of
            None \<Rightarrow> io_return (Inl ''the modem exports no Modem interface'')
          | Some props \<Rightarrow> io_return (Inr
              \<lparr>mb_supported = decodeBandList (propValue (Some props) ''SupportedBands''),
               mb_current = decodeBandList (propValue (Some props) ''CurrentBands'')\<rparr>)))
       (\<lambda>message. io_return (Inl (''reading bands failed: '' @ message)))"

definition setCurrentBands :: "'d mm_context \<Rightarrow> string \<Rightarrow> string list \<Rightarrow> ('d mm_world, receipt) io" where
  "setCurrentBands ctx modem bands =
     (if bands = [] then io_return (receipt_of DimBand ReceiptFailed ''no bands were requested'')
      else case encodeBandList bands of
        Inl unknown \<Rightarrow> io_return (receipt_of DimBand ReceiptUnsupported
          (''this build does not know the band '' @ [QUOTE] @ unknown @ [QUOTE]))
      | Inr values \<Rightarrow>
          runQuiesced ctx (mx_stableKey ctx modem)
            (receipt_call ctx (mm_method ctx modem MODEM_IFACE ''SetCurrentBands'' (Some ''au'') [DArr (map DNum values)] None)
               DimBand
               (if isResetSelection bands then ''band lock released'' else ''bands set to '' @ js_join '', '' bands)
               ''SetCurrentBands''))"

section \<open>SIM slots\<close>

definition readSlotCount :: "'d mm_context \<Rightarrow> string \<Rightarrow> ('d mm_world, nat option) io" where
  "readSlotCount ctx modem =
     io_catch
       (io_bind (fetchManagedObjects ctx) (\<lambda>tree.
          io_return (case propValue (findInterface tree modem MODEM_IFACE) ''SimSlots'' of
            Some (DArr slots) \<Rightarrow> Some (length slots) | _ \<Rightarrow> None)))
       (\<lambda>_. io_return None)"

definition setPrimarySimSlot :: "'d mm_context \<Rightarrow> string \<Rightarrow> int \<Rightarrow> ('d mm_world, receipt) io" where
  "setPrimarySimSlot ctx modem slotIndex =
     io_bind (readSlotCount ctx modem) (\<lambda>slots.
       case slots of
         None \<Rightarrow> io_return (receipt_of DimSimSlot ReceiptFailed ''could not read the modem SIM-slot list'')
       | Some n \<Rightarrow>
           if n \<le> 1 then io_return (receipt_of DimSimSlot ReceiptUnsupported ''single-slot modem has no primary slot to select'')
           else if slotIndex < 1 \<or> slotIndex > int n
           then io_return (receipt_of DimSimSlot ReceiptFailed
                  (''slot '' @ show_int slotIndex @ '' is out of range (1..'' @ show_nat n @ '')''))
           else runQuiesced ctx (mx_stableKey ctx modem)
                  (receipt_call ctx (mm_method ctx modem MODEM_IFACE ''SetPrimarySimSlot'' (Some ''u'') [DNum slotIndex] None)
                     DimSimSlot (''primary SIM slot set to '' @ show_int slotIndex) ''SetPrimarySimSlot''))"

section \<open>SIM unlock\<close>

definition LOCK_SIM_PIN :: int where "LOCK_SIM_PIN = 2"
definition LOCK_SIM_PUK :: int where "LOCK_SIM_PUK = 4"
definition LOCK_SIM_PUK2 :: int where "LOCK_SIM_PUK2 = 5"

record lock_state =
  lk_required :: int
  lk_retries :: "(int \<times> int) list"

text \<open>\<open>retries.set\<close> for every pair, in order.\<close>

fun retry_pairs :: "dbus_value list \<Rightarrow> (int \<times> int) list \<Rightarrow> (int \<times> int) list" where
  "retry_pairs [] m = m"
| "retry_pairs (DArr (DNum k # DNum v # _) # entries) m = retry_pairs entries (AList.update k v m)"
| "retry_pairs (_ # entries) m = retry_pairs entries m"

definition readLockState :: "managed_objects \<Rightarrow> string \<Rightarrow> lock_state option" where
  "readLockState tree modemPath =
     (case findInterface tree modemPath MODEM_IFACE of
        None \<Rightarrow> None
      | Some modem \<Rightarrow> Some
          \<lparr>lk_required = (case numberProp (Some modem) ''UnlockRequired'' of Some n \<Rightarrow> n | None \<Rightarrow> 0),
           lk_retries = (case propValue (Some modem) ''UnlockRetries'' of Some (DArr raw) \<Rightarrow> retry_pairs raw [] | _ \<Rightarrow> [])\<rparr>)"

definition activeSimPath :: "managed_objects \<Rightarrow> string \<Rightarrow> string option" where
  "activeSimPath tree modemPath =
     (case stringProp (findInterface tree modemPath MODEM_IFACE) ''Sim'' of
        Some path \<Rightarrow> if prefix ''/'' path \<and> path \<noteq> ''/'' then Some path else None
      | None \<Rightarrow> None)"

definition isPukLock :: "int \<Rightarrow> bool" where
  "isPukLock lock \<longleftrightarrow> lock = LOCK_SIM_PUK \<or> lock = LOCK_SIM_PUK2"

datatype pin_outcome = PinUnlocked | IncorrectPin | SimPukRequired | PinUnsupported | PinError
datatype puk_outcome = PukUnlocked | IncorrectPuk | PermanentlyBlocked | PukUnsupported | PukError

record 'o unlock_result =
  ur_outcome :: 'o
  ur_remainingAttempts :: "int option"
  ur_reason :: string

definition unlock_answer :: "'o \<Rightarrow> int option \<Rightarrow> string \<Rightarrow> 'o unlock_result" where
  "unlock_answer outcome remaining reason =
     \<lparr>ur_outcome = outcome, ur_remainingAttempts = remaining, ur_reason = reason\<rparr>"

definition classifyPinFailure :: "'d mm_context \<Rightarrow> string \<Rightarrow> ('d mm_world, pin_outcome unlock_result) io" where
  "classifyPinFailure ctx modemPath =
     io_bind (fetchManagedObjects ctx) (\<lambda>tree.
       let st = readLockState tree modemPath in
       if (case st of Some s \<Rightarrow> isPukLock (lk_required s) | None \<Rightarrow> False)
       then io_return (unlock_answer SimPukRequired None ''wrong PIN tripped the SIM into a PUK lock'')
       else io_return (unlock_answer IncorrectPin
              (Option.bind st (\<lambda>s. map_of (lk_retries s) LOCK_SIM_PIN)) ''PIN was rejected''))"

definition pin_call :: "'d mm_context \<Rightarrow> string \<Rightarrow> string \<Rightarrow> method_call" where
  "pin_call ctx simPath pin = mm_method ctx simPath SIM_IFACE ''SendPin'' (Some ''s'') [DStr pin] None"

text \<open>\<open>sendSimPin\<close> after the lock state was read.\<close>

definition submit_pin ::
  "'d mm_context \<Rightarrow> string \<Rightarrow> string \<Rightarrow> managed_objects \<Rightarrow> ('d mm_world, pin_outcome unlock_result) io" where
  "submit_pin ctx modemPath pin tree =
     (case readLockState tree modemPath of
        None \<Rightarrow> io_return (unlock_answer PinError None ''modem not found while reading lock state'')
      | Some st \<Rightarrow>
          if isPukLock (lk_required st)
          then io_return (unlock_answer SimPukRequired None ''SIM is PUK-locked; a PIN cannot clear it'')
          else if lk_required st \<noteq> LOCK_SIM_PIN
          then io_return (unlock_answer PinUnlocked None ''no SIM PIN is pending'')
          else case activeSimPath tree modemPath of
            None \<Rightarrow> io_return (unlock_answer PinError None ''no active SIM object to submit the PIN to'')
          | Some simPath \<Rightarrow>
              io_catch (io_bind (callMethod ctx (pin_call ctx simPath pin))
                          (\<lambda>_. io_return (unlock_answer PinUnlocked None ''PIN accepted'')))
                (\<lambda>_. classifyPinFailure ctx modemPath))"

definition sendSimPin :: "'d mm_context \<Rightarrow> string \<Rightarrow> string \<Rightarrow> ('d mm_world, pin_outcome unlock_result) io" where
  "sendSimPin ctx modemPath pin =
     io_bind (io_catch (io_bind (fetchManagedObjects ctx) (\<lambda>tree. io_return (Some tree))) (\<lambda>_. io_return None))
       (\<lambda>read. case read of
          None \<Rightarrow> io_return (unlock_answer PinError None ''could not read modem lock state before PIN submit'')
        | Some tree \<Rightarrow> submit_pin ctx modemPath pin tree)"

definition classifyPukFailure :: "'d mm_context \<Rightarrow> string \<Rightarrow> int \<Rightarrow> ('d mm_world, puk_outcome unlock_result) io" where
  "classifyPukFailure ctx modemPath pukKind =
     io_bind (fetchManagedObjects ctx) (\<lambda>tree.
       let remaining = Option.bind (readLockState tree modemPath) (\<lambda>s. map_of (lk_retries s) pukKind) in
       if remaining = Some 0
       then io_return (unlock_answer PermanentlyBlocked (Some 0) ''PUK attempts exhausted; SIM is permanently locked'')
       else io_return (unlock_answer IncorrectPuk remaining ''PUK was rejected''))"

definition puk_call :: "'d mm_context \<Rightarrow> string \<Rightarrow> string \<Rightarrow> string \<Rightarrow> method_call" where
  "puk_call ctx simPath puk newPin = mm_method ctx simPath SIM_IFACE ''SendPuk'' (Some ''ss'') [DStr puk, DStr newPin] None"

definition submit_puk ::
  "'d mm_context \<Rightarrow> string \<Rightarrow> string \<Rightarrow> string \<Rightarrow> managed_objects \<Rightarrow> ('d mm_world, puk_outcome unlock_result) io" where
  "submit_puk ctx modemPath puk newPin tree =
     (case readLockState tree modemPath of
        None \<Rightarrow> io_return (unlock_answer PukError None ''modem not found while reading lock state'')
      | Some st \<Rightarrow>
          if \<not> isPukLock (lk_required st)
          then io_return (unlock_answer PukUnlocked None ''no SIM PUK is pending'')
          else case activeSimPath tree modemPath of
            None \<Rightarrow> io_return (unlock_answer PukError None ''no active SIM object to submit the PUK to'')
          | Some simPath \<Rightarrow>
              io_catch (io_bind (callMethod ctx (puk_call ctx simPath puk newPin))
                          (\<lambda>_. io_return (unlock_answer PukUnlocked None ''PUK accepted; new PIN set'')))
                (\<lambda>_. classifyPukFailure ctx modemPath (lk_required st)))"

definition sendSimPuk ::
  "'d mm_context \<Rightarrow> string \<Rightarrow> string \<Rightarrow> string \<Rightarrow> ('d mm_world, puk_outcome unlock_result) io" where
  "sendSimPuk ctx modemPath puk newPin =
     io_bind (io_catch (io_bind (fetchManagedObjects ctx) (\<lambda>tree. io_return (Some tree))) (\<lambda>_. io_return None))
       (\<lambda>read. case read of
          None \<Rightarrow> io_return (unlock_answer PukError None ''could not read modem lock state before PUK submit'')
        | Some tree \<Rightarrow> submit_puk ctx modemPath puk newPin tree)"

section \<open>Scan and inhibition\<close>

datatype scan_availability = ScanUnknown | ScanAvailable | ScanCurrent | ScanForbidden

record scanned_network =
  nw_operatorCode :: string
  nw_operatorName :: "string option"
  nw_availability :: scan_availability

definition AVAILABILITY :: "(int \<times> scan_availability) list" where
  "AVAILABILITY = [(0, ScanUnknown), (1, ScanAvailable), (2, ScanCurrent), (3, ScanForbidden)]"

text \<open>One entry \<open>a{sv}\<close> of the reply, as the property list of the walkers.\<close>

fun scan_prop :: "dbus_value \<Rightarrow> string \<times> dbus_variant" where
  "scan_prop (DArr [DStr k, DVariant sig v]) = (k, \<lparr>v_signature = sig, v_value = v\<rparr>)"
| "scan_prop _ = ([], \<lparr>v_signature = [], v_value = DBool False\<rparr>)"

fun entry_props :: "dbus_value \<Rightarrow> decoded_props" where
  "entry_props (DArr es) = map scan_prop es"
| "entry_props _ = []"

definition scan_entry :: "decoded_props \<Rightarrow> scanned_network option" where
  "scan_entry entry =
     (case stringProp (Some entry) ''operator-code'' of
        None \<Rightarrow> None
      | Some operatorCode \<Rightarrow> Some
          \<lparr>nw_operatorCode = operatorCode,
           nw_operatorName = (case stringProp (Some entry) ''operator-long'' of
             Some name \<Rightarrow> Some name | None \<Rightarrow> stringProp (Some entry) ''operator-short''),
           nw_availability = (case map_of AVAILABILITY
               (case numberProp (Some entry) ''status'' of Some n \<Rightarrow> n | None \<Rightarrow> 0) of
             Some a \<Rightarrow> a | None \<Rightarrow> ScanUnknown)\<rparr>)"

definition parseScan :: "dbus_value option \<Rightarrow> scanned_network list" where
  "parseScan value =
     (case value of Some (DArr entries) \<Rightarrow> List.map_filter (\<lambda>e. scan_entry (entry_props e)) entries | _ \<Rightarrow> [])"

definition scanNetworks :: "'d mm_context \<Rightarrow> string \<Rightarrow> ('d mm_world, string + scanned_network list) io" where
  "scanNetworks ctx modem =
     io_catch
       (io_bind (callMethod ctx (mm_method ctx modem MODEM3GPP_IFACE ''Scan'' None [] (Some (mx_scanTimeoutMs ctx))))
          (\<lambda>body. io_return (Inr (parseScan (case body of v # _ \<Rightarrow> Some v | [] \<Rightarrow> None)))))
       (\<lambda>message. io_return (Inl (''network scan failed: '' @ message)))"

record inhibit_lease =
  il_uid :: string
  il_acquiredAt :: int

definition setInhibited :: "'d mm_context \<Rightarrow> string \<Rightarrow> bool \<Rightarrow> ('d mm_world, dbus_value list) io" where
  "setInhibited ctx uid inhibit =
     callMethod ctx (mm_method ctx MM_ROOT_PATH MM_MANAGER_IFACE ''InhibitDevice'' (Some ''sb'') [DStr uid, DBool inhibit] None)"

definition inhibitDevice :: "'d mm_context \<Rightarrow> string \<Rightarrow> int \<Rightarrow> ('d mm_world, inhibit_lease) io" where
  "inhibitDevice ctx uid now =
     io_bind (setInhibited ctx uid True) (\<lambda>_.
       case epochMillis now of
         Inl _ \<Rightarrow> io_throw (''epochMillis must be a non-negative safe integer, got '' @ show_int now)
       | Inr acquired \<Rightarrow> io_return \<lparr>il_uid = uid, il_acquiredAt = acquired\<rparr>)"

definition uninhibitDevice :: "'d mm_context \<Rightarrow> inhibit_lease \<Rightarrow> ('d mm_world, unit) io" where
  "uninhibitDevice ctx lease = io_bind (setInhibited ctx (il_uid lease) False) (\<lambda>_. io_return ())"

section \<open>The calls of a command\<close>

text \<open>The log of calls of the device's world, with the combinators of \<open>Call_Log\<close>.\<close>

abbreviation emits :: "(method_call list \<Rightarrow> bool) \<Rightarrow> ('d mm_world, 'a) io \<Rightarrow> bool" where
  "emits \<equiv> emits_by mw_calls"

lemma emits_call [emits_intros]: "ok c \<Longrightarrow> emits (upto_calls (Suc 0) ok wr) (callMethod ctx c)"
  by (auto simp: emits_by_def callMethod_def upto_calls_def split: prod.splits)

lemma emits_read_call: "ok c \<Longrightarrow> \<not> wr c \<Longrightarrow> emits (upto_calls 0 ok wr) (callMethod ctx c)"
  by (auto simp: emits_by_def callMethod_def upto_calls_def split: prod.splits)

lemma emits_fetch: "ok (tree_call ctx) \<Longrightarrow> \<not> wr (tree_call ctx) \<Longrightarrow> emits (upto_calls 0 ok wr) (fetchManagedObjects ctx)"
  by (auto simp: emits_by_def fetchManagedObjects_def upto_calls_def split: prod.splits)

lemma emits_device: "emits (upto_calls 0 ok wr) (on_device f)"
  by (auto simp: emits_by_def on_device_def upto_calls_def split: prod.splits)

lemma emits_quiesced:
  assumes "emits (upto_calls n ok wr) task"
  shows "emits (upto_calls n ok wr) (runQuiesced ctx key task)"
  using emits_bind [OF emits_device emits_finally [OF assms emits_device]]
  by (simp add: runQuiesced_def quiesced_task_def)

lemma emits_receipt:
  assumes "ok c"
  shows "emits (upto_calls (Suc 0) ok wr) (receipt_call ctx c dimension success failing)"
proof -
  have "emits (upto_calls (Suc 0 + 0 + 0) ok wr) (receipt_call ctx c dimension success failing)"
    unfolding receipt_call_def by (intro emits_catch emits_bind emits_call emits_return assms)
  then show ?thesis by simp
qed

datatype mm_command =
    CmdRadioModes desired_radio
  | CmdModeCombination int int
  | CmdReadBands
  | CmdSetBands "string list"
  | CmdSimSlot int
  | CmdPin string
  | CmdPuk string string
  | CmdScan
  | CmdInhibit string int
  | CmdUninhibit inhibit_lease

definition settle :: "('d mm_world, 'a) io \<Rightarrow> ('d mm_world, unit) io" where
  "settle m = io_bind m (\<lambda>_. io_return ())"

text \<open>The class \<open>MmMutations\<close>: one method per command.\<close>

fun run_mutation :: "'d mm_context \<Rightarrow> string \<Rightarrow> mm_command \<Rightarrow> ('d mm_world, unit) io" where
  "run_mutation ctx modem (CmdRadioModes preference) = settle (setRadioModes ctx modem preference)"
| "run_mutation ctx modem (CmdModeCombination allowed preferred) = settle (setModeCombination ctx modem allowed preferred)"
| "run_mutation ctx modem CmdReadBands = settle (readBands ctx modem)"
| "run_mutation ctx modem (CmdSetBands bands) = settle (setCurrentBands ctx modem bands)"
| "run_mutation ctx modem (CmdSimSlot slot) = settle (setPrimarySimSlot ctx modem slot)"
| "run_mutation ctx modem (CmdPin pin) = settle (sendSimPin ctx modem pin)"
| "run_mutation ctx modem (CmdPuk puk newPin) = settle (sendSimPuk ctx modem puk newPin)"
| "run_mutation ctx modem CmdScan = settle (scanNetworks ctx modem)"
| "run_mutation ctx modem (CmdInhibit uid now) = settle (inhibitDevice ctx uid now)"
| "run_mutation ctx modem (CmdUninhibit lease) = settle (uninhibitDevice ctx lease)"

text \<open>The interfaces and members a command may dial: none of them connects a bearer.\<close>

definition MM_COMMAND_SURFACE :: "(string \<times> string) list" where
  "MM_COMMAND_SURFACE =
     [(OBJECT_MANAGER_IFACE, ''GetManagedObjects''), (MODEM_IFACE, ''SetCurrentModes''), (MODEM_IFACE, ''SetCurrentBands''),
      (MODEM_IFACE, ''SetPrimarySimSlot''), (SIM_IFACE, ''SendPin''), (SIM_IFACE, ''SendPuk''), (MODEM3GPP_IFACE, ''Scan''),
      (MM_MANAGER_IFACE, ''InhibitDevice'')]"

text \<open>The one call of its own a command may make, besides reading the tree.\<close>

fun own_call :: "'d mm_context \<Rightarrow> string \<Rightarrow> mm_command \<Rightarrow> method_call \<Rightarrow> bool" where
  "own_call ctx modem (CmdRadioModes preference) c \<longleftrightarrow>
     (\<exists>allowed preferred. allowed \<noteq> 0 \<and>
        allowed = maskOf (case dr_allowedSet preference of Some s \<Rightarrow> s | None \<Rightarrow> set (dr_preferenceOrdered preference)) \<and>
        c = mm_method ctx modem MODEM_IFACE ''SetCurrentModes'' (Some ''(uu)'') [DArr [DNum allowed, DNum preferred]] None)"
| "own_call ctx modem (CmdModeCombination allowed preferred) c \<longleftrightarrow>
     allowed \<noteq> 0 \<and> c = mm_method ctx modem MODEM_IFACE ''SetCurrentModes'' (Some ''(uu)'') [DArr [DNum allowed, DNum preferred]] None"
| "own_call ctx modem CmdReadBands c \<longleftrightarrow> False"
| "own_call ctx modem (CmdSetBands bands) c \<longleftrightarrow>
     (\<exists>values. encodeBandList bands = Inr values \<and> values \<noteq> [] \<and>
        c = mm_method ctx modem MODEM_IFACE ''SetCurrentBands'' (Some ''au'') [DArr (map DNum values)] None)"
| "own_call ctx modem (CmdSimSlot slot) c \<longleftrightarrow>
     1 \<le> slot \<and> c = mm_method ctx modem MODEM_IFACE ''SetPrimarySimSlot'' (Some ''u'') [DNum slot] None"
| "own_call ctx modem (CmdPin pin) c \<longleftrightarrow> (\<exists>sim. c = pin_call ctx sim pin)"
| "own_call ctx modem (CmdPuk puk newPin) c \<longleftrightarrow> (\<exists>sim. c = puk_call ctx sim puk newPin)"
| "own_call ctx modem CmdScan c \<longleftrightarrow> c = mm_method ctx modem MODEM3GPP_IFACE ''Scan'' None [] (Some (mx_scanTimeoutMs ctx))"
| "own_call ctx modem (CmdInhibit uid now) c \<longleftrightarrow>
     c = mm_method ctx MM_ROOT_PATH MM_MANAGER_IFACE ''InhibitDevice'' (Some ''sb'') [DStr uid, DBool True] None"
| "own_call ctx modem (CmdUninhibit lease) c \<longleftrightarrow>
     c = mm_method ctx MM_ROOT_PATH MM_MANAGER_IFACE ''InhibitDevice'' (Some ''sb'') [DStr (il_uid lease), DBool False] None"

definition command_call :: "'d mm_context \<Rightarrow> string \<Rightarrow> mm_command \<Rightarrow> method_call \<Rightarrow> bool" where
  "command_call ctx modem cmd c \<longleftrightarrow> c = tree_call ctx \<or> own_call ctx modem cmd c"

lemma surface_members:
  "(MODEM_IFACE, ''SetCurrentModes'') \<in> set (tl MM_COMMAND_SURFACE)" "(MODEM_IFACE, ''SetCurrentBands'') \<in> set (tl MM_COMMAND_SURFACE)"
  "(MODEM_IFACE, ''SetPrimarySimSlot'') \<in> set (tl MM_COMMAND_SURFACE)" "(SIM_IFACE, ''SendPin'') \<in> set (tl MM_COMMAND_SURFACE)"
  "(SIM_IFACE, ''SendPuk'') \<in> set (tl MM_COMMAND_SURFACE)" "(MODEM3GPP_IFACE, ''Scan'') \<in> set (tl MM_COMMAND_SURFACE)"
  "(MM_MANAGER_IFACE, ''InhibitDevice'') \<in> set (tl MM_COMMAND_SURFACE)"
  by (simp_all add: MM_COMMAND_SURFACE_def)

lemma own_call_member: "own_call ctx modem cmd c \<Longrightarrow> (me_interface c, me_member c) \<in> set (tl MM_COMMAND_SURFACE)"
  by (cases cmd) (auto simp: mm_method_def pin_call_def puk_call_def surface_members)

lemma own_call_surface:
  assumes "own_call ctx modem cmd c"
  shows "(me_interface c, me_member c) \<in> set MM_COMMAND_SURFACE \<and> c \<noteq> tree_call ctx"
proof -
  have "list_all (\<lambda>s. snd s \<noteq> ''GetManagedObjects'') (tl MM_COMMAND_SURFACE)" by code_simp
  then have "me_member c \<noteq> ''GetManagedObjects''" using own_call_member [OF assms] by (auto simp: list_all_iff)
  moreover have "me_member (tree_call ctx) = ''GetManagedObjects''" by (simp add: tree_call_def mm_method_def)
  moreover have "set (tl MM_COMMAND_SURFACE) \<subseteq> set MM_COMMAND_SURFACE" by (simp add: MM_COMMAND_SURFACE_def)
  ultimately show ?thesis using own_call_member [OF assms] by auto
qed

lemma command_call_surface:
  assumes "command_call ctx modem cmd c"
  shows "(me_interface c, me_member c) \<in> set MM_COMMAND_SURFACE"
proof (cases "own_call ctx modem cmd c")
  case False
  with assms show ?thesis by (simp add: command_call_def tree_call_def mm_method_def MM_COMMAND_SURFACE_def)
qed (simp add: own_call_surface)

lemma encodeBandList_Nil: "encodeBandList names = Inr [] \<longleftrightarrow> names = []"
  by (cases names) (auto simp: sum_bind_Inr split: option.splits)

text \<open>A read of the tree, guarded or not, and a return make no call of the command's own.\<close>

lemma emits_read:
  "emits (upto_calls 0 (command_call ctx modem cmd) (own_call ctx modem cmd)) (fetchManagedObjects ctx)"
  using own_call_surface [of ctx modem cmd "tree_call ctx"] by (intro emits_fetch) (auto simp: command_call_def)

lemma emits_own:
  "own_call ctx modem cmd c \<Longrightarrow> emits (upto_calls (Suc 0) (command_call ctx modem cmd) (own_call ctx modem cmd)) (callMethod ctx c)"
  by (rule emits_call) (simp add: command_call_def)

lemma emits_own_receipt:
  "own_call ctx modem cmd c \<Longrightarrow> emits (upto_calls (Suc 0) (command_call ctx modem cmd) (own_call ctx modem cmd))
     (runQuiesced ctx key (receipt_call ctx c dimension success failing))"
  by (intro emits_quiesced emits_receipt) (simp add: command_call_def)

lemmas emits_rules = emits_return emits_throw emits_read emits_own emits_own_receipt

lemma settle_emits: "emits (upto_calls (Suc 0) ok wr) m \<Longrightarrow> emits (upto_calls (Suc 0) ok wr) (settle m)"
  unfolding settle_def by (intro emits_bind1 emits_return)

lemma emits_pin: "emits (upto_calls (Suc 0) (command_call ctx modem (CmdPin pin)) (own_call ctx modem (CmdPin pin))) (sendSimPin ctx modem pin)"
proof -
  let ?e = "emits (upto_calls (Suc 0) (command_call ctx modem (CmdPin pin)) (own_call ctx modem (CmdPin pin)))"
  have c: "emits (upto_calls 0 (command_call ctx modem (CmdPin pin)) (own_call ctx modem (CmdPin pin))) (classifyPinFailure ctx modem)"
    unfolding classifyPinFailure_def Let_def by (intro emits_bind0 emits_read) (simp add: emits_return)
  have "?e (io_catch (io_bind (callMethod ctx (pin_call ctx sim pin)) (\<lambda>_. io_return (unlock_answer PinUnlocked None ''PIN accepted'')))
      (\<lambda>_. classifyPinFailure ctx modem))" for sim
    by (intro emits_catch0 emits_bind1 emits_own emits_return c) auto
  then have "?e (submit_pin ctx modem pin tree)" for tree
    unfolding submit_pin_def by (auto simp: emits_return split: option.split)
  then show ?thesis
    unfolding sendSimPin_def by (intro emits_bind0 emits_catch0 emits_read emits_return) (simp add: emits_return split: option.split)
qed

lemma emits_puk:
  "emits (upto_calls (Suc 0) (command_call ctx modem (CmdPuk puk newPin)) (own_call ctx modem (CmdPuk puk newPin))) (sendSimPuk ctx modem puk newPin)"
proof -
  let ?cmd = "CmdPuk puk newPin"
  let ?e = "emits (upto_calls (Suc 0) (command_call ctx modem ?cmd) (own_call ctx modem ?cmd))"
  have c: "emits (upto_calls 0 (command_call ctx modem ?cmd) (own_call ctx modem ?cmd)) (classifyPukFailure ctx modem k)" for k
    unfolding classifyPukFailure_def Let_def by (intro emits_bind0 emits_read) (simp add: emits_return)
  have "?e (io_catch (io_bind (callMethod ctx (puk_call ctx sim puk newPin))
      (\<lambda>_. io_return (unlock_answer PukUnlocked None ''PUK accepted; new PIN set''))) (\<lambda>_. classifyPukFailure ctx modem k))" for sim k
    by (intro emits_catch0 emits_bind1 emits_own emits_return c) auto
  then have "?e (submit_puk ctx modem puk newPin tree)" for tree
    unfolding submit_puk_def by (auto simp: emits_return split: option.split)
  then show ?thesis
    unfolding sendSimPuk_def by (intro emits_bind0 emits_catch0 emits_read emits_return) (simp add: emits_return split: option.split)
qed

lemma emits_slot: "emits (upto_calls (Suc 0) (command_call ctx modem (CmdSimSlot slot)) (own_call ctx modem (CmdSimSlot slot))) (setPrimarySimSlot ctx modem slot)"
  unfolding setPrimarySimSlot_def readSlotCount_def
  by (intro emits_bind0 emits_catch0 emits_read emits_return) (auto split: option.split intro!: emits_rules)

lemma command_emits:
  "emits (upto_calls (Suc 0) (command_call ctx modem cmd) (own_call ctx modem cmd)) (run_mutation ctx modem cmd)"
proof (cases cmd)
  case (CmdRadioModes p)
  then show ?thesis
    by (auto simp: setRadioModes_def setModeMasks_def Let_def intro!: settle_emits emits_rules)
next
  case (CmdModeCombination a b)
  then show ?thesis by (auto simp: setModeCombination_def setModeMasks_def intro!: settle_emits emits_rules)
next
  case CmdReadBands
  then show ?thesis
    by (auto simp: readBands_def split: option.split intro!: settle_emits emits_catch0 emits_bind0 emits_rules)
next
  case (CmdSetBands bands)
  then show ?thesis
    by (auto simp: setCurrentBands_def split: sum.split intro!: settle_emits emits_rules simp: encodeBandList_Nil)
next
  case (CmdSimSlot slot)
  then show ?thesis using emits_slot by (auto intro!: settle_emits)
next
  case (CmdPin pin)
  then show ?thesis using emits_pin by (auto intro!: settle_emits)
next
  case (CmdPuk puk newPin)
  then show ?thesis using emits_puk by (auto intro!: settle_emits)
next
  case CmdScan
  then show ?thesis by (auto simp: scanNetworks_def intro!: settle_emits emits_catch0 emits_bind1 emits_rules)
next
  case (CmdInhibit uid now)
  then show ?thesis
    by (auto simp: inhibitDevice_def setInhibited_def split: sum.split intro!: settle_emits emits_bind1 emits_rules)
next
  case (CmdUninhibit lease)
  then show ?thesis by (auto simp: uninhibitDevice_def setInhibited_def intro!: settle_emits emits_bind1 emits_rules)
qed

section \<open>Properties\<close>

text \<open>Whatever the device answers, a command of the ModemManager backend makes only calls of a fixed list of eight, none of which connects or creates a bearer, all to the configured bus name; besides reading the managed objects it makes at most one call, and that is its own: the modes, bands, slot, PIN, PUK or lease it was given, unchanged.\<close>

theorem mm_commands_stay_on_surface:
  "\<exists>cs. mw_calls (snd (run_mutation ctx modem cmd w)) = mw_calls w @ cs \<and>
     list_all (command_call ctx modem cmd) cs \<and> length (filter (own_call ctx modem cmd) cs) \<le> 1 \<and>
     list_all (\<lambda>c. (me_interface c, me_member c) \<in> set MM_COMMAND_SURFACE \<and> me_destination c = mx_destination ctx) cs"
proof -
  obtain cs where cs: "mw_calls (snd (run_mutation ctx modem cmd w)) = mw_calls w @ cs"
      "upto_calls (Suc 0) (command_call ctx modem cmd) (own_call ctx modem cmd) cs"
    using command_emits by (metis emits_by_def)
  have "me_destination c = mx_destination ctx" if "command_call ctx modem cmd c" for c
    using that by (cases cmd) (auto simp: command_call_def tree_call_def pin_call_def puk_call_def mm_method_def)
  with cs show ?thesis using command_call_surface [of ctx modem cmd] by (auto simp: upto_calls_def list_all_iff)
qed

definition PIN_REASONS :: "string list" where
  "PIN_REASONS =
     [''could not read modem lock state before PIN submit'', ''modem not found while reading lock state'',
      ''SIM is PUK-locked; a PIN cannot clear it'', ''no SIM PIN is pending'', ''no active SIM object to submit the PIN to'',
      ''PIN accepted'', ''wrong PIN tripped the SIM into a PUK lock'', ''PIN was rejected'']"

text \<open>What the device says when the tree is read, and what it says of a call.\<close>

definition tree_of :: "'d mm_context \<Rightarrow> 'd \<Rightarrow> managed_objects option" where
  "tree_of ctx d = (case fst (mx_tree ctx d) of Inl _ \<Rightarrow> None | Inr tree \<Rightarrow> Some tree)"

definition pin_pending :: "'d mm_context \<Rightarrow> string \<Rightarrow> 'd \<Rightarrow> string option" where
  "pin_pending ctx modem d =
     (case tree_of ctx d of None \<Rightarrow> None
      | Some tree \<Rightarrow>
          (case readLockState tree modem of None \<Rightarrow> None
           | Some st \<Rightarrow> if lk_required st = LOCK_SIM_PIN then activeSimPath tree modem else None))"

lemma PIN_REASONS_literals:
  "''could not read modem lock state before PIN submit'' \<in> set PIN_REASONS" "''modem not found while reading lock state'' \<in> set PIN_REASONS"
  "''SIM is PUK-locked; a PIN cannot clear it'' \<in> set PIN_REASONS" "''no SIM PIN is pending'' \<in> set PIN_REASONS"
  "''no active SIM object to submit the PIN to'' \<in> set PIN_REASONS" "''PIN accepted'' \<in> set PIN_REASONS"
  "''wrong PIN tripped the SIM into a PUK lock'' \<in> set PIN_REASONS" "''PIN was rejected'' \<in> set PIN_REASONS"
  by (simp_all add: PIN_REASONS_def)

lemma classifyPinFailure_run:
  "classifyPinFailure ctx modem w = (r, w') \<Longrightarrow>
     mw_calls w' = mw_calls w @ [tree_call ctx] \<and>
     (case r of Inl _ \<Rightarrow> tree_of ctx (mw_device w) = None
      | Inr u \<Rightarrow> ur_outcome u \<in> {IncorrectPin, SimPukRequired} \<and> ur_reason u \<in> set PIN_REASONS \<and>
          (ur_outcome u = IncorrectPin \<longrightarrow> ur_remainingAttempts u =
             Option.bind (tree_of ctx (mw_device w)) (\<lambda>t. Option.bind (readLockState t modem) (\<lambda>s. map_of (lk_retries s) LOCK_SIM_PIN))))"
  by (auto simp: classifyPinFailure_def io_bind_def fetchManagedObjects_def io_return_def Let_def unlock_answer_def tree_of_def
      PIN_REASONS_literals split: prod.splits sum.splits if_splits)


text \<open>A re-read that fails after a refused PIN is not an outcome: the promise rejects.\<close>

lemma pin_reread_failure_throws:
  assumes "pin_pending ctx modem (mw_device w) = Some sim"
    and "mx_call ctx (pin_call ctx sim pin) (snd (mx_tree ctx (mw_device w))) = (Inl e, d)"
    and "mx_tree ctx d = (Inl e', d')"
  shows "fst (sendSimPin ctx modem pin w) = Inl (ce_message e')"
proof -
  obtain tree d0 where t: "mx_tree ctx (mw_device w) = (Inr tree, d0)"
    using assms(1) by (cases "mx_tree ctx (mw_device w)"; cases "fst (mx_tree ctx (mw_device w))") (auto simp: pin_pending_def tree_of_def)
  then obtain st where st: "readLockState tree modem = Some st" "lk_required st = LOCK_SIM_PIN" "activeSimPath tree modem = Some sim"
    using assms(1) by (auto simp: pin_pending_def tree_of_def split: option.splits if_splits)
  then show ?thesis
    using assms(2,3) t
    by (simp add: sendSimPin_def submit_pin_def classifyPinFailure_def io_bind_def io_catch_def io_return_def
        fetchManagedObjects_def callMethod_def describeMutationError_def isPukLock_def LOCK_SIM_PIN_def LOCK_SIM_PUK_def LOCK_SIM_PUK2_def)
qed

text \<open>The device is inhibited before the clock is looked at, so a bad clock loses the lease.\<close>

lemma inhibit_then_throw:
  assumes "now < 0" and "mx_call ctx (mm_method ctx MM_ROOT_PATH MM_MANAGER_IFACE ''InhibitDevice'' (Some ''sb'')
      [DStr uid, DBool True] None) (mw_device w) = (Inr body, d)"
  shows "\<exists>e w'. inhibitDevice ctx uid now w = (Inl e, w') \<and> mw_device w' = d"
  using assms by (simp add: inhibitDevice_def setInhibited_def io_bind_def callMethod_def epochMillis_def nonNegativeInteger_def io_throw_def)

end
