(* ===== verification/Signal_Setup.thy ===== *)
theory Signal_Setup
  imports Mm_Enrichment Mm_Mutations
begin

text \<open>
  The manager of \<open>Signal.Setup\<close> (\<open>backend/signal-setup.ts\<close>). A refresh runs to the bus calls it makes,
  which wait for their replies; replies and refreshes come in any order. The log holds each call with the
  epoch that was current when it was made; no handler reads it.
\<close>

definition SIGNAL_IFACE :: string where "SIGNAL_IFACE = ''org.freedesktop.ModemManager1.Modem.Signal''"
definition DEFAULT_SIGNAL_INTERVAL_SECONDS :: int where "DEFAULT_SIGNAL_INTERVAL_SECONDS = 5"

text \<open>\<open>resolveSignalInterval\<close>: \<open>Inl\<close> the RangeError. The rate is a rational, as the check for a whole number needs.\<close>

definition resolveSignalInterval :: "rat option \<Rightarrow> unit + int" where
  "resolveSignalInterval intervalSeconds =
     (case intervalSeconds of
        None \<Rightarrow> Inr DEFAULT_SIGNAL_INTERVAL_SECONDS
      | Some q \<Rightarrow> if of_int \<lfloor>q\<rfloor> \<noteq> q \<or> q \<le> 0 then Inl () else Inr \<lfloor>q\<rfloor>)"

record signal_setup =
  ss_destination :: string
  ss_interval :: int
  ss_currentEpoch :: "string option"
  ss_applied :: "string list"
  ss_cadence :: "(string \<times> signal_cadence) list"
  ss_pending :: "string list"
  ss_calls :: "(string option \<times> method_call) list"

definition new_signal_setup :: "string option \<Rightarrow> rat option \<Rightarrow> unit + signal_setup" where
  "new_signal_setup destination intervalSeconds =
     sum_bind (resolveSignalInterval intervalSeconds) (\<lambda>interval. Inr
       \<lparr>ss_destination = (case destination of Some d \<Rightarrow> d | None \<Rightarrow> MM_BUS_NAME), ss_interval = interval,
        ss_currentEpoch = None, ss_applied = [], ss_cadence = [], ss_pending = [], ss_calls = []\<rparr>)"

definition cadenceFor :: "signal_setup \<Rightarrow> string \<Rightarrow> signal_cadence" where
  "cadenceFor s modemPath = (case map_of (ss_cadence s) modemPath of Some c \<Rightarrow> c | None \<Rightarrow> CadenceUnknown)"

definition set_cadence :: "string \<Rightarrow> signal_cadence \<Rightarrow> signal_setup \<Rightarrow> signal_setup" where
  "set_cadence modemPath c s = s\<lparr>ss_cadence := AList.update modemPath c (ss_cadence s)\<rparr>"

definition setup_call :: "signal_setup \<Rightarrow> string \<Rightarrow> method_call" where
  "setup_call s modemPath =
     \<lparr>me_destination = ss_destination s, me_path = modemPath, me_interface = SIGNAL_IFACE, me_member = ''Setup'',
      me_signature = Some ''u'', me_args = [DNum (ss_interval s)], me_timeoutMs = None\<rparr>"

lemma setup_call_update [simp]:
  "setup_call (s\<lparr>ss_currentEpoch := x\<rparr>) p = setup_call s p" "setup_call (s\<lparr>ss_applied := ks\<rparr>) p = setup_call s p"
  "setup_call (s\<lparr>ss_cadence := c\<rparr>) p = setup_call s p" "setup_call (s\<lparr>ss_pending := ps\<rparr>) p = setup_call s p"
  "setup_call (s\<lparr>ss_calls := cs\<rparr>) p = setup_call s p"
  by (simp_all add: setup_call_def)

text \<open>\<open>#setupOne\<close> up to its \<open>await\<close>.\<close>

definition setupOne :: "string \<Rightarrow> string \<Rightarrow> managed_objects \<Rightarrow> signal_setup \<Rightarrow> signal_setup" where
  "setupOne epoch modemPath tree s =
     (if ss_currentEpoch s \<noteq> Some epoch then s
      else if \<not> hasInterface tree modemPath SIGNAL_IFACE then set_cadence modemPath CadenceUnsupported s
      else s\<lparr>ss_pending := ss_pending s @ [modemPath],
             ss_calls := ss_calls s @ [(ss_currentEpoch s, setup_call s modemPath)]\<rparr>)"

definition setup_key :: "string \<Rightarrow> string \<Rightarrow> string" where
  "setup_key epoch modemPath = epoch @ NUL @ modemPath"

definition apply_one :: "string \<Rightarrow> managed_objects \<Rightarrow> string \<Rightarrow> signal_setup \<Rightarrow> signal_setup" where
  "apply_one epoch tree modemPath s =
     (if setup_key epoch modemPath \<in> set (ss_applied s) then s
      else setupOne epoch modemPath tree (s\<lparr>ss_applied := ss_applied s @ [setup_key epoch modemPath]\<rparr>))"

definition applyForEpoch :: "string \<Rightarrow> managed_objects \<Rightarrow> signal_setup \<Rightarrow> signal_setup" where
  "applyForEpoch epoch tree s =
     fold (apply_one epoch tree) (pathsWithInterface tree MODEM_IFACE) (s\<lparr>ss_currentEpoch := Some epoch\<rparr>)"

text \<open>The rest of \<open>#setupOne\<close>: the reply to the \<open>i\<close>-th waiting call, or its error.\<close>

definition setup_reply :: "nat \<Rightarrow> bool \<Rightarrow> signal_setup \<Rightarrow> signal_setup" where
  "setup_reply i ok s =
     (if i < length (ss_pending s)
      then set_cadence (ss_pending s ! i) (if ok then CadenceActive else CadenceUnsupported)
             (s\<lparr>ss_pending := take i (ss_pending s) @ drop (Suc i) (ss_pending s)\<rparr>)
      else s)"

datatype setup_event = EpochRefresh string managed_objects | SetupReply nat bool

fun setup_step :: "setup_event \<Rightarrow> signal_setup \<Rightarrow> signal_setup" where
  "setup_step (EpochRefresh epoch tree) s = applyForEpoch epoch tree s"
| "setup_step (SetupReply i ok) s = setup_reply i ok s"

definition setup_run :: "setup_event list \<Rightarrow> signal_setup \<Rightarrow> signal_setup" where
  "setup_run evs s = fold setup_step evs s"

section \<open>Lemmas\<close>

text \<open>The modem a logged call drives, and the key under which it was marked.\<close>

definition call_key :: "string option \<times> method_call \<Rightarrow> string" where
  "call_key c = setup_key (case fst c of Some e \<Rightarrow> e | None \<Rightarrow> []) (me_path (snd c))"

definition epoch_text :: "string \<Rightarrow> bool" where "epoch_text e \<longleftrightarrow> CHR 0x00 \<notin> set e"

lemma setup_key_inj: "epoch_text e \<Longrightarrow> epoch_text e' \<Longrightarrow> setup_key e p = setup_key e' p' \<Longrightarrow> e = e' \<and> p = p'"
  using comma_split [of e "CHR 0x00" p e' p'] by (simp add: setup_key_def NUL_def epoch_text_def)

text \<open>Every call of the log was made for a refresh of its epoch that lists the modem with its Signal interface.\<close>

definition driven_by :: "setup_event list \<Rightarrow> signal_setup \<Rightarrow> string option \<times> method_call \<Rightarrow> bool" where
  "driven_by evs s c \<longleftrightarrow>
     list_ex (\<lambda>ev. case ev of
       EpochRefresh e tree \<Rightarrow> fst c = Some e \<and> me_path (snd c) \<in> set (pathsWithInterface tree MODEM_IFACE) \<and>
         hasInterface tree (me_path (snd c)) SIGNAL_IFACE \<and> snd c = setup_call s (me_path (snd c))
     | SetupReply _ _ \<Rightarrow> False) evs"

definition same_rate :: "signal_setup \<Rightarrow> signal_setup \<Rightarrow> bool" where
  "same_rate s s' \<longleftrightarrow> ss_destination s = ss_destination s' \<and> ss_interval s = ss_interval s'"

lemma setup_call_rate: "same_rate s s' \<Longrightarrow> setup_call s p = setup_call s' p"
  by (simp add: same_rate_def setup_call_def)

definition setup_ok :: "setup_event list \<Rightarrow> signal_setup \<Rightarrow> bool" where
  "setup_ok evs s \<longleftrightarrow> list_all (driven_by evs s) (ss_calls s) \<and> distinct (map call_key (ss_calls s)) \<and>
     set (map call_key (ss_calls s)) \<subseteq> set (ss_applied s)"

lemma apply_one_rate [simp]:
  "same_rate (apply_one e tree p s) s" "ss_currentEpoch (apply_one e tree p s) = ss_currentEpoch s"
  by (auto simp: apply_one_def setupOne_def set_cadence_def same_rate_def)

lemma same_rate_trans: "same_rate a b \<Longrightarrow> same_rate b c \<Longrightarrow> same_rate a c"
  by (simp add: same_rate_def)

lemma driven_by_rate: "same_rate s s' \<Longrightarrow> driven_by evs s = driven_by evs s'"
  by (simp add: driven_by_def fun_eq_iff setup_call_rate)

lemma apply_one_ok:
  assumes "setup_ok evs s" and "EpochRefresh e tree \<in> set evs" and "p \<in> set (pathsWithInterface tree MODEM_IFACE)"
    and "ss_currentEpoch s = Some e"
  shows "setup_ok evs (apply_one e tree p s)"
proof -
  have r: "same_rate (apply_one e tree p s) s" by simp
  have new: "driven_by evs s (Some e, setup_call s p)" if "hasInterface tree p SIGNAL_IFACE"
    using assms(2,3) that by (force simp: driven_by_def list_ex_iff setup_call_def)
  have k: "call_key (Some e, setup_call s p) = setup_key e p" by (simp add: call_key_def setup_call_def)
  have sc: "setup_call (s\<lparr>ss_applied := xs\<rparr>) p = setup_call s p" for xs by (simp add: setup_call_def)
  show ?thesis
    using assms(1,4) new k
    unfolding setup_ok_def driven_by_rate [OF r]
    by (auto simp: apply_one_def setupOne_def set_cadence_def sc)
qed

lemma apply_fold_ok:
  "setup_ok evs s \<Longrightarrow> EpochRefresh e tree \<in> set evs \<Longrightarrow> set ps \<subseteq> set (pathsWithInterface tree MODEM_IFACE) \<Longrightarrow>
     ss_currentEpoch s = Some e \<Longrightarrow> setup_ok evs (fold (apply_one e tree) ps s)"
  by (induction ps arbitrary: s) (simp_all add: apply_one_ok)

lemma setup_ok_more: "setup_ok evs s \<Longrightarrow> setup_ok (evs @ later) s"
  by (auto simp: setup_ok_def list_all_iff driven_by_def)

lemma setup_reply_ok: "setup_ok evs s \<Longrightarrow> setup_ok evs (setup_reply i ok s)"
  by (auto simp: setup_ok_def setup_reply_def set_cadence_def list_all_iff driven_by_def setup_call_def)

lemma setup_run_ok:
  "setup_ok [] s \<Longrightarrow> setup_ok evs (setup_run evs s)"
proof (induction evs rule: rev_induct)
  case (snoc ev evs)
  have IH: "setup_ok (evs @ [ev]) (setup_run evs s)" using snoc by (intro setup_ok_more) simp
  show ?case
  proof (cases ev)
    case (EpochRefresh e tree)
    have "setup_ok (evs @ [ev]) ((setup_run evs s)\<lparr>ss_currentEpoch := Some e\<rparr>)"
      using IH driven_by_rate [of "(setup_run evs s)\<lparr>ss_currentEpoch := Some e\<rparr>" "setup_run evs s"]
      by (simp add: setup_ok_def same_rate_def)
    then show ?thesis using EpochRefresh by (simp add: setup_run_def applyForEpoch_def apply_fold_ok)
  next
    case (SetupReply i ok)
    then show ?thesis using IH setup_reply_ok by (simp add: setup_run_def)
  qed
qed (simp add: setup_run_def)

text \<open>Marks stay, and every modem of a refresh is marked; one with the interface is marked with its call.\<close>

definition driven_path :: "string \<Rightarrow> managed_objects \<Rightarrow> signal_setup \<Rightarrow> string \<Rightarrow> bool" where
  "driven_path e tree s p \<longleftrightarrow>
     (hasInterface tree p SIGNAL_IFACE \<and> (Some e, setup_call s p) \<in> set (ss_calls s)) \<or>
     (\<not> hasInterface tree p SIGNAL_IFACE \<and> cadenceFor s p = CadenceUnsupported)"

lemma apply_one_calls: "set (ss_calls s) \<subseteq> set (ss_calls (apply_one e tree p s))"
  by (auto simp: apply_one_def setupOne_def set_cadence_def)

lemma apply_one_drives:
  assumes "setup_key e p \<notin> set (ss_applied s)" and "ss_currentEpoch s = Some e"
  shows "driven_path e tree (apply_one e tree p s) p"
proof -
  have sc: "setup_call (s\<lparr>ss_applied := xs\<rparr>) p = setup_call s p"
    "setup_call (s\<lparr>ss_applied := xs, ss_pending := ys, ss_calls := zs\<rparr>) p = setup_call s p" for xs ys zs
    by (simp_all add: setup_call_def)
  show ?thesis
    using assms by (auto simp: driven_path_def apply_one_def setupOne_def set_cadence_def cadenceFor_def sc map_get_set)
qed

lemma apply_one_keeps: "p \<noteq> q \<Longrightarrow> driven_path e tree s q \<Longrightarrow> driven_path e tree (apply_one e tree p s) q"
  by (auto simp: driven_path_def cadenceFor_def apply_one_def setupOne_def set_cadence_def map_get_set)

lemma apply_one_marks:
  "set (ss_applied (apply_one e tree p s)) = insert (setup_key e p) (set (ss_applied s))"
  by (auto simp: apply_one_def setupOne_def set_cadence_def)

lemma apply_fold_drives:
  "distinct ps \<Longrightarrow> list_all (\<lambda>p. setup_key e p \<notin> set (ss_applied s)) ps \<Longrightarrow> ss_currentEpoch s = Some e \<Longrightarrow>
     list_all (driven_path e tree (fold (apply_one e tree) ps s)) ps"
proof -
  have keep: "driven_path e tree s q \<Longrightarrow> q \<notin> set ps \<Longrightarrow> driven_path e tree (fold (apply_one e tree) ps s) q" for ps s q
    by (induction ps arbitrary: s) (auto intro: apply_one_keeps [OF not_sym])
  show "distinct ps \<Longrightarrow> list_all (\<lambda>p. setup_key e p \<notin> set (ss_applied s)) ps \<Longrightarrow> ss_currentEpoch s = Some e \<Longrightarrow>
     list_all (driven_path e tree (fold (apply_one e tree) ps s)) ps"
  proof (induction ps arbitrary: s)
    case (Cons p ps)
    have "driven_path e tree (fold (apply_one e tree) ps (apply_one e tree p s)) p"
      using Cons.prems by (intro keep apply_one_drives) auto
    moreover have "list_all (\<lambda>q. setup_key e q \<notin> set (ss_applied (apply_one e tree p s))) ps"
      using Cons.prems by (auto simp: list_all_iff apply_one_marks setup_key_def)
    ultimately show ?case using Cons by auto
  qed simp
qed

lemma marks_fold: "set (ss_applied (fold (apply_one e tree) ps s)) = set (ss_applied s) \<union> setup_key e ` set ps"
  by (induction ps arbitrary: s) (auto simp: apply_one_marks)

lemma marks_run:
  "ss_applied s = [] \<Longrightarrow> k \<in> set (ss_applied (setup_run evs s)) \<Longrightarrow>
     \<exists>e tree p. EpochRefresh e tree \<in> set evs \<and> k = setup_key e p"
proof (induction evs rule: rev_induct)
  case (snoc ev evs)
  then show ?case
    by (cases ev) (auto simp: setup_run_def applyForEpoch_def marks_fold setup_reply_def set_cadence_def split: if_splits)
qed (simp add: setup_run_def)

lemma new_signal_setup_start: "new_signal_setup destination interval = Inr s \<Longrightarrow> ss_applied s = [] \<and> setup_ok [] s"
  by (auto simp: new_signal_setup_def setup_ok_def sum_bind_Inr)

section \<open>Properties\<close>

definition refreshes :: "string \<Rightarrow> setup_event \<Rightarrow> bool" where
  "refreshes e ev = (case ev of EpochRefresh e' _ \<Rightarrow> e' = e | SetupReply _ _ \<Rightarrow> False)"

definition well_formed_refresh :: "setup_event \<Rightarrow> bool" where
  "well_formed_refresh ev =
     (case ev of EpochRefresh e tree \<Rightarrow> epoch_text e \<and> distinct (map fst tree) | SetupReply _ _ \<Rightarrow> True)"

text \<open>C34: whatever the order of refreshes and replies, the manager calls Signal.Setup for a modem at most once in an epoch, with the configured rate, always for the epoch that is current and a modem whose tree showed the Signal interface in a refresh of that epoch; and the first refresh of an epoch drives every modem it lists: one with the interface is called, one without is marked unsupported.\<close>

theorem signal_setup_once_per_epoch:
  assumes "new_signal_setup destination interval = Inr s0"
    and "list_all well_formed_refresh (evs @ [EpochRefresh e tree])"
  shows "(let s = setup_run (evs @ [EpochRefresh e tree]) s0 in
     distinct (map call_key (ss_calls s)) \<and> list_all (driven_by (evs @ [EpochRefresh e tree]) s) (ss_calls s) \<and>
     (if list_ex (refreshes e) evs then True else list_all (driven_path e tree s) (pathsWithInterface tree MODEM_IFACE)))"
proof -
  let ?s = "setup_run evs s0"
  let ?ps = "pathsWithInterface tree MODEM_IFACE"
  have last: "setup_run (evs @ [EpochRefresh e tree]) s0 = fold (apply_one e tree) ?ps (?s\<lparr>ss_currentEpoch := Some e\<rparr>)"
    by (simp add: setup_run_def applyForEpoch_def)
  note start = new_signal_setup_start [OF assms(1)]
  have "setup_ok (evs @ [EpochRefresh e tree]) (setup_run (evs @ [EpochRefresh e tree]) s0)"
    using start setup_run_ok by blast
  moreover have "list_all (driven_path e tree (setup_run (evs @ [EpochRefresh e tree]) s0)) ?ps" if fresh: "\<not> list_ex (refreshes e) evs"
  proof -
    have "setup_key e p \<notin> set (ss_applied ?s)" for p
    proof
      assume "setup_key e p \<in> set (ss_applied ?s)"
      then obtain e' tree' p' where r: "EpochRefresh e' tree' \<in> set evs" "setup_key e p = setup_key e' p'"
        using marks_run start by blast
      then have "epoch_text e'" "epoch_text e" using assms(2) by (force simp: list_all_iff well_formed_refresh_def)+
      with r have "e' = e" using setup_key_inj by blast
      with r fresh show False by (force simp: list_ex_iff refreshes_def)
    qed
    moreover have "distinct ?ps"
      using assms(2) by (auto simp: pathsWithInterface_def well_formed_refresh_def distinct_map inj_on_def)
    ultimately show ?thesis unfolding last by (intro apply_fold_drives) (simp_all add: list_all_iff)
  qed
  ultimately show ?thesis by (simp add: setup_ok_def Let_def)
qed

definition sample_tree :: managed_objects where
  "sample_tree = [(''/Modem/0'', [(MODEM_IFACE, []), (SIGNAL_IFACE, [])]), (''/Modem/1'', [(MODEM_IFACE, [])])]"

theorem signal_setup_once_per_epoch_witness:
  "\<exists>s0. new_signal_setup None (Some 10) = Inr s0 \<and>
     map (me_path \<circ> snd) (ss_calls (setup_run ([EpochRefresh '':1.5'' sample_tree, SetupReply 0 True] @ [EpochRefresh '':1.9'' sample_tree]) s0)) =
       [''/Modem/0'', ''/Modem/0''] \<and>
     distinct (map call_key (ss_calls (setup_run ([EpochRefresh '':1.5'' sample_tree, SetupReply 0 True] @ [EpochRefresh '':1.9'' sample_tree]) s0)))"
proof -
  obtain s0 where s0: "new_signal_setup None (Some 10) = Inr s0" by (simp add: new_signal_setup_def resolveSignalInterval_def)
  have wf: "list_all well_formed_refresh ([EpochRefresh '':1.5'' sample_tree, SetupReply 0 True] @ [EpochRefresh '':1.9'' sample_tree])"
    by code_simp
  have "map (me_path \<circ> snd) (ss_calls (setup_run ([EpochRefresh '':1.5'' sample_tree, SetupReply 0 True] @ [EpochRefresh '':1.9'' sample_tree])
      (projr (new_signal_setup None (Some 10))))) = [''/Modem/0'', ''/Modem/0'']"
    by code_simp
  then show ?thesis using signal_setup_once_per_epoch [OF s0 wf] s0 by (auto simp: Let_def)
qed

text \<open>A reply is not matched with its epoch: the error of a call of an old epoch overwrites what the new one
  answered. And a mark outlives the tree: a modem whose Signal interface shows up later in an epoch is never called.\<close>

lemma late_reply_overwrites:
  "cadenceFor (setup_run [EpochRefresh '':1.5'' sample_tree, EpochRefresh '':1.9'' sample_tree, SetupReply 1 True, SetupReply 0 False]
     (projr (new_signal_setup None None))) ''/Modem/0'' = CadenceUnsupported"
  by code_simp

lemma late_interface_is_missed:
  "ss_calls (setup_run [EpochRefresh '':1.5'' [(''/Modem/0'', [(MODEM_IFACE, [])])], EpochRefresh '':1.5'' sample_tree]
     (projr (new_signal_setup None None))) = []"
  by code_simp

end
