(* ===== verification/Capability.thy ===== *)
theory Capability
  imports Ussd Domain_State
begin

text \<open>
  The capability modules: the ladder of support claims (\<open>capability/support-claim.ts\<close>), what one modem
  can be asked (\<open>capability/detect.ts\<close>), and the 5G postures (\<open>capability/five-g-preference.ts\<close>).
  A \<open>ReadonlySet\<close> whose order the code never reads is a set.
\<close>

section \<open>Support claims\<close>

datatype capability_module = BandLock | Sms | FiveGPref | FccAutoUnlock | Gps | UssdModule | Esim

definition CAPABILITY_MODULES :: "capability_module list" where
  "CAPABILITY_MODULES = [BandLock, Sms, FiveGPref, FccAutoUnlock, Gps, UssdModule, Esim]"

datatype support_claim = ClaimUnavailable | ClaimImplemented | ClaimEnabled | ClaimCapable | ClaimCertified

datatype capability_evidence = EvidencePresent | EvidenceAbsent | EvidenceUnknown

record support_claim_input =
  si_implemented :: bool
  si_gateEnabled :: bool
  si_capability :: capability_evidence
  si_certified :: bool

definition resolveSupportClaim :: "support_claim_input \<Rightarrow> support_claim" where
  "resolveSupportClaim input =
     (if \<not> si_implemented input \<or> si_capability input = EvidenceAbsent then ClaimUnavailable
      else if \<not> si_gateEnabled input then ClaimImplemented
      else if si_capability input = EvidenceUnknown then ClaimEnabled
      else if si_certified input then ClaimCertified else ClaimCapable)"

definition SURFACEABLE_SUPPORT_STATES :: "support_claim list" where
  "SURFACEABLE_SUPPORT_STATES = [ClaimCapable, ClaimCertified]"

definition mayRenderModule :: "support_claim \<Rightarrow> bool" where
  "mayRenderModule claim \<longleftrightarrow> claim \<in> set SURFACEABLE_SUPPORT_STATES"

definition mayClaimSupport :: "support_claim \<Rightarrow> bool" where
  "mayClaimSupport claim \<longleftrightarrow> claim = ClaimCertified"

record capability_matrix_input =
  cx_implemented :: "capability_module list"
  cx_gates :: "capability_module \<Rightarrow> bool option"
  cx_capability :: "capability_module \<Rightarrow> capability_evidence option"
  cx_certified :: "(capability_module \<Rightarrow> bool option) option"

definition resolveCapabilityMatrix :: "capability_matrix_input \<Rightarrow> (capability_module \<times> support_claim) list" where
  "resolveCapabilityMatrix input =
     map (\<lambda>m. (m, resolveSupportClaim
       \<lparr>si_implemented = m \<in> set (cx_implemented input),
        si_gateEnabled = (cx_gates input m = Some True),
        si_capability = (case cx_capability input m of Some e \<Rightarrow> e | None \<Rightarrow> EvidenceUnknown),
        si_certified = (case cx_certified input of Some c \<Rightarrow> c m = Some True | None \<Rightarrow> False)\<rparr>)) CAPABILITY_MODULES"

definition claim_state :: "(capability_module \<times> support_claim) list \<Rightarrow> capability_module \<Rightarrow> support_claim" where
  "claim_state claims m = the (map_of claims m)"

definition surfaceableModules :: "(capability_module \<times> support_claim) list \<Rightarrow> capability_module list" where
  "surfaceableModules claims = filter (\<lambda>m. mayRenderModule (claim_state claims m)) CAPABILITY_MODULES"

definition claimableModules :: "(capability_module \<times> support_claim) list \<Rightarrow> capability_module list" where
  "claimableModules claims = filter (\<lambda>m. mayClaimSupport (claim_state claims m)) CAPABILITY_MODULES"

section \<open>5G postures\<close>

datatype five_g_preference = FiveGOnly | Prefer5g | Prefer4g | FiveGOff

definition FIVE_G_PREFERENCES :: "five_g_preference list" where
  "FIVE_G_PREFERENCES = [FiveGOnly, Prefer5g, Prefer4g, FiveGOff]"

record radio_mode_set =
  rm_allowed :: "radio_tech set"
  rm_preferred :: "radio_tech option"

record five_g_target =
  fg_preferenceOrdered :: "radio_tech list"
  fg_allowedSet :: "radio_tech set"

definition NR_MODE_UNSUPPORTED_REASON :: string where
  "NR_MODE_UNSUPPORTED_REASON = ''not-exposed-by-modemmanager''"

text \<open>\<open>supported\<close> and the reason.\<close>

definition nrModeSelection :: "bool \<times> string" where
  "nrModeSelection = (False, NR_MODE_UNSUPPORTED_REASON)"

definition RAT_ORDER :: "radio_tech list" where "RAT_ORDER = [Nr5g, Lte, Umts, Gsm]"

definition ranked_rats :: "radio_tech set \<Rightarrow> radio_tech list" where
  "ranked_rats rats = filter (\<lambda>rat. rat \<in> rats) RAT_ORDER"

definition fiveGPreferenceEvidence :: "radio_tech set option \<Rightarrow> capability_evidence" where
  "fiveGPreferenceEvidence supportedRats =
     (case supportedRats of
        None \<Rightarrow> EvidenceUnknown
      | Some rats \<Rightarrow> if rats = {} then EvidenceUnknown
                     else if Nr5g \<in> rats then EvidencePresent else EvidenceAbsent)"

definition offeredFiveGPreferences :: "radio_tech set option \<Rightarrow> five_g_preference list" where
  "offeredFiveGPreferences supportedRats =
     (case supportedRats of
        None \<Rightarrow> []
      | Some rats \<Rightarrow>
          if Nr5g \<notin> rats then []
          else (let lower = filter (\<lambda>rat. rat \<noteq> Nr5g) (ranked_rats rats) in
                if lower = [] then [FiveGOnly]
                else filter (\<lambda>preference. preference \<noteq> Prefer4g \<or> Lte \<in> rats) FIVE_G_PREFERENCES))"

definition fiveGPreferenceToRadio :: "five_g_preference \<Rightarrow> radio_tech set option \<Rightarrow> five_g_target option" where
  "fiveGPreferenceToRadio preference supportedRats =
     (case supportedRats of
        None \<Rightarrow> None
      | Some rats \<Rightarrow>
          if preference \<notin> set (offeredFiveGPreferences supportedRats) then None
          else (let all = ranked_rats rats; withoutNr = filter (\<lambda>rat. rat \<noteq> Nr5g) all in
            Some (case preference of
              FiveGOnly \<Rightarrow> \<lparr>fg_preferenceOrdered = [Nr5g], fg_allowedSet = {Nr5g}\<rparr>
            | Prefer5g \<Rightarrow> \<lparr>fg_preferenceOrdered = all, fg_allowedSet = set all\<rparr>
            | Prefer4g \<Rightarrow> \<lparr>fg_preferenceOrdered = Lte # filter (\<lambda>rat. rat \<noteq> Lte) all, fg_allowedSet = set all\<rparr>
            | FiveGOff \<Rightarrow> \<lparr>fg_preferenceOrdered = withoutNr, fg_allowedSet = set withoutNr\<rparr>)))"

definition readFiveGPreference :: "radio_mode_set option \<Rightarrow> five_g_preference option" where
  "readFiveGPreference current =
     (case current of
        None \<Rightarrow> None
      | Some c \<Rightarrow>
          if rm_allowed c = {} then None
          else if Nr5g \<notin> rm_allowed c then Some FiveGOff
          else if filter (\<lambda>rat. rat \<noteq> Nr5g) (ranked_rats (rm_allowed c)) = [] then Some FiveGOnly
          else if rm_preferred c = Some Nr5g then Some Prefer5g
          else if rm_preferred c = Some Lte then Some Prefer4g
          else None)"

definition fiveGPreferenceConfirmed :: "five_g_preference \<Rightarrow> radio_mode_set option \<Rightarrow> bool" where
  "fiveGPreferenceConfirmed requested readback \<longleftrightarrow> readFiveGPreference readback = Some requested"

section \<open>Detection\<close>

definition LOCATION_IFACE :: string where "LOCATION_IFACE = MODEM_IFACE @ ''.Location''"
definition MESSAGING_IFACE :: string where "MESSAGING_IFACE = MODEM_IFACE @ ''.Messaging''"
definition USSD_IFACE :: string where "USSD_IFACE = MODEM3GPP_USSD_IFACE"

record module_capability_probe =
  mp_properties :: "string set"
  mp_interfaces :: "string set option"
  mp_locationSources :: "string set option"
  mp_supportedRats :: "radio_tech set option"

definition GNSS_SOURCES :: "string list" where
  "GNSS_SOURCES = [''gps-raw'', ''gps-nmea'', ''gps-unmanaged'', ''agps-msa'', ''agps-msb'']"

definition fromAnyProperty :: "module_capability_probe \<Rightarrow> string list \<Rightarrow> capability_evidence" where
  "fromAnyProperty probe names =
     (if mp_properties probe = {} then EvidenceUnknown
      else if list_ex (\<lambda>name. name \<in> mp_properties probe) names then EvidencePresent else EvidenceAbsent)"

definition fromProperty :: "module_capability_probe \<Rightarrow> string \<Rightarrow> capability_evidence" where
  "fromProperty probe name =
     (if mp_properties probe = {} then EvidenceUnknown
      else if name \<in> mp_properties probe then EvidencePresent else EvidenceAbsent)"

definition fromInterface :: "module_capability_probe \<Rightarrow> string \<Rightarrow> capability_evidence" where
  "fromInterface probe iface =
     (case mp_interfaces probe of
        None \<Rightarrow> EvidenceUnknown
      | Some ifaces \<Rightarrow> if iface \<in> ifaces then EvidencePresent else EvidenceAbsent)"

definition detectGnss :: "module_capability_probe \<Rightarrow> capability_evidence" where
  "detectGnss probe =
     (let iface = fromInterface probe LOCATION_IFACE in
      if iface \<noteq> EvidencePresent then iface
      else case mp_locationSources probe of
        None \<Rightarrow> EvidenceUnknown
      | Some sources \<Rightarrow> if list_ex (\<lambda>source. source \<in> sources) GNSS_SOURCES then EvidencePresent else EvidenceAbsent)"

fun detectCapabilityModules :: "module_capability_probe \<Rightarrow> capability_module \<Rightarrow> capability_evidence" where
  "detectCapabilityModules probe BandLock = fromProperty probe ''SupportedBands''"
| "detectCapabilityModules probe Sms = fromInterface probe MESSAGING_IFACE"
| "detectCapabilityModules probe FiveGPref =
     (case mp_supportedRats probe of
        None \<Rightarrow> fromProperty probe ''SupportedModes''
      | Some rats \<Rightarrow> fiveGPreferenceEvidence (Some rats))"
| "detectCapabilityModules probe FccAutoUnlock = EvidenceUnknown"
| "detectCapabilityModules probe Gps = detectGnss probe"
| "detectCapabilityModules probe UssdModule = fromInterface probe USSD_IFACE"
| "detectCapabilityModules probe Esim = fromAnyProperty probe [''SimType'', ''EsimStatus'']"

section \<open>Lemmas\<close>

lemma resolveSupportClaim_render:
  "mayRenderModule (resolveSupportClaim input) \<longleftrightarrow>
     si_implemented input \<and> si_gateEnabled input \<and> si_capability input = EvidencePresent"
  by (cases "si_capability input") (auto simp: mayRenderModule_def resolveSupportClaim_def SURFACEABLE_SUPPORT_STATES_def)

lemma resolveSupportClaim_certified:
  "mayClaimSupport (resolveSupportClaim input) \<longleftrightarrow> mayRenderModule (resolveSupportClaim input) \<and> si_certified input"
  by (cases "si_capability input")
    (auto simp: mayClaimSupport_def mayRenderModule_def resolveSupportClaim_def SURFACEABLE_SUPPORT_STATES_def)

lemma CAPABILITY_MODULES_all: "m \<in> set CAPABILITY_MODULES" "distinct CAPABILITY_MODULES"
  by (cases m) (simp_all add: CAPABILITY_MODULES_def)

lemma claim_state_matrix:
  "claim_state (resolveCapabilityMatrix input) m = resolveSupportClaim
     \<lparr>si_implemented = m \<in> set (cx_implemented input), si_gateEnabled = (cx_gates input m = Some True),
      si_capability = (case cx_capability input m of Some e \<Rightarrow> e | None \<Rightarrow> EvidenceUnknown),
      si_certified = (case cx_certified input of Some c \<Rightarrow> c m = Some True | None \<Rightarrow> False)\<rparr>"
  by (cases m) (auto simp: claim_state_def resolveCapabilityMatrix_def CAPABILITY_MODULES_def)

lemma ranked_set: "set (ranked_rats rats) = rats"
proof -
  have "rat \<in> set RAT_ORDER" for rat by (cases rat) (simp_all add: RAT_ORDER_def)
  then show ?thesis by (auto simp: ranked_rats_def)
qed

lemma ranked_distinct: "distinct (ranked_rats rats)"
  by (simp add: ranked_rats_def RAT_ORDER_def)

lemma ranked_nr: "Nr5g \<in> rats \<Longrightarrow> ranked_rats rats = Nr5g # filter (\<lambda>rat. rat \<noteq> Nr5g) (ranked_rats rats)"
  by (simp add: ranked_rats_def RAT_ORDER_def)

lemma lower_empty: "filter (\<lambda>rat. rat \<noteq> Nr5g) (ranked_rats rats) = [] \<longleftrightarrow> rats \<subseteq> {Nr5g}"
  using ranked_set [of rats] by (auto simp: filter_empty_conv)

section \<open>Properties\<close>

text \<open>A 5G posture is offered exactly when it has a pair of modes to write; that pair names only modes the modem supports, at least one, each once and the preferred one first; reading it back confirms the posture that was asked for and no other, although two postures share one allowed set; and a modem without 5G, or one whose modes were not read, is offered none.\<close>

theorem five_g_posture_confirms:
  "(fiveGPreferenceToRadio preference supported \<noteq> None \<longleftrightarrow> preference \<in> set (offeredFiveGPreferences supported)) \<and>
   (case fiveGPreferenceToRadio preference supported of
      None \<Rightarrow> True
    | Some target \<Rightarrow>
        fg_allowedSet target \<subseteq> the supported \<and> fg_preferenceOrdered target \<noteq> [] \<and>
        distinct (fg_preferenceOrdered target) \<and> set (fg_preferenceOrdered target) = fg_allowedSet target \<and>
        (fiveGPreferenceConfirmed other
           (Some \<lparr>rm_allowed = fg_allowedSet target, rm_preferred = Some (hd (fg_preferenceOrdered target))\<rparr>) \<longleftrightarrow>
         other = preference)) \<and>
   (fiveGPreferenceEvidence supported \<noteq> EvidencePresent \<longleftrightarrow> offeredFiveGPreferences supported = [])"
proof (cases supported)
  case None
  then show ?thesis by (simp add: fiveGPreferenceToRadio_def offeredFiveGPreferences_def fiveGPreferenceEvidence_def)
next
  case (Some rats)
  show ?thesis
  proof (cases "Nr5g \<in> rats")
    case False
    with Some show ?thesis
      by (simp add: fiveGPreferenceToRadio_def offeredFiveGPreferences_def fiveGPreferenceEvidence_def)
  next
    case True
    note defs = Some True fiveGPreferenceToRadio_def offeredFiveGPreferences_def fiveGPreferenceEvidence_def
      readFiveGPreference_def fiveGPreferenceConfirmed_def FIVE_G_PREFERENCES_def Let_def
    have hd: "hd (ranked_rats rats) = Nr5g" "ranked_rats rats \<noteq> []" using ranked_nr [OF True] by (metis list.sel(1), metis list.distinct(1))
    show ?thesis
      by (cases preference; cases "rats \<subseteq> {Nr5g}"; cases "Lte \<in> rats")
        (use hd in \<open>auto simp: defs ranked_set ranked_distinct lower_empty filter_empty_conv dest: hd_in_set split: if_splits\<close>)
  qed
qed

text \<open>C47: a module is surfaced for a modem only when this build has it, its gate is on and the probe of the modem saw it: the bands property for the band lock, the interface for SMS and USSD, a GNSS source for GPS, a 5G mode where the modes were decoded, a SIM property for eSIM; FCC unlock is surfaced by no probe, an unread modem surfaces nothing, and what may be claimed in a support matrix is surfaced and certified.\<close>

theorem surfaced_modules_are_evidenced:
  assumes "cx_capability input = (\<lambda>m. Some (detectCapabilityModules probe m))"
    and "m \<in> set (surfaceableModules (resolveCapabilityMatrix input))"
  shows "m \<in> set (cx_implemented input) \<and> cx_gates input m = Some True \<and>
     (case m of
        BandLock \<Rightarrow> ''SupportedBands'' \<in> mp_properties probe
      | Sms \<Rightarrow> (\<exists>i. mp_interfaces probe = Some i \<and> MESSAGING_IFACE \<in> i)
      | FiveGPref \<Rightarrow> (case mp_supportedRats probe of
          Some rats \<Rightarrow> Nr5g \<in> rats | None \<Rightarrow> ''SupportedModes'' \<in> mp_properties probe)
      | FccAutoUnlock \<Rightarrow> False
      | Gps \<Rightarrow> (\<exists>i s. mp_interfaces probe = Some i \<and> LOCATION_IFACE \<in> i \<and> mp_locationSources probe = Some s \<and>
                  set GNSS_SOURCES \<inter> s \<noteq> {})
      | UssdModule \<Rightarrow> (\<exists>i. mp_interfaces probe = Some i \<and> USSD_IFACE \<in> i)
      | Esim \<Rightarrow> {''SimType'', ''EsimStatus''} \<inter> mp_properties probe \<noteq> {}) \<and>
     set (claimableModules (resolveCapabilityMatrix input)) \<subseteq> set (surfaceableModules (resolveCapabilityMatrix input))"
proof -
  have r: "mayRenderModule (claim_state (resolveCapabilityMatrix input) m) \<longleftrightarrow>
      m \<in> set (cx_implemented input) \<and> cx_gates input m = Some True \<and> detectCapabilityModules probe m = EvidencePresent"
    for m by (simp add: claim_state_matrix resolveSupportClaim_render assms(1))
  have "set (claimableModules (resolveCapabilityMatrix input)) \<subseteq> set (surfaceableModules (resolveCapabilityMatrix input))"
    by (auto simp: claimableModules_def surfaceableModules_def claim_state_matrix resolveSupportClaim_certified)
  moreover have "detectCapabilityModules probe m = EvidencePresent" "m \<in> set (cx_implemented input)" "cx_gates input m = Some True"
    using assms(2) r by (auto simp: surfaceableModules_def)
  ultimately show ?thesis
    by (cases m) (auto simp: fromProperty_def fromInterface_def fromAnyProperty_def detectGnss_def fiveGPreferenceEvidence_def
        Let_def list_ex_iff split: if_splits option.splits)
qed

definition sample_probe :: module_capability_probe where
  "sample_probe = \<lparr>mp_properties = {''SupportedBands'', ''SupportedModes''}, mp_interfaces = Some {MESSAGING_IFACE, LOCATION_IFACE},
     mp_locationSources = Some {''3gpp-lac-ci''}, mp_supportedRats = Some {Lte, Umts}\<rparr>"

definition sample_matrix_input :: capability_matrix_input where
  "sample_matrix_input = \<lparr>cx_implemented = CAPABILITY_MODULES, cx_gates = (\<lambda>_. Some True),
     cx_capability = (\<lambda>m. Some (detectCapabilityModules sample_probe m)), cx_certified = None\<rparr>"

theorem surfaced_modules_are_evidenced_witness:
  "surfaceableModules (resolveCapabilityMatrix sample_matrix_input) = [BandLock, Sms] \<and>
   ''SupportedBands'' \<in> mp_properties sample_probe"
proof -
  have c: "cx_capability sample_matrix_input = (\<lambda>m. Some (detectCapabilityModules sample_probe m))"
    by (simp add: sample_matrix_input_def)
  have s: "surfaceableModules (resolveCapabilityMatrix sample_matrix_input) = [BandLock, Sms]" by code_simp
  then have "BandLock \<in> set (surfaceableModules (resolveCapabilityMatrix sample_matrix_input))" by simp
  from surfaced_modules_are_evidenced [OF c this] s show ?thesis by simp
qed

end
