(* ===== verification/Billing_Cycle.thy ===== *)
theory Billing_Cycle
  imports Prelude
begin

text \<open>
  UTC billing cycles (\<open>backend/usage/billing-cycle.ts\<close>). A time is milliseconds since the epoch, never
  negative; \<open>Date\<close> is the Gregorian calendar, written out from the year 1969 on, the earliest
  year a boundary can fall in.
\<close>

section \<open>The calendar\<close>

definition DAY_MS :: int where "DAY_MS = 86400000"

definition leap :: "int \<Rightarrow> bool" where
  "leap y \<longleftrightarrow> 4 dvd y \<and> (\<not> 100 dvd y \<or> 400 dvd y)"

definition month_len :: "int \<Rightarrow> nat \<Rightarrow> int" where
  "month_len y m = (if m = 1 then (if leap y then 29 else 28) else if m \<in> {3, 5, 8, 10} then 30 else 31)"

definition days_before_month :: "int \<Rightarrow> nat \<Rightarrow> int" where
  "days_before_month y m = sum_list (map (month_len y) [0..<m])"

definition year_len :: "int \<Rightarrow> int" where "year_len y = (if leap y then 366 else 365)"

text \<open>The first day of the year \<open>1969 + n\<close>, counted from the epoch.\<close>

fun year_first :: "nat \<Rightarrow> int" where
  "year_first 0 = - 365"
| "year_first (Suc n) = year_first n + year_len (1969 + int n)"

lemma year_len_pos: "0 < year_len y"
  by (simp add: year_len_def)

function year_index :: "nat \<Rightarrow> int \<Rightarrow> nat" where
  "year_index n d = (if year_first (Suc n) \<le> d then year_index (Suc n) d else n)"
  by pat_completeness auto
termination
proof (relation "measure (\<lambda>(n, d). nat (d - year_first n))")
  fix n d assume "year_first (Suc n) \<le> d"
  then show "((Suc n, d), n, d) \<in> measure (\<lambda>(n, d). nat (d - year_first n))"
    using year_len_pos [of "1969 + int n"] by simp
qed simp

declare year_index.simps [simp del]

definition month_index :: "int \<Rightarrow> int \<Rightarrow> nat" where
  "month_index y r = length (takeWhile (\<lambda>m. days_before_month y m \<le> r) [0..<12]) - 1"

text \<open>The year (as an index from 1969), the month (from 0) and the day of the month of a day.\<close>

definition civil :: "int \<Rightarrow> nat \<times> nat \<times> int" where
  "civil d = (let n = year_index 0 d; r = d - year_first n; m = month_index (1969 + int n) r in
     (n, m, r - days_before_month (1969 + int n) m + 1))"

text \<open>\<open>Date.UTC\<close> of a year index, a month that may be 12, and a day that may be 0.\<close>

definition utc_day :: "nat \<Rightarrow> nat \<Rightarrow> int \<Rightarrow> int" where
  "utc_day n m day = (let n' = n + m div 12 in
     year_first n' + days_before_month (1969 + int n') (m mod 12) + day - 1)"

section \<open>The cycle\<close>

definition daysInMonth :: "nat \<Rightarrow> nat \<Rightarrow> int" where
  "daysInMonth n m = snd (snd (civil (utc_day n (m + 1) 0)))"

definition clampCycleDay :: "int \<Rightarrow> nat \<Rightarrow> nat \<Rightarrow> int" where
  "clampCycleDay cycleDay n m = min (max 1 cycleDay) (daysInMonth n m)"

definition boundaryFor :: "int \<Rightarrow> nat \<Rightarrow> nat \<Rightarrow> int" where
  "boundaryFor cycleDay n m = DAY_MS * utc_day n m (clampCycleDay cycleDay n m)"

definition cycleStart :: "int \<Rightarrow> int \<Rightarrow> int" where
  "cycleStart now cycleDay =
     (case civil (now div DAY_MS) of (n, m, _) \<Rightarrow>
        let thisBoundary = boundaryFor cycleDay n m in
        if now \<ge> thisBoundary then thisBoundary
        else let prevMonth = (if m = 0 then 11 else m - 1); prevYear = (if m = 0 then n - 1 else n)
             in boundaryFor cycleDay prevYear prevMonth)"

section \<open>The calendar is consistent\<close>

lemma month_len_pos: "0 < month_len y m" and month_len_le: "28 \<le> month_len y m" "month_len y m \<le> 31"
  by (auto simp: month_len_def)

lemma days_before_month_Suc: "days_before_month y (Suc m) = days_before_month y m + month_len y m"
  by (simp add: days_before_month_def)

lemma days_before_month_0 [simp]: "days_before_month y 0 = 0"
  by (simp add: days_before_month_def)

lemma days_before_month_12: "days_before_month y 12 = year_len y"
  by (simp add: days_before_month_def year_len_def month_len_def upt_rec numeral_eq_Suc)

lemma days_before_month_mono: "m < m' \<Longrightarrow> days_before_month y m < days_before_month y m'"
proof (induction m' arbitrary: m)
  case (Suc k)
  have "days_before_month y m \<le> days_before_month y k" using Suc.IH [of m] Suc.prems by (cases "m = k") auto
  then show ?case using month_len_pos [of y k] by (simp add: days_before_month_Suc)
qed simp

lemma year_index_spec:
  "year_first n \<le> d \<Longrightarrow> year_first (year_index n d) \<le> d \<and> d < year_first (Suc (year_index n d))"
proof (induction n d rule: year_index.induct)
  case (1 n d)
  show ?case
  proof (cases "year_first (Suc n) \<le> d")
    case True
    with 1(1) [OF True] show ?thesis by (subst (1 2) year_index.simps) auto
  next
    case False
    with 1(2) show ?thesis by (subst (1 2) year_index.simps) auto
  qed
qed

lemma month_index_spec:
  assumes "0 \<le> r" and "r < year_len y"
  shows "month_index y r < 12 \<and> days_before_month y (month_index y r) \<le> r \<and>
    r < days_before_month y (Suc (month_index y r))"
proof -
  let ?P = "\<lambda>m. days_before_month y m \<le> r"
  let ?k = "length (takeWhile ?P [0..<12])"
  have k: "?k \<le> 12" using length_takeWhile_le [of ?P "[0..<12]"] by simp
  have pos: "0 < ?k" using assms(1) by (simp add: upt_rec)
  have "?P ([0..<12] ! (?k - 1))"
    using pos set_takeWhileD [of "[0..<12] ! (?k - 1)" ?P "[0..<12]"]
    by (metis diff_less length_takeWhile_le nth_mem takeWhile_nth zero_less_one)
  then have lower: "?P (?k - 1)" using k pos by simp
  have upper: "r < days_before_month y ?k"
  proof (cases "?k = 12")
    case True
    with assms(2) show ?thesis by (simp add: days_before_month_12)
  next
    case False
    with k nth_length_takeWhile [of ?P "[0..<12]"] show ?thesis by simp
  qed
  show ?thesis using lower upper pos k by (auto simp: month_index_def Suc_diff_Suc)
qed

text \<open>A day lies in the month \<open>civil\<close> gives.\<close>

lemma civil_spec:
  assumes "year_first 0 \<le> d" and "civil d = (n, m, day)"
  shows "m < 12" and "utc_day n m 1 \<le> d" and "d < utc_day n m 1 + month_len (1969 + int n) m"
    and "day = d - utc_day n m 1 + 1" and "year_first n \<le> d"
proof -
  have n: "n = year_index 0 d" and m: "m = month_index (1969 + int n) (d - year_first n)"
    and day: "day = d - year_first n - days_before_month (1969 + int n) m + 1"
    using assms(2) by (auto simp: civil_def Let_def)
  have y: "year_first n \<le> d \<and> d < year_first (Suc n)" using year_index_spec [OF assms(1)] n by simp
  then have mi: "m < 12 \<and> days_before_month (1969 + int n) m \<le> d - year_first n \<and>
      d - year_first n < days_before_month (1969 + int n) (Suc m)"
    unfolding m by (intro month_index_spec) auto
  with y day show "m < 12" "utc_day n m 1 \<le> d" "d < utc_day n m 1 + month_len (1969 + int n) m"
    "day = d - utc_day n m 1 + 1" "year_first n \<le> d"
    by (auto simp: utc_day_def Let_def days_before_month_Suc)
qed

lemma year_first_mono: "n < n' \<Longrightarrow> year_first n < year_first n'"
proof (induction n' arbitrary: n)
  case (Suc k)
  have "year_first n \<le> year_first k" using Suc.IH [of n] Suc.prems by (cases "n = k") auto
  then show ?case using year_len_pos [of "1969 + int k"] by simp
qed simp

lemma year_unique:
  assumes "year_first n \<le> d" "d < year_first (Suc n)" "year_first n' \<le> d" "d < year_first (Suc n')"
  shows "n = n'"
proof (rule ccontr)
  assume "n \<noteq> n'"
  then consider "Suc n \<le> n'" | "Suc n' \<le> n" by linarith
  then show False
  proof cases
    case 1
    then have "year_first (Suc n) \<le> year_first n'" using year_first_mono by (metis le_neq_implies_less order_refl less_imp_le)
    with assms show False by linarith
  next
    case 2
    then have "year_first (Suc n') \<le> year_first n" using year_first_mono by (metis le_neq_implies_less order_refl less_imp_le)
    with assms show False by linarith
  qed
qed

lemma month_unique:
  assumes "days_before_month y m \<le> r" "r < days_before_month y (Suc m)"
    and "days_before_month y m' \<le> r" "r < days_before_month y (Suc m')"
  shows "m = m'"
proof (rule ccontr)
  assume "m \<noteq> m'"
  then consider "Suc m \<le> m'" | "Suc m' \<le> m" by linarith
  then show False
  proof cases
    case 1
    then have "days_before_month y (Suc m) \<le> days_before_month y m'"
      using days_before_month_mono [of "Suc m" m' y] by (cases "Suc m = m'") auto
    with assms show False by linarith
  next
    case 2
    then have "days_before_month y (Suc m') \<le> days_before_month y m"
      using days_before_month_mono [of "Suc m'" m y] by (cases "Suc m' = m") auto
    with assms show False by linarith
  qed
qed

lemma year_first_least: "year_first 0 \<le> year_first n"
  using year_first_mono [of 0 n] by (cases "n = 0") auto

lemma days_before_month_bounds:
  assumes "m < 12"
  shows "0 \<le> days_before_month y m" "days_before_month y (Suc m) \<le> year_len y"
proof -
  show "0 \<le> days_before_month y m" using assms days_before_month_mono [of 0 m y] by (cases "m = 0") auto
  show "days_before_month y (Suc m) \<le> year_len y"
    using assms days_before_month_mono [of "Suc m" 12 y] days_before_month_12 [of y] by (cases "Suc m = 12") auto
qed

lemma utc_day_month: "m < 12 \<Longrightarrow> utc_day n m day = year_first n + days_before_month (1969 + int n) m + day - 1"
  by (simp add: utc_day_def)

lemma civil_unique:
  assumes "m < 12" and "utc_day n m 1 \<le> d" and "d < utc_day n m 1 + month_len (1969 + int n) m"
  shows "civil d = (n, m, d - utc_day n m 1 + 1)"
proof -
  note b = days_before_month_bounds [OF assms(1), of "1969 + int n"]
  have d: "year_first n \<le> d" "d < year_first (Suc n)"
      "days_before_month (1969 + int n) m \<le> d - year_first n" "d - year_first n < days_before_month (1969 + int n) (Suc m)"
    using assms b by (auto simp: utc_day_month days_before_month_Suc)
  with year_first_least [of n] have d0: "year_first 0 \<le> d" by linarith
  obtain n' m' day where c: "civil d = (n', m', day)" by (cases "civil d") auto
  note s = civil_spec [OF d0 c]
  have y': "d < year_first (Suc n')"
    using s(1,3) days_before_month_bounds [OF s(1), of "1969 + int n'"] by (simp add: utc_day_month days_before_month_Suc)
  have "n' = n" by (rule year_unique [OF s(5) y' d(1,2)])
  moreover have "m' = m"
    by (rule month_unique [OF _ _ d(3,4)]) (use s(1-3) \<open>n' = n\<close> in \<open>simp_all add: utc_day_month days_before_month_Suc\<close>)
  ultimately show ?thesis using s(4) c by simp
qed

lemma utc_next_month: "m < 12 \<Longrightarrow> utc_day n (Suc m) day = utc_day n m 1 + month_len (1969 + int n) m + day - 1"
  using days_before_month_12 [of "1969 + int n"] days_before_month_Suc [of "1969 + int n" m]
  by (cases "m = 11") (simp_all add: utc_day_def Let_def)

lemma daysInMonth_len: "m < 12 \<Longrightarrow> daysInMonth n m = month_len (1969 + int n) m"
proof -
  assume m: "m < 12"
  have "civil (utc_day n (Suc m) 0) = (n, m, utc_day n (Suc m) 0 - utc_day n m 1 + 1)"
    by (rule civil_unique [OF m]) (use month_len_pos [of "1969 + int n" m] in \<open>simp_all add: utc_next_month [OF m]\<close>)
  then show ?thesis by (simp add: daysInMonth_def utc_next_month [OF m])
qed

text \<open>A boundary lies inside its month.\<close>

lemma boundary_in_month:
  assumes "m < 12"
  shows "DAY_MS * utc_day n m 1 \<le> boundaryFor c n m"
    and "boundaryFor c n m < DAY_MS * utc_day n (Suc m) 1"
proof -
  have c: "1 \<le> clampCycleDay c n m" "clampCycleDay c n m \<le> month_len (1969 + int n) m"
    using month_len_pos [of "1969 + int n" m] by (auto simp: clampCycleDay_def daysInMonth_len [OF assms])
  have "utc_day n m (clampCycleDay c n m) = utc_day n m 1 + clampCycleDay c n m - 1"
    by (simp add: utc_day_def Let_def)
  with c show "DAY_MS * utc_day n m 1 \<le> boundaryFor c n m" "boundaryFor c n m < DAY_MS * utc_day n (Suc m) 1"
    by (simp_all add: boundaryFor_def DAY_MS_def utc_next_month [OF assms])
qed

section \<open>Properties\<close>

text \<open>The month after.\<close>

definition next_month :: "nat \<times> nat \<Rightarrow> nat \<times> nat" where
  "next_month ym = (case ym of (n, m) \<Rightarrow> if m = 11 then (n + 1, 0) else (n, m + 1))"

lemma utc_day_next: "m < 12 \<Longrightarrow> next_month (n, m) = (n', m') \<Longrightarrow> m' < 12 \<and> utc_day n' m' 1 = utc_day n (Suc m) 1"
  by (auto simp: next_month_def utc_day_def Let_def split: if_splits)

text \<open>C22: the cycle a moment falls in starts at the last boundary not after it: the start is the boundary of some month (its cycle day clamped to that month's length), it is not later than the moment, and the boundary of the next month is later.\<close>

theorem cycle_start_is_last_boundary:
  assumes "0 \<le> now"
  shows "\<exists>n m. m < 12 \<and> cycleStart now c = boundaryFor c n m \<and> boundaryFor c n m \<le> now \<and>
    now < boundaryFor c (fst (next_month (n, m))) (snd (next_month (n, m)))"
proof -
  let ?d = "now div DAY_MS"
  have d0: "year_first 0 \<le> ?d" using assms by (simp add: DAY_MS_def pos_imp_zdiv_nonneg_iff order.trans [of _ 0])
  obtain n m day where c: "civil ?d = (n, m, day)" by (cases "civil ?d") auto
  note s = civil_spec [OF d0 c]
  have low: "DAY_MS * utc_day n m 1 \<le> now" and high: "now < DAY_MS * utc_day n (Suc m) 1"
    using s(2,3) utc_next_month [OF s(1), of n 1] by (auto simp: DAY_MS_def)
  show ?thesis
  proof (cases "boundaryFor c n m \<le> now")
    case True
    obtain n' m' where nm: "next_month (n, m) = (n', m')" by force
    with utc_day_next [OF s(1) nm] boundary_in_month(1) [of m' n' c] high
    have "now < boundaryFor c n' m'" by simp
    with True s(1) c nm show ?thesis by (intro exI [of _ n] exI [of _ m]) (simp add: cycleStart_def Let_def)
  next
    case False
    let ?pm = "if m = 0 then 11 else m - 1" and ?pn = "if m = 0 then n - 1 else n"
    have "m \<noteq> 0 \<or> n \<noteq> 0"
    proof (rule ccontr)
      assume "\<not> (m \<noteq> 0 \<or> n \<noteq> 0)"
      then have "utc_day n (Suc m) 1 \<le> 0" by (simp add: utc_day_def days_before_month_def month_len_def)
      with high assms show False by (simp add: DAY_MS_def)
    qed
    then have next_pm: "next_month (?pn, ?pm) = (n, m)" and pm: "?pm < 12"
      using s(1) by (auto simp: next_month_def)
    have "boundaryFor c ?pn ?pm \<le> now"
    proof -
      have "boundaryFor c ?pn ?pm < DAY_MS * utc_day n m 1"
        using boundary_in_month(2) [OF pm, of c ?pn] utc_day_next [OF pm next_pm] by (simp only:)
      with low show ?thesis by simp
    qed
    with False c next_pm pm show ?thesis
      by (intro exI [of _ ?pn] exI [of _ ?pm]) (simp add: cycleStart_def Let_def)
  qed
qed

lemma cycle_start_is_last_boundary_witness:
  "\<exists>n m. m < 12 \<and> cycleStart 5184000000 31 = boundaryFor 31 n m"
  using cycle_start_is_last_boundary [of 5184000000 31] by auto

text \<open>The last day of February 1970: the cycle day 31 is clamped to the 28th.\<close>

lemma cycle_start_sample: "cycleStart 5097600000 31 = 5011200000"
  by code_simp

end
