(* ===== verification/Js_Values.thy ===== *)
theory Js_Values
  imports Json Billing_Cycle "HOL-Library.Multiset"
begin

text \<open>
  The functions of the JavaScript library that several components use: \<open>Number\<close> of a string, the
  stable \<open>Array.prototype.sort\<close> with a comparator, \<open>Date.parse\<close>, and the UTF-8 \<open>TextDecoder\<close>.
\<close>

section \<open>Number\<close>

text \<open>A decimal literal without its sign; a dot needs a digit on one of its sides.\<close>

definition str_decimal :: "string \<Rightarrow> rat option" where
  "str_decimal s =
     (let ds = digits_of s; r = after_digits s;
          dotted = (case r of c # _ \<Rightarrow> c = CHR ''.'' | [] \<Rightarrow> False);
          fs = (if dotted then digits_of (tl r) else []);
          r1 = (if dotted then after_digits (tl r) else r)
      in if ds = [] \<and> fs = [] then None
         else case parse_exponent r1 of
           Some (scale, []) \<Rightarrow> Some ((of_nat (nat_of_digits ds) + of_nat (nat_of_digits fs) / 10 ^ length fs) * scale)
         | _ \<Rightarrow> None)"

definition radix_digits :: "nat \<Rightarrow> string \<Rightarrow> nat option" where
  "radix_digits radix s =
     (if s \<noteq> [] \<and> list_all (\<lambda>c. case hex_val c of None \<Rightarrow> False | Some d \<Rightarrow> d < radix) s
      then Some (foldl (\<lambda>n c. radix * n + the (hex_val c)) 0 s) else None)"

definition str_radix :: "string \<Rightarrow> nat option" where
  "str_radix s =
     (if prefix ''0x'' s \<or> prefix ''0X'' s then radix_digits 16 (drop 2 s)
      else if prefix ''0o'' s \<or> prefix ''0O'' s then radix_digits 8 (drop 2 s)
      else if prefix ''0b'' s \<or> prefix ''0B'' s then radix_digits 2 (drop 2 s)
      else None)"

definition js_Number :: "string \<Rightarrow> js_num" where
  "js_Number raw =
     (let s = js_trim raw;
          signed = (case s of c # _ \<Rightarrow> c = CHR ''-'' \<or> c = CHR ''+'' | [] \<Rightarrow> False);
          negative = (case s of c # _ \<Rightarrow> c = CHR ''-'' | [] \<Rightarrow> False);
          m = (if signed then tl s else s)
      in if s = [] then Fin 0
         else case str_radix s of
           Some n \<Rightarrow> finite_num (of_nat n)
         | None \<Rightarrow>
             if m = ''Infinity'' then Infinite negative
             else case str_decimal m of None \<Rightarrow> NaN | Some q \<Rightarrow> finite_num (if negative then - q else q))"

text \<open>\<open>parseFloat\<close>: the longest prefix that is a decimal literal.\<close>

definition float_prefix :: "string \<Rightarrow> rat option" where
  "float_prefix s =
     (let ds = digits_of s; r = after_digits s;
          dotted = (case r of c # _ \<Rightarrow> c = CHR ''.'' | [] \<Rightarrow> False);
          fs = (if dotted then digits_of (tl r) else []);
          r1 = (if dotted then after_digits (tl r) else r);
          scale = (case parse_exponent r1 of Some (x, _) \<Rightarrow> x | None \<Rightarrow> 1)
      in if ds = [] \<and> fs = [] then None
         else Some ((of_nat (nat_of_digits ds) + of_nat (nat_of_digits fs) / 10 ^ length fs) * scale))"

definition js_parseFloat :: "string \<Rightarrow> js_num" where
  "js_parseFloat raw =
     (let s = dropWhile is_space raw;
          signed = (case s of c # _ \<Rightarrow> c = CHR ''-'' \<or> c = CHR ''+'' | [] \<Rightarrow> False);
          negative = (case s of c # _ \<Rightarrow> c = CHR ''-'' | [] \<Rightarrow> False);
          m = (if signed then tl s else s)
      in if prefix ''Infinity'' m then Infinite negative
         else case float_prefix m of None \<Rightarrow> NaN | Some q \<Rightarrow> finite_num (if negative then - q else q))"

text \<open>\<open>Number.isFinite(x) ? x : undefined\<close>.\<close>

fun finite_value :: "js_num \<Rightarrow> rat option" where
  "finite_value (Fin q) = Some q"
| "finite_value _ = None"

text \<open>\<open>String\<close> of a number; the text of a number that is no safe integer is a parameter.\<close>

fun js_number_text :: "(rat \<Rightarrow> string) \<Rightarrow> js_num \<Rightarrow> string" where
  "js_number_text other NaN = ''NaN''"
| "js_number_text other (Infinite negative) = (if negative then ''-Infinity'' else ''Infinity'')"
| "js_number_text other (Fin q) =
     (case quotient_of q of (n, d) \<Rightarrow> if d = 1 \<and> isSafeInteger n then show_int n else other q)"

lemma parseFloat_examples:
  "js_parseFloat ''-97.5 dBm'' = Fin (- 195 / 2)"
  "js_parseFloat '' 12e1x'' = Fin 120"
  "js_parseFloat ''5e'' = Fin 5"
  "js_parseFloat ''.'' = NaN"
  "js_parseFloat ''-Infinity'' = Infinite True"
  by code_simp+

text \<open>The sign of \<open>x - y\<close>, zero for a difference that is not a number.\<close>

fun diff_sign :: "js_num \<Rightarrow> js_num \<Rightarrow> int" where
  "diff_sign (Fin x) (Fin y) = (if x < y then - 1 else if x = y then 0 else 1)"
| "diff_sign (Infinite n) (Fin _) = (if n then - 1 else 1)"
| "diff_sign (Fin _) (Infinite n) = (if n then 1 else - 1)"
| "diff_sign (Infinite n) (Infinite n') = (if n = n' then 0 else if n then - 1 else 1)"
| "diff_sign _ _ = 0"

section \<open>Sorting with a comparator\<close>

text \<open>
  Any stable sort gives this list when the comparator is consistent on the items; for an
  inconsistent one the order is left to the implementation.
\<close>

fun js_insert :: "('a \<Rightarrow> 'a \<Rightarrow> int) \<Rightarrow> 'a \<Rightarrow> 'a list \<Rightarrow> 'a list" where
  "js_insert cmp x [] = [x]"
| "js_insert cmp x (y # ys) = (if cmp x y \<le> 0 then x # y # ys else y # js_insert cmp x ys)"

definition js_sort :: "('a \<Rightarrow> 'a \<Rightarrow> int) \<Rightarrow> 'a list \<Rightarrow> 'a list" where
  "js_sort cmp xs = foldr (js_insert cmp) xs []"

lemma mset_js_insert: "mset (js_insert cmp x ys) = add_mset x (mset ys)"
  by (induction ys) auto

lemma mset_js_sort [simp]: "mset (js_sort cmp xs) = mset xs"
  by (induction xs) (simp_all add: js_sort_def mset_js_insert)

lemma set_js_sort [simp]: "set (js_sort cmp xs) = set xs"
  by (metis mset_js_sort set_mset_mset)

lemma length_js_sort [simp]: "length (js_sort cmp xs) = length xs"
  by (metis mset_js_sort size_mset)

lemma distinct_js_sort [simp]: "distinct (map f (js_sort cmp xs)) = distinct (map f xs)"
  by (metis mset_js_sort mset_map mset_eq_imp_distinct_iff)

text \<open>What a comparator promises on the items it is asked about.\<close>

locale comparator =
  fixes cmp :: "'a \<Rightarrow> 'a \<Rightarrow> int" and item :: "'a \<Rightarrow> bool"
  assumes total: "item x \<Longrightarrow> item y \<Longrightarrow> 0 < cmp x y \<Longrightarrow> cmp y x \<le> 0"
    and trans: "item x \<Longrightarrow> item y \<Longrightarrow> item z \<Longrightarrow> cmp x y \<le> 0 \<Longrightarrow> cmp y z \<le> 0 \<Longrightarrow> cmp x z \<le> 0"
begin

lemma insert_sorted:
  assumes "item x" and "\<forall>y \<in> set ys. item y" and "sorted_wrt (\<lambda>a b. cmp a b \<le> 0) ys"
  shows "sorted_wrt (\<lambda>a b. cmp a b \<le> 0) (js_insert cmp x ys)"
  using assms
proof (induction ys)
  case (Cons y ys)
  have "set (js_insert cmp x ys) = insert x (set ys)"
    by (metis mset_js_insert set_mset_add_mset_insert set_mset_mset)
  with Cons total [of x y] trans [of x y] show ?case by auto
qed simp

lemma sort_sorted: "\<forall>x \<in> set xs. item x \<Longrightarrow> sorted_wrt (\<lambda>a b. cmp a b \<le> 0) (js_sort cmp xs)"
proof (induction xs)
  case (Cons x xs)
  then have "sorted_wrt (\<lambda>a b. cmp a b \<le> 0) (js_sort cmp xs)" by simp
  with insert_sorted [of x "js_sort cmp xs"] Cons.prems show ?case by (simp add: js_sort_def set_js_sort [unfolded js_sort_def])
qed (simp add: js_sort_def)

text \<open>The first \<open>n\<close> of the sorted items are not after any item left out.\<close>

lemma take_first:
  assumes "\<forall>x \<in> set xs. item x" and "a \<in> set (take n (js_sort cmp xs))" and "b \<in> set (drop n (js_sort cmp xs))"
  shows "cmp a b \<le> 0"
proof -
  have "sorted_wrt (\<lambda>a b. cmp a b \<le> 0) (take n (js_sort cmp xs) @ drop n (js_sort cmp xs))"
    using sort_sorted [OF assms(1)] by simp
  with assms(2,3) show ?thesis unfolding sorted_wrt_append by blast
qed

end

section \<open>Date.parse\<close>

definition digits_at :: "string \<Rightarrow> nat \<Rightarrow> nat \<Rightarrow> nat option" where
  "digits_at s i n =
     (let ds = take n (drop i s) in if length ds = n \<and> list_all is_digit ds then Some (nat_of_digits ds) else None)"

definition char_at :: "string \<Rightarrow> nat \<Rightarrow> char \<Rightarrow> bool" where
  "char_at s i c \<longleftrightarrow> i < length s \<and> s ! i = c"

text \<open>Minutes east of UTC, with whether they are legal.\<close>

definition iso_zone :: "string \<Rightarrow> (int \<times> bool) option" where
  "iso_zone z =
     (if z = ''Z'' then Some (0, True)
      else if length z = 6 \<and> (char_at z 0 (CHR ''+'') \<or> char_at z 0 (CHR ''-'')) \<and> char_at z 3 (CHR '':'') then
        (case (digits_at z 1 2, digits_at z 4 2) of
           (Some h, Some m) \<Rightarrow>
             Some ((if char_at z 0 (CHR ''-'') then - 1 else 1) * (60 * int h + int m), h < 24 \<and> m < 60)
         | _ \<Rightarrow> None)
      else None)"

definition iso_millis :: "string \<Rightarrow> (nat \<times> string) option" where
  "iso_millis r =
     (if char_at r 0 (CHR ''.'') then map_option (\<lambda>n. (n, drop 4 r)) (digits_at r 1 3) else Some (0, r))"

definition day_number :: "nat \<Rightarrow> nat \<Rightarrow> nat \<Rightarrow> int" where
  "day_number y m d =
     365 * int y + (int y + 3) div 4 - (int y + 99) div 100 + (int y + 399) div 400 - 719528 +
     days_before_month (int y) (m - 1) + int d - 1"

datatype iso_reading = NotIso | IllegalIso | IsoTime int

text \<open>\<open>YYYY-MM-DDTHH:mm:ss\<close> with optional milliseconds and a zone, the date-time form with an offset.\<close>

definition iso_date_time :: "string \<Rightarrow> iso_reading" where
  "iso_date_time s =
     (if char_at s 4 (CHR ''-'') \<and> char_at s 7 (CHR ''-'') \<and> char_at s 10 (CHR ''T'') \<and> char_at s 13 (CHR '':'') \<and>
         char_at s 16 (CHR '':'') then
        (case (digits_at s 0 4, digits_at s 5 2, digits_at s 8 2, digits_at s 11 2, digits_at s 14 2, digits_at s 17 2,
               iso_millis (drop 19 s)) of
           (Some y, Some mo, Some d, Some h, Some mi, Some sec, Some (ms, z)) \<Rightarrow>
             (case iso_zone z of
                None \<Rightarrow> NotIso
              | Some (offset, legal) \<Rightarrow>
                  if legal \<and> 1 \<le> mo \<and> mo \<le> 12 \<and> 1 \<le> d \<and> int d \<le> month_len (int y) (mo - 1) \<and>
                     (h < 24 \<or> h = 24 \<and> mi = 0 \<and> sec = 0 \<and> ms = 0) \<and> mi < 60 \<and> sec < 60
                  then IsoTime (DAY_MS * day_number y mo d + 3600000 * int h + 60000 * int mi + 1000 * int sec + int ms
                                - 60000 * offset)
                  else IllegalIso)
         | _ \<Rightarrow> NotIso)
      else NotIso)"

text \<open>
  \<open>None\<close> is \<open>NaN\<close>. What a string that is not of this form gives depends on the implementation and on
  the local zone, so it is a parameter.
\<close>

definition date_parse :: "(string \<Rightarrow> int option) \<Rightarrow> string \<Rightarrow> int option" where
  "date_parse other s = (case iso_date_time s of IsoTime t \<Rightarrow> Some t | IllegalIso \<Rightarrow> None | NotIso \<Rightarrow> other s)"

lemma iso_examples:
  "iso_date_time ''1970-01-01T00:00:00Z'' = IsoTime 0"
  "iso_date_time ''2025-08-21T17:20:16-05:00'' = IsoTime 1755814816000"
  "iso_date_time ''2024-02-30T17:20:16Z'' = IllegalIso"
  by code_simp+

section \<open>TextDecoder\<close>

definition REPLACEMENT :: string where "REPLACEMENT = [CHR 0xEF, CHR 0xBF, CHR 0xBD]"

definition byte_in :: "nat \<Rightarrow> nat \<Rightarrow> char \<Rightarrow> bool" where
  "byte_in lo hi c \<longleftrightarrow> lo \<le> (of_char c :: nat) \<and> (of_char c :: nat) \<le> hi"

text \<open>The ranges of the continuation bytes that may follow a lead byte.\<close>

definition continuations :: "char \<Rightarrow> (nat \<times> nat) list option" where
  "continuations c =
     (let n = (of_char c :: nat); any = (128, 191) in
      if n < 128 then Some []
      else if 194 \<le> n \<and> n \<le> 223 then Some [any]
      else if n = 224 then Some [(160, 191), any]
      else if n = 237 then Some [(128, 159), any]
      else if 225 \<le> n \<and> n \<le> 239 then Some [any, any]
      else if n = 240 then Some [(144, 191), any, any]
      else if n = 244 then Some [(128, 143), any, any]
      else if 241 \<le> n \<and> n \<le> 243 then Some [any, any, any]
      else None)"

text \<open>The continuation bytes that are there, whether they are all, and what follows.\<close>

fun take_continuations :: "(nat \<times> nat) list \<Rightarrow> string \<Rightarrow> string \<times> bool \<times> string" where
  "take_continuations [] s = ([], True, s)"
| "take_continuations (_ # _) [] = ([], False, [])"
| "take_continuations ((lo, hi) # rs) (c # s) =
     (if byte_in lo hi c then (case take_continuations rs s of (cs, whole, r) \<Rightarrow> (c # cs, whole, r)) else ([], False, c # s))"

lemma take_continuations_length: "take_continuations rs s = (cs, whole, r) \<Longrightarrow> length r \<le> length s"
  by (induction rs s arbitrary: cs whole r rule: take_continuations.induct) (auto split: if_splits prod.splits)

function utf8_lossy :: "string \<Rightarrow> string" where
  "utf8_lossy [] = []"
| "utf8_lossy (c # s) =
     (case continuations c of
        None \<Rightarrow> REPLACEMENT @ utf8_lossy s
      | Some rs \<Rightarrow>
          (case take_continuations rs s of
             (cs, whole, r) \<Rightarrow> (if whole then c # cs else REPLACEMENT) @ utf8_lossy r))"
  by pat_completeness auto
termination
  by (relation "measure length") (auto dest: take_continuations_length [OF sym])

definition BOM :: string where "BOM = [CHR 0xEF, CHR 0xBB, CHR 0xBF]"

definition text_decode :: "string \<Rightarrow> string" where
  "text_decode s = utf8_lossy (if prefix BOM s then drop 3 s else s)"

text \<open>Valid UTF-8 decodes to itself.\<close>

function utf8_valid :: "string \<Rightarrow> bool" where
  "utf8_valid [] \<longleftrightarrow> True"
| "utf8_valid (c # s) \<longleftrightarrow>
     (case continuations c of
        None \<Rightarrow> False
      | Some rs \<Rightarrow> (case take_continuations rs s of (_, whole, r) \<Rightarrow> whole \<and> utf8_valid r))"
  by pat_completeness auto
termination
  by (relation "measure length") (auto dest: take_continuations_length [OF sym])

lemma take_continuations_whole: "take_continuations rs s = (cs, True, r) \<Longrightarrow> s = cs @ r"
  by (induction rs s arbitrary: cs r rule: take_continuations.induct) (auto split: if_splits prod.splits)

lemma utf8_lossy_valid: "utf8_valid s \<Longrightarrow> utf8_lossy s = s"
proof (induction s rule: utf8_lossy.induct)
  case (2 c s)
  then obtain rs cs r where rs: "continuations c = Some rs" "take_continuations rs s = (cs, True, r)" "utf8_valid r"
    by (auto split: option.splits prod.splits)
  from 2(2) [OF rs(1) rs(2) [symmetric]] rs take_continuations_whole [OF rs(2)] show ?case by simp
qed simp

lemma ascii_valid: "\<forall>c \<in> set s. (of_char c :: nat) < 128 \<Longrightarrow> utf8_valid s"
  by (induction s) (auto simp: continuations_def)

end
