(* ===== verification/Observation_Envelope.thy ===== *)
theory Observation_Envelope
  imports Domain_State Js_Values
begin

text \<open>
  The observation layer without its sources (\<open>domain/observation.ts\<close>, \<open>observations/envelope.ts\<close>,
  \<open>freshness.ts\<close>, \<open>metric.ts\<close>, \<open>reading.ts\<close>, \<open>state-separation.ts\<close> and the provenance of
  \<open>provenance.ts\<close>): the envelope of a read, how it ages, the metric with its reason for having no
  value, the reading a consumer renders, and the comparison of desired, applied and observed.
  The union of an envelope's freshness with its value is one datatype, as its type pairs them. A
  freshness window is a whole number of milliseconds.
\<close>

section \<open>The envelope\<close>

datatype obs_authority = Authoritative | DerivedAuthority | Advisory

datatype obs_stale_reason = EpochSuperseded | TtlExpired | SourceDegraded
datatype obs_unavailable_reason = ReadSourceUnavailable | DeviceAbsent | ProviderUnavailable

datatype 'a obs_body =
    FreshValue 'a
  | StaleValue int obs_stale_reason 'a
  | NoValue int obs_unavailable_reason

record 'a observation_envelope =
  en_stableKey :: string
  en_generation :: int
  en_source :: string
  en_sourceEpoch :: int
  en_observedAt :: int
  en_authority :: obs_authority
  en_body :: "'a obs_body"

definition sourceEpoch :: "int \<Rightarrow> domain_error + int" where
  "sourceEpoch value = nonNegativeInteger value ''sourceEpoch''"

datatype 'a envelope_view =
    ValuedView 'a "(int \<times> obs_stale_reason) option"
  | UnavailableView int obs_unavailable_reason

definition viewEnvelope :: "'a observation_envelope \<Rightarrow> 'a envelope_view" where
  "viewEnvelope e =
     (case en_body e of
        FreshValue v \<Rightarrow> ValuedView v None
      | StaleValue since reason v \<Rightarrow> ValuedView v (Some (since, reason))
      | NoValue since reason \<Rightarrow> UnavailableView since reason)"

datatype source_kind = ModemManagerSource | HuaweiHilinkSource | ZteGoformSource | UfiHimiSource | NetworkManagerSource

fun source_name :: "source_kind \<Rightarrow> string" where
  "source_name ModemManagerSource = ''modemmanager''"
| "source_name HuaweiHilinkSource = ''huawei-hilink''"
| "source_name ZteGoformSource = ''zte-goform''"
| "source_name UfiHimiSource = ''ufi-himiapi''"
| "source_name NetworkManagerSource = ''networkmanager''"

record normalization_context =
  nc_stableKey :: string
  nc_generation :: int
  nc_sourceEpoch :: int
  nc_observedAt :: int
  nc_authority :: "obs_authority option"

definition contextAuthority :: "normalization_context \<Rightarrow> obs_authority" where
  "contextAuthority context = (case nc_authority context of None \<Rightarrow> Authoritative | Some a \<Rightarrow> a)"

record metric_provenance =
  mp_source :: source_kind
  mp_sourceEpoch :: int
  mp_observedAt :: int
  mp_authority :: obs_authority
  mp_rawFields :: "string list"

definition metricProvenance ::
  "source_kind \<Rightarrow> normalization_context \<Rightarrow> string list \<Rightarrow> obs_authority option \<Rightarrow> metric_provenance" where
  "metricProvenance source context rawFields authority =
     \<lparr>mp_source = source, mp_sourceEpoch = nc_sourceEpoch context, mp_observedAt = nc_observedAt context,
      mp_authority = (case authority of None \<Rightarrow> contextAuthority context | Some a \<Rightarrow> a), mp_rawFields = rawFields\<rparr>"

definition freshObservation :: "source_kind \<Rightarrow> normalization_context \<Rightarrow> 'a \<Rightarrow> 'a observation_envelope" where
  "freshObservation source context value =
     \<lparr>en_stableKey = nc_stableKey context, en_generation = nc_generation context, en_source = source_name source,
      en_sourceEpoch = nc_sourceEpoch context, en_observedAt = nc_observedAt context,
      en_authority = contextAuthority context, en_body = FreshValue value\<rparr>"

definition unavailableObservation ::
  "source_kind \<Rightarrow> normalization_context \<Rightarrow> obs_unavailable_reason \<Rightarrow> 'a observation_envelope" where
  "unavailableObservation source context reason =
     \<lparr>en_stableKey = nc_stableKey context, en_generation = nc_generation context, en_source = source_name source,
      en_sourceEpoch = nc_sourceEpoch context, en_observedAt = nc_observedAt context,
      en_authority = contextAuthority context, en_body = NoValue (nc_observedAt context) reason\<rparr>"

section \<open>Ageing\<close>

record freshness_evaluation =
  fe_at :: int
  fe_ttlMs :: int
  fe_currentSourceEpoch :: "int option"
  fe_currentGeneration :: "int option"
  fe_sourceHealthy :: "bool option"

definition observationAgeMs :: "'a observation_envelope \<Rightarrow> int \<Rightarrow> int" where
  "observationAgeMs e now = max 0 (now - en_observedAt e)"

definition staleReason :: "'a observation_envelope \<Rightarrow> freshness_evaluation \<Rightarrow> obs_stale_reason option" where
  "staleReason e ev =
     (if (case fe_currentGeneration ev of Some g \<Rightarrow> \<not> isCurrentGeneration (en_generation e) g | None \<Rightarrow> False)
      then Some EpochSuperseded
      else if (case fe_currentSourceEpoch ev of Some se \<Rightarrow> en_sourceEpoch e \<noteq> se | None \<Rightarrow> False)
      then Some EpochSuperseded
      else if fe_sourceHealthy ev = Some False then Some SourceDegraded
      else if observationAgeMs e (fe_at ev) > fe_ttlMs ev then Some TtlExpired
      else None)"

definition staleSince :: "'a observation_envelope \<Rightarrow> freshness_evaluation \<Rightarrow> obs_stale_reason \<Rightarrow> domain_error + int" where
  "staleSince e ev reason =
     (if reason = TtlExpired then epochMillis (en_observedAt e + fe_ttlMs ev) else Inr (fe_at ev))"

definition evaluateFreshness ::
  "freshness_evaluation \<Rightarrow> 'a observation_envelope \<Rightarrow> domain_error + 'a observation_envelope" where
  "evaluateFreshness ev e =
     (case viewEnvelope e of
        ValuedView v None \<Rightarrow>
          (case staleReason e ev of
             None \<Rightarrow> Inr e
           | Some reason \<Rightarrow>
               sum_bind (staleSince e ev reason) (\<lambda>since. Inr (e\<lparr>en_body := StaleValue since reason v\<rparr>)))
      | _ \<Rightarrow> Inr e)"

text \<open>An envelope that is re-evaluated again and again, as a consumer does on every render.\<close>

definition age_through ::
  "freshness_evaluation list \<Rightarrow> 'a observation_envelope \<Rightarrow> domain_error + 'a observation_envelope" where
  "age_through evs e = foldl (\<lambda>r ev. sum_bind r (evaluateFreshness ev)) (Inr e) evs"

section \<open>Metrics\<close>

datatype missing_reason =
    UnsupportedField | NotReported | NotObserved | Malformed | AuthExpired | Refused | Unreachable

datatype unknown_class = CapabilityClass | ReadClass

definition metricUnknownClass :: "missing_reason \<Rightarrow> unknown_class" where
  "metricUnknownClass reason = (if reason = UnsupportedField then CapabilityClass else ReadClass)"

definition isCapabilityUnknown :: "missing_reason \<Rightarrow> bool" where
  "isCapabilityUnknown reason \<longleftrightarrow> metricUnknownClass reason = CapabilityClass"

datatype 'v obs_metric =
    KnownMetric 'v metric_provenance
  | UnknownMetric missing_reason metric_provenance

definition metricFromOptional :: "'v option \<Rightarrow> missing_reason \<Rightarrow> metric_provenance \<Rightarrow> 'v obs_metric" where
  "metricFromOptional value reason p = (case value of None \<Rightarrow> UnknownMetric reason p | Some v \<Rightarrow> KnownMetric v p)"

fun mapMetric :: "('v \<Rightarrow> 'w) \<Rightarrow> 'v obs_metric \<Rightarrow> 'w obs_metric" where
  "mapMetric f (KnownMetric v p) = KnownMetric (f v) p"
| "mapMetric f (UnknownMetric r p) = UnknownMetric r p"

section \<open>Readings\<close>

record envelope_provenance =
  ep_stableKey :: string
  ep_generation :: int
  ep_source :: string
  ep_sourceEpoch :: int
  ep_observedAt :: int
  ep_authority :: obs_authority

definition envelopeProvenance :: "'a observation_envelope \<Rightarrow> envelope_provenance" where
  "envelopeProvenance e =
     \<lparr>ep_stableKey = en_stableKey e, ep_generation = en_generation e, ep_source = en_source e,
      ep_sourceEpoch = en_sourceEpoch e, ep_observedAt = en_observedAt e, ep_authority = en_authority e\<rparr>"

datatype 'v reading_state =
    FreshReading 'v metric_provenance
  | StaleReading 'v int obs_stale_reason metric_provenance
  | UnavailableReading int obs_unavailable_reason
  | UnknownReading missing_reason metric_provenance

record 'v observation_reading =
  rd_envelope :: envelope_provenance
  rd_state :: "'v reading_state"

definition readMetric :: "'a observation_envelope \<Rightarrow> ('a \<Rightarrow> 'v obs_metric) \<Rightarrow> 'v observation_reading" where
  "readMetric e select =
     \<lparr>rd_envelope = envelopeProvenance e,
      rd_state =
        (case viewEnvelope e of
           UnavailableView since reason \<Rightarrow> UnavailableReading since reason
         | ValuedView value stale \<Rightarrow>
             (case select value of
                UnknownMetric reason p \<Rightarrow> UnknownReading reason p
              | KnownMetric v p \<Rightarrow>
                  (case stale of
                     Some (since, reason) \<Rightarrow> StaleReading v since reason p
                   | None \<Rightarrow> FreshReading v p)))\<rparr>"

fun hasReadableValue :: "'v observation_reading \<Rightarrow> bool" where
  "hasReadableValue r = (case rd_state r of FreshReading _ _ \<Rightarrow> True | StaleReading _ _ _ _ \<Rightarrow> True | _ \<Rightarrow> False)"

section \<open>Desired, applied, observed\<close>

record 'a desired_profile =
  dp_profile :: 'a
  dp_requestedAt :: int
  dp_requestedBy :: string

record 'a applied_configuration =
  ac_configuration :: 'a
  ac_appliedAt :: int
  ac_generation :: int
  ac_operationId :: string

record 'a modem_state_view =
  sv_desired :: "'a desired_profile option"
  sv_applied :: "'a applied_configuration option"
  sv_observed :: "'a observation_envelope"

datatype view_slot = DesiredSlot | AppliedSlot | ObservedSlot
datatype slot_comparison = Aligned | Diverged | Indeterminate view_slot

record state_divergence =
  dv_desiredVsApplied :: slot_comparison
  dv_appliedVsObserved :: slot_comparison

definition compareSlots :: "'a option \<Rightarrow> 'a option \<Rightarrow> view_slot \<Rightarrow> ('a \<Rightarrow> 'a \<Rightarrow> bool) \<Rightarrow> slot_comparison" where
  "compareSlots left right missing equals =
     (case (left, right) of
        (Some l, Some r) \<Rightarrow> if equals l r then Aligned else Diverged
      | _ \<Rightarrow> Indeterminate missing)"

definition observedValue :: "'a observation_envelope \<Rightarrow> 'a option" where
  "observedValue e = (case viewEnvelope e of UnavailableView _ _ \<Rightarrow> None | ValuedView v _ \<Rightarrow> Some v)"

definition describeStateDivergence :: "'a modem_state_view \<Rightarrow> ('a \<Rightarrow> 'a \<Rightarrow> bool) \<Rightarrow> state_divergence" where
  "describeStateDivergence view equals =
     \<lparr>dv_desiredVsApplied =
        compareSlots (map_option dp_profile (sv_desired view)) (map_option ac_configuration (sv_applied view))
          (if sv_desired view = None then DesiredSlot else AppliedSlot) equals,
      dv_appliedVsObserved =
        compareSlots (map_option ac_configuration (sv_applied view)) (observedValue (sv_observed view))
          (if sv_applied view = None then AppliedSlot else ObservedSlot) equals\<rparr>"

section \<open>Ageing keeps the reading and its first cause\<close>

definition is_fresh :: "'a observation_envelope \<Rightarrow> bool" where
  "is_fresh e \<longleftrightarrow> (case en_body e of FreshValue _ \<Rightarrow> True | _ \<Rightarrow> False)"

lemma evaluate_not_fresh: "\<not> is_fresh e \<Longrightarrow> evaluateFreshness ev e = Inr e"
  by (cases "en_body e") (simp_all add: evaluateFreshness_def viewEnvelope_def is_fresh_def)

lemma aged_stays: "\<not> is_fresh e \<Longrightarrow> age_through evs e = Inr e"
  by (induction evs) (simp_all add: age_through_def evaluate_not_fresh)

lemma age_through_Inl: "foldl (\<lambda>r ev. sum_bind r (evaluateFreshness ev)) (Inl x) evs = Inl x"
  by (induction evs) simp_all

lemma age_through_Cons:
  "age_through (ev # evs) e = sum_bind (evaluateFreshness ev e) (age_through evs)"
  by (cases "evaluateFreshness ev e") (simp_all add: age_through_def age_through_Inl)

lemma evaluate_result:
  assumes "evaluateFreshness ev e = Inr e'"
  shows "observedValue e' = observedValue e" and "envelopeProvenance e' = envelopeProvenance e"
  using assms
  by (auto simp: evaluateFreshness_def viewEnvelope_def observedValue_def envelopeProvenance_def sum_bind_Inr
      split: obs_body.splits option.splits)

lemma age_result:
  assumes "age_through evs e = Inr e'"
  shows "observedValue e' = observedValue e \<and> envelopeProvenance e' = envelopeProvenance e"
  using assms
proof (induction evs arbitrary: e)
  case Nil
  then show ?case by (simp add: age_through_def)
next
  case (Cons ev evs)
  then obtain e1 where e1: "evaluateFreshness ev e = Inr e1" "age_through evs e1 = Inr e'"
    by (auto simp: age_through_Cons sum_bind_Inr)
  show ?case using Cons.IH [OF e1(2)] evaluate_result [OF e1(1)] by simp
qed

text \<open>Only the first evaluation that finds a cause has an effect.\<close>

lemma age_through_first:
  "age_through evs e =
     (case find (\<lambda>ev. staleReason e ev \<noteq> None) evs of None \<Rightarrow> Inr e | Some ev \<Rightarrow> evaluateFreshness ev e)"
proof (induction evs)
  case Nil
  show ?case by (simp add: age_through_def)
next
  case (Cons ev evs)
  show ?case
  proof (cases "is_fresh e")
    case False
    from aged_stays [OF False, of "ev # evs"] evaluate_not_fresh [OF False] show ?thesis
      by (simp split: option.splits)
  next
    case True
    then obtain w where w: "en_body e = FreshValue w" by (auto simp: is_fresh_def split: obs_body.splits)
    show ?thesis
    proof (cases "staleReason e ev")
      case None
      with w have "evaluateFreshness ev e = Inr e" by (simp add: evaluateFreshness_def viewEnvelope_def)
      with Cons None show ?thesis by (simp add: age_through_Cons)
    next
      case (Some r)
      then have "age_through (ev # evs) e = evaluateFreshness ev e"
      proof (cases "evaluateFreshness ev e")
        case (Inr e1)
        with w Some have "\<not> is_fresh e1"
          by (auto simp: evaluateFreshness_def viewEnvelope_def sum_bind_Inr is_fresh_def)
        from aged_stays [OF this, of evs] Inr show ?thesis by (simp add: age_through_Cons)
      qed (simp add: age_through_Cons)
      with Some show ?thesis by simp
    qed
  qed
qed

lemma read_value:
  "(case rd_state (readMetric e select) of FreshReading v _ \<Rightarrow> Some v | StaleReading v _ _ _ \<Rightarrow> Some v | _ \<Rightarrow> None) =
     (case observedValue e of
        None \<Rightarrow> None
      | Some a \<Rightarrow> (case select a of KnownMetric v _ \<Rightarrow> Some v | UnknownMetric _ _ \<Rightarrow> None))"
  by (auto simp: readMetric_def viewEnvelope_def observedValue_def split: obs_body.splits obs_metric.splits)

definition readable_value :: "'v observation_reading \<Rightarrow> 'v option" where
  "readable_value r = (case rd_state r of FreshReading v _ \<Rightarrow> Some v | StaleReading v _ _ _ \<Rightarrow> Some v | _ \<Rightarrow> None)"


definition sample_envelope :: "int observation_envelope" where
  "sample_envelope =
     freshObservation ModemManagerSource
       \<lparr>nc_stableKey = ''slot:a'', nc_generation = 3, nc_sourceEpoch = 7, nc_observedAt = 1000, nc_authority = None\<rparr> 42"

definition sample_evaluation :: "int \<Rightarrow> int option \<Rightarrow> freshness_evaluation" where
  "sample_evaluation now generation =
     \<lparr>fe_at = now, fe_ttlMs = 500, fe_currentSourceEpoch = Some 7, fe_currentGeneration = generation, fe_sourceHealthy = None\<rparr>"


section \<open>The verdicts on the three slots\<close>

text \<open>
  A slot that is missing is never agreement, and an observation that carries no value cannot confirm that a
  write held; the two comparisons are independent.
\<close>

lemma divergence_needs_both_sides:
  "(dv_desiredVsApplied (describeStateDivergence view equals) = Aligned \<longleftrightarrow>
      (\<exists>d a. sv_desired view = Some d \<and> sv_applied view = Some a \<and> equals (dp_profile d) (ac_configuration a))) \<and>
   (dv_appliedVsObserved (describeStateDivergence view equals) = Aligned \<longleftrightarrow>
      (\<exists>a v. sv_applied view = Some a \<and> observedValue (sv_observed view) = Some v \<and> equals (ac_configuration a) v)) \<and>
   (dv_appliedVsObserved (describeStateDivergence view equals) = Indeterminate ObservedSlot \<longleftrightarrow>
      sv_applied view \<noteq> None \<and> observedValue (sv_observed view) = None)"
  by (cases "sv_desired view"; cases "sv_applied view"; cases "observedValue (sv_observed view)")
    (auto simp: describeStateDivergence_def compareSlots_def)

end
