(* ===== verification/Redact.thy ===== *)
theory Redact
  imports Json
begin

text \<open>
  Redaction (\<open>redact.ts\<close>): the walk that replaces every value under a sensitive key by the marker.
  A value is a tree: a leaf (a primitive, or an opaque object such as a Date), an array, or a plain
  object with its own enumerable properties in order.
\<close>

section \<open>Keys\<close>

datatype leaf = LeafString string | LeafNumber js_num | LeafBool bool | LeafNull | LeafOpaque nat

datatype js_value = JsLeaf leaf | JsArray "js_value list" | JsObject "(string \<times> js_value) list"

definition REDACTED :: js_value where "REDACTED = JsLeaf (LeafString ''[redacted]'')"

definition SENSITIVE_KEYS :: "string list" where
  "SENSITIVE_KEYS = [''iccid'', ''imsi'', ''eid'', ''imei'', ''equipmentidentifier'',
     ''equipment-identifier'', ''equipment_identifier'', ''pin'', ''pin2'', ''newpin'', ''puk'',
     ''puk2'', ''password'', ''passwd'', ''subscriptionid'']"

definition LOCATION_KEYS :: "string list" where
  "LOCATION_KEYS = [''latitude'', ''longitude'', ''altitude'', ''lat'', ''lon'', ''lng'', ''nmea'',
     ''nmeasentences'', ''coordinates'']"

definition SMS_SENSITIVE_KEYS :: "string list" where
  "SMS_SENSITIVE_KEYS = [''smstext'', ''smsbody'', ''smsfrom'', ''smssender'', ''smsnumber'',
     ''messagetext'', ''messagebody'', ''msisdn'', ''sender'', ''sms.content.text'',
     ''sms.content.number'']"

definition USSD_SENSITIVE_KEYS :: "string list" where
  "USSD_SENSITIVE_KEYS = [''ussd'', ''ussdcommand'', ''ussdreply'', ''ussdresponse'', ''ussdtext'',
     ''networknotification'', ''networkrequest'']"

definition OWN_NUMBER_SENSITIVE_KEYS :: "string list" where
  "OWN_NUMBER_SENSITIVE_KEYS = [''ownnumber'', ''ownnumbers'', ''phonenumber'', ''phonenumbers'',
     ''simnumber'', ''subscribernumber'', ''modemgenericownnumbers'', ''modemownnumbers'']"

text \<open>\<open>replace(/[...]/g, "")\<close>.\<close>

definition strip_chars :: "char list \<Rightarrow> string \<Rightarrow> string" where
  "strip_chars cs s = filter (\<lambda>c. c \<notin> set cs) s"

definition isSmsSensitiveKey :: "string \<Rightarrow> bool" where
  "isSmsSensitiveKey key \<longleftrightarrow> strip_chars ''_-'' (js_lower key) \<in> set SMS_SENSITIVE_KEYS"

definition isUssdSensitiveKey :: "string \<Rightarrow> bool" where
  "isUssdSensitiveKey key \<longleftrightarrow> strip_chars ''_-'' (js_lower key) \<in> set USSD_SENSITIVE_KEYS"

definition isOwnNumberSensitiveKey :: "string \<Rightarrow> bool" where
  "isOwnNumberSensitiveKey key \<longleftrightarrow> strip_chars ''_.-'' (js_lower key) \<in> set OWN_NUMBER_SENSITIVE_KEYS"

text \<open>The part after the last dot.\<close>

definition last_segment :: "string \<Rightarrow> string" where
  "last_segment s = rev (takeWhile (\<lambda>c. c \<noteq> CHR ''.'') (rev s))"

definition isSensitiveKey :: "string \<Rightarrow> bool" where
  "isSensitiveKey key =
     (let lower = js_lower key in
      if lower \<in> set SENSITIVE_KEYS \<or> lower \<in> set LOCATION_KEYS then True
      else if isSmsSensitiveKey key \<or> isUssdSensitiveKey key \<or> isOwnNumberSensitiveKey key then True
      else if CHR ''.'' \<notin> set lower then False
      else let lf = last_segment lower in lf \<in> set SENSITIVE_KEYS \<or> lf \<in> set LOCATION_KEYS)"

section \<open>The walk\<close>

text \<open>
  The copy is filled by assignment: assigning to \<open>__proto__\<close> sets the prototype of the copy and
  adds no property of its own.
\<close>

definition PROTO :: string where "PROTO = ''__proto__''"

fun redactValue :: "js_value \<Rightarrow> bool \<Rightarrow> js_value" where
  "redactValue v True = REDACTED"
| "redactValue (JsLeaf l) False = JsLeaf l"
| "redactValue (JsArray vs) False = JsArray (map (\<lambda>v. redactValue v False) vs)"
| "redactValue (JsObject ps) False =
     JsObject (map (\<lambda>(k, v). (k, redactValue v (isSensitiveKey k))) (filter (\<lambda>(k, v). k \<noteq> PROTO) ps))"

definition redact :: "js_value \<Rightarrow> js_value" where
  "redact v = redactValue v False"

section \<open>What is left in the copy\<close>

text \<open>The values held under a key anywhere in a value, with the key.\<close>

fun held :: "js_value \<Rightarrow> (string \<times> js_value) list" where
  "held (JsLeaf l) = []"
| "held (JsArray vs) = concat (map held vs)"
| "held (JsObject ps) = ps @ concat (map (\<lambda>(k, v). held v) ps)"

text \<open>The leaves that are not below a sensitive key: the only leaves the copy may contain.\<close>

fun public_leaves :: "js_value \<Rightarrow> leaf list" where
  "public_leaves (JsLeaf l) = [l]"
| "public_leaves (JsArray vs) = concat (map public_leaves vs)"
| "public_leaves (JsObject ps) =
     concat (map (\<lambda>(k, v). if isSensitiveKey k \<or> k = PROTO then [] else public_leaves v) ps)"

fun leaves :: "js_value \<Rightarrow> leaf list" where
  "leaves (JsLeaf l) = [l]"
| "leaves (JsArray vs) = concat (map leaves vs)"
| "leaves (JsObject ps) = concat (map (\<lambda>(k, v). leaves v) ps)"

fun redactable :: "js_value \<Rightarrow> bool" where
  "redactable (JsLeaf l) \<longleftrightarrow> True"
| "redactable (JsArray vs) \<longleftrightarrow> (\<forall>v \<in> set vs. redactable v)"
| "redactable (JsObject ps) \<longleftrightarrow> (\<forall>(k, v) \<in> set ps. (if isSensitiveKey k then v = REDACTED else redactable v) \<and> k \<noteq> PROTO)"

lemma held_REDACTED [simp]: "held REDACTED = []" and leaves_REDACTED [simp]: "leaves REDACTED = [LeafString ''[redacted]'']"
  by (simp_all add: REDACTED_def)

lemma redactable_REDACTED [simp]: "redactable REDACTED"
  by (simp add: REDACTED_def)

lemma redact_redactable: "redactable (redactValue v s)"
proof (induction v s rule: redactValue.induct)
  case (4 ps)
  have "redactable (redactValue v (isSensitiveKey k))" if "(k, v) \<in> set ps" "k \<noteq> PROTO" for k v
    using 4 [of "(k, v)" k v] that by auto
  then show ?case by (fastforce split: prod.splits if_splits)
qed auto

lemma redactable_fixed: "redactable v \<Longrightarrow> redactValue v False = v"
proof (induction v)
  case (JsArray vs)
  then show ?case by (auto intro: map_idI)
next
  case (JsObject ps)
  have p: "k \<noteq> PROTO \<and> redactValue v (isSensitiveKey k) = v" if "(k, v) \<in> set ps" for k v
  proof -
    have "redactable v \<Longrightarrow> redactValue v False = v"
      using JsObject.IH [OF that] by auto
    with JsObject.prems that show ?thesis by (cases "isSensitiveKey k") auto
  qed
  then have "filter (\<lambda>(k, v). k \<noteq> PROTO) ps = ps" by (auto intro: filter_True)
  moreover have "map (\<lambda>(k, v). (k, redactValue v (isSensitiveKey k))) ps = ps"
    by (rule map_idI) (use p in auto)
  ultimately show ?case by simp
qed simp

lemma redactable_held: "redactable v \<Longrightarrow> (k, w) \<in> set (held v) \<Longrightarrow> isSensitiveKey k \<Longrightarrow> w = REDACTED"
proof (induction v)
  case (JsObject ps)
  show ?case
  proof (cases "(k, w) \<in> set ps")
    case True
    with JsObject.prems show ?thesis by auto
  next
    case False
    with JsObject.prems(2) obtain k' v' where v': "(k', v') \<in> set ps" "(k, w) \<in> set (held v')" by auto
    with JsObject.prems(1) have "redactable v'" by (auto split: if_splits)
    with JsObject.IH [OF v'(1)] v'(2) JsObject.prems(3) show ?thesis by auto
  qed
qed auto

lemma redact_leaves:
  "set (leaves (redactValue v s)) \<subseteq> insert (LeafString ''[redacted]'') (if s then {} else set (public_leaves v))"
proof (induction v s rule: redactValue.induct)
  case (4 ps)
  then show ?case by (fastforce split: prod.splits if_splits)
qed auto

lemma redact_keeps_public: "set (public_leaves v) \<subseteq> set (leaves (redactValue v False))"
proof (induction v)
  case (JsObject ps)
  show ?case
  proof
    fix l assume "l \<in> set (public_leaves (JsObject ps))"
    then obtain k v where v: "(k, v) \<in> set ps" "\<not> isSensitiveKey k" "k \<noteq> PROTO" "l \<in> set (public_leaves v)"
      by (auto split: if_splits)
    with JsObject.IH [OF v(1)] have "l \<in> set (leaves (redactValue v False))" by auto
    with v(1-3) show "l \<in> set (leaves (redactValue (JsObject ps) False))"
      by (auto intro!: exI [of _ k] exI [of _ v])
  qed
qed auto

section \<open>Properties\<close>

text \<open>C14: whatever the depth, every value the redacted copy holds under a sensitive key is the marker, every leaf of the copy is the marker or a leaf of the input that lies under no sensitive key, every such leaf of the input is still in the copy, and redacting a redacted copy changes nothing.\<close>

theorem redact_hides_sensitive:
  "(\<forall>(k, w) \<in> set (held (redact v)). isSensitiveKey k \<longrightarrow> w = REDACTED) \<and>
   set (leaves (redact v)) \<subseteq> insert (LeafString ''[redacted]'') (set (public_leaves v)) \<and>
   set (public_leaves v) \<subseteq> set (leaves (redact v)) \<and>
   redact (redact v) = redact v"
proof (intro conjI)
  show "\<forall>(k, w) \<in> set (held (redact v)). isSensitiveKey k \<longrightarrow> w = REDACTED"
    using redactable_held [OF redact_redactable] by (auto simp: redact_def)
  show "set (leaves (redact v)) \<subseteq> insert (LeafString ''[redacted]'') (set (public_leaves v))"
    using redact_leaves [of v False] by (simp add: redact_def)
  show "set (public_leaves v) \<subseteq> set (leaves (redact v))"
    by (simp add: redact_def redact_keeps_public)
  show "redact (redact v) = redact v"
    by (simp add: redact_def redactable_fixed redact_redactable)
qed

definition sample_receipt :: js_value where
  "sample_receipt = JsObject [(''modem'', JsLeaf (LeafNumber (Fin 3))),
     (''slots'', JsArray [JsObject [(''ICCID'', JsLeaf (LeafString ''8934'')), (''active'', JsLeaf (LeafBool True))]]),
     (''gsm.password'', JsLeaf (LeafString ''secret'')), (''Own-Numbers'', JsArray [JsLeaf (LeafString ''34600'')])]"

lemma redact_sample:
  "redact sample_receipt = JsObject [(''modem'', JsLeaf (LeafNumber (Fin 3))),
     (''slots'', JsArray [JsObject [(''ICCID'', REDACTED), (''active'', JsLeaf (LeafBool True))]]),
     (''gsm.password'', REDACTED), (''Own-Numbers'', REDACTED)]"
  by code_simp

lemma redact_hides_sensitive_witness: "\<not> (''ICCID'', JsLeaf (LeafString ''8934'')) \<in> set (held (redact sample_receipt))"
proof -
  have "isSensitiveKey ''ICCID''" "JsLeaf (LeafString ''8934'') \<noteq> REDACTED" by code_simp+
  with redact_hides_sensitive [of sample_receipt] show ?thesis by blast
qed

end
