(* ===== verification/Raw_Fields.thy ===== *)
theory Raw_Fields
  imports Observation_Envelope Redact "HOL-Library.List_Lexorder" "HOL-Library.Char_ord"
begin

text \<open>
  The retention half of normalization (\<open>observations/raw.ts\<close>) and the diagnostics block
  (\<open>observations/provenance.ts\<close>): one flat record of everything the provider said, the accessors the
  metrics are read through, and the block with its claimed and unclaimed fields.
  A record is an association list in insertion order; its keys hold a dot, so none is an array index. The
  text of a number that is no safe integer is the parameter \<open>num_text\<close>.
\<close>

section \<open>Raw records\<close>

datatype raw_value = RawNull | RawFlag bool | RawNumber js_num | RawText string | RawList "raw_value list"

type_synonym raw_record = "(string \<times> raw_value) list"

definition rawKey :: "string \<Rightarrow> string \<Rightarrow> string" where
  "rawKey body field = body @ ''.'' @ field"

definition prefixRawRecord :: "string \<Rightarrow> raw_record option \<Rightarrow> raw_record" where
  "prefixRawRecord body given =
     foldl (\<lambda>out (field, value). AList.update (rawKey body field) value out) []
       (object_entries (case given of None \<Rightarrow> [] | Some r \<Rightarrow> r))"

definition mergeRawRecords :: "raw_record list \<Rightarrow> raw_record" where
  "mergeRawRecords records = foldl (foldl (\<lambda>out (key, value). AList.update key value out)) [] records"

definition rawString :: "(rat \<Rightarrow> string) \<Rightarrow> raw_record \<Rightarrow> string \<Rightarrow> string option" where
  "rawString num_text rec key =
     (case map_of rec key of
        Some (RawText s) \<Rightarrow> if js_trim s = [] then None else Some (js_trim s)
      | Some (RawNumber n) \<Rightarrow> Some (js_number_text num_text n)
      | Some (RawFlag b) \<Rightarrow> Some (if b then ''true'' else ''false'')
      | _ \<Rightarrow> None)"

text \<open>A number, or a text with a finite number at its start.\<close>

definition raw_number_of :: "raw_value option \<Rightarrow> rat option" where
  "raw_number_of v =
     (case v of
        Some (RawNumber n) \<Rightarrow> finite_value n
      | Some (RawText s) \<Rightarrow> if js_trim s = [] then None else finite_value (js_parseFloat s)
      | _ \<Rightarrow> None)"

definition rawNumber :: "raw_record \<Rightarrow> string \<Rightarrow> rat option" where
  "rawNumber rec key = raw_number_of (map_of rec key)"

definition rawStringArray :: "raw_record \<Rightarrow> string \<Rightarrow> string list option" where
  "rawStringArray rec key =
     (case map_of rec key of
        Some (RawList vs) \<Rightarrow> Some (List.map_filter (\<lambda>v. case v of RawText s \<Rightarrow> Some s | _ \<Rightarrow> None) vs)
      | _ \<Rightarrow> None)"

definition hasRawField :: "raw_record \<Rightarrow> string \<Rightarrow> bool" where
  "hasRawField rec key \<longleftrightarrow> map_of rec key \<noteq> None"

definition rawStructMember :: "raw_record \<Rightarrow> string \<Rightarrow> nat \<Rightarrow> raw_value option" where
  "rawStructMember rec key index =
     (case map_of rec key of
        Some (RawList vs) \<Rightarrow> if index < length vs then Some (vs ! index) else None
      | v \<Rightarrow> if index = 0 then v else None)"

definition rawNumberAt :: "raw_record \<Rightarrow> string \<Rightarrow> nat \<Rightarrow> rat option" where
  "rawNumberAt rec key index = raw_number_of (rawStructMember rec key index)"

definition rawBooleanAt :: "raw_record \<Rightarrow> string \<Rightarrow> nat \<Rightarrow> bool option" where
  "rawBooleanAt rec key index = (case rawStructMember rec key index of Some (RawFlag b) \<Rightarrow> Some b | _ \<Rightarrow> None)"

fun dict_entry :: "raw_value list \<Rightarrow> string \<Rightarrow> raw_value option" where
  "dict_entry [] member = None"
| "dict_entry (RawList (RawText k # v # rest) # es) member = (if k = member then Some v else dict_entry es member)"
| "dict_entry (_ # es) member = dict_entry es member"

definition rawDictMember :: "raw_record \<Rightarrow> string \<Rightarrow> string \<Rightarrow> raw_value option" where
  "rawDictMember rec key member = (case map_of rec key of Some (RawList es) \<Rightarrow> dict_entry es member | _ \<Rightarrow> None)"

definition hasRawDictMember :: "raw_record \<Rightarrow> string \<Rightarrow> string \<Rightarrow> bool" where
  "hasRawDictMember rec key member \<longleftrightarrow> rawDictMember rec key member \<noteq> None"

definition rawDictNumber :: "raw_record \<Rightarrow> string \<Rightarrow> string \<Rightarrow> rat option" where
  "rawDictNumber rec key member = raw_number_of (rawDictMember rec key member)"

section \<open>XML bodies\<close>

definition is_letter :: "char \<Rightarrow> bool" where
  "is_letter c \<longleftrightarrow> char_lower c \<in> set ''abcdefghijklmnopqrstuvwxyz''"

definition tag_char :: "char \<Rightarrow> bool" where
  "tag_char c \<longleftrightarrow> is_letter c \<or> is_digit c \<or> c \<in> set ''_.-''"

text \<open>\<open>XML_LEAF\<close> at the start of the text: tag, content, rest.\<close>

definition xml_leaf_at :: "string \<Rightarrow> (string \<times> string \<times> string) option" where
  "xml_leaf_at s =
     (let name = takeWhile tag_char (drop 1 s); after = drop (1 + length name) s;
          content = takeWhile (\<lambda>c. c \<noteq> CHR ''<'') (drop 1 after); rest = drop (1 + length content) after;
          close = ''</'' @ name @ ''>''
      in if prefix ''<'' s \<and> name \<noteq> [] \<and> (is_letter (hd name) \<or> hd name = CHR ''_'') \<and> prefix ''>'' after \<and> prefix close rest
         then Some (name, content, drop (length close) rest) else None)"

lemma xml_leaf_shorter: "xml_leaf_at s = Some (n, c, r) \<Longrightarrow> length r < length s"
proof -
  assume h: "xml_leaf_at s = Some (n, c, r)"
  then have "s \<noteq> []" by (auto simp: xml_leaf_at_def Let_def split: if_splits)
  moreover from h obtain i j k where "r = drop i (drop j (drop (1 + k) s))"
    by (auto simp only: xml_leaf_at_def Let_def split: if_splits)
  ultimately show ?thesis by (cases s) simp_all
qed

function xml_leaves :: "string \<Rightarrow> (string \<times> string) list" where
  "xml_leaves s =
     (if s = [] then []
      else case xml_leaf_at s of
        Some (name, content, r) \<Rightarrow> (name, content) # xml_leaves r
      | None \<Rightarrow> xml_leaves (tl s))"
  by pat_completeness auto
termination
  by (relation "measure length") (auto dest: xml_leaf_shorter)

declare xml_leaves.simps [simp del]

definition flatten_step ::
  "string \<Rightarrow> raw_record \<times> (string \<times> nat) list \<Rightarrow> string \<times> string \<Rightarrow> raw_record \<times> (string \<times> nat) list" where
  "flatten_step name st leaf =
     (case (st, leaf) of
        ((out, seen), (tag, content)) \<Rightarrow>
          let count = (case map_of seen tag of None \<Rightarrow> 0 | Some n \<Rightarrow> n) + 1
          in (AList.update (rawKey name (if count = 1 then tag else tag @ ''#'' @ show_nat count)) (RawText (js_trim content)) out,
              AList.update tag count seen))"

definition flattenXmlBody :: "string \<Rightarrow> string \<Rightarrow> raw_record" where
  "flattenXmlBody body name = fst (foldl (flatten_step name) ([], []) (xml_leaves body))"

section \<open>JSON bodies\<close>

text \<open>The order of the members in a parsed object: the array indices first.\<close>

primrec parsed_order :: "'n json \<Rightarrow> 'n json" where
  "parsed_order JNull = JNull"
| "parsed_order (JBool b) = JBool b"
| "parsed_order (JNum n) = JNum n"
| "parsed_order (JStr s) = JStr s"
| "parsed_order (JArr xs) = JArr (map parsed_order xs)"
| "parsed_order (JObj ms) = JObj (object_entries (map (map_prod id parsed_order) ms))"

fun stringify :: "(rat \<Rightarrow> string) \<Rightarrow> rat json \<Rightarrow> string" where
  "stringify num_text JNull = ''null''"
| "stringify num_text (JBool b) = (if b then ''true'' else ''false'')"
| "stringify num_text (JNum q) = (if js_finite q then js_number_text num_text (Fin q) else ''null'')"
| "stringify num_text (JStr s) = json_string s"
| "stringify num_text (JArr xs) = ''['' @ js_join '','' (map (stringify num_text) xs) @ '']''"
| "stringify num_text (JObj ms) =
     ''{'' @ js_join '','' (map (\<lambda>(k, v). json_string k @ '':'' @ stringify num_text v) ms) @ ''}''"

definition parseJsonObject :: "string \<Rightarrow> (string \<times> rat json) list option" where
  "parseJsonObject body = (case json_parse body of Some (JObj ms) \<Rightarrow> Some ms | _ \<Rightarrow> None)"

fun normalizeRawValue :: "(rat \<Rightarrow> string) \<Rightarrow> rat json \<Rightarrow> raw_value" where
  "normalizeRawValue num_text JNull = RawNull"
| "normalizeRawValue num_text (JBool b) = RawFlag b"
| "normalizeRawValue num_text (JNum q) = RawNumber (finite_num q)"
| "normalizeRawValue num_text (JStr s) = RawText s"
| "normalizeRawValue num_text (JArr xs) = RawList (map (normalizeRawValue num_text) xs)"
| "normalizeRawValue num_text (JObj ms) = RawText (stringify num_text (parsed_order (JObj ms)))"

text \<open>\<open>out[field] = value\<close> on an object literal: \<open>__proto__\<close> is its prototype and no field of it.\<close>

definition assign_field :: "string \<Rightarrow> 'v \<Rightarrow> (string \<times> 'v) list \<Rightarrow> (string \<times> 'v) list" where
  "assign_field field value out = (if field = PROTO then out else AList.update field value out)"

definition parseJsonRecord :: "(rat \<Rightarrow> string) \<Rightarrow> string \<Rightarrow> raw_record option" where
  "parseJsonRecord num_text body =
     map_option
       (\<lambda>parsed. foldl (\<lambda>out (field, value). assign_field field (normalizeRawValue num_text value) out) [] (object_entries parsed))
       (parseJsonObject body)"

section \<open>Diagnostics\<close>

datatype diagnostic_code = UnparseableBody | EmptyBody | AuthExpiredNote | FieldShapeUnrecognized

type_synonym diagnostic_note = "diagnostic_code \<times> string"

record diagnostics =
  dg_source :: source_kind
  dg_raw :: raw_record
  dg_consumed :: "string list"
  dg_unmapped :: "string list"
  dg_notes :: "diagnostic_note list"

definition createObservationDiagnostics ::
  "source_kind \<Rightarrow> raw_record \<Rightarrow> string list \<Rightarrow> diagnostic_note list \<Rightarrow> diagnostics" where
  "createObservationDiagnostics source raw consumed notes =
     (let rawKeys = map fst raw; claimed = sort (filter (\<lambda>key. key \<in> set rawKeys) (js_unique consumed))
      in \<lparr>dg_source = source, dg_raw = raw, dg_consumed = claimed,
          dg_unmapped = sort (filter (\<lambda>key. key \<notin> set claimed) rawKeys), dg_notes = notes\<rparr>)"

primrec js_of_raw :: "raw_value \<Rightarrow> js_value" where
  "js_of_raw RawNull = JsLeaf LeafNull"
| "js_of_raw (RawFlag b) = JsLeaf (LeafBool b)"
| "js_of_raw (RawNumber n) = JsLeaf (LeafNumber n)"
| "js_of_raw (RawText s) = JsLeaf (LeafString s)"
| "js_of_raw (RawList vs) = JsArray (map js_of_raw vs)"

text \<open>The cast back; a copy of a raw value holds no opaque leaf and no object.\<close>

fun raw_of_js :: "js_value \<Rightarrow> raw_value" where
  "raw_of_js (JsLeaf LeafNull) = RawNull"
| "raw_of_js (JsLeaf (LeafBool b)) = RawFlag b"
| "raw_of_js (JsLeaf (LeafNumber n)) = RawNumber n"
| "raw_of_js (JsLeaf (LeafString s)) = RawText s"
| "raw_of_js (JsLeaf (LeafOpaque _)) = RawNull"
| "raw_of_js (JsArray vs) = RawList (map raw_of_js vs)"
| "raw_of_js (JsObject ps) = RawNull"

definition redact_record :: "raw_record \<Rightarrow> raw_record" where
  "redact_record raw =
     (case redact (JsObject (map (map_prod id js_of_raw) raw)) of
        JsObject ps \<Rightarrow> map (map_prod id raw_of_js) ps
      | _ \<Rightarrow> [])"

definition redactObservationDiagnostics :: "diagnostics \<Rightarrow> diagnostics" where
  "redactObservationDiagnostics d = d\<lparr>dg_raw := redact_record (dg_raw d)\<rparr>"

section \<open>Nothing is dropped\<close>

lemma rawKey_inj [simp]: "rawKey body f = rawKey body g \<longleftrightarrow> f = g"
  by (simp add: rawKey_def)

lemma rawKey_body:
  assumes "CHR ''.'' \<notin> set b" and "CHR ''.'' \<notin> set b'"
  shows "rawKey b f = rawKey b' g \<longleftrightarrow> b = b' \<and> f = g"
proof
  have t: "takeWhile (\<lambda>c. c \<noteq> CHR ''.'') (rawKey x h) = x" if "CHR ''.'' \<notin> set x" for x h
    using that by (auto simp: rawKey_def takeWhile_append)
  assume k: "rawKey b f = rawKey b' g"
  from t [OF assms(1), of f] t [OF assms(2), of g] k have "b = b'" by simp
  with k show "b = b' \<and> f = g" by simp
qed simp

lemma foldl_assign_get:
  "distinct (map fst kvs) \<Longrightarrow>
   map_of (foldl (\<lambda>out (k, v). AList.update k v out) out kvs) k =
     (case map_of kvs k of Some v \<Rightarrow> Some v | None \<Rightarrow> map_of out k)"
proof (induction kvs arbitrary: out)
  case (Cons kv kvs)
  obtain k0 v0 where kv: "kv = (k0, v0)" by force
  with Cons.prems have "map_of kvs k0 = None" by (auto simp: map_of_eq_None_iff)
  with Cons kv show ?case by (auto simp: map_get_set split: option.splits)
qed simp

lemma foldl_assign_distinct:
  "distinct (map fst out) \<Longrightarrow> distinct (map fst (foldl (\<lambda>out (k, v). AList.update k v out) out kvs))"
  by (induction kvs arbitrary: out) (auto simp: distinct_keys_set split: prod.splits)

text \<open>The members of an object with distinct keys, in any order.\<close>

lemma map_of_object_entries: "map_of (object_entries ms) k = map_of ms k"
proof -
  have f: "map_of (filter (\<lambda>(k, _). P k) ms) k = (if P k then map_of ms k else None)" for P
    by (induction ms) auto
  have s: "map_of (sort_key h xs) k = map_of xs k" if "\<And>v w. h (k, v) = h (k, w)" for h :: "string \<times> 'a \<Rightarrow> nat" and xs
  proof -
    have i: "map_of (insort_key h x xs) k = map_of (x # xs) k" for x and xs :: "(string \<times> 'a) list"
    proof (induction xs)
      case (Cons y ys)
      show ?case
      proof (cases "h x \<le> h y")
        case False
        then have "\<not> (fst x = k \<and> fst y = k)" using that by (metis nle_le prod.collapse)
        with Cons False show ?thesis by (cases x; cases y) auto
      qed simp
    qed simp
    show ?thesis by (induction xs) (simp_all add: i)
  qed
  show ?thesis by (simp add: object_entries_def map_add_def s f split: option.splits)
qed

lemma distinct_object_entries: "distinct (map fst ms) \<Longrightarrow> distinct (map fst (object_entries ms))"
  by (auto simp: object_entries_def distinct_map inj_on_def)

lemma prefixed_get:
  assumes "distinct (map fst r)"
  shows "map_of (prefixRawRecord body (Some r)) (rawKey body f) = map_of r f"
proof -
  have g: "map_of (foldl (\<lambda>out (field, value). AList.update (rawKey body field) value out) out kvs) (rawKey body f) =
      (case map_of kvs f of Some v \<Rightarrow> Some v | None \<Rightarrow> map_of out (rawKey body f))"
    if "distinct (map fst kvs)" for out kvs
    using that
  proof (induction kvs arbitrary: out)
    case (Cons kv kvs)
    obtain k0 v0 where kv: "kv = (k0, v0)" by force
    with Cons.prems have "map_of kvs k0 = None" by (auto simp: map_of_eq_None_iff)
    with Cons kv show ?case by (auto simp: map_get_set split: option.splits)
  qed simp
  show ?thesis
    using g [OF distinct_object_entries [OF assms], of "[]"]
    by (simp add: prefixRawRecord_def map_of_object_entries split: option.splits)
qed

end
