(* ===== verification/Observation_Decoders.thy ===== *)
theory Observation_Decoders
  imports Raw_Fields "HOL-Library.Word"
begin

text \<open>
  The decoders the observation sources share: ModemManager's enums (\<open>domain/mm-enums.ts\<close>), the label of a
  modem (\<open>domain/modem-presentation.ts\<close>) and the SIM presence with the fact that decided it
  (\<open>readSimPresence\<close> of \<open>hardware/router-parsers.ts\<close>). A number is its exact value; a mask is read as
  JavaScript's signed 32-bit integer. Equipment ids are ASCII.
\<close>

section \<open>ModemManager enums\<close>

definition to_int32 :: "rat \<Rightarrow> 32 word" where
  "to_int32 q = word_of_int (if q < 0 then - \<lfloor>- q\<rfloor> else \<lfloor>q\<rfloor>)"

definition ACCESS_TECH_BITS :: "(nat \<times> radio_tech) list" where
  "ACCESS_TECH_BITS =
     [(1, Gsm), (2, Gsm), (3, Gsm), (4, Gsm), (5, Umts), (6, Umts), (7, Umts), (8, Umts), (9, Umts),
      (14, Lte), (15, Nr5g), (16, Lte), (17, Lte)]"

definition decodeMmAccessTechnologies :: "rat option \<Rightarrow> radio_tech list" where
  "decodeMmAccessTechnologies given =
     (case given of
        None \<Rightarrow> []
      | Some m \<Rightarrow>
          if m \<le> 0 then []
          else js_unique (map snd (filter (\<lambda>(n, _). bit (to_int32 m) n) ACCESS_TECH_BITS)))"

definition MODE_TOKENS :: "(nat \<times> string) list" where
  "MODE_TOKENS = [(1, ''2g''), (2, ''3g''), (3, ''4g''), (4, ''5g'')]"

definition modeMaskToLabel :: "rat option \<Rightarrow> string option" where
  "modeMaskToLabel given =
     (case given of
        None \<Rightarrow> None
      | Some m \<Rightarrow>
          if m \<le> 0 then None
          else (let named = map snd (filter (\<lambda>(n, _). bit (to_int32 m) n) MODE_TOKENS)
                in if named = [] then None else Some (concat (rev named))))"

definition MM_STATES :: "(rat \<times> string) list" where
  "MM_STATES =
     [(- 1, ''failed''), (1, ''initializing''), (2, ''locked''), (3, ''disabled''), (4, ''disabling''),
      (5, ''enabling''), (6, ''enabled''), (7, ''searching''), (8, ''registered''), (9, ''disconnecting''),
      (10, ''connecting''), (11, ''connected'')]"

definition decodeMmState :: "rat option \<Rightarrow> string" where
  "decodeMmState state =
     (case state of
        None \<Rightarrow> ''unknown''
      | Some s \<Rightarrow> (case map_of MM_STATES s of Some name \<Rightarrow> name | None \<Rightarrow> ''unknown''))"

definition decodeRegistrationState :: "rat option \<Rightarrow> string" where
  "decodeRegistrationState state =
     (if state = Some 0 then ''idle''
      else if state = Some 1 \<or> state = Some 6 \<or> state = Some 7 then ''home''
      else if state = Some 2 then ''searching''
      else if state = Some 3 then ''denied''
      else if state = Some 5 \<or> state = Some 8 \<or> state = Some 9 then ''roaming''
      else if state = Some 11 then ''emergency-only'' else ''unknown'')"

definition STATE_FAILED_REASONS :: "(rat \<times> string) list" where
  "STATE_FAILED_REASONS =
     [(0, ''none''), (1, ''unknown-reason''), (2, ''sim-missing''), (3, ''sim-error''),
      (4, ''unknown-capabilities''), (5, ''esim-without-profiles'')]"

definition decodeStateFailedReason :: "rat option \<Rightarrow> string option" where
  "decodeStateFailedReason value = (case value of None \<Rightarrow> None | Some v \<Rightarrow> map_of STATE_FAILED_REASONS v)"

definition decodeUnlockRequired :: "rat option \<Rightarrow> string option" where
  "decodeUnlockRequired lock =
     (if lock = Some 1 then Some ''none''
      else if lock = Some 2 then Some ''sim-pin''
      else if lock = Some 3 then Some ''sim-pin2''
      else if lock = Some 4 then Some ''sim-puk''
      else if lock = Some 5 then Some ''sim-puk2'' else None)"

datatype sim_kind = PhysicalSim | Esim
datatype esim_status = NoProfiles | WithProfiles
datatype packet_service = PsDetached | PsAttached

definition decodeSimType :: "rat option \<Rightarrow> sim_kind option" where
  "decodeSimType value = (if value = Some 1 then Some PhysicalSim else if value = Some 2 then Some Esim else None)"

definition decodeEsimStatus :: "rat option \<Rightarrow> esim_status option" where
  "decodeEsimStatus value = (if value = Some 1 then Some NoProfiles else if value = Some 2 then Some WithProfiles else None)"

definition decodePacketServiceState :: "rat option \<Rightarrow> packet_service option" where
  "decodePacketServiceState value =
     (if value = Some 1 then Some PsDetached else if value = Some 2 then Some PsAttached else None)"

definition NETWORK_REJECTIONS :: "(rat \<times> string) list" where
  "NETWORK_REJECTIONS =
     [(2, ''imsi-unknown-in-hlr''), (3, ''illegal-ms''), (4, ''imsi-unknown-in-vlr''), (5, ''imei-not-accepted''),
      (6, ''illegal-me''), (7, ''gprs-not-allowed''), (8, ''gprs-and-non-gprs-not-allowed''), (11, ''plmn-not-allowed''),
      (12, ''location-area-not-allowed''), (13, ''roaming-not-allowed-in-location-area''),
      (14, ''gprs-not-allowed-in-plmn''), (15, ''no-cells-in-location-area''), (17, ''network-failure''), (22, ''congestion'')]"

definition decodeNetworkRejectionError :: "rat option \<Rightarrow> string option" where
  "decodeNetworkRejectionError value = (case value of None \<Rightarrow> None | Some v \<Rightarrow> map_of NETWORK_REJECTIONS v)"

record lac_ci =
  lc_mcc :: string
  lc_mnc :: string
  lc_locationAreaCode :: string
  lc_cellId :: string
  lc_trackingAreaCode :: string

definition decode3gppLacCi :: "string option \<Rightarrow> lac_ci option" where
  "decode3gppLacCi value =
     (case value of
        None \<Rightarrow> None
      | Some v \<Rightarrow>
          (case map js_trim (js_split (CHR '','') (js_trim v)) of
             [mcc, mnc, lac, ci, tac] \<Rightarrow>
               if mcc = [] \<or> mnc = [] \<or> ci = [] then None
               else Some \<lparr>lc_mcc = mcc, lc_mnc = mnc, lc_locationAreaCode = lac, lc_cellId = ci, lc_trackingAreaCode = tac\<rparr>
           | _ \<Rightarrow> None))"

definition lacCiOperatorCode :: "lac_ci \<Rightarrow> string" where
  "lacCiOperatorCode decoded = lc_mcc decoded @ lc_mnc decoded"

section \<open>The label of a modem\<close>

record hardware_identity =
  hi_model :: "string option"
  hi_manufacturer :: "string option"
  hi_firmwareRevision :: "string option"
  hi_equipmentId :: "string option"

definition bare_numeral :: "string \<Rightarrow> bool" where
  "bare_numeral s \<longleftrightarrow> 1 \<le> length s \<and> length s \<le> 4 \<and> list_all is_digit s"

definition isUninformativeIdentity :: "string option \<Rightarrow> bool" where
  "isUninformativeIdentity value =
     (case value of
        None \<Rightarrow> True
      | Some v \<Rightarrow> (let trimmed = js_trim v in trimmed = [] \<or> trimmed = ''--'' \<or> bare_numeral trimmed))"

text \<open>\<open>/\s*\[[^\]]*]\s*$/\<close> at the start of the text, and the text without its first match.\<close>

definition bracket_tail :: "string \<Rightarrow> bool" where
  "bracket_tail s \<longleftrightarrow>
     (let r = dropWhile is_space s; inner = dropWhile (\<lambda>c. c \<noteq> CHR '']'') (drop 1 r)
      in prefix ''['' r \<and> prefix '']'' inner \<and> list_all is_space (drop 1 inner))"

fun without_bracket :: "string \<Rightarrow> string" where
  "without_bracket [] = []"
| "without_bracket (c # s) = (if bracket_tail (c # s) then [] else c # without_bracket s)"

text \<open>The part before the first run of two white spaces.\<close>

fun before_gap :: "string \<Rightarrow> string" where
  "before_gap (a # b # s) = (if is_space a \<and> is_space b then [] else a # before_gap (b # s))"
| "before_gap s = s"

text \<open>The length in UTF-16 units: one per code point, two above the basic plane.\<close>

definition utf16_length :: "string \<Rightarrow> nat" where
  "utf16_length s =
     length (filter (\<lambda>c. \<not> (128 \<le> (of_char c :: nat) \<and> (of_char c :: nat) < 192)) s) +
     length (filter (\<lambda>c. 240 \<le> (of_char c :: nat)) s)"

definition firmwareIdentityLabel :: "string option \<Rightarrow> string option" where
  "firmwareIdentityLabel revision =
     (case revision of
        None \<Rightarrow> None
      | Some v \<Rightarrow>
          let trimmed = js_trim v in
          if trimmed = [] \<or> trimmed = ''--'' then None
          else let head = js_trim (before_gap (js_trim (without_bracket trimmed)))
               in if utf16_length head \<ge> 3 \<and> list_ex is_letter head then Some head else None)"

definition modemHardwareLabel :: "hardware_identity \<Rightarrow> string" where
  "modemHardwareLabel identity =
     (let model = map_option js_trim (hi_model identity) in
      if model \<noteq> None \<and> \<not> isUninformativeIdentity model then the model
      else case firmwareIdentityLabel (hi_firmwareRevision identity) of
        Some firmware \<Rightarrow> firmware
      | None \<Rightarrow>
          (let manufacturer = map_option js_trim (hi_manufacturer identity)
           in if manufacturer \<noteq> None \<and> \<not> isUninformativeIdentity manufacturer then the manufacturer else ''Cellular modem''))"

definition modemHardwareName :: "hardware_identity \<Rightarrow> string" where
  "modemHardwareName identity =
     (let label = modemHardwareLabel identity in
      case map_option js_trim (hi_equipmentId identity) of
        None \<Rightarrow> label
      | Some equipmentId \<Rightarrow>
          if equipmentId = [] \<or> equipmentId = ''--'' then label
          else label @ '' - '' @ drop (length equipmentId - 5) equipmentId)"

section \<open>SIM presence\<close>

datatype sim_presence = SimPresent | SimAbsent | SimUnknown
datatype presence_field = SimField | SimSlotsField | FailedReasonField

datatype presence_evidence =
    SimObjectPath string
  | SimSlotObjectPath string
  | StateFailedReason string
  | NoEvidence "presence_field list"
  | VendorCodeUnclaimed string

record sim_facts =
  sf_sim :: "string option"
  sf_simSlots :: "string list option"
  sf_failedReason :: "string option"

definition SIM_MISSING_FAILED_REASON :: string where "SIM_MISSING_FAILED_REASON = ''sim-missing''"

definition sim_object_path :: "string \<Rightarrow> bool" where
  "sim_object_path s \<longleftrightarrow>
     (let p = ''/org/freedesktop/ModemManager1/SIM/''
      in prefix p s \<and> drop (length p) s \<noteq> [] \<and> list_all is_digit (drop (length p) s))"

definition readSimPresence :: "sim_facts \<Rightarrow> sim_presence \<times> presence_evidence" where
  "readSimPresence facts =
     (let sim = (case sf_sim facts of None \<Rightarrow> [] | Some s \<Rightarrow> js_trim s) in
      if sim_object_path sim then (SimPresent, SimObjectPath sim)
      else case find sim_object_path (map js_trim (case sf_simSlots facts of None \<Rightarrow> [] | Some l \<Rightarrow> l)) of
        Some slot \<Rightarrow> (SimPresent, SimSlotObjectPath slot)
      | None \<Rightarrow>
          if sf_failedReason facts = Some SIM_MISSING_FAILED_REASON
          then (SimAbsent, StateFailedReason SIM_MISSING_FAILED_REASON)
          else (SimUnknown, NoEvidence [SimField, SimSlotsField, FailedReasonField]))"

definition deriveSimPresence :: "sim_facts \<Rightarrow> sim_presence" where
  "deriveSimPresence facts = fst (readSimPresence facts)"

lemma absent_needs_failed_reason:
  "readSimPresence facts = (SimAbsent, evidence) \<Longrightarrow> sf_failedReason facts = Some ''sim-missing''"
  by (auto simp: readSimPresence_def Let_def SIM_MISSING_FAILED_REASON_def split: if_splits option.splits)

lemma label_examples:
  "modemHardwareLabel \<lparr>hi_model = Some ''0'', hi_manufacturer = Some ''QUALCOMM'', hi_firmwareRevision = Some ''MPSS.DPM 1  [2021 1]'', hi_equipmentId = None\<rparr> = ''MPSS.DPM 1''"
  "modemHardwareName \<lparr>hi_model = Some '' EC25 '', hi_manufacturer = None, hi_firmwareRevision = None, hi_equipmentId = Some ''861234567890123''\<rparr> = ''EC25 - 90123''"
  by code_simp+

end
