(* ===== verification/Mm_Observation.thy ===== *)
theory Mm_Observation
  imports Observation_Decoders "HOL-Library.State_Monad"
begin

text \<open>
  The normalized observation (\<open>observations/model.ts\<close>) and its ModemManager source
  (\<open>observations/sources/modemmanager.ts\<close>): the property records of one read become metrics that carry
  what they were read from, or a reason for having no value. The two arrays the closures of the code push to,
  the claimed fields and the notes, are the state of a state monad; the calls run in the order of the code.
\<close>

section \<open>The normalized observation\<close>

record normalized_hardware =
  nh_label :: "string obs_metric"
  nh_displayName :: "string obs_metric"

record normalized_radio =
  nr_modemState :: "string obs_metric"
  nr_registration :: "string obs_metric"
  nr_accessTechnologies :: "radio_tech list obs_metric"
  nr_modeLabel :: "string obs_metric"
  nr_operatorName :: "string obs_metric"
  nr_operatorCode :: "string obs_metric"

record normalized_cell =
  nc_cellId :: "string obs_metric"
  nc_tac :: "string obs_metric"

record normalized_signal =
  ns_quality :: "rat obs_metric"
  ns_qualityRecent :: "bool obs_metric"
  ns_bars :: "rat obs_metric"
  ns_maxBars :: "rat obs_metric"
  ns_dbm :: "rat obs_metric"
  ns_rsrp :: "rat obs_metric"
  ns_rsrq :: "rat obs_metric"
  ns_snr :: "rat obs_metric"
  ns_sinr :: "rat obs_metric"

datatype sim_presence_value = SimIsPresent | SimIsAbsent

record normalized_sim =
  nm_presence :: "sim_presence_value obs_metric"
  nm_presenceEvidence :: presence_evidence
  nm_lockRequired :: "string obs_metric"
  nm_kind :: "sim_kind obs_metric"
  nm_esimStatus :: "esim_status obs_metric"

record modem_observation =
  mo_source :: source_kind
  mo_hardware :: normalized_hardware
  mo_radio :: normalized_radio
  mo_signal :: normalized_signal
  mo_sim :: normalized_sim
  mo_cell :: normalized_cell
  mo_diagnostics :: diagnostics

section \<open>Claiming fields\<close>

record claims =
  cm_consumed :: "string list"
  cm_notes :: "diagnostic_note list"

type_synonym 'a claiming = "(claims, 'a) state"

definition no_claims :: claims where "no_claims = \<lparr>cm_consumed = [], cm_notes = []\<rparr>"

definition claim_as ::
  "source_kind \<Rightarrow> normalization_context \<Rightarrow> string list \<Rightarrow> string list \<Rightarrow> obs_authority option \<Rightarrow> metric_provenance claiming" where
  "claim_as source context consumed named authority =
     State (\<lambda>s. (metricProvenance source context named authority, s\<lparr>cm_consumed := cm_consumed s @ consumed\<rparr>))"

definition add_note :: "diagnostic_code \<Rightarrow> string \<Rightarrow> unit claiming" where
  "add_note code field = State (\<lambda>s. ((), s\<lparr>cm_notes := cm_notes s @ [(code, field)]\<rparr>))"

definition mm_provenance :: "normalization_context \<Rightarrow> string list \<Rightarrow> metric_provenance claiming" where
  "mm_provenance context claimed = claim_as ModemManagerSource context claimed claimed None"

definition mm_dictProvenance :: "normalization_context \<Rightarrow> string \<Rightarrow> string \<Rightarrow> metric_provenance claiming" where
  "mm_dictProvenance context dict member =
     claim_as ModemManagerSource context [dict] [dict @ ''.'' @ member] None"

section \<open>The fields\<close>

record mm_input =
  mi_modem :: "raw_record option"
  mi_modem3gpp :: "raw_record option"
  mi_sim :: "raw_record option"
  mi_signal :: "raw_record option"
  mi_location :: "raw_record option"

definition MODEL :: string where "MODEL = ''Modem.Model''"
definition MANUFACTURER :: string where "MANUFACTURER = ''Modem.Manufacturer''"
definition REVISION :: string where "REVISION = ''Modem.Revision''"
definition EQUIPMENT_ID :: string where "EQUIPMENT_ID = ''Modem.EquipmentIdentifier''"
definition MM_STATE :: string where "MM_STATE = ''Modem.State''"
definition CURRENT_MODES :: string where "CURRENT_MODES = ''Modem.CurrentModes''"
definition ACCESS_TECHNOLOGIES :: string where "ACCESS_TECHNOLOGIES = ''Modem.AccessTechnologies''"
definition SIGNAL_QUALITY :: string where "SIGNAL_QUALITY = ''Modem.SignalQuality''"
definition SIM_PATH :: string where "SIM_PATH = ''Modem.Sim''"
definition SIM_SLOTS :: string where "SIM_SLOTS = ''Modem.SimSlots''"
definition FAILED_REASON :: string where "FAILED_REASON = ''Modem.StateFailedReason''"
definition UNLOCK_REQUIRED :: string where "UNLOCK_REQUIRED = ''Modem.UnlockRequired''"
definition REGISTRATION_STATE :: string where "REGISTRATION_STATE = ''Modem3gpp.RegistrationState''"
definition OPERATOR_NAME :: string where "OPERATOR_NAME = ''Modem3gpp.OperatorName''"
definition OPERATOR_CODE :: string where "OPERATOR_CODE = ''Modem3gpp.OperatorCode''"
definition SIM_TYPE :: string where "SIM_TYPE = ''Sim.SimType''"
definition ESIM_STATUS :: string where "ESIM_STATUS = ''Sim.EsimStatus''"
definition LAC_CI :: string where "LAC_CI = ''Location.3gpp-lac-ci''"

record extended_metric =
  em_member :: string
  em_dicts :: "string list"
  em_flat :: string

definition RSSI :: extended_metric where
  "RSSI = \<lparr>em_member = ''rssi'', em_dicts = [''Signal.Lte'', ''Signal.Umts'', ''Signal.Gsm'', ''Signal.Evdo'', ''Signal.Cdma''],
           em_flat = ''Signal.rssi''\<rparr>"
definition RSRP :: extended_metric where
  "RSRP = \<lparr>em_member = ''rsrp'', em_dicts = [''Signal.Nr5g'', ''Signal.Lte''], em_flat = ''Signal.rsrp''\<rparr>"
definition RSRQ :: extended_metric where
  "RSRQ = \<lparr>em_member = ''rsrq'', em_dicts = [''Signal.Nr5g'', ''Signal.Lte''], em_flat = ''Signal.rsrq''\<rparr>"
definition SNR :: extended_metric where
  "SNR = \<lparr>em_member = ''snr'', em_dicts = [''Signal.Nr5g'', ''Signal.Lte''], em_flat = ''Signal.snr''\<rparr>"
definition SINR :: extended_metric where
  "SINR = \<lparr>em_member = ''sinr'', em_dicts = [''Signal.Evdo''], em_flat = ''Signal.sinr''\<rparr>"

section \<open>Normalizing\<close>

definition hardwareIdentity :: "(rat \<Rightarrow> string) \<Rightarrow> raw_record \<Rightarrow> hardware_identity" where
  "hardwareIdentity num_text raw =
     \<lparr>hi_model = rawString num_text raw MODEL, hi_manufacturer = rawString num_text raw MANUFACTURER,
      hi_firmwareRevision = rawString num_text raw REVISION, hi_equipmentId = rawString num_text raw EQUIPMENT_ID\<rparr>"

definition normalizeHardware ::
  "(rat \<Rightarrow> string) \<Rightarrow> normalization_context \<Rightarrow> raw_record \<Rightarrow> normalized_hardware claiming" where
  "normalizeHardware num_text context raw =
     (let identity = hardwareIdentity num_text raw;
          named = (hi_model identity \<noteq> None \<or> hi_manufacturer identity \<noteq> None \<or> hi_firmwareRevision identity \<noteq> None)
      in do {
        labelProvenance \<leftarrow> mm_provenance context [MODEL, MANUFACTURER, REVISION];
        nameProvenance \<leftarrow> mm_provenance context [MODEL, MANUFACTURER, REVISION, EQUIPMENT_ID];
        State_Monad.return
          \<lparr>nh_label = (if named then KnownMetric (modemHardwareLabel identity) labelProvenance
                       else UnknownMetric NotReported labelProvenance),
           nh_displayName = (if named then KnownMetric (modemHardwareName identity) nameProvenance
                       else UnknownMetric NotReported nameProvenance)\<rparr>
      })"

definition registrationString ::
  "(rat \<Rightarrow> string) \<Rightarrow> normalization_context \<Rightarrow> raw_record \<Rightarrow> string \<Rightarrow> string obs_metric claiming" where
  "registrationString num_text context raw key = do {
     source \<leftarrow> mm_provenance context [key];
     State_Monad.return (metricFromOptional (rawString num_text raw key) NotReported source)
   }"

definition decodedLabel ::
  "normalization_context \<Rightarrow> raw_record \<Rightarrow> string \<Rightarrow> (rat option \<Rightarrow> string) \<Rightarrow> string obs_metric claiming" where
  "decodedLabel context raw key decode = do {
     source \<leftarrow> mm_provenance context [key];
     (if \<not> hasRawField raw key then State_Monad.return (UnknownMetric NotReported source)
      else let decoded = decode (rawNumber raw key) in
        if decoded = ''unknown'' then do {
          _ \<leftarrow> add_note FieldShapeUnrecognized key;
          State_Monad.return (UnknownMetric Malformed source)
        }
        else State_Monad.return (KnownMetric decoded source))
   }"

definition decodedOptional ::
  "normalization_context \<Rightarrow> raw_record \<Rightarrow> string \<Rightarrow> (rat option \<Rightarrow> 'v option) \<Rightarrow> missing_reason \<Rightarrow> 'v obs_metric claiming" where
  "decodedOptional context raw key decode absentReason = do {
     source \<leftarrow> mm_provenance context [key];
     (if \<not> hasRawField raw key then State_Monad.return (UnknownMetric absentReason source)
      else case decode (rawNumber raw key) of
        None \<Rightarrow> do {
          _ \<leftarrow> add_note FieldShapeUnrecognized key;
          State_Monad.return (UnknownMetric Malformed source)
        }
      | Some v \<Rightarrow> State_Monad.return (KnownMetric v source))
   }"

definition rat_name :: "radio_tech \<Rightarrow> string" where
  "rat_name t = (case t of Gsm \<Rightarrow> ''gsm'' | Umts \<Rightarrow> ''umts'' | Lte \<Rightarrow> ''lte'' | Nr5g \<Rightarrow> ''5gnr'')"

definition normalizeAccessTechnologies ::
  "normalization_context \<Rightarrow> raw_record \<Rightarrow> radio_tech list obs_metric claiming" where
  "normalizeAccessTechnologies context raw = do {
     source \<leftarrow> mm_provenance context [ACCESS_TECHNOLOGIES];
     (if \<not> hasRawField raw ACCESS_TECHNOLOGIES then State_Monad.return (UnknownMetric NotReported source)
      else case rawNumber raw ACCESS_TECHNOLOGIES of
        None \<Rightarrow> State_Monad.return (UnknownMetric NotReported source)
      | Some m \<Rightarrow>
          if m \<le> 0 then State_Monad.return (UnknownMetric NotReported source)
          else let decoded = sort_key rat_name (decodeMmAccessTechnologies (Some m)) in
            if decoded = [] then do {
              _ \<leftarrow> add_note FieldShapeUnrecognized ACCESS_TECHNOLOGIES;
              State_Monad.return (UnknownMetric Malformed source)
            }
            else State_Monad.return (KnownMetric decoded source))
   }"

definition mm_modeLabel :: "normalization_context \<Rightarrow> raw_record \<Rightarrow> string obs_metric claiming" where
  "mm_modeLabel context raw = do {
     source \<leftarrow> mm_provenance context [CURRENT_MODES];
     (if \<not> hasRawField raw CURRENT_MODES then State_Monad.return (UnknownMetric NotReported source)
      else case rawNumberAt raw CURRENT_MODES 0 of
        None \<Rightarrow> State_Monad.return (UnknownMetric NotReported source)
      | Some m \<Rightarrow>
          if m \<le> 0 then State_Monad.return (UnknownMetric NotReported source)
          else (case modeMaskToLabel (Some m) of
            None \<Rightarrow> do {
              _ \<leftarrow> add_note FieldShapeUnrecognized CURRENT_MODES;
              State_Monad.return (UnknownMetric Malformed source)
            }
          | Some label \<Rightarrow> State_Monad.return (KnownMetric label source)))
   }"

definition normalizeRadio ::
  "(rat \<Rightarrow> string) \<Rightarrow> normalization_context \<Rightarrow> raw_record \<Rightarrow> normalized_radio claiming" where
  "normalizeRadio num_text context raw = do {
     modemState \<leftarrow> decodedLabel context raw MM_STATE decodeMmState;
     registration \<leftarrow> decodedLabel context raw REGISTRATION_STATE decodeRegistrationState;
     accessTechnologies \<leftarrow> normalizeAccessTechnologies context raw;
     modeLabel \<leftarrow> mm_modeLabel context raw;
     operatorName \<leftarrow> registrationString num_text context raw OPERATOR_NAME;
     operatorCode \<leftarrow> registrationString num_text context raw OPERATOR_CODE;
     State_Monad.return
       \<lparr>nr_modemState = modemState, nr_registration = registration, nr_accessTechnologies = accessTechnologies,
        nr_modeLabel = modeLabel, nr_operatorName = operatorName, nr_operatorCode = operatorCode\<rparr>
   }"

definition normalizeCell ::
  "(rat \<Rightarrow> string) \<Rightarrow> normalization_context \<Rightarrow> raw_record \<Rightarrow> bool \<Rightarrow> normalized_cell claiming" where
  "normalizeCell num_text context raw locationRead = do {
     source \<leftarrow> mm_provenance context [LAC_CI];
     (if \<not> hasRawField raw LAC_CI then
        (let reason = (if locationRead then NotReported else NotObserved)
         in State_Monad.return \<lparr>nc_cellId = UnknownMetric reason source, nc_tac = UnknownMetric reason source\<rparr>)
      else case decode3gppLacCi (rawString num_text raw LAC_CI) of
        None \<Rightarrow> do {
          _ \<leftarrow> add_note FieldShapeUnrecognized LAC_CI;
          State_Monad.return \<lparr>nc_cellId = UnknownMetric Malformed source, nc_tac = UnknownMetric Malformed source\<rparr>
        }
      | Some decoded \<Rightarrow>
          State_Monad.return
            \<lparr>nc_cellId = KnownMetric (lc_cellId decoded) source,
             nc_tac = (if lc_trackingAreaCode decoded = [] then UnknownMetric NotReported source
                       else KnownMetric (lc_trackingAreaCode decoded) source)\<rparr>)
   }"

fun extended_from ::
  "normalization_context \<Rightarrow> raw_record \<Rightarrow> missing_reason \<Rightarrow> string \<Rightarrow> string list \<Rightarrow> string \<Rightarrow> rat obs_metric claiming" where
  "extended_from context raw missing member [] flat = do {
     source \<leftarrow> mm_provenance context [flat];
     State_Monad.return
       (metricFromOptional (rawNumber raw flat) (if hasRawField raw flat then Malformed else missing) source)
   }"
| "extended_from context raw missing member (dict # dicts) flat =
     (if \<not> hasRawDictMember raw dict member then extended_from context raw missing member dicts flat
      else do {
        source \<leftarrow> mm_dictProvenance context dict member;
        (case rawDictNumber raw dict member of
           None \<Rightarrow> do {
             _ \<leftarrow> add_note FieldShapeUnrecognized (dict @ ''.'' @ member);
             State_Monad.return (UnknownMetric Malformed source)
           }
         | Some v \<Rightarrow> State_Monad.return (KnownMetric v source))
      })"

definition extended ::
  "normalization_context \<Rightarrow> raw_record \<Rightarrow> missing_reason \<Rightarrow> extended_metric \<Rightarrow> rat obs_metric claiming" where
  "extended context raw missing m = extended_from context raw missing (em_member m) (em_dicts m) (em_flat m)"

definition normalizeSignal :: "normalization_context \<Rightarrow> raw_record \<Rightarrow> bool \<Rightarrow> normalized_signal claiming" where
  "normalizeSignal context raw signalRead =
     (let missing = (if signalRead then NotReported else NotObserved);
          quality = rawNumberAt raw SIGNAL_QUALITY 0;
          recent = rawBooleanAt raw SIGNAL_QUALITY 1
      in do {
        qualityProvenance \<leftarrow> mm_provenance context [SIGNAL_QUALITY];
        recentProvenance \<leftarrow> mm_provenance context [SIGNAL_QUALITY];
        noBars \<leftarrow> mm_provenance context [];
        noMaxBars \<leftarrow> mm_provenance context [];
        dbm \<leftarrow> extended context raw missing RSSI;
        rsrp \<leftarrow> extended context raw missing RSRP;
        rsrq \<leftarrow> extended context raw missing RSRQ;
        snr \<leftarrow> extended context raw missing SNR;
        sinr \<leftarrow> extended context raw missing SINR;
        State_Monad.return
          \<lparr>ns_quality = metricFromOptional quality NotReported qualityProvenance,
           ns_qualityRecent = metricFromOptional recent NotReported recentProvenance,
           ns_bars = UnknownMetric UnsupportedField noBars, ns_maxBars = UnknownMetric UnsupportedField noMaxBars,
           ns_dbm = dbm, ns_rsrp = rsrp, ns_rsrq = rsrq, ns_snr = snr, ns_sinr = sinr\<rparr>
      })"

definition failedReasonOf :: "(rat \<Rightarrow> string) \<Rightarrow> raw_record \<Rightarrow> string option" where
  "failedReasonOf num_text raw =
     (case rawNumber raw FAILED_REASON of
        Some n \<Rightarrow> decodeStateFailedReason (Some n)
      | None \<Rightarrow> rawString num_text raw FAILED_REASON)"

definition simPresenceFacts :: "(rat \<Rightarrow> string) \<Rightarrow> raw_record \<Rightarrow> sim_facts" where
  "simPresenceFacts num_text raw =
     \<lparr>sf_sim = rawString num_text raw SIM_PATH, sf_simSlots = rawStringArray raw SIM_SLOTS,
      sf_failedReason = failedReasonOf num_text raw\<rparr>"

definition normalizeSim ::
  "(rat \<Rightarrow> string) \<Rightarrow> normalization_context \<Rightarrow> raw_record \<Rightarrow> bool \<Rightarrow> normalized_sim claiming" where
  "normalizeSim num_text context raw simRead = do {
     presenceProvenance \<leftarrow> mm_provenance context [SIM_PATH, SIM_SLOTS, FAILED_REASON];
     (case readSimPresence (simPresenceFacts num_text raw) of
        (presence, evidence) \<Rightarrow>
          let missing = (if simRead then NotReported else NotObserved) in do {
            lockRequired \<leftarrow> decodedOptional context raw UNLOCK_REQUIRED decodeUnlockRequired NotReported;
            kind \<leftarrow> decodedOptional context raw SIM_TYPE decodeSimType missing;
            esimStatus \<leftarrow> decodedOptional context raw ESIM_STATUS decodeEsimStatus missing;
            State_Monad.return
              \<lparr>nm_presence =
                 (case presence of
                    SimUnknown \<Rightarrow> UnknownMetric NotReported presenceProvenance
                  | SimPresent \<Rightarrow> KnownMetric SimIsPresent presenceProvenance
                  | SimAbsent \<Rightarrow> KnownMetric SimIsAbsent presenceProvenance),
               nm_presenceEvidence = evidence, nm_lockRequired = lockRequired, nm_kind = kind, nm_esimStatus = esimStatus\<rparr>
          })
   }"

definition mm_raw :: "mm_input \<Rightarrow> raw_record" where
  "mm_raw input =
     mergeRawRecords
       [prefixRawRecord ''Modem'' (mi_modem input), prefixRawRecord ''Modem3gpp'' (mi_modem3gpp input),
        prefixRawRecord ''Sim'' (mi_sim input), prefixRawRecord ''Signal'' (mi_signal input),
        prefixRawRecord ''Location'' (mi_location input)]"

definition mm_claiming ::
  "(rat \<Rightarrow> string) \<Rightarrow> mm_input \<Rightarrow> normalization_context \<Rightarrow>
   (normalized_hardware \<times> normalized_radio \<times> normalized_signal \<times> normalized_sim \<times> normalized_cell) claiming" where
  "mm_claiming num_text input context =
     (let raw = mm_raw input in do {
        hardware \<leftarrow> normalizeHardware num_text context raw;
        radio \<leftarrow> normalizeRadio num_text context raw;
        signal \<leftarrow> normalizeSignal context raw (mi_signal input \<noteq> None);
        sim \<leftarrow> normalizeSim num_text context raw (mi_sim input \<noteq> None);
        cell \<leftarrow> normalizeCell num_text context raw (mi_location input \<noteq> None);
        State_Monad.return (hardware, radio, signal, sim, cell)
      })"

definition normalizeModemManagerObservation ::
  "(rat \<Rightarrow> string) \<Rightarrow> mm_input \<Rightarrow> normalization_context \<Rightarrow> modem_observation observation_envelope" where
  "normalizeModemManagerObservation num_text input context =
     (case run_state (mm_claiming num_text input context) no_claims of
        ((hardware, radio, signal, sim, cell), cs) \<Rightarrow>
          freshObservation ModemManagerSource context
            \<lparr>mo_source = ModemManagerSource, mo_hardware = hardware, mo_radio = radio, mo_signal = signal, mo_sim = sim,
             mo_cell = cell,
             mo_diagnostics =
               createObservationDiagnostics ModemManagerSource (mm_raw input) (cm_consumed cs) (cm_notes cs)\<rparr>)"

end
