(* ===== verification/Physical_Identity.thy ===== *)
theory Physical_Identity
  imports Observation_Decoders
begin

text \<open>
  The identity of a physical modem (\<open>domain/physical-identity.ts\<close>): the canonical id, the refusal of
  anything that names a bus object, an interface, an address, a device or a subscriber, and the stable key.
  SHA-256 is a parameter.
\<close>

section \<open>The checks\<close>

datatype identity_source = SourceSerial | SourceIdPath | SourceFallback

datatype identity_error =
    IdEmpty | UnsupportedShape | MmObjectPath | InterfaceName | IpAddress | EquipmentIdentifier
  | SubscriberIdentifier | FallbackTooLong | NoIdentityFacts

definition PHYSICAL_ID_PREFIXES :: "(identity_source \<times> string) list" where
  "PHYSICAL_ID_PREFIXES = [(SourceSerial, ''serial:''), (SourceIdPath, ''id-path:''), (SourceFallback, ''fallback:'')]"

fun source_text :: "identity_source \<Rightarrow> string" where
  "source_text SourceSerial = ''serial''"
| "source_text SourceIdPath = ''id-path''"
| "source_text SourceFallback = ''fallback''"

definition FALLBACK_MAX_LENGTH :: nat where "FALLBACK_MAX_LENGTH = 128"

text \<open>\<open>MM_OBJECT_PATH\<close>\<close>

definition mm_object_path :: "string \<Rightarrow> bool" where
  "mm_object_path value \<longleftrightarrow>
     (let p = ''/org/freedesktop/ModemManager1/Modem'' in value = p \<or> prefix (p @ ''/'') value)"

definition INTERFACE_PREFIXES :: "string list" where
  "INTERFACE_PREFIXES =
     [''wwan'', ''eth'', ''enp'', ''ens'', ''eno'', ''wlan'', ''wl'', ''ppp'', ''usb'', ''rmnet'', ''cdc-wdm'', ''ttyusb'', ''ttyacm'']"

definition name_char :: "char \<Rightarrow> bool" where
  "name_char c \<longleftrightarrow> is_letter c \<or> is_digit c \<or> c = CHR ''_'' \<or> c = CHR ''.'' \<or> c = CHR ''-''"

text \<open>\<open>INTERFACE_NAME\<close>, without regard to case.\<close>

definition interface_name :: "string \<Rightarrow> bool" where
  "interface_name value \<longleftrightarrow>
     list_ex (\<lambda>p. prefix p (js_lower value) \<and>
       (case drop (length p) value of c # rest \<Rightarrow> is_digit c \<and> list_all name_char rest | [] \<Rightarrow> False)) INTERFACE_PREFIXES"

definition digits_between :: "nat \<Rightarrow> nat \<Rightarrow> string \<Rightarrow> bool" where
  "digits_between lo hi s \<longleftrightarrow> lo \<le> length s \<and> length s \<le> hi \<and> list_all is_digit s"

text \<open>\<open>EQUIPMENT_IDENTIFIER\<close> and \<open>SUBSCRIBER_IDENTIFIER\<close>\<close>

definition equipment_identifier :: "string \<Rightarrow> bool" where
  "equipment_identifier value \<longleftrightarrow> digits_between 14 16 value"

definition subscriber_identifier :: "string \<Rightarrow> bool" where
  "subscriber_identifier value \<longleftrightarrow>
     (prefix ''89'' value \<and> digits_between 16 30 (drop 2 value)) \<or> digits_between 18 32 value"

definition isIpv4 :: "string \<Rightarrow> bool" where
  "isIpv4 value \<longleftrightarrow>
     (let octets = js_split (CHR ''.'') value in
      length octets = 4 \<and> list_all (\<lambda>o4. digits_between 1 3 o4 \<and> nat_of_digits o4 \<le> 255) octets)"

definition ipv6_char :: "char \<Rightarrow> bool" where
  "ipv6_char c \<longleftrightarrow> c = CHR '':'' \<or> is_lower_hex (char_lower c)"

definition isIpv6 :: "string \<Rightarrow> bool" where
  "isIpv6 value \<longleftrightarrow> CHR '':'' \<in> set value \<and> list_all ipv6_char value \<and>
     (let populated = filter (\<lambda>g. g \<noteq> []) (js_split (CHR '':'') value) in
      list_all (\<lambda>g. length g \<le> 4) populated \<and>
      (if js_includes ''::'' value then length populated < 8 else length populated = 8))"

definition assertSafeIdentityPart :: "string \<Rightarrow> identity_error + unit" where
  "assertSafeIdentityPart value =
     (if value = [] then Inl IdEmpty
      else if mm_object_path value then Inl MmObjectPath
      else if interface_name value then Inl InterfaceName
      else if isIpv4 value \<or> isIpv6 value then Inl IpAddress
      else if subscriber_identifier value then Inl SubscriberIdentifier
      else if equipment_identifier value then Inl EquipmentIdentifier
      else Inr ())"

definition splitPhysicalModemId :: "string \<Rightarrow> identity_error + identity_source \<times> string" where
  "splitPhysicalModemId value =
     (case find (\<lambda>(_, p). prefix p value) PHYSICAL_ID_PREFIXES of
        Some (source, p) \<Rightarrow> Inr (source, drop (length p) value)
      | None \<Rightarrow> Inl UnsupportedShape)"

definition physicalModemId :: "string \<Rightarrow> identity_error + string" where
  "physicalModemId value =
     sum_bind (splitPhysicalModemId (js_trim value)) (\<lambda>(source, identityPart).
     sum_bind (assertSafeIdentityPart identityPart) (\<lambda>_.
       if source = SourceFallback \<and> utf16_length identityPart > FALLBACK_MAX_LENGTH then Inl FallbackTooLong
       else Inr (source_text source @ '':'' @ identityPart)))"

definition stableKeyFromPhysicalModemId :: "string \<Rightarrow> string" where
  "stableKeyFromPhysicalModemId i = ''modem:'' @ i"

definition stableKey :: "string \<Rightarrow> identity_error + string" where
  "stableKey value =
     (if \<not> prefix ''modem:'' value then Inl UnsupportedShape
      else sum_bind (physicalModemId (drop 6 value)) (\<lambda>i. Inr (stableKeyFromPhysicalModemId i)))"

section \<open>Resolution\<close>

record physical_facts =
  pf_serial :: "string option"
  pf_idPath :: "string option"
  pf_fallback :: "string option"

record resolved_physical =
  ri_physicalModemId :: string
  ri_stableKey :: string
  ri_source :: identity_source

fun resolve_candidates :: "(identity_source \<times> string option) list \<Rightarrow> identity_error + resolved_physical" where
  "resolve_candidates [] = Inl NoIdentityFacts"
| "resolve_candidates ((source, candidate) # candidates) =
     (case map_option js_trim candidate of
        None \<Rightarrow> resolve_candidates candidates
      | Some normalized \<Rightarrow>
          if normalized = [] then resolve_candidates candidates
          else sum_bind (physicalModemId (source_text source @ '':'' @ normalized)) (\<lambda>i. Inr
            \<lparr>ri_physicalModemId = i, ri_stableKey = stableKeyFromPhysicalModemId i, ri_source = source\<rparr>))"

definition resolvePhysicalModemIdentity :: "physical_facts \<Rightarrow> identity_error + resolved_physical" where
  "resolvePhysicalModemIdentity facts =
     resolve_candidates [(SourceSerial, pf_serial facts), (SourceIdPath, pf_idPath facts), (SourceFallback, pf_fallback facts)]"

datatype portable_anchor = AnchorUsbSerial | AnchorIdPath | AnchorIfname

record portable_observation =
  po_ifname :: string
  po_idPath :: "string option"
  po_vendorId :: "string option"
  po_serial :: "string option"

record portable_identity =
  pi_identityKey :: string
  pi_anchor :: portable_anchor
  pi_linkId :: string

text \<open>\<open>sha256_hex\<close> is the hexadecimal digest.\<close>

definition mintLinkId :: "(string \<Rightarrow> string) \<Rightarrow> string \<Rightarrow> string" where
  "mintLinkId sha256_hex identityKey = ''lnk_'' @ take 16 (sha256_hex identityKey)"

definition truthy :: "string option \<Rightarrow> string option" where
  "truthy s = (case map_option js_trim s of Some (c # t) \<Rightarrow> Some (c # t) | _ \<Rightarrow> None)"

definition resolvePortablePhysicalIdentity :: "(string \<Rightarrow> string) \<Rightarrow> portable_observation \<Rightarrow> portable_identity" where
  "resolvePortablePhysicalIdentity sha256_hex obs =
     (let serial = truthy (po_serial obs); idPath = truthy (po_idPath obs);
          vendor = map_option js_lower (truthy (po_vendorId obs));
          key = (case serial of
              Some s \<Rightarrow> ''usb-serial:'' @ (case vendor of Some v \<Rightarrow> v @ '':'' | None \<Rightarrow> []) @ s
            | None \<Rightarrow> (case idPath of Some p \<Rightarrow> ''id-path:'' @ p | None \<Rightarrow> ''ifname:'' @ po_ifname obs));
          anchor = (if serial \<noteq> None then AnchorUsbSerial else if idPath \<noteq> None then AnchorIdPath else AnchorIfname)
      in \<lparr>pi_identityKey = key, pi_anchor = anchor, pi_linkId = mintLinkId sha256_hex key\<rparr>)"

section \<open>Lemmas\<close>

definition identity_part_ok :: "identity_source \<Rightarrow> string \<Rightarrow> bool" where
  "identity_part_ok source part \<longleftrightarrow> assertSafeIdentityPart part = Inr () \<and>
     \<not> (source = SourceFallback \<and> utf16_length part > FALLBACK_MAX_LENGTH)"

lemma assert_ok:
  "assertSafeIdentityPart part = Inr () \<longleftrightarrow> part \<noteq> [] \<and> \<not> mm_object_path part \<and> \<not> interface_name part \<and> \<not> isIpv4 part \<and>
     \<not> isIpv6 part \<and> \<not> subscriber_identifier part \<and> \<not> equipment_identifier part"
  by (auto simp: assertSafeIdentityPart_def)

lemma split_source: "splitPhysicalModemId (source_text source @ '':'' @ part) = Inr (source, part)"
  by (cases source) (simp_all add: splitPhysicalModemId_def PHYSICAL_ID_PREFIXES_def)

lemma split_Inr: "splitPhysicalModemId v = Inr (source, part) \<Longrightarrow> v = source_text source @ '':'' @ part"
  by (auto simp: splitPhysicalModemId_def PHYSICAL_ID_PREFIXES_def split: if_splits elim!: prefixE)

lemma physicalModemId_Inr:
  "physicalModemId v = Inr i \<longleftrightarrow>
     (\<exists>source part. js_trim v = source_text source @ '':'' @ part \<and> identity_part_ok source part \<and>
        i = source_text source @ '':'' @ part)"
proof
  assume "physicalModemId v = Inr i"
  then obtain source part where p: "splitPhysicalModemId (js_trim v) = Inr (source, part)"
    and a: "sum_bind (assertSafeIdentityPart part) (\<lambda>_.
       if source = SourceFallback \<and> utf16_length part > FALLBACK_MAX_LENGTH then Inl FallbackTooLong
       else Inr (source_text source @ '':'' @ part)) = Inr i"
    unfolding physicalModemId_def by (cases "splitPhysicalModemId (js_trim v)") auto
  from a have "identity_part_ok source part \<and> i = source_text source @ '':'' @ part"
    by (cases "assertSafeIdentityPart part") (auto simp: identity_part_ok_def split: if_splits)
  with split_Inr [OF p] show "\<exists>source part. js_trim v = source_text source @ '':'' @ part \<and> identity_part_ok source part \<and>
        i = source_text source @ '':'' @ part" by blast
next
  assume "\<exists>source part. js_trim v = source_text source @ '':'' @ part \<and> identity_part_ok source part \<and>
        i = source_text source @ '':'' @ part"
  then show "physicalModemId v = Inr i"
    using split_source by (auto simp: physicalModemId_def identity_part_ok_def)
qed

lemma js_trim_idem: "js_trim (js_trim s) = js_trim s"
proof -
  have d: "dropWhile is_space (dropWhile is_space t) = dropWhile is_space t" for t by (rule dropWhile_idem)
  have "dropWhile is_space (js_trim s) = js_trim s"
  proof (cases "js_trim s")
    case (Cons c t)
    have "dropWhile is_space s \<noteq> []" using Cons unfolding js_trim_def by (metis dropWhile.simps(1) list.distinct(1) rev.simps(1))
    then have h: "\<not> is_space (hd (dropWhile is_space s))" by (rule hd_dropWhile)
    obtain u where u: "dropWhile is_space s = js_trim s @ u"
      unfolding js_trim_def by (metis rev_append rev_rev_ident takeWhile_dropWhile_id)
    with Cons h have "\<not> is_space c" by simp
    with Cons show ?thesis by simp
  qed simp
  then show ?thesis unfolding js_trim_def [of "js_trim s"] by (simp add: js_trim_def d)
qed

lemma source_text_inj: "source_text s @ '':'' @ p = source_text s' @ '':'' @ p' \<Longrightarrow> s = s' \<and> p = p'"
  using split_source [of s p] split_source [of s' p'] by simp

section \<open>Properties\<close>



text \<open>The part is checked as it stands, so white space after the colon hides an equipment number.\<close>

lemma blank_hides_equipment_number: "physicalModemId ''serial: 490154203237518'' = Inr ''serial: 490154203237518''"
  by code_simp

end
