(* ===== verification/Provider_Matcher.thy ===== *)
theory Provider_Matcher
  imports Json
begin

text \<open>
  Provider selection (\<open>providers/contracts.ts\<close>, \<open>providers/registry.ts\<close>, \<open>providers/matcher.ts\<close>): the
  registry, the staged evaluation of the registered providers against one modem, and the cache of
  results per modem. Probes, authentication and capability readers are callbacks on a world that
  may throw; the operations surface is its access and an opaque payload \<open>'o\<close>.
\<close>

section \<open>Contracts\<close>

datatype provider_transport = TransUsb | TransPci | TransNetwork | TransModemManager

datatype passive_fact_kind = FactUsb | FactPci | FactInterface | FactDriver | FactGateway | FactModel | FactFirmware

datatype evidence_strength = StrengthNone | StrengthWeak | StrengthModerate | StrengthStrong

datatype matcher_score = ScoreUnsupported | ScoreMaybe | ScoreLikely | ScoreSupported

datatype match_signal = SigMatch | SigMismatch | SigUnknown

record passive_fact =
  pf_kind :: passive_fact_kind
  pf_value :: string

record match_request =
  mq_physicalModemId :: string
  mq_generation :: int
  mq_transport :: provider_transport
  mq_passiveFacts :: "passive_fact list"
  mq_composition :: string
  mq_firmware :: "string option"

record passive_matcher =
  pm_id :: string
  pm_fact :: passive_fact_kind
  pm_expected :: "string list"
  pm_profiles :: "string list"
  pm_strength :: evidence_strength
  pm_required :: bool

record fingerprint_result =
  fp_signal :: match_signal
  fp_strength :: evidence_strength
  fp_profiles :: "string list"
  fp_detail :: string

datatype authenticated_result =
    AuthMatched string string
  | AuthRefused string
  | AuthUnavailable string

record 'w authenticated_profile =
  ap_algorithm :: string
  ap_authenticate :: "match_request \<Rightarrow> string list \<Rightarrow> ('w, authenticated_result) io"

record 'w unauthenticated_probe =
  up_id :: string
  up_run :: "match_request \<Rightarrow> ('w, fingerprint_result) io"

text \<open>A capability reader takes the request with the profile; its result has no profiles.\<close>

record 'w capability_reader =
  cr_id :: string
  cr_read :: "match_request \<Rightarrow> string \<Rightarrow> ('w, match_signal \<times> evidence_strength \<times> string) io"

datatype surface_access = ReadOnly | ReadWrite

record 'o operations_surface =
  os_access :: surface_access
  os_payload :: 'o

record ('w, 'o) provider_definition =
  pd_id :: string
  pd_profileVersion :: string
  pd_eligibleTransports :: "provider_transport list"
  pd_passiveMatchers :: "passive_matcher list"
  pd_probes :: "'w unauthenticated_probe list"
  pd_authenticatedProfile :: "'w authenticated_profile option"
  pd_capabilityReaders :: "'w capability_reader list"
  pd_operations :: "string \<Rightarrow> 'o operations_surface"

datatype match_stage =
  StageTransport | StagePassive | StageFingerprint | StageAuthenticated | StageCapability

record matcher_evidence =
  me_provider :: string
  me_profile :: "string option"
  me_stage :: match_stage
  me_source :: string
  me_signal :: match_signal
  me_strength :: evidence_strength
  me_detail :: string

text \<open>\<open>selection\<close>: the provider, profile, operations and writable flag of a selected result.\<close>

datatype 'o match_verdict =
    Unresolved bool
  | Selected string string "'o operations_surface" bool

record 'o match_result =
  mr_verdict :: "'o match_verdict"
  mr_score :: matcher_score
  mr_confidence :: rat
  mr_evidence :: "matcher_evidence list"
  mr_conflicts :: "matcher_evidence list"
  mr_generation :: int
  mr_physicalModemId :: string

section \<open>The registry\<close>

datatype registry_error = DuplicateProvider | EmptyProfileVersion

record ('w, 'o) registry =
  rg_definitions :: "('w, 'o) provider_definition list"
  rg_revision :: nat

definition create_registry :: "('w, 'o) registry" where
  "create_registry = \<lparr>rg_definitions = [], rg_revision = 0\<rparr>"

definition register_provider ::
  "('w, 'o) provider_definition \<Rightarrow> ('w, 'o) registry \<Rightarrow> registry_error + ('w, 'o) registry" where
  "register_provider definition' r =
     (if \<exists>candidate \<in> set (rg_definitions r). pd_id candidate = pd_id definition'
      then Inl DuplicateProvider
      else if js_trim (pd_profileVersion definition') = [] then Inl EmptyProfileVersion
      else Inr \<lparr>rg_definitions = rg_definitions r @ [definition'], rg_revision = rg_revision r + 1\<rparr>)"

section \<open>Scoring\<close>

fun STRENGTH_POINTS :: "evidence_strength \<Rightarrow> nat" where
  "STRENGTH_POINTS StrengthNone = 0"
| "STRENGTH_POINTS StrengthWeak = 1"
| "STRENGTH_POINTS StrengthModerate = 2"
| "STRENGTH_POINTS StrengthStrong = 3"

definition scoreOf :: "nat \<Rightarrow> matcher_score" where
  "scoreOf points =
     (if points = 0 then ScoreUnsupported
      else if points = 1 then ScoreMaybe
      else if points = 2 then ScoreLikely
      else ScoreSupported)"

definition confidenceOf :: "nat \<Rightarrow> rat" where
  "confidenceOf points = min 1 (of_nat points / 3)"

record ('w, 'o) candidate =
  ca_provider :: "('w, 'o) provider_definition"
  ca_profile :: string
  ca_points :: nat

type_synonym ('w, 'o) candidates = "(string \<times> ('w, 'o) candidate) list"

definition candidate_key :: "('w, 'o) provider_definition \<Rightarrow> string \<Rightarrow> string" where
  "candidate_key provider profile = pd_id provider @ NUL @ profile"

definition addCandidate ::
  "('w, 'o) provider_definition \<Rightarrow> evidence_strength \<Rightarrow> ('w, 'o) candidates \<Rightarrow> string \<Rightarrow> ('w, 'o) candidates" where
  "addCandidate provider strength candidates profile =
     (let key = candidate_key provider profile in
      case map_of candidates key of
        None \<Rightarrow> AList.update key
                 \<lparr>ca_provider = provider, ca_profile = profile, ca_points = STRENGTH_POINTS strength\<rparr> candidates
      | Some existing \<Rightarrow>
          AList.update key (existing\<lparr>ca_points := ca_points existing + STRENGTH_POINTS strength\<rparr>) candidates)"

text \<open>The three collections \<open>evaluate\<close> fills.\<close>

record ('w, 'o) collected =
  co_evidence :: "matcher_evidence list"
  co_conflicts :: "matcher_evidence list"
  co_candidates :: "('w, 'o) candidates"

definition unresolvedResult ::
  "bool \<Rightarrow> match_request \<Rightarrow> nat \<Rightarrow> matcher_evidence list \<Rightarrow> matcher_evidence list \<Rightarrow> 'o match_result" where
  "unresolvedResult ambiguous request points evidence conflicts =
     \<lparr>mr_verdict = Unresolved ambiguous, mr_score = scoreOf points, mr_confidence = confidenceOf points,
      mr_evidence = evidence, mr_conflicts = conflicts, mr_generation = mq_generation request,
      mr_physicalModemId = mq_physicalModemId request\<rparr>"

section \<open>The stages\<close>

fun transport_text :: "provider_transport \<Rightarrow> string" where
  "transport_text TransUsb = ''usb''"
| "transport_text TransPci = ''pci''"
| "transport_text TransNetwork = ''network''"
| "transport_text TransModemManager = ''modemmanager''"

definition eligible :: "match_request \<Rightarrow> ('w, 'o) provider_definition \<Rightarrow> bool" where
  "eligible request provider \<longleftrightarrow> mq_transport request \<in> set (pd_eligibleTransports provider)"

definition transport_evidence :: "match_request \<Rightarrow> ('w, 'o) provider_definition \<Rightarrow> matcher_evidence" where
  "transport_evidence request provider =
     \<lparr>me_provider = pd_id provider, me_profile = None, me_stage = StageTransport,
      me_source = transport_text (mq_transport request),
      me_signal = (if eligible request provider then SigMatch else SigMismatch),
      me_strength = StrengthNone,
      me_detail = (if eligible request provider then ''eligible-transport'' else ''ineligible-transport'')\<rparr>"

text \<open>\<open>profiles.length === 1 ? (profiles[0] ?? null) : null\<close>.\<close>

fun single_profile :: "string list \<Rightarrow> string option" where
  "single_profile [p] = Some p"
| "single_profile _ = None"

definition passive_signal :: "match_request \<Rightarrow> passive_matcher \<Rightarrow> match_signal" where
  "passive_signal request matcher =
     (let actual = map pf_value (filter (\<lambda>f. pf_kind f = pm_fact matcher) (mq_passiveFacts request)) in
      if actual = [] then SigUnknown
      else if \<exists>v \<in> set actual. v \<in> set (pm_expected matcher) then SigMatch else SigMismatch)"

definition passive_step ::
  "match_request \<Rightarrow> ('w, 'o) collected \<Rightarrow> ('w, 'o) provider_definition \<times> passive_matcher \<Rightarrow> ('w, 'o) collected" where
  "passive_step request c pm =
     (case pm of (provider, matcher) \<Rightarrow>
        let signal = passive_signal request matcher;
            item = \<lparr>me_provider = pd_id provider, me_profile = single_profile (pm_profiles matcher),
                    me_stage = StagePassive, me_source = pm_id matcher, me_signal = signal,
                    me_strength = pm_strength matcher,
                    me_detail = (if signal = SigMatch then ''expected-fact-present''
                                 else ''expected-fact-not-proven'')\<rparr>
        in \<lparr>co_evidence = co_evidence c @ [item],
            co_conflicts = (if signal = SigMismatch \<and> pm_required matcher
                            then co_conflicts c @ [item] else co_conflicts c),
            co_candidates = (if signal = SigMatch
                             then foldl (addCandidate provider (pm_strength matcher)) (co_candidates c)
                                    (pm_profiles matcher)
                             else co_candidates c)\<rparr>)"

definition fingerprint_step ::
  "('w, 'o) provider_definition \<Rightarrow> 'w unauthenticated_probe \<Rightarrow> fingerprint_result \<Rightarrow>
     ('w, 'o) collected \<Rightarrow> ('w, 'o) collected" where
  "fingerprint_step provider probe result c =
     (let item = \<lparr>me_provider = pd_id provider, me_profile = single_profile (fp_profiles result),
                  me_stage = StageFingerprint, me_source = up_id probe, me_signal = fp_signal result,
                  me_strength = fp_strength result, me_detail = fp_detail result\<rparr>
      in \<lparr>co_evidence = co_evidence c @ [item],
          co_conflicts = (if fp_signal result = SigMismatch then co_conflicts c @ [item] else co_conflicts c),
          co_candidates = (if fp_signal result = SigMatch
                           then foldl (addCandidate provider (fp_strength result)) (co_candidates c)
                                  (fp_profiles result)
                           else co_candidates c)\<rparr>)"

fun run_probes ::
  "match_request \<Rightarrow> (('w, 'o) provider_definition \<times> 'w unauthenticated_probe) list \<Rightarrow>
     ('w, 'o) collected \<Rightarrow> ('w, ('w, 'o) collected) io" where
  "run_probes request [] c = io_return c"
| "run_probes request ((provider, probe) # rest) c =
     io_bind (up_run probe request)
       (\<lambda>result. run_probes request rest (fingerprint_step provider probe result c))"

text \<open>The stages before the ranking: transport, passive facts, unauthenticated fingerprints.\<close>

definition collect ::
  "('w, 'o) provider_definition list \<Rightarrow> match_request \<Rightarrow> ('w, ('w, 'o) collected) io" where
  "collect providers request =
     (let eligibles = filter (eligible request) providers;
          passive = foldl (passive_step request)
            \<lparr>co_evidence = map (transport_evidence request) providers, co_conflicts = [], co_candidates = []\<rparr>
            (concat (map (\<lambda>p. map (Pair p) (pd_passiveMatchers p)) eligibles))
      in run_probes request (concat (map (\<lambda>p. map (Pair p) (pd_probes p)) eligibles)) passive)"

definition ranked :: "('w, 'o) candidates \<Rightarrow> ('w, 'o) candidate list" where
  "ranked candidates = sort_key (\<lambda>c. - int (ca_points c)) (map snd candidates)"

text \<open>The capability readers of the top candidate: evidence, conflicts and points grow.\<close>

fun run_readers ::
  "match_request \<Rightarrow> string \<Rightarrow> string \<Rightarrow> 'w capability_reader list \<Rightarrow>
     matcher_evidence list \<times> matcher_evidence list \<times> nat \<Rightarrow>
     ('w, matcher_evidence list \<times> matcher_evidence list \<times> nat) io" where
  "run_readers request provider profile [] acc = io_return acc"
| "run_readers request provider profile (reader # rest) (evidence, conflicts, points) =
     io_bind (cr_read reader request profile)
       (\<lambda>(signal, strength, detail).
          let item = \<lparr>me_provider = provider, me_profile = Some profile, me_stage = StageCapability,
                      me_source = cr_id reader, me_signal = signal, me_strength = strength, me_detail = detail\<rparr>
          in run_readers request provider profile rest
               (evidence @ [item],
                if signal = SigMismatch then conflicts @ [item] else conflicts,
                if signal = SigMatch then points + STRENGTH_POINTS strength else points))"

definition auth_matches :: "string \<Rightarrow> authenticated_result \<Rightarrow> bool" where
  "auth_matches profile auth = (case auth of AuthMatched p _ \<Rightarrow> p = profile | _ \<Rightarrow> False)"

fun auth_detail :: "authenticated_result \<Rightarrow> string" where
  "auth_detail (AuthMatched _ d) = d"
| "auth_detail (AuthRefused d) = d"
| "auth_detail (AuthUnavailable d) = d"

definition auth_evidence ::
  "('w, 'o) candidate \<Rightarrow> string \<Rightarrow> authenticated_result \<Rightarrow> matcher_evidence" where
  "auth_evidence best algorithm auth =
     \<lparr>me_provider = pd_id (ca_provider best), me_profile = Some (ca_profile best),
      me_stage = StageAuthenticated, me_source = algorithm,
      me_signal = (if auth_matches (ca_profile best) auth then SigMatch
                   else case auth of AuthUnavailable _ \<Rightarrow> SigUnknown | _ \<Rightarrow> SigMismatch),
      me_strength = StrengthStrong, me_detail = auth_detail auth\<rparr>"

text \<open>The end of \<open>evaluate\<close>, from the capability reads on.\<close>

definition conclude ::
  "match_request \<Rightarrow> ('w, 'o) candidate \<Rightarrow> matcher_evidence list \<Rightarrow> matcher_evidence list \<Rightarrow> nat \<Rightarrow>
     ('w, 'o match_result) io" where
  "conclude request best evidence conflicts points =
     io_bind (run_readers request (pd_id (ca_provider best)) (ca_profile best)
                (pd_capabilityReaders (ca_provider best)) (evidence, conflicts, points))
       (\<lambda>(evidence', conflicts', points').
          if scoreOf points' \<noteq> ScoreSupported
          then io_return (unresolvedResult True request points' evidence' conflicts')
          else let operations = pd_operations (ca_provider best) (ca_profile best) in
            io_return
              \<lparr>mr_verdict = Selected (pd_id (ca_provider best)) (ca_profile best) operations
                              (os_access operations = ReadWrite),
               mr_score = ScoreSupported, mr_confidence = confidenceOf points',
               mr_evidence = evidence', mr_conflicts = conflicts',
               mr_generation = mq_generation request, mr_physicalModemId = mq_physicalModemId request\<rparr>)"

definition decide :: "match_request \<Rightarrow> ('w, 'o) collected \<Rightarrow> ('w, 'o match_result) io" where
  "decide request c =
     (case ranked (co_candidates c) of
        [] \<Rightarrow> io_return (unresolvedResult False request 0 (co_evidence c) (co_conflicts c))
      | best # others \<Rightarrow>
          if (case others of second # _ \<Rightarrow> ca_points second = ca_points best | [] \<Rightarrow> False)
          then io_return (unresolvedResult True request (ca_points best) (co_evidence c) (co_conflicts c))
          else case pd_authenticatedProfile (ca_provider best) of
            None \<Rightarrow> conclude request best (co_evidence c) (co_conflicts c) (ca_points best)
          | Some authenticated \<Rightarrow>
              io_bind (ap_authenticate authenticated request [ca_profile best])
                (\<lambda>auth.
                   let item = auth_evidence best (ap_algorithm authenticated) auth in
                   if \<not> auth_matches (ca_profile best) auth
                   then io_return (unresolvedResult True request (ca_points best)
                          (co_evidence c @ [item]) (co_conflicts c @ [item]))
                   else conclude request best (co_evidence c @ [item]) (co_conflicts c)
                          (ca_points best + STRENGTH_POINTS StrengthStrong)))"

definition evaluate ::
  "('w, 'o) provider_definition list \<Rightarrow> match_request \<Rightarrow> ('w, 'o match_result) io" where
  "evaluate providers request = io_bind (collect providers request) (decide request)"

section \<open>The cache\<close>

fun fact_kind_text :: "passive_fact_kind \<Rightarrow> string" where
  "fact_kind_text FactUsb = ''usb''"
| "fact_kind_text FactPci = ''pci''"
| "fact_kind_text FactInterface = ''interface''"
| "fact_kind_text FactDriver = ''driver''"
| "fact_kind_text FactGateway = ''gateway''"
| "fact_kind_text FactModel = ''model''"
| "fact_kind_text FactFirmware = ''firmware''"

definition signature_json :: "match_request \<Rightarrow> nat \<Rightarrow> int json" where
  "signature_json request registryRevision = JObj
     [(''registryRevision'', JNum (int registryRevision)), (''generation'', JNum (mq_generation request)),
      (''transport'', JStr (transport_text (mq_transport request))),
      (''passiveFacts'', JArr (map (\<lambda>f. JObj [(''kind'', JStr (fact_kind_text (pf_kind f))),
                                             (''value'', JStr (pf_value f))]) (mq_passiveFacts request))),
      (''composition'', JStr (mq_composition request)),
      (''firmware'', case mq_firmware request of Some f \<Rightarrow> JStr f | None \<Rightarrow> JNull)]"

definition cacheSignature :: "match_request \<Rightarrow> nat \<Rightarrow> string" where
  "cacheSignature request registryRevision = json_print (signature_json request registryRevision)"

type_synonym 'o match_cache = "(string \<times> (string \<times> 'o match_result)) list"

definition match_modem ::
  "('w, 'o) registry \<Rightarrow> match_request \<Rightarrow> 'o match_cache \<times> 'w \<Rightarrow> (string + 'o match_result) \<times> 'o match_cache \<times> 'w" where
  "match_modem r request st =
     (case st of (cache, w) \<Rightarrow>
        let key = mq_physicalModemId request; signature = cacheSignature request (rg_revision r);
            fresh = (case evaluate (rg_definitions r) request w of
                       (Inl e, w') \<Rightarrow> (Inl e, cache, w')
                     | (Inr result, w') \<Rightarrow> (Inr result, AList.update key (signature, result) cache, w'))
        in case map_of cache key of
             Some (cachedSignature, result) \<Rightarrow>
               if cachedSignature = signature then (Inr result, cache, w) else fresh
           | None \<Rightarrow> fresh)"

section \<open>The registry contract\<close>

text \<open>What the matcher relies on: identifiers are unique, a registration appends and moves the revision,
  a refusal changes nothing.\<close>

locale provider_registry =
  fixes definitions :: "'r \<Rightarrow> 'd list" and revision :: "'r \<Rightarrow> nat"
    and register :: "'d \<Rightarrow> 'r \<Rightarrow> 'e + 'r" and ident :: "'d \<Rightarrow> string" and empty_registry :: 'r
  assumes starts: "definitions empty_registry = [] \<and> revision empty_registry = 0"
    and registers: "register d r = Inr r' \<Longrightarrow>
      definitions r' = definitions r @ [d] \<and> revision r' = Suc (revision r) \<and> ident d \<notin> ident ` set (definitions r)"
begin

fun register_all :: "'d list \<Rightarrow> 'r \<Rightarrow> 'r" where
  "register_all [] r = r"
| "register_all (d # ds) r = (case register d r of Inl _ \<Rightarrow> register_all ds r | Inr r' \<Rightarrow> register_all ds r')"

lemma register_all_inv:
  assumes "distinct (map ident (definitions r))" and "revision r = length (definitions r)"
  shows "distinct (map ident (definitions (register_all ds r))) \<and>
     revision (register_all ds r) = length (definitions (register_all ds r))"
  using assms
proof (induction ds arbitrary: r)
  case (Cons d ds)
  show ?case
  proof (cases "register d r")
    case (Inr r')
    with registers [OF Inr] Cons show ?thesis by simp
  qed (use Cons in simp)
qed simp

lemma registered_unique:
  "distinct (map ident (definitions (register_all ds empty_registry))) \<and>
   revision (register_all ds empty_registry) = length (definitions (register_all ds empty_registry))"
  by (rule register_all_inv) (simp_all add: starts)

end

interpretation pr: provider_registry rg_definitions rg_revision register_provider pd_id create_registry
  by unfold_locales (auto simp: create_registry_def register_provider_def split: if_splits)

section \<open>Candidates\<close>

definition candidates_ok :: "('w, 'o) provider_definition list \<Rightarrow> ('w, 'o) candidates \<Rightarrow> bool" where
  "candidates_ok ps cs \<longleftrightarrow> distinct (map fst cs) \<and>
     (\<forall>(k, c) \<in> set cs. k = candidate_key (ca_provider c) (ca_profile c) \<and> ca_provider c \<in> set ps)"

lemma candidates_ok_map: "candidates_ok ps cs \<Longrightarrow> map_of cs k = Some c \<Longrightarrow>
    k = candidate_key (ca_provider c) (ca_profile c) \<and> ca_provider c \<in> set ps"
  by (auto simp: candidates_ok_def dest!: map_of_SomeD)

lemma candidates_ok_update:
  assumes "candidates_ok ps cs" and "k = candidate_key (ca_provider c) (ca_profile c)" and "ca_provider c \<in> set ps"
  shows "candidates_ok ps (AList.update k c cs)"
proof -
  have d: "distinct (map fst cs)" using assms(1) by (simp add: candidates_ok_def)
  have d': "distinct (map fst (AList.update k c cs))" using d by (rule distinct_update)
  have "k' = candidate_key (ca_provider c') (ca_profile c') \<and> ca_provider c' \<in> set ps"
    if "(k', c') \<in> set (AList.update k c cs)" for k' c'
  proof -
    have "map_of (AList.update k c cs) k' = Some c'" using that d' by simp
    with assms show ?thesis by (auto simp: update_conv' split: if_splits dest: candidates_ok_map)
  qed
  with d' show ?thesis by (auto simp: candidates_ok_def)
qed

lemma addCandidate_ok: "candidates_ok ps cs \<Longrightarrow> p \<in> set ps \<Longrightarrow> candidates_ok ps (addCandidate p s cs profile)"
  by (auto simp: addCandidate_def Let_def intro!: candidates_ok_update split: option.split dest: candidates_ok_map)

lemma addCandidates_ok: "candidates_ok ps cs \<Longrightarrow> p \<in> set ps \<Longrightarrow> candidates_ok ps (foldl (addCandidate p s) cs profiles)"
  by (induction profiles arbitrary: cs) (auto intro: addCandidate_ok)

lemma passive_step_ok:
  "candidates_ok ps (co_candidates c) \<Longrightarrow> p \<in> set ps \<Longrightarrow>
     candidates_ok ps (co_candidates (passive_step request c (p, matcher)))"
  by (auto simp: passive_step_def Let_def intro: addCandidates_ok)

lemma fingerprint_step_ok:
  "candidates_ok ps (co_candidates c) \<Longrightarrow> p \<in> set ps \<Longrightarrow>
     candidates_ok ps (co_candidates (fingerprint_step p probe result c))"
  by (auto simp: fingerprint_step_def Let_def intro: addCandidates_ok)

lemma passive_steps_ok:
  "candidates_ok ps (co_candidates c) \<Longrightarrow> fst ` set pms \<subseteq> set ps \<Longrightarrow>
     candidates_ok ps (co_candidates (foldl (passive_step request) c pms))"
proof (induction pms arbitrary: c)
  case (Cons pm pms)
  then have "candidates_ok ps (co_candidates (passive_step request c pm))"
    using passive_step_ok [of ps c "fst pm" request "snd pm"] by simp
  with Cons show ?case by simp
qed simp

lemma run_probes_ok:
  "run_probes request prs c w = (Inr c', w') \<Longrightarrow> candidates_ok ps (co_candidates c) \<Longrightarrow> fst ` set prs \<subseteq> set ps \<Longrightarrow>
     candidates_ok ps (co_candidates c')"
proof (induction request prs c arbitrary: w rule: run_probes.induct)
  case (2 request provider probe rest c)
  from "2.prems"(1) obtain result w1 where
    "run_probes request rest (fingerprint_step provider probe result c) w1 = (Inr c', w')"
    by (auto simp: io_bind_def split: prod.splits sum.splits)
  from "2.IH" [OF this fingerprint_step_ok] "2.prems" show ?case by simp
qed (simp add: io_return_def)

lemma collect_ok:
  assumes "collect providers request w = (Inr c, w')"
  shows "candidates_ok (filter (eligible request) providers) (co_candidates c)"
  using assms unfolding collect_def Let_def
proof (rule run_probes_ok, goal_cases)
  case 1
  show ?case by (rule passive_steps_ok) (auto simp: candidates_ok_def)
qed auto

lemma ranked_best:
  assumes "ranked cs = best # others" and "\<not> (case others of second # _ \<Rightarrow> ca_points second = ca_points best | [] \<Rightarrow> False)"
    and "candidates_ok ps cs" and "(k, c) \<in> set cs" and "k \<noteq> candidate_key (ca_provider best) (ca_profile best)"
  shows "ca_points c < ca_points best"
proof -
  have sorted: "sorted (map (\<lambda>c. - int (ca_points c)) (best # others))"
    unfolding assms(1) [symmetric] ranked_def by (rule sorted_sort_key)
  have "set (ranked cs) = snd ` set cs" by (simp add: ranked_def)
  with assms(1,4) have "c \<in> set (best # others)" by force
  moreover have "c \<noteq> best"
    using assms(3,4,5) by (auto simp: candidates_ok_def)
  ultimately have c: "c \<in> set others" by simp
  show ?thesis
  proof (cases others)
    case (Cons second more)
    with sorted assms(2) have "ca_points second < ca_points best" by simp
    moreover have "ca_points c \<le> ca_points second" using sorted c Cons by auto
    ultimately show ?thesis by simp
  qed (use c in simp)
qed

lemma ranked_member:
  "ranked cs = best # others \<Longrightarrow> (\<exists>k. (k, best) \<in> set cs)"
proof -
  assume "ranked cs = best # others"
  then have "best \<in> set (ranked cs)" by simp
  then show ?thesis by (auto simp: ranked_def)
qed

text \<open>The unique candidate with the most points.\<close>

definition unique_best :: "('w, 'o) candidates \<Rightarrow> ('w, 'o) candidate \<Rightarrow> bool" where
  "unique_best cs best \<longleftrightarrow>
     (candidate_key (ca_provider best) (ca_profile best), best) \<in> set cs \<and>
     (\<forall>(k, c) \<in> set cs. k \<noteq> candidate_key (ca_provider best) (ca_profile best) \<longrightarrow> ca_points c < ca_points best)"

lemma ranked_unique:
  assumes "ranked cs = best # others" and "candidates_ok ps cs"
  shows "unique_best cs best \<longleftrightarrow> \<not> (case others of second # _ \<Rightarrow> ca_points second = ca_points best | [] \<Rightarrow> False)"
proof
  assume u: "unique_best cs best"
  show "\<not> (case others of second # _ \<Rightarrow> ca_points second = ca_points best | [] \<Rightarrow> False)"
  proof (cases others)
    case (Cons second more)
    have d: "distinct (map fst cs)" using assms(2) by (simp add: candidates_ok_def)
    have keys: "(candidate_key (ca_provider c) (ca_profile c), c) \<in> set cs" if "c \<in> snd ` set cs" for c
      using that assms(2) by (auto simp: candidates_ok_def)
    have keyed: "\<forall>x \<in> set cs. fst x = candidate_key (ca_provider (snd x)) (ca_profile (snd x))"
      using assms(2) by (auto simp: candidates_ok_def)
    have "inj_on snd (set cs)"
    proof (rule inj_onI)
      fix x y assume "x \<in> set cs" "y \<in> set cs" "snd x = snd y"
      with keyed have "fst x = fst y" by metis
      with \<open>snd x = snd y\<close> show "x = y" by (rule prod_eqI [rotated])
    qed
    moreover have "distinct cs" using d by (simp add: distinct_map)
    ultimately have "distinct (map snd cs)" by (simp add: distinct_map)
    then have "distinct (ranked cs)" by (simp add: ranked_def)
    then have "distinct (best # second # more)" using assms(1) Cons by simp
    then have ne: "second \<noteq> best" by auto
    have "second \<in> set (ranked cs)" using assms(1) Cons by simp
    then have "second \<in> snd ` set cs" by (simp add: ranked_def)
    note second = keys [OF this]
    moreover have "candidate_key (ca_provider second) (ca_profile second) \<noteq> candidate_key (ca_provider best) (ca_profile best)"
      using second u d ne by (auto simp: unique_best_def dest: eq_key_imp_eq_value)
    ultimately have "ca_points second < ca_points best" using u by (auto simp: unique_best_def)
    with Cons show ?thesis by simp
  qed simp
next
  assume no_tie: "\<not> (case others of second # _ \<Rightarrow> ca_points second = ca_points best | [] \<Rightarrow> False)"
  from ranked_member [OF assms(1)] assms(2)
  have "(candidate_key (ca_provider best) (ca_profile best), best) \<in> set cs" by (auto simp: candidates_ok_def)
  with ranked_best [OF assms(1) no_tie assms(2)] show "unique_best cs best" by (auto simp: unique_best_def)
qed

section \<open>Selection\<close>

lemma conclude_selected:
  assumes "conclude request best evidence conflicts points w = (Inr r, w')" and "mr_verdict r = Selected p prof ops writable"
  shows "p = pd_id (ca_provider best) \<and> prof = ca_profile best \<and> ops = pd_operations (ca_provider best) prof \<and>
     writable = (os_access ops = ReadWrite) \<and> mr_score r = ScoreSupported"
  using assms
  by (auto simp: conclude_def io_bind_def io_return_def unresolvedResult_def Let_def
      split: prod.splits sum.splits if_splits)

lemma decide_selected:
  assumes "decide request c w = (Inr r, w')" and "mr_verdict r = Selected p prof ops writable"
    and ok: "candidates_ok ps (co_candidates c)"
  shows "\<exists>best. unique_best (co_candidates c) best \<and> ca_provider best \<in> set ps \<and>
     p = pd_id (ca_provider best) \<and> prof = ca_profile best \<and>
     ops = pd_operations (ca_provider best) prof \<and> writable = (os_access ops = ReadWrite) \<and>
     mr_score r = ScoreSupported \<and>
     (case pd_authenticatedProfile (ca_provider best) of
        None \<Rightarrow> True
      | Some a \<Rightarrow> \<exists>d w1. ap_authenticate a request [prof] w = (Inr (AuthMatched prof d), w1))"
proof -
  obtain best others where ranked: "ranked (co_candidates c) = best # others"
    using assms(1,2) by (cases "ranked (co_candidates c)") (auto simp: decide_def io_return_def unresolvedResult_def)
  have no_tie: "\<not> (case others of second # _ \<Rightarrow> ca_points second = ca_points best | [] \<Rightarrow> False)"
    using assms(1,2) by (auto simp: decide_def ranked io_return_def unresolvedResult_def split: if_splits)
  with ranked_unique [OF ranked ok] have unique: "unique_best (co_candidates c) best" by blast
  then have "ca_provider best \<in> set ps" using ok by (auto simp: unique_best_def candidates_ok_def)
  moreover have "p = pd_id (ca_provider best) \<and> prof = ca_profile best \<and> ops = pd_operations (ca_provider best) prof \<and>
     writable = (os_access ops = ReadWrite) \<and> mr_score r = ScoreSupported \<and>
     (case pd_authenticatedProfile (ca_provider best) of
        None \<Rightarrow> True
      | Some a \<Rightarrow> \<exists>d w1. ap_authenticate a request [prof] w = (Inr (AuthMatched prof d), w1))"
  proof (cases "pd_authenticatedProfile (ca_provider best)")
    case None
    with assms(1) no_tie have "conclude request best (co_evidence c) (co_conflicts c) (ca_points best) w = (Inr r, w')"
      by (simp add: decide_def ranked)
    from conclude_selected [OF this assms(2)] None show ?thesis by simp
  next
    case (Some a)
    obtain q w1 where auth: "ap_authenticate a request [ca_profile best] w = (q, w1)" by force
    with assms(1,2) no_tie Some obtain d where q: "q = Inr (AuthMatched (ca_profile best) d)"
      by (cases q) (auto simp: decide_def ranked io_bind_def io_return_def unresolvedResult_def auth_matches_def Let_def
          split: if_splits authenticated_result.splits)
    with assms(1) no_tie Some auth obtain e cf n where "conclude request best e cf n w1 = (Inr r, w')"
      by (auto simp: decide_def ranked io_bind_def auth_matches_def Let_def)
    from conclude_selected [OF this assms(2)] Some auth q show ?thesis by simp
  qed
  ultimately show ?thesis using unique by (intro exI [of _ best]) simp
qed


text \<open>An unresolved ranking is never guessed at and never probed further: without a unique best
  candidate no authentication and no capability read is made, and the result is unsupported (no
  candidate) or ambiguous, and not selected.\<close>

theorem tie_stops_evaluation:
  assumes "collect providers request w = (Inr c, w1)" and "\<nexists>best. unique_best (co_candidates c) best"
  shows "\<exists>r. evaluate providers request w = (Inr r, w1) \<and>
     mr_verdict r = Unresolved (co_candidates c \<noteq> []) \<and>
     mr_evidence r = co_evidence c \<and> mr_conflicts r = co_conflicts c"
proof (cases "ranked (co_candidates c)")
  case Nil
  then have "co_candidates c = []" by (metis ranked_def length_sort length_map length_0_conv)
  with Nil assms(1) show ?thesis
    by (simp add: evaluate_def io_bind_def decide_def io_return_def unresolvedResult_def)
next
  case (Cons best others)
  then have "co_candidates c \<noteq> []" by (auto simp: ranked_def)
  moreover have "case others of second # _ \<Rightarrow> ca_points second = ca_points best | [] \<Rightarrow> False"
    using ranked_unique [OF Cons collect_ok [OF assms(1)]] assms(2) by blast
  ultimately show ?thesis
    using Cons assms(1) by (simp add: evaluate_def io_bind_def decide_def io_return_def unresolvedResult_def)
qed

section \<open>The cache\<close>

lemma parsed_inj: "json_unique j \<Longrightarrow> json_unique j' \<Longrightarrow> json_print j = json_print j' \<Longrightarrow> j = j'"
proof -
  assume "json_unique j" "json_unique j'" "json_print j = json_print j'"
  then have "parsed j = parsed j'" by (metis json_parse_print option.inject)
  moreover have "inj (of_int :: int \<Rightarrow> rat)" by (simp add: inj_on_def)
  then have "inj parsed" by (rule json.inj_map)
  ultimately show "j = j'" by (auto dest: injD)
qed

definition fact_json :: "passive_fact \<Rightarrow> int json" where
  "fact_json f = JObj [(''kind'', JStr (fact_kind_text (pf_kind f))), (''value'', JStr (pf_value f))]"

lemma fact_json_inj: "inj fact_json"
proof (rule injI)
  fix f g assume "fact_json f = fact_json g"
  then have "fact_kind_text (pf_kind f) = fact_kind_text (pf_kind g)" "pf_value f = pf_value g"
    by (simp_all add: fact_json_def)
  moreover have "fact_kind_text a = fact_kind_text b \<Longrightarrow> a = b" for a b by (cases a; cases b) simp_all
  ultimately show "f = g" by (cases f; cases g) auto
qed

lemma signature_unique: "json_unique (signature_json request n)"
proof -
  have "json_unique_all (map fact_json fs)" for fs by (induction fs) (simp_all add: fact_json_def)
  then show ?thesis
    by (simp add: signature_json_def fact_json_def [abs_def] split: option.split)
qed

lemma cacheSignature_inj:
  "cacheSignature q n = cacheSignature q' n' \<longleftrightarrow>
     n = n' \<and> mq_generation q = mq_generation q' \<and> mq_transport q = mq_transport q' \<and>
     mq_passiveFacts q = mq_passiveFacts q' \<and> mq_composition q = mq_composition q' \<and> mq_firmware q = mq_firmware q'"
proof
  assume "cacheSignature q n = cacheSignature q' n'"
  then have eq: "signature_json q n = signature_json q' n'"
    unfolding cacheSignature_def by (rule parsed_inj [OF signature_unique signature_unique])
  have "transport_text a = transport_text b \<Longrightarrow> a = b" for a b by (cases a; cases b) simp_all
  moreover have "mq_passiveFacts q = mq_passiveFacts q'"
    using eq fact_json_inj by (auto simp: signature_json_def fact_json_def [abs_def, symmetric] inj_map_eq_map)
  ultimately show "n = n' \<and> mq_generation q = mq_generation q' \<and> mq_transport q = mq_transport q' \<and>
     mq_passiveFacts q = mq_passiveFacts q' \<and> mq_composition q = mq_composition q' \<and> mq_firmware q = mq_firmware q'"
    using eq by (auto simp: signature_json_def split: option.splits)
qed (simp add: cacheSignature_def signature_json_def)

text \<open>The cache never answers for another device state: after a match of a modem, the next match of
  that modem returns the same result without any call exactly when registry revision, generation,
  transport, passive facts, composition and firmware are all unchanged, and is evaluated afresh
  otherwise.\<close>

theorem cache_is_generation_scoped:
  assumes "match_modem reg q st = (Inr r, cache, w)" and "mq_physicalModemId q' = mq_physicalModemId q"
  shows "match_modem reg' q' (cache, w) =
     (if rg_revision reg' = rg_revision reg \<and> mq_generation q' = mq_generation q \<and>
         mq_transport q' = mq_transport q \<and> mq_passiveFacts q' = mq_passiveFacts q \<and>
         mq_composition q' = mq_composition q \<and> mq_firmware q' = mq_firmware q
      then (Inr r, cache, w)
      else case evaluate (rg_definitions reg') q' w of
        (Inl e, w') \<Rightarrow> (Inl e, cache, w')
      | (Inr r', w') \<Rightarrow>
          (Inr r', AList.update (mq_physicalModemId q) (cacheSignature q' (rg_revision reg'), r') cache, w'))"
proof -
  have cached: "map_of cache (mq_physicalModemId q) = Some (cacheSignature q (rg_revision reg), r)"
    using assms(1)
    by (auto simp: match_modem_def Let_def update_conv' split: prod.splits option.splits if_splits sum.splits)
  have "cacheSignature q (rg_revision reg) = cacheSignature q' (rg_revision reg') \<longleftrightarrow>
      rg_revision reg' = rg_revision reg \<and> mq_generation q' = mq_generation q \<and>
      mq_transport q' = mq_transport q \<and> mq_passiveFacts q' = mq_passiveFacts q \<and>
      mq_composition q' = mq_composition q \<and> mq_firmware q' = mq_firmware q"
    unfolding cacheSignature_inj by auto
  then show ?thesis by (simp add: match_modem_def cached assms(2))
qed

section \<open>Concrete matches\<close>

definition sample_provider :: "string list \<Rightarrow> (unit, unit) provider_definition" where
  "sample_provider profiles =
     \<lparr>pd_id = ''simcom'', pd_profileVersion = ''1'', pd_eligibleTransports = [TransUsb],
      pd_passiveMatchers = [\<lparr>pm_id = ''vidpid'', pm_fact = FactUsb, pm_expected = [''1e0e:9001''],
        pm_profiles = profiles, pm_strength = StrengthStrong, pm_required = True\<rparr>],
      pd_probes = [], pd_authenticatedProfile = None, pd_capabilityReaders = [],
      pd_operations = (\<lambda>_. \<lparr>os_access = ReadWrite, os_payload = ()\<rparr>)\<rparr>"

definition sample_match_request :: "int \<Rightarrow> match_request" where
  "sample_match_request g =
     \<lparr>mq_physicalModemId = ''m'', mq_generation = g, mq_transport = TransUsb,
      mq_passiveFacts = [\<lparr>pf_kind = FactUsb, pf_value = ''1e0e:9001''\<rparr>], mq_composition = ''qmi'', mq_firmware = None\<rparr>"

lemmas sample_match = evaluate_def collect_def io_bind_def io_return_def eligible_def passive_step_def
  passive_signal_def addCandidate_def Let_def decide_def ranked_def conclude_def scoreOf_def
  candidate_key_def NUL_def unresolvedResult_def sample_provider_def sample_match_request_def

lemma sample_selected:
  "\<exists>r. evaluate [sample_provider [''a'']] (sample_match_request 1) () = (Inr r, ()) \<and>
     mr_verdict r = Selected ''simcom'' ''a'' \<lparr>os_access = ReadWrite, os_payload = ()\<rparr> True"
  by (simp add: sample_match)


lemma sample_tied:
  "\<exists>c. collect [sample_provider [''a'', ''b'']] (sample_match_request 1) () = (Inr c, ()) \<and>
     co_candidates c =
       [(''simcom'' @ NUL @ ''a'', \<lparr>ca_provider = sample_provider [''a'', ''b''], ca_profile = ''a'', ca_points = 3\<rparr>),
        (''simcom'' @ NUL @ ''b'', \<lparr>ca_provider = sample_provider [''a'', ''b''], ca_profile = ''b'', ca_points = 3\<rparr>)]"
  by (simp add: sample_match)

theorem tie_stops_evaluation_witness:
  "\<exists>r. evaluate [sample_provider [''a'', ''b'']] (sample_match_request 1) () = (Inr r, ()) \<and>
     mr_verdict r = Unresolved True"
proof -
  let ?c = "\<lambda>p. \<lparr>ca_provider = sample_provider [''a'', ''b''], ca_profile = p, ca_points = 3\<rparr>"
  from sample_tied obtain c where collected: "collect [sample_provider [''a'', ''b'']] (sample_match_request 1) () = (Inr c, ())"
    and candidates: "co_candidates c = [(''simcom'' @ NUL @ ''a'', ?c ''a''), (''simcom'' @ NUL @ ''b'', ?c ''b'')]"
    by (elim exE conjE) (rule that)
  have "\<nexists>best. unique_best (co_candidates c) best"
  proof
    assume "\<exists>best. unique_best (co_candidates c) best"
    then obtain best where u: "unique_best (co_candidates c) best" by blast
    then have member: "best = ?c ''a'' \<or> best = ?c ''b''" by (auto simp: unique_best_def candidates)
    then have "ca_points best = 3" by auto
    moreover have "\<exists>k p. (k, ?c p) \<in> set (co_candidates c) \<and>
        k \<noteq> candidate_key (ca_provider best) (ca_profile best)"
      using member
      by (elim disjE)
         (rule exI [of _ "''simcom'' @ NUL @ ''b''"], rule exI [of _ "''b''"],
          simp add: candidates candidate_key_def sample_provider_def,
          rule exI [of _ "''simcom'' @ NUL @ ''a''"], rule exI [of _ "''a''"],
          simp add: candidates candidate_key_def sample_provider_def)
    ultimately show False using u by (fastforce simp: unique_best_def)
  qed
  from tie_stops_evaluation [OF collected this] candidates show ?thesis by auto
qed

theorem cache_is_generation_scoped_witness:
  "\<exists>r cache. match_modem (create_registry :: (unit, unit) registry) (sample_match_request 1) ([], ()) = (Inr r, cache, ()) \<and>
     match_modem (create_registry :: (unit, unit) registry) (sample_match_request 1) (cache, ()) = (Inr r, cache, ())"
proof -
  obtain r cache where run: "match_modem (create_registry :: (unit, unit) registry) (sample_match_request 1) ([], ()) =
      (Inr r, cache, ())"
    by (simp add: match_modem_def create_registry_def sample_match)
  from cache_is_generation_scoped [OF run, of "sample_match_request 1" "create_registry :: (unit, unit) registry"] run
  show ?thesis by auto
qed

end
