(* ===== verification/Mm_Snapshot.thy ===== *)
theory Mm_Snapshot
  imports Signal_Setup Capability Mm_Observation Physical_Identity Provider_Matcher
begin

text \<open>
  What the ModemManager provider reads of one modem (\<open>providers/modem-manager/{errors,snapshot,types}.ts\<close>): the
  refusal an error stands for, the modem of an identity in the tree, and its snapshot with the capabilities.
  A number of the tree is an integer, as in \<open>Managed_Objects\<close>.
\<close>

section \<open>Errors\<close>

datatype mm_refusal =
    RefUnauthorized | RefUnsupported | RefWrongState | RefBusy | RefNotFound | RefTimedOut | RefDisconnected | RefFailed

fun mm_refusal_text :: "mm_refusal \<Rightarrow> string" where
  "mm_refusal_text RefUnauthorized = ''unauthorized''"
| "mm_refusal_text RefUnsupported = ''unsupported''"
| "mm_refusal_text RefWrongState = ''wrong-state''"
| "mm_refusal_text RefBusy = ''busy''"
| "mm_refusal_text RefNotFound = ''not-found''"
| "mm_refusal_text RefTimedOut = ''timed-out''"
| "mm_refusal_text RefDisconnected = ''disconnected''"
| "mm_refusal_text RefFailed = ''failed''"

text \<open>The classes of \<open>transport/errors.ts\<close>, told by the name each sets.\<close>

definition is_disconnected :: "call_error \<Rightarrow> bool" where
  "is_disconnected e \<longleftrightarrow> ce_name e = Some ''DisconnectedError''"

definition is_transport_error :: "call_error \<Rightarrow> bool" where
  "is_transport_error e \<longleftrightarrow>
     ce_name e \<in> Some ` {''TransportError'', ''UnsupportedSignatureError'', ''BigIntRequiredError'',
       ''SixtyFourBitRangeError'', ''DisconnectedError''}"

definition errorIdentity :: "call_error \<Rightarrow> string" where
  "errorIdentity e =
     (case ce_dbusName e of Some n \<Rightarrow> n | None \<Rightarrow> (case ce_name e of Some n \<Rightarrow> n | None \<Rightarrow> ''Error'')) @ '' '' @ ce_message e"

text \<open>\<open>/a|b/i.test(text)\<close>\<close>

definition mentions :: "string list \<Rightarrow> string \<Rightarrow> bool" where
  "mentions words s \<longleftrightarrow> list_ex (\<lambda>w. js_includes w (js_lower s)) words"

definition mapModemManagerError :: "call_error \<Rightarrow> mm_refusal \<times> bool" where
  "mapModemManagerError e =
     (let i = errorIdentity e in
      if is_disconnected e then (RefDisconnected, True)
      else if mentions [''unauthorized'', ''accessdenied''] i then (RefUnauthorized, False)
      else if mentions [''unsupported'', ''notsupported''] i then (RefUnsupported, False)
      else if mentions [''wrongstate'', ''invalidstate''] i then (RefWrongState, True)
      else if mentions [''inprogress'', ''busy''] i then (RefBusy, True)
      else if mentions [''notfound'', ''unknownobject'', ''unknownmodem''] i then (RefNotFound, False)
      else if is_transport_error e \<and> mentions [''timed out''] (ce_message e) then (RefTimedOut, True)
      else (RefFailed, False))"

section \<open>Values\<close>

text \<open>\<open>rawValue\<close>: variants are unwrapped, a 64-bit integer and a byte string are left out.\<close>

fun raw_struct :: "dbus_value \<Rightarrow> dbus_value option" where
  "raw_struct (DStr s) = Some (DStr s)"
| "raw_struct (DNum n) = Some (DNum n)"
| "raw_struct (DBool b) = Some (DBool b)"
| "raw_struct (DBig n) = None"
| "raw_struct (DBytes bs) = None"
| "raw_struct (DVariant sig v) = raw_struct v"
| "raw_struct (DArr vs) = Some (DArr (concat (map (\<lambda>v. case raw_struct v of Some r \<Rightarrow> [r] | None \<Rightarrow> []) vs)))"

fun raw_of_struct :: "dbus_value \<Rightarrow> raw_value" where
  "raw_of_struct (DStr s) = RawText s"
| "raw_of_struct (DNum n) = RawNumber (Fin (of_int n))"
| "raw_of_struct (DBool b) = RawFlag b"
| "raw_of_struct (DArr vs) = RawList (map raw_of_struct vs)"
| "raw_of_struct _ = RawNull"

definition rawValue :: "dbus_value \<Rightarrow> raw_value option" where
  "rawValue v = map_option raw_of_struct (raw_struct v)"

definition propsRecord :: "decoded_props option \<Rightarrow> raw_record option" where
  "propsRecord props =
     map_option (\<lambda>ps. fold (\<lambda>(name, wrapped) r. case rawValue (v_value wrapped) of
        None \<Rightarrow> r | Some d \<Rightarrow> assign_field name d r) ps []) props"

definition num_or_zero :: "dbus_value option \<Rightarrow> int" where
  "num_or_zero v = (case v of Some (DNum n) \<Rightarrow> n | _ \<Rightarrow> 0)"

definition item_at :: "'a list \<Rightarrow> nat \<Rightarrow> 'a option" where
  "item_at vs i = (if i < length vs then Some (vs ! i) else None)"

definition value_tuple :: "dbus_value option \<Rightarrow> int \<times> int" where
  "value_tuple v = (case v of
     Some (DArr vs) \<Rightarrow> (num_or_zero (item_at vs 0), num_or_zero (item_at vs 1))
   | _ \<Rightarrow> (0, 0))"

definition modePairs :: "dbus_value option \<Rightarrow> (int \<times> int) list" where
  "modePairs v = (case v of
     Some (DArr vs) \<Rightarrow> filter (\<lambda>(allowed, _). allowed > 0) (map (\<lambda>c. value_tuple (Some c)) vs)
   | _ \<Rightarrow> [])"

definition structValue :: "dbus_value option \<Rightarrow> dbus_value option" where
  "structValue v = Option.bind v raw_struct"

section \<open>The snapshot\<close>

record mm_capabilities =
  mk_modeRead :: bool
  mk_modeWrite :: bool
  mk_bandRead :: bool
  mk_bandWrite :: bool
  mk_signalRead :: bool
  mk_simRead :: bool
  mk_multiSim :: bool
  mk_location :: bool
  mk_sms :: bool
  mk_ussd :: bool
  mk_powerRead :: bool

record mm_radio_state =
  mr_current :: "int \<times> int"
  mr_supported :: "(int \<times> int) list"
  mr_truth :: radio_mode_truth

record mm_signal_state =
  sg_quality :: "int option"
  sg_recent :: "bool option"
  sg_extendedAvailable :: bool

record mm_sim_state =
  mt_present :: bool
  mt_presence :: sim_presence
  mt_presenceEvidence :: presence_evidence
  mt_slotCount :: nat
  mt_primarySlot :: int
  mt_lockRequired :: "int option"
  mt_simType :: "int option"
  mt_esimStatus :: "int option"

record mm_provider_snapshot =
  mp_modemPath :: string
  mp_capabilities :: mm_capabilities
  mp_bandCertification :: band_write_certification
  mp_radio :: mm_radio_state
  mp_signal :: mm_signal_state
  mp_sim :: mm_sim_state
  mp_power :: radio_power
  mp_observation :: "modem_observation observation_envelope"

record execution_context = match_request +
  ec_profile :: string

definition signalState :: "decoded_props \<Rightarrow> decoded_props option \<Rightarrow> mm_signal_state" where
  "signalState modem signal =
     (let v = propValue (Some modem) ''SignalQuality''; quality = value_tuple v
      in \<lparr>sg_quality = (if fst quality \<ge> 0 then Some (fst quality) else None),
          sg_recent = (case v of Some (DArr _) \<Rightarrow> Some (snd quality \<noteq> 0) | _ \<Rightarrow> None),
          sg_extendedAvailable = (signal \<noteq> None)\<rparr>)"

text \<open>The active SIM object: the property must be a string.\<close>

definition active_sim :: "managed_objects \<Rightarrow> decoded_props \<Rightarrow> decoded_props option" where
  "active_sim tree modem =
     (case stringProp (Some modem) ''Sim'' of Some path \<Rightarrow> findInterface tree path SIM_IFACE | None \<Rightarrow> None)"

definition slot_paths :: "decoded_props \<Rightarrow> string list" where
  "slot_paths modem =
     (case propValue (Some modem) ''SimSlots'' of
        Some (DArr slots) \<Rightarrow> filter (\<lambda>s. s \<noteq> ''/'') (string_items slots) | _ \<Rightarrow> [])"

definition failed_reason :: "decoded_props \<Rightarrow> string option" where
  "failed_reason modem =
     (case propValue (Some modem) ''StateFailedReason'' of
        Some (DNum n) \<Rightarrow> decodeStateFailedReason (Some (of_int n))
      | Some (DStr s) \<Rightarrow> Some s | _ \<Rightarrow> None)"

definition simState :: "managed_objects \<Rightarrow> decoded_props \<Rightarrow> mm_sim_state" where
  "simState tree modem =
     (let activePath = stringProp (Some modem) ''Sim''; paths = slot_paths modem; active = active_sim tree modem;
          reading = readSimPresence \<lparr>sf_sim = activePath, sf_simSlots = (if paths = [] then None else Some paths),
                                     sf_failedReason = failed_reason modem\<rparr>
      in \<lparr>mt_present = (case activePath of Some p \<Rightarrow> p \<noteq> ''/'' | None \<Rightarrow> False),
          mt_presence = fst reading, mt_presenceEvidence = snd reading,
          mt_slotCount = length paths,
          mt_primarySlot = num_or_zero (propValue (Some modem) ''PrimarySimSlot''),
          mt_lockRequired = numberProp (Some modem) ''UnlockRequired'',
          mt_simType = numberProp active ''SimType'',
          mt_esimStatus = numberProp active ''EsimStatus''\<rparr>)"

definition radioPower :: "dbus_value option \<Rightarrow> radio_power" where
  "radioPower v =
     (if v = Some (DNum 1) then PowerOff else if v = Some (DNum 2) then PowerLow
      else if v = Some (DNum 3) then PowerOn else PowerUnknown)"

definition hasProperty :: "decoded_props \<Rightarrow> string \<Rightarrow> bool" where
  "hasProperty props name \<longleftrightarrow> name \<in> set (map fst props)"

text \<open>\<open>split(':')\<close>, the kind before the first colon and the rest after it (nothing when there is none).\<close>

definition id_kind :: "string \<Rightarrow> string" where "id_kind i = takeWhile (\<lambda>c. c \<noteq> CHR '':'') i"
definition id_rest :: "string \<Rightarrow> string" where "id_rest i = drop (Suc (length (id_kind i))) i"

definition id_candidates :: "string \<Rightarrow> decoded_props option \<Rightarrow> dbus_value option list" where
  "id_candidates kind modem =
     (if kind = ''serial'' then [propValue modem ''DeviceIdentifier'']
      else [propValue modem ''Device'', propValue modem ''Physdev''])"

definition findModemPath :: "managed_objects \<Rightarrow> execution_context \<Rightarrow> string option" where
  "findModemPath tree context =
     (let i = mq_physicalModemId context in
      find (\<lambda>path. Some (DStr (id_rest i)) \<in> set (id_candidates (id_kind i) (findInterface tree path MODEM_IFACE)))
        (pathsWithInterface tree MODEM_IFACE))"

definition interface_names :: "managed_objects \<Rightarrow> string \<Rightarrow> string list" where
  "interface_names tree path = (case findObject tree path of Some obj \<Rightarrow> map fst (snd obj) | None \<Rightarrow> [])"

definition mm_capabilities_of ::
  "decoded_props \<Rightarrow> decoded_props option \<Rightarrow> string list \<Rightarrow> band_write_certification \<Rightarrow> mm_capabilities" where
  "mm_capabilities_of modem signal names certification =
     \<lparr>mk_modeRead = hasProperty modem ''CurrentModes'',
      mk_modeWrite = hasProperty modem ''CurrentModes'',
      mk_bandRead = hasProperty modem ''SupportedBands'',
      mk_bandWrite = (hasProperty modem ''SupportedBands'' \<and> bc_satisfied certification \<and> bc_offerable certification \<noteq> []),
      mk_signalRead = (hasProperty modem ''SignalQuality'' \<or> signal \<noteq> None),
      mk_simRead = (hasProperty modem ''Sim'' \<or> hasProperty modem ''SimSlots''),
      mk_multiSim = (case propValue (Some modem) ''SimSlots'' of
         Some (DArr slots) \<Rightarrow> length (filter (\<lambda>e. e \<noteq> DStr ''/'') slots) > 1 | _ \<Rightarrow> False),
      mk_location = (LOCATION_IFACE \<in> set names),
      mk_sms = (MESSAGING_IFACE \<in> set names),
      mk_ussd = (MODEM3GPP_USSD_IFACE \<in> set names),
      mk_powerRead = hasProperty modem ''PowerState''\<rparr>"

definition mm_observed ::
  "(rat \<Rightarrow> string) \<Rightarrow> managed_objects \<Rightarrow> string \<Rightarrow> decoded_props \<Rightarrow> execution_context \<Rightarrow> int \<Rightarrow> int \<Rightarrow>
     modem_observation observation_envelope" where
  "mm_observed num_text tree modemPath modem context observedAt epoch =
     normalizeModemManagerObservation num_text
       \<lparr>mi_modem = propsRecord (Some modem),
        mi_modem3gpp = propsRecord (findInterface tree modemPath MODEM3GPP_IFACE),
        mi_sim = propsRecord (active_sim tree modem),
        mi_signal = propsRecord (findInterface tree modemPath SIGNAL_IFACE),
        mi_location = None\<rparr>
       \<lparr>nc_stableKey = stableKeyFromPhysicalModemId (mq_physicalModemId context), nc_generation = mq_generation context,
        nc_sourceEpoch = epoch, nc_observedAt = observedAt, nc_authority = None\<rparr>"

definition provider_snapshot_of ::
  "(rat \<Rightarrow> string) \<Rightarrow> managed_objects \<Rightarrow> string \<Rightarrow> decoded_props \<Rightarrow> execution_context \<Rightarrow> int \<Rightarrow> int \<Rightarrow> band_entry option \<Rightarrow>
     mm_provider_snapshot" where
  "provider_snapshot_of num_text tree modemPath modem context observedAt epoch entry =
     (let signal = findInterface tree modemPath SIGNAL_IFACE;
          certification = describeBandWriteCertification entry (decodeBandList (propValue (Some modem) ''SupportedBands''))
      in \<lparr>mp_modemPath = modemPath,
          mp_capabilities = mm_capabilities_of modem signal (interface_names tree modemPath) certification,
          mp_bandCertification = certification,
          mp_radio = \<lparr>mr_current = value_tuple (propValue (Some modem) ''CurrentModes''),
                      mr_supported = modePairs (propValue (Some modem) ''SupportedModes''),
                      mr_truth = readRadioModeTruth (structValue (propValue (Some modem) ''CurrentModes''))
                                   (structValue (propValue (Some modem) ''SupportedModes''))\<rparr>,
          mp_signal = signalState modem signal,
          mp_sim = simState tree modem,
          mp_power = radioPower (propValue (Some modem) ''PowerState''),
          mp_observation = mm_observed num_text tree modemPath modem context observedAt epoch\<rparr>)"

text \<open>The two clocks are branded before anything is built of them, and may be refused.\<close>

definition buildModemManagerSnapshot ::
  "(rat \<Rightarrow> string) \<Rightarrow> managed_objects \<Rightarrow> execution_context \<Rightarrow> int \<Rightarrow> int \<Rightarrow> band_entry option \<Rightarrow>
     domain_error + mm_provider_snapshot option" where
  "buildModemManagerSnapshot num_text tree context now epoch entry =
     (case findModemPath tree context of
        None \<Rightarrow> Inr None
      | Some modemPath \<Rightarrow>
          (case findInterface tree modemPath MODEM_IFACE of
             None \<Rightarrow> Inr None
           | Some modem \<Rightarrow>
               sum_bind (sourceEpoch epoch) (\<lambda>epoch'.
               sum_bind (epochMillis now) (\<lambda>observedAt.
                 Inr (Some (provider_snapshot_of num_text tree modemPath modem context observedAt epoch' entry))))))"

end
