(* ===== verification/Mm_Operations.thy ===== *)
theory Mm_Operations
  imports Mm_Snapshot
begin

text \<open>
  The ModemManager provider (\<open>providers/modem-manager/provider.ts\<close>) and its generic operations
  (\<open>generic-operations.ts\<close>): a snapshot is read from the bus, an operation reads one, refuses what the
  modem does not offer, commands the backend and reads the modem back. The path of an object of the tree is never
  empty, so the brand \<open>runtimePath\<close> puts on it again does not refuse it. The start of the backend is a
  parameter whose first outcome is kept, as the code keeps its promise.
\<close>

section \<open>The provider\<close>

record 'd provider =
  pv_ctx :: "'d mm_context"
  pv_start :: "'d \<Rightarrow> (call_error + unit) \<times> 'd"
  pv_now :: "'d \<Rightarrow> int"
  pv_bandCatalog :: "band_entry list"
  pv_bandSku :: "execution_context \<Rightarrow> band_sku option"
  pv_num_text :: "rat \<Rightarrow> string"

record 'd provider_world =
  pw_bus :: "'d mm_world"
  pw_started :: "(call_error + unit) option"
  pw_keys :: "(string \<times> string) list"

definition SOURCE_EPOCH :: int where "SOURCE_EPOCH = 1"
definition PROVIDER_ID :: string where "PROVIDER_ID = ''modemmanager''"
definition GENERIC_PROFILE :: string where "GENERIC_PROFILE = ''generic-mm''"

definition provider_start :: "'d provider \<Rightarrow> 'd provider_world \<Rightarrow> (call_error + unit) \<times> 'd provider_world" where
  "provider_start p w =
     (case pw_started w of
        Some r \<Rightarrow> (r, w)
      | None \<Rightarrow> (case pv_start p (mw_device (pw_bus w)) of
          (r, d) \<Rightarrow> (r, w\<lparr>pw_bus := (pw_bus w)\<lparr>mw_device := d\<rparr>, pw_started := Some r\<rparr>)))"

text \<open>\<open>fetchManagedObjects\<close> with the error it throws.\<close>

definition read_tree :: "'d mm_context \<Rightarrow> 'd mm_world \<Rightarrow> (call_error + managed_objects) \<times> 'd mm_world" where
  "read_tree ctx w =
     (case mx_tree ctx (mw_device w) of (r, d) \<Rightarrow> (r, w\<lparr>mw_device := d, mw_calls := mw_calls w @ [tree_call ctx]\<rparr>))"

fun domain_call_error :: "domain_error \<Rightarrow> call_error" where
  "domain_call_error (PlainDomainError m) = \<lparr>ce_dbusName = None, ce_name = Some ''DomainError'', ce_message = m\<rparr>"
| "domain_call_error (ImpossibleStateError c m) =
     \<lparr>ce_dbusName = None, ce_name = Some ''ImpossibleStateError'', ce_message = m\<rparr>"
| "domain_call_error (PolicyBindingRefusedError m) =
     \<lparr>ce_dbusName = None, ce_name = Some ''PolicyBindingRefusedError'', ce_message = m\<rparr>"
| "domain_call_error (RevisionMonotonicityError a b) =
     \<lparr>ce_dbusName = None, ce_name = Some ''RevisionMonotonicityError'', ce_message = []\<rparr>"

definition bandCertification :: "'d provider \<Rightarrow> execution_context \<Rightarrow> band_entry option" where
  "bandCertification p context =
     (case pv_bandSku p context of None \<Rightarrow> None | Some sku \<Rightarrow> findBandCertification (pv_bandCatalog p) sku)"

text \<open>What a tree answers for an identity, at the time of the clock.\<close>

definition snapshot_of_tree ::
  "'d provider \<Rightarrow> execution_context \<Rightarrow> int \<Rightarrow> managed_objects \<Rightarrow> mm_refusal + mm_provider_snapshot" where
  "snapshot_of_tree p context now tree =
     (case buildModemManagerSnapshot (pv_num_text p) tree context now SOURCE_EPOCH (bandCertification p context) of
        Inl e \<Rightarrow> Inl (fst (mapModemManagerError (domain_call_error e)))
      | Inr None \<Rightarrow> Inl RefNotFound
      | Inr (Some s) \<Rightarrow> Inr s)"

definition remember_key :: "execution_context \<Rightarrow> mm_refusal + mm_provider_snapshot \<Rightarrow> 'd provider_world \<Rightarrow> 'd provider_world" where
  "remember_key context r w =
     (case r of Inl _ \<Rightarrow> w
      | Inr s \<Rightarrow> w\<lparr>pw_keys := AList.update (mp_modemPath s) (''modem:'' @ mq_physicalModemId context) (pw_keys w)\<rparr>)"

definition readSnapshot ::
  "'d provider \<Rightarrow> execution_context \<Rightarrow> 'd provider_world \<Rightarrow> (mm_refusal + mm_provider_snapshot) \<times> 'd provider_world" where
  "readSnapshot p context w =
     (case provider_start p w of
        (Inl e, w1) \<Rightarrow> (Inl (fst (mapModemManagerError e)), w1)
      | (Inr _, w1) \<Rightarrow>
          (case read_tree (pv_ctx p) (pw_bus w1) of
             (Inl e, b) \<Rightarrow> (Inl (fst (mapModemManagerError e)), w1\<lparr>pw_bus := b\<rparr>)
           | (Inr tree, b) \<Rightarrow>
               (let r = snapshot_of_tree p context (pv_now p (mw_device b)) tree
                in (r, remember_key context r (w1\<lparr>pw_bus := b\<rparr>)))))"

text \<open>The probe of a match request and the reader of capabilities: an absent modem speaks against the
  provider, a bus that did not answer says nothing.\<close>

definition snapshot_signal :: "mm_refusal + 'a \<Rightarrow> match_signal" where
  "snapshot_signal r = (case r of Inr _ \<Rightarrow> SigMatch | Inl reason \<Rightarrow> if reason = RefNotFound then SigMismatch else SigUnknown)"

definition snapshot_detail :: "string \<Rightarrow> mm_refusal + 'a \<Rightarrow> string" where
  "snapshot_detail detail r = (case r of Inr _ \<Rightarrow> detail | Inl reason \<Rightarrow> mm_refusal_text reason)"

definition mm_probe :: "'d provider \<Rightarrow> match_request \<Rightarrow> ('d provider_world, fingerprint_result) io" where
  "mm_probe p request w =
     (case readSnapshot p (match_request.extend request \<lparr>ec_profile = GENERIC_PROFILE\<rparr>) w of (r, w1) \<Rightarrow>
        (Inr \<lparr>fp_signal = snapshot_signal r, fp_strength = StrengthStrong, fp_profiles = [GENERIC_PROFILE],
              fp_detail = snapshot_detail ''runtime-modem-interface-present'' r\<rparr>, w1))"

definition mm_capability ::
  "'d provider \<Rightarrow> match_request \<Rightarrow> string \<Rightarrow> ('d provider_world, match_signal \<times> evidence_strength \<times> string) io" where
  "mm_capability p request profile w =
     (case readSnapshot p (match_request.extend request \<lparr>ec_profile = profile\<rparr>) w of (r, w1) \<Rightarrow>
        (Inr (snapshot_signal r, StrengthStrong, snapshot_detail ''generic-controls-derived-from-runtime-properties'' r), w1))"

definition mm_provider_definition :: "'d provider \<Rightarrow> 'o \<Rightarrow> ('d provider_world, 'o) provider_definition" where
  "mm_provider_definition p payload =
     \<lparr>pd_id = PROVIDER_ID, pd_profileVersion = ''1'', pd_eligibleTransports = [TransModemManager], pd_passiveMatchers = [],
      pd_probes = [\<lparr>up_id = ''object-manager-modem'', up_run = mm_probe p\<rparr>],
      pd_authenticatedProfile = None,
      pd_capabilityReaders = [\<lparr>cr_id = ''runtime-modem-interface'', cr_read = mm_capability p\<rparr>],
      pd_operations = (\<lambda>_. \<lparr>os_access = ReadWrite, os_payload = payload\<rparr>)\<rparr>"

text \<open>\<open>#observeNormalized\<close>: the reading, or an unavailable one; its clock may be refused.\<close>

definition observeNormalized ::
  "'d provider \<Rightarrow> execution_context \<Rightarrow> 'd provider_world \<Rightarrow>
     (domain_error + modem_observation observation_envelope) \<times> 'd provider_world" where
  "observeNormalized p context w =
     (case readSnapshot p context w of
        (Inr s, w1) \<Rightarrow> (Inr (mp_observation s), w1)
      | (Inl reason, w1) \<Rightarrow>
          (sum_bind (epochMillis (pv_now p (mw_device (pw_bus w1)))) (\<lambda>observedAt. Inr
             (unavailableObservation ModemManagerSource
                \<lparr>nc_stableKey = stableKeyFromPhysicalModemId (mq_physicalModemId context), nc_generation = mq_generation context,
                 nc_sourceEpoch = SOURCE_EPOCH, nc_observedAt = observedAt, nc_authority = None\<rparr>
                (if reason = RefNotFound then DeviceAbsent else ProviderUnavailable))), w1))"

section \<open>Operations\<close>

definition op_applied :: "execution_context \<Rightarrow> 'o \<Rightarrow> 'o operation_result" where
  "op_applied context value =
     classifyOperationCompletion KindRead (mq_generation context) (mq_generation context) (CompletionApplied value)"

definition op_refused :: "execution_context \<Rightarrow> string \<Rightarrow> 'o operation_result" where
  "op_refused context reason =
     classifyOperationCompletion KindRead (mq_generation context) (mq_generation context) (CompletionRefused reason)"

definition receiptReason :: "string \<Rightarrow> string" where
  "receiptReason reason =
     (case fst (mapModemManagerError \<lparr>ce_dbusName = None, ce_name = Some ''Error'', ce_message = reason\<rparr>) of
        RefFailed \<Rightarrow> reason | r \<Rightarrow> mm_refusal_text r)"

definition snapshot_io ::
  "'d provider \<Rightarrow> execution_context \<Rightarrow> ('d provider_world, mm_refusal + mm_provider_snapshot) io" where
  "snapshot_io p context w = (case readSnapshot p context w of (r, w1) \<Rightarrow> (Inr r, w1))"

definition on_backend :: "('d mm_world, 'a) io \<Rightarrow> ('d provider_world, 'a) io" where
  "on_backend m w = (case m (pw_bus w) of (r, b) \<Rightarrow> (r, w\<lparr>pw_bus := b\<rparr>))"

text \<open>The first lines of every operation: read the snapshot, or refuse with its reason.\<close>

definition with_snapshot ::
  "'d provider \<Rightarrow> execution_context \<Rightarrow> (mm_provider_snapshot \<Rightarrow> ('d provider_world, 'o operation_result) io) \<Rightarrow>
     ('d provider_world, 'o operation_result) io" where
  "with_snapshot p context f =
     io_bind (snapshot_io p context) (\<lambda>r. case r of
       Inl reason \<Rightarrow> io_return (op_refused context (mm_refusal_text reason))
     | Inr s \<Rightarrow> f s)"

definition readField ::
  "'d provider \<Rightarrow> execution_context \<Rightarrow> (mm_capabilities \<Rightarrow> bool) \<Rightarrow> (mm_provider_snapshot \<Rightarrow> 'o) \<Rightarrow> string \<Rightarrow>
     ('d provider_world, 'o operation_result) io" where
  "readField p context capability select reason =
     with_snapshot p context (\<lambda>s. io_return
       (if capability (mp_capabilities s) then op_applied context (select s) else op_refused context reason))"

definition bands_read :: "'d provider \<Rightarrow> execution_context \<Rightarrow> ('d provider_world, modem_bands operation_result) io" where
  "bands_read p context =
     with_snapshot p context (\<lambda>s.
       if \<not> mk_bandRead (mp_capabilities s) then io_return (op_refused context ''band-read-unsupported'')
       else io_bind (on_backend (readBands (pv_ctx p) (mp_modemPath s))) (\<lambda>r. io_return (case r of
              Inr bands \<Rightarrow> op_applied context bands | Inl reason \<Rightarrow> op_refused context (receiptReason reason))))"

definition radio_read :: "'d provider \<Rightarrow> execution_context \<Rightarrow> ('d provider_world, mm_radio_state operation_result) io" where
  "radio_read p context = readField p context mk_modeRead mp_radio ''mode-read-unsupported''"

definition modes_read :: "'d provider \<Rightarrow> execution_context \<Rightarrow> ('d provider_world, radio_mode_truth operation_result) io" where
  "modes_read p context = readField p context mk_modeRead (\<lambda>s. mr_truth (mp_radio s)) ''mode-read-unsupported''"

definition signal_read :: "'d provider \<Rightarrow> execution_context \<Rightarrow> ('d provider_world, mm_signal_state operation_result) io" where
  "signal_read p context = readField p context mk_signalRead mp_signal ''signal-read-unsupported''"

definition sim_read :: "'d provider \<Rightarrow> execution_context \<Rightarrow> ('d provider_world, mm_sim_state operation_result) io" where
  "sim_read p context = readField p context mk_simRead mp_sim ''sim-read-unsupported''"

definition power_read :: "'d provider \<Rightarrow> execution_context \<Rightarrow> ('d provider_world, radio_power operation_result) io" where
  "power_read p context = readField p context mk_powerRead mp_power ''power-read-unsupported''"

definition radio_write ::
  "'d provider \<Rightarrow> execution_context \<Rightarrow> desired_radio \<Rightarrow> ('d provider_world, mm_radio_state operation_result) io" where
  "radio_write p context input =
     with_snapshot p context (\<lambda>s.
       if \<not> mk_modeWrite (mp_capabilities s) then io_return (op_refused context ''mode-write-unsupported'')
       else io_bind (on_backend (setRadioModes (pv_ctx p) (mp_modemPath s) input)) (\<lambda>rc.
              if rc_status rc \<noteq> ReceiptApplied then io_return (op_refused context (receiptReason (rc_reason rc)))
              else radio_read p context))"

text \<open>\<open>value.current.state === 'reported' && sameSelection(...)\<close>\<close>

definition modes_confirmed :: "mode_selection \<Rightarrow> radio_mode_truth \<Rightarrow> bool" where
  "modes_confirmed selection truth =
     (case rt_current truth of ModesReported c \<Rightarrow> sameSelection (selectionOf c) selection | ModesNotReported \<Rightarrow> False)"

text \<open>The last lines of a write: a readback that was applied must confirm what was asked.\<close>

definition confirm_readback ::
  "execution_context \<Rightarrow> ('o \<Rightarrow> bool) \<Rightarrow> string \<Rightarrow> 'o operation_result \<Rightarrow> 'o operation_result" where
  "confirm_readback context confirmed reason readback =
     (case readback of
        ResultApplied value _ \<Rightarrow> if confirmed value then readback else op_refused context reason
      | _ \<Rightarrow> readback)"

definition modes_write ::
  "'d provider \<Rightarrow> execution_context \<Rightarrow> mode_selection \<Rightarrow> ('d provider_world, radio_mode_truth operation_result) io" where
  "modes_write p context selection =
     with_snapshot p context (\<lambda>s.
       if \<not> mk_modeWrite (mp_capabilities s) then io_return (op_refused context ''mode-write-unsupported'')
       else case matchAdvertisedCombination (rt_supported (mr_truth (mp_radio s))) selection of
         None \<Rightarrow> io_return (op_refused context ''mode-combination-not-advertised'')
       | Some _ \<Rightarrow> (case encodeModeSelection selection of
           Inl _ \<Rightarrow> io_return (op_refused context ''mode-name-unknown'')
         | Inr (allowedMask, preferredMask) \<Rightarrow>
             io_bind (on_backend (setModeCombination (pv_ctx p) (mp_modemPath s) allowedMask preferredMask)) (\<lambda>rc.
               if rc_status rc \<noteq> ReceiptApplied then io_return (op_refused context (receiptReason (rc_reason rc)))
               else io_bind (modes_read p context) (\<lambda>readback. io_return
                 (confirm_readback context (modes_confirmed selection) ''mode-write-readback-mismatch'' readback)))))"

definition bands_write ::
  "'d provider \<Rightarrow> execution_context \<Rightarrow> string list \<Rightarrow> ('d provider_world, modem_bands operation_result) io" where
  "bands_write p context input =
     with_snapshot p context (\<lambda>s.
       if \<not> bc_satisfied (mp_bandCertification s) \<or> \<not> mk_bandWrite (mp_capabilities s)
       then io_return (op_refused context ''band-write-certification-required'')
       else io_bind (on_backend (setCurrentBands (pv_ctx p) (mp_modemPath s) input)) (\<lambda>rc.
              if rc_status rc \<noteq> ReceiptApplied then io_return (op_refused context (receiptReason (rc_reason rc)))
              else io_bind (bands_read p context) (\<lambda>readback. io_return
                (confirm_readback context (bandWriteReadbackMatches input) ''band-write-readback-mismatch'' readback))))"

text \<open>The live descriptors.\<close>

definition NO_MODES :: radio_mode_truth where
  "NO_MODES = \<lparr>rt_current = ModesNotReported, rt_supported = \<lparr>ms_combinations = [], ms_undecodable = []\<rparr>\<rparr>"

definition modes_describe ::
  "'d provider \<Rightarrow> execution_context \<Rightarrow> 'd provider_world \<Rightarrow>
     (descriptor_error + (mode_selection, radio_mode_truth) operation_descriptor) \<times> 'd provider_world" where
  "modes_describe p context w =
     (case readSnapshot p context w of (r, w1) \<Rightarrow>
        (buildModeWriteDescriptor PROVIDER_ID GENERIC_PROFILE
           (case r of Inr s \<Rightarrow> mr_truth (mp_radio s) | Inl _ \<Rightarrow> NO_MODES)
           (case r of Inr s \<Rightarrow> mk_modeWrite (mp_capabilities s) | Inl _ \<Rightarrow> False), w1))"

definition bandDescriptorFor ::
  "mm_refusal + mm_provider_snapshot \<Rightarrow> descriptor_error + (string list, modem_bands) operation_descriptor" where
  "bandDescriptorFor r =
     buildBandWriteDescriptor PROVIDER_ID GENERIC_PROFILE
       (case r of Inr s \<Rightarrow> mp_bandCertification s
        | Inl _ \<Rightarrow> \<lparr>bc_satisfied = False, bc_reason = ''band-certification-required'', bc_offerable = []\<rparr>)
       (case r of Inr s \<Rightarrow> mk_bandRead (mp_capabilities s) | Inl _ \<Rightarrow> False)"

definition bands_describe ::
  "'d provider \<Rightarrow> execution_context \<Rightarrow> 'd provider_world \<Rightarrow>
     (descriptor_error + (string list, modem_bands) operation_descriptor) \<times> 'd provider_world" where
  "bands_describe p context w = (case readSnapshot p context w of (r, w1) \<Rightarrow> (bandDescriptorFor r, w1))"

text \<open>The descriptors of the generic reads and writes.\<close>

definition readDescriptor :: "string \<Rightarrow> descriptor_error + (unit, 'o) operation_descriptor" where
  "readDescriptor i = defineOperationDescriptor
     \<lparr>d_id = i, d_supportRead = Supported, d_supportWrite = NotSupported ''read-only'', d_authority = AuthProvider,
      d_provider = PROVIDER_ID, d_constraints = Unconstrained,
      d_livePreconditions = [''modem-present'', ''runtime-interface-present''], d_availability = Available,
      d_mutationImpact = ImpactRead, d_retryClass = RetryIdempotentRead, d_readback = NoReadback,
      d_rollback = NotRequired, d_journal = NotRequired, d_admission = NotRequired,
      d_profiles = [GENERIC_PROFILE], d_firmware = [], d_confidence = OpConfHigh\<rparr>"

definition writeDescriptor :: "string \<Rightarrow> descriptor_error + ('i, 'o) operation_descriptor" where
  "writeDescriptor i = defineOperationDescriptor
     \<lparr>d_id = i, d_supportRead = Supported, d_supportWrite = Supported, d_authority = AuthProvider,
      d_provider = PROVIDER_ID, d_constraints = Unconstrained,
      d_livePreconditions = [''modem-present'', ''runtime-interface-present''], d_availability = Available,
      d_mutationImpact = ImpactDisruptive, d_retryClass = RetryNever, d_readback = NoReadback,
      d_rollback = NotRequired, d_journal = Required ''disruptive-radio-write'',
      d_admission = Required ''provider-mutation'',
      d_profiles = [GENERIC_PROFILE], d_firmware = [], d_confidence = OpConfHigh\<rparr>"

section \<open>Calls\<close>

abbreviation pw_calls :: "'d provider_world \<Rightarrow> method_call list" where
  "pw_calls w \<equiv> mw_calls (pw_bus w)"

definition mode_call :: "'d mm_context \<Rightarrow> string \<Rightarrow> int \<Rightarrow> int \<Rightarrow> method_call" where
  "mode_call ctx modem allowed preferred =
     mm_method ctx modem MODEM_IFACE ''SetCurrentModes'' (Some ''(uu)'') [DArr [DNum allowed, DNum preferred]] None"

definition band_call :: "'d mm_context \<Rightarrow> string \<Rightarrow> int list \<Rightarrow> method_call" where
  "band_call ctx modem values = mm_method ctx modem MODEM_IFACE ''SetCurrentBands'' (Some ''au'') [DArr (map DNum values)] None"

text \<open>A command under the quiesce hook: it is called unless the hook failed before, and a receipt means it was.\<close>

lemma quiesced_receipt:
  assumes "runQuiesced ctx key (receipt_call ctx c dimension success failing) w = (r, w2)"
  shows "(mw_calls w2 = mw_calls w \<and> isl r) \<or> mw_calls w2 = mw_calls w @ [c]"
  using assms
  by (auto simp: runQuiesced_def quiesced_task_def receipt_call_def io_bind_def io_catch_def io_finally_def on_device_def
      callMethod_def io_return_def split: prod.splits sum.splits)

lemma setModeCombination_calls:
  assumes "setModeCombination ctx modem a b w = (r, w2)"
  shows "(mw_calls w2 = mw_calls w \<and> (case r of Inr rc \<Rightarrow> rc_status rc \<noteq> ReceiptApplied | Inl _ \<Rightarrow> True)) \<or>
     mw_calls w2 = mw_calls w @ [mode_call ctx modem a b]"
proof (cases "a = 0")
  case True
  with assms show ?thesis by (auto simp: setModeCombination_def no_modes_def receipt_of_def io_return_def)
next
  case False
  with assms quiesced_receipt show ?thesis
    by (fastforce simp: setModeCombination_def setModeMasks_def mode_call_def split: sum.splits)
qed

lemma setCurrentBands_calls:
  assumes "setCurrentBands ctx modem bands w = (r, w2)"
  shows "(mw_calls w2 = mw_calls w \<and> (case r of Inr rc \<Rightarrow> rc_status rc \<noteq> ReceiptApplied | Inl _ \<Rightarrow> True)) \<or>
     (\<exists>values. encodeBandList bands = Inr values \<and> bands \<noteq> [] \<and> mw_calls w2 = mw_calls w @ [band_call ctx modem values])"
proof (cases "bands = [] \<or> isl (encodeBandList bands)")
  case True
  with assms show ?thesis
    by (auto simp: setCurrentBands_def receipt_of_def io_return_def isl_def split: if_splits sum.splits)
next
  case False
  then obtain vs where v: "encodeBandList bands = Inr vs" "bands \<noteq> []" by (cases "encodeBandList bands") auto
  note q = quiesced_receipt [where c = "band_call ctx modem vs" and r = r and ctx = ctx and w = w and ?w2.0 = w2]
  show ?thesis using assms v q by (fastforce simp: setCurrentBands_def band_call_def split: sum.splits)
qed

lemma readBands_calls: "mw_calls (snd (readBands ctx modem w)) = mw_calls w @ [tree_call ctx]"
  by (auto simp: readBands_def io_catch_def io_bind_def io_return_def fetchManagedObjects_def split: prod.splits sum.splits option.splits)

text \<open>Reading a snapshot: one read of the tree at most, and exactly one when it succeeds.\<close>

lemma readSnapshot_calls:
  assumes "readSnapshot p context w = (r, w1)"
  shows "pw_calls w1 = pw_calls w @ [tree_call (pv_ctx p)] \<or> (pw_calls w1 = pw_calls w \<and> isl r)"
  using assms
  by (auto simp: readSnapshot_def provider_start_def read_tree_def remember_key_def Let_def
      split: prod.splits sum.splits option.splits)

lemma readSnapshot_certified:
  assumes "readSnapshot p context w = (Inr s, w1)"
  shows "bc_satisfied (mp_bandCertification s) \<longleftrightarrow> isBandControlCertified (pv_bandCatalog p) (pv_bandSku p context)"
proof -
  obtain now tree where "snapshot_of_tree p context now tree = Inr s"
    using assms by (auto simp: readSnapshot_def Let_def split: prod.splits sum.splits)
  then show ?thesis
    by (auto simp: snapshot_of_tree_def buildModemManagerSnapshot_def provider_snapshot_of_def Let_def sum_bind_Inr
        describeBandWriteCertification_def isBandControlCertified_def bandCertification_def
        split: sum.splits option.splits)
qed

text \<open>A selection that names an advertised combination, in any order, encodes to its masks or not at all.\<close>

lemma js_or_commute: "js_or (js_or m a) b = js_or (js_or m b) a"
  by (simp add: js_or_def ac_simps)

lemma encode_loop_Inr:
  "encode_loop m names = Inr v \<longleftrightarrow>
     list_all (\<lambda>n. modeValue n \<noteq> None) names \<and> v = fold (\<lambda>n m. js_or m (the (modeValue n))) names m"
  by (induction m names rule: encode_loop.induct) (auto split: option.splits)

lemma encodeModeNames_perm:
  assumes "mset names = mset names'" and "encodeModeNames names = Inr v"
  shows "encodeModeNames names' = Inr v"
proof -
  have "set names = set names'" using assms(1) by (metis set_mset_mset)
  moreover have "fold (\<lambda>n m. js_or m (the (modeValue n))) names = fold (\<lambda>n m. js_or m (the (modeValue n))) names'"
    using assms(1) by (intro fold_multiset_equiv) (auto simp: fun_eq_iff js_or_commute)
  ultimately show ?thesis using assms(2)
    by (auto simp: encodeModeNames_def sum_bind_Inr encode_loop_Inr list_all_iff)
qed

lemma sameNameSet_mset: "sameNameSet left right \<Longrightarrow> mset left = mset right"
  by (auto simp: sameNameSet_def dest: arg_cong [where f = mset])

lemma decodePair_positive: "decodePair m = Some (a, b) \<Longrightarrow> 0 \<le> a \<and> 0 \<le> b"
  by (cases m rule: decodePair.cases) (auto split: if_splits)

lemma decode_members_decoded:
  "c \<in> set (ms_combinations (decode_members members)) \<Longrightarrow> \<exists>a b. 0 \<le> a \<and> 0 \<le> b \<and> c = modeCombination a b"
proof (induction members)
  case (Cons m members)
  show ?case
  proof (cases "decodePair m")
    case None
    with Cons show ?thesis by (simp add: Let_def)
  next
    case (Some ab)
    then obtain a b where "decodePair m = Some (a, b)" by (cases ab) auto
    with Cons decodePair_positive [OF this] show ?thesis by (auto simp: Let_def)
  qed
qed simp

lemma advertised_masks:
  assumes "matchAdvertisedCombination (rt_supported (readRadioModeTruth current supported)) selection = Some c"
    and "encodeModeSelection selection = Inr (a, b)" and "mc_allowedMask c < 2 ^ 32" and "mc_preferredMask c < 2 ^ 32"
  shows "a = mc_allowedMask c \<and> b = mc_preferredMask c"
proof -
  have c: "c \<in> set (ms_combinations (decodeSupportedModeCombinations supported))" "sameSelection (selectionOf c) selection"
    using assms(1) by (auto simp: matchAdvertisedCombination_def readRadioModeTruth_def find_Some_iff)
  have "\<exists>x y. 0 \<le> x \<and> 0 \<le> y \<and> c = modeCombination x y"
    using c(1) by (auto simp: decodeSupportedModeCombinations_def split: option.splits dbus_value.splits dest!: decode_members_decoded)
  then obtain x y where xy: "0 \<le> x" "0 \<le> y" "c = modeCombination x y" by blast
  have m: "mc_allowedMask c = x" "mc_preferredMask c = y" by (simp_all add: xy modeCombination_def Let_def)
  have q: "mset (sel_allowed selection) = mset (sel_allowed (selectionOf c))" "sel_preferred selection = sel_preferred (selectionOf c)"
    using c(2) sameNameSet_mset [of "sel_allowed (selectionOf c)"] by (auto simp: sameSelection_def)
  obtain e1: "encodeModeNames (sel_allowed selection) = Inr a"
      and e2: "encodeModeNames (if sel_preferred selection = MODE_NONE then [] else [sel_preferred selection]) = Inr b"
    using assms(2) by (auto simp only: encodeModeSelection_def sum_bind_Inr)
  have "encodeModeSelection (selectionOf c) = Inr (a, b)"
    using encodeModeNames_perm [OF q(1) e1] e2 unfolding encodeModeSelection_def q(2) by simp
  then show ?thesis
    using combination_commands_back [of x y] xy m assms(3,4) by (simp split: if_splits)
qed

lemma snapshot_truth:
  assumes "readSnapshot p context w = (Inr s, w1)"
  shows "\<exists>current supported. mr_truth (mp_radio s) = readRadioModeTruth current supported"
proof -
  obtain now tree where "snapshot_of_tree p context now tree = Inr s"
    using assms by (auto simp: readSnapshot_def Let_def split: prod.splits sum.splits)
  then obtain path modem observedAt where "s = provider_snapshot_of (pv_num_text p) tree path modem context observedAt SOURCE_EPOCH
      (bandCertification p context)"
    by (auto simp: snapshot_of_tree_def buildModemManagerSnapshot_def sum_bind_Inr sourceEpoch_def nonNegativeInteger_def
        split: sum.splits option.splits if_splits)
  then show ?thesis by (auto simp: provider_snapshot_of_def Let_def)
qed

text \<open>The readbacks.\<close>

lemma modes_read_calls:
  assumes "modes_read p context w = (r, w2)"
  shows "(\<exists>rest. pw_calls w2 = pw_calls w @ rest \<and> list_all (\<lambda>c. c = tree_call (pv_ctx p)) rest) \<and>
    (case r of Inr (ResultApplied truth g) \<Rightarrow> pw_calls w2 = pw_calls w @ [tree_call (pv_ctx p)] \<and>
         (\<exists>s. readSnapshot p context w = (Inr s, w2) \<and> truth = mr_truth (mp_radio s)) \<and> g = mq_generation context
     | _ \<Rightarrow> True)"
proof -
  obtain rs w1 where s: "readSnapshot p context w = (rs, w1)" by force
  show ?thesis using assms s readSnapshot_calls [OF s]
    by (auto simp: modes_read_def readField_def with_snapshot_def snapshot_io_def io_bind_def io_return_def op_refused_def op_applied_def
        classifyOperationCompletion.simps split: sum.splits operation_result.splits if_splits)
qed

lemma bands_read_calls:
  assumes "bands_read p context w = (r, w2)"
  shows "(\<exists>rest. pw_calls w2 = pw_calls w @ rest \<and> list_all (\<lambda>c. c = tree_call (pv_ctx p)) rest) \<and>
    (case r of Inr (ResultApplied observed g) \<Rightarrow> pw_calls w2 = pw_calls w @ [tree_call (pv_ctx p), tree_call (pv_ctx p)] \<and>
         (\<exists>modem b. readBands (pv_ctx p) modem b = (Inr (Inr observed), pw_bus w2)) \<and> g = mq_generation context
     | _ \<Rightarrow> True)"
proof -
  obtain rs w1 where s: "readSnapshot p context w = (rs, w1)" by force
  note unf = bands_read_def with_snapshot_def snapshot_io_def io_bind_def io_return_def op_refused_def op_applied_def
    on_backend_def classifyOperationCompletion.simps
  show ?thesis
  proof (cases rs)
    case (Inl e)
    then show ?thesis using assms s readSnapshot_calls [OF s] by (auto simp: unf)
  next
    case (Inr sn)
    then have l: "pw_calls w1 = pw_calls w @ [tree_call (pv_ctx p)]" using readSnapshot_calls [OF s] by auto
    obtain rb b where b: "readBands (pv_ctx p) (mp_modemPath sn) (pw_bus w1) = (rb, b)" by force
    have lb: "mw_calls b = pw_calls w1 @ [tree_call (pv_ctx p)]"
      using readBands_calls [of "pv_ctx p" "mp_modemPath sn" "pw_bus w1"] b by simp
    show ?thesis
    proof (cases "mk_bandRead (mp_capabilities sn)")
      case True
      with assms s Inr b have e: "r = (case rb of Inl e \<Rightarrow> Inl e | Inr q \<Rightarrow> Inr (case q of
          Inr bands \<Rightarrow> op_applied context bands | Inl reason \<Rightarrow> op_refused context (receiptReason reason)))" "w2 = w1\<lparr>pw_bus := b\<rparr>"
        by (auto simp: unf split: sum.splits)
      show ?thesis using b l lb unfolding e
        by (cases rb; simp add: op_refused_def op_applied_def classifyOperationCompletion.simps split: sum.split) blast
    next
      case False
      with assms s Inr l show ?thesis by (auto simp: unf)
    qed
  qed
qed

section \<open>Properties\<close>

text \<open>C36: a band write is gated and proved. Without a reviewed certification of the SKU that the embedder resolved, or when the snapshot offers no band, nothing is sent and the write is refused; otherwise the first and only command is SetCurrentBands with the numbers of the requested names on the modem of the snapshot, everything else being reads of the tree; and applied is answered only after the command, for bands that a later read reported and that match the request.\<close>

theorem band_write_gated_and_proved:
  "case readSnapshot p context w of
     (Inl reason, w1) \<Rightarrow>
       bands_write p context bands w = (Inr (ResultRefused (mm_refusal_text reason) (mq_generation context)), w1)
   | (Inr s, w1) \<Rightarrow>
       (case bands_write p context bands w of (r, w2) \<Rightarrow>
          (if isBandControlCertified (pv_bandCatalog p) (pv_bandSku p context) \<and> mk_bandWrite (mp_capabilities s)
           then pw_calls w2 = pw_calls w1 \<or>
                (\<exists>vs rest. encodeBandList bands = Inr vs \<and> bands \<noteq> [] \<and>
                   pw_calls w2 = pw_calls w1 @ band_call (pv_ctx p) (mp_modemPath s) vs # rest \<and>
                   list_all (\<lambda>c. c = tree_call (pv_ctx p)) rest)
           else w2 = w1 \<and> r = Inr (ResultRefused ''band-write-certification-required'' (mq_generation context))) \<and>
          (case r of Inr (ResultApplied observed g) \<Rightarrow>
               g = mq_generation context \<and> bandWriteReadbackMatches bands observed \<and>
               (\<exists>vs. pw_calls w2 = pw_calls w1 @
                  [band_call (pv_ctx p) (mp_modemPath s) vs, tree_call (pv_ctx p), tree_call (pv_ctx p)]) \<and>
               (\<exists>modem b. readBands (pv_ctx p) modem b = (Inr (Inr observed), pw_bus w2))
           | _ \<Rightarrow> True))"
proof -
  obtain rs w1 where s: "readSnapshot p context w = (rs, w1)" by force
  note unf = bands_write_def with_snapshot_def snapshot_io_def io_bind_def io_return_def op_refused_def
    classifyOperationCompletion.simps
  show ?thesis
  proof (cases rs)
    case (Inl e)
    then show ?thesis by (simp add: s unf)
  next
    case (Inr sn)
    note cert = readSnapshot_certified [OF s [unfolded Inr]]
    show ?thesis
    proof (cases "bc_satisfied (mp_bandCertification sn) \<and> mk_bandWrite (mp_capabilities sn)")
      case False
      then show ?thesis using cert by (auto simp: s Inr unf)
    next
      case True
      obtain rr b where c: "setCurrentBands (pv_ctx p) (mp_modemPath sn) bands (pw_bus w1) = (rr, b)" by force
      let ?w = "w1\<lparr>pw_bus := b\<rparr>"
      note calls = setCurrentBands_calls [OF c]
      have w: "bands_write p context bands w = (case rr of Inl e \<Rightarrow> (Inl e, ?w)
        | Inr rc \<Rightarrow> (if rc_status rc \<noteq> ReceiptApplied then (Inr (op_refused context (receiptReason (rc_reason rc))), ?w)
            else io_bind (bands_read p context) (\<lambda>readback. io_return
                (confirm_readback context (bandWriteReadbackMatches bands) ''band-write-readback-mismatch'' readback)) ?w))"
        using True by (auto simp: s Inr unf on_backend_def c split: sum.split)
      show ?thesis
      proof (cases "\<exists>rc. rr = Inr rc \<and> rc_status rc = ReceiptApplied")
        case False
        then show ?thesis using w calls True cert
          by (auto simp: s Inr op_refused_def classifyOperationCompletion.simps split: sum.splits)
      next
        case applied: True
        then obtain vs where vs: "encodeBandList bands = Inr vs" "bands \<noteq> []"
            "mw_calls b = pw_calls w1 @ [band_call (pv_ctx p) (mp_modemPath sn) vs]"
          using calls by auto
        obtain r2 w2 where r2: "bands_read p context ?w = (r2, w2)" by force
        note rd = bands_read_calls [OF r2]
        have w': "bands_write p context bands w = (case r2 of Inl e \<Rightarrow> (Inl e, w2) | Inr readback \<Rightarrow>
            (Inr (confirm_readback context (bandWriteReadbackMatches bands) ''band-write-readback-mismatch'' readback), w2))"
          using w applied r2 by (auto simp: io_bind_def io_return_def split: sum.split)
        show ?thesis
          using w' vs rd True cert
          by (auto simp: s Inr confirm_readback_def op_refused_def classifyOperationCompletion.simps
              split: sum.splits operation_result.splits if_splits)
      qed
    qed
  qed
qed

text \<open>C37: a mode write commands an advertised combination verbatim. A selection that no combination of the snapshot's catalog has is refused and nothing is sent; otherwise the first and only command is SetCurrentModes on the modem of the snapshot, with exactly the masks of the combination it names (whatever the order of its names, for 32-bit masks as the wire has them), everything else being reads of the tree; and applied is answered only after the command, with the modes that a later snapshot reported and that are the selection.\<close>

theorem mode_write_commands_advertised:
  "case readSnapshot p context w of
     (Inl reason, w1) \<Rightarrow>
       modes_write p context selection w = (Inr (ResultRefused (mm_refusal_text reason) (mq_generation context)), w1)
   | (Inr s, w1) \<Rightarrow>
       (case modes_write p context selection w of (r, w2) \<Rightarrow>
          (case matchAdvertisedCombination (rt_supported (mr_truth (mp_radio s))) selection of
             None \<Rightarrow> w2 = w1 \<and> (case r of Inr (ResultRefused reason g) \<Rightarrow> True | _ \<Rightarrow> False)
           | Some c \<Rightarrow>
               pw_calls w2 = pw_calls w1 \<or>
               (\<exists>a b rest. encodeModeSelection selection = Inr (a, b) \<and>
                  (if mc_allowedMask c < 2 ^ 32 \<and> mc_preferredMask c < 2 ^ 32
                   then a = mc_allowedMask c \<and> b = mc_preferredMask c else True) \<and>
                  pw_calls w2 = pw_calls w1 @ mode_call (pv_ctx p) (mp_modemPath s) a b # rest \<and>
                  list_all (\<lambda>call. call = tree_call (pv_ctx p)) rest)) \<and>
          (case r of Inr (ResultApplied truth g) \<Rightarrow>
               g = mq_generation context \<and> modes_confirmed selection truth \<and>
               (\<exists>a b w'. pw_calls w' = pw_calls w1 @ [mode_call (pv_ctx p) (mp_modemPath s) a b] \<and>
                  pw_calls w2 = pw_calls w' @ [tree_call (pv_ctx p)] \<and>
                  (\<exists>s'. readSnapshot p context w' = (Inr s', w2) \<and> truth = mr_truth (mp_radio s')))
           | _ \<Rightarrow> True))"
proof -
  obtain rs w1 where s: "readSnapshot p context w = (rs, w1)" by force
  note unf = modes_write_def with_snapshot_def snapshot_io_def io_bind_def io_return_def op_refused_def
    classifyOperationCompletion.simps
  show ?thesis
  proof (cases rs)
    case (Inl e)
    then show ?thesis by (simp add: s unf)
  next
    case (Inr sn)
    obtain current supported where t: "mr_truth (mp_radio sn) = readRadioModeTruth current supported"
      using snapshot_truth [OF s [unfolded Inr]] by blast
    let ?m = "matchAdvertisedCombination (rt_supported (mr_truth (mp_radio sn))) selection"
    show ?thesis
    proof (cases "mk_modeWrite (mp_capabilities sn) \<and> ?m \<noteq> None \<and> \<not> isl (encodeModeSelection selection)")
      case False
      then show ?thesis by (auto simp: s Inr unf isl_def split: option.splits sum.splits)
    next
      case True
      then obtain c a b where m: "?m = Some c" and e: "encodeModeSelection selection = Inr (a, b)"
        by (cases "encodeModeSelection selection") auto
      note masks = advertised_masks [OF m [unfolded t] e]
      obtain rr bw where c: "setModeCombination (pv_ctx p) (mp_modemPath sn) a b (pw_bus w1) = (rr, bw)" by force
      let ?w = "w1\<lparr>pw_bus := bw\<rparr>"
      note calls = setModeCombination_calls [OF c]
      have w: "modes_write p context selection w = (case rr of Inl e \<Rightarrow> (Inl e, ?w)
        | Inr rc \<Rightarrow> (if rc_status rc \<noteq> ReceiptApplied then (Inr (op_refused context (receiptReason (rc_reason rc))), ?w)
            else io_bind (modes_read p context) (\<lambda>readback. io_return
                (confirm_readback context (modes_confirmed selection) ''mode-write-readback-mismatch'' readback)) ?w))"
        using True m e by (auto simp: s Inr unf on_backend_def c split: sum.split)
      show ?thesis
      proof (cases "\<exists>rc. rr = Inr rc \<and> rc_status rc = ReceiptApplied")
        case False
        then show ?thesis using w calls masks
          by (auto simp: s Inr m e op_refused_def classifyOperationCompletion.simps split: sum.splits)
      next
        case applied: True
        then have sent: "mw_calls bw = pw_calls w1 @ [mode_call (pv_ctx p) (mp_modemPath sn) a b]"
          using calls by auto
        obtain r2 w2 where r2: "modes_read p context ?w = (r2, w2)" by force
        note rd = modes_read_calls [OF r2]
        have w': "modes_write p context selection w = (case r2 of Inl e \<Rightarrow> (Inl e, w2) | Inr readback \<Rightarrow>
            (Inr (confirm_readback context (modes_confirmed selection) ''mode-write-readback-mismatch'' readback), w2))"
          using w applied r2 by (auto simp: io_bind_def io_return_def split: sum.split)
        obtain rest where rest: "pw_calls w2 = pw_calls ?w @ rest" "list_all (\<lambda>c. c = tree_call (pv_ctx p)) rest" using rd by blast
        have fst_part: "\<exists>a b rest. encodeModeSelection selection = Inr (a, b) \<and>
                  (if mc_allowedMask c < 2 ^ 32 \<and> mc_preferredMask c < 2 ^ 32
                   then a = mc_allowedMask c \<and> b = mc_preferredMask c else True) \<and>
                  pw_calls w2 = pw_calls w1 @ mode_call (pv_ctx p) (mp_modemPath sn) a b # rest \<and>
                  list_all (\<lambda>call. call = tree_call (pv_ctx p)) rest"
          using rest sent e masks by (intro exI [of _ a] exI [of _ b] exI [of _ rest]) simp
        have last_part: "case r2 of Inr (ResultApplied truth g) \<Rightarrow> g = mq_generation context \<and>
               (\<exists>a b w'. pw_calls w' = pw_calls w1 @ [mode_call (pv_ctx p) (mp_modemPath sn) a b] \<and>
                  pw_calls w2 = pw_calls w' @ [tree_call (pv_ctx p)] \<and>
                  (\<exists>s'. readSnapshot p context w' = (Inr s', w2) \<and> truth = mr_truth (mp_radio s')))
           | _ \<Rightarrow> True"
        proof -
          have sw: "pw_calls ?w = pw_calls w1 @ [mode_call (pv_ctx p) (mp_modemPath sn) a b]" using sent by simp
          show ?thesis
          proof (cases "\<exists>truth g. r2 = Inr (ResultApplied truth g)")
            case True
            then obtain truth g where e2: "r2 = Inr (ResultApplied truth g)" by blast
            have "g = mq_generation context" "pw_calls w2 = pw_calls ?w @ [tree_call (pv_ctx p)]"
                "\<exists>s'. readSnapshot p context ?w = (Inr s', w2) \<and> truth = mr_truth (mp_radio s')"
              using rd e2 by simp_all
            with sw show ?thesis unfolding e2 sum.case operation_result.case by blast
          qed (auto split: sum.splits operation_result.splits)
        qed
        show ?thesis
          using w' fst_part last_part
          by (cases r2; simp add: s Inr m confirm_readback_def op_refused_def classifyOperationCompletion.simps
              split: operation_result.splits)
      qed
    qed
  qed
qed

text \<open>A write whose reply was lost is reported as refused, never as unknown: every completion is classified as
  applied or refused.\<close>

lemma band_write_never_unknown:
  "fst (bands_write p context bands w) \<noteq> Inr (ResultUnknown reason g)"
  by (auto simp: bands_write_def bands_read_def with_snapshot_def snapshot_io_def io_bind_def io_return_def op_refused_def op_applied_def
      on_backend_def confirm_readback_def classifyOperationCompletion.simps
      split: prod.splits sum.splits if_splits operation_result.splits)

end
