(* ===== verification/Mm_Backend.thy ===== *)
theory Mm_Backend
  imports Identity_Ladder Mm_Operations
begin

text \<open>
  The ModemManager backend as one object (\<open>backend/mm-backend.ts\<close>): the commands of \<open>Mm_Mutations\<close> keyed by the
  identities of the last refresh, the signal cadence of \<open>Signal_Setup\<close>, and the enrichment it reads on demand. And
  what its keys mean beside those of the provider, which shares its actor.
\<close>

section \<open>The backend\<close>

record mm_backend =
  bk_stableKeyByPath :: "(string \<times> string) list"
  bk_signalSetup :: signal_setup

definition refreshStableKeys :: "managed_objects \<Rightarrow> domain_error + (string \<times> string) list" where
  "refreshStableKeys tree =
     (let paths = pathsWithInterface tree MODEM_IFACE in
      sum_bind (resolveModemIdentities (map (modemIdentityFactsFromTree tree) paths)) (\<lambda>resolved.
        Inr (fold (\<lambda>(path, r) m. AList.update path (Identity_Ladder.ri_stableKey r) m) (zip paths resolved) [])))"

definition onEpochRefresh :: "string \<Rightarrow> managed_objects \<Rightarrow> mm_backend \<Rightarrow> domain_error + mm_backend" where
  "onEpochRefresh epoch tree s =
     sum_bind (refreshStableKeys tree) (\<lambda>ks.
       Inr (s\<lparr>bk_stableKeyByPath := ks, bk_signalSetup := applyForEpoch epoch tree (bk_signalSetup s)\<rparr>))"

definition key_of :: "(string \<times> string) list \<Rightarrow> string \<Rightarrow> string" where
  "key_of ks modem = (case map_of ks modem of Some k \<Rightarrow> k | None \<Rightarrow> modem)"

text \<open>The context of the commands, with the keys as they stand.\<close>

definition backend_context :: "mm_backend \<Rightarrow> 'd mm_context \<Rightarrow> 'd mm_context" where
  "backend_context s ctx = ctx\<lparr>mx_stableKey := key_of (bk_stableKeyByPath s)\<rparr>"

definition signalCadence :: "mm_backend \<Rightarrow> string \<Rightarrow> signal_cadence" where
  "signalCadence s modem = cadenceFor (bk_signalSetup s) modem"

definition cell_call :: "'d mm_context \<Rightarrow> string \<Rightarrow> method_call" where
  "cell_call ctx modem = mm_method ctx modem MODEM_IFACE ''GetCellInfo'' None [] None"

text \<open>The cells of a reply: \<open>cells_of\<close> decodes its dictionaries. The clock is read and checked before the call.\<close>

definition readCellInfo ::
  "(dbus_value \<Rightarrow> cell_dict) \<Rightarrow> 'd mm_context \<Rightarrow> int \<Rightarrow> string \<Rightarrow> ('d mm_world, cell_reading list) io" where
  "readCellInfo cells_of ctx now modem =
     (case epochMillis now of
        Inl _ \<Rightarrow> io_throw (''epochMillis must be a non-negative safe integer, got '' @ show_int now)
      | Inr observedAt \<Rightarrow>
          io_catch (io_bind (callMethod ctx (cell_call ctx modem)) (\<lambda>body. io_return
              (case body of DArr cells # _ \<Rightarrow> normalizeCellInfo modem observedAt (map cells_of cells) | _ \<Rightarrow> [])))
            (\<lambda>_. io_return []))"

text \<open>\<open>Promise.all\<close>: the tree is asked for first; a clock that is refused rejects at once, before any reply.\<close>

definition readEnrichment ::
  "(rat \<Rightarrow> string) \<Rightarrow> (dbus_value \<Rightarrow> cell_dict) \<Rightarrow> 'd mm_context \<Rightarrow> mm_backend \<Rightarrow> int \<Rightarrow> string \<Rightarrow> ('d mm_world, modem_enrichment) io" where
  "readEnrichment num_text cells_of ctx s now modem w =
     (case fetchManagedObjects ctx w of (rt, w1) \<Rightarrow>
        (case readCellInfo cells_of ctx now modem w1 of (rc, w2) \<Rightarrow>
           (case rc of Inl e \<Rightarrow> Inl e
            | Inr cells \<Rightarrow> (case rt of Inl e \<Rightarrow> Inl e
                | Inr tree \<Rightarrow> Inr (buildEnrichment num_text tree modem (signalCadence s modem) cells)), w2)))"

section \<open>Keys\<close>

lemma ladder_key_prefix:
  assumes "resolveModemIdentity facts = Inr r"
  shows "\<not> prefix ''modem:'' (Identity_Ladder.ri_stableKey r)"
proof -
  have eq: "\<not> prefix ''modem:'' (Identity_Ladder.ri_stableKey r)" if "resolve_equipment facts = Inr r"
    using that by (auto simp: resolve_equipment_def Let_def sum_bind_Inr split: option.splits)
  have sl: "\<not> prefix ''modem:'' (Identity_Ladder.ri_stableKey r)"
    if "resolve_slot facts slot source conf key = Inr r" "\<not> prefix ''modem:'' key" for slot source conf key
    using that by (auto simp: resolve_slot_def sum_bind_Inr)
  show ?thesis
    using assms unfolding resolveModemIdentity_def Let_def
    by (auto split: if_splits option.splits list.splits dest: eq sl)
qed

lemma sum_map_nth:
  "sum_map f xs = Inr ys \<Longrightarrow> length ys = length xs \<and> (\<forall>i < length xs. f (xs ! i) = Inr (ys ! i))"
proof (induction xs arbitrary: ys)
  case (Cons x xs)
  then show ?case by (auto simp: sum_bind_Inr nth_Cons split: nat.split)
qed simp

lemma map_of_fold_update:
  "distinct ps \<Longrightarrow> length ps = length rs \<Longrightarrow>
     map_of (fold (\<lambda>(path, r) m. AList.update path (f r) m) (zip ps rs) m0) q =
       (case map_of (zip ps rs) q of Some r \<Rightarrow> Some (f r) | None \<Rightarrow> map_of m0 q)"
proof (induction ps arbitrary: rs m0)
  case (Cons p ps)
  then obtain r rs' where rs: "rs = r # rs'" by (cases rs) auto
  have n: "map_of (zip ps rs') p = None" using Cons.prems by (simp add: rs map_of_zip_is_None)
  note IH = Cons.IH [of rs' "AList.update p (f r) m0"]
  show ?case
  proof (cases "q = p")
    case True
    with IH Cons.prems n show ?thesis by (simp add: rs update_conv')
  next
    case False
    with IH Cons.prems show ?thesis by (auto simp: rs update_conv' split: option.split dest: set_zip_leftD)
  qed
qed simp

text \<open>The keys of a refresh are the identities of the ladder, with the duplicates of the batch demoted; a path it did
  not list is its own key.\<close>

lemma refreshed_key:
  assumes "refreshStableKeys tree = Inr ks" and "distinct (map fst tree)" and "modem \<in> set (pathsWithInterface tree MODEM_IFACE)"
  shows "\<exists>facts r. resolveModemIdentity facts = Inr r \<and> key_of ks modem = Identity_Ladder.ri_stableKey r"
proof -
  let ?ps = "pathsWithInterface tree MODEM_IFACE"
  let ?fs = "map (modemIdentityFactsFromTree tree) ?ps"
  obtain rs where rs: "resolveModemIdentities ?fs = Inr rs"
    and ks: "ks = fold (\<lambda>(path, r) m. AList.update path (Identity_Ladder.ri_stableKey r) m) (zip ?ps rs) []"
    using assms(1) by (auto simp: refreshStableKeys_def Let_def sum_bind_Inr)
  note nth = sum_map_nth [OF rs [unfolded resolveModemIdentities_def]]
  have l: "length rs = length ?ps" using nth by simp
  have d: "distinct ?ps" using assms(2) by (auto simp: pathsWithInterface_def distinct_map inj_on_def)
  obtain i where i: "i < length ?ps" "?ps ! i = modem" using assms(3) by (auto simp: in_set_conv_nth)
  have "map_of (zip ?ps rs) modem = Some (rs ! i)" using i d l by (metis map_of_zip_nth)
  then have "key_of ks modem = Identity_Ladder.ri_stableKey (rs ! i)"
    using map_of_fold_update [OF d l [symmetric], of Identity_Ladder.ri_stableKey "[]" modem] by (simp add: ks key_of_def)
  moreover have "resolveModemIdentity (demoted_facts (count_values ?fs) (?fs ! i)) = Inr (rs ! i)"
    using nth i by auto
  ultimately show ?thesis by blast
qed

text \<open>The provider keys its location and USSD calls by \<open>modem:\<close> and the physical id, the backend its commands by the
  ladder: for a modem both know, the keys never meet, so the one actor they share does not serialize the two.\<close>

lemma provider_and_backend_keys_differ:
  assumes "refreshStableKeys tree = Inr ks" and "distinct (map fst tree)"
    and "readSnapshot p context w = (Inr s, w1)" and "mp_modemPath s \<in> set (pathsWithInterface tree MODEM_IFACE)"
  shows "key_of (pw_keys w1) (mp_modemPath s) \<noteq> key_of ks (mp_modemPath s)"
proof -
  have "key_of (pw_keys w1) (mp_modemPath s) = ''modem:'' @ mq_physicalModemId context"
    using assms(3) by (auto simp: readSnapshot_def remember_key_def key_of_def Let_def update_conv' split: prod.splits sum.splits)
  moreover have "\<not> prefix ''modem:'' (key_of ks (mp_modemPath s))"
    using refreshed_key [OF assms(1,2,4)] ladder_key_prefix by metis
  ultimately show ?thesis by (metis prefixI)
qed

end
