(* ===== verification/Location.thy ===== *)
theory Location
  imports Js_Values
begin

text \<open>
  The position of a modem: the display state machine (\<open>location/fix-state.ts\<close>) and the decoding of GGA
  sentences (\<open>location/nmea.ts\<close>), with the readings of \<open>ports/location.ts\<close>. A number is its exact value: the
  quotient and the sum of \<open>toDegrees\<close> are not rounded; its degree digits are sliced off as bytes, which are the
  characters of an ASCII field.
\<close>

section \<open>The display state machine\<close>

record gnss_fix =
  gf_latitude :: rat
  gf_longitude :: rat
  gf_altitude :: "rat option"
  gf_utcTime :: "string option"
  gf_observedAt :: int

datatype fix_read =
    ReadFix gnss_fix
  | ReadNoFix string
  | ReadDisabled string
  | ReadUnsupported string
  | ReadError string

record fix_config =
  fc_acquireTimeoutMs :: int
  fc_fixTtlMs :: int

definition DEFAULT_FIX_STATE_CONFIG :: fix_config where
  "DEFAULT_FIX_STATE_CONFIG = \<lparr>fc_acquireTimeoutMs = 120000, fc_fixTtlMs = 30000\<rparr>"

datatype no_fix_reason = AcquireTimeout | ReportedNoFix | FixExpired

datatype fix_state =
    GnssOff
  | Acquiring int
  | NoFix int no_fix_reason
  | HasFix gnss_fix
  | FixUnavailable string

datatype fix_event = GnssEnabled int | GnssDisabled | FixReadAt int fix_read | FixTick int

definition GNSS_OFF :: fix_state where "GNSS_OFF = GnssOff"

definition renderableFix :: "fix_state \<Rightarrow> gnss_fix option" where
  "renderableFix st = (case st of HasFix f \<Rightarrow> Some f | _ \<Rightarrow> None)"

definition isAcquiring :: "fix_state \<Rightarrow> bool" where
  "isAcquiring st \<longleftrightarrow> (case st of Acquiring _ \<Rightarrow> True | _ \<Rightarrow> False)"

definition expireIfDue :: "fix_config \<Rightarrow> fix_state \<Rightarrow> int \<Rightarrow> fix_state" where
  "expireIfDue config st t =
     (case st of
        Acquiring since \<Rightarrow> if t - since \<ge> fc_acquireTimeoutMs config then NoFix t AcquireTimeout else st
      | HasFix f \<Rightarrow> if t - gf_observedAt f \<ge> fc_fixTtlMs config then NoFix t FixExpired else st
      | _ \<Rightarrow> st)"

fun applyRead :: "fix_config \<Rightarrow> fix_state \<Rightarrow> int \<Rightarrow> fix_read \<Rightarrow> fix_state" where
  "applyRead config st t (ReadFix f) = HasFix f"
| "applyRead config st t (ReadNoFix reason) =
     (if isAcquiring st then expireIfDue config st t else NoFix t ReportedNoFix)"
| "applyRead config st t (ReadDisabled reason) = GNSS_OFF"
| "applyRead config st t (ReadUnsupported reason) = FixUnavailable reason"
| "applyRead config st t (ReadError reason) = FixUnavailable reason"

fun advanceGnssFixState :: "fix_config \<Rightarrow> fix_event \<Rightarrow> fix_state \<Rightarrow> fix_state" where
  "advanceGnssFixState config (GnssEnabled t) st = (if renderableFix st \<noteq> None then st else Acquiring t)"
| "advanceGnssFixState config GnssDisabled st = GNSS_OFF"
| "advanceGnssFixState config (FixReadAt t read) st = applyRead config st t read"
| "advanceGnssFixState config (FixTick t) st = expireIfDue config st t"

definition fix_run :: "fix_config \<Rightarrow> fix_event list \<Rightarrow> fix_state" where
  "fix_run config evs = fold (advanceGnssFixState config) evs GNSS_OFF"

section \<open>GGA sentences\<close>

text \<open>The UTF-16 units of a text, \<open>charCodeAt\<close>.\<close>

definition cont :: "char \<Rightarrow> nat" where "cont c = of_char c mod 64"

fun utf16_units :: "string \<Rightarrow> nat list" where
  "utf16_units [] = []"
| "utf16_units (a # b # c # d # s) =
     (let n = (of_char a :: nat) in
      if n < 128 then n # utf16_units (b # c # d # s)
      else if n < 224 then ((n mod 32) * 64 + cont b) # utf16_units (c # d # s)
      else if n < 240 then ((n mod 16) * 4096 + cont b * 64 + cont c) # utf16_units (d # s)
      else let p = (n mod 8) * 262144 + cont b * 4096 + cont c * 64 + cont d - 65536
           in (55296 + p div 1024) # (56320 + p mod 1024) # utf16_units s)"
| "utf16_units [a, b, c] =
     (let n = (of_char a :: nat) in
      if n < 128 then n # utf16_units [b, c]
      else if n < 224 then ((n mod 32) * 64 + cont b) # utf16_units [c]
      else [(n mod 16) * 4096 + cont b * 64 + cont c])"
| "utf16_units [a, b] =
     (let n = (of_char a :: nat) in
      if n < 128 then n # utf16_units [b] else [(n mod 32) * 64 + cont b])"
| "utf16_units [a] = [of_char a]"

definition checksumOf :: "string \<Rightarrow> nat" where
  "checksumOf body = fold (\<lambda>u sum. Bit_Operations.xor sum u) (utf16_units body) 0"

text \<open>\<open>Number.parseInt\<close>: white space, a sign, the prefix of radix 16, and digits up to the first other character.\<close>

definition radix_val :: "nat \<Rightarrow> char \<Rightarrow> nat option" where
  "radix_val radix c = (case hex_val c of Some d \<Rightarrow> if d < radix then Some d else None | None \<Rightarrow> None)"

definition js_parseInt :: "nat \<Rightarrow> string \<Rightarrow> int option" where
  "js_parseInt radix s =
     (let t = dropWhile is_space s;
          negative = (case t of c # _ \<Rightarrow> c = CHR ''-'' | [] \<Rightarrow> False);
          u = (case t of c # r \<Rightarrow> if c = CHR ''-'' \<or> c = CHR ''+'' then r else t | [] \<Rightarrow> []);
          v = (if radix = 16 \<and> (prefix ''0x'' u \<or> prefix ''0X'' u) then drop 2 u else u);
          ds = takeWhile (\<lambda>c. radix_val radix c \<noteq> None) v;
          n = foldl (\<lambda>n c. radix * n + the (radix_val radix c)) 0 ds
      in if ds = [] then None else Some (if negative then - int n else int n))"

text \<open>\<open>lastIndexOf('*')\<close>: what is before and after the last star.\<close>

definition split_last_star :: "string \<Rightarrow> (string \<times> string) option" where
  "split_last_star s =
     (if CHR ''*'' \<notin> set s then None
      else let tl_part = rev (takeWhile (\<lambda>c. c \<noteq> CHR ''*'') (rev s))
           in Some (take (length s - length tl_part - 1) s, tl_part))"

definition verifiedBody :: "string \<Rightarrow> string option" where
  "verifiedBody sentence =
     (let trimmed = js_trim sentence in
      if \<not> prefix ''$'' trimmed then None
      else case split_last_star trimmed of
        None \<Rightarrow> None
      | Some (before, after) \<Rightarrow>
          let body = drop 1 before; declared = js_parseInt 16 (take 2 after)
          in if declared = Some (int (checksumOf body)) then Some body else None)"

definition field_at :: "string list \<Rightarrow> nat \<Rightarrow> string" where
  "field_at fs i = (if i < length fs then fs ! i else [])"

definition toDegrees :: "string \<Rightarrow> string \<Rightarrow> nat \<Rightarrow> rat option" where
  "toDegrees v hemisphere degreeDigits =
     (if length (utf16_units v) < degreeDigits + 1 then None
      else case (js_parseFloat (take degreeDigits v), js_parseFloat (drop degreeDigits v)) of
        (Fin degrees, Fin minutes) \<Rightarrow>
          (let magnitude = degrees + minutes / 60
           in Some (if hemisphere = ''S'' \<or> hemisphere = ''W'' then - magnitude else magnitude))
      | _ \<Rightarrow> None)"

record nmea_fix =
  nf_latitude :: rat
  nf_longitude :: rat
  nf_altitude :: "rat option"

definition parseGga :: "string list \<Rightarrow> nmea_fix option" where
  "parseGga fs =
     (case js_parseInt 10 (field_at fs 6) of
        None \<Rightarrow> None
      | Some quality \<Rightarrow>
          if \<not> js_finite (of_int quality) \<or> quality \<le> 0 then None
          else case (toDegrees (field_at fs 2) (field_at fs 3) 2, toDegrees (field_at fs 4) (field_at fs 5) 3) of
            (Some latitude, Some longitude) \<Rightarrow>
              if \<bar>latitude\<bar> > 90 \<or> \<bar>longitude\<bar> > 180 then None
              else Some \<lparr>nf_latitude = latitude, nf_longitude = longitude,
                         nf_altitude = finite_value (js_parseFloat (field_at fs 9))\<rparr>
          | _ \<Rightarrow> None)"

definition is_eol :: "char \<Rightarrow> bool" where "is_eol c \<longleftrightarrow> c = CHR 0x0D \<or> c = CHR 0x0A"

text \<open>\<open>split(/[\r\n]+/)\<close>\<close>

function nmea_lines :: "string \<Rightarrow> string list" where
  "nmea_lines s =
     takeWhile (\<lambda>c. \<not> is_eol c) s #
     (case dropWhile (\<lambda>c. \<not> is_eol c) s of [] \<Rightarrow> [] | c # r \<Rightarrow> nmea_lines (dropWhile is_eol r))"
  by pat_completeness auto
termination
proof (relation "measure length")
  fix s c and r :: string
  assume "dropWhile (\<lambda>c. \<not> is_eol c) s = c # r"
  then have "Suc (length r) \<le> length s" by (metis length_Cons length_dropWhile_le)
  moreover have "length (dropWhile is_eol r) \<le> length r" by (rule length_dropWhile_le)
  ultimately show "(dropWhile is_eol r, s) \<in> measure length" by simp
qed simp

declare nmea_lines.simps [simp del]

definition is_gga :: "string list \<Rightarrow> bool" where
  "is_gga fs \<longleftrightarrow> length (utf16_units (field_at fs 0)) = 5 \<and> suffix ''GGA'' (field_at fs 0)"

text \<open>What one line says: a GGA sentence with a fix.\<close>

definition line_fix :: "string \<Rightarrow> nmea_fix option" where
  "line_fix line =
     (case verifiedBody line of
        None \<Rightarrow> None
      | Some body \<Rightarrow> (let fs = js_split (CHR '','') body in if is_gga fs then parseGga fs else None))"

definition parseNmeaFix :: "string \<Rightarrow> nmea_fix option" where
  "parseNmeaFix s =
     fold (\<lambda>line latest. case line_fix line of Some f \<Rightarrow> Some f | None \<Rightarrow> latest) (nmea_lines s) None"

section \<open>Lemmas\<close>

lemma renderable_simps [simp]:
  "renderableFix (HasFix f) = Some f" "renderableFix GnssOff = None" "renderableFix (Acquiring t) = None"
  "renderableFix (NoFix t r) = None" "renderableFix (FixUnavailable u) = None"
  by (simp_all add: renderableFix_def)

lemma renderable_Some: "renderableFix st = Some f \<longleftrightarrow> st = HasFix f"
  by (cases st) simp_all

text \<open>An event that keeps a fix that is on display.\<close>

definition keeps_fix :: "fix_config \<Rightarrow> gnss_fix \<Rightarrow> fix_event \<Rightarrow> bool" where
  "keeps_fix config f ev \<longleftrightarrow>
     (case ev of
        GnssEnabled t \<Rightarrow> True
      | GnssDisabled \<Rightarrow> False
      | FixReadAt t read \<Rightarrow> read = ReadFix f
      | FixTick t \<Rightarrow> t - gf_observedAt f < fc_fixTtlMs config)"

lemma advance_fix:
  "advanceGnssFixState config ev st = HasFix f \<longleftrightarrow>
     (st = HasFix f \<and> keeps_fix config f ev) \<or> (\<exists>t. ev = FixReadAt t (ReadFix f))"
proof (cases ev)
  case (FixReadAt t read)
  then show ?thesis
    by (cases read; cases st) (auto simp: keeps_fix_def GNSS_OFF_def isAcquiring_def expireIfDue_def)
next
  case (FixTick t)
  then show ?thesis by (cases st) (auto simp: keeps_fix_def expireIfDue_def)
next
  case (GnssEnabled t)
  then show ?thesis by (cases st) (auto simp: keeps_fix_def)
qed (simp add: keeps_fix_def GNSS_OFF_def)

text \<open>The start of the acquisition that runs: the last time GNSS was switched on, with nothing since but polls
  without a fix and ticks inside the bound.\<close>

definition keeps_acquiring :: "fix_config \<Rightarrow> int \<Rightarrow> fix_event \<Rightarrow> bool" where
  "keeps_acquiring config since ev \<longleftrightarrow>
     (case ev of
        FixReadAt t (ReadNoFix reason) \<Rightarrow> t - since < fc_acquireTimeoutMs config
      | FixTick t \<Rightarrow> t - since < fc_acquireTimeoutMs config
      | GnssEnabled t \<Rightarrow> t = since
      | _ \<Rightarrow> False)"

lemma advance_acquiring:
  "advanceGnssFixState config ev st = Acquiring since \<longleftrightarrow>
     (st = Acquiring since \<and> keeps_acquiring config since ev) \<or> (ev = GnssEnabled since \<and> renderableFix st = None)"
proof (cases ev)
  case (FixReadAt t read)
  then show ?thesis
    by (cases read; cases st) (auto simp: keeps_acquiring_def GNSS_OFF_def isAcquiring_def expireIfDue_def)
next
  case (FixTick t)
  then show ?thesis by (cases st) (auto simp: keeps_acquiring_def expireIfDue_def)
next
  case (GnssEnabled t)
  then show ?thesis by (cases st) (auto simp: keeps_acquiring_def)
qed (simp add: keeps_acquiring_def GNSS_OFF_def)

lemma fix_run_snoc: "fix_run config (evs @ [ev]) = advanceGnssFixState config ev (fix_run config evs)"
  by (simp add: fix_run_def)

lemma fix_run_fix:
  "fix_run config evs = HasFix f \<longleftrightarrow>
     (\<exists>before t after. evs = before @ FixReadAt t (ReadFix f) # after \<and> list_all (keeps_fix config f) after)"
proof (induction evs rule: rev_induct)
  case Nil
  then show ?case by (simp add: fix_run_def GNSS_OFF_def)
next
  case (snoc ev evs)
  note IH = snoc.IH
  show ?case (is "?l \<longleftrightarrow> ?r")
  proof
    assume ?l
    then consider "fix_run config evs = HasFix f" "keeps_fix config f ev" | t where "ev = FixReadAt t (ReadFix f)"
      by (auto simp: fix_run_snoc advance_fix)
    then show ?r
    proof cases
      case 1
      with snoc obtain before t after where "evs = before @ FixReadAt t (ReadFix f) # after" "list_all (keeps_fix config f) after"
        by blast
      with 1 show ?thesis by (intro exI [of _ before] exI [of _ t] exI [of _ "after @ [ev]"]) simp
    next
      case (2 t)
      then show ?thesis by (intro exI [of _ evs] exI [of _ t] exI [of _ "[]"]) simp
    qed
  next
    assume ?r
    then obtain before t after where e: "evs @ [ev] = before @ FixReadAt t (ReadFix f) # after" "list_all (keeps_fix config f) after"
      by blast
    show ?l
    proof (cases after rule: rev_cases)
      case Nil
      with e show ?thesis by (simp add: fix_run_snoc advance_fix)
    next
      case (snoc after' ev')
      with e have "evs = before @ FixReadAt t (ReadFix f) # after'" "ev' = ev" by simp_all
      moreover from this e snoc have "fix_run config evs = HasFix f" "keeps_fix config f ev" using IH by auto
      ultimately show ?thesis unfolding fix_run_snoc advance_fix by blast
    qed
  qed
qed

lemma fix_run_acquiring:
  "fix_run config evs = Acquiring since \<longleftrightarrow>
     (\<exists>before after. evs = before @ GnssEnabled since # after \<and> renderableFix (fix_run config before) = None \<and>
        list_all (keeps_acquiring config since) after)"
proof (induction evs rule: rev_induct)
  case Nil
  then show ?case by (simp add: fix_run_def GNSS_OFF_def)
next
  case (snoc ev evs)
  note IH = snoc.IH
  show ?case (is "?l \<longleftrightarrow> ?r")
  proof
    assume ?l
    then consider "fix_run config evs = Acquiring since" "keeps_acquiring config since ev"
      | "ev = GnssEnabled since" "renderableFix (fix_run config evs) = None"
      by (auto simp: fix_run_snoc advance_acquiring)
    then show ?r
    proof cases
      case 1
      with IH obtain before after where "evs = before @ GnssEnabled since # after" "renderableFix (fix_run config before) = None"
          "list_all (keeps_acquiring config since) after" by blast
      with 1 show ?thesis by (intro exI [of _ before] exI [of _ "after @ [ev]"]) simp
    next
      case 2
      then show ?thesis by (intro exI [of _ evs] exI [of _ "[]"]) simp
    qed
  next
    assume ?r
    then obtain before after where e: "evs @ [ev] = before @ GnssEnabled since # after"
        "renderableFix (fix_run config before) = None" "list_all (keeps_acquiring config since) after" by blast
    show ?l
    proof (cases after rule: rev_cases)
      case Nil
      with e show ?thesis by (simp add: fix_run_snoc advance_acquiring)
    next
      case (snoc after' ev')
      with e have "evs = before @ GnssEnabled since # after'" "ev' = ev" by simp_all
      moreover from this e snoc have "fix_run config evs = Acquiring since" "keeps_acquiring config since ev" using IH by auto
      ultimately show ?thesis unfolding fix_run_snoc advance_acquiring by blast
    qed
  qed
qed

text \<open>Decoding.\<close>

lemma line_fix_valid: "line_fix line = Some f \<Longrightarrow> \<bar>nf_latitude f\<bar> \<le> 90 \<and> \<bar>nf_longitude f\<bar> \<le> 180"
  by (auto simp: line_fix_def parseGga_def Let_def split: option.splits if_splits)

definition last_by :: "('a \<Rightarrow> 'b option) \<Rightarrow> 'b \<Rightarrow> 'a list \<Rightarrow> bool" where
  "last_by g f ls \<longleftrightarrow> (\<exists>before l after. ls = before @ l # after \<and> g l = Some f \<and> list_all (\<lambda>l. g l = None) after)"

lemma last_by_Cons: "last_by g f (x # ls) \<longleftrightarrow> (g x = Some f \<and> list_all (\<lambda>l. g l = None) ls) \<or> last_by g f ls"
proof
  assume "last_by g f (x # ls)"
  then obtain before l after where e: "x # ls = before @ l # after" "g l = Some f" "list_all (\<lambda>l. g l = None) after"
    by (auto simp: last_by_def)
  then show "(g x = Some f \<and> list_all (\<lambda>l. g l = None) ls) \<or> last_by g f ls"
    unfolding last_by_def by (cases before) auto
next
  assume "(g x = Some f \<and> list_all (\<lambda>l. g l = None) ls) \<or> last_by g f ls"
  then show "last_by g f (x # ls)"
    unfolding last_by_def by (metis append_Cons append_Nil)
qed

lemma last_by_fold:
  "fold (\<lambda>line latest. case g line of Some f \<Rightarrow> Some f | None \<Rightarrow> latest) ls a = Some f \<longleftrightarrow>
     last_by g f ls \<or> (a = Some f \<and> list_all (\<lambda>l. g l = None) ls)"
proof (induction ls arbitrary: a)
  case Nil
  then show ?case by (simp add: last_by_def)
next
  case (Cons x ls)
  then show ?case by (cases "g x") (auto simp: last_by_Cons)
qed

section \<open>Properties\<close>

text \<open>C39: the display is honest whatever the order of events: a position is on display exactly when some read delivered it and every event since was a repeated enable, the same reading, or a tick before its time to live was over; an acquisition is shown exactly when GNSS was switched on with no position on display and every event since was a poll without a fix or a tick inside the bound (or the same enable again), so the first tick or poll at the bound ends it.\<close>

theorem gnss_display_is_honest:
  "(renderableFix (fix_run config evs) = Some f \<longleftrightarrow>
      (\<exists>before t after. evs = before @ FixReadAt t (ReadFix f) # after \<and> list_all (keeps_fix config f) after)) \<and>
   (fix_run config evs = Acquiring since \<longleftrightarrow>
      (\<exists>before after. evs = before @ GnssEnabled since # after \<and> renderableFix (fix_run config before) = None \<and>
         list_all (keeps_acquiring config since) after))"
  by (simp add: renderable_Some fix_run_fix fix_run_acquiring)

text \<open>A position read from sentences is that of the last line that carries one, and lies on the globe.\<close>

lemma nmea_fix_is_last:
  "parseNmeaFix s = Some f \<longleftrightarrow> last_by line_fix f (nmea_lines s)"
  by (simp add: parseNmeaFix_def last_by_fold)

lemma nmea_fix_on_globe: "parseNmeaFix s = Some f \<Longrightarrow> \<bar>nf_latitude f\<bar> \<le> 90 \<and> \<bar>nf_longitude f\<bar> \<le> 180"
  unfolding nmea_fix_is_last last_by_def using line_fix_valid by blast

text \<open>A missing hemisphere is read as north and east.\<close>

lemma missing_hemisphere_is_north: "toDegrees ''3025.50'' [] 2 = toDegrees ''3025.50'' ''N'' 2"
  by code_simp

lemma sample_sentence:
  "parseNmeaFix (''$GPGGA,123519,4807.038,N,01131.000,E,1,08,0.9,545.4,M,46.9,M,,*47'' @ [CHR 0x0D, CHR 0x0A]) =
     Some \<lparr>nf_latitude = 48 + 7038 / 60000, nf_longitude = 11 + 31 / 60, nf_altitude = Some (5454 / 10)\<rparr>"
  by code_simp

end
