(* ===== verification/Mm_Location.thy ===== *)
theory Mm_Location
  imports Location Mm_Mutations Capability
begin

unbundle bit_operations_syntax

text \<open>
  The location adapter (\<open>backend/mm-location.ts\<close>) over the bus of \<open>Mm_Mutations\<close>: the status, the switch of the
  GNSS sources as bits of one mask, and the current position. A position is in doubles on the wire, so the reply of
  GetLocation is a value of its own, decoded by a parameter.
\<close>

section \<open>Sources as bits\<close>

definition SOURCE_BIT :: "(string \<times> int) list" where
  "SOURCE_BIT =
     [(''3gpp-lac-ci'', 1), (''gps-raw'', 2), (''gps-nmea'', 4), (''cdma-bs'', 8), (''gps-unmanaged'', 16),
      (''agps-msa'', 32), (''agps-msb'', 64)]"

definition GPS_RAW_BIT :: int where "GPS_RAW_BIT = 2"
definition GPS_NMEA_BIT :: int where "GPS_NMEA_BIT = 4"

definition GNSS_MASK :: int where
  "GNSS_MASK = js_or (js_or (js_or (js_or GPS_RAW_BIT GPS_NMEA_BIT) 16) 32) 64"

definition decodeLocationSources :: "int \<Rightarrow> string list" where
  "decodeLocationSources m = map fst (filter (\<lambda>(_, b). js_and m b \<noteq> 0) SOURCE_BIT)"

definition source_bit :: "string \<Rightarrow> int" where
  "source_bit name = (case map_of SOURCE_BIT name of Some b \<Rightarrow> b | None \<Rightarrow> 0)"

definition encodeLocationSources :: "string list \<Rightarrow> int" where
  "encodeLocationSources sources = fold (\<lambda>source m. js_or m (source_bit source)) sources 0"

section \<open>The adapter\<close>

record location_status =
  ls_capabilities :: "string list"
  ls_enabledSources :: "string list"
  ls_gnssCapable :: bool
  ls_gnssEnabled :: bool

datatype toggle_outcome = ToggleApplied | ToggleUnsupported | ToggleFailed

record toggle_result =
  tg_outcome :: toggle_outcome
  tg_reason :: string
  tg_enabledSources :: "string list"

definition hasGnssSource :: "string list \<Rightarrow> bool" where
  "hasGnssSource sources \<longleftrightarrow> list_ex (\<lambda>s. s \<in> set GNSS_SOURCES) sources"

definition maskProp :: "decoded_props \<Rightarrow> string \<Rightarrow> int" where
  "maskProp props name = (case propValue (Some props) name of Some (DNum n) \<Rightarrow> n | _ \<Rightarrow> 0)"

definition statusOf :: "decoded_props \<Rightarrow> location_status" where
  "statusOf props =
     (let capabilities = decodeLocationSources (maskProp props ''Capabilities'');
          enabledSources = decodeLocationSources (maskProp props ''Enabled'')
      in \<lparr>ls_capabilities = capabilities, ls_enabledSources = enabledSources,
          ls_gnssCapable = hasGnssSource capabilities, ls_gnssEnabled = hasGnssSource enabledSources\<rparr>)"

definition readLocationProps :: "'d mm_context \<Rightarrow> string \<Rightarrow> ('d mm_world, decoded_props option) io" where
  "readLocationProps ctx modem =
     io_catch (io_bind (fetchManagedObjects ctx) (\<lambda>tree. io_return (findInterface tree modem LOCATION_IFACE)))
       (\<lambda>_. io_return None)"

definition NO_LOCATION :: string where "NO_LOCATION = ''the modem does not expose a Location interface''"
definition NO_GNSS :: string where "NO_GNSS = ''the modem advertises no GNSS source''"

definition toggle_refused :: "string \<Rightarrow> string list \<Rightarrow> toggle_result" where
  "toggle_refused reason enabled = \<lparr>tg_outcome = ToggleUnsupported, tg_reason = reason, tg_enabledSources = enabled\<rparr>"

definition getLocationStatus :: "'d mm_context \<Rightarrow> string \<Rightarrow> ('d mm_world, string + location_status) io" where
  "getLocationStatus ctx modem =
     io_bind (readLocationProps ctx modem) (\<lambda>props. io_return (case props of
       None \<Rightarrow> Inl NO_LOCATION | Some ps \<Rightarrow> Inr (statusOf ps)))"

text \<open>The second argument, \<open>signal_location\<close>, is always false: no position is broadcast on the bus.\<close>

definition location_call :: "'d mm_context \<Rightarrow> string \<Rightarrow> int \<Rightarrow> method_call" where
  "location_call ctx modem m = mm_method ctx modem LOCATION_IFACE ''Setup'' (Some ''ub'') [DNum m, DBool False] None"

definition location_setup :: "'d mm_context \<Rightarrow> string \<Rightarrow> int \<Rightarrow> string \<Rightarrow> ('d mm_world, toggle_result) io" where
  "location_setup ctx modem m appliedReason =
     io_catch
       (io_bind (callMethod ctx (location_call ctx modem m)) (\<lambda>_. io_return
          \<lparr>tg_outcome = ToggleApplied, tg_reason = appliedReason, tg_enabledSources = decodeLocationSources m\<rparr>))
       (\<lambda>message. io_return
          \<lparr>tg_outcome = ToggleFailed, tg_reason = ''Location.Setup failed: '' @ message, tg_enabledSources = []\<rparr>)"

definition enableGnss :: "'d mm_context \<Rightarrow> string \<Rightarrow> string list \<Rightarrow> ('d mm_world, toggle_result) io" where
  "enableGnss ctx modem sources =
     io_bind (readLocationProps ctx modem) (\<lambda>props.
       case props of
         None \<Rightarrow> io_return (toggle_refused NO_LOCATION [])
       | Some ps \<Rightarrow>
           (let status = statusOf ps;
                requested = js_and (encodeLocationSources sources) (encodeLocationSources (ls_capabilities status))
            in if \<not> ls_gnssCapable status then io_return (toggle_refused NO_GNSS (ls_enabledSources status))
               else if requested = 0
               then io_return (toggle_refused ''none of the requested GNSS sources is advertised by this modem''
                      (ls_enabledSources status))
               else location_setup ctx modem (js_or (encodeLocationSources (ls_enabledSources status)) requested)
                      ''GNSS enabled''))"

definition disableGnss :: "'d mm_context \<Rightarrow> string \<Rightarrow> ('d mm_world, toggle_result) io" where
  "disableGnss ctx modem =
     io_bind (readLocationProps ctx modem) (\<lambda>props.
       case props of
         None \<Rightarrow> io_return (toggle_refused NO_LOCATION [])
       | Some ps \<Rightarrow> location_setup ctx modem
           (js_and (encodeLocationSources (ls_enabledSources (statusOf ps))) (js_not GNSS_MASK)) ''GNSS disabled'')"

section \<open>The position\<close>

datatype loc_value = LocNumber js_num | LocText string | LocList "(string \<times> loc_value) list" | LocOther

text \<open>\<open>a{uv}\<close>: the number of each source with its value; nothing when the body is no array.\<close>

type_synonym loc_payload = "(js_num \<times> loc_value) list option"

definition entryValue :: "loc_payload \<Rightarrow> int \<Rightarrow> loc_value option" where
  "entryValue payload b =
     (case payload of None \<Rightarrow> None
      | Some entries \<Rightarrow> map_option snd (find (\<lambda>(k, _). k = Fin (of_int b)) entries))"

definition loc_prop :: "(string \<times> loc_value) list \<Rightarrow> string \<Rightarrow> loc_value option" where
  "loc_prop props name = map_option snd (find (\<lambda>entry. fst entry = name) props)"

definition numberField :: "(string \<times> loc_value) list \<Rightarrow> string \<Rightarrow> rat option" where
  "numberField props name = (case loc_prop props name of Some (LocNumber n) \<Rightarrow> finite_value n | _ \<Rightarrow> None)"

definition raw_fix :: "loc_value option \<Rightarrow> int \<Rightarrow> gnss_fix option" where
  "raw_fix raw observedAt =
     (case raw of
        Some (LocList props) \<Rightarrow>
          (case (numberField props ''latitude'', numberField props ''longitude'') of
             (Some latitude, Some longitude) \<Rightarrow> Some
               \<lparr>gf_latitude = latitude, gf_longitude = longitude, gf_altitude = numberField props ''altitude'',
                gf_utcTime = (case loc_prop props ''utc-time'' of Some (LocText t) \<Rightarrow> Some t | _ \<Rightarrow> None),
                gf_observedAt = observedAt\<rparr>
           | _ \<Rightarrow> None)
      | _ \<Rightarrow> None)"

definition nmea_gnss_fix :: "loc_value option \<Rightarrow> int \<Rightarrow> gnss_fix option" where
  "nmea_gnss_fix v observedAt =
     (case v of
        Some (LocText sentences) \<Rightarrow> map_option (\<lambda>f. \<lparr>gf_latitude = nf_latitude f, gf_longitude = nf_longitude f,
          gf_altitude = nf_altitude f, gf_utcTime = None, gf_observedAt = observedAt\<rparr>) (parseNmeaFix sentences)
      | _ \<Rightarrow> None)"

definition decodeFix :: "loc_payload \<Rightarrow> int \<Rightarrow> gnss_fix option" where
  "decodeFix payload observedAt =
     (case raw_fix (entryValue payload GPS_RAW_BIT) observedAt of
        Some f \<Rightarrow> Some f
      | None \<Rightarrow> nmea_gnss_fix (entryValue payload GPS_NMEA_BIT) observedAt)"

definition fix_call :: "'d mm_context \<Rightarrow> string \<Rightarrow> method_call" where
  "fix_call ctx modem = mm_method ctx modem LOCATION_IFACE ''GetLocation'' None [] None"

definition readFix ::
  "(dbus_value list \<Rightarrow> loc_payload) \<Rightarrow> 'd mm_context \<Rightarrow> ('d \<Rightarrow> int) \<Rightarrow> string \<Rightarrow> ('d mm_world, fix_read) io" where
  "readFix payload_of ctx now modem =
     io_bind (readLocationProps ctx modem) (\<lambda>props.
       case props of
         None \<Rightarrow> io_return (ReadUnsupported NO_LOCATION)
       | Some ps \<Rightarrow>
           if \<not> ls_gnssCapable (statusOf ps) then io_return (ReadUnsupported NO_GNSS)
           else if \<not> ls_gnssEnabled (statusOf ps) then io_return (ReadDisabled ''GNSS is switched off on this modem'')
           else io_bind (io_catch (io_bind (callMethod ctx (fix_call ctx modem)) (\<lambda>body. io_return (Inr body)))
                          (\<lambda>message. io_return (Inl (''GetLocation failed: '' @ message)))) (\<lambda>reply.
                  case reply of
                    Inl reason \<Rightarrow> io_return (ReadError reason)
                  | Inr body \<Rightarrow>
                      io_bind (io_gets (\<lambda>w. now (mw_device w))) (\<lambda>t.
                      case epochMillis t of
                        Inl _ \<Rightarrow> io_throw (''epochMillis must be a non-negative safe integer, got '' @ show_int t)
                      | Inr observedAt \<Rightarrow> io_return (case decodeFix (payload_of body) observedAt of
                          None \<Rightarrow> ReadNoFix ''the receiver has not acquired a position'' | Some f \<Rightarrow> ReadFix f))))"

section \<open>Lemmas\<close>

text \<open>Every source is one bit of the mask.\<close>

definition SOURCE_NAMES :: "string list" where
  "SOURCE_NAMES = [''3gpp-lac-ci'', ''gps-raw'', ''gps-nmea'', ''cdma-bs'', ''gps-unmanaged'', ''agps-msa'', ''agps-msb'']"

lemma SOURCE_BIT_zip: "SOURCE_BIT = zip SOURCE_NAMES (map (\<lambda>k. 2 ^ k) [0..<7])"
  by (simp add: SOURCE_BIT_def SOURCE_NAMES_def upt_rec numeral_nat)

lemma distinct_names: "distinct SOURCE_NAMES"
  by code_simp

definition name_index :: "string \<Rightarrow> nat option" where
  "name_index n = map_of (zip SOURCE_NAMES [0..<7]) n"

lemma length_names [simp]: "length SOURCE_NAMES = 7"
  by (simp add: SOURCE_NAMES_def)

lemma name_index_Some: "name_index n = Some k \<longleftrightarrow> k < 7 \<and> SOURCE_NAMES ! k = n"
proof -
  have "distinct (map fst (zip SOURCE_NAMES [0..<7]))" using distinct_names by (simp add: map_fst_zip)
  then have "name_index n = Some k \<longleftrightarrow> (n, k) \<in> set (zip SOURCE_NAMES [0..<7])" by (simp add: name_index_def)
  also have "\<dots> \<longleftrightarrow> k < 7 \<and> SOURCE_NAMES ! k = n" by (auto simp: in_set_zip)
  finally show ?thesis .
qed

lemma source_bit_index: "source_bit n = (case name_index n of Some k \<Rightarrow> 2 ^ k | None \<Rightarrow> 0)"
proof -
  have "map_of SOURCE_BIT n = map_option (\<lambda>k. 2 ^ k) (name_index n)"
    unfolding SOURCE_BIT_zip name_index_def zip_map2 by (simp add: map_of_map)
  then show ?thesis by (simp add: source_bit_def split: option.split)
qed

lemma source_bit_bit: "k < 7 \<Longrightarrow> Bit_Operations.bit (to_word (source_bit n)) k \<longleftrightarrow> SOURCE_NAMES ! k = n"
proof -
  assume k: "k < 7"
  have self: "name_index (SOURCE_NAMES ! k) = Some k" using k by (simp add: name_index_Some)
  show ?thesis
  proof (cases "name_index n")
    case None
    with self have "SOURCE_NAMES ! k \<noteq> n" by auto
    with None show ?thesis by (simp add: source_bit_index to_word_def)
  next
    case (Some j)
    with self have "SOURCE_NAMES ! k = n \<longleftrightarrow> j = k" by (metis name_index_Some option.inject)
    with Some k show ?thesis by (auto simp: source_bit_index to_word_exp bit_exp_iff)
  qed
qed

lemma names_set: "n \<in> set SOURCE_NAMES \<longleftrightarrow> (\<exists>k < 7. SOURCE_NAMES ! k = n)"
  by (auto simp: in_set_conv_nth)

lemma encode_bit:
  "k < 7 \<Longrightarrow> Bit_Operations.bit (to_word (encodeLocationSources ns)) k \<longleftrightarrow> SOURCE_NAMES ! k \<in> set ns"
proof -
  assume k: "k < 7"
  have "Bit_Operations.bit (to_word (fold (\<lambda>source m. js_or m (source_bit source)) ns m)) k \<longleftrightarrow>
      Bit_Operations.bit (to_word m) k \<or> SOURCE_NAMES ! k \<in> set ns" for m
    using k by (induction ns arbitrary: m) (auto simp: js_or_def bit_or_iff source_bit_bit)
  then show ?thesis by (simp add: encodeLocationSources_def to_word_def [of 0])
qed

lemma decode_bit: "n \<in> set (decodeLocationSources m) \<longleftrightarrow> (\<exists>k < 7. SOURCE_NAMES ! k = n \<and> Bit_Operations.bit (to_word m) k)"
proof -
  have "n \<in> set (decodeLocationSources m) \<longleftrightarrow> (\<exists>b. (n, b) \<in> set SOURCE_BIT \<and> js_and m b \<noteq> 0)"
    by (force simp: decodeLocationSources_def)
  also have "\<dots> \<longleftrightarrow> (\<exists>k < 7. SOURCE_NAMES ! k = n \<and> js_and m (2 ^ k) \<noteq> 0)"
    by (auto simp: SOURCE_BIT_zip in_set_zip)
  finally show ?thesis by (simp add: js_and_exp)
qed

lemma decode_names: "set (decodeLocationSources m) \<subseteq> set SOURCE_NAMES"
  by (auto simp: decode_bit names_set)

lemma decode_sources_encode: "set (decodeLocationSources (encodeLocationSources ns)) = set ns \<inter> set SOURCE_NAMES"
proof (rule set_eqI)
  fix n
  have "n \<in> set (decodeLocationSources (encodeLocationSources ns)) \<longleftrightarrow> (\<exists>k < 7. SOURCE_NAMES ! k = n \<and> SOURCE_NAMES ! k \<in> set ns)"
    by (simp add: decode_bit encode_bit cong: conj_cong)
  then show "n \<in> set (decodeLocationSources (encodeLocationSources ns)) \<longleftrightarrow> n \<in> set ns \<inter> set SOURCE_NAMES"
    by (auto simp: names_set)
qed

lemma decode_and: "set (decodeLocationSources (js_and a b)) = set (decodeLocationSources a) \<inter> set (decodeLocationSources b)"
proof -
  have "i = j" if "i < 7" "j < 7" "SOURCE_NAMES ! i = SOURCE_NAMES ! j" for i j
    using that distinct_names by (simp add: nth_eq_iff_index_eq)
  then show ?thesis by (auto simp: decode_bit js_and_def bit_and_iff) blast
qed

lemma decode_or: "set (decodeLocationSources (js_or a b)) = set (decodeLocationSources a) \<union> set (decodeLocationSources b)"
  by (auto simp: decode_bit js_or_def bit_or_iff)

lemma decode_zero: "decodeLocationSources 0 = []"
  by code_simp

lemma decode_known_masks [simp]:
  "set (decodeLocationSources (js_and (encodeLocationSources (decodeLocationSources m)) (js_not GNSS_MASK))) =
     set (decodeLocationSources m) - set GNSS_SOURCES"
proof -
  have "set (decodeLocationSources (js_not GNSS_MASK)) = {''3gpp-lac-ci'', ''cdma-bs''}" by code_simp
  moreover have "set SOURCE_NAMES - set GNSS_SOURCES = {''3gpp-lac-ci'', ''cdma-bs''}" by code_simp
  ultimately show ?thesis using decode_names [of m] by (auto simp: decode_and decode_sources_encode)
qed

text \<open>The calls of each operation, given what the bus answers for the tree.\<close>

lemma readLocationProps_run:
  "readLocationProps ctx modem w =
     (case mx_tree ctx (mw_device w) of (r, d) \<Rightarrow>
        (Inr (case r of Inl e \<Rightarrow> None | Inr tree \<Rightarrow> findInterface tree modem LOCATION_IFACE),
         w\<lparr>mw_device := d, mw_calls := mw_calls w @ [tree_call ctx]\<rparr>))"
  by (auto simp: readLocationProps_def io_catch_def io_bind_def io_return_def fetchManagedObjects_def split: prod.splits sum.splits)

lemma location_setup_calls: "mw_calls (snd (location_setup ctx modem m reason w)) = mw_calls w @ [location_call ctx modem m]"
  by (auto simp: location_setup_def io_catch_def io_bind_def io_return_def callMethod_def split: prod.splits sum.splits)

definition props_at :: "'d mm_context \<Rightarrow> string \<Rightarrow> 'd mm_world \<Rightarrow> decoded_props option" where
  "props_at ctx modem w =
     (case fst (mx_tree ctx (mw_device w)) of Inl e \<Rightarrow> None | Inr tree \<Rightarrow> findInterface tree modem LOCATION_IFACE)"

definition enabled_at :: "decoded_props \<Rightarrow> string set" where
  "enabled_at ps = set (decodeLocationSources (maskProp ps ''Enabled''))"

definition advertised_at :: "decoded_props \<Rightarrow> string set" where
  "advertised_at ps = set (decodeLocationSources (maskProp ps ''Capabilities''))"

lemma hasGnss_set: "hasGnssSource ss \<longleftrightarrow> set ss \<inter> set GNSS_SOURCES \<noteq> {}"
  by (auto simp: hasGnssSource_def list_ex_iff)

lemma requested_none:
  "js_and (encodeLocationSources sources) (encodeLocationSources caps) = 0 \<longleftrightarrow> set sources \<inter> set caps \<inter> set SOURCE_NAMES = {}"
proof
  assume "js_and (encodeLocationSources sources) (encodeLocationSources caps) = 0"
  then have "set (decodeLocationSources (js_and (encodeLocationSources sources) (encodeLocationSources caps))) = {}"
    by (simp add: decode_zero)
  then show "set sources \<inter> set caps \<inter> set SOURCE_NAMES = {}" by (auto simp: decode_and decode_sources_encode)
next
  assume none: "set sources \<inter> set caps \<inter> set SOURCE_NAMES = {}"
  have low: "Bit_Operations.bit (to_word (encodeLocationSources ns)) k \<Longrightarrow> k < 7" for ns k
  proof -
    have "Bit_Operations.bit (to_word (fold (\<lambda>source m. js_or m (source_bit source)) ns m)) k \<Longrightarrow>
        k < 7 \<or> Bit_Operations.bit (to_word m) k" for m
    proof (induction ns arbitrary: m)
      case (Cons n ns)
      have "Bit_Operations.bit (to_word (source_bit n)) k \<Longrightarrow> k < 7"
        by (auto simp: source_bit_index to_word_exp bit_exp_iff to_word_def [of 0] name_index_Some split: option.splits)
      moreover have "k < 7 \<or> Bit_Operations.bit (to_word (js_or m (source_bit n))) k" using Cons by simp
      ultimately show ?case by (auto simp: js_or_def bit_or_iff)
    qed simp
    note this [of 0]
    then show "Bit_Operations.bit (to_word (encodeLocationSources ns)) k \<Longrightarrow> k < 7"
      unfolding encodeLocationSources_def by (simp add: to_word_def [of 0])
  qed
  have "to_word (encodeLocationSources sources) AND to_word (encodeLocationSources caps) = 0"
  proof (rule bit_word_eqI)
    fix k
    show "Bit_Operations.bit (to_word (encodeLocationSources sources) AND to_word (encodeLocationSources caps)) k \<longleftrightarrow>
        Bit_Operations.bit (0 :: 32 word) k"
    proof (cases "k < 7")
      case True
      then have "SOURCE_NAMES ! k \<in> set SOURCE_NAMES" by (auto simp: names_set)
      with none True show ?thesis by (auto simp: bit_and_iff encode_bit)
    next
      case False
      with low [of sources k] show ?thesis by (auto simp: bit_and_iff)
    qed
  qed
  then show "js_and (encodeLocationSources sources) (encodeLocationSources caps) = 0" by (simp add: js_and_def)
qed

section \<open>Properties\<close>


text \<open>A source the build has no name for is switched off by either: the mask is rebuilt from names.\<close>

lemma unknown_source_is_dropped: "decodeLocationSources 128 = [] \<and> encodeLocationSources (decodeLocationSources (128 + 1)) = 1"
  by code_simp

end
