(* ===== verification/Device_Classifier.thy ===== *)
theory Device_Classifier
  imports Prelude
begin

text \<open>
  Classification of a USB device from its udev snapshot (\<open>backend/usb-device-snapshot.ts\<close>,
  \<open>backend/device-classifier.ts\<close>): device class, network class, labels, and the composition mode and
  descriptor match the USB-mode transition uses as its postcondition.
\<close>

section \<open>The snapshot\<close>

record usb_interface =
  ui_class :: int
  ui_subClass :: int
  ui_protocol :: int
  ui_driver :: "string option"

record usb_device =
  ud_vendorId :: string
  ud_productId :: string
  ud_model :: "string option"
  ud_firmwareRevision :: "string option"
  ud_manufacturer :: "string option"
  ud_product :: "string option"
  ud_databaseVendor :: "string option"
  ud_databaseModel :: "string option"
  ud_serialNumber :: "string option"
  ud_bDeviceClass :: int
  ud_interfaces :: "usb_interface list"
  ud_physicalUid :: "string option"
  ud_sysfsPath :: "string option"
  ud_ifname :: "string option"
  ud_udevProperties :: "(string \<times> string) list option"

datatype device_class = MmManaged | RouterMode | Unmanaged | PendingModeswitch
datatype usb_net_class = NetMmManaged | RouterCellular | WiredEthernet | NetUnknown

record device_classification =
  dc_class :: device_class
  dc_reason :: string

record usb_net_classification =
  nc_class :: usb_net_class
  nc_reason :: string

datatype canonical_usb_mode = Qmi | Mbim | EcmNcm | Rndis | RouterEthernet

record interface_triple =
  it_class :: int
  it_subClass :: int
  it_protocol :: int

record expected_descriptors =
  ed_deviceClass :: int
  ed_interfaces :: "interface_triple list"

section \<open>Interface signatures\<close>

definition CLASS_COMM :: int where "CLASS_COMM = 0x02"
definition CLASS_CDC_DATA :: int where "CLASS_CDC_DATA = 0x0a"
definition CLASS_MASS_STORAGE :: int where "CLASS_MASS_STORAGE = 0x08"
definition CLASS_WIRELESS :: int where "CLASS_WIRELESS = 0xe0"
definition CLASS_VENDOR :: int where "CLASS_VENDOR = 0xff"
definition SUB_ACM :: int where "SUB_ACM = 0x02"
definition SUB_ECM :: int where "SUB_ECM = 0x06"
definition SUB_NCM :: int where "SUB_NCM = 0x0d"
definition SUB_MBIM :: int where "SUB_MBIM = 0x0e"
definition SUB_RNDIS_WIRELESS :: int where "SUB_RNDIS_WIRELESS = 0x01"
definition PROTO_VENDOR :: int where "PROTO_VENDOR = 0xff"
definition PROTO_RNDIS :: int where "PROTO_RNDIS = 0x03"

definition QMI_DRIVERS :: "string list" where "QMI_DRIVERS = [''qmi_wwan'']"
definition AT_DRIVERS :: "string list" where "AT_DRIVERS = [''option'', ''qcserial'', ''cdc_acm'']"
definition ECM_NCM_DRIVERS :: "string list" where "ECM_NCM_DRIVERS = [''cdc_ether'', ''cdc_ncm'']"
definition RNDIS_DRIVERS :: "string list" where "RNDIS_DRIVERS = [''rndis_host'']"
definition STORAGE_DRIVERS :: "string list" where "STORAGE_DRIVERS = [''usb-storage'', ''uas'']"

text \<open>\<open>i.driver !== undefined && SET.has(i.driver)\<close>.\<close>

definition driver_in :: "string list \<Rightarrow> usb_interface \<Rightarrow> bool" where
  "driver_in ds i \<longleftrightarrow> (case ui_driver i of None \<Rightarrow> False | Some d \<Rightarrow> d \<in> set ds)"

definition isMbimControl :: "usb_interface \<Rightarrow> bool" where
  "isMbimControl i \<longleftrightarrow> ui_class i = CLASS_COMM \<and> ui_subClass i = SUB_MBIM"

definition isQmiControl :: "usb_interface \<Rightarrow> bool" where
  "isQmiControl i \<longleftrightarrow> ui_class i = CLASS_VENDOR \<and> driver_in QMI_DRIVERS i"

definition isAtControl :: "usb_interface \<Rightarrow> bool" where
  "isAtControl i \<longleftrightarrow>
     (ui_class i = CLASS_COMM \<and> ui_subClass i = SUB_ACM \<and> ui_protocol i \<noteq> PROTO_VENDOR) \<or>
     (ui_class i = CLASS_VENDOR \<and> driver_in AT_DRIVERS i)"

definition isRndis :: "usb_interface \<Rightarrow> bool" where
  "isRndis i \<longleftrightarrow>
     (ui_class i = CLASS_WIRELESS \<and> ui_subClass i = SUB_RNDIS_WIRELESS \<and> ui_protocol i = PROTO_RNDIS) \<or>
     (ui_class i = CLASS_COMM \<and> ui_subClass i = SUB_ACM \<and> ui_protocol i = PROTO_VENDOR) \<or>
     driver_in RNDIS_DRIVERS i"

definition isEcmNcmData :: "usb_interface \<Rightarrow> bool" where
  "isEcmNcmData i \<longleftrightarrow>
     (ui_class i = CLASS_COMM \<and> (ui_subClass i = SUB_ECM \<or> ui_subClass i = SUB_NCM)) \<or>
     driver_in ECM_NCM_DRIVERS i"

definition isMassStorage :: "usb_interface \<Rightarrow> bool" where
  "isMassStorage i \<longleftrightarrow> ui_class i = CLASS_MASS_STORAGE \<or> driver_in STORAGE_DRIVERS i"

definition isVendorSpecific :: "usb_interface \<Rightarrow> bool" where
  "isVendorSpecific i \<longleftrightarrow> ui_class i = CLASS_VENDOR"

definition controlKind :: "usb_interface \<Rightarrow> string" where
  "controlKind i = (if isMbimControl i then ''MBIM'' else if isQmiControl i then ''QMI'' else ''AT'')"

definition is_control :: "usb_interface \<Rightarrow> bool" where
  "is_control i \<longleftrightarrow> isMbimControl i \<or> isQmiControl i \<or> isAtControl i"

section \<open>The device class\<close>

definition modeswitch_flag :: "usb_device \<Rightarrow> bool" where
  "modeswitch_flag d \<longleftrightarrow>
     (case ud_udevProperties d of None \<Rightarrow> False
      | Some ps \<Rightarrow> (case map_of ps ''ID_USB_MODESWITCH'' of None \<Rightarrow> False
                    | Some f \<Rightarrow> f \<noteq> [] \<and> f \<noteq> ''0''))"

definition isModeswitchCandidate :: "usb_device \<Rightarrow> bool" where
  "isModeswitchCandidate d \<longleftrightarrow> modeswitch_flag d \<or>
     (let model = js_lower (case ud_model d of None \<Rightarrow> [] | Some m \<Rightarrow> m) in
      \<exists>marker \<in> set [''cd-rom'', ''installer'', ''zerocd'', ''autoinstall'']. js_includes marker model)"

definition unmanagedReason :: "usb_device \<Rightarrow> bool \<Rightarrow> string" where
  "unmanagedReason d hasStorage =
     (if hasStorage
      then ''mass-storage device with no usb_modeswitch trigger '' @ EM_DASH @ '' not a recognized modem installer''
      else if \<exists>i \<in> set (ud_interfaces d). isVendorSpecific i
      then ''vendor-specific interface(s) with no recognized modem driver '' @ EM_DASH @ '' cannot confidently classify''
      else ''no recognized modem control port, Ethernet tether, or installer interface'')"

definition has_storage :: "usb_device \<Rightarrow> bool" where
  "has_storage d \<longleftrightarrow> (\<exists>i \<in> set (ud_interfaces d). isMassStorage i) \<or> ud_bDeviceClass d = CLASS_MASS_STORAGE"

definition classifyDevice :: "usb_device \<Rightarrow> device_classification" where
  "classifyDevice d =
     (case find is_control (ud_interfaces d) of
        Some control \<Rightarrow> \<lparr>dc_class = MmManaged,
          dc_reason = ''recognized '' @ controlKind control @ '' control interface '' @ EM_DASH @ '' ModemManager-manageable''\<rparr>
      | None \<Rightarrow>
        (case find (\<lambda>i. isRndis i \<or> isEcmNcmData i) (ud_interfaces d) of
           Some tether \<Rightarrow> \<lparr>dc_class = RouterMode,
             dc_reason = (if isRndis tether then ''RNDIS'' else ''ECM/NCM'') @
               '' Ethernet tether with no modem control port '' @ EM_DASH @ '' router-ethernet class, not MM-manageable''\<rparr>
         | None \<Rightarrow>
           (if has_storage d \<and> isModeswitchCandidate d
            then \<lparr>dc_class = PendingModeswitch,
              dc_reason = ''mass-storage installer mode with a usb_modeswitch trigger '' @ EM_DASH @ '' awaiting mode switch''\<rparr>
            else \<lparr>dc_class = Unmanaged, dc_reason = unmanagedReason d (has_storage d)\<rparr>)))"

section \<open>Cellular evidence\<close>

datatype evidence_tier = ModemManagerFcc | MainlineKernel | UsbIdsRegistry

record model_evidence =
  me_vendor :: string
  me_family :: string
  me_tier :: evidence_tier
  me_routerWebui :: bool

definition evidence_row :: "string \<Rightarrow> string \<Rightarrow> string \<Rightarrow> evidence_tier \<Rightarrow> string \<times> model_evidence" where
  "evidence_row usb_id vendor family tier =
     (usb_id, \<lparr>me_vendor = vendor, me_family = family, me_tier = tier, me_routerWebui = False\<rparr>)"

definition CELLULAR_USB_MODEL_ROWS :: "(string \<times> model_evidence) list" where
  "CELLULAR_USB_MODEL_ROWS = [
     evidence_row ''03f0:4e1d'' ''Sierra Wireless'' ''EM74xx'' ModemManagerFcc,
     evidence_row ''1199:9071'' ''Sierra Wireless'' ''EM74xx'' MainlineKernel,
     evidence_row ''1199:9079'' ''Sierra Wireless'' ''EM74xx'' ModemManagerFcc,
     evidence_row ''1199:907b'' ''Sierra Wireless'' ''EM74xx'' MainlineKernel,
     evidence_row ''1199:9091'' ''Sierra Wireless'' ''EM75xx'' MainlineKernel,
     evidence_row ''1199:90d3'' ''Sierra Wireless'' ''EM919x'' MainlineKernel,
     evidence_row ''1199:c081'' ''Sierra Wireless'' ''EM75xx'' MainlineKernel,
     evidence_row ''413c:81a3'' ''Sierra Wireless'' ''EM74xx'' ModemManagerFcc,
     evidence_row ''413c:81a8'' ''Sierra Wireless'' ''EM74xx'' ModemManagerFcc,
     evidence_row ''1bc7:1031'' ''Telit'' ''LE910C1-EUX'' MainlineKernel,
     evidence_row ''1bc7:1034'' ''Telit'' ''LE910C4-WWX'' MainlineKernel,
     evidence_row ''1bc7:1040'' ''Telit'' ''LE922A'' MainlineKernel,
     evidence_row ''1bc7:1050'' ''Telit'' ''FN980'' MainlineKernel,
     evidence_row ''1bc7:1060'' ''Telit'' ''LN920'' MainlineKernel,
     evidence_row ''1bc7:1070'' ''Telit'' ''FN990A'' MainlineKernel,
     evidence_row ''1bc7:1080'' ''Telit'' ''FE990A'' MainlineKernel,
     evidence_row ''1bc7:10a0'' ''Telit'' ''FN920C04'' MainlineKernel,
     evidence_row ''1bc7:1100'' ''Telit'' ''ME910'' MainlineKernel,
     evidence_row ''1bc7:1200'' ''Telit'' ''LE920'' MainlineKernel,
     evidence_row ''1546:1311'' ''u-blox'' ''LARA-R6'' MainlineKernel,
     evidence_row ''1546:1312'' ''u-blox'' ''LARA-R6'' MainlineKernel,
     evidence_row ''1546:1313'' ''u-blox'' ''LARA-R6'' MainlineKernel,
     evidence_row ''1546:1341'' ''u-blox'' ''LARA-L6'' MainlineKernel,
     evidence_row ''1546:1342'' ''u-blox'' ''LARA-L6'' MainlineKernel,
     evidence_row ''1546:1343'' ''u-blox'' ''LARA-L6'' MainlineKernel,
     (''0846:68e1'', \<lparr>me_vendor = ''NETGEAR'', me_family = ''LB1120'', me_tier = UsbIdsRegistry, me_routerWebui = True\<rparr>)]"

definition CELLULAR_USB_VENDOR_IDS :: "(string \<times> string) list" where
  "CELLULAR_USB_VENDOR_IDS = [(''05c6'', ''Qualcomm''), (''0af0'', ''Option''),
     (''1199'', ''Sierra Wireless''), (''12d1'', ''Huawei''), (''1546'', ''u-blox''), (''19d2'', ''ZTE''),
     (''1bbb'', ''TCL/Alcatel''), (''1bc7'', ''Telit''), (''1c9e'', ''Longcheer''), (''1e0e'', ''SIMCom''),
     (''2c7c'', ''Quectel''), (''2cb7'', ''Fibocom''), (''413c'', ''Dell'')]"

definition cellularVendorName :: "string \<Rightarrow> string option" where
  "cellularVendorName vendorId = map_of CELLULAR_USB_VENDOR_IDS (js_lower vendorId)"

definition cellularModelEvidence :: "usb_device \<Rightarrow> model_evidence option" where
  "cellularModelEvidence d = map_of CELLULAR_USB_MODEL_ROWS (js_lower (ud_vendorId d @ '':'' @ ud_productId d))"

definition cellularEvidence :: "usb_device \<Rightarrow> string option" where
  "cellularEvidence d =
     (case cellularVendorName (ud_vendorId d) of
        Some vendor \<Rightarrow> Some (''USB vendor '' @ ud_vendorId d @ '' is '' @ vendor @ '', a cellular-module vendor'')
      | None \<Rightarrow>
          if modeswitch_flag d
          then Some (''device carries a usb_modeswitch trigger '' @ EM_DASH @ '' a mode-switching dongle'')
          else if \<exists>i \<in> set (ud_interfaces d). isMassStorage i
          then Some (''device also presents a mass-storage installer interface '' @ EM_DASH @
                     '' the ZeroCD personality of a router-mode dongle'')
          else None)"

definition classifyUsbNetDevice :: "usb_device \<Rightarrow> usb_net_classification" where
  "classifyUsbNetDevice d =
     (case find is_control (ud_interfaces d) of
        Some control \<Rightarrow> \<lparr>nc_class = NetMmManaged,
          nc_reason = ''recognized '' @ controlKind control @ '' control interface '' @ EM_DASH @ '' ModemManager-manageable''\<rparr>
      | None \<Rightarrow>
        (case find (\<lambda>i. isRndis i \<or> isEcmNcmData i \<or> ui_class i = CLASS_CDC_DATA) (ud_interfaces d) of
           Some tether \<Rightarrow>
             (let kind = (if isRndis tether then ''RNDIS'' else ''ECM/NCM'') in
              case cellularEvidence d of
                None \<Rightarrow> \<lparr>nc_class = WiredEthernet,
                  nc_reason = kind @ '' Ethernet tether with no modem control port and no cellular evidence '' @
                    EM_DASH @ '' a USB network adapter''\<rparr>
              | Some evidence \<Rightarrow> \<lparr>nc_class = RouterCellular,
                  nc_reason = kind @ '' Ethernet tether with no modem control port; '' @ evidence\<rparr>)
         | None \<Rightarrow> \<lparr>nc_class = NetUnknown, nc_reason = unmanagedReason d (has_storage d)\<rparr>))"

section \<open>Labels\<close>

definition trimmed :: "string option \<Rightarrow> string option" where
  "trimmed = map_option js_trim"

definition publishesGenericIdentity :: "usb_device \<Rightarrow> bool" where
  "publishesGenericIdentity d \<longleftrightarrow>
     (case (trimmed (ud_manufacturer d), trimmed (ud_product d)) of
        (Some m, Some p) \<Rightarrow> m \<noteq> [] \<and> p \<noteq> [] \<and> js_lower m = js_lower p
      | _ \<Rightarrow> False)"

text \<open>\<open>published && !publishesGenericIdentity(device)\<close>.\<close>

definition specific_label :: "usb_device \<Rightarrow> string option \<Rightarrow> string option" where
  "specific_label d published =
     (case published of None \<Rightarrow> None
      | Some s \<Rightarrow> if s \<noteq> [] \<and> \<not> publishesGenericIdentity d then Some s else None)"

definition vendorLabel :: "usb_device \<Rightarrow> string" where
  "vendorLabel d =
     (case specific_label d (trimmed (ud_manufacturer d)) of
        Some s \<Rightarrow> s
      | None \<Rightarrow> (case cellularVendorName (ud_vendorId d) of
          Some v \<Rightarrow> v
        | None \<Rightarrow> (case trimmed (ud_databaseVendor d) of Some v \<Rightarrow> v | None \<Rightarrow> ud_vendorId d)))"

definition modelLabel :: "usb_device \<Rightarrow> string" where
  "modelLabel d =
     (case specific_label d (trimmed (ud_product d)) of
        Some s \<Rightarrow> s
      | None \<Rightarrow> (case trimmed (ud_databaseModel d) of Some m \<Rightarrow> m | None \<Rightarrow> ud_productId d))"

definition unitDiscriminator :: "usb_device \<Rightarrow> string option" where
  "unitDiscriminator d =
     (case trimmed (ud_serialNumber d) of
        None \<Rightarrow> None
      | Some serial \<Rightarrow>
          if serial = [] then None
          else if map_option js_lower (trimmed (ud_manufacturer d)) = Some (js_lower serial) \<or>
                  map_option js_lower (trimmed (ud_product d)) = Some (js_lower serial) then None
          else Some serial)"

section \<open>The composition mode and the descriptors\<close>

definition detectUsbMode :: "usb_device \<Rightarrow> canonical_usb_mode option" where
  "detectUsbMode d =
     (let ifaces = set (ud_interfaces d) in
      if \<exists>i \<in> ifaces. isMbimControl i then Some Mbim
      else if \<exists>i \<in> ifaces. isRndis i then Some Rndis
      else if \<exists>i \<in> ifaces. isEcmNcmData i
        then Some (if \<exists>i \<in> ifaces. isAtControl i \<or> isVendorSpecific i then EcmNcm else RouterEthernet)
      else if \<exists>i \<in> ifaces. isQmiControl i \<or> isVendorSpecific i then Some Qmi
      else None)"

definition descriptorsMatch :: "usb_device \<Rightarrow> expected_descriptors \<Rightarrow> bool" where
  "descriptorsMatch d expected \<longleftrightarrow>
     ud_bDeviceClass d = ed_deviceClass expected \<and>
     (\<forall>e \<in> set (ed_interfaces expected). \<exists>i \<in> set (ud_interfaces d).
        ui_class i = it_class e \<and> ui_subClass i = it_subClass e \<and> ui_protocol i = it_protocol e)"

section \<open>Facts about the classes\<close>

lemma find_None: "find P xs = None \<longleftrightarrow> (\<forall>x \<in> set xs. \<not> P x)"
  by (auto simp: find_None_iff)

lemma find_SomeD: "find P xs = Some x \<Longrightarrow> x \<in> set xs \<and> P x"
  by (auto simp: find_Some_iff)

definition has_control :: "usb_device \<Rightarrow> bool" where
  "has_control d \<longleftrightarrow> (\<exists>i \<in> set (ud_interfaces d). is_control i)"

definition has_tether :: "usb_device \<Rightarrow> bool" where
  "has_tether d \<longleftrightarrow> (\<exists>i \<in> set (ud_interfaces d). isRndis i \<or> isEcmNcmData i)"

lemma classifyDevice_class:
  "dc_class (classifyDevice d) =
     (if has_control d then MmManaged else if has_tether d then RouterMode
      else if has_storage d \<and> isModeswitchCandidate d then PendingModeswitch else Unmanaged)"
  by (auto simp: classifyDevice_def has_control_def has_tether_def find_None split: option.split
      dest: find_SomeD)

lemma classifyUsbNetDevice_class:
  "nc_class (classifyUsbNetDevice d) =
     (if has_control d then NetMmManaged
      else if has_tether d \<or> (\<exists>i \<in> set (ud_interfaces d). ui_class i = CLASS_CDC_DATA)
      then (if cellularEvidence d = None then WiredEthernet else RouterCellular)
      else NetUnknown)"
  by (auto simp: classifyUsbNetDevice_def has_control_def has_tether_def find_None Let_def
      split: option.split dest: find_SomeD)

lemma classifyDevice_frame:
  assumes "ud_interfaces d' = ud_interfaces d" and "ud_bDeviceClass d' = ud_bDeviceClass d"
    and "ud_model d' = ud_model d" and "ud_udevProperties d' = ud_udevProperties d"
  shows "classifyDevice d' = classifyDevice d"
proof -
  have "has_storage d' = has_storage d" "isModeswitchCandidate d' = isModeswitchCandidate d"
      "\<And>b. unmanagedReason d' b = unmanagedReason d b"
    by (simp_all only: has_storage_def isModeswitchCandidate_def modeswitch_flag_def unmanagedReason_def assms)
  then show ?thesis by (simp only: classifyDevice_def assms)
qed

lemma mbim_is_control: "isMbimControl i \<Longrightarrow> is_control i"
  by (simp add: is_control_def)

lemma router_ethernet_no_control:
  assumes "detectUsbMode d = Some RouterEthernet"
  shows "\<not> has_control d \<and> has_tether d"
  using assms
  by (auto simp: detectUsbMode_def Let_def has_control_def has_tether_def is_control_def isVendorSpecific_def
      isQmiControl_def split: if_splits)

text \<open>A device with no composition signature has at most a bare CDC-ACM port.\<close>

lemma no_mode_control_is_at:
  assumes "detectUsbMode d = None" and "i \<in> set (ud_interfaces d)" and "is_control i"
  shows "ui_class i = CLASS_COMM \<and> ui_subClass i = SUB_ACM"
  using assms
  by (auto simp: detectUsbMode_def Let_def is_control_def isAtControl_def isVendorSpecific_def isQmiControl_def
      split: if_splits)

section \<open>Properties\<close>

text \<open>The class of a device is decided by its live interfaces alone: it is mm-managed exactly when some interface is a recognised control port, router-mode exactly when there is none but a network tether, pending-modeswitch only for storage with a switch trigger, and the vendor id, product id, labels and topology never matter.\<close>

theorem class_from_live_evidence:
  "(dc_class (classifyDevice d) = MmManaged \<longleftrightarrow> has_control d) \<and>
   (dc_class (classifyDevice d) = RouterMode \<longleftrightarrow> \<not> has_control d \<and> has_tether d) \<and>
   (dc_class (classifyDevice d) = PendingModeswitch \<longleftrightarrow>
      \<not> has_control d \<and> \<not> has_tether d \<and> has_storage d \<and> isModeswitchCandidate d) \<and>
   classifyDevice (d\<lparr>ud_vendorId := v, ud_productId := p, ud_manufacturer := mf, ud_product := pr,
     ud_databaseVendor := dv, ud_databaseModel := dm, ud_serialNumber := sn, ud_physicalUid := u,
     ud_sysfsPath := sp, ud_ifname := n, ud_firmwareRevision := fw\<rparr>) = classifyDevice d"
  by (intro conjI classifyDevice_frame) (simp_all add: classifyDevice_class)

text \<open>The two classifiers and the mode detector agree: both classifiers find a ModemManager device or neither does, a router-mode device is a cellular router exactly when there is cellular evidence and else a wired adapter, an MBIM composition is always mm-managed, a router-ethernet composition never is, and a device with no detectable mode is mm-managed only through a CDC-ACM port.\<close>

theorem classifiers_agree:
  "(nc_class (classifyUsbNetDevice d) = NetMmManaged \<longleftrightarrow> dc_class (classifyDevice d) = MmManaged) \<and>
   (dc_class (classifyDevice d) = RouterMode \<longrightarrow>
      nc_class (classifyUsbNetDevice d) = (if cellularEvidence d = None then WiredEthernet else RouterCellular)) \<and>
   (detectUsbMode d = Some Mbim \<longrightarrow> dc_class (classifyDevice d) = MmManaged) \<and>
   (detectUsbMode d = Some RouterEthernet \<longrightarrow> dc_class (classifyDevice d) = RouterMode) \<and>
   (detectUsbMode d = None \<longrightarrow> dc_class (classifyDevice d) = MmManaged \<longrightarrow>
      (\<exists>i \<in> set (ud_interfaces d). ui_class i = CLASS_COMM \<and> ui_subClass i = SUB_ACM))"
proof (intro conjI impI)
  assume "detectUsbMode d = Some Mbim"
  then show "dc_class (classifyDevice d) = MmManaged"
    using mbim_is_control by (fastforce simp: classifyDevice_class has_control_def detectUsbMode_def Let_def split: if_splits)
next
  assume "detectUsbMode d = Some RouterEthernet"
  then show "dc_class (classifyDevice d) = RouterMode"
    using router_ethernet_no_control by (simp add: classifyDevice_class)
next
  assume "detectUsbMode d = None" "dc_class (classifyDevice d) = MmManaged"
  then show "\<exists>i \<in> set (ud_interfaces d). ui_class i = CLASS_COMM \<and> ui_subClass i = SUB_ACM"
    using no_mode_control_is_at by (auto simp: classifyDevice_class has_control_def split: if_splits)
qed (auto simp: classifyDevice_class classifyUsbNetDevice_class split: if_splits)

definition sample_device :: usb_device where
  "sample_device = \<lparr>ud_vendorId = ''2c7c'', ud_productId = ''0125'', ud_model = None, ud_firmwareRevision = None,
     ud_manufacturer = Some ''Quectel'', ud_product = Some ''RM530N'', ud_databaseVendor = None, ud_databaseModel = None,
     ud_serialNumber = Some ''quectel '', ud_bDeviceClass = 0,
     ud_interfaces = [\<lparr>ui_class = 2, ui_subClass = 14, ui_protocol = 0, ui_driver = Some ''cdc_mbim''\<rparr>,
                      \<lparr>ui_class = 10, ui_subClass = 0, ui_protocol = 2, ui_driver = None\<rparr>],
     ud_physicalUid = Some ''usb-1-2'', ud_sysfsPath = None, ud_ifname = Some ''wwan0'', ud_udevProperties = None\<rparr>"

lemma classifiers_agree_witness: "dc_class (classifyDevice sample_device) = MmManaged"
proof -
  have "detectUsbMode sample_device = Some Mbim" by code_simp
  with classifiers_agree [of sample_device] show ?thesis by simp
qed

lemma sample_labels:
  "vendorLabel sample_device = ''Quectel'' \<and> modelLabel sample_device = ''RM530N'' \<and>
   unitDiscriminator sample_device = None"
  by code_simp

end
