(* ===== verification/Usb_Catalog.thy ===== *)
theory Usb_Catalog
  imports Device_Classifier
begin

text \<open>
  The certified USB-mode catalog (\<open>usb-mode/catalog-schema.ts\<close>, \<open>usb-mode/catalog.ts\<close>): its types, the
  checks of the schema as a predicate on a typed value (the strict-object checks are the records'
  fields), the shipped catalog and the lookups.
\<close>

section \<open>The schema\<close>

definition CANONICAL_USB_MODES :: "canonical_usb_mode list" where
  "CANONICAL_USB_MODES = [Qmi, Mbim, EcmNcm, Rndis, RouterEthernet]"

definition MM_USB_MODES :: "canonical_usb_mode list" where
  "MM_USB_MODES = [Qmi, Mbim, EcmNcm]"

fun mode_text :: "canonical_usb_mode \<Rightarrow> string" where
  "mode_text Qmi = ''qmi''"
| "mode_text Mbim = ''mbim''"
| "mode_text EcmNcm = ''ecm-ncm''"
| "mode_text Rndis = ''rndis''"
| "mode_text RouterEthernet = ''router-ethernet''"

record permitted_transition =
  pt_from :: canonical_usb_mode
  pt_to :: canonical_usb_mode
  pt_atCommand :: string
  pt_applyCommand :: "string option"
  pt_expectedResponse :: string
  pt_expectsPortDrop :: bool
  pt_expectedDescriptors :: expected_descriptors
  pt_evidenceBundleSha256 :: "string option"

record catalog_entry =
  ce_vidPid :: string
  ce_model :: string
  ce_firmwarePrefix :: string
  ce_canonicalMode :: canonical_usb_mode
  ce_permittedTransitions :: "permitted_transition list"

record certified_catalog =
  cc_schemaVersion :: int
  cc_entries :: "catalog_entry list"

record sku_discriminator =
  sku_vidPid :: string
  sku_model :: string
  sku_firmwarePrefix :: string

definition usbByte_ok :: "int \<Rightarrow> bool" where
  "usbByte_ok n \<longleftrightarrow> 0 \<le> n \<and> n \<le> 255"

definition expectedDescriptors_ok :: "expected_descriptors \<Rightarrow> bool" where
  "expectedDescriptors_ok d \<longleftrightarrow> usbByte_ok (ed_deviceClass d) \<and> ed_interfaces d \<noteq> [] \<and>
     (\<forall>i \<in> set (ed_interfaces d). usbByte_ok (it_class i) \<and> usbByte_ok (it_subClass i) \<and> usbByte_ok (it_protocol i))"

definition permittedTransition_ok :: "permitted_transition \<Rightarrow> bool" where
  "permittedTransition_ok t \<longleftrightarrow>
     pt_from t \<in> set MM_USB_MODES \<and> pt_to t \<in> set MM_USB_MODES \<and>
     pt_atCommand t \<noteq> [] \<and> pt_applyCommand t \<noteq> Some [] \<and> pt_expectedResponse t \<noteq> [] \<and>
     expectedDescriptors_ok (pt_expectedDescriptors t) \<and>
     (case pt_evidenceBundleSha256 t of None \<Rightarrow> True
      | Some h \<Rightarrow> length h = 64 \<and> list_all is_lower_hex h) \<and>
     pt_from t \<noteq> pt_to t"

definition vidPid_ok :: "string \<Rightarrow> bool" where
  "vidPid_ok s \<longleftrightarrow> hex_pair s"

definition catalogEntry_ok :: "catalog_entry \<Rightarrow> bool" where
  "catalogEntry_ok e \<longleftrightarrow>
     vidPid_ok (ce_vidPid e) \<and> ce_model e \<noteq> [] \<and> ce_firmwarePrefix e \<noteq> [] \<and>
     ce_canonicalMode e \<in> set CANONICAL_USB_MODES \<and>
     list_all permittedTransition_ok (ce_permittedTransitions e) \<and>
     (ce_permittedTransitions e = [] \<or> ce_canonicalMode e \<in> set MM_USB_MODES)"

definition certifiedCatalog_ok :: "certified_catalog \<Rightarrow> bool" where
  "certifiedCatalog_ok c \<longleftrightarrow> cc_schemaVersion c = 1 \<and> list_all catalogEntry_ok (cc_entries c)"

definition loadCertifiedCatalog :: "certified_catalog \<Rightarrow> certified_catalog option" where
  "loadCertifiedCatalog c = (if certifiedCatalog_ok c then Some c else None)"

section \<open>The shipped catalog and the lookups\<close>

definition shipped_transition ::
  "canonical_usb_mode \<Rightarrow> canonical_usb_mode \<Rightarrow> string \<Rightarrow> interface_triple list \<Rightarrow> permitted_transition" where
  "shipped_transition from_mode to_mode command ifaces =
     \<lparr>pt_from = from_mode, pt_to = to_mode, pt_atCommand = command, pt_applyCommand = None,
      pt_expectedResponse = ''OK'', pt_expectsPortDrop = True,
      pt_expectedDescriptors = \<lparr>ed_deviceClass = 0, ed_interfaces = ifaces\<rparr>,
      pt_evidenceBundleSha256 = None\<rparr>"

definition triple_of :: "int \<Rightarrow> int \<Rightarrow> int \<Rightarrow> interface_triple" where
  "triple_of c s p = \<lparr>it_class = c, it_subClass = s, it_protocol = p\<rparr>"

definition QUOT :: string where "QUOT = [CHR 0x22]"

definition qcfg_usbnet :: "string \<Rightarrow> string" where
  "qcfg_usbnet n = ''AT+QCFG='' @ QUOT @ ''usbnet'' @ QUOT @ '','' @ n"

definition CERTIFIED_CATALOG :: certified_catalog where
  "CERTIFIED_CATALOG = \<lparr>cc_schemaVersion = 1, cc_entries = [
     \<lparr>ce_vidPid = ''2c7c:0125'', ce_model = ''CERALIVE-SYNTHETIC-TEST-SKU'',
      ce_firmwarePrefix = ''SYNTHETICFW01'', ce_canonicalMode = Qmi,
      ce_permittedTransitions = [
        shipped_transition Qmi Mbim (qcfg_usbnet ''2'') [triple_of 2 14 0, triple_of 10 0 2],
        shipped_transition Mbim Qmi (qcfg_usbnet ''0'') [triple_of 255 255 255],
        shipped_transition Qmi EcmNcm (qcfg_usbnet ''1'') [triple_of 2 6 0, triple_of 255 255 255],
        shipped_transition EcmNcm Qmi (qcfg_usbnet ''0'') [triple_of 255 255 255]]\<rparr>]\<rparr>"

definition findCatalogEntry :: "certified_catalog \<Rightarrow> sku_discriminator \<Rightarrow> catalog_entry option" where
  "findCatalogEntry catalog sku =
     find (\<lambda>e. ce_vidPid e = sku_vidPid sku \<and> ce_model e = sku_model sku \<and>
               ce_firmwarePrefix e = sku_firmwarePrefix sku) (cc_entries catalog)"

definition findPermittedTransition ::
  "catalog_entry \<Rightarrow> canonical_usb_mode \<Rightarrow> canonical_usb_mode \<Rightarrow> permitted_transition option" where
  "findPermittedTransition entry from_mode to_mode =
     find (\<lambda>t. pt_from t = from_mode \<and> pt_to t = to_mode) (ce_permittedTransitions entry)"

section \<open>Facts about the lookups\<close>

lemma shipped_catalog_ok: "certifiedCatalog_ok CERTIFIED_CATALOG"
  by code_simp

lemma findCatalogEntry_SomeD:
  "findCatalogEntry c sku = Some e \<Longrightarrow>
     e \<in> set (cc_entries c) \<and> ce_vidPid e = sku_vidPid sku \<and> ce_model e = sku_model sku \<and>
     ce_firmwarePrefix e = sku_firmwarePrefix sku"
  by (auto simp: findCatalogEntry_def dest: find_SomeD)

lemma findPermittedTransition_SomeD:
  "findPermittedTransition e f t = Some tr \<Longrightarrow>
     tr \<in> set (ce_permittedTransitions e) \<and> pt_from tr = f \<and> pt_to tr = t"
  by (auto simp: findPermittedTransition_def dest: find_SomeD)

text \<open>A valid catalog never crosses the line between ModemManager modes and router modes.\<close>

lemma catalog_transition_ok:
  assumes "certifiedCatalog_ok c" and "e \<in> set (cc_entries c)" and "t \<in> set (ce_permittedTransitions e)"
  shows "permittedTransition_ok t"
  using assms by (auto simp: certifiedCatalog_ok_def catalogEntry_ok_def list_all_iff)

end
