(* ===== verification/Runtime_Composition.thy ===== *)
theory Runtime_Composition
  imports Usb_Catalog
begin

text \<open>
  Composition modes read from the device itself (\<open>usb-mode/runtime-capability.ts\<close>): the vendor
  registries of queries and set commands, the parsers of the responses, and the capability that
  is derived from them. The multi-line regular expressions are written as matchers over the line
  starts of a response; a digit string is read as the double nearest to it, with \<open>2 ^ 1024\<close>
  standing for Infinity.
\<close>

section \<open>Numbers and lines\<close>

function bit_len :: "int \<Rightarrow> nat" where
  "bit_len n = (if n \<le> 0 then 0 else Suc (bit_len (n div 2)))"
  by pat_completeness auto
termination
  by (relation "measure nat") auto

declare bit_len.simps [simp del]

definition nearest_double :: "int \<Rightarrow> int" where
  "nearest_double n =
     (if n \<le> MAX_SAFE_INTEGER then n
      else let k = bit_len n - 53; q = n div 2 ^ k; r = n mod 2 ^ k; half = 2 ^ k div 2;
               q' = (if half < r \<or> r = half \<and> odd q then q + 1 else q)
           in min (q' * 2 ^ k) (2 ^ 1024))"

definition int_of_digits :: "string \<Rightarrow> int" where
  "int_of_digits s = foldl (\<lambda>n c. 10 * n + int (digit_val c)) 0 s"

definition number_of_digits :: "string \<Rightarrow> int" where
  "number_of_digits digits = nearest_double (int_of_digits digits)"

definition is_lt :: "char \<Rightarrow> bool" where
  "is_lt c \<longleftrightarrow> c = CHR 0x0A \<or> c = CHR 0x0D"

fun after_terminators :: "string \<Rightarrow> string list" where
  "after_terminators [] = []"
| "after_terminators (c # s) = (if is_lt c then [s] else []) @ after_terminators s"

definition line_starts :: "string \<Rightarrow> string list" where
  "line_starts s = s # after_terminators s"

fun first_match :: "('a \<Rightarrow> 'b option) \<Rightarrow> 'a list \<Rightarrow> 'b option" where
  "first_match f [] = None"
| "first_match f (x # xs) = (case f x of Some y \<Rightarrow> Some y | None \<Rightarrow> first_match f xs)"

definition skip_ws :: "string \<Rightarrow> string" where "skip_ws = dropWhile is_space"

definition eat :: "string \<Rightarrow> string \<Rightarrow> string option" where
  "eat lit s = (if prefix lit s then Some (drop (length lit) s) else None)"

text \<open>\<open>\s*$\<close>: white space up to a line end.\<close>

definition ws_eol :: "string \<Rightarrow> bool" where
  "ws_eol s \<longleftrightarrow> (let ws = takeWhile is_space s in ws = s \<or> (\<exists>c \<in> set ws. is_lt c))"

text \<open>\<open>(\d+)\<close> and \<open>\(([^)]+)\)\<close>.\<close>

definition eat_digits :: "string \<Rightarrow> (string \<times> string) option" where
  "eat_digits s = (let d = takeWhile is_digit s in if d = [] then None else Some (d, drop (length d) s))"

definition eat_group :: "string \<Rightarrow> (string \<times> string) option" where
  "eat_group s =
     (case eat ''('' s of None \<Rightarrow> None
      | Some r \<Rightarrow> (let body = takeWhile (\<lambda>c. c \<noteq> CHR '')'') r; rest = drop (length body) r in
                  if body = [] \<or> rest = [] then None else Some (body, tl rest)))"

definition is_hex :: "char \<Rightarrow> bool" where
  "is_hex c \<longleftrightarrow> c \<in> set ''0123456789abcdefABCDEF''"

definition is_upper_hex :: "char \<Rightarrow> bool" where
  "is_upper_hex c \<longleftrightarrow> c \<in> set ''0123456789ABCDEF''"

section \<open>Vendors, queries and set commands\<close>

datatype composition_vendor = Fibocom | QuectelVendor | Simcom | Sierra

datatype composition_mode = ModeNumber int | ModeText string

fun vendor_text :: "composition_vendor \<Rightarrow> string" where
  "vendor_text Fibocom = ''fibocom''"
| "vendor_text QuectelVendor = ''quectel''"
| "vendor_text Simcom = ''simcom''"
| "vendor_text Sierra = ''sierra''"

definition RUNTIME_COMPOSITION_VENDORS :: "composition_vendor list" where
  "RUNTIME_COMPOSITION_VENDORS = [Fibocom, QuectelVendor, Simcom, Sierra]"

text \<open>\<open>isRuntimeCompositionVendor\<close>, with the vendor it narrows to.\<close>

definition vendor_of :: "string \<Rightarrow> composition_vendor option" where
  "vendor_of s = find (\<lambda>v. vendor_text v = s) RUNTIME_COMPOSITION_VENDORS"

fun query_current :: "composition_vendor \<Rightarrow> string" where
  "query_current Fibocom = ''AT+GTUSBMODE?''"
| "query_current QuectelVendor = ''AT+QCFG='' @ QUOT @ ''usbnet'' @ QUOT"
| "query_current Simcom = ''AT+CUSBPIDSWITCH?''"
| "query_current Sierra = ''AT!USBCOMP?''"

fun query_enumerate :: "composition_vendor \<Rightarrow> string" where
  "query_enumerate Fibocom = ''AT+GTUSBMODE=?''"
| "query_enumerate QuectelVendor = ''AT+QCFG=?''"
| "query_enumerate Simcom = ''AT+CUSBPIDSWITCH=?''"
| "query_enumerate Sierra = ''AT!USBCOMP=?''"

definition decimalSetCommand :: "string \<Rightarrow> composition_mode \<Rightarrow> string option" where
  "decimalSetCommand pre target =
     (case target of ModeNumber n \<Rightarrow> if isSafeInteger n \<and> 0 \<le> n then Some (pre @ show_int n) else None
      | ModeText _ \<Rightarrow> None)"

fun set_command :: "composition_vendor \<Rightarrow> composition_mode \<Rightarrow> string option" where
  "set_command Fibocom t = decimalSetCommand ''AT+GTUSBMODE='' t"
| "set_command QuectelVendor t = decimalSetCommand (''AT+QCFG='' @ QUOT @ ''usbnet'' @ QUOT @ '','') t"
| "set_command Simcom t =
     (case t of ModeText s \<Rightarrow> if length s = 4 \<and> list_all is_hex s
                              then Some (''AT+CUSBPIDSWITCH='' @ js_upper s @ '',1,1'') else None
      | ModeNumber _ \<Rightarrow> None)"
| "set_command Sierra t = decimalSetCommand ''AT!USBCOMP='' t"

definition buildRuntimeCompositionSetCommand :: "string \<Rightarrow> composition_mode \<Rightarrow> string option" where
  "buildRuntimeCompositionSetCommand vendor target =
     (case vendor_of (js_lower (js_trim vendor)) of None \<Rightarrow> None | Some v \<Rightarrow> set_command v target)"

section \<open>Parsing the responses\<close>

record composition_response =
  cr_vendor :: string
  cr_currentResponse :: string
  cr_enumerationResponse :: string

record parsed_capability =
  pc_current :: composition_mode
  pc_enumerated :: "composition_mode list"

fun parse_domain_members :: "string list \<Rightarrow> int list \<Rightarrow> int list option" where
  "parse_domain_members [] vs = (if vs \<noteq> [] \<and> distinct vs then Some vs else None)"
| "parse_domain_members (m # ms) vs =
     (let token = js_trim m in
      case js_split CHR ''-'' token of
        [a, b] \<Rightarrow>
          if a \<noteq> [] \<and> b \<noteq> [] \<and> list_all is_digit a \<and> list_all is_digit b
          then let start = number_of_digits a; stop = number_of_digits b in
            if \<not> isSafeInteger start \<or> \<not> isSafeInteger stop \<or> start > stop \<or> stop - start > 255 then None
            else parse_domain_members ms (vs @ [start..stop])
          else None
      | _ \<Rightarrow>
          if token = [] \<or> \<not> list_all is_digit token then None
          else let v = number_of_digits token in
            if \<not> isSafeInteger v then None else parse_domain_members ms (vs @ [v]))"

definition parseDecimalDomain :: "string \<Rightarrow> int list option" where
  "parseDecimalDomain domain = parse_domain_members (js_split CHR '','' domain) []"

text \<open>\<open>^\s*<tag>\s*(\d+)\s*$\<close> and \<open>^\s*<tag>\s*\(([^)]+)\)\s*$\<close>, the tag being given by its matcher.\<close>

definition line_number :: "(string \<Rightarrow> string option) \<Rightarrow> string \<Rightarrow> string option" where
  "line_number tag s = first_match (\<lambda>l.
     case tag (skip_ws l) of None \<Rightarrow> None
     | Some r \<Rightarrow> (case eat_digits (skip_ws r) of None \<Rightarrow> None
        | Some (d, rest) \<Rightarrow> if ws_eol rest then Some d else None)) (line_starts s)"

definition line_group :: "(string \<Rightarrow> string option) \<Rightarrow> string \<Rightarrow> string option" where
  "line_group tag s = first_match (\<lambda>l.
     case tag (skip_ws l) of None \<Rightarrow> None
     | Some r \<Rightarrow> (case eat_group (skip_ws r) of None \<Rightarrow> None
        | Some (g, rest) \<Rightarrow> if ws_eol rest then Some g else None)) (line_starts s)"

definition fibocom_tag :: "string \<Rightarrow> string option" where "fibocom_tag = eat ''+GTUSBMODE:''"

text \<open>\<open>\+QCFG:\s*"usbnet"\s*,\<close>.\<close>

definition quectel_tag :: "string \<Rightarrow> string option" where
  "quectel_tag s =
     (case eat ''+QCFG:'' s of None \<Rightarrow> None
      | Some r \<Rightarrow> (case eat (QUOT @ ''usbnet'' @ QUOT) (skip_ws r) of None \<Rightarrow> None
         | Some r' \<Rightarrow> eat '','' (skip_ws r')))"

definition number_modes :: "int list \<Rightarrow> composition_mode list" where
  "number_modes = map ModeNumber"

definition parse_numeric :: "(string \<Rightarrow> string option) \<Rightarrow> composition_response \<Rightarrow> parsed_capability option" where
  "parse_numeric tag input =
     (case (line_number tag (cr_currentResponse input), line_group tag (cr_enumerationResponse input)) of
        (Some d, Some g) \<Rightarrow> (case parseDecimalDomain g of None \<Rightarrow> None
           | Some vs \<Rightarrow> Some \<lparr>pc_current = ModeNumber (number_of_digits d), pc_enumerated = number_modes vs\<rparr>)
      | _ \<Rightarrow> None)"

definition parseFibocom :: "composition_response \<Rightarrow> parsed_capability option" where
  "parseFibocom = parse_numeric fibocom_tag"

definition parseQuectel :: "composition_response \<Rightarrow> parsed_capability option" where
  "parseQuectel = parse_numeric quectel_tag"

text \<open>The current mode of a SIMCom modem: \<open>^\s*\+CUSBPIDSWITCH:\s*([0-9A-Fa-f]{4})\s*$\<close>.\<close>

definition simcom_current :: "string \<Rightarrow> string option" where
  "simcom_current s = first_match (\<lambda>l.
     case eat ''+CUSBPIDSWITCH:'' (skip_ws l) of None \<Rightarrow> None
     | Some r \<Rightarrow> (let v = take 4 (skip_ws r); rest = drop 4 (skip_ws r) in
         if length v = 4 \<and> list_all is_hex v \<and> ws_eol rest then Some v else None)) (line_starts s)"

text \<open>Its enumeration, which may start anywhere: the group before \<open>, (0-1), (0-1)\<close>.\<close>

definition eat_zero_one :: "string \<Rightarrow> string option" where
  "eat_zero_one s =
     (case eat '','' (skip_ws s) of None \<Rightarrow> None | Some r \<Rightarrow> eat ''(0-1)'' (skip_ws r))"

definition simcom_enumeration :: "string \<Rightarrow> string option" where
  "simcom_enumeration s = first_match (\<lambda>l.
     case eat ''+CUSBPIDSWITCH:'' l of None \<Rightarrow> None
     | Some r \<Rightarrow> (case eat_group (skip_ws r) of None \<Rightarrow> None
        | Some (g, rest) \<Rightarrow> (case eat_zero_one rest of None \<Rightarrow> None
           | Some rest' \<Rightarrow> (case eat_zero_one rest' of None \<Rightarrow> None | Some _ \<Rightarrow> Some g)))) (rev (suffixes s))"

definition parseSimcom :: "composition_response \<Rightarrow> parsed_capability option" where
  "parseSimcom input =
     (case (simcom_current (cr_currentResponse input), simcom_enumeration (cr_enumerationResponse input)) of
        (Some c, Some g) \<Rightarrow>
          (let tokens = map (\<lambda>t. js_upper (js_trim t)) (js_split CHR '','' g) in
           if list_all (\<lambda>t. length t = 4 \<and> list_all is_upper_hex t) tokens \<and> distinct tokens
           then Some \<lparr>pc_current = ModeText (js_upper c), pc_enumerated = map ModeText tokens\<rparr>
           else None)
      | _ \<Rightarrow> None)"

text \<open>\<open>^\s*!USBCOMP:\s*(\d+)(?:\s*,.*)?$\<close>.\<close>

definition at_eol :: "string \<Rightarrow> bool" where
  "at_eol s \<longleftrightarrow> (case s of [] \<Rightarrow> True | c # _ \<Rightarrow> is_lt c)"

definition sierra_current :: "string \<Rightarrow> string option" where
  "sierra_current s = first_match (\<lambda>l.
     case eat ''!USBCOMP:'' (skip_ws l) of None \<Rightarrow> None
     | Some r \<Rightarrow> (case eat_digits (skip_ws r) of None \<Rightarrow> None
        | Some (d, rest) \<Rightarrow> if at_eol rest \<or> eat '','' (skip_ws rest) \<noteq> None then Some d else None)) (line_starts s)"

text \<open>
  One match of \<open>^\s*(\d+)\s*:\s*.+$\<close> at a line start, with the text after the match: the digits, and
  at least one more character on a line after the colon.
\<close>

definition sierra_row :: "string \<Rightarrow> (string \<times> string) option" where
  "sierra_row l =
     (case eat_digits (skip_ws l) of None \<Rightarrow> None
      | Some (d, rest) \<Rightarrow>
         (case eat '':'' (skip_ws rest) of None \<Rightarrow> None
          | Some r \<Rightarrow>
              if skip_ws r \<noteq> [] then Some (d, dropWhile (\<lambda>c. \<not> is_lt c) (skip_ws r))
              else if \<exists>c \<in> set r. \<not> is_lt c then Some (d, []) else None))"

text \<open>\<open>matchAll\<close>: the search goes on after the match, at the next line start.\<close>

fun next_line :: "string \<Rightarrow> string option" where
  "next_line [] = None"
| "next_line (c # s) = (if is_lt c then Some s else next_line s)"

lemma next_line_shorter: "next_line s = Some t \<Longrightarrow> length t < length s"
  by (induction s) (auto split: if_splits)

lemma sierra_row_shorter: "sierra_row l = Some (d, rest) \<Longrightarrow> length rest \<le> length l"
proof -
  have dw: "length (dropWhile P xs) \<le> length xs" for P :: "char \<Rightarrow> bool" and xs
    by (rule length_dropWhile_le)
  assume "sierra_row l = Some (d, rest)"
  then obtain d' r1 r where r: "eat_digits (skip_ws l) = Some (d', r1)" "eat '':'' (skip_ws r1) = Some r"
      "rest = dropWhile (\<lambda>c. \<not> is_lt c) (skip_ws r) \<or> rest = []"
    by (auto simp: sierra_row_def split: option.splits if_splits)
  then have "length rest \<le> length r" using dw [of _ "skip_ws r"] dw [of is_space r]
    by (auto simp: skip_ws_def intro: order.trans)
  moreover have "length r \<le> length r1" using r(2) dw [of is_space r1]
    by (auto simp: eat_def skip_ws_def split: if_splits)
  moreover have "length r1 \<le> length l" using r(1) dw [of is_space l]
    by (auto simp: eat_digits_def skip_ws_def Let_def split: if_splits)
  ultimately show ?thesis by linarith
qed

function sierra_rows :: "string \<Rightarrow> string list" where
  "sierra_rows l =
     (case sierra_row l of
        Some (d, rest) \<Rightarrow> d # (case next_line rest of None \<Rightarrow> [] | Some s \<Rightarrow> sierra_rows s)
      | None \<Rightarrow> (case next_line l of None \<Rightarrow> [] | Some s \<Rightarrow> sierra_rows s))"
  by pat_completeness auto
termination
  by (relation "measure length") (auto dest!: next_line_shorter sierra_row_shorter)

declare sierra_rows.simps [simp del]

definition parseSierra :: "composition_response \<Rightarrow> parsed_capability option" where
  "parseSierra input =
     (case sierra_current (cr_currentResponse input) of None \<Rightarrow> None
      | Some c \<Rightarrow>
          (let vs = map number_of_digits (sierra_rows (cr_enumerationResponse input)) in
           if vs = [] \<or> \<not> distinct vs then None
           else Some \<lparr>pc_current = ModeNumber (number_of_digits c), pc_enumerated = number_modes vs\<rparr>))"

fun parse_capability :: "composition_vendor \<Rightarrow> composition_response \<Rightarrow> parsed_capability option" where
  "parse_capability Fibocom = parseFibocom"
| "parse_capability QuectelVendor = parseQuectel"
| "parse_capability Simcom = parseSimcom"
| "parse_capability Sierra = parseSierra"

fun read_current :: "composition_vendor \<Rightarrow> string \<Rightarrow> composition_mode option" where
  "read_current Fibocom r = map_option (\<lambda>d. ModeNumber (number_of_digits d)) (line_number fibocom_tag r)"
| "read_current QuectelVendor r = map_option (\<lambda>d. ModeNumber (number_of_digits d)) (line_number quectel_tag r)"
| "read_current Simcom r = map_option (\<lambda>v. ModeText (js_upper v)) (simcom_current r)"
| "read_current Sierra r = map_option (\<lambda>d. ModeNumber (number_of_digits d)) (sierra_current r)"

definition readRuntimeCompositionCurrent :: "string \<Rightarrow> string \<Rightarrow> composition_mode option" where
  "readRuntimeCompositionCurrent vendor response =
     (case vendor_of (js_lower (js_trim vendor)) of None \<Rightarrow> None | Some v \<Rightarrow> read_current v response)"

section \<open>The capability\<close>

datatype composition_unknown = VendorUnsupported | MalformedResponse

record available_capability =
  av_current :: composition_mode
  av_enumerated :: "composition_mode list"
  av_returnPathProven :: bool
  av_offerable :: "composition_mode list"

datatype composition_capability = CompAvailable available_capability | CompUnknown composition_unknown

definition resolveRuntimeCompositionCapability :: "composition_response \<Rightarrow> composition_capability" where
  "resolveRuntimeCompositionCapability input =
     (case vendor_of (js_lower (js_trim (cr_vendor input))) of None \<Rightarrow> CompUnknown VendorUnsupported
      | Some v \<Rightarrow>
         (case parse_capability v input of None \<Rightarrow> CompUnknown MalformedResponse
          | Some parsed \<Rightarrow>
              (let proven = pc_current parsed \<in> set (pc_enumerated parsed) in
               CompAvailable \<lparr>av_current = pc_current parsed, av_enumerated = pc_enumerated parsed,
                 av_returnPathProven = proven,
                 av_offerable = (if proven then pc_enumerated parsed else [])\<rparr>)))"

section \<open>What the parsers yield\<close>

definition mode_ok :: "composition_mode \<Rightarrow> bool" where
  "mode_ok m \<longleftrightarrow> (case m of ModeNumber n \<Rightarrow> isSafeInteger n \<and> 0 \<le> n
     | ModeText t \<Rightarrow> length t = 4 \<and> list_all is_upper_hex t)"

lemma int_of_digits_nonneg: "0 \<le> int_of_digits s"
  by (induction s rule: rev_induct) (simp_all add: int_of_digits_def)

lemma nearest_double_nonneg: "0 \<le> n \<Longrightarrow> 0 \<le> nearest_double n"
  by (simp add: nearest_double_def Let_def pos_imp_zdiv_nonneg_iff)

lemma number_of_digits_nonneg [simp]: "0 \<le> number_of_digits d"
  by (simp add: number_of_digits_def nearest_double_nonneg int_of_digits_nonneg)

lemma parse_domain_member:
  assumes "parse_domain_members (m # ms) vs = Some ws"
  shows "\<exists>more. parse_domain_members ms (vs @ more) = Some ws \<and> (\<forall>v \<in> set more. isSafeInteger v \<and> 0 \<le> v)"
proof -
  consider (range) a b where "js_split CHR ''-'' (js_trim m) = [a, b]"
    | (single) "\<nexists>a b. js_split CHR ''-'' (js_trim m) = [a, b]"
    by blast
  then show ?thesis
  proof cases
    case range
    let ?a = "number_of_digits a" and ?b = "number_of_digits b"
    from assms range have c: "isSafeInteger ?b" "parse_domain_members ms (vs @ [?a..?b]) = Some ws"
      by (auto simp: Let_def split: if_splits)
    have "isSafeInteger v \<and> 0 \<le> v" if "v \<in> set [?a..?b]" for v
    proof -
      have "?a \<le> v" "v \<le> ?b" using that by auto
      moreover from this(1) have "0 \<le> v" by (rule order.trans [OF number_of_digits_nonneg])
      ultimately show ?thesis using c(1) by (simp add: isSafeInteger_def)
    qed
    with c(2) show ?thesis by blast
  next
    case single
    with assms have "isSafeInteger (number_of_digits (js_trim m))"
        "parse_domain_members ms (vs @ [number_of_digits (js_trim m)]) = Some ws"
      by (auto simp: Let_def split: if_splits list.splits)
    then show ?thesis by (intro exI [of _ "[number_of_digits (js_trim m)]"]) simp
  qed
qed

lemma parse_domain_members_ok:
  "parse_domain_members ms vs = Some ws \<Longrightarrow> (\<forall>v \<in> set vs. isSafeInteger v \<and> 0 \<le> v) \<Longrightarrow>
     ws \<noteq> [] \<and> distinct ws \<and> (\<forall>w \<in> set ws. isSafeInteger w \<and> 0 \<le> w)"
proof (induction ms arbitrary: vs)
  case Nil
  then show ?case by (auto split: if_splits)
next
  case (Cons m ms)
  from parse_domain_member [OF Cons.prems(1)] obtain more
    where "parse_domain_members ms (vs @ more) = Some ws" "\<forall>v \<in> set more. isSafeInteger v \<and> 0 \<le> v"
    by blast
  moreover from this(2) Cons.prems(2) have "\<forall>v \<in> set (vs @ more). isSafeInteger v \<and> 0 \<le> v" by auto
  ultimately show ?case by (intro Cons.IH)
qed

lemma parse_numeric_ok:
  assumes "parse_numeric tag input = Some p"
  shows "pc_enumerated p \<noteq> [] \<and> distinct (pc_enumerated p) \<and> (\<forall>m \<in> set (pc_enumerated p). mode_ok m)"
proof -
  obtain g vs where "parseDecimalDomain g = Some vs" "pc_enumerated p = number_modes vs"
    using assms by (auto simp: parse_numeric_def split: option.splits)
  with parse_domain_members_ok [of "js_split CHR '','' g" "[]" vs] show ?thesis
    by (auto simp: parseDecimalDomain_def number_modes_def mode_ok_def distinct_map inj_on_def)
qed

lemma parseSimcom_ok:
  assumes "parseSimcom input = Some p"
  shows "pc_enumerated p \<noteq> [] \<and> distinct (pc_enumerated p) \<and> (\<forall>m \<in> set (pc_enumerated p). mode_ok m)"
  using assms
  by (auto simp: parseSimcom_def Let_def mode_ok_def distinct_map inj_on_def list_all_iff
      split: option.splits if_splits)

lemma parseSierra_ok:
  assumes "parseSierra input = Some p"
  shows "pc_enumerated p \<noteq> [] \<and> distinct (pc_enumerated p) \<and> (\<forall>m \<in> set (pc_enumerated p). \<exists>n. m = ModeNumber n \<and> 0 \<le> n)"
  using assms
  by (auto simp: parseSierra_def Let_def number_modes_def distinct_map inj_on_def split: option.splits if_splits)

lemma parse_capability_ok:
  assumes "parse_capability v input = Some p"
  shows "pc_enumerated p \<noteq> [] \<and> distinct (pc_enumerated p) \<and> (v = Sierra \<or> (\<forall>m \<in> set (pc_enumerated p). mode_ok m))"
  using assms parse_numeric_ok parseSimcom_ok parseSierra_ok
  by (cases v) (auto simp: parseFibocom_def parseQuectel_def)

text \<open>Parsed modes are commanded, and two of them never by the same command.\<close>

definition mode_shape :: "composition_vendor \<Rightarrow> composition_mode \<Rightarrow> bool" where
  "mode_shape v m \<longleftrightarrow> (case m of ModeNumber n \<Rightarrow> v \<noteq> Simcom \<and> 0 \<le> n
     | ModeText t \<Rightarrow> v = Simcom \<and> length t = 4 \<and> list_all is_upper_hex t)"

lemma parse_capability_shape:
  assumes "parse_capability v input = Some p" and "m \<in> set (pc_enumerated p)"
  shows "mode_shape v m"
proof (cases v)
  case Simcom
  with assms show ?thesis
    by (auto simp: parseSimcom_def Let_def mode_shape_def list_all_iff split: option.splits if_splits)
next
  case Sierra
  with assms show ?thesis using parseSierra_ok by (fastforce simp: mode_shape_def)
next
  case Fibocom
  with assms parse_capability_ok [OF assms(1)] show ?thesis
    by (auto simp: mode_shape_def mode_ok_def parseFibocom_def parse_numeric_def number_modes_def split: option.splits)
next
  case QuectelVendor
  with assms parse_capability_ok [OF assms(1)] show ?thesis
    by (auto simp: mode_shape_def mode_ok_def parseQuectel_def parse_numeric_def number_modes_def split: option.splits)
qed

lemma js_upper_fixed: "list_all is_upper_hex t \<Longrightarrow> js_upper t = t"
proof -
  have "is_upper_hex c \<Longrightarrow> char_upper c = c" for c
    by (auto simp: is_upper_hex_def char_upper_def)
  then show "list_all is_upper_hex t \<Longrightarrow> js_upper t = t"
    by (auto simp: js_upper_def list_all_iff intro: map_idI)
qed

lemma upper_hex_is_hex: "is_upper_hex c \<Longrightarrow> is_hex c"
  by (auto simp: is_upper_hex_def is_hex_def)

lemma set_command_defined:
  assumes "mode_ok m" and "mode_shape v m"
  shows "\<exists>cmd. set_command v m = Some cmd"
  using assms upper_hex_is_hex
  by (cases v) (auto simp: mode_ok_def mode_shape_def decimalSetCommand_def list_all_iff split: composition_mode.splits)

lemma show_int_nonneg_inj: "show_int a = show_int b \<Longrightarrow> 0 \<le> a \<Longrightarrow> 0 \<le> b \<Longrightarrow> a = b"
  by (auto simp: show_int_def dest: show_nat_inj)

lemma set_command_inj:
  assumes "mode_shape v m" and "mode_shape v m'" and "set_command v m = Some cmd" and "set_command v m' = Some cmd"
  shows "m = m'"
  using assms
  by (cases v; cases m; cases m')
     (auto simp: mode_shape_def decimalSetCommand_def js_upper_fixed split: if_splits dest: show_int_nonneg_inj)

section \<open>Properties\<close>

text \<open>A capability derived from a device's own responses is sound: its enumeration is non-empty and has no duplicates, a mode is offered only when the current mode is itself enumerated (so the way back is known), every mode offered by a Fibocom, Quectel or SIMCom response has a set command, and two offered modes never share one.\<close>

theorem offered_modes_can_be_commanded:
  assumes "resolveRuntimeCompositionCapability input = CompAvailable c"
  shows "av_enumerated c \<noteq> [] \<and> distinct (av_enumerated c) \<and>
    (av_offerable c \<noteq> [] \<longleftrightarrow> av_current c \<in> set (av_enumerated c)) \<and>
    set (av_offerable c) \<subseteq> set (av_enumerated c) \<and>
    (\<forall>m \<in> set (av_offerable c).
       (\<exists>cmd. buildRuntimeCompositionSetCommand (cr_vendor input) m = Some cmd) \<or>
       (vendor_of (js_lower (js_trim (cr_vendor input))) = Some Sierra)) \<and>
    (\<forall>m \<in> set (av_offerable c). \<forall>m' \<in> set (av_offerable c). \<forall>cmd.
       buildRuntimeCompositionSetCommand (cr_vendor input) m = Some cmd \<longrightarrow>
       buildRuntimeCompositionSetCommand (cr_vendor input) m' = Some cmd \<longrightarrow> m = m')"
proof -
  obtain v p where v: "vendor_of (js_lower (js_trim (cr_vendor input))) = Some v"
    and p: "parse_capability v input = Some p"
    and c: "c = \<lparr>av_current = pc_current p, av_enumerated = pc_enumerated p,
       av_returnPathProven = pc_current p \<in> set (pc_enumerated p),
       av_offerable = (if pc_current p \<in> set (pc_enumerated p) then pc_enumerated p else [])\<rparr>"
    using assms by (auto simp: resolveRuntimeCompositionCapability_def Let_def split: option.splits)
  note ok = parse_capability_ok [OF p] and shape = parse_capability_shape [OF p]
  have off: "set (av_offerable c) \<subseteq> set (pc_enumerated p)" by (auto simp: c split: if_splits)
  have "(\<exists>cmd. set_command v m = Some cmd) \<or> v = Sierra" if "m \<in> set (av_offerable c)" for m
    using set_command_defined [of m v] shape ok off that by blast
  moreover have "m = m'"
    if "m \<in> set (av_offerable c)" "m' \<in> set (av_offerable c)" "set_command v m = Some cmd" "set_command v m' = Some cmd"
    for m m' cmd
    using set_command_inj [OF _ _ that(3,4)] shape off that(1,2) by blast
  moreover have "av_offerable c \<noteq> [] \<longleftrightarrow> av_current c \<in> set (av_enumerated c)" "av_enumerated c = pc_enumerated p"
    using ok by (auto simp: c)
  ultimately show ?thesis
    using ok off v by (simp add: buildRuntimeCompositionSetCommand_def)
qed

definition sample_response :: composition_response where
  "sample_response = \<lparr>cr_vendor = '' Fibocom'',
     cr_currentResponse = NL # ''+GTUSBMODE: 36'' @ [NL, NL] @ ''OK'',
     cr_enumerationResponse = ''+GTUSBMODE: (30-31, 36)'' @ [NL] @ ''OK''\<rparr>"

definition sample_capability :: available_capability where
  "sample_capability = \<lparr>av_current = ModeNumber 36, av_enumerated = map ModeNumber [30, 31, 36],
     av_returnPathProven = True, av_offerable = map ModeNumber [30, 31, 36]\<rparr>"

lemma sample_response_resolved: "resolveRuntimeCompositionCapability sample_response = CompAvailable sample_capability"
  by code_simp

lemma offered_modes_can_be_commanded_witness:
  "set (av_offerable sample_capability) \<subseteq> set (av_enumerated sample_capability) \<and> av_enumerated sample_capability \<noteq> []"
  using offered_modes_can_be_commanded [OF sample_response_resolved] by blast

lemma sierra_rows_sample:
  "sierra_rows (''0: off'' @ [CHR 0x0D, NL] @ ''  8 : MBIM'' @ [NL] @ ''OK'') = [''0'', ''8'']"
  by code_simp

end
