(* ===== verification/At_Lease.thy ===== *)
theory At_Lease
  imports Runtime_Composition Redact
begin

text \<open>
  The AT-command lease (\<open>backend/at-lease.ts\<close>): the one channel of raw AT commands. A lease works on
  a state \<open>'s\<close>; the sender, the audit sink, the clock and the watchdog hook are its collaborators.
  The race of the sender with the watchdog timer is the result of the send: a reply, a rejection,
  or the timer.
\<close>

section \<open>The allowlist\<close>

definition AT_RUNTIME_QUERY_ALLOWLIST :: "string list" where
  "AT_RUNTIME_QUERY_ALLOWLIST =
     js_unique (concat (map (\<lambda>v. [query_current v, query_enumerate v]) RUNTIME_COMPOSITION_VENDORS))"

definition AT_BASELINE_ALLOWLIST :: "string list" where
  "AT_BASELINE_ALLOWLIST = js_unique (''ATI'' # AT_RUNTIME_QUERY_ALLOWLIST)"

definition computeAtAllowlist :: "string list \<Rightarrow> string list" where
  "computeAtAllowlist commands = js_unique (AT_BASELINE_ALLOWLIST @ commands)"

lemma set_computeAtAllowlist [simp]:
  "set (computeAtAllowlist commands) = set AT_BASELINE_ALLOWLIST \<union> set commands"
  by (simp add: computeAtAllowlist_def)

section \<open>The lease\<close>

record at_response =
  ar_ok :: bool
  ar_raw :: string

datatype send_result = SendReplied at_response | SendFailed string | SendTimedOut

datatype at_outcome = AtSent | AtRejected | AtTimeout | AtError

fun at_outcome_text :: "at_outcome \<Rightarrow> string" where
  "at_outcome_text AtSent = ''sent''"
| "at_outcome_text AtRejected = ''rejected''"
| "at_outcome_text AtTimeout = ''timeout''"
| "at_outcome_text AtError = ''error''"

record at_audit_entry =
  ae_command :: string
  ae_outcome :: at_outcome
  ae_at :: int
  ae_ok :: "bool option"
  ae_reason :: "string option"
  ae_context :: "(string \<times> js_value) list option"

text \<open>The entry as the object the redaction walks.\<close>

definition entry_value :: "at_audit_entry \<Rightarrow> js_value" where
  "entry_value e = JsObject (
     [(''command'', JsLeaf (LeafString (ae_command e))),
      (''outcome'', JsLeaf (LeafString (at_outcome_text (ae_outcome e)))),
      (''at'', JsLeaf (LeafNumber (Fin (of_int (ae_at e)))))] @
     (case ae_ok e of None \<Rightarrow> [] | Some b \<Rightarrow> [(''ok'', JsLeaf (LeafBool b))]) @
     (case ae_reason e of None \<Rightarrow> [] | Some r \<Rightarrow> [(''reason'', JsLeaf (LeafString r))]) @
     (case ae_context e of None \<Rightarrow> [] | Some ps \<Rightarrow> [(''context'', JsObject ps)]))"

record 's at_lease =
  al_send :: "string \<Rightarrow> 's \<Rightarrow> send_result \<times> 's"
  al_allowlist :: "string list"
  al_audit :: "(js_value \<Rightarrow> ('s, unit) io) option"
  al_now :: "'s \<Rightarrow> int"
  al_timeoutMs :: int
  al_onWatchdog :: "(string \<Rightarrow> ('s, unit) io) option"

definition DEFAULT_AT_TIMEOUT_MS :: int where "DEFAULT_AT_TIMEOUT_MS = 10000"

definition not_allowed_message :: "string \<Rightarrow> string" where
  "not_allowed_message command = ''AT command not in allowlist: '' @ command"

definition timeout_message :: "string \<Rightarrow> int \<Rightarrow> string" where
  "timeout_message command ms = ''AT command timed out after '' @ show_int ms @ ''ms: '' @ command"

definition lease_record :: "'s at_lease \<Rightarrow> at_audit_entry \<Rightarrow> ('s, unit) io" where
  "lease_record lease entry =
     (case al_audit lease of None \<Rightarrow> io_return () | Some sink \<Rightarrow> sink (redact (entry_value entry)))"

text \<open>\<open>#record({command, outcome, at: now(), ...})\<close>.\<close>

definition lease_note ::
  "'s at_lease \<Rightarrow> string \<Rightarrow> at_outcome \<Rightarrow> bool option \<Rightarrow> string option \<Rightarrow>
     (string \<times> js_value) list option \<Rightarrow> ('s, unit) io" where
  "lease_note lease command outcome ok reason ctx s =
     lease_record lease \<lparr>ae_command = command, ae_outcome = outcome, ae_at = al_now lease s,
       ae_ok = ok, ae_reason = reason, ae_context = ctx\<rparr> s"

text \<open>The \<open>catch\<close> of \<open>run\<close>.\<close>

definition lease_failed ::
  "'s at_lease \<Rightarrow> string \<Rightarrow> (string \<times> js_value) list option \<Rightarrow> bool \<Rightarrow> string \<Rightarrow> ('s, at_response) io" where
  "lease_failed lease command ctx timedOut message =
     io_bind (if timedOut
              then (case al_onWatchdog lease of None \<Rightarrow> io_return () | Some hook \<Rightarrow> hook command)
              else io_return ())
       (\<lambda>_. io_bind (lease_note lease command (if timedOut then AtTimeout else AtError) None (Some message) ctx)
         (\<lambda>_. io_throw message))"

definition lease_run ::
  "'s at_lease \<Rightarrow> string \<Rightarrow> (string \<times> js_value) list option \<Rightarrow> ('s, at_response) io" where
  "lease_run lease command ctx s =
     (if command \<notin> set (al_allowlist lease)
      then io_bind (lease_note lease command AtRejected None (Some ''not in allowlist'') ctx)
             (\<lambda>_. io_throw (not_allowed_message command)) s
      else case al_send lease command s of
        (SendReplied response, s1) \<Rightarrow>
          (case lease_note lease command AtSent (Some (ar_ok response)) None ctx s1 of
             (Inr _, s2) \<Rightarrow> (Inr response, s2)
           | (Inl e, s2) \<Rightarrow> lease_failed lease command ctx False e s2)
      | (SendFailed e, s1) \<Rightarrow> lease_failed lease command ctx False e s1
      | (SendTimedOut, s1) \<Rightarrow>
          lease_failed lease command ctx True (timeout_message command (al_timeoutMs lease)) s1)"

section \<open>Rules\<close>

text \<open>
  A lease keeps an invariant that its collaborators keep; the sender has to keep it for the
  commands of the allowlist only.
\<close>

definition keeps :: "('s \<Rightarrow> bool) \<Rightarrow> ('s, 'a) io \<Rightarrow> bool" where
  "keeps P m \<longleftrightarrow> (\<forall>s. P s \<longrightarrow> P (snd (m s)))"

lemma keepsI: "(\<And>s. P s \<Longrightarrow> P (snd (m s))) \<Longrightarrow> keeps P m"
  by (simp add: keeps_def)

lemma keepsD: "keeps P m \<Longrightarrow> P s \<Longrightarrow> m s = (r, s') \<Longrightarrow> P s'"
  by (auto simp: keeps_def)

lemma keeps_return [simp]: "keeps P (io_return a)"
  by (simp add: keeps_def io_return_def)

lemma keeps_throw [simp]: "keeps P (io_throw e)"
  by (simp add: keeps_def io_throw_def)

lemma keeps_bind: "keeps P m \<Longrightarrow> (\<And>a. keeps P (f a)) \<Longrightarrow> keeps P (io_bind m f)"
  by (rule keepsI) (auto simp: io_bind_def dest: keepsD split: prod.split sum.split,
      (metis keepsD keeps_def prod.collapse snd_conv)+)

definition lease_keeps :: "('s \<Rightarrow> bool) \<Rightarrow> 's at_lease \<Rightarrow> bool" where
  "lease_keeps P lease \<longleftrightarrow>
     (\<forall>cmd \<in> set (al_allowlist lease). \<forall>s. P s \<longrightarrow> P (snd (al_send lease cmd s))) \<and>
     (\<forall>sink v. al_audit lease = Some sink \<longrightarrow> keeps P (sink v)) \<and>
     (\<forall>hook cmd. al_onWatchdog lease = Some hook \<longrightarrow> keeps P (hook cmd))"

lemma lease_note_keeps: "lease_keeps P lease \<Longrightarrow> keeps P (lease_note lease command outcome ok reason ctx)"
  by (rule keepsI)
     (auto simp: lease_note_def lease_record_def lease_keeps_def keeps_def io_return_def split: option.split)

lemma lease_failed_keeps: "lease_keeps P lease \<Longrightarrow> keeps P (lease_failed lease command ctx timedOut message)"
  unfolding lease_failed_def
  by (intro keeps_bind lease_note_keeps) (auto simp: lease_keeps_def split: option.split)

lemma lease_run_keeps:
  assumes "lease_keeps P lease"
  shows "keeps P (lease_run lease command ctx)"
proof (rule keepsI)
  fix s assume P: "P s"
  note note_keeps = lease_note_keeps [OF assms] and failed = lease_failed_keeps [OF assms]
  show "P (snd (lease_run lease command ctx s))"
  proof (cases "command \<in> set (al_allowlist lease)")
    case False
    have "keeps P (io_bind (lease_note lease command AtRejected None (Some ''not in allowlist'') ctx)
             (\<lambda>_. io_throw (not_allowed_message command) :: ('a, at_response) io))"
      by (intro keeps_bind note_keeps) simp
    with P False show ?thesis by (simp add: lease_run_def keeps_def)
  next
    case True
    obtain res s1 where send: "al_send lease command s = (res, s1)" by force
    with assms True P have P1: "P s1" by (auto simp: lease_keeps_def) (metis snd_conv)
    obtain r s2 where r: "lease_note lease command AtSent (case res of SendReplied q \<Rightarrow> Some (ar_ok q) | _ \<Rightarrow> None) None ctx s1 = (r, s2)"
      by force
    with P1 have "P s2" by (rule keepsD [OF note_keeps])
    with failed P1 True send r show ?thesis
      by (auto simp: lease_run_def keeps_def split: send_result.split sum.split)
  qed
qed

text \<open>A response means that the command was allowed and was answered.\<close>

lemma lease_run_Inr:
  assumes "lease_run lease command ctx s = (Inr response, s')"
  shows "command \<in> set (al_allowlist lease) \<and> (\<exists>s1. al_send lease command s = (SendReplied response, s1))"
  using assms
  by (auto simp: lease_run_def lease_failed_def io_bind_def io_throw_def
      split: if_splits prod.splits send_result.splits sum.splits)

end
