(* ===== verification/Lifecycle_Interlock.thy ===== *)
theory Lifecycle_Interlock
  imports Prelude
begin

text \<open>
  The interlock a disruptive step asks before it acts (\<open>backend/lifecycle-interlock.ts\<close>).
\<close>

datatype interlock_decision = InterlockAllow | InterlockDeny string

definition ALLOW_ALL_INTERLOCK :: "string \<Rightarrow> ('w, interlock_decision) io" where
  "ALLOW_ALL_INTERLOCK stableKey = io_return InterlockAllow"

end
