(* ===== verification/Usb_Preconditions.thy ===== *)
theory Usb_Preconditions
  imports At_Lease Domain_State Lifecycle_Interlock
begin

text \<open>
  The preconditions of a USB-mode transition (\<open>backend/transition-preconditions.ts\<close>): the request,
  the plan a certified catalog or a runtime capability gives, and the check, which asks the live
  probes after the static part. The probes act on the world and may throw.
\<close>

section \<open>Requests, plans, results\<close>

datatype mode_strategy =
    CatalogStrategy sku_discriminator canonical_usb_mode canonical_usb_mode
  | RuntimeStrategy composition_vendor "sku_discriminator option" composition_mode composition_mode
      composition_capability

record 'w usb_mode_request =
  um_stableKey :: string
  um_connectionId :: string
  um_deviceIfname :: string
  um_cachedPhysicalUid :: string
  um_inhibitUid :: string
  um_confirm :: bool
  um_maintenance :: bool
  um_now :: int
  um_probeReadiness :: "('w, identity_confidence) io"
  um_strategy :: mode_strategy

datatype transition_proof =
    CatalogDescriptors permitted_transition
  | RuntimeRequery composition_vendor composition_mode string

record transition_plan =
  tp_atCommand :: string
  tp_applyCommand :: "string option"
  tp_proof :: transition_proof

record admitted_transition =
  ad_entry :: "catalog_entry option"
  ad_plan :: transition_plan
  ad_allowlistedCommands :: "string list"

type_synonym transition_check = "string + admitted_transition"

section \<open>The static part\<close>

text \<open>The commands of every transition of an entry.\<close>

definition entry_commands :: "catalog_entry \<Rightarrow> string list" where
  "entry_commands e = concat (map (\<lambda>t. case pt_applyCommand t of None \<Rightarrow> [pt_atCommand t]
     | Some apply_cmd \<Rightarrow> [pt_atCommand t, apply_cmd]) (ce_permittedTransitions e))"

definition catalog_plan :: "permitted_transition \<Rightarrow> transition_plan" where
  "catalog_plan t = \<lparr>tp_atCommand = pt_atCommand t, tp_applyCommand = pt_applyCommand t,
     tp_proof = CatalogDescriptors t\<rparr>"

definition runtimePlan ::
  "certified_catalog \<Rightarrow> composition_vendor \<Rightarrow> sku_discriminator option \<Rightarrow> composition_mode \<Rightarrow>
     composition_mode \<Rightarrow> composition_capability \<Rightarrow> transition_check" where
  "runtimePlan catalog vendor sku fromMode toMode capability =
     (case capability of CompUnknown _ \<Rightarrow> Inl ''runtime capability unknown''
      | CompAvailable c \<Rightarrow>
        if av_current c \<noteq> fromMode then Inl ''runtime current mode changed''
        else if \<not> av_returnPathProven c \<or> toMode \<notin> set (av_offerable c) then Inl ''no-return-path''
        else case buildRuntimeCompositionSetCommand (vendor_text vendor) toMode of
          None \<Rightarrow> Inl ''runtime target command unavailable''
        | Some atCommand \<Rightarrow>
          (let entry = (case sku of None \<Rightarrow> None | Some k \<Rightarrow> findCatalogEntry catalog k);
               requery = Inr \<lparr>ad_entry = entry,
                 ad_plan = \<lparr>tp_atCommand = atCommand, tp_applyCommand = None,
                   tp_proof = RuntimeRequery vendor toMode (query_current vendor)\<rparr>,
                 ad_allowlistedCommands = [atCommand]\<rparr>
           in case entry of None \<Rightarrow> requery
              | Some e \<Rightarrow>
                 (case find (\<lambda>t. pt_atCommand t = atCommand) (ce_permittedTransitions e) of
                    None \<Rightarrow> requery
                  | Some reviewed \<Rightarrow> Inr \<lparr>ad_entry = entry, ad_plan = catalog_plan reviewed,
                      ad_allowlistedCommands = entry_commands e\<rparr>)))"

definition staticPlan :: "certified_catalog \<Rightarrow> mode_strategy \<Rightarrow> transition_check" where
  "staticPlan catalog strategy =
     (case strategy of
        RuntimeStrategy vendor sku f t cap \<Rightarrow> runtimePlan catalog vendor sku f t cap
      | CatalogStrategy sku f t \<Rightarrow>
         (case findCatalogEntry catalog sku of
            None \<Rightarrow> Inl (''uncertified SKU '' @ sku_vidPid sku @ '' '' @ sku_model sku)
          | Some e \<Rightarrow>
             (case findPermittedTransition e f t of
                None \<Rightarrow> Inl (''transition '' @ mode_text f @ ''->'' @ mode_text t @ '' not permitted for '' @ sku_model sku)
              | Some tr \<Rightarrow> Inr \<lparr>ad_entry = Some e, ad_plan = catalog_plan tr,
                  ad_allowlistedCommands = entry_commands e\<rparr>)))"

section \<open>The check\<close>

definition checkTransitionPreconditions ::
  "'w usb_mode_request \<Rightarrow> certified_catalog \<Rightarrow> (string \<Rightarrow> ('w, interlock_decision) io) \<Rightarrow>
     ('w, transition_check) io" where
  "checkTransitionPreconditions request catalog canDisrupt =
     (if \<not> um_confirm request then io_return (Inl ''confirm:true is required (missing --confirm)'')
      else if \<not> um_maintenance request then io_return (Inl ''maintenance flag is required'')
      else case staticPlan catalog (um_strategy request) of
        Inl reason \<Rightarrow> io_return (Inl reason)
      | Inr admitted \<Rightarrow>
          io_bind (um_probeReadiness request)
            (\<lambda>confidence. if confidence = ConfLow
               then io_return (Inl (''low-confidence identity '' @ EM_DASH @ '' refusing to transition''))
               else io_bind (canDisrupt (um_stableKey request))
                 (\<lambda>verdict. case verdict of
                    InterlockDeny reason \<Rightarrow> io_return (Inl (''interlock held: '' @ reason))
                  | InterlockAllow \<Rightarrow> io_return (Inr admitted))))"

section \<open>What an admitted transition is\<close>

definition proof_matches :: "certified_catalog \<Rightarrow> mode_strategy \<Rightarrow> transition_proof \<Rightarrow> bool" where
  "proof_matches catalog strategy prf \<longleftrightarrow>
     (case (strategy, prf) of
        (CatalogStrategy sku f t, CatalogDescriptors tr) \<Rightarrow>
          \<exists>e. findCatalogEntry catalog sku = Some e \<and> tr \<in> set (ce_permittedTransitions e) \<and> pt_from tr = f \<and> pt_to tr = t
      | (RuntimeStrategy vendor (Some sku) f t _, CatalogDescriptors tr) \<Rightarrow>
          \<exists>e. findCatalogEntry catalog sku = Some e \<and> tr \<in> set (ce_permittedTransitions e) \<and>
            set_command vendor t = Some (pt_atCommand tr)
      | (RuntimeStrategy vendor _ f t _, RuntimeRequery v target q) \<Rightarrow> v = vendor \<and> target = t \<and> q = query_current vendor
      | _ \<Rightarrow> False)"

definition plan_commands :: "transition_plan \<Rightarrow> string set" where
  "plan_commands p = insert (tp_atCommand p) (case tp_applyCommand p of None \<Rightarrow> {} | Some c \<Rightarrow> {c})"

lemma vendor_of_text [simp]: "vendor_of (js_lower (js_trim (vendor_text v))) = Some v"
  by (cases v, simp_all only:) code_simp+

lemma build_vendor_text [simp]: "buildRuntimeCompositionSetCommand (vendor_text v) t = set_command v t"
  by (simp add: buildRuntimeCompositionSetCommand_def)

lemma catalog_plan_commands:
  assumes "t \<in> set (ce_permittedTransitions e)"
  shows "plan_commands (catalog_plan t) \<subseteq> set (entry_commands e)"
  using assms by (force simp: plan_commands_def catalog_plan_def entry_commands_def split: option.splits)

lemma staticPlan_sound:
  assumes "staticPlan catalog strategy = Inr a"
  shows "plan_commands (ad_plan a) \<subseteq> set (ad_allowlistedCommands a)"
    and "proof_matches catalog strategy (tp_proof (ad_plan a))"
proof -
  have "plan_commands (ad_plan a) \<subseteq> set (ad_allowlistedCommands a) \<and>
      proof_matches catalog strategy (tp_proof (ad_plan a))"
  proof (cases strategy)
    case (CatalogStrategy sku f t)
    with assms obtain e tr where e: "findCatalogEntry catalog sku = Some e" "findPermittedTransition e f t = Some tr"
        "a = \<lparr>ad_entry = Some e, ad_plan = catalog_plan tr, ad_allowlistedCommands = entry_commands e\<rparr>"
      by (auto simp: staticPlan_def split: option.splits)
    from findPermittedTransition_SomeD [OF e(2)] catalog_plan_commands [of tr e] e CatalogStrategy show ?thesis
      by (auto simp: proof_matches_def catalog_plan_def)
  next
    case (RuntimeStrategy vendor sku f t cap)
    with assms obtain c atc where c: "cap = CompAvailable c" "set_command vendor t = Some atc"
      by (auto simp: staticPlan_def runtimePlan_def Let_def split: composition_capability.splits if_splits option.splits)
    let ?entry = "case sku of None \<Rightarrow> None | Some k \<Rightarrow> findCatalogEntry catalog k"
    show ?thesis
    proof (cases "\<exists>e tr. ?entry = Some e \<and> find (\<lambda>t. pt_atCommand t = atc) (ce_permittedTransitions e) = Some tr")
      case True
      then obtain e tr where e: "?entry = Some e" "find (\<lambda>t. pt_atCommand t = atc) (ce_permittedTransitions e) = Some tr"
        by blast
      with assms RuntimeStrategy c have "a = \<lparr>ad_entry = Some e, ad_plan = catalog_plan tr, ad_allowlistedCommands = entry_commands e\<rparr>"
        by (auto simp: staticPlan_def runtimePlan_def Let_def split: if_splits option.splits)
      with find_SomeD [OF e(2)] catalog_plan_commands [of tr e] e(1) RuntimeStrategy c(2) show ?thesis
        by (auto simp: proof_matches_def catalog_plan_def split: option.splits)
    next
      case False
      with assms RuntimeStrategy c have "ad_plan a = \<lparr>tp_atCommand = atc, tp_applyCommand = None,
          tp_proof = RuntimeRequery vendor t (query_current vendor)\<rparr>" "ad_allowlistedCommands a = [atc]"
        by (auto simp: staticPlan_def runtimePlan_def Let_def split: if_splits option.splits)
      with RuntimeStrategy show ?thesis by (auto simp: proof_matches_def plan_commands_def split: option.splits)
    qed
  qed
  then show "plan_commands (ad_plan a) \<subseteq> set (ad_allowlistedCommands a)"
    "proof_matches catalog strategy (tp_proof (ad_plan a))" by auto
qed

lemma checkTransitionPreconditions_Inr:
  assumes "checkTransitionPreconditions request catalog canDisrupt w = (Inr (Inr a), w')"
  shows "um_confirm request \<and> um_maintenance request \<and> staticPlan catalog (um_strategy request) = Inr a \<and>
    (\<exists>c w1. um_probeReadiness request w = (Inr c, w1) \<and> c \<noteq> ConfLow \<and>
       canDisrupt (um_stableKey request) w1 = (Inr InterlockAllow, w'))"
  using assms
  by (auto simp: checkTransitionPreconditions_def io_bind_def io_return_def
      split: if_splits sum.splits prod.splits interlock_decision.splits)

end
