(* ===== verification/Usb_Transition.thy ===== *)
theory Usb_Transition
  imports Usb_Preconditions
begin

text \<open>
  The USB-mode transition (\<open>backend/usb-mode-transition.ts\<close> and its parts \<open>admission\<close>, \<open>at\<close>,
  \<open>outcome\<close>, \<open>reenumeration\<close>). The state is what the transaction closes over: the step list, the
  inhibit lease, the flag \<open>reactivated\<close>, the clock and the world. \<open>tx_calls\<close> records the calls that
  take or give back a resource, send a command, enumerate or activate; no definition reads it.
  The step list is shared by reference, so an outcome holds all steps up to the return of
  \<open>execute\<close>. A sleep takes at least one millisecond (a timer of zero is one millisecond).
\<close>

section \<open>State and collaborators\<close>

datatype resource = InterlockHold | QuiesceLease | InhibitLease

datatype 'h tx_call =
    Acquired resource 'h
  | Released resource 'h
  | Sent string
  | Enumerated
  | Activated string

record ('w, 'h) tx =
  tx_world :: 'w
  tx_clock :: nat
  tx_steps :: "string list"
  tx_inhibit :: "'h option"
  tx_reactivated :: bool
  tx_calls :: "'h tx_call list"

record ('w, 'h) tx_env =
  te_lag :: "'w \<Rightarrow> nat"
  te_turn :: "'w \<Rightarrow> 'w"
  te_wait :: "nat \<Rightarrow> 'w \<Rightarrow> 'w"
  te_canDisrupt :: "string \<Rightarrow> ('w, interlock_decision) io"
  te_hold :: "string \<Rightarrow> ('w, 'h) io"
  te_releaseHold :: "'h \<Rightarrow> ('w, unit) io"
  te_acquireQuiesce :: "string \<Rightarrow> string \<Rightarrow> ('w, 'h) io"
  te_releaseQuiesce :: "'h \<Rightarrow> ('w, unit) io"
  te_activate :: "string \<Rightarrow> string \<Rightarrow> ('w, unit) io"
  te_inhibit :: "string \<Rightarrow> ('w, 'h) io"
  te_uninhibit :: "'h \<Rightarrow> ('w, unit) io"
  te_send :: "string \<Rightarrow> 'w \<Rightarrow> send_result \<times> 'w"
  te_enumerate :: "('w, usb_device list) io"
  te_audit :: "(js_value \<Rightarrow> ('w, unit) io) option"
  te_resolveIfname :: "usb_device \<Rightarrow> string option"
  te_catalog :: certified_catalog
  te_watchdogMs :: nat
  te_reenumMs :: nat
  te_pollMs :: nat

definition DEFAULT_WATCHDOG_MS :: nat where "DEFAULT_WATCHDOG_MS = 30000"
definition DEFAULT_REENUM_TIMEOUT_MS :: nat where "DEFAULT_REENUM_TIMEOUT_MS = 60000"
definition DEFAULT_POLL_INTERVAL_MS :: nat where "DEFAULT_POLL_INTERVAL_MS = 250"

definition defaultResolveIfname :: "usb_device \<Rightarrow> string option" where
  "defaultResolveIfname d = (case ud_ifname d of None \<Rightarrow> None | Some n \<Rightarrow> if n \<noteq> [] then Some n else None)"

text \<open>A call of a collaborator, with what it adds to the record of calls.\<close>

definition tx_do :: "(string + 'a \<Rightarrow> 'h tx_call list) \<Rightarrow> ('w, 'h) tx_env \<Rightarrow> ('w, 'a) io \<Rightarrow> (('w, 'h) tx, 'a) io" where
  "tx_do note env m s =
     (case m (tx_world s) of (r, w) \<Rightarrow>
        (r, s\<lparr>tx_world := w, tx_clock := tx_clock s + te_lag env w, tx_calls := tx_calls s @ note r\<rparr>))"

definition acquires :: "resource \<Rightarrow> string + 'h \<Rightarrow> 'h tx_call list" where
  "acquires res r = (case r of Inr h \<Rightarrow> [Acquired res h] | Inl _ \<Rightarrow> [])"

definition always :: "'h tx_call \<Rightarrow> string + 'a \<Rightarrow> 'h tx_call list" where
  "always c r = [c]"

definition silent :: "string + 'a \<Rightarrow> 'h tx_call list" where
  "silent r = []"

definition push_step :: "string \<Rightarrow> (('w, 'h) tx, unit) io" where
  "push_step name s = (Inr (), s\<lparr>tx_steps := tx_steps s @ [name]\<rparr>)"

section \<open>Admission, the AT lease, the waiter\<close>

definition checkTransitionAdmission :: "('w, 'h) tx_env \<Rightarrow> 'w usb_mode_request \<Rightarrow> (('w, 'h) tx, transition_check) io" where
  "checkTransitionAdmission env request =
     tx_do silent env (checkTransitionPreconditions request (te_catalog env) (te_canDisrupt env))"

definition releaseInhibit :: "('w, 'h) tx_env \<Rightarrow> 'h option \<Rightarrow> (('w, 'h) tx, unit) io" where
  "releaseInhibit env lease =
     (case lease of None \<Rightarrow> io_return ()
      | Some l \<Rightarrow> io_bind (push_step ''force-uninhibit'')
          (\<lambda>_. io_ignore (tx_do (always (Released InhibitLease l)) env (te_uninhibit env l))))"

text \<open>\<open>forceUninhibit\<close>, which is also what the watchdog hook does.\<close>

definition forceUninhibit :: "('w, 'h) tx_env \<Rightarrow> (('w, 'h) tx, unit) io" where
  "forceUninhibit env s = releaseInhibit env (tx_inhibit s) (s\<lparr>tx_inhibit := None\<rparr>)"

definition tx_send :: "('w, 'h) tx_env \<Rightarrow> string \<Rightarrow> ('w, 'h) tx \<Rightarrow> send_result \<times> ('w, 'h) tx" where
  "tx_send env command s =
     (case te_send env command (tx_world s) of (r, w) \<Rightarrow>
        (r, s\<lparr>tx_world := w, tx_clock := tx_clock s + te_lag env w, tx_calls := tx_calls s @ [Sent command]\<rparr>))"

definition createTransitionAtLease :: "('w, 'h) tx_env \<Rightarrow> string list \<Rightarrow> ('w, 'h) tx at_lease" where
  "createTransitionAtLease env allowlistedCommands =
     \<lparr>al_send = tx_send env, al_allowlist = computeAtAllowlist allowlistedCommands,
      al_audit = map_option (\<lambda>sink v. tx_do silent env (sink v)) (te_audit env),
      al_now = (\<lambda>s. int (tx_clock s)), al_timeoutMs = int (te_watchdogMs env),
      al_onWatchdog = Some (\<lambda>command. forceUninhibit env)\<rparr>"

definition tx_enumerate :: "('w, 'h) tx_env \<Rightarrow> (('w, 'h) tx, usb_device list) io" where
  "tx_enumerate env = tx_do (always Enumerated) env (te_enumerate env)"

definition tx_sleep :: "('w, 'h) tx_env \<Rightarrow> ('w, 'h) tx \<Rightarrow> ('w, 'h) tx" where
  "tx_sleep env s =
     (let w = te_wait env (te_pollMs env) (tx_world s) in
      s\<lparr>tx_world := w, tx_clock := tx_clock s + max 1 (te_pollMs env) + te_lag env w\<rparr>)"

lemma clock_tx_do: "tx_do note env m s = (r, s') \<Longrightarrow> tx_clock s \<le> tx_clock s'"
  by (auto simp: tx_do_def split: prod.splits)

lemma clock_tx_sleep: "tx_clock s < tx_clock (tx_sleep env s)"
  by (simp add: tx_sleep_def Let_def less_max_iff_disj trans_less_add1)

lemma await_poll_shrinks:
  assumes "tx_enumerate env s = (r, s1)" and "tx_clock s < deadline"
  shows "deadline - tx_clock (tx_sleep env s1) < deadline - tx_clock s"
  using assms clock_tx_do [of "always Enumerated" env "te_enumerate env" s r s1] clock_tx_sleep [of s1 env]
  by (simp add: tx_enumerate_def)

text \<open>The two polling loops: up to the deadline, until \<open>found\<close> gives a value.\<close>

function await_poll ::
  "('w, 'h) tx_env \<Rightarrow> (usb_device list \<Rightarrow> 'a option) \<Rightarrow> nat \<Rightarrow> string \<Rightarrow> ('w, 'h) tx \<Rightarrow> (string + 'a) \<times> ('w, 'h) tx" where
  "await_poll env found deadline message s =
     (if tx_clock s < deadline
      then (case tx_enumerate env s of
          (Inl e, s1) \<Rightarrow> (Inl e, s1)
        | (Inr devices, s1) \<Rightarrow>
            (case found devices of Some a \<Rightarrow> (Inr a, s1)
             | None \<Rightarrow> await_poll env found deadline message (tx_sleep env s1)))
      else (Inl message, s))"
  by pat_completeness auto
termination
  by (relation "measure (\<lambda>(env, found, deadline, message, s). deadline - tx_clock s)")
     (auto intro: await_poll_shrinks [OF sym])

declare await_poll.simps [simp del]

definition awaitPortDrop :: "('w, 'h) tx_env \<Rightarrow> string \<Rightarrow> (('w, 'h) tx, unit) io" where
  "awaitPortDrop env uid s =
     await_poll env (\<lambda>devices. if \<exists>d \<in> set devices. ud_physicalUid d = Some uid then None else Some ())
       (tx_clock s + te_reenumMs env)
       (''control port did not drop within '' @ show_nat (te_reenumMs env) @ ''ms (uid '' @ uid @ '')'') s"

definition awaitDevice :: "('w, 'h) tx_env \<Rightarrow> string \<Rightarrow> (('w, 'h) tx, usb_device) io" where
  "awaitDevice env uid s =
     await_poll env (find (\<lambda>d. ud_physicalUid d = Some uid)) (tx_clock s + te_reenumMs env)
       (''device did not re-enumerate within '' @ show_nat (te_reenumMs env) @ ''ms (uid '' @ uid @ '')'') s"

definition reprobe :: "('w, 'h) tx_env \<Rightarrow> (('w, 'h) tx, unit) io" where
  "reprobe env = io_ignore (tx_enumerate env)"

section \<open>The transaction\<close>

datatype transition_result =
    TransitionRefused string string
  | TransitionSucceeded string
  | TransitionFailed bool string

record transition_outcome =
  to_result :: transition_result
  to_steps :: "string list"

definition show_mode_option :: "canonical_usb_mode option \<Rightarrow> string" where
  "show_mode_option m = (case m of None \<Rightarrow> ''unknown'' | Some v \<Rightarrow> mode_text v)"

fun composition_text :: "composition_mode \<Rightarrow> string" where
  "composition_text (ModeNumber n) = show_int n"
| "composition_text (ModeText t) = t"

definition uid_context :: "string \<Rightarrow> (string \<times> js_value) list option" where
  "uid_context uid = Some [(''inhibitUid'', JsLeaf (LeafString uid))]"

definition transitionPostconditionFailure ::
  "transition_plan \<Rightarrow> usb_device \<Rightarrow> ('w, 'h) tx at_lease \<Rightarrow> string \<Rightarrow> (('w, 'h) tx, string option) io" where
  "transitionPostconditionFailure plan device lease inhibitUid =
     (case tp_proof plan of
        CatalogDescriptors t \<Rightarrow>
          (let observed = detectUsbMode device; ok = descriptorsMatch device (pt_expectedDescriptors t) in
           io_return (if observed = Some (pt_to t) \<and> ok then None
             else Some (''postcondition mismatch: observed '' @ show_mode_option observed @ '' vs target '' @
                        mode_text (pt_to t) @ ''; descriptors '' @ (if ok then ''ok'' else ''mismatch''))))
      | RuntimeRequery vendor target query \<Rightarrow>
          io_bind (push_step ''postcondition-runtime-read'')
            (\<lambda>_. io_bind (lease_run lease query (uid_context inhibitUid))
               (\<lambda>response. let observed = readRuntimeCompositionCurrent (vendor_text vendor) (ar_raw response) in
                  io_return (if observed = Some target then None
                    else Some (''runtime readback mismatch: observed '' @
                      (case observed of None \<Rightarrow> ''unknown'' | Some m \<Rightarrow> composition_text m) @
                      '' vs target '' @ composition_text target)))))"

text \<open>Step 5: the lease is given back before the call, so a rejected call is not repeated.\<close>

definition uninhibit_step :: "('w, 'h) tx_env \<Rightarrow> (('w, 'h) tx, unit) io" where
  "uninhibit_step env s =
     (case tx_inhibit s of None \<Rightarrow> (Inr (), s)
      | Some l \<Rightarrow> tx_do (always (Released InhibitLease l)) env (te_uninhibit env l) (s\<lparr>tx_inhibit := None\<rparr>))"

definition inhibit_step :: "('w, 'h) tx_env \<Rightarrow> string \<Rightarrow> (('w, 'h) tx, unit) io" where
  "inhibit_step env uid s =
     (case tx_do (acquires InhibitLease) env (te_inhibit env uid) s of
        (Inl e, s1) \<Rightarrow> (Inl e, s1) | (Inr l, s1) \<Rightarrow> (Inr (), s1\<lparr>tx_inhibit := Some l\<rparr>))"

definition reactivate_step :: "('w, 'h) tx_env \<Rightarrow> 'w usb_mode_request \<Rightarrow> string \<Rightarrow> (('w, 'h) tx, unit) io" where
  "reactivate_step env request ifname s =
     (case tx_do (always (Activated ifname)) env (te_activate env (um_connectionId request) ifname) s of
        (Inl e, s1) \<Rightarrow> (Inl e, s1) | (Inr _, s1) \<Rightarrow> (Inr (), s1\<lparr>tx_reactivated := True\<rparr>))"

text \<open>Steps 1 to 5 and the wait for the device.\<close>

definition switch_steps ::
  "('w, 'h) tx_env \<Rightarrow> 'w usb_mode_request \<Rightarrow> transition_plan \<Rightarrow> ('w, 'h) tx at_lease \<Rightarrow> (('w, 'h) tx, usb_device) io" where
  "switch_steps env request plan lease =
     io_bind (push_step ''inhibit'') (\<lambda>_.
     io_bind (inhibit_step env (um_inhibitUid request)) (\<lambda>_.
     io_bind (push_step ''at-command'') (\<lambda>_.
     io_bind (lease_run lease (tp_atCommand plan) (uid_context (um_inhibitUid request))) (\<lambda>_.
     io_bind (case tp_applyCommand plan of None \<Rightarrow> io_return ()
              | Some c \<Rightarrow> io_bind (push_step ''apply-command'') (\<lambda>_.
                  io_bind (lease_run lease c (uid_context (um_inhibitUid request))) (\<lambda>_. io_return ()))) (\<lambda>_.
     io_bind (push_step ''await-port-drop'') (\<lambda>_.
     io_bind (awaitPortDrop env (um_cachedPhysicalUid request)) (\<lambda>_.
     io_bind (push_step ''uninhibit'') (\<lambda>_.
     io_bind (uninhibit_step env) (\<lambda>_.
     io_bind (push_step ''await-reenumeration'') (\<lambda>_.
     awaitDevice env (um_cachedPhysicalUid request)))))))))))"

text \<open>Steps 7 to 9: the postcondition decides.\<close>

definition finish_steps ::
  "('w, 'h) tx_env \<Rightarrow> 'w usb_mode_request \<Rightarrow> transition_plan \<Rightarrow> ('w, 'h) tx at_lease \<Rightarrow> usb_device \<Rightarrow>
     (('w, 'h) tx, transition_result) io" where
  "finish_steps env request plan lease device =
     io_bind (push_step ''postcondition'') (\<lambda>_.
     io_bind (transitionPostconditionFailure plan device lease (um_inhibitUid request)) (\<lambda>failure.
     case failure of
       Some reason \<Rightarrow> io_return (TransitionFailed True reason)
     | None \<Rightarrow>
         io_bind (push_step ''resolve-ifname'') (\<lambda>_.
         case te_resolveIfname env device of
           None \<Rightarrow> io_return (TransitionFailed True ''could not resolve new ifname'')
         | Some newIfname \<Rightarrow>
             io_bind (push_step ''reactivate'') (\<lambda>_.
             io_bind (reactivate_step env request newIfname) (\<lambda>_.
             io_return (TransitionSucceeded newIfname))))))"

definition cleanup_steps :: "('w, 'h) tx_env \<Rightarrow> 'h \<Rightarrow> (('w, 'h) tx, unit) io" where
  "cleanup_steps env quiesce =
     io_bind (forceUninhibit env) (\<lambda>_ s.
       if tx_reactivated s then (Inr (), s)
       else io_bind (push_step ''release-quiesce'')
              (\<lambda>_. io_ignore (tx_do (always (Released QuiesceLease quiesce)) env (te_releaseQuiesce env quiesce))) s)"

definition runTransaction ::
  "('w, 'h) tx_env \<Rightarrow> 'w usb_mode_request \<Rightarrow> string list \<Rightarrow> transition_plan \<Rightarrow> (('w, 'h) tx, transition_result) io" where
  "runTransaction env request allowlistedCommands plan s =
     (let lease = createTransitionAtLease env allowlistedCommands in
      io_bind (push_step ''nm-quiesce'') (\<lambda>_.
      io_bind (tx_do (acquires QuiesceLease) env
                 (te_acquireQuiesce env (um_connectionId request) (um_deviceIfname request))) (\<lambda>quiesce.
      io_finally
        (io_catch
          (io_bind (switch_steps env request plan lease) (\<lambda>device. finish_steps env request plan lease device))
          (\<lambda>e. io_bind (forceUninhibit env) (\<lambda>_. io_bind (reprobe env) (\<lambda>_. io_return (TransitionFailed True e)))))
        (cleanup_steps env quiesce))) (s\<lparr>tx_inhibit := None, tx_reactivated := False\<rparr>))"

definition inActor :: "('w, 'h) tx_env \<Rightarrow> 'w usb_mode_request \<Rightarrow> (('w, 'h) tx, transition_result) io" where
  "inActor env request =
     io_bind (push_step ''actor-enter'') (\<lambda>_.
     io_bind (checkTransitionAdmission env request) (\<lambda>recheck.
     case recheck of
       Inl reason \<Rightarrow> io_return (TransitionRefused ''in-actor'' reason)
     | Inr admitted \<Rightarrow>
         io_bind (tx_do (acquires InterlockHold) env (te_hold env (um_stableKey request))) (\<lambda>hold.
         io_finally (runTransaction env request (ad_allowlistedCommands admitted) (ad_plan admitted))
           (io_bind (push_step ''release-interlock'')
              (\<lambda>_. io_ignore (tx_do (always (Released InterlockHold hold)) env (te_releaseHold env hold)))))))"

text \<open>
  \<open>execute\<close>. The task waits for its turn in the queue of the modem (\<open>te_turn\<close> is what happens
  meanwhile), which the actor serialises.
\<close>

definition execute_transition :: "('w, 'h) tx_env \<Rightarrow> 'w usb_mode_request \<Rightarrow> (('w, 'h) tx, transition_outcome) io" where
  "execute_transition env request s =
     (let with_steps = (\<lambda>r. case r of (Inl e, t) \<Rightarrow> (Inl e, t)
         | (Inr result, t) \<Rightarrow> (Inr \<lparr>to_result = result, to_steps = tx_steps t\<rparr>, t)) in
      case checkTransitionAdmission env request (s\<lparr>tx_steps := []\<rparr>) of
        (Inl e, s1) \<Rightarrow> (Inl e, s1)
      | (Inr (Inl reason), s1) \<Rightarrow> with_steps (Inr (TransitionRefused ''entry'' reason), s1)
      | (Inr (Inr _), s1) \<Rightarrow> with_steps (inActor env request (s1\<lparr>tx_world := te_turn env (tx_world s1)\<rparr>)))"

end
