(* ===== verification/Composition_Operation.thy ===== *)
theory Composition_Operation
  imports Usb_Transition Operation
begin

text \<open>
  The USB composition operation of the ModemManager provider
  (\<open>providers/modem-manager/runtime-composition-operation.ts\<close>): what the device itself enumerates, gated by
  the vendor, the operator and the streaming state, and the write that hands the transition a proven way back.
  The collaborators are parameters over a world; the AT queries go through the lease of \<open>At_Lease\<close>.
\<close>

section \<open>The state\<close>

datatype composition_suppression = UnknownVendor | NoReturnPath | BlockedByState | ProvisioningDisabled

fun suppression_text :: "composition_suppression \<Rightarrow> string" where
  "suppression_text UnknownVendor = ''unknown-vendor''"
| "suppression_text NoReturnPath = ''no-return-path''"
| "suppression_text BlockedByState = ''blocked-by-state''"
| "suppression_text ProvisioningDisabled = ''provisioning-disabled''"

datatype composition_state =
    CompositionOffered composition_mode "composition_mode list" "composition_mode list"
  | CompositionSuppressed composition_suppression string "composition_mode option" "composition_mode list"

fun state_offerable :: "composition_state \<Rightarrow> composition_mode list" where
  "state_offerable (CompositionOffered _ _ modes) = modes"
| "state_offerable (CompositionSuppressed _ _ _ _) = []"

record 'w composition_deps =
  cd_vendor :: "('w, string) io"
  cd_provisioningEnabled :: "('w, bool) io"
  cd_blockedReason :: "('w, string option) io"
  cd_send :: "string \<Rightarrow> 'w \<Rightarrow> send_result \<times> 'w"
  cd_now :: "'w \<Rightarrow> int"
  cd_transition :: "available_capability \<Rightarrow> composition_mode \<Rightarrow> ('w, transition_outcome) io"

definition suppressed :: "composition_suppression \<Rightarrow> string \<Rightarrow> composition_state" where
  "suppressed reason detail = CompositionSuppressed reason detail None []"

definition suppressed_with :: "composition_suppression \<Rightarrow> string \<Rightarrow> available_capability \<Rightarrow> composition_state" where
  "suppressed_with reason detail capability =
     CompositionSuppressed reason detail (Some (av_current capability)) (av_enumerated capability)"

fun unknown_text :: "composition_unknown \<Rightarrow> string" where
  "unknown_text VendorUnsupported = ''vendor-unsupported''"
| "unknown_text MalformedResponse = ''malformed-response''"

section \<open>The operation\<close>

definition composition_lease :: "'w composition_deps \<Rightarrow> 'w at_lease" where
  "composition_lease deps =
     \<lparr>al_send = cd_send deps, al_allowlist = computeAtAllowlist [], al_audit = None, al_now = cd_now deps,
      al_timeoutMs = DEFAULT_AT_TIMEOUT_MS, al_onWatchdog = None\<rparr>"

text \<open>The end of \<open>capability\<close>, from the two answers.\<close>

definition state_of_responses :: "composition_vendor \<Rightarrow> at_response \<Rightarrow> at_response \<Rightarrow> composition_state" where
  "state_of_responses vendor current enumeration =
     (if \<not> ar_ok current \<or> \<not> ar_ok enumeration then suppressed NoReturnPath ''A runtime composition query failed''
      else case resolveRuntimeCompositionCapability
          \<lparr>cr_vendor = vendor_text vendor, cr_currentResponse = ar_raw current, cr_enumerationResponse = ar_raw enumeration\<rparr> of
        CompUnknown reason \<Rightarrow> suppressed NoReturnPath (unknown_text reason)
      | CompAvailable resolved \<Rightarrow>
          if \<not> av_returnPathProven resolved
          then suppressed_with NoReturnPath ''The current mode is absent from the device catalog'' resolved
          else CompositionOffered (av_current resolved) (av_enumerated resolved)
                 (filter (\<lambda>m. m \<noteq> av_current resolved) (av_offerable resolved)))"

definition read_capability :: "'w composition_deps \<Rightarrow> ('w, composition_state) io" where
  "read_capability deps =
     io_bind (cd_vendor deps) (\<lambda>raw.
       let vendor = js_lower (js_trim raw) in
       case vendor_of vendor of
         None \<Rightarrow> io_return (suppressed UnknownVendor (''No reviewed composition query exists for '' @ vendor))
       | Some v \<Rightarrow>
           io_bind (cd_provisioningEnabled deps) (\<lambda>enabled.
           if \<not> enabled then io_return (suppressed ProvisioningDisabled ''USB composition provisioning is disabled'')
           else io_bind (cd_blockedReason deps) (\<lambda>blocked.
             case blocked of Some reason \<Rightarrow> io_return (suppressed BlockedByState reason)
             | None \<Rightarrow>
                 io_bind (lease_run (composition_lease deps) (query_current v) None) (\<lambda>current.
                 io_bind (lease_run (composition_lease deps) (query_enumerate v) None) (\<lambda>enumeration.
                   io_return (state_of_responses v current enumeration))))))"

definition composition_result :: "int \<Rightarrow> 'o operation_completion \<Rightarrow> 'o operation_result" where
  "composition_result generation completion = classifyOperationCompletion KindWrite generation generation completion"

definition composition_read :: "'w composition_deps \<Rightarrow> int \<Rightarrow> ('w, composition_state operation_result) io" where
  "composition_read deps generation =
     io_bind (read_capability deps) (\<lambda>st. io_return (composition_result generation (CompletionApplied st)))"

text \<open>What the transition's outcome becomes: a success is taken at its word.\<close>

definition outcome_completion ::
  "composition_mode list \<Rightarrow> composition_mode \<Rightarrow> transition_outcome \<Rightarrow> composition_state operation_completion" where
  "outcome_completion enumerated target outcome =
     (case to_result outcome of
        TransitionRefused _ _ \<Rightarrow> CompletionRefused ''blocked-by-state''
      | TransitionFailed _ reason \<Rightarrow> CompletionFailed reason
      | TransitionSucceeded _ \<Rightarrow>
          CompletionApplied (CompositionOffered target enumerated (filter (\<lambda>m. m \<noteq> target) enumerated)))"

definition full_capability ::
  "composition_mode \<Rightarrow> composition_mode list \<Rightarrow> composition_mode list \<Rightarrow> available_capability" where
  "full_capability current enumerated offerable =
     \<lparr>av_current = current, av_enumerated = enumerated, av_returnPathProven = True, av_offerable = current # offerable\<rparr>"

definition composition_write ::
  "'w composition_deps \<Rightarrow> int \<Rightarrow> composition_mode \<Rightarrow> ('w, composition_state operation_result) io" where
  "composition_write deps generation target =
     io_bind (read_capability deps) (\<lambda>st.
       case st of
         CompositionSuppressed reason _ _ _ \<Rightarrow>
           io_return (composition_result generation (CompletionRefused (suppression_text reason)))
       | CompositionOffered current enumerated offerable \<Rightarrow>
           if target \<notin> set offerable
           then io_return (composition_result generation (CompletionRefused ''no-return-path''))
           else io_bind (cd_transition deps (full_capability current enumerated offerable) target) (\<lambda>outcome.
                  io_return (composition_result generation (outcome_completion enumerated target outcome))))"

definition composition_descriptor ::
  "composition_state \<Rightarrow> descriptor_error + (composition_mode, composition_state) operation_descriptor" where
  "composition_descriptor st = defineOperationDescriptor
     (let available = (case st of CompositionOffered _ _ _ \<Rightarrow> None | CompositionSuppressed reason _ _ _ \<Rightarrow> Some (suppression_text reason)) in
      \<lparr>d_id = ''modemmanager.usb-composition'', d_supportRead = Supported,
       d_supportWrite = (case available of None \<Rightarrow> Supported | Some r \<Rightarrow> NotSupported r),
       d_authority = AuthProvider, d_provider = ''modemmanager'',
       d_constraints = AllowedValues (map OtherOperand (state_offerable st)),
       d_livePreconditions = [''modem-present'', ''runtime-interface-present'', ''identity-confident'', ''streaming-interlock-open''],
       d_availability = (case available of None \<Rightarrow> Available | Some r \<Rightarrow> RefusedAvailability r),
       d_mutationImpact = ImpactDisruptive, d_retryClass = RetryNever,
       d_readback = ReadbackRequired ''device-reported-composition'' (\<lambda>input value. case value of
          CompositionOffered current _ _ \<Rightarrow> input = OtherOperand current | CompositionSuppressed _ _ _ _ \<Rightarrow> False),
       d_rollback = Required ''restore-previous-composition'', d_journal = Required ''composition-reenumeration'',
       d_admission = Required ''provider-mutation'', d_profiles = [''generic-mm''], d_firmware = [],
       d_confidence = (if available = None then OpConfHigh else OpConfUnknown)\<rparr>)"

text \<open>\<open>disabledOperation\<close>, when nothing was configured.\<close>

definition disabled_state :: composition_state where
  "disabled_state = suppressed ProvisioningDisabled ''USB composition provisioning is not configured''"

definition operation_write ::
  "'w composition_deps option \<Rightarrow> int \<Rightarrow> composition_mode \<Rightarrow> ('w, composition_state operation_result) io" where
  "operation_write deps generation target =
     (case deps of
        None \<Rightarrow> io_return (composition_result generation (CompletionRefused (suppression_text ProvisioningDisabled)))
      | Some d \<Rightarrow> composition_write d generation target)"

section \<open>Lemmas\<close>

text \<open>The AT commands a capability read sends are the two queries of the vendor, which the baseline allows.\<close>

lemma queries_allowed: "query_current v \<in> set (computeAtAllowlist [])" "query_enumerate v \<in> set (computeAtAllowlist [])"
  by (cases v; simp add: AT_BASELINE_ALLOWLIST_def AT_RUNTIME_QUERY_ALLOWLIST_def RUNTIME_COMPOSITION_VENDORS_def)+

lemma lease_replied:
  assumes "lease_run (composition_lease deps) c None s = (Inr r, s1)"
  shows "cd_send deps c s = (SendReplied r, s1)"
  using assms
  by (auto simp: lease_run_def lease_failed_def lease_note_def lease_record_def composition_lease_def io_bind_def io_return_def
      io_throw_def split: prod.splits sum.splits if_splits send_result.splits)

text \<open>An offered state is reached on one path only: every gate open and both queries answered.\<close>

definition gates_open ::
  "'w composition_deps \<Rightarrow> 'w \<Rightarrow> composition_vendor \<Rightarrow> at_response \<Rightarrow> at_response \<Rightarrow> 'w \<Rightarrow> bool" where
  "gates_open deps s v first second s1 \<longleftrightarrow>
     (\<exists>raw sa sb sc sd. cd_vendor deps s = (Inr raw, sa) \<and> vendor_of (js_lower (js_trim raw)) = Some v \<and>
        cd_provisioningEnabled deps sa = (Inr True, sb) \<and> cd_blockedReason deps sb = (Inr None, sc) \<and>
        cd_send deps (query_current v) sc = (SendReplied first, sd) \<and>
        cd_send deps (query_enumerate v) sd = (SendReplied second, s1))"

lemma capability_offered:
  assumes "read_capability deps s = (Inr (CompositionOffered current enumerated offerable), s1)"
  shows "\<exists>v first second. gates_open deps s v first second s1 \<and>
     state_of_responses v first second = CompositionOffered current enumerated offerable"
  using assms
  by (fastforce simp: read_capability_def io_bind_def io_return_def Let_def suppressed_def gates_open_def
      dest!: lease_replied split: prod.splits sum.splits option.splits if_splits)

lemma offered_state:
  assumes "state_of_responses v first second = CompositionOffered current enumerated offerable"
  shows "ar_ok first \<and> ar_ok second \<and> current \<in> set enumerated \<and> distinct enumerated \<and>
     set offerable = set enumerated - {current} \<and>
     list_all (\<lambda>m. mode_shape v m) enumerated"
proof -
  let ?r = "\<lparr>cr_vendor = vendor_text v, cr_currentResponse = ar_raw first, cr_enumerationResponse = ar_raw second\<rparr>"
  obtain c where c: "resolveRuntimeCompositionCapability ?r = CompAvailable c" "av_returnPathProven c" "ar_ok first" "ar_ok second"
      "current = av_current c" "enumerated = av_enumerated c" "offerable = filter (\<lambda>m. m \<noteq> av_current c) (av_offerable c)"
    using assms by (auto simp: state_of_responses_def suppressed_def suppressed_with_def split: if_splits composition_capability.splits)
  have v: "vendor_of (js_lower (js_trim (vendor_text v))) = Some v" by (cases v; hypsubst; code_simp)
  obtain q where q: "parse_capability v ?r = Some q" and cq: "av_current c = pc_current q" "av_enumerated c = pc_enumerated q"
      "av_returnPathProven c = (pc_current q \<in> set (pc_enumerated q))" "av_offerable c = (if av_returnPathProven c then pc_enumerated q else [])"
    using c(1) v by (auto simp: resolveRuntimeCompositionCapability_def Let_def split: option.splits)
  show ?thesis
    using c cq parse_capability_ok [OF q] parse_capability_shape [OF q] by (auto simp: list_all_iff)
qed

section \<open>Properties\<close>

text \<open>C38: a composition write hands a transition only to a device that proved the way back. The transition runs only when the vendor is a reviewed one, provisioning is enabled, nothing blocks, both queries were answered with success, and the current mode is one of the modes the device itself enumerated; its target is another of these modes, and the commands that set the two, where the build has them, differ. In every other case the write is refused with the reason, or the error of the failing collaborator is passed on, and no transition is asked for.\<close>

theorem composition_write_is_reversible:
  "case read_capability deps s of
     (Inl e, s1) \<Rightarrow> composition_write deps g target s = (Inl e, s1)
   | (Inr (CompositionSuppressed reason detail c modes), s1) \<Rightarrow>
       composition_write deps g target s = (Inr (ResultRefused (suppression_text reason) g), s1)
   | (Inr (CompositionOffered current enumerated offerable), s1) \<Rightarrow>
       (\<exists>v first second. gates_open deps s v first second s1 \<and> ar_ok first \<and> ar_ok second \<and>
          (if target \<in> set offerable \<and> set_command v target = set_command v current
           then set_command v target = None else True)) \<and>
       current \<in> set enumerated \<and> set offerable = set enumerated - {current} \<and>
       composition_write deps g target s =
         (if target \<in> set offerable
          then (case cd_transition deps (full_capability current enumerated offerable) target s1 of
                  (Inl e, s2) \<Rightarrow> (Inl e, s2)
                | (Inr outcome, s2) \<Rightarrow> (Inr (composition_result g (outcome_completion enumerated target outcome)), s2))
          else (Inr (ResultRefused ''no-return-path'' g), s1))"
proof -
  obtain rs s1 where c: "read_capability deps s = (rs, s1)" by force
  note unf = composition_write_def io_bind_def io_return_def composition_result_def classifyOperationCompletion.simps
  show ?thesis
  proof (cases rs)
    case (Inl e)
    with c show ?thesis by (simp add: unf)
  next
    case (Inr st)
    show ?thesis
    proof (cases st)
      case (CompositionSuppressed reason detail m modes)
      with c Inr show ?thesis by (simp add: unf)
    next
      case (CompositionOffered current enumerated offerable)
      then obtain v first second where g: "gates_open deps s v first second s1"
          and st: "state_of_responses v first second = CompositionOffered current enumerated offerable"
        using capability_offered [OF c [unfolded Inr CompositionOffered]] by blast
      note o = offered_state [OF st]
      have n: "set_command v target = None" if t: "target \<in> set offerable" and u: "set_command v target = set_command v current"
      proof (rule ccontr)
        assume "set_command v target \<noteq> None"
        then obtain cmd where "set_command v target = Some cmd" "set_command v current = Some cmd" using u by (cases "set_command v target") auto
        moreover have "mode_shape v target" "mode_shape v current" using o t by (auto simp: list_all_iff)
        ultimately have "target = current" using set_command_inj by blast
        with o t show False by auto
      qed
      have "\<exists>v first second. gates_open deps s v first second s1 \<and> ar_ok first \<and> ar_ok second \<and>
          (if target \<in> set offerable \<and> set_command v target = set_command v current then set_command v target = None else True)"
        using g o n by (intro exI [of _ v] exI [of _ first] exI [of _ second]) simp
      moreover have "composition_write deps g target s =
         (if target \<in> set offerable
          then (case cd_transition deps (full_capability current enumerated offerable) target s1 of
                  (Inl e, s2) \<Rightarrow> (Inl e, s2)
                | (Inr outcome, s2) \<Rightarrow> (Inr (composition_result g (outcome_completion enumerated target outcome)), s2))
          else (Inr (ResultRefused ''no-return-path'' g), s1))" for g
        by (simp add: unf c Inr CompositionOffered split: prod.split sum.split)
      ultimately show ?thesis using o by (simp only: c Inr CompositionOffered prod.case sum.case composition_state.case simp_thms)
    qed
  qed
qed

text \<open>The readback that the descriptor requires is the request itself: an applied write answers the target.\<close>

lemma readback_is_the_request:
  "outcome_completion enumerated target outcome = CompletionApplied st \<Longrightarrow>
     st = CompositionOffered target enumerated (filter (\<lambda>m. m \<noteq> target) enumerated)"
  by (auto simp: outcome_completion_def split: transition_result.splits)

end
