(* ===== verification/Mm_Observation_Properties.thy ===== *)
theory Mm_Observation_Properties
  imports Mm_Observation
begin

text \<open>
  What the ModemManager source promises: every value it reports was read from a field of the payload, which
  the diagnostics keep verbatim and list as claimed; what is missing is never turned into a statement about
  what ModemManager can report; and an absent SIM is reported on one fact only.
\<close>

section \<open>What a metric claims\<close>

fun claim_of :: "'v obs_metric \<Rightarrow> missing_reason option \<times> metric_provenance" where
  "claim_of (KnownMetric v p) = (None, p)"
| "claim_of (UnknownMetric r p) = (Some r, p)"

definition hardware_claims :: "normalized_hardware \<Rightarrow> (missing_reason option \<times> metric_provenance) list" where
  "hardware_claims h = [claim_of (nh_label h), claim_of (nh_displayName h)]"

definition radio_claims :: "normalized_radio \<Rightarrow> (missing_reason option \<times> metric_provenance) list" where
  "radio_claims r =
     [claim_of (nr_modemState r), claim_of (nr_registration r), claim_of (nr_accessTechnologies r),
      claim_of (nr_modeLabel r), claim_of (nr_operatorName r), claim_of (nr_operatorCode r)]"

definition signal_claims :: "normalized_signal \<Rightarrow> (missing_reason option \<times> metric_provenance) list" where
  "signal_claims s =
     [claim_of (ns_quality s), claim_of (ns_qualityRecent s), claim_of (ns_bars s), claim_of (ns_maxBars s),
      claim_of (ns_dbm s), claim_of (ns_rsrp s), claim_of (ns_rsrq s), claim_of (ns_snr s), claim_of (ns_sinr s)]"

definition sim_claims :: "normalized_sim \<Rightarrow> (missing_reason option \<times> metric_provenance) list" where
  "sim_claims s =
     [claim_of (nm_presence s), claim_of (nm_lockRequired s), claim_of (nm_kind s), claim_of (nm_esimStatus s)]"

definition cell_claims :: "normalized_cell \<Rightarrow> (missing_reason option \<times> metric_provenance) list" where
  "cell_claims c = [claim_of (nc_cellId c), claim_of (nc_tac c)]"

definition all_claims :: "modem_observation \<Rightarrow> (missing_reason option \<times> metric_provenance) list" where
  "all_claims m = hardware_claims (mo_hardware m) @ radio_claims (mo_radio m) @ signal_claims (mo_signal m) @
     sim_claims (mo_sim m) @ cell_claims (mo_cell m)"

lemmas claim_defs = hardware_claims_def radio_claims_def signal_claims_def sim_claims_def cell_claims_def

text \<open>A raw field, or a member of a raw dictionary, that is there and whose key is among the claimed ones.\<close>

definition evidence :: "raw_record \<Rightarrow> string list \<Rightarrow> string \<Rightarrow> bool" where
  "evidence raw consumed f \<longleftrightarrow>
     (hasRawField raw f \<and> f \<in> set consumed) \<or>
     (\<exists>d m. f = d @ ''.'' @ m \<and> hasRawDictMember raw d m \<and> hasRawField raw d \<and> d \<in> set consumed)"

definition backed :: "raw_record \<Rightarrow> string list \<Rightarrow> missing_reason option \<times> metric_provenance \<Rightarrow> bool" where
  "backed raw consumed c \<longleftrightarrow> fst c \<noteq> None \<or> list_ex (evidence raw consumed) (mp_rawFields (snd c))"

definition read_class :: "missing_reason option \<times> metric_provenance \<Rightarrow> bool" where
  "read_class c \<longleftrightarrow> fst c \<noteq> Some UnsupportedField"

section \<open>The claims of every step\<close>

definition grows :: "claims \<Rightarrow> claims \<Rightarrow> bool" where
  "grows s s' \<longleftrightarrow> set (cm_consumed s) \<subseteq> set (cm_consumed s')"

definition good_claim :: "raw_record \<Rightarrow> claims \<Rightarrow> missing_reason option \<times> metric_provenance \<Rightarrow> bool" where
  "good_claim raw s c \<longleftrightarrow> backed raw (cm_consumed s) c \<and> read_class c"

lemma grows_refl [simp]: "grows s s" by (simp add: grows_def)
lemma grows_trans: "grows s s' \<Longrightarrow> grows s' s'' \<Longrightarrow> grows s s''" by (auto simp: grows_def)

lemma evidence_mono: "evidence raw C f \<Longrightarrow> set C \<subseteq> set C' \<Longrightarrow> evidence raw C' f"
  by (auto simp: evidence_def)

lemma good_claim_mono: "good_claim raw s c \<Longrightarrow> grows s s' \<Longrightarrow> good_claim raw s' c"
  by (auto simp: good_claim_def backed_def grows_def list_ex_iff intro: evidence_mono)

lemma claim_as_run:
  "run_state (claim_as src context consumed named authority) s =
     (metricProvenance src context named authority, s\<lparr>cm_consumed := cm_consumed s @ consumed\<rparr>)"
  by (simp add: claim_as_def)

lemma add_note_run: "run_state (add_note code field) s = ((), s\<lparr>cm_notes := cm_notes s @ [(code, field)]\<rparr>)"
  by (simp add: add_note_def)

lemmas claim_runs = claim_as_run add_note_run mm_provenance_def mm_dictProvenance_def

lemma metricProvenance_rawFields [simp]: "mp_rawFields (metricProvenance src context named authority) = named"
  by (simp add: metricProvenance_def)

lemma raw_number_present: "raw_number_of v = Some q \<Longrightarrow> v \<noteq> None"
  by (cases v) (simp_all add: raw_number_of_def)

lemma read_present:
  "rawString nt raw key = Some x \<Longrightarrow> hasRawField raw key"
  "rawNumber raw key = Some q \<Longrightarrow> hasRawField raw key"
  "rawStringArray raw key = Some xs \<Longrightarrow> hasRawField raw key"
  "rawNumberAt raw key i = Some q \<Longrightarrow> hasRawField raw key"
  "rawBooleanAt raw key i = Some b \<Longrightarrow> hasRawField raw key"
  "hasRawDictMember raw key m \<Longrightarrow> hasRawField raw key"
  by (auto simp: rawString_def rawNumber_def rawStringArray_def rawNumberAt_def rawBooleanAt_def hasRawField_def
      hasRawDictMember_def rawDictMember_def rawStructMember_def raw_number_of_def split: option.splits)

lemma good_claim_known:
  "hasRawField raw f \<Longrightarrow> f \<in> set named \<Longrightarrow> f \<in> set (cm_consumed s) \<Longrightarrow>
   good_claim raw s (None, metricProvenance src context named authority)"
  by (auto simp: good_claim_def backed_def read_class_def list_ex_iff evidence_def)

lemma good_claim_field:
  "hasRawField raw f \<Longrightarrow> f \<in> set (cm_consumed s) \<Longrightarrow> good_claim raw s (None, metricProvenance src context [f] authority)"
  by (rule good_claim_known) simp_all

lemma good_claim_unknown: "r \<noteq> UnsupportedField \<Longrightarrow> good_claim raw s (Some r, p)"
  by (simp add: good_claim_def backed_def read_class_def)


lemma registrationString_ok:
  "run_state (registrationString nt context raw key) s = (m, s') \<Longrightarrow> good_claim raw s' (claim_of m) \<and> grows s s'"
  by (cases "rawString nt raw key")
    (auto simp: registrationString_def claim_runs metricFromOptional_def grows_def simp: good_claim_field good_claim_unknown dest: read_present)

lemma decodedLabel_ok:
  "run_state (decodedLabel context raw key decode) s = (m, s') \<Longrightarrow> good_claim raw s' (claim_of m) \<and> grows s s'"
  by (cases "hasRawField raw key"; cases "decode (rawNumber raw key) = ''unknown''")
    (auto simp: decodedLabel_def claim_runs grows_def Let_def simp: good_claim_field good_claim_unknown dest: read_present)

lemma decodedOptional_ok:
  "run_state (decodedOptional context raw key decode absent) s = (m, s') \<Longrightarrow> absent \<noteq> UnsupportedField \<Longrightarrow>
   good_claim raw s' (claim_of m) \<and> grows s s'"
  by (cases "hasRawField raw key"; cases "decode (rawNumber raw key)")
    (auto simp: decodedOptional_def claim_runs grows_def simp: good_claim_field good_claim_unknown dest: read_present)

lemma accessTechnologies_ok:
  assumes "run_state (normalizeAccessTechnologies context raw) s = (m, s')"
  shows "good_claim raw s' (claim_of m) \<and> grows s s'"
proof -
  let ?p = "metricProvenance ModemManagerSource context [ACCESS_TECHNOLOGIES] None"
  have "grows s s' \<and> ACCESS_TECHNOLOGIES \<in> set (cm_consumed s') \<and>
      ((\<exists>v. m = KnownMetric v ?p) \<and> hasRawField raw ACCESS_TECHNOLOGIES \<or> (\<exists>r. r \<noteq> UnsupportedField \<and> m = UnknownMetric r ?p))"
    using assms
    by (cases "hasRawField raw ACCESS_TECHNOLOGIES"; cases "rawNumber raw ACCESS_TECHNOLOGIES")
      (auto simp: normalizeAccessTechnologies_def claim_runs grows_def Let_def split: if_splits)
  then show ?thesis by (auto simp: good_claim_field good_claim_unknown)
qed

lemma modeLabel_ok:
  assumes "run_state (mm_modeLabel context raw) s = (m, s')"
  shows "good_claim raw s' (claim_of m) \<and> grows s s'"
proof -
  let ?p = "metricProvenance ModemManagerSource context [CURRENT_MODES] None"
  have "grows s s' \<and> CURRENT_MODES \<in> set (cm_consumed s') \<and>
      ((\<exists>v. m = KnownMetric v ?p) \<and> hasRawField raw CURRENT_MODES \<or> (\<exists>r. r \<noteq> UnsupportedField \<and> m = UnknownMetric r ?p))"
    using assms
    by (cases "hasRawField raw CURRENT_MODES"; cases "rawNumberAt raw CURRENT_MODES 0")
      (auto simp: mm_modeLabel_def claim_runs grows_def split: if_splits option.splits)
  then show ?thesis by (auto simp: good_claim_field good_claim_unknown)
qed

lemma extended_from_ok:
  "run_state (extended_from context raw missing member dicts flat) s = (m, s') \<Longrightarrow> missing \<noteq> UnsupportedField \<Longrightarrow>
   good_claim raw s' (claim_of m) \<and> grows s s'"
proof (induction dicts arbitrary: s)
  case Nil
  then show ?case
    by (cases "rawNumber raw flat") (auto simp: claim_runs metricFromOptional_def grows_def simp: good_claim_field good_claim_unknown dest: read_present split: if_splits)
next
  case (Cons dict dicts)
  show ?case
  proof (cases "hasRawDictMember raw dict member")
    case False
    with Cons show ?thesis by simp
  next
    case True
    have "good_claim raw s1 (None, metricProvenance ModemManagerSource context [dict @ CHR ''.'' # member] None)"
      if "dict \<in> set (cm_consumed s1)" for s1
      using True that read_present(6) [OF True]
      by (auto simp: good_claim_def backed_def read_class_def evidence_def)
    with True Cons.prems show ?thesis
      by (cases "rawDictNumber raw dict member") (auto simp: claim_runs grows_def intro: good_claim_unknown)
  qed
qed

lemma extended_ok:
  "run_state (extended context raw missing em) s = (m, s') \<Longrightarrow> missing \<noteq> UnsupportedField \<Longrightarrow>
   good_claim raw s' (claim_of m) \<and> grows s s'"
  unfolding extended_def by (rule extended_from_ok)

lemma hardware_ok:
  "run_state (normalizeHardware nt context raw) s = (h, s') \<Longrightarrow> list_all (good_claim raw s') (hardware_claims h) \<and> grows s s'"
proof -
  assume h: "run_state (normalizeHardware nt context raw) s = (h, s')"
  let ?i = "hardwareIdentity nt raw"
  have f: "hasRawField raw MODEL \<or> hasRawField raw MANUFACTURER \<or> hasRawField raw REVISION"
    if "hi_model ?i \<noteq> None \<or> hi_manufacturer ?i \<noteq> None \<or> hi_firmwareRevision ?i \<noteq> None"
    using that by (auto simp: hardwareIdentity_def dest: read_present)
  have g: "good_claim raw s1 (None, metricProvenance src context named authority)"
    if "hasRawField raw MODEL \<or> hasRawField raw MANUFACTURER \<or> hasRawField raw REVISION"
      and "{MODEL, MANUFACTURER, REVISION} \<subseteq> set named" and "{MODEL, MANUFACTURER, REVISION} \<subseteq> set (cm_consumed s1)"
    for s1 src named authority
    using that by (blast intro: good_claim_known)
  show ?thesis
    using h f g [where src = ModemManagerSource and authority = None]
    by (auto simp: normalizeHardware_def claim_runs grows_def Let_def hardware_claims_def good_claim_unknown)
qed

lemma radio_ok:
  assumes "run_state (normalizeRadio nt context raw) s = (r, s')"
  shows "list_all (good_claim raw s') (radio_claims r) \<and> grows s s'"
proof -
  from assms obtain a1 s1 a2 s2 a3 s3 a4 s4 a5 s5 a6 where
    e: "run_state (decodedLabel context raw MM_STATE decodeMmState) s = (a1, s1)"
       "run_state (decodedLabel context raw REGISTRATION_STATE decodeRegistrationState) s1 = (a2, s2)"
       "run_state (normalizeAccessTechnologies context raw) s2 = (a3, s3)"
       "run_state (mm_modeLabel context raw) s3 = (a4, s4)"
       "run_state (registrationString nt context raw OPERATOR_NAME) s4 = (a5, s5)"
       "run_state (registrationString nt context raw OPERATOR_CODE) s5 = (a6, s')"
    and r: "r = \<lparr>nr_modemState = a1, nr_registration = a2, nr_accessTechnologies = a3,
        nr_modeLabel = a4, nr_operatorName = a5, nr_operatorCode = a6\<rparr>"
    by (auto simp: normalizeRadio_def split: prod.splits)
  note ok = decodedLabel_ok [OF e(1)] decodedLabel_ok [OF e(2)] accessTechnologies_ok [OF e(3)] modeLabel_ok [OF e(4)]
    registrationString_ok [OF e(5)] registrationString_ok [OF e(6)]
  from ok have g: "grows s5 s'" "grows s4 s'" "grows s3 s'" "grows s2 s'" "grows s1 s'" "grows s s'"
    by (blast intro: grows_trans)+
  with ok show ?thesis by (auto simp: r radio_claims_def intro: good_claim_mono)
qed

lemma signal_ok:
  assumes "run_state (normalizeSignal context raw signalRead) s = (r, s')"
  shows "grows s s'" and "good_claim raw s' (claim_of (ns_quality r))" and "good_claim raw s' (claim_of (ns_qualityRecent r))"
    and "list_all (good_claim raw s') [claim_of (ns_dbm r), claim_of (ns_rsrp r), claim_of (ns_rsrq r), claim_of (ns_snr r), claim_of (ns_sinr r)]"
    and "ns_bars r = UnknownMetric UnsupportedField (metricProvenance ModemManagerSource context [] None)"
    and "ns_maxBars r = UnknownMetric UnsupportedField (metricProvenance ModemManagerSource context [] None)"
proof -
  let ?missing = "if signalRead then NotReported else NotObserved"
  let ?s0 = "s\<lparr>cm_consumed := cm_consumed s @ [SIGNAL_QUALITY] @ [SIGNAL_QUALITY] @ [] @ []\<rparr>"
  have m: "?missing \<noteq> UnsupportedField" by simp
  from assms obtain a1 s1 a2 s2 a3 s3 a4 s4 a5 where
    e: "run_state (extended context raw ?missing RSSI) ?s0 = (a1, s1)"
       "run_state (extended context raw ?missing RSRP) s1 = (a2, s2)"
       "run_state (extended context raw ?missing RSRQ) s2 = (a3, s3)"
       "run_state (extended context raw ?missing SNR) s3 = (a4, s4)"
       "run_state (extended context raw ?missing SINR) s4 = (a5, s')"
    and r: "r = \<lparr>ns_quality = metricFromOptional (rawNumberAt raw SIGNAL_QUALITY 0) NotReported (metricProvenance ModemManagerSource context [SIGNAL_QUALITY] None),
           ns_qualityRecent = metricFromOptional (rawBooleanAt raw SIGNAL_QUALITY 1) NotReported (metricProvenance ModemManagerSource context [SIGNAL_QUALITY] None),
           ns_bars = UnknownMetric UnsupportedField (metricProvenance ModemManagerSource context [] None),
           ns_maxBars = UnknownMetric UnsupportedField (metricProvenance ModemManagerSource context [] None),
           ns_dbm = a1, ns_rsrp = a2, ns_rsrq = a3, ns_snr = a4, ns_sinr = a5\<rparr>"
    by (auto simp: normalizeSignal_def Let_def claim_runs split: prod.splits)
  note ok = extended_ok [OF e(1) m] extended_ok [OF e(2) m] extended_ok [OF e(3) m] extended_ok [OF e(4) m] extended_ok [OF e(5) m]
  from ok have g: "grows s4 s'" "grows s3 s'" "grows s2 s'" "grows s1 s'" "grows ?s0 s'" by (blast intro: grows_trans)+
  have q: "SIGNAL_QUALITY \<in> set (cm_consumed s')" using g(5) by (simp add: grows_def)
  show "grows s s'" using g(5) by (simp add: grows_def)
  show "list_all (good_claim raw s') [claim_of (ns_dbm r), claim_of (ns_rsrp r), claim_of (ns_rsrq r), claim_of (ns_snr r), claim_of (ns_sinr r)]"
    using ok g by (auto simp: r intro: good_claim_mono)
  show "good_claim raw s' (claim_of (ns_quality r))" and "good_claim raw s' (claim_of (ns_qualityRecent r))"
    using q by (auto simp: r metricFromOptional_def read_present simp: good_claim_field good_claim_unknown dest: read_present split: option.splits)
qed (use assms in \<open>auto simp: normalizeSignal_def Let_def claim_runs split: prod.splits\<close>)

lemma presence_present:
  assumes "readSimPresence (simPresenceFacts nt raw) = (presence, ev)" and "presence \<noteq> SimUnknown"
  shows "hasRawField raw SIM_PATH \<or> hasRawField raw SIM_SLOTS \<or> hasRawField raw FAILED_REASON"
proof (rule ccontr)
  assume "\<not> ?thesis"
  then have "rawString nt raw SIM_PATH = None" "rawStringArray raw SIM_SLOTS = None" "failedReasonOf nt raw = None"
    by (auto simp: failedReasonOf_def rawString_def rawStringArray_def rawNumber_def raw_number_of_def hasRawField_def)
  with assms show False
    by (auto simp: readSimPresence_def simPresenceFacts_def Let_def sim_object_path_def)
qed

lemma sim_ok:
  assumes "run_state (normalizeSim nt context raw simRead) s = (r, s')"
  shows "grows s s'" and "list_all (good_claim raw s') (sim_claims r)"
    and "nm_presence r = KnownMetric SimIsAbsent p \<Longrightarrow>
         nm_presenceEvidence r = StateFailedReason ''sim-missing'' \<and> failedReasonOf nt raw = Some ''sim-missing''"
proof -
  let ?missing = "if simRead then NotReported else NotObserved"
  let ?fields = "[SIM_PATH, SIM_SLOTS, FAILED_REASON]"
  let ?s0 = "s\<lparr>cm_consumed := cm_consumed s @ ?fields\<rparr>" and ?p = "metricProvenance ModemManagerSource context ?fields None"
  have m: "?missing \<noteq> UnsupportedField" by simp
  obtain presence ev where rp: "readSimPresence (simPresenceFacts nt raw) = (presence, ev)" by force
  from assms obtain a1 s1 a2 s2 a3 where
    e: "run_state (decodedOptional context raw UNLOCK_REQUIRED decodeUnlockRequired NotReported) ?s0 = (a1, s1)"
       "run_state (decodedOptional context raw SIM_TYPE decodeSimType ?missing) s1 = (a2, s2)"
       "run_state (decodedOptional context raw ESIM_STATUS decodeEsimStatus ?missing) s2 = (a3, s')"
    and r: "r = \<lparr>nm_presence = (case presence of SimUnknown \<Rightarrow> UnknownMetric NotReported ?p
                    | SimPresent \<Rightarrow> KnownMetric SimIsPresent ?p | SimAbsent \<Rightarrow> KnownMetric SimIsAbsent ?p),
               nm_presenceEvidence = ev, nm_lockRequired = a1, nm_kind = a2, nm_esimStatus = a3\<rparr>"
    by (auto simp: normalizeSim_def Let_def claim_runs rp split: prod.splits)
  note ok = decodedOptional_ok [OF e(1) missing_reason.distinct(1) [symmetric]] decodedOptional_ok [OF e(2) m] decodedOptional_ok [OF e(3) m]
  from ok have g: "grows s2 s'" "grows s1 s'" "grows ?s0 s'" by (blast intro: grows_trans)+
  have c: "set ?fields \<subseteq> set (cm_consumed s')" using g(3) by (simp add: grows_def)
  show "grows s s'" using g(3) by (simp add: grows_def)
  have "good_claim raw s' (claim_of (nm_presence r))"
  proof (cases "presence = SimUnknown")
    case False
    then have "claim_of (nm_presence r) = (None, ?p)" by (cases presence) (simp_all add: r)
    moreover obtain f where "hasRawField raw f" "f \<in> set ?fields" using presence_present [OF rp False] by auto
    ultimately show ?thesis using good_claim_known c by (metis subsetD)
  qed (simp add: r good_claim_unknown)
  then show "list_all (good_claim raw s') (sim_claims r)"
    using ok g by (auto simp: sim_claims_def r intro: good_claim_mono)
  assume "nm_presence r = KnownMetric SimIsAbsent p"
  then have "presence = SimAbsent" by (cases presence) (simp_all add: r)
  with rp show "nm_presenceEvidence r = StateFailedReason ''sim-missing'' \<and> failedReasonOf nt raw = Some ''sim-missing''"
    by (auto simp: r readSimPresence_def simPresenceFacts_def Let_def SIM_MISSING_FAILED_REASON_def
        split: if_splits option.splits)
qed

lemma cell_ok:
  "run_state (normalizeCell nt context raw locationRead) s = (r, s') \<Longrightarrow> list_all (good_claim raw s') (cell_claims r) \<and> grows s s'"
  by (auto simp: normalizeCell_def claim_runs grows_def cell_claims_def Let_def simp: good_claim_field good_claim_unknown dest: read_present
      split: if_splits option.splits)

section \<open>Nothing is dropped\<close>

lemma prefixed_other:
  assumes "CHR ''.'' \<notin> set b" and "CHR ''.'' \<notin> set b'" and "b \<noteq> b'"
  shows "map_of (prefixRawRecord b given) (rawKey b' f) = None"
proof -
  have "map_of (foldl (\<lambda>out (field, value). AList.update (rawKey b field) value out) out kvs) (rawKey b' f) = map_of out (rawKey b' f)"
    for out :: raw_record and kvs
    using rawKey_body [OF assms(2,1)] assms(3) by (induction kvs arbitrary: out) (auto simp: map_get_set)
  then show ?thesis by (simp add: prefixRawRecord_def)
qed

lemma prefixed_distinct: "distinct (map fst (prefixRawRecord b given))"
proof -
  have "distinct (map fst (foldl (\<lambda>out (field, value). AList.update (rawKey b field) value out) out kvs))"
    if "distinct (map fst out)" for out :: raw_record and kvs
    using that by (induction kvs arbitrary: out) (auto simp: distinct_keys_set)
  then show ?thesis by (simp add: prefixRawRecord_def)
qed

lemma merged_distinct: "distinct (map fst (mergeRawRecords rs))"
  by (induction rs rule: rev_induct) (simp_all add: mergeRawRecords_def foldl_assign_distinct)

lemma merged_snoc:
  "map_of (mergeRawRecords (rs @ [prefixRawRecord b given])) k =
     (case map_of (prefixRawRecord b given) k of Some v \<Rightarrow> Some v | None \<Rightarrow> map_of (mergeRawRecords rs) k)"
  by (simp add: mergeRawRecords_def foldl_assign_get prefixed_distinct split: option.split)

definition dotless :: "string \<Rightarrow> bool" where "dotless b \<longleftrightarrow> CHR ''.'' \<notin> set b"

lemma merged_other:
  "list_all (dotless \<circ> fst) bs \<Longrightarrow> dotless body \<Longrightarrow> body \<notin> fst ` set bs \<Longrightarrow>
   map_of (mergeRawRecords (map (\<lambda>(b, g). prefixRawRecord b g) bs)) (rawKey body f) = None"
proof (induction bs rule: rev_induct)
  case (snoc x bs)
  obtain b g where "x = (b, g)" by force
  with snoc have "map_of (prefixRawRecord b g) (rawKey body f) = None" by (auto simp: dotless_def intro!: prefixed_other)
  with snoc \<open>x = (b, g)\<close> show ?case by (simp add: merged_snoc)
qed (simp add: mergeRawRecords_def)

lemma merged_bodies:
  "list_all (dotless \<circ> fst) bs \<Longrightarrow> distinct (map fst bs) \<Longrightarrow> (body, given) \<in> set bs \<Longrightarrow>
   map_of (mergeRawRecords (map (\<lambda>(b, g). prefixRawRecord b g) bs)) (rawKey body f) =
     map_of (prefixRawRecord body given) (rawKey body f)"
proof (induction bs rule: rev_induct)
  case (snoc x bs)
  obtain b g where x: "x = (b, g)" by force
  show ?case
  proof (cases "b = body")
    case True
    with snoc.prems x have "given = g" and "body \<notin> fst ` set bs" by (force simp: rev_image_eqI)+
    moreover from True snoc.prems x have "dotless body" "list_all (dotless \<circ> fst) bs" by (simp_all add: list_all_iff)
    ultimately show ?thesis using True x merged_other [of bs body f] by (simp add: merged_snoc split: option.splits)
  next
    case False
    with snoc.prems x have m: "(body, given) \<in> set bs" by auto
    with snoc.prems(1) x have "dotless b" "dotless body" by (auto simp: list_all_iff)
    with False prefixed_other [of b body g f] snoc.IH snoc.prems m x show ?thesis by (simp add: merged_snoc dotless_def)
  qed
qed simp

definition mm_bodies :: "mm_input \<Rightarrow> (string \<times> raw_record option) list" where
  "mm_bodies input =
     [(''Modem'', mi_modem input), (''Modem3gpp'', mi_modem3gpp input), (''Sim'', mi_sim input),
      (''Signal'', mi_signal input), (''Location'', mi_location input)]"

lemma mm_raw_keeps:
  assumes "(body, given) \<in> set (mm_bodies input)" and "case given of None \<Rightarrow> True | Some r \<Rightarrow> distinct (map fst r)"
  shows "map_of (mm_raw input) (rawKey body f) = (case given of None \<Rightarrow> None | Some r \<Rightarrow> map_of r f)"
proof -
  have own: "map_of (prefixRawRecord body given) (rawKey body f) = (case given of None \<Rightarrow> None | Some r \<Rightarrow> map_of r f)"
    using assms(2) prefixed_get by (cases given) (simp_all add: prefixRawRecord_def object_entries_def)
  have "mm_raw input = mergeRawRecords (map (\<lambda>(b, g). prefixRawRecord b g) (mm_bodies input))"
    by (simp add: mm_raw_def mm_bodies_def)
  moreover have "list_all (dotless \<circ> fst) (mm_bodies input)" "distinct (map fst (mm_bodies input))"
    by (simp_all add: mm_bodies_def dotless_def)
  ultimately show ?thesis using merged_bodies assms(1) own by simp
qed

section \<open>The whole observation\<close>

lemma diagnostics_account:
  assumes "d = createObservationDiagnostics src raw consumed ns" and "distinct (map fst raw)"
  shows "set (dg_consumed d) \<union> set (dg_unmapped d) = fst ` set raw"
    and "set (dg_consumed d) \<inter> set (dg_unmapped d) = {}"
    and "distinct (dg_consumed d)" and "distinct (dg_unmapped d)"
    and "dg_raw d = raw"
    and "k \<in> set (dg_consumed d) \<longleftrightarrow> k \<in> set consumed \<and> hasRawField raw k"
  using assms
  by (auto simp: createObservationDiagnostics_def Let_def hasRawField_def map_of_eq_None_iff)

lemma evidence_diagnosed:
  assumes "evidence raw consumed f" and "distinct (map fst raw)"
  shows "evidence raw (dg_consumed (createObservationDiagnostics src raw consumed ns)) f"
  using assms(1) diagnostics_account(6) [OF refl assms(2), of _ src consumed ns] by (auto simp: evidence_def)

lemma mm_raw_distinct: "distinct (map fst (mm_raw input))"
  by (simp add: mm_raw_def merged_distinct)


definition sample_context :: normalization_context where
  "sample_context = \<lparr>nc_stableKey = ''slot:a'', nc_generation = 3, nc_sourceEpoch = 7, nc_observedAt = 1000, nc_authority = None\<rparr>"

definition sample_mm_input :: mm_input where
  "sample_mm_input =
     \<lparr>mi_modem = Some [(''Model'', RawText ''EC25''), (''State'', RawNumber (Fin 8)), (''Sim'', RawText ''/''),
        (''StateFailedReason'', RawNumber (Fin 2)), (''SignalQuality'', RawList [RawNumber (Fin 70), RawFlag True])],
      mi_modem3gpp = None, mi_sim = None,
      mi_signal = Some [(''Lte'', RawList [RawList [RawText ''rsrp'', RawNumber (Fin (- 101))]])], mi_location = None\<rparr>"

definition sample_observation :: modem_observation where
  "sample_observation =
     (case en_body (normalizeModemManagerObservation (\<lambda>_. []) sample_mm_input sample_context) of
        FreshValue obs \<Rightarrow> obs | StaleValue _ _ obs \<Rightarrow> obs)"

definition sample_raw :: raw_record where
  "sample_raw =
     [(''Modem.Model'', RawText ''EC25''), (''Modem.State'', RawNumber (Fin 8)), (''Modem.Sim'', RawText ''/''),
      (''Modem.StateFailedReason'', RawNumber (Fin 2)), (''Modem.SignalQuality'', RawList [RawNumber (Fin 70), RawFlag True]),
      (''Signal.Lte'', RawList [RawList [RawText ''rsrp'', RawNumber (Fin (- 101))]])]"

lemma sample_raw: "mm_raw sample_mm_input = sample_raw"
  by code_simp

lemma sample_presence:
  "readSimPresence (simPresenceFacts (\<lambda>_. []) sample_raw) = (SimAbsent, StateFailedReason ''sim-missing'')"
  by code_simp

lemma sample_rsrp:
  "rawDictNumber sample_raw ''Signal.Lte'' ''rsrp'' = Some (- 101)" "\<not> hasRawDictMember sample_raw ''Signal.Nr5g'' ''rsrp''"
  "hasRawDictMember sample_raw ''Signal.Lte'' ''rsrp''"
  by code_simp+

lemma sample_claims:
  "fst (claim_of (ns_rsrp (mo_signal sample_observation))) = None"
  "nm_presence (mo_sim sample_observation) = KnownMetric SimIsAbsent (metricProvenance ModemManagerSource sample_context [SIM_PATH, SIM_SLOTS, FAILED_REASON] None)"
  by (simp_all add: sample_observation_def normalizeModemManagerObservation_def mm_claiming_def freshObservation_def sample_raw
      normalizeSignal_def normalizeSim_def sample_presence extended_def RSRP_def sample_rsrp claim_runs Let_def split: prod.splits)


text \<open>The diagnostics of a ModemManager observation drop nothing: every property of every interface that was
  read is held verbatim under the name of its interface, and every field held is listed once, either as claimed
  by a metric or as unmapped.\<close>
theorem mm_payload_is_kept:
  assumes "en_body (normalizeModemManagerObservation num_text input context) = FreshValue obs"
    and "list_all (\<lambda>(_, given). case given of None \<Rightarrow> True | Some r \<Rightarrow> distinct (map fst r)) (mm_bodies input)"
  shows "(list_all (\<lambda>(body, given). \<forall>f. map_of (dg_raw (mo_diagnostics obs)) (rawKey body f) =
           (case given of None \<Rightarrow> None | Some r \<Rightarrow> map_of r f)) (mm_bodies input))
    \<and> (mset (dg_consumed (mo_diagnostics obs)) + mset (dg_unmapped (mo_diagnostics obs)) =
           mset (map fst (dg_raw (mo_diagnostics obs))))
    \<and> (distinct (map fst (dg_raw (mo_diagnostics obs))))"
proof (intro conjI)
  obtain consumed ns where d: "mo_diagnostics obs = createObservationDiagnostics ModemManagerSource (mm_raw input) consumed ns"
    using assms(1) by (auto simp: normalizeModemManagerObservation_def freshObservation_def split: prod.splits)
  note account = diagnostics_account [OF refl mm_raw_distinct [of input], where src = ModemManagerSource and consumed = consumed and ns = ns]
  show "distinct (map fst (dg_raw (mo_diagnostics obs)))" by (simp add: d account(5) mm_raw_distinct)
  show "list_all (\<lambda>(body, given). \<forall>f. map_of (dg_raw (mo_diagnostics obs)) (rawKey body f) =
           (case given of None \<Rightarrow> None | Some r \<Rightarrow> map_of r f)) (mm_bodies input)"
    using assms(2) mm_raw_keeps [of _ _ input] by (auto simp: d account(5) list_all_iff)
  have "mset (dg_consumed (mo_diagnostics obs)) + mset (dg_unmapped (mo_diagnostics obs)) = mset (dg_consumed (mo_diagnostics obs) @ dg_unmapped (mo_diagnostics obs))"
    by simp
  also have "\<dots> = mset (map fst (dg_raw (mo_diagnostics obs)))"
    using account mm_raw_distinct [of input] by (subst set_eq_iff_mset_eq_distinct [symmetric]) (auto simp: d)
  finally show "mset (dg_consumed (mo_diagnostics obs)) + mset (dg_unmapped (mo_diagnostics obs)) =
           mset (map fst (dg_raw (mo_diagnostics obs)))" .
qed

theorem mm_payload_is_kept_witness:
  "map_of (dg_raw (mo_diagnostics sample_observation)) ''Signal.Lte'' = Some (RawList [RawList [RawText ''rsrp'', RawNumber (Fin (- 101))]])"
proof -
  have "en_body (normalizeModemManagerObservation (\<lambda>_. []) sample_mm_input sample_context) = FreshValue sample_observation"
    by (simp add: sample_observation_def normalizeModemManagerObservation_def freshObservation_def split: prod.splits)
  moreover have "list_all (\<lambda>(_, given). case given of None \<Rightarrow> True | Some r \<Rightarrow> distinct (map fst r)) (mm_bodies sample_mm_input)"
    by (simp add: mm_bodies_def sample_mm_input_def)
  ultimately have "list_all (\<lambda>(body, given). \<forall>f. map_of (dg_raw (mo_diagnostics sample_observation)) (rawKey body f) =
           (case given of None \<Rightarrow> None | Some r \<Rightarrow> map_of r f)) (mm_bodies sample_mm_input)"
    by (rule mm_payload_is_kept [THEN conjunct1])
  then have "map_of (dg_raw (mo_diagnostics sample_observation)) (rawKey ''Signal'' ''Lte'') =
      map_of [(''Lte'', RawList [RawList [RawText ''rsrp'', RawNumber (Fin (- 101))]])] ''Lte''"
    by (simp add: mm_bodies_def sample_mm_input_def)
  then show ?thesis by (simp add: rawKey_def)
qed

text \<open>
  Redaction goes by the key, so it misses what the block holds under a key of another shape: ModemManager's name
  of the ICCID, the second occurrence of an XML tag, a number qualified by its body, and an identifier inside an
  object that was kept as text.
\<close>

lemma redaction_misses_relabelled_fields:
  "redact_record
     [(''Sim.SimIdentifier'', RawText ''8934''), (''overview.imsi'', RawText ''214''), (''monitoring-status.Imsi#2'', RawText ''214''),
      (''goform.msisdn'', RawText ''346''), (''goform.sim'', normalizeRawValue (\<lambda>_. []) (JObj [(''iccid'', JStr ''89'')]))] =
   [(''Sim.SimIdentifier'', RawText ''8934''), (''overview.imsi'', RawText ''[redacted]''), (''monitoring-status.Imsi#2'', RawText ''214''),
    (''goform.msisdn'', RawText ''346''), (''goform.sim'', RawText ([CHR ''{'', QUOTE] @ ''iccid'' @ [QUOTE, CHR '':'', QUOTE] @ ''89'' @ [QUOTE, CHR ''}'']))]"
  by code_simp

text \<open>A flat signal field that is there and does not decode is malformed, but no note says so.\<close>

lemma flat_malformed_without_note:
  "run_state (extended context [(''Signal.rsrp'', RawText ''n/a'')] NotReported RSRP) s =
     (UnknownMetric Malformed (metricProvenance ModemManagerSource context [''Signal.rsrp''] None),
      s\<lparr>cm_consumed := cm_consumed s @ [''Signal.rsrp'']\<rparr>)"
proof -
  have "rawNumber [(''Signal.rsrp'', RawText ''n/a'')] ''Signal.rsrp'' = None" by code_simp
  then show ?thesis
    by (simp add: extended_def RSRP_def hasRawDictMember_def rawDictMember_def claim_runs metricFromOptional_def hasRawField_def)
qed

end
