(* ===== verification/Router_Parsers.thy ===== *)
theory Router_Parsers
  imports Observation_Decoders
begin

text \<open>
  The parsers of the router admin APIs (\<open>hardware/hilink-protocol.ts\<close>, \<open>hardware/router-parsers.ts\<close> and
  \<open>parseJsonWith\<close> of \<open>json-boundary.ts\<close> with its two schemas): HiLink's XML documents, ZTE's flat JSON and
  the UFI envelopes, with the signal and the details read from them. The shared unknown reasons are the ones
  of the metrics, so \<open>metricUnknownReasonFromRouter\<close> is the identity. A finite number survives
  \<open>parseFloat(String(n))\<close>.
\<close>

section \<open>HiLink XML\<close>

text \<open>What comes before and after the first occurrence of a pattern, whatever its letter case.\<close>

fun cut_at :: "string \<Rightarrow> string \<Rightarrow> (string \<times> string) option" where
  "cut_at pattern [] = (if pattern = [] then Some ([], []) else None)"
| "cut_at pattern (c # s) =
     (if prefix (js_lower pattern) (js_lower (c # s)) then Some ([], drop (length pattern) (c # s))
      else map_option (apfst ((#) c)) (cut_at pattern s))"

lemma cut_at_shorter: "cut_at pattern s = Some (a, r) \<Longrightarrow> pattern \<noteq> [] \<Longrightarrow> length r < length s"
  by (induction pattern s arbitrary: a rule: cut_at.induct) (auto split: if_splits)

lemma cut_twice:
  assumes "cut_at p s = Some (a, b)" and "cut_at q b = Some (c, d)" and "p \<noteq> []" and "q \<noteq> []"
  shows "length d < length s"
  using cut_at_shorter [OF assms(2,4)] cut_at_shorter [OF assms(1,3)] by (rule less_trans)

text \<open>\<open><tag>([^<]*)</tag>\<close> at the start of the text.\<close>

definition hilink_value_at :: "string \<Rightarrow> string \<Rightarrow> string option" where
  "hilink_value_at tag s =
     (let open_tag = ''<'' @ tag @ ''>''; rest = drop (length open_tag) s; content = takeWhile (\<lambda>c. c \<noteq> CHR ''<'') rest
      in if prefix (js_lower open_tag) (js_lower s) \<and>
            prefix (js_lower (''</'' @ tag @ ''>'')) (js_lower (drop (length content) rest))
         then Some (js_trim content) else None)"

fun parseHilinkXmlValue :: "string \<Rightarrow> string \<Rightarrow> string option" where
  "parseHilinkXmlValue [] tag = None"
| "parseHilinkXmlValue (c # s) tag =
     (case hilink_value_at tag (c # s) of Some v \<Rightarrow> Some v | None \<Rightarrow> parseHilinkXmlValue s tag)"

record hilink_session_document =
  hs_cookie :: string
  hs_token :: string

definition parseHilinkSession :: "string \<Rightarrow> hilink_session_document option" where
  "parseHilinkSession body =
     (case (parseHilinkXmlValue body ''SesInfo'', parseHilinkXmlValue body ''TokInfo'') of
        (Some cookie, Some token) \<Rightarrow>
          if cookie = [] \<or> token = [] then None else Some \<lparr>hs_cookie = cookie, hs_token = token\<rparr>
      | _ \<Rightarrow> None)"

record hilink_user_state =
  hu_state :: string
  hu_passwordType :: nat

definition parseHilinkUserState :: "string \<Rightarrow> hilink_user_state option" where
  "parseHilinkUserState body =
     (case parseHilinkXmlValue body ''State'' of
        None \<Rightarrow> None
      | Some user_state \<Rightarrow>
          (let rawPasswordType = parseHilinkXmlValue body ''password_type'' in
           if rawPasswordType \<noteq> Some ''3'' \<and> rawPasswordType \<noteq> Some ''4'' then None
           else Some \<lparr>hu_state = user_state, hu_passwordType = (if rawPasswordType = Some ''3'' then 3 else 4)\<rparr>))"

datatype hilink_data = DataReported bool | DataUnavailable missing_reason "string option"

definition parseHilinkDataCapability :: "string \<Rightarrow> hilink_data" where
  "parseHilinkDataCapability body =
     (let code = parseHilinkXmlValue body ''code'' in
      if code = Some ''125002'' then DataUnavailable AuthExpired None
      else if code \<noteq> None then DataUnavailable Refused code
      else case parseHilinkXmlValue body ''dataswitch'' of
        None \<Rightarrow> DataUnavailable (if body = [] then Unreachable else Malformed) None
      | Some value \<Rightarrow>
          if value \<noteq> ''0'' \<and> value \<noteq> ''1'' then DataUnavailable Malformed None
          else DataReported (value = ''1''))"

datatype hilink_net_mode =
    ModesReported "(string \<times> string option) list" "string option"
  | ModesUnavailable missing_reason "string option"

function network_modes :: "string \<Rightarrow> string list" where
  "network_modes s =
     (case cut_at ''<NetworkMode>'' s of
        None \<Rightarrow> []
      | Some (_, r) \<Rightarrow>
          (case cut_at ''</NetworkMode>'' r of
             None \<Rightarrow> []
           | Some (inner, rest) \<Rightarrow> inner # network_modes rest))"
  by pat_completeness auto
termination
  by (relation "measure length") (auto dest: cut_twice)

declare network_modes.simps [simp del]

definition mode_entry :: "string \<Rightarrow> (string \<times> string option) list" where
  "mode_entry inner =
     (case parseHilinkXmlValue inner ''Index'' of
        None \<Rightarrow> []
      | Some i \<Rightarrow>
          if i = [] then []
          else [(i, case parseHilinkXmlValue inner ''Name'' of None \<Rightarrow> None | Some n \<Rightarrow> if n = [] then None else Some n)])"

definition parseHilinkCapabilities :: "string \<Rightarrow> string option \<Rightarrow> hilink_net_mode" where
  "parseHilinkCapabilities netModeList netMode =
     (let code = parseHilinkXmlValue netModeList ''code'' in
      if code = Some ''125002'' then ModesUnavailable AuthExpired None
      else if code \<noteq> None then ModesUnavailable Refused code
      else if js_trim netModeList = [] then ModesUnavailable Unreachable None
      else if cut_at ''<response>'' netModeList = None then ModesUnavailable Malformed None
      else let modes = concat (map mode_entry (network_modes netModeList)) in
        if modes = [] then ModesUnavailable NotReported None
        else ModesReported modes
          (case parseHilinkXmlValue (case netMode of None \<Rightarrow> [] | Some b \<Rightarrow> b) ''NetworkMode'' of
             None \<Rightarrow> None
           | Some current \<Rightarrow> if current = [] then None else Some current))"

section \<open>Router signals\<close>

datatype router_metric = KnownSignal rat | UnknownSignal missing_reason

datatype router_provenance = HilinkAdminApi | ZteGoformApi | UfiHimiApi

record router_signal =
  rs_provenance :: router_provenance
  rs_live :: bool
  rs_bars :: router_metric
  rs_max_bars :: router_metric
  rs_dbm :: router_metric
  rs_rsrp :: router_metric
  rs_rsrq :: router_metric
  rs_snr :: router_metric
  rs_sinr :: router_metric

datatype scalar = ScalarText string | ScalarNumber rat

definition numericMetric :: "scalar option \<Rightarrow> router_metric" where
  "numericMetric value =
     (case value of
        None \<Rightarrow> UnknownSignal NotReported
      | Some (ScalarNumber q) \<Rightarrow> KnownSignal q
      | Some (ScalarText s) \<Rightarrow>
          if js_trim s = [] then UnknownSignal NotReported
          else case finite_value (js_parseFloat s) of Some q \<Rightarrow> KnownSignal q | None \<Rightarrow> UnknownSignal Malformed)"

text \<open>\<open>flatRecordSchema\<close>: every value a text or a number; and \<open>ufiBodySchema\<close>.\<close>

fun flat_scalar :: "rat json \<Rightarrow> scalar option" where
  "flat_scalar (JStr s) = Some (ScalarText s)"
| "flat_scalar (JNum q) = (if js_finite q then Some (ScalarNumber q) else None)"
| "flat_scalar _ = None"

fun flat_members :: "(string \<times> rat json) list \<Rightarrow> (string \<times> scalar) list option" where
  "flat_members [] = Some []"
| "flat_members ((k, v) # ms) =
     (case (flat_scalar v, flat_members ms) of (Some x, Some rest) \<Rightarrow> Some ((k, x) # rest) | _ \<Rightarrow> None)"

definition flat_record :: "rat json \<Rightarrow> (string \<times> scalar) list option" where
  "flat_record j = (case j of JObj ms \<Rightarrow> flat_members ms | _ \<Rightarrow> None)"

definition parseFlatRecord :: "string \<Rightarrow> (string \<times> scalar) list option" where
  "parseFlatRecord body = Option.bind (json_parse body) flat_record"

record ufi_body =
  ub_reply :: string
  ub_params :: "(string \<times> scalar) list option"

definition parseUfiBody :: "string \<Rightarrow> ufi_body option" where
  "parseUfiBody body =
     (case json_parse body of
        Some (JObj ms) \<Rightarrow>
          (case map_of ms ''reply'' of
             Some (JStr reply) \<Rightarrow>
               (case map_of ms ''params'' of
                  None \<Rightarrow> Some \<lparr>ub_reply = reply, ub_params = None\<rparr>
                | Some p \<Rightarrow> map_option (\<lambda>ps. \<lparr>ub_reply = reply, ub_params = Some ps\<rparr>) (flat_record p))
           | _ \<Rightarrow> None)
      | _ \<Rightarrow> None)"

definition parseHilinkSignal :: "string \<Rightarrow> string \<Rightarrow> router_signal" where
  "parseHilinkSignal status signal =
     (let authStatus = parseHilinkXmlValue status ''code'' = Some ''125002'';
          authSignal = parseHilinkXmlValue signal ''code'' = Some ''125002'';
          statusMetric = (\<lambda>tag. if authStatus then UnknownSignal AuthExpired
                              else numericMetric (map_option ScalarText (parseHilinkXmlValue status tag)));
          metric = (\<lambda>tag. if authSignal then UnknownSignal AuthExpired
                        else numericMetric (map_option ScalarText (parseHilinkXmlValue signal tag)))
      in \<lparr>rs_provenance = HilinkAdminApi, rs_live = (\<not> (authStatus \<and> authSignal)),
          rs_bars = statusMetric ''SignalIcon'', rs_max_bars = statusMetric ''maxsignal'',
          rs_dbm = metric ''rssi'', rs_rsrp = metric ''rsrp'', rs_rsrq = metric ''rsrq'',
          rs_snr = UnknownSignal UnsupportedField, rs_sinr = metric ''sinr''\<rparr>)"

definition parseZteSignal :: "string \<Rightarrow> router_signal" where
  "parseZteSignal body =
     (let rec = parseFlatRecord body;
          metric = (\<lambda>key. case rec of None \<Rightarrow> UnknownSignal Malformed | Some r \<Rightarrow> numericMetric (map_of r key));
          bars = metric ''signalbar''
      in \<lparr>rs_provenance = ZteGoformApi, rs_live = (rec \<noteq> None), rs_bars = bars,
          rs_max_bars = (case bars of KnownSignal _ \<Rightarrow> KnownSignal 5 | UnknownSignal _ \<Rightarrow> UnknownSignal NotReported),
          rs_dbm = metric ''rssi'', rs_rsrp = metric ''lte_rsrp'', rs_rsrq = metric ''lte_rsrq'',
          rs_snr = metric ''lte_snr'', rs_sinr = UnknownSignal UnsupportedField\<rparr>)"

definition ufi_param :: "ufi_body option \<Rightarrow> string \<Rightarrow> scalar option" where
  "ufi_param b key = Option.bind b (\<lambda>u. Option.bind (ub_params u) (\<lambda>ps. map_of ps key))"

definition first_some :: "'a option \<Rightarrow> 'a option \<Rightarrow> 'a option" where
  "first_some x y = (case x of Some v \<Rightarrow> Some v | None \<Rightarrow> y)"

definition parseUfiSignal :: "string \<Rightarrow> string \<Rightarrow> string \<Rightarrow> router_signal" where
  "parseUfiSignal sysinfo overview status =
     (let b0 = parseUfiBody sysinfo; b1 = parseUfiBody overview; b2 = parseUfiBody status;
          authExpired = list_all (\<lambda>b. map_option ub_reply b = Some ''SessionOut'') [b0, b1, b2];
          answered = list_ex (\<lambda>b. map_option ub_reply b = Some ''ok'') [b0, b1, b2];
          value = first_some (ufi_param b0 ''SIGNAL'') (first_some (ufi_param b1 ''SIGNAL'') (ufi_param b2 ''signalStrength''));
          none = UnknownSignal UnsupportedField
      in \<lparr>rs_provenance = UfiHimiApi, rs_live = answered, rs_bars = none, rs_max_bars = none,
          rs_dbm = (if authExpired then UnknownSignal AuthExpired else if answered then numericMetric value
                    else UnknownSignal Malformed),
          rs_rsrp = none, rs_rsrq = none, rs_snr = none, rs_sinr = none\<rparr>)"

section \<open>Router details\<close>

type_synonym router_details = "(string \<times> string) list"

definition PLACEHOLDERS :: "string list" where "PLACEHOLDERS = [''-'', ''--'', ''n/a'', ''N/A'']"

definition stated :: "(rat \<Rightarrow> string) \<Rightarrow> scalar option \<Rightarrow> string option" where
  "stated num_text value =
     (case value of
        None \<Rightarrow> None
      | Some v \<Rightarrow>
          (let normalized = js_trim (case v of ScalarText s \<Rightarrow> s | ScalarNumber q \<Rightarrow> js_number_text num_text (Fin q))
           in if normalized = [] \<or> normalized \<in> set PLACEHOLDERS then None else Some normalized))"

definition compact :: "(string \<times> string option) list \<Rightarrow> router_details option" where
  "compact entries =
     (let result = foldl (\<lambda>r (key, value). case value of Some v \<Rightarrow> AList.update key v r | None \<Rightarrow> r) [] entries
      in if result = [] then None else Some result)"

definition parseZteDetails :: "(rat \<Rightarrow> string) \<Rightarrow> string \<Rightarrow> router_details option" where
  "parseZteDetails num_text body =
     (case parseFlatRecord body of
        None \<Rightarrow> None
      | Some value \<Rightarrow>
          (let field = (\<lambda>key. stated num_text (map_of value key)) in
           compact
             [(''network_type'', field ''network_type''),
              (''provider'', first_some (field ''network_provider_fullname'') (first_some (field ''network_provider'') (field ''provider''))),
              (''cell_id'', field ''cell_id''), (''roaming'', field ''simcard_roam''), (''mcc'', field ''rmcc''),
              (''mnc'', field ''rmnc''), (''pci'', field ''lte_pci''),
              (''band'', first_some (field ''lte_band'') (field ''band'')),
              (''network_band'', field ''wan_active_band''), (''carrier_aggregation'', field ''wan_lte_ca''),
              (''pcell_arfcn'', field ''lte_ca_pcell_arfcn''), (''pcell_band'', field ''lte_ca_pcell_band''),
              (''pcell_bandwidth'', field ''lte_ca_pcell_bandwidth''), (''scell_arfcn'', field ''lte_ca_scell_arfcn''),
              (''scell_band'', field ''lte_ca_scell_band''), (''scell_bandwidth'', field ''lte_ca_scell_bandwidth''),
              (''monthly_tx_bytes'', field ''monthly_tx_bytes''), (''monthly_rx_bytes'', field ''monthly_rx_bytes''),
              (''monthly_time'', field ''monthly_time''), (''monthly_period'', field ''date_month''),
              (''session_tx_bytes'', field ''realtime_tx_bytes''), (''session_rx_bytes'', field ''realtime_rx_bytes''),
              (''session_tx_rate'', field ''realtime_tx_thrpt''), (''session_rx_rate'', field ''realtime_rx_thrpt''),
              (''session_time'', field ''realtime_time'')]))"

definition parseUfiDetails ::
  "(rat \<Rightarrow> string) \<Rightarrow> string option \<Rightarrow> string option \<Rightarrow> string option \<Rightarrow> router_details option" where
  "parseUfiDetails num_text overview sysinfo produceInfo =
     (let body = (\<lambda>b. parseUfiBody (case b of None \<Rightarrow> [] | Some t \<Rightarrow> t));
          o_field = (\<lambda>key. stated num_text (ufi_param (body overview) key));
          s_field = (\<lambda>key. stated num_text (ufi_param (body sysinfo) key));
          p_field = (\<lambda>key. stated num_text (ufi_param (body produceInfo) key))
      in compact
        [(''product'', first_some (p_field ''productname'') (p_field ''ProductName'')),
         (''ssid'', o_field ''SSID''), (''wan_ip'', o_field ''WANIP''), (''imsi'', o_field ''IMSI''),
         (''iccid'', o_field ''ICCID''), (''web_version'', o_field ''WEBVER''),
         (''cell_id'', s_field ''cellid''), (''station_id'', s_field ''bsid''), (''cpu_temp'', s_field ''cputemp''),
         (''wifi_clients'', s_field ''wifinum''), (''eth_clients'', s_field ''ethnum'')])"

section \<open>Facts about the parsers\<close>

text \<open>A router signal is unsupported by its source or not, whatever the payload says.\<close>

definition signal_capabilities :: "router_signal \<Rightarrow> bool list" where
  "signal_capabilities s =
     map (\<lambda>m. m \<noteq> UnknownSignal UnsupportedField)
       [rs_bars s, rs_max_bars s, rs_dbm s, rs_rsrp s, rs_rsrq s, rs_snr s, rs_sinr s]"

lemma numericMetric_supported [simp]: "numericMetric v \<noteq> UnknownSignal UnsupportedField"
  by (auto simp: numericMetric_def split: option.splits scalar.splits if_splits)

lemma signal_capabilities_fixed:
  "signal_capabilities (parseHilinkSignal st sg) = [True, True, True, True, True, False, True]"
  "signal_capabilities (parseZteSignal body) = [True, True, True, True, True, True, False]"
  "signal_capabilities (parseUfiSignal sysinfo overview st) = [False, False, True, False, False, False, False]"
  by (auto simp: signal_capabilities_def parseHilinkSignal_def parseZteSignal_def parseUfiSignal_def Let_def
      split: option.splits router_metric.splits)

lemma stated_not_placeholder: "stated nt v = Some s \<Longrightarrow> s \<noteq> [] \<and> s \<notin> set PLACEHOLDERS"
  by (auto simp: stated_def Let_def split: option.splits if_splits)

lemma hilink_example: "parseHilinkXmlValue ''<RSRP> -97</rsrp>'' ''rsrp'' = Some ''-97''"
  by code_simp

end
