(* ===== verification/Router_Observation.thy ===== *)
theory Router_Observation
  imports Mm_Observation_Properties Router_Parsers
begin

text \<open>
  The router sources of the observation layer (\<open>observations/sources/router-shared.ts\<close>, \<open>hilink.ts\<close>,
  \<open>zte.ts\<close>, \<open>ufi.ts\<close>): the claims every admin API makes alike, and the three normalizers over the
  parsers of \<open>hardware/router-parsers.ts\<close>.
\<close>

section \<open>Shared claims\<close>

definition router_claim ::
  "source_kind \<Rightarrow> normalization_context \<Rightarrow> string list \<Rightarrow> obs_authority option \<Rightarrow> metric_provenance claiming" where
  "router_claim source context claimed authority = claim_as source context claimed claimed authority"

fun metricFromRouterSignal :: "router_metric \<Rightarrow> metric_provenance \<Rightarrow> rat obs_metric" where
  "metricFromRouterSignal (KnownSignal v) p = KnownMetric v p"
| "metricFromRouterSignal (UnknownSignal r) p = UnknownMetric r p"

definition router_signal_metric ::
  "source_kind \<Rightarrow> normalization_context \<Rightarrow> router_metric \<Rightarrow> string list \<Rightarrow> obs_authority option \<Rightarrow> rat obs_metric claiming" where
  "router_signal_metric source context m claimed authority = do {
     p \<leftarrow> router_claim source context claimed authority;
     State_Monad.return (metricFromRouterSignal m p)
   }"

definition unknown_metric ::
  "source_kind \<Rightarrow> normalization_context \<Rightarrow> missing_reason \<Rightarrow> 'v obs_metric claiming" where
  "unknown_metric source context reason = do {
     p \<leftarrow> router_claim source context [] None;
     State_Monad.return (UnknownMetric reason p)
   }"

definition unsupportedRadioMetric :: "source_kind \<Rightarrow> normalization_context \<Rightarrow> string obs_metric claiming" where
  "unsupportedRadioMetric source context = unknown_metric source context UnsupportedField"

definition unsupportedQualityRecent :: "source_kind \<Rightarrow> normalization_context \<Rightarrow> bool obs_metric claiming" where
  "unsupportedQualityRecent source context = unknown_metric source context UnsupportedField"

definition routerSim :: "source_kind \<Rightarrow> normalization_context \<Rightarrow> string option \<Rightarrow> normalized_sim claiming" where
  "routerSim source context vendorPresenceField = do {
     presence \<leftarrow> unknown_metric source context NotReported;
     lockRequired \<leftarrow> unknown_metric source context UnsupportedField;
     kind \<leftarrow> unknown_metric source context UnsupportedField;
     esimStatus \<leftarrow> unknown_metric source context UnsupportedField;
     State_Monad.return
       \<lparr>nm_presence = presence,
        nm_presenceEvidence = (case vendorPresenceField of None \<Rightarrow> NoEvidence [] | Some f \<Rightarrow> VendorCodeUnclaimed f),
        nm_lockRequired = lockRequired, nm_kind = kind, nm_esimStatus = esimStatus\<rparr>
   }"

text \<open>A value with the field it is attributed to.\<close>

type_synonym attributed = "(string \<times> string) option"

definition attributed_metric :: "source_kind \<Rightarrow> normalization_context \<Rightarrow> attributed \<Rightarrow> string obs_metric claiming" where
  "attributed_metric source context v =
     (case v of
        None \<Rightarrow> unknown_metric source context NotReported
      | Some (x, field) \<Rightarrow> do {
          p \<leftarrow> router_claim source context [field] None;
          State_Monad.return (KnownMetric x p)
        })"

definition routerCell :: "source_kind \<Rightarrow> normalization_context \<Rightarrow> attributed \<Rightarrow> normalized_cell claiming" where
  "routerCell source context cell = do {
     cellId \<leftarrow> attributed_metric source context cell;
     tac \<leftarrow> unknown_metric source context NotReported;
     State_Monad.return \<lparr>nc_cellId = cellId, nc_tac = tac\<rparr>
   }"

definition routerOperator ::
  "source_kind \<Rightarrow> normalization_context \<Rightarrow> attributed \<Rightarrow> (string obs_metric \<times> string obs_metric) claiming" where
  "routerOperator source context operator = do {
     operatorName \<leftarrow> attributed_metric source context operator;
     operatorCode \<leftarrow> unknown_metric source context NotReported;
     State_Monad.return (operatorName, operatorCode)
   }"

definition routerHardware :: "source_kind \<Rightarrow> normalization_context \<Rightarrow> attributed \<Rightarrow> normalized_hardware claiming" where
  "routerHardware source context product = do {
     p \<leftarrow> router_claim source context (case product of None \<Rightarrow> [] | Some (_, field) \<Rightarrow> [field]) None;
     State_Monad.return
       (case product of
          Some (name, _) \<Rightarrow>
            if isUninformativeIdentity (Some name)
            then \<lparr>nh_label = UnknownMetric NotReported p, nh_displayName = UnknownMetric NotReported p\<rparr>
            else (let identity = \<lparr>hi_model = Some name, hi_manufacturer = None, hi_firmwareRevision = None, hi_equipmentId = None\<rparr>
                  in \<lparr>nh_label = KnownMetric (modemHardwareLabel identity) p,
                      nh_displayName = KnownMetric (modemHardwareName identity) p\<rparr>)
        | None \<Rightarrow> \<lparr>nh_label = UnknownMetric NotReported p, nh_displayName = UnknownMetric NotReported p\<rparr>)
   }"

text \<open>The object literal the three normalizers build, in the order they fill it.\<close>

record router_parts =
  rp_product :: attributed
  rp_modeLabel :: "string obs_metric claiming"
  rp_operator :: attributed
  rp_signal :: router_signal
  rp_barsField :: "string list"
  rp_barsAuthority :: "obs_authority option"
  rp_maxBarsField :: "string list"
  rp_dbmField :: "string list"
  rp_rsrpField :: "string list"
  rp_rsrqField :: "string list"
  rp_snrField :: "string list"
  rp_sinrField :: "string list"
  rp_presenceField :: "string option"
  rp_cell :: attributed

definition router_claiming ::
  "source_kind \<Rightarrow> normalization_context \<Rightarrow> router_parts \<Rightarrow>
   (normalized_hardware \<times> normalized_radio \<times> normalized_signal \<times> normalized_sim \<times> normalized_cell) claiming" where
  "router_claiming source context parts =
     (let s = rp_signal parts; authority = rp_barsAuthority parts; metric = router_signal_metric source context in do {
        hardware \<leftarrow> routerHardware source context (rp_product parts);
        modemState \<leftarrow> unsupportedRadioMetric source context;
        registration \<leftarrow> unsupportedRadioMetric source context;
        accessTechnologies \<leftarrow> unknown_metric source context UnsupportedField;
        modeLabel \<leftarrow> rp_modeLabel parts;
        operator \<leftarrow> routerOperator source context (rp_operator parts);
        quality \<leftarrow> unknown_metric source context UnsupportedField;
        qualityRecent \<leftarrow> unsupportedQualityRecent source context;
        bars \<leftarrow> metric (rs_bars s) (rp_barsField parts) authority;
        maxBars \<leftarrow> metric (rs_max_bars s) (rp_maxBarsField parts) authority;
        dbm \<leftarrow> metric (rs_dbm s) (rp_dbmField parts) None;
        rsrp \<leftarrow> metric (rs_rsrp s) (rp_rsrpField parts) None;
        rsrq \<leftarrow> metric (rs_rsrq s) (rp_rsrqField parts) None;
        snr \<leftarrow> metric (rs_snr s) (rp_snrField parts) None;
        sinr \<leftarrow> metric (rs_sinr s) (rp_sinrField parts) None;
        sim \<leftarrow> routerSim source context (rp_presenceField parts);
        cell \<leftarrow> routerCell source context (rp_cell parts);
        State_Monad.return
          (hardware,
           \<lparr>nr_modemState = modemState, nr_registration = registration, nr_accessTechnologies = accessTechnologies,
            nr_modeLabel = modeLabel, nr_operatorName = fst operator, nr_operatorCode = snd operator\<rparr>,
           \<lparr>ns_quality = quality, ns_qualityRecent = qualityRecent, ns_bars = bars, ns_maxBars = maxBars, ns_dbm = dbm,
            ns_rsrp = rsrp, ns_rsrq = rsrq, ns_snr = snr, ns_sinr = sinr\<rparr>,
           sim, cell)
      })"

definition router_observation ::
  "source_kind \<Rightarrow> normalization_context \<Rightarrow> raw_record \<Rightarrow> diagnostic_note list \<Rightarrow> router_parts \<Rightarrow>
   modem_observation observation_envelope" where
  "router_observation source context raw notes_before parts =
     (case run_state (router_claiming source context parts) \<lparr>cm_consumed = [], cm_notes = notes_before\<rparr> of
        ((hardware, radio, signal, sim, cell), cs) \<Rightarrow>
          freshObservation source context
            \<lparr>mo_source = source, mo_hardware = hardware, mo_radio = radio, mo_signal = signal, mo_sim = sim, mo_cell = cell,
             mo_diagnostics = createObservationDiagnostics source raw (cm_consumed cs) (cm_notes cs)\<rparr>)"

section \<open>HiLink\<close>

record hilink_input =
  hl_status :: string
  hl_signal :: string
  hl_netModeList :: "string option"
  hl_netMode :: "string option"

definition body_or_empty :: "string option \<Rightarrow> string" where
  "body_or_empty b = (case b of None \<Rightarrow> [] | Some t \<Rightarrow> t)"

definition hilink_raw :: "hilink_input \<Rightarrow> raw_record" where
  "hilink_raw input =
     mergeRawRecords
       [flattenXmlBody (hl_status input) ''monitoring-status'', flattenXmlBody (hl_signal input) ''device-signal'',
        flattenXmlBody (body_or_empty (hl_netModeList input)) ''net-mode-list'',
        flattenXmlBody (body_or_empty (hl_netMode input)) ''net-mode'']"

definition hilink_modeLabel :: "normalization_context \<Rightarrow> hilink_net_mode \<Rightarrow> string obs_metric claiming" where
  "hilink_modeLabel context capability = do {
     source \<leftarrow> router_claim HuaweiHilinkSource context [rawKey ''net-mode'' ''NetworkMode''] None;
     State_Monad.return
       (case capability of
          ModesUnavailable reason _ \<Rightarrow> UnknownMetric reason source
        | ModesReported _ current \<Rightarrow> metricFromOptional current NotReported source)
   }"

definition hilink_notes :: "hilink_input \<Rightarrow> diagnostic_note list" where
  "hilink_notes input =
     concat (map (\<lambda>(body, content).
        if js_includes ''<code>125002</code>'' content then [(AuthExpiredNote, rawKey body ''code'')] else [])
       [(''monitoring-status'', hl_status input), (''device-signal'', hl_signal input)])"

definition hilink_parts :: "hilink_input \<Rightarrow> normalization_context \<Rightarrow> router_parts" where
  "hilink_parts input context =
     (let sim_status = rawKey ''monitoring-status'' ''SimStatus'' in
      \<lparr>rp_product = None,
       rp_modeLabel =
         hilink_modeLabel context (parseHilinkCapabilities (body_or_empty (hl_netModeList input)) (hl_netMode input)),
       rp_operator = None, rp_signal = parseHilinkSignal (hl_status input) (hl_signal input),
       rp_barsField = [rawKey ''monitoring-status'' ''SignalIcon''], rp_barsAuthority = Some DerivedAuthority,
       rp_maxBarsField = [rawKey ''monitoring-status'' ''maxsignal''],
       rp_dbmField = [rawKey ''device-signal'' ''rssi''], rp_rsrpField = [rawKey ''device-signal'' ''rsrp''],
       rp_rsrqField = [rawKey ''device-signal'' ''rsrq''], rp_snrField = [], rp_sinrField = [rawKey ''device-signal'' ''sinr''],
       rp_presenceField = (if hasRawField (hilink_raw input) sim_status then Some sim_status else None),
       rp_cell = None\<rparr>)"

definition normalizeHilinkObservation ::
  "hilink_input \<Rightarrow> normalization_context \<Rightarrow> modem_observation observation_envelope" where
  "normalizeHilinkObservation input context =
     router_observation HuaweiHilinkSource context (hilink_raw input) (hilink_notes input) (hilink_parts input context)"

section \<open>ZTE goform\<close>

definition zte_modeLabel :: "normalization_context \<Rightarrow> string option \<Rightarrow> bool \<Rightarrow> string obs_metric claiming" where
  "zte_modeLabel context networkType answered = do {
     source \<leftarrow> router_claim ZteGoformSource context [rawKey ''goform'' ''network_type''] None;
     State_Monad.return (metricFromOptional networkType (if answered then NotReported else Malformed) source)
   }"

definition detail :: "router_details option \<Rightarrow> string \<Rightarrow> string option" where
  "detail details key = Option.bind details (\<lambda>d. map_of d key)"

definition attribute :: "string option \<Rightarrow> string \<Rightarrow> attributed" where
  "attribute v field = map_option (\<lambda>x. (x, field)) v"

definition zte_parts :: "(rat \<Rightarrow> string) \<Rightarrow> string \<Rightarrow> normalization_context \<Rightarrow> router_parts" where
  "zte_parts num_text body context =
     (let parsed = parseJsonRecord num_text body; raw = prefixRawRecord ''goform'' parsed;
          details = parseZteDetails num_text body; sim_state = rawKey ''goform'' ''simcard_state''
      in \<lparr>rp_product = None, rp_modeLabel = zte_modeLabel context (detail details ''network_type'') (parsed \<noteq> None),
          rp_operator = attribute (detail details ''provider'') (rawKey ''goform'' ''network_provider_fullname''),
          rp_signal = parseZteSignal body,
          rp_barsField = [rawKey ''goform'' ''signalbar''], rp_barsAuthority = Some DerivedAuthority, rp_maxBarsField = [],
          rp_dbmField = [rawKey ''goform'' ''rssi''], rp_rsrpField = [rawKey ''goform'' ''lte_rsrp''],
          rp_rsrqField = [rawKey ''goform'' ''lte_rsrq''], rp_snrField = [rawKey ''goform'' ''lte_snr''], rp_sinrField = [],
          rp_presenceField = (if hasRawField raw sim_state then Some sim_state else None),
          rp_cell = attribute (detail details ''cell_id'') (rawKey ''goform'' ''cell_id'')\<rparr>)"

definition normalizeZteObservation ::
  "(rat \<Rightarrow> string) \<Rightarrow> string \<Rightarrow> normalization_context \<Rightarrow> modem_observation observation_envelope" where
  "normalizeZteObservation num_text body context =
     (let parsed = parseJsonRecord num_text body;
          ns = (if parsed = None then [(if js_trim body = [] then EmptyBody else UnparseableBody, ''goform'')] else [])
      in router_observation ZteGoformSource context (prefixRawRecord ''goform'' parsed) ns (zte_parts num_text body context))"

section \<open>UFI\<close>

record ufi_input =
  ui_sysinfo :: string
  ui_overview :: string
  ui_status :: string
  ui_produceInfo :: "string option"

definition flattenUfiEnvelope :: "(rat \<Rightarrow> string) \<Rightarrow> (string \<times> rat json) list option \<Rightarrow> raw_record" where
  "flattenUfiEnvelope num_text doc =
     (case doc of
        None \<Rightarrow> []
      | Some ms \<Rightarrow>
          foldl (\<lambda>out (key, value).
              case (key = ''params'', value) of
                (True, JObj ps) \<Rightarrow>
                  foldl (\<lambda>out (field, param). assign_field field (normalizeRawValue num_text param) out) out (object_entries ps)
              | _ \<Rightarrow> assign_field key (normalizeRawValue num_text value) out)
            [] (object_entries ms))"

definition ufi_bodies :: "ufi_input \<Rightarrow> (string \<times> string) list" where
  "ufi_bodies input =
     [(''sysinfo'', ui_sysinfo input), (''overview'', ui_overview input), (''status'', ui_status input),
      (''produce-info'', body_or_empty (ui_produceInfo input))]"

definition ufi_raw :: "(rat \<Rightarrow> string) \<Rightarrow> ufi_input \<Rightarrow> raw_record" where
  "ufi_raw num_text input =
     mergeRawRecords
       (map (\<lambda>(name, body). prefixRawRecord name (Some (flattenUfiEnvelope num_text (parseJsonObject body)))) (ufi_bodies input))"

definition ufi_notes :: "ufi_input \<Rightarrow> diagnostic_note list" where
  "ufi_notes input =
     concat (map (\<lambda>(name, body).
        let parsed = parseJsonObject body in
        (if parsed = None \<and> js_trim body \<noteq> [] then [(UnparseableBody, name)] else []) @
        (if Option.bind parsed (\<lambda>ms. map_of ms ''reply'') = Some (JStr ''SessionOut'')
         then [(AuthExpiredNote, rawKey name ''reply'')] else []))
       (ufi_bodies input))"

definition ufi_parts :: "(rat \<Rightarrow> string) \<Rightarrow> ufi_input \<Rightarrow> normalization_context \<Rightarrow> router_parts" where
  "ufi_parts num_text input context =
     (let details = parseUfiDetails num_text (Some (ui_overview input)) (Some (ui_sysinfo input)) (ui_produceInfo input);
          sim_state = rawKey ''sysinfo'' ''simstate''
      in \<lparr>rp_product = attribute (detail details ''product'') (rawKey ''produce-info'' ''productname''),
          rp_modeLabel = unknown_metric UfiHimiSource context NotReported, rp_operator = None,
          rp_signal = parseUfiSignal (ui_sysinfo input) (ui_overview input) (ui_status input),
          rp_barsField = [], rp_barsAuthority = None, rp_maxBarsField = [],
          rp_dbmField = [rawKey ''sysinfo'' ''SIGNAL'', rawKey ''overview'' ''SIGNAL'', rawKey ''status'' ''signalStrength''],
          rp_rsrpField = [], rp_rsrqField = [], rp_snrField = [], rp_sinrField = [],
          rp_presenceField = (if hasRawField (ufi_raw num_text input) sim_state then Some sim_state else None),
          rp_cell = attribute (detail details ''cell_id'') (rawKey ''sysinfo'' ''cellid'')\<rparr>)"

definition normalizeUfiObservation ::
  "(rat \<Rightarrow> string) \<Rightarrow> ufi_input \<Rightarrow> normalization_context \<Rightarrow> modem_observation observation_envelope" where
  "normalizeUfiObservation num_text input context =
     router_observation UfiHimiSource context (ufi_raw num_text input) (ufi_notes input) (ufi_parts num_text input context)"

section \<open>What the router sources claim\<close>

lemma router_claim_run:
  "run_state (router_claim src ctxt claimed authority) s =
     (metricProvenance src ctxt claimed authority, s\<lparr>cm_consumed := cm_consumed s @ claimed\<rparr>)"
  by (simp add: router_claim_def claim_as_run)

lemma unknown_metric_run: "run_state (unknown_metric src ctxt r) s = (UnknownMetric r (metricProvenance src ctxt [] None), s)"
  by (simp add: unknown_metric_def router_claim_run)

lemma router_signal_metric_run:
  "run_state (router_signal_metric src ctxt m claimed authority) s =
     (metricFromRouterSignal m (metricProvenance src ctxt claimed authority), s\<lparr>cm_consumed := cm_consumed s @ claimed\<rparr>)"
  by (simp add: router_signal_metric_def router_claim_run)

lemma attributed_metric_run:
  "run_state (attributed_metric src ctxt v) s =
     (case v of None \<Rightarrow> (UnknownMetric NotReported (metricProvenance src ctxt [] None), s)
      | Some (x, f) \<Rightarrow> (KnownMetric x (metricProvenance src ctxt [f] None), s\<lparr>cm_consumed := cm_consumed s @ [f]\<rparr>))"
  by (auto simp: attributed_metric_def unknown_metric_run router_claim_run split: option.splits)

lemmas router_runs = router_claim_run unknown_metric_run router_signal_metric_run attributed_metric_run

lemma capabilities_unavailable:
  "parseHilinkCapabilities netModeList netMode = ModesUnavailable r code \<Longrightarrow> r \<noteq> UnsupportedField"
  by (auto simp: parseHilinkCapabilities_def Let_def split: if_splits)

text \<open>What a source says about itself, in the order of the metrics.\<close>

definition unsupported_metrics :: "modem_observation \<Rightarrow> bool list" where
  "unsupported_metrics m = map (\<lambda>c. fst c = Some UnsupportedField) (all_claims m)"

lemma router_signal_claim [simp]: "fst (claim_of (metricFromRouterSignal m p)) = Some r \<longleftrightarrow> m = UnknownSignal r"
  by (cases m) simp_all

definition good_mode :: "string obs_metric claiming \<Rightarrow> bool" where
  "good_mode m \<longleftrightarrow> (\<forall>s. fst (claim_of (fst (run_state m s))) \<noteq> Some UnsupportedField)"

lemma good_modes:
  "good_mode (hilink_modeLabel context (parseHilinkCapabilities l m))"
  "good_mode (zte_modeLabel context networkType answered)"
  "good_mode (unknown_metric src context NotReported)"
  using capabilities_unavailable [of l m]
  by (auto simp: good_mode_def hilink_modeLabel_def zte_modeLabel_def router_runs metricFromOptional_def
      split: hilink_net_mode.splits option.splits)

lemma router_hardware_claims:
  "run_state (routerHardware src context product) s = (h, s') \<Longrightarrow>
   fst (claim_of (nh_label h)) \<noteq> Some UnsupportedField \<and> fst (claim_of (nh_displayName h)) \<noteq> Some UnsupportedField"
  by (cases product) (auto simp: routerHardware_def router_claim_run Let_def split: if_splits prod.splits)

lemma router_operator_claims:
  "run_state (routerOperator src context operator) s = (ab, s') \<Longrightarrow>
   fst (claim_of (fst ab)) \<noteq> Some UnsupportedField \<and> fst (claim_of (snd ab)) = Some NotReported"
  by (cases operator) (auto simp: routerOperator_def router_runs split: prod.splits)

lemma router_cell_claims:
  "run_state (routerCell src context cell) s = (c, s') \<Longrightarrow>
   fst (claim_of (nc_cellId c)) \<noteq> Some UnsupportedField \<and> fst (claim_of (nc_tac c)) = Some NotReported"
  by (cases cell) (auto simp: routerCell_def router_runs split: prod.splits)

lemma router_sim_run:
  "run_state (routerSim src context field) s =
     (let p = metricProvenance src context [] None in
      (\<lparr>nm_presence = UnknownMetric NotReported p,
        nm_presenceEvidence = (case field of None \<Rightarrow> NoEvidence [] | Some f \<Rightarrow> VendorCodeUnclaimed f),
        nm_lockRequired = UnknownMetric UnsupportedField p, nm_kind = UnknownMetric UnsupportedField p,
        nm_esimStatus = UnknownMetric UnsupportedField p\<rparr>, s))"
  by (simp add: routerSim_def unknown_metric_run Let_def)

lemma good_mode_run: "good_mode m \<Longrightarrow> run_state m s = (x, s') \<Longrightarrow> fst (claim_of x) \<noteq> Some UnsupportedField"
  by (metis fst_conv good_mode_def)

lemma router_observation_claims:
  assumes "en_body (router_observation src context raw ns parts) = FreshValue obs" and "good_mode (rp_modeLabel parts)"
  shows "unsupported_metrics obs =
      [False, False] @ [True, True, True, False, False, False] @ [True, True] @
      map Not (signal_capabilities (rp_signal parts)) @ [False, True, True, True] @ [False, False]"
    and "fst (claim_of (nm_presence (mo_sim obs))) = Some NotReported"
    and "nm_presenceEvidence (mo_sim obs) =
      (case rp_presenceField parts of None \<Rightarrow> NoEvidence [] | Some f \<Rightarrow> VendorCodeUnclaimed f)"
    and "dg_raw (mo_diagnostics obs) = raw"
proof -
  let ?s0 = "\<lparr>cm_consumed = [], cm_notes = ns\<rparr>" and ?p = "metricProvenance src context [] None"
  let ?g = "rp_signal parts" and ?a = "rp_barsAuthority parts"
  let ?m = "\<lambda>v claimed auth. metricFromRouterSignal v (metricProvenance src context claimed auth)"
  obtain h s1 ml s2 ab s3 where
    e: "run_state (routerHardware src context (rp_product parts)) ?s0 = (h, s1)"
       "run_state (rp_modeLabel parts) s1 = (ml, s2)"
       "run_state (routerOperator src context (rp_operator parts)) s2 = (ab, s3)"
    by (meson prod.exhaust)
  let ?s4 = "s3\<lparr>cm_consumed := cm_consumed s3 @ rp_barsField parts @ rp_maxBarsField parts @ rp_dbmField parts @
      rp_rsrpField parts @ rp_rsrqField parts @ rp_snrField parts @ rp_sinrField parts\<rparr>"
  obtain c cs where c: "run_state (routerCell src context (rp_cell parts)) ?s4 = (c, cs)" by (meson prod.exhaust)
  have obs: "obs = \<lparr>mo_source = src, mo_hardware = h,
      mo_radio = \<lparr>nr_modemState = UnknownMetric UnsupportedField ?p, nr_registration = UnknownMetric UnsupportedField ?p,
         nr_accessTechnologies = UnknownMetric UnsupportedField ?p, nr_modeLabel = ml, nr_operatorName = fst ab, nr_operatorCode = snd ab\<rparr>,
      mo_signal = \<lparr>ns_quality = UnknownMetric UnsupportedField ?p, ns_qualityRecent = UnknownMetric UnsupportedField ?p,
         ns_bars = ?m (rs_bars ?g) (rp_barsField parts) ?a, ns_maxBars = ?m (rs_max_bars ?g) (rp_maxBarsField parts) ?a,
         ns_dbm = ?m (rs_dbm ?g) (rp_dbmField parts) None, ns_rsrp = ?m (rs_rsrp ?g) (rp_rsrpField parts) None,
         ns_rsrq = ?m (rs_rsrq ?g) (rp_rsrqField parts) None, ns_snr = ?m (rs_snr ?g) (rp_snrField parts) None,
         ns_sinr = ?m (rs_sinr ?g) (rp_sinrField parts) None\<rparr>,
      mo_sim = fst (run_state (routerSim src context (rp_presenceField parts)) ?s4), mo_cell = c,
      mo_diagnostics = createObservationDiagnostics src raw (cm_consumed cs) (cm_notes cs)\<rparr>"
    using assms(1) e c
    by (simp add: router_observation_def router_claiming_def freshObservation_def router_runs Let_def router_sim_run
        unsupportedRadioMetric_def unsupportedQualityRecent_def)
  note ok = router_hardware_claims [OF e(1)] good_mode_run [OF assms(2) e(2)] router_operator_claims [OF e(3)] router_cell_claims [OF c]
  show "unsupported_metrics obs =
      [False, False] @ [True, True, True, False, False, False] @ [True, True] @
      map Not (signal_capabilities (rp_signal parts)) @ [False, True, True, True] @ [False, False]"
    using ok by (simp add: obs unsupported_metrics_def all_claims_def claim_defs signal_capabilities_def router_sim_run Let_def)
qed (use assms in \<open>auto simp: router_observation_def router_claiming_def freshObservation_def router_sim_run Let_def
      createObservationDiagnostics_def split: prod.splits\<close>)

lemma router_observation_fresh: "\<exists>obs. en_body (router_observation src context raw ns parts) = FreshValue obs"
  by (auto simp: router_observation_def freshObservation_def split: prod.splits)

definition presence_unclaimed :: "modem_observation \<Rightarrow> bool" where
  "presence_unclaimed m \<longleftrightarrow>
     fst (claim_of (nm_presence (mo_sim m))) = Some NotReported \<and>
     (case nm_presenceEvidence (mo_sim m) of
        VendorCodeUnclaimed f \<Rightarrow> hasRawField (dg_raw (mo_diagnostics m)) f
      | NoEvidence _ \<Rightarrow> True
      | _ \<Rightarrow> False)"

definition observed_as :: "bool list \<Rightarrow> modem_observation observation_envelope \<Rightarrow> bool" where
  "observed_as unsupported e \<longleftrightarrow>
     (case en_body e of
        FreshValue m \<Rightarrow> unsupported_metrics m = unsupported \<and> presence_unclaimed m
      | _ \<Rightarrow> False)"

lemma router_observed_as:
  assumes "good_mode (rp_modeLabel parts)" and "signal_capabilities (rp_signal parts) = caps"
    and "case rp_presenceField parts of None \<Rightarrow> True | Some f \<Rightarrow> hasRawField raw f"
  shows "observed_as ([False, False] @ [True, True, True, False, False, False] @ [True, True] @ map Not caps @
           [False, True, True, True] @ [False, False]) (router_observation src context raw ns parts)"
proof -
  obtain obs where obs: "en_body (router_observation src context raw ns parts) = FreshValue obs"
    using router_observation_fresh by blast
  note claims = router_observation_claims [OF obs assms(1)]
  show ?thesis
    using claims assms(2,3) by (auto simp: observed_as_def presence_unclaimed_def obs split: option.splits)
qed

text \<open>Whatever a router answers, an unreadable body, an expired session or nothing at all, the result is a
  fresh observation, and which metrics it calls unsupported depends on the source alone: a field that one read
  lacks is never turned into a statement about what the source can report. No router source decides the presence
  of the SIM: a vendor code that the payload holds is named and left unclaimed.\<close>
theorem router_capabilities_ignore_payload:
  "(observed_as [False, False, True, True, True, False, False, False, True, True, False, False, False, False, False,
      True, False, False, True, True, True, False, False] (normalizeHilinkObservation hilink context))
   \<and> (observed_as [False, False, True, True, True, False, False, False, True, True, False, False, False, False, False,
      False, True, False, True, True, True, False, False] (normalizeZteObservation num_text body context))
   \<and> (observed_as [False, False, True, True, True, False, False, False, True, True, True, True, False, True, True,
      True, True, False, True, True, True, False, False] (normalizeUfiObservation num_text ufi context))"
proof (intro conjI)
  show "observed_as [False, False, True, True, True, False, False, False, True, True, False, False, False, False, False,
      True, False, False, True, True, True, False, False] (normalizeHilinkObservation hilink context)"
    unfolding normalizeHilinkObservation_def Let_def
    by (rule router_observed_as [where caps = "[True, True, True, True, True, False, True]", simplified append.simps list.map not_True_eq_False not_False_eq_True])
      (simp_all add: hilink_parts_def good_modes signal_capabilities_fixed Let_def)
  show "observed_as [False, False, True, True, True, False, False, False, True, True, False, False, False, False, False,
      False, True, False, True, True, True, False, False] (normalizeZteObservation num_text body context)"
    unfolding normalizeZteObservation_def Let_def
    by (rule router_observed_as [where caps = "[True, True, True, True, True, True, False]", simplified append.simps list.map not_True_eq_False not_False_eq_True])
      (simp_all add: zte_parts_def good_modes signal_capabilities_fixed Let_def)
  show "observed_as [False, False, True, True, True, False, False, False, True, True, True, True, False, True, True,
      True, True, False, True, True, True, False, False] (normalizeUfiObservation num_text ufi context)"
    unfolding normalizeUfiObservation_def Let_def
    by (rule router_observed_as [where caps = "[False, False, True, False, False, False, False]", simplified append.simps list.map not_True_eq_False not_False_eq_True])
      (simp_all add: ufi_parts_def good_modes signal_capabilities_fixed Let_def)
qed

section \<open>Where the layer says more than it read\<close>

text \<open>A ZTE operator name read from another key is attributed to \<open>network_provider_fullname\<close>.\<close>

lemma compact_get:
  assumes "distinct (map fst es)"
  shows "detail (compact es) k = (case map_of es k of Some v \<Rightarrow> v | None \<Rightarrow> None)"
proof -
  have "map_of (foldl (\<lambda>r (key, value). case value of Some v \<Rightarrow> AList.update key v r | None \<Rightarrow> r) r0 es) k =
      (case map_of es k of Some (Some v) \<Rightarrow> Some v | _ \<Rightarrow> map_of r0 k)" for r0 :: router_details
    using assms
  proof (induction es arbitrary: r0)
    case (Cons e es)
    obtain k0 v0 where e: "e = (k0, v0)" by force
    with Cons.prems have "map_of es k0 = None" by (auto simp: map_of_eq_None_iff)
    with Cons e show ?case by (cases v0) (auto simp: map_get_set split: option.splits)
  qed simp
  from this [of "[]"] show ?thesis by (auto simp: detail_def compact_def Let_def split: option.splits)
qed

lemma zte_operator_misattributed:
  assumes "parseFlatRecord body = Some r" and "stated num_text (map_of r ''network_provider_fullname'') = None"
    and "stated num_text (map_of r ''network_provider'') = None"
    and "stated num_text (map_of r ''provider'') = Some name"
  shows "rp_operator (zte_parts num_text body context) = Some (name, ''goform.network_provider_fullname'')"
  using assms
  by (simp add: zte_parts_def parseZteDetails_def compact_get attribute_def Let_def first_some_def rawKey_def)

text \<open>
  One value that is neither a text nor a number makes every ZTE signal metric malformed, with no note in the
  diagnostics, and the mode of the same body not reported.
\<close>

lemma zte_foreign_field_blinds_signal:
  assumes "json_parse body = Some (JObj [(''rssi'', JStr ''-70''), (''lte_ca'', JBool True)])"
  shows "rs_dbm (parseZteSignal body) = UnknownSignal Malformed"
    and "parseJsonRecord num_text body \<noteq> None"
    and "rp_modeLabel (zte_parts num_text body context) = zte_modeLabel context None True"
proof -
  have n: "parseFlatRecord body = None" by (simp add: parseFlatRecord_def flat_record_def assms)
  then show "rs_dbm (parseZteSignal body) = UnknownSignal Malformed" by (simp add: parseZteSignal_def Let_def)
  show j: "parseJsonRecord num_text body \<noteq> None" by (simp add: parseJsonRecord_def parseJsonObject_def assms)
  with n show "rp_modeLabel (zte_parts num_text body context) = zte_modeLabel context None True"
    by (simp add: zte_parts_def parseZteDetails_def detail_def Let_def)
qed

text \<open>A member of a UFI's \<open>params\<close> replaces the field of the envelope with its name.\<close>

lemma ufi_param_replaces_reply:
  "flattenUfiEnvelope nt (Some [(''reply'', JStr ''ok''), (''params'', JObj [(''reply'', JStr ''x'')])]) = [(''reply'', RawText ''x'')]"
  by code_simp

end
