(* ===== verification/Sms_Inbox.thy ===== *)
theory Sms_Inbox
  imports Managed_Objects Js_Values
begin

text \<open>
  The SMS inbox: the rules that hold for every source (\<open>sms/normalize.ts\<close>, with the types of
  \<open>ports/sms.ts\<close>) and the row store that folds inbox events (\<open>sms/inbox-store.ts\<close>). The store refines
  a map from object indices to messages. \<open>other\<close> is what \<open>Date.parse\<close> makes of a string that is not
  in the date-time format.
\<close>

section \<open>Messages\<close>

datatype sms_state = SmsUnknown | Stored | Receiving | Received | Sending | Sent

record sms_message =
  ms_id :: string
  ms_from :: "string option"
  ms_timestamp :: "string option"
  ms_text :: string
  ms_state :: sms_state

datatype sms_refusal = SmsUnsupported | SmsNotEnabled | SmsUnknownModem | SmsReadFailed

type_synonym inbox_result = "sms_refusal + sms_message list"

datatype inbox_event = Added sms_message | Deleted string | Resynced "sms_message list"

section \<open>Normalization\<close>

definition SMS_INBOX_CAP :: nat where "SMS_INBOX_CAP = 50"

definition SMS_PATH_PREFIX :: string where "SMS_PATH_PREFIX = ''/org/freedesktop/ModemManager1/SMS/''"

definition all_digits :: "string \<Rightarrow> bool" where
  "all_digits s \<longleftrightarrow> s \<noteq> [] \<and> list_all is_digit s"

text \<open>\<open>SMS_PATH_RE\<close>: a whole path, or a bare index.\<close>

definition sms_path :: "string \<Rightarrow> bool" where
  "sms_path s \<longleftrightarrow> prefix SMS_PATH_PREFIX s \<and> all_digits (drop (length SMS_PATH_PREFIX) s) \<or> all_digits s"

text \<open>The first place where the prefix is followed by a digit; \<open>None\<close> is \<open>NaN\<close>.\<close>

fun smsPathIndex :: "string \<Rightarrow> nat option" where
  "smsPathIndex [] = None"
| "smsPathIndex (c # s) =
     (let ds = digits_of (drop (length SMS_PATH_PREFIX) (c # s)) in
      if prefix SMS_PATH_PREFIX (c # s) \<and> ds \<noteq> [] then Some (nat_of_digits ds) else smsPathIndex s)"

definition KNOWN_SMS_STATES :: "(string \<times> sms_state) list" where
  "KNOWN_SMS_STATES =
     [(''unknown'', SmsUnknown), (''stored'', Stored), (''receiving'', Receiving), (''received'', Received),
      (''sending'', Sending), (''sent'', Sent)]"

definition normalizeSmsState :: "string option \<Rightarrow> sms_state" where
  "normalizeSmsState raw =
     (case Option.bind raw (map_of KNOWN_SMS_STATES) of Some st \<Rightarrow> st | None \<Rightarrow> SmsUnknown)"

text \<open>\<open>HOURS_ONLY_OFFSET_RE\<close> on the last twelve characters.\<close>

definition hours_only :: "string \<Rightarrow> bool" where
  "hours_only s \<longleftrightarrow>
     (let t = drop (length s - 12) s in
      length s \<ge> 12 \<and> char_at t 0 (CHR ''T'') \<and> digits_at t 1 2 \<noteq> None \<and> char_at t 3 (CHR '':'') \<and>
      digits_at t 4 2 \<noteq> None \<and> char_at t 6 (CHR '':'') \<and> digits_at t 7 2 \<noteq> None \<and>
      (char_at t 9 (CHR ''+'') \<or> char_at t 9 (CHR ''-'')) \<and> digits_at t 10 2 \<noteq> None)"

definition widen_offset :: "string \<Rightarrow> string" where
  "widen_offset s = (if hours_only s then s @ '':00'' else s)"

text \<open>\<open>None\<close> is minus infinity.\<close>

definition smsTimestampEpoch :: "(string \<Rightarrow> int option) \<Rightarrow> string \<Rightarrow> int option" where
  "smsTimestampEpoch other timestamp = date_parse other (widen_offset timestamp)"

definition sms_epoch :: "(string \<Rightarrow> int option) \<Rightarrow> sms_message \<Rightarrow> int option" where
  "sms_epoch other m = (case ms_timestamp m of None \<Rightarrow> None | Some t \<Rightarrow> smsTimestampEpoch other t)"

definition sms_order :: "(string \<Rightarrow> int option) \<Rightarrow> sms_message \<Rightarrow> sms_message \<Rightarrow> int" where
  "sms_order other a b =
     (let by_index = diff_sign (js_Number (ms_id b)) (js_Number (ms_id a)) in
      case (sms_epoch other b, sms_epoch other a) of
        (None, None) \<Rightarrow> by_index
      | (Some _, None) \<Rightarrow> 1
      | (None, Some _) \<Rightarrow> - 1
      | (Some tb, Some ta) \<Rightarrow> if tb \<noteq> ta then tb - ta else by_index)"

definition sortAndCapSms :: "(string \<Rightarrow> int option) \<Rightarrow> nat \<Rightarrow> sms_message list \<Rightarrow> sms_message list" where
  "sortAndCapSms other cap messages = take cap (js_sort (sms_order other) messages)"

definition path_order :: "string \<Rightarrow> string \<Rightarrow> int" where
  "path_order a b = (case (smsPathIndex b, smsPathIndex a) of (Some ib, Some ia) \<Rightarrow> int ib - int ia | _ \<Rightarrow> 0)"

definition selectReadablePaths :: "nat \<Rightarrow> string list \<Rightarrow> string list" where
  "selectReadablePaths cap paths = filter sms_path (take cap (js_sort path_order paths))"

section \<open>The row store\<close>

type_synonym sms_rows = "(string \<times> sms_message) list"

definition sameMessage :: "sms_message \<Rightarrow> sms_message \<Rightarrow> bool" where
  "sameMessage a b \<longleftrightarrow> ms_id a = ms_id b \<and> ms_text a = ms_text b \<and> ms_state a = ms_state b \<and>
     ms_from a = ms_from b \<and> ms_timestamp a = ms_timestamp b"

definition applyAdded :: "sms_message \<Rightarrow> sms_rows \<Rightarrow> bool \<times> sms_rows" where
  "applyAdded m rows =
     (if (case map_of rows (ms_id m) of Some held \<Rightarrow> sameMessage held m | None \<Rightarrow> False) then (False, rows)
      else (True, AList.update (ms_id m) m rows))"

definition rows_by_id :: "sms_message list \<Rightarrow> sms_rows" where
  "rows_by_id messages = fold (\<lambda>m rows. AList.update (ms_id m) m rows) messages []"

definition applyResynced :: "sms_message list \<Rightarrow> sms_rows \<Rightarrow> bool \<times> sms_rows" where
  "applyResynced messages rows =
     (let next_rows = rows_by_id messages;
          changed = (length next_rows \<noteq> length rows \<or>
            list_ex (\<lambda>(k, m). case map_of rows k of None \<Rightarrow> True | Some held \<Rightarrow> \<not> sameMessage held m) next_rows)
      in (changed, next_rows))"

definition inbox_apply :: "inbox_event \<Rightarrow> sms_rows \<Rightarrow> bool \<times> sms_rows" where
  "inbox_apply event rows =
     (case event of
        Added m \<Rightarrow> applyAdded m rows
      | Deleted k \<Rightarrow> (k \<in> fst ` set rows, AList.delete k rows)
      | Resynced messages \<Rightarrow> applyResynced messages rows)"

definition inbox_snapshot :: "(string \<Rightarrow> int option) \<Rightarrow> nat \<Rightarrow> sms_rows \<Rightarrow> sms_message list" where
  "inbox_snapshot other cap rows = sortAndCapSms other cap (map snd rows)"

definition inbox_size :: "sms_rows \<Rightarrow> nat" where
  "inbox_size rows = length rows"

section \<open>The order is consistent\<close>

definition numbered :: "sms_message \<Rightarrow> bool" where
  "numbered m \<longleftrightarrow> js_Number (ms_id m) \<noteq> NaN"

lemma diff_sign_total: "x \<noteq> NaN \<Longrightarrow> y \<noteq> NaN \<Longrightarrow> 0 < diff_sign x y \<Longrightarrow> diff_sign y x \<le> 0"
  by (cases x; cases y) (auto split: if_splits)

lemma diff_sign_trans:
  assumes "x \<noteq> NaN" and "y \<noteq> NaN" and "z \<noteq> NaN" and "diff_sign y x \<le> 0" and "diff_sign z y \<le> 0"
  shows "diff_sign z x \<le> 0"
proof -
  let ?low = "\<lambda>a b. a = b \<or> a = Infinite True \<or> b = Infinite False \<or> (\<exists>p q. a = Fin p \<and> b = Fin q \<and> p \<le> q)"
  have order: "diff_sign a b \<le> 0 \<longleftrightarrow> ?low a b" if "a \<noteq> NaN" "b \<noteq> NaN" for a b
    using that by (cases a; cases b) auto
  have "?low y x" using order [OF assms(2,1)] assms(4) by blast
  moreover have "?low z y" using order [OF assms(3,2)] assms(5) by blast
  ultimately have "?low z x" by fastforce
  then show ?thesis using order [OF assms(3,1)] by blast
qed

interpretation sms: comparator "sms_order other" numbered for other
proof unfold_locales
  fix x y assume "numbered x" "numbered y" "0 < sms_order other x y"
  then show "sms_order other y x \<le> 0"
    by (auto simp: sms_order_def numbered_def Let_def diff_sign_total split: option.splits if_splits)
next
  fix x y z assume "numbered x" "numbered y" "numbered z" "sms_order other x y \<le> 0" "sms_order other y z \<le> 0"
  then show "sms_order other x z \<le> 0"
    using diff_sign_trans [of "js_Number (ms_id x)" "js_Number (ms_id y)" "js_Number (ms_id z)"]
    by (auto simp: sms_order_def numbered_def Let_def split: option.splits if_splits)
qed

text \<open>An index is a numeral.\<close>

lemma digits_trim: "list_all is_digit s \<Longrightarrow> js_trim s = s"
proof -
  assume d: "list_all is_digit s"
  have "\<not> is_space c" if "is_digit c" for c using that by (auto simp: is_digit_def is_space_def)
  with d have none: "\<forall>c \<in> set s. \<not> is_space c" by (auto simp: list_all_iff)
  have "dropWhile is_space t = t" if "set t \<subseteq> set s" for t
    using none that by (cases t) auto
  from this [of s] this [of "rev s"] have "dropWhile is_space s = s" "dropWhile is_space (rev s) = rev s" by simp_all
  then show ?thesis by (simp add: js_trim_def)
qed

lemma digits_number: "all_digits s \<Longrightarrow> js_Number s \<noteq> NaN"
proof -
  assume s: "all_digits s"
  then have d: "list_all is_digit s" "s \<noteq> []" by (simp_all add: all_digits_def)
  have nd: "\<not> is_digit CHR ''x''" "\<not> is_digit CHR ''X''" "\<not> is_digit CHR ''o''" "\<not> is_digit CHR ''O''"
      "\<not> is_digit CHR ''b''" "\<not> is_digit CHR ''B''" "\<not> is_digit CHR ''-''" "\<not> is_digit CHR ''+''" "\<not> is_digit CHR ''I''"
    by (simp_all add: is_digit_def)
  have radix: "str_radix s = None"
    using d nd by (auto simp: str_radix_def list_all_iff prefix_def)
  have whole: "digits_of s = s" "after_digits s = []"
    using d by (simp_all add: digits_of_def after_digits_def list_all_iff)
  obtain c u where cu: "s = c # u" "is_digit c" using d by (cases s) auto
  then have "c \<noteq> CHR ''-''" "c \<noteq> CHR ''+''" "s \<noteq> ''Infinity''" using nd by auto
  then show ?thesis
    using cu radix whole digits_trim [OF d(1)]
    by (simp add: js_Number_def Let_def str_decimal_def parse_exponent_def finite_num_def)
qed

section \<open>The store refines a map\<close>

fun spec_apply :: "inbox_event \<Rightarrow> (string \<rightharpoonup> sms_message) \<Rightarrow> string \<rightharpoonup> sms_message" where
  "spec_apply (Added m) M = M(ms_id m \<mapsto> m)"
| "spec_apply (Deleted k) M = M(k := None)"
| "spec_apply (Resynced messages) M = fold (\<lambda>m N. N(ms_id m \<mapsto> m)) messages Map.empty"

definition store_ok :: "sms_rows \<Rightarrow> bool" where
  "store_ok rows \<longleftrightarrow> distinct (map fst rows) \<and> (\<forall>(k, m) \<in> set rows. ms_id m = k)"

lemma sameMessage_eq: "sameMessage a b \<longleftrightarrow> a = b"
  by (cases a; cases b) (auto simp: sameMessage_def)

lemma map_update: "map_of (AList.update k v rows) = (map_of rows)(k \<mapsto> v)"
  by (simp add: fun_eq_iff map_simps)

lemma map_delete: "map_of (AList.delete k rows) = (map_of rows)(k := None)"
  by (simp add: fun_eq_iff map_simps)

lemma store_ok_update: "store_ok rows \<Longrightarrow> store_ok (AList.update (ms_id m) m rows)"
proof -
  assume ok: "store_ok rows"
  have "set (AList.update k v al) \<subseteq> insert (k, v) (set al)" for k v and al :: sms_rows
    by (induction al) auto
  with ok show ?thesis by (fastforce simp: store_ok_def distinct_keys_set)
qed

lemma store_ok_delete: "store_ok rows \<Longrightarrow> store_ok (AList.delete k rows)"
proof -
  have "set (AList.delete k al) \<subseteq> set al" for al :: sms_rows by (induction al) auto
  moreover assume "store_ok rows"
  ultimately show ?thesis by (fastforce simp: store_ok_def distinct_keys_delete)
qed

lemma rows_by_id_ok: "store_ok (rows_by_id messages)"
proof -
  have "store_ok (fold (\<lambda>m rows. AList.update (ms_id m) m rows) messages rows)" if "store_ok rows" for rows
    using that by (induction messages arbitrary: rows) (simp_all add: store_ok_update)
  from this [of "[]"] show ?thesis by (simp add: rows_by_id_def) (simp add: store_ok_def)
qed

lemma rows_by_id_map: "map_of (rows_by_id messages) = fold (\<lambda>m N. N(ms_id m \<mapsto> m)) messages Map.empty"
proof -
  have "map_of (fold (\<lambda>m rows. AList.update (ms_id m) m rows) messages rows) =
      fold (\<lambda>m N. N(ms_id m \<mapsto> m)) messages (map_of rows)" for rows
    by (induction messages arbitrary: rows) (simp_all add: map_update)
  then show ?thesis by (simp add: rows_by_id_def)
qed

text \<open>Two stores of one size, one contained in the other, hold the same map.\<close>

lemma same_size_same_map:
  assumes "distinct (map fst xs)" and "distinct (map fst ys)" and "length xs = length ys"
    and "map_of xs \<subseteq>\<^sub>m map_of ys"
  shows "map_of xs = map_of ys"
proof -
  have card: "card (dom (map_of zs)) = length zs" if "distinct (map fst zs)" for zs :: "('a \<times> 'b) list"
    using distinct_card [OF that] by (simp add: dom_map_of_conv_image_fst)
  have "dom (map_of xs) \<subseteq> dom (map_of ys)" using assms(4) by (auto simp: map_le_def dom_def) 
  then have "dom (map_of xs) = dom (map_of ys)"
    using card [of xs] card [of ys] assms(1-3) by (simp add: card_subset_eq finite_dom_map_of)
  with assms(4) show ?thesis unfolding map_le_def by (metis domIff ext)
qed

lemma resynced_changed:
  assumes "store_ok rows"
  shows "fst (applyResynced messages rows) \<longleftrightarrow> map_of (rows_by_id messages) \<noteq> map_of rows"
proof -
  let ?next = "rows_by_id messages"
  have dn: "distinct (map fst ?next)" and dr: "distinct (map fst rows)"
    using rows_by_id_ok assms by (simp_all add: store_ok_def)
  have inside: "\<not> list_ex (\<lambda>(k, m). case map_of rows k of None \<Rightarrow> True | Some held \<Rightarrow> \<not> sameMessage held m) ?next
      \<longleftrightarrow> map_of ?next \<subseteq>\<^sub>m map_of rows"
    using dn by (fastforce simp: list_ex_iff map_le_def sameMessage_eq dom_def split: option.splits
        dest: map_of_SomeD)
  have "length ?next = length rows" if "map_of ?next = map_of rows"
  proof -
    from that have "fst ` set ?next = fst ` set rows" by (metis dom_map_of_conv_image_fst)
    then show ?thesis using dn dr by (metis distinct_card length_map list.set_map)
  qed
  with inside same_size_same_map [OF dn dr] show ?thesis
    by (auto simp: applyResynced_def Let_def)
qed

lemma apply_refines:
  assumes "store_ok rows"
  shows "store_ok (snd (inbox_apply event rows)) \<and>
    map_of (snd (inbox_apply event rows)) = spec_apply event (map_of rows) \<and>
    (fst (inbox_apply event rows) \<longleftrightarrow> map_of (snd (inbox_apply event rows)) \<noteq> map_of rows)"
proof (cases event)
  case (Added m)
  show ?thesis
  proof (cases "map_of rows (ms_id m) = Some m")
    case True
    then show ?thesis using assms
      by (simp add: Added inbox_apply_def applyAdded_def sameMessage_eq fun_upd_idem)
  next
    case False
    then have "map_of (AList.update (ms_id m) m rows) \<noteq> map_of rows" by (metis map_get_set)
    with False show ?thesis using assms store_ok_update
      by (auto simp: Added inbox_apply_def applyAdded_def sameMessage_eq map_update split: option.splits)
  qed
next
  case (Deleted k)
  have "map_of (AList.delete k rows) = (map_of rows)(k := None)" by (rule map_delete)
  then show ?thesis using assms store_ok_delete
    by (auto simp: Deleted inbox_apply_def map_of_eq_None_iff fun_upd_idem_iff)
next
  case (Resynced messages)
  then show ?thesis using assms rows_by_id_ok resynced_changed rows_by_id_map
    by (simp add: inbox_apply_def) (simp add: applyResynced_def Let_def)
qed

definition inbox_run :: "inbox_event list \<Rightarrow> sms_rows" where
  "inbox_run events = fold (\<lambda>e rows. snd (inbox_apply e rows)) events []"

lemma inbox_run_refines: "store_ok (inbox_run events) \<and> map_of (inbox_run events) = fold spec_apply events Map.empty"
proof (induction events rule: rev_induct)
  case Nil
  show ?case by (simp add: inbox_run_def store_ok_def)
next
  case (snoc e events)
  have "inbox_run (events @ [e]) = snd (inbox_apply e (inbox_run events))" by (simp add: inbox_run_def)
  with snoc apply_refines [of "inbox_run events" e] show ?case by simp
qed

lemma snapshot_top:
  assumes "store_ok rows" and "\<forall>m \<in> ran (map_of rows). numbered m"
  shows "sorted_wrt (\<lambda>a b. sms_order other a b \<le> 0) (inbox_snapshot other cap rows) \<and>
    distinct (map ms_id (inbox_snapshot other cap rows)) \<and>
    length (inbox_snapshot other cap rows) = min cap (inbox_size rows) \<and>
    set (inbox_snapshot other cap rows) \<subseteq> ran (map_of rows) \<and>
    (\<forall>a \<in> set (inbox_snapshot other cap rows). \<forall>b \<in> ran (map_of rows) - set (inbox_snapshot other cap rows). sms_order other a b \<le> 0)"
proof -
  let ?vals = "map snd rows" and ?s = "js_sort (sms_order other) (map snd rows)"
  have ran: "ran (map_of rows) = set ?vals"
    using assms(1) by (simp add: store_ok_def ran_distinct)
  have items: "\<forall>m \<in> set ?vals. numbered m" using assms(2) unfolding ran .
  have ids: "map ms_id ?vals = map fst rows" using assms(1) by (auto simp: store_ok_def)
  have "distinct (map ms_id ?vals)" unfolding ids using assms(1) by (simp add: store_ok_def)
  then have "distinct (map ms_id ?s)" by simp
  then have d: "distinct (map ms_id (take cap ?s))" by (simp add: take_map [symmetric])
  have "b \<in> set (drop cap ?s)" if "b \<in> set ?vals" "b \<notin> set (take cap ?s)" for b
  proof -
    have "b \<in> set (take cap ?s @ drop cap ?s)" using that(1) by simp
    with that(2) show ?thesis by (simp del: append_take_drop_id)
  qed
  with sms.take_first [OF items, of _ cap other] have "\<forall>a \<in> set (take cap ?s). \<forall>b \<in> set ?vals - set (take cap ?s). sms_order other a b \<le> 0"
    by blast
  moreover have "sorted_wrt (\<lambda>a b. sms_order other a b \<le> 0) (take cap ?s)"
    by (rule sorted_wrt_take) (rule sms.sort_sorted [OF items])
  moreover have "set (take cap ?s) \<subseteq> set ?vals" using set_take_subset [of cap ?s] by simp
  ultimately show ?thesis using d
    unfolding inbox_snapshot_def sortAndCapSms_def ran inbox_size_def by simp
qed


definition sample_sms :: "string \<Rightarrow> string option \<Rightarrow> sms_message" where
  "sample_sms k t = \<lparr>ms_id = k, ms_from = None, ms_timestamp = t, ms_text = ''hi'', ms_state = Received\<rparr>"

definition sample_events :: "inbox_event list" where
  "sample_events = [Added (sample_sms ''7'' None), Added (sample_sms ''3'' (Some ''2025-08-21T17:20:16-05'')),
     Added (sample_sms ''9'' (Some ''2025-08-20T17:20:16-05'')), Added (sample_sms ''9'' (Some ''2025-08-20T17:20:16-05'')),
     Deleted ''4'']"

lemma sample_snapshot:
  "map ms_id (inbox_snapshot (\<lambda>_. None) 2 (inbox_run sample_events)) = [''3'', ''9''] \<and>
   map fst (inbox_run sample_events) = [''7'', ''3'', ''9'']"
  by code_simp


end
