(* ===== verification/Sms_Port.thy ===== *)
theory Sms_Port
  imports Sms_Inbox Capability
begin

text \<open>
  The ModemManager Messaging adapter (\<open>sms/dbus-messaging.ts\<close>) with the failure classes of
  \<open>sms/mmcli-parse.ts\<close>. Every handler runs to its next \<open>await\<close>; what it waits for is a task, and
  replies, signals and calls of the consumer are events in any order. The state records the bus
  calls made and what each listener was given; no handler reads these records.
\<close>

section \<open>Messages on the bus\<close>

definition SMS_IFACE :: string where "SMS_IFACE = ''org.freedesktop.ModemManager1.Sms''"

definition SMS_STATE_BY_ORDINAL :: "string list" where
  "SMS_STATE_BY_ORDINAL = [''unknown'', ''stored'', ''receiving'', ''received'', ''sending'', ''sent'']"

definition stateFromOrdinal :: "int option \<Rightarrow> sms_state" where
  "stateFromOrdinal ordinal =
     (case ordinal of
        None \<Rightarrow> SmsUnknown
      | Some n \<Rightarrow> normalizeSmsState
          (if 0 \<le> n \<and> nat n < length SMS_STATE_BY_ORDINAL then Some (SMS_STATE_BY_ORDINAL ! nat n) else None))"

definition after_slash :: "string \<Rightarrow> string" where
  "after_slash path = rev (takeWhile (\<lambda>c. c \<noteq> CHR ''/'') (rev path))"

definition non_empty :: "string option \<Rightarrow> string option" where
  "non_empty s = (if s = Some [] then None else s)"

definition smsFromProps :: "string \<Rightarrow> decoded_props option \<Rightarrow> sms_message" where
  "smsFromProps path props =
     \<lparr>ms_id = after_slash path, ms_from = non_empty (stringProp props ''Number''),
      ms_timestamp = non_empty (stringProp props ''Timestamp''),
      ms_text = (case stringProp props ''Text'' of Some s \<Rightarrow> s | None \<Rightarrow> []),
      ms_state = stateFromOrdinal (numberProp props ''State'')\<rparr>"

definition classifySmsFailure :: "string \<Rightarrow> sms_refusal" where
  "classifySmsFailure description =
     (let d = js_lower description in
      if js_includes ''no messaging capabilities'' d then SmsUnsupported
      else if js_includes ''not enabled yet'' d then SmsNotEnabled
      else if js_includes (''couldn'' @ APOS @ ''t find modem'') d \<or> js_includes ''cannot find modem'' d then SmsUnknownModem
      else SmsReadFailed)"

section \<open>The port\<close>

datatype purpose = ForWiring | ForReconnect | ForCaller

text \<open>A listing waits for \<open>List\<close>, then for the read of the head of \<open>todo\<close>; an arrival waits for its read.\<close>

datatype sms_task = AwaitList purpose | AwaitRead purpose "string list" "sms_message list" | AwaitAdded string

datatype wiring = NotWired | WireAdded | WireDeleted | WireResync | WireDone

record sms_options =
  so_modemPath :: string
  so_destination :: string
  so_cap :: nat
  so_dates :: "string \<Rightarrow> int option"

record sms_port =
  sp_listeners :: "nat list"
  sp_wiring :: wiring
  sp_addedSub :: bool
  sp_deletedSub :: bool
  sp_held :: bool
  sp_reconnected :: bool
  sp_stopped :: bool
  sp_tasks :: "(nat \<times> sms_task) list"
  sp_next :: nat
  sp_calls :: "method_call list"
  sp_delivered :: "(nat \<times> inbox_event) list"
  sp_answers :: "inbox_result list"

definition new_sms_port :: sms_port where
  "new_sms_port = \<lparr>sp_listeners = [], sp_wiring = NotWired, sp_addedSub = False, sp_deletedSub = False, sp_held = False,
     sp_reconnected = False, sp_stopped = False, sp_tasks = [], sp_next = 0, sp_calls = [], sp_delivered = [], sp_answers = []\<rparr>"

definition sms_emit :: "inbox_event \<Rightarrow> sms_port \<Rightarrow> sms_port" where
  "sms_emit event s = s\<lparr>sp_delivered := sp_delivered s @ map (\<lambda>l. (l, event)) (sp_listeners s)\<rparr>"

definition sms_call :: "sms_options \<Rightarrow> string \<Rightarrow> string \<Rightarrow> string \<Rightarrow> string option \<Rightarrow> dbus_value list \<Rightarrow> method_call" where
  "sms_call opts path iface member sig args =
     \<lparr>me_destination = so_destination opts, me_path = path, me_interface = iface, me_member = member,
      me_signature = sig, me_args = args, me_timeoutMs = None\<rparr>"

definition await_call :: "sms_task \<Rightarrow> method_call \<Rightarrow> sms_port \<Rightarrow> sms_port" where
  "await_call task call s =
     s\<lparr>sp_tasks := sp_tasks s @ [(sp_next s, task)], sp_next := Suc (sp_next s), sp_calls := sp_calls s @ [call]\<rparr>"

definition readMessage :: "sms_options \<Rightarrow> sms_task \<Rightarrow> string \<Rightarrow> sms_port \<Rightarrow> sms_port" where
  "readMessage opts task path =
     await_call task (sms_call opts path PROPERTIES_IFACE ''GetAll'' (Some ''s'') [DStr SMS_IFACE])"

definition listInbox :: "sms_options \<Rightarrow> purpose \<Rightarrow> sms_port \<Rightarrow> sms_port" where
  "listInbox opts p =
     await_call (AwaitList p) (sms_call opts (so_modemPath opts) MESSAGING_IFACE ''List'' None [])"

text \<open>\<open>stop\<close> gives back the subscriptions that the wiring has recorded, once it has ended.\<close>

definition release_held :: "sms_port \<Rightarrow> sms_port" where
  "release_held s = (if sp_held s then s\<lparr>sp_addedSub := False, sp_deletedSub := False, sp_held := False\<rparr> else s)"

text \<open>The wiring ends with its resync, whatever the list answered.\<close>

definition end_wiring :: "purpose \<Rightarrow> sms_port \<Rightarrow> sms_port" where
  "end_wiring p s =
     (if p = ForWiring then (if sp_stopped s then release_held else id) (s\<lparr>sp_wiring := WireDone\<rparr>) else s)"

definition listed :: "sms_options \<Rightarrow> purpose \<Rightarrow> inbox_result \<Rightarrow> sms_port \<Rightarrow> sms_port" where
  "listed opts p r s =
     (if p = ForCaller then s\<lparr>sp_answers := sp_answers s @ [r]\<rparr>
      else end_wiring p (case r of Inl _ \<Rightarrow> s | Inr messages \<Rightarrow> sms_emit (Resynced messages) s))"

definition read_on :: "sms_options \<Rightarrow> purpose \<Rightarrow> string list \<Rightarrow> sms_message list \<Rightarrow> sms_port \<Rightarrow> sms_port" where
  "read_on opts p todo acc s =
     (case todo of
        [] \<Rightarrow> listed opts p (Inr (sortAndCapSms (so_dates opts) (so_cap opts) acc)) s
      | path # _ \<Rightarrow> readMessage opts (AwaitRead p todo acc) path s)"

definition on_list_reply :: "sms_options \<Rightarrow> purpose \<Rightarrow> string + dbus_value list \<Rightarrow> sms_port \<Rightarrow> sms_port" where
  "on_list_reply opts p reply s =
     (case reply of
        Inl description \<Rightarrow> listed opts p (Inl (classifySmsFailure description)) s
      | Inr body \<Rightarrow>
          read_on opts p
            (selectReadablePaths (so_cap opts) (case body of DArr items # _ \<Rightarrow> string_items items | _ \<Rightarrow> [])) [] s)"

definition on_read_reply :: "sms_options \<Rightarrow> sms_task \<Rightarrow> decoded_props option option \<Rightarrow> sms_port \<Rightarrow> sms_port" where
  "on_read_reply opts task reply s =
     (case task of
        AwaitRead p (path # todo) acc \<Rightarrow>
          read_on opts p todo (case reply of None \<Rightarrow> acc | Some props \<Rightarrow> acc @ [smsFromProps path props]) s
      | AwaitAdded path \<Rightarrow>
          (case reply of None \<Rightarrow> s | Some props \<Rightarrow> sms_emit (Added (smsFromProps path props)) s)
      | _ \<Rightarrow> s)"

definition onAdded :: "sms_options \<Rightarrow> dbus_value list \<Rightarrow> sms_port \<Rightarrow> sms_port" where
  "onAdded opts body s = (case body of DStr path # _ \<Rightarrow> readMessage opts (AwaitAdded path) path s | _ \<Rightarrow> s)"

definition onDeleted :: "dbus_value list \<Rightarrow> sms_port \<Rightarrow> sms_port" where
  "onDeleted body s = (case body of DStr path # _ \<Rightarrow> sms_emit (Deleted (after_slash path)) s | _ \<Rightarrow> s)"

definition sms_observe :: "nat \<Rightarrow> sms_port \<Rightarrow> sms_port" where
  "sms_observe l s =
     s\<lparr>sp_listeners := (if l \<in> set (sp_listeners s) then sp_listeners s else sp_listeners s @ [l]),
       sp_wiring := (if sp_wiring s = NotWired \<and> \<not> sp_stopped s then WireAdded else sp_wiring s)\<rparr>"

text \<open>
  One subscription answered. A rejected one ends the wiring: no later \<open>observe\<close> wires again, and a
  subscription made before it is recorded nowhere.
\<close>

definition subscribed :: "sms_options \<Rightarrow> bool \<Rightarrow> sms_port \<Rightarrow> sms_port" where
  "subscribed opts ok s =
     (case sp_wiring s of
        WireAdded \<Rightarrow>
          if ok then s\<lparr>sp_wiring := WireDeleted, sp_addedSub := True\<rparr> else s\<lparr>sp_wiring := WireDone\<rparr>
      | WireDeleted \<Rightarrow>
          if ok then listInbox opts ForWiring
            (s\<lparr>sp_wiring := WireResync, sp_deletedSub := True, sp_held := True, sp_reconnected := True\<rparr>)
          else s\<lparr>sp_wiring := WireDone\<rparr>
      | _ \<Rightarrow> s)"

definition sms_stop :: "sms_port \<Rightarrow> sms_port" where
  "sms_stop s =
     (let s1 = s\<lparr>sp_stopped := True, sp_listeners := [], sp_reconnected := False\<rparr> in
      if sp_wiring s \<in> {NotWired, WireDone} then release_held s1 else s1)"

datatype sms_event =
    Observe nat | Unobserve nat | ListCall | StopCall | Subscribed bool
  | AddedSignal "dbus_value list" | DeletedSignal "dbus_value list" | Reconnected
  | ListReply nat "string + dbus_value list" | ReadReply nat "decoded_props option option"

definition end_task :: "nat \<Rightarrow> sms_port \<Rightarrow> sms_port" where
  "end_task k s = s\<lparr>sp_tasks := AList.delete k (sp_tasks s)\<rparr>"

definition sms_step :: "sms_options \<Rightarrow> sms_event \<Rightarrow> sms_port \<Rightarrow> sms_port" where
  "sms_step opts event s =
     (case event of
        Observe l \<Rightarrow> sms_observe l s
      | Unobserve l \<Rightarrow> s\<lparr>sp_listeners := removeAll l (sp_listeners s)\<rparr>
      | ListCall \<Rightarrow> listInbox opts ForCaller s
      | StopCall \<Rightarrow> sms_stop s
      | Subscribed ok \<Rightarrow> subscribed opts ok s
      | AddedSignal body \<Rightarrow> if sp_addedSub s then onAdded opts body s else s
      | DeletedSignal body \<Rightarrow> if sp_deletedSub s then onDeleted body s else s
      | Reconnected \<Rightarrow> if sp_reconnected s then listInbox opts ForReconnect s else s
      | ListReply k reply \<Rightarrow>
          (case map_of (sp_tasks s) k of Some (AwaitList p) \<Rightarrow> on_list_reply opts p reply (end_task k s) | _ \<Rightarrow> s)
      | ReadReply k reply \<Rightarrow>
          (case map_of (sp_tasks s) k of
             Some (AwaitRead p todo acc) \<Rightarrow> on_read_reply opts (AwaitRead p todo acc) reply (end_task k s)
           | Some (AwaitAdded path) \<Rightarrow> on_read_reply opts (AwaitAdded path) reply (end_task k s)
           | _ \<Rightarrow> s))"

definition sms_run :: "sms_options \<Rightarrow> sms_event list \<Rightarrow> sms_port" where
  "sms_run opts events = fold (sms_step opts) events new_sms_port"

section \<open>What the port does\<close>

definition read_only_call :: "sms_options \<Rightarrow> method_call \<Rightarrow> bool" where
  "read_only_call opts c \<longleftrightarrow> me_destination c = so_destination opts \<and>
     (me_path c = so_modemPath opts \<and> me_interface c = MESSAGING_IFACE \<and> me_member c = ''List'' \<and> me_args c = [] \<or>
      me_interface c = PROPERTIES_IFACE \<and> me_member c = ''GetAll'' \<and> me_args c = [DStr SMS_IFACE])"

definition good_delivery :: "sms_options \<Rightarrow> inbox_event \<Rightarrow> bool" where
  "good_delivery opts e =
     (case e of
        Resynced ms \<Rightarrow> length ms \<le> so_cap opts \<and> sorted_wrt (\<lambda>a b. sms_order (so_dates opts) a b \<le> 0) ms
      | _ \<Rightarrow> True)"

text \<open>A listing reads at most as many messages as the cap, each at a path of the grammar.\<close>

definition good_task :: "sms_options \<Rightarrow> sms_task \<Rightarrow> bool" where
  "good_task opts t =
     (case t of
        AwaitRead p todo acc \<Rightarrow> length todo + length acc \<le> so_cap opts \<and> list_all sms_path todo \<and> list_all numbered acc
      | _ \<Rightarrow> True)"

definition port_ok :: "sms_options \<Rightarrow> sms_port \<Rightarrow> bool" where
  "port_ok opts s \<longleftrightarrow> list_all (read_only_call opts) (sp_calls s) \<and> list_all (good_delivery opts \<circ> snd) (sp_delivered s) \<and>
     list_all (good_task opts \<circ> snd) (sp_tasks s)"

lemma port_ok_emit: "port_ok opts s \<Longrightarrow> good_delivery opts e \<Longrightarrow> port_ok opts (sms_emit e s)"
  by (auto simp: port_ok_def sms_emit_def list_all_iff)

lemma port_ok_await: "port_ok opts s \<Longrightarrow> read_only_call opts c \<Longrightarrow> good_task opts t \<Longrightarrow> port_ok opts (await_call t c s)"
  by (auto simp: port_ok_def await_call_def list_all_iff)

lemma port_ok_read: "port_ok opts s \<Longrightarrow> good_task opts t \<Longrightarrow> port_ok opts (readMessage opts t path s)"
  unfolding readMessage_def by (rule port_ok_await) (simp_all add: read_only_call_def sms_call_def)

lemma port_ok_list: "port_ok opts s \<Longrightarrow> port_ok opts (listInbox opts p s)"
  unfolding listInbox_def by (rule port_ok_await) (simp_all add: read_only_call_def sms_call_def good_task_def)

lemma port_ok_release: "port_ok opts s \<Longrightarrow> port_ok opts (release_held s)"
  by (simp add: port_ok_def release_held_def)

lemma port_ok_end_wiring: "port_ok opts s \<Longrightarrow> port_ok opts (end_wiring p s)"
proof -
  assume "port_ok opts s"
  then have "port_ok opts (s\<lparr>sp_wiring := WireDone\<rparr>)" by (simp add: port_ok_def)
  then show ?thesis using \<open>port_ok opts s\<close> by (simp add: end_wiring_def port_ok_release)
qed

lemma port_ok_listed:
  assumes "port_ok opts s" and "\<And>ms. r = Inr ms \<Longrightarrow> good_delivery opts (Resynced ms)"
  shows "port_ok opts (listed opts p r s)"
proof -
  have "port_ok opts (case r of Inl _ \<Rightarrow> s | Inr ms \<Rightarrow> sms_emit (Resynced ms) s)"
    using assms by (auto simp: port_ok_emit split: sum.split)
  then show ?thesis using assms(1) by (auto simp: listed_def port_ok_end_wiring) (simp add: port_ok_def)
qed

lemma capped_good:
  assumes "list_all numbered acc"
  shows "good_delivery opts (Resynced (sortAndCapSms (so_dates opts) (so_cap opts) acc))"
proof -
  have "sorted_wrt (\<lambda>a b. sms_order (so_dates opts) a b \<le> 0) (take (so_cap opts) (js_sort (sms_order (so_dates opts)) acc))"
    by (rule sorted_wrt_take) (rule sms.sort_sorted, use assms in \<open>simp add: list_all_iff\<close>)
  then show ?thesis by (simp add: good_delivery_def sortAndCapSms_def)
qed

lemma port_ok_read_on:
  assumes "port_ok opts s" and "length todo + length acc \<le> so_cap opts" and "list_all sms_path todo" and "list_all numbered acc"
  shows "port_ok opts (read_on opts p todo acc s)"
proof (cases todo)
  case Nil
  with assms capped_good show ?thesis by (auto simp: read_on_def intro!: port_ok_listed)
next
  case (Cons path rest)
  with assms show ?thesis by (auto simp: read_on_def good_task_def intro!: port_ok_read)
qed

lemma path_numbered:
  assumes "sms_path path"
  shows "numbered (smsFromProps path props)"
proof -
  have slash: "\<not> is_digit CHR ''/''" by (simp add: is_digit_def)
  have tail: "after_slash (pre @ CHR ''/'' # ds) = ds" if "list_all is_digit ds" for pre ds
  proof -
    have "takeWhile (\<lambda>c. c \<noteq> CHR ''/'') (rev ds @ CHR ''/'' # rev pre) = rev ds"
      using that slash by (subst takeWhile_append2) (auto simp: list_all_iff)
    then show ?thesis by (simp add: after_slash_def)
  qed
  have bare: "after_slash ds = ds" if "list_all is_digit ds" for ds
  proof -
    have "takeWhile (\<lambda>c. c \<noteq> CHR ''/'') (rev ds) = rev ds" using that slash by (subst takeWhile_eq_all_conv) (auto simp: list_all_iff)
    then show ?thesis by (simp only: after_slash_def rev_rev_ident)
  qed
  have pre: "SMS_PATH_PREFIX @ ds = ''/org/freedesktop/ModemManager1/SMS'' @ CHR ''/'' # ds" for ds
    unfolding SMS_PATH_PREFIX_def by simp
  have "all_digits (after_slash path)"
  proof (cases "prefix SMS_PATH_PREFIX path \<and> all_digits (drop (length SMS_PATH_PREFIX) path)")
    case True
    then obtain ds where "path = SMS_PATH_PREFIX @ ds" "all_digits (drop (length SMS_PATH_PREFIX) path)"
      by (auto elim: prefixE)
    then have path: "path = SMS_PATH_PREFIX @ ds" and ds: "all_digits ds" by simp_all
    from ds have "list_all is_digit ds" by (simp add: all_digits_def)
    note at_end = tail [OF this]
    show ?thesis unfolding path pre at_end by (rule ds)
  next
    case False
    with assms have "all_digits path" unfolding sms_path_def by blast
    then show ?thesis using bare by (simp add: all_digits_def)
  qed
  then show ?thesis by (simp add: numbered_def smsFromProps_def digits_number)
qed

lemma port_ok_task: "port_ok opts s \<Longrightarrow> map_of (sp_tasks s) k = Some t \<Longrightarrow> good_task opts t"
  by (fastforce simp: port_ok_def list_all_iff dest: map_of_SomeD)

lemma port_ok_end_task: "port_ok opts s \<Longrightarrow> port_ok opts (end_task k s)"
proof -
  have "set (AList.delete k al) \<subseteq> set al" for al :: "(nat \<times> sms_task) list" by (induction al) auto
  then show "port_ok opts s \<Longrightarrow> port_ok opts (end_task k s)" by (fastforce simp: port_ok_def end_task_def list_all_iff)
qed

lemma port_ok_list_reply: "port_ok opts s \<Longrightarrow> port_ok opts (on_list_reply opts p reply s)"
proof -
  have "length (selectReadablePaths cap paths) \<le> cap" "list_all sms_path (selectReadablePaths cap paths)" for cap paths
    using length_filter_le [of sms_path "take cap (js_sort path_order paths)"]
    by (auto simp: selectReadablePaths_def list_all_iff)
  then show "port_ok opts s \<Longrightarrow> port_ok opts (on_list_reply opts p reply s)"
    by (auto simp: on_list_reply_def intro!: port_ok_listed port_ok_read_on split: sum.split)
qed

lemma port_ok_read_reply:
  assumes "port_ok opts s" and "good_task opts task"
  shows "port_ok opts (on_read_reply opts task reply s)"
proof (cases task)
  case (AwaitRead p todo acc)
  with assms path_numbered show ?thesis
    by (auto simp: on_read_reply_def good_task_def intro!: port_ok_read_on split: list.split option.split)
next
  case (AwaitAdded path)
  with assms show ?thesis by (auto simp: on_read_reply_def good_delivery_def intro!: port_ok_emit split: option.split)
qed (use assms in \<open>simp add: on_read_reply_def\<close>)

lemma port_ok_step: "port_ok opts s \<Longrightarrow> port_ok opts (sms_step opts event s)"
proof (cases event)
  case (Subscribed ok)
  assume s: "port_ok opts s"
  then have "port_ok opts (s\<lparr>sp_wiring := WireResync, sp_deletedSub := True, sp_held := True, sp_reconnected := True\<rparr>)"
    by (simp add: port_ok_def)
  with port_ok_list s show ?thesis
    unfolding Subscribed sms_step_def sms_event.case subscribed_def by (auto split: wiring.split) (simp_all add: port_ok_def)
next
  case StopCall
  assume "port_ok opts s"
  then have "port_ok opts (s\<lparr>sp_stopped := True, sp_listeners := [], sp_reconnected := False\<rparr>)" by (simp add: port_ok_def)
  with port_ok_release show ?thesis by (simp add: StopCall sms_step_def sms_stop_def Let_def)
next
  case (AddedSignal body)
  assume "port_ok opts s"
  then show ?thesis
    by (auto simp: AddedSignal sms_step_def onAdded_def good_task_def intro!: port_ok_read split: list.split dbus_value.split)
next
  case (DeletedSignal body)
  assume "port_ok opts s"
  then show ?thesis
    by (auto simp: DeletedSignal sms_step_def onDeleted_def good_delivery_def intro!: port_ok_emit split: list.split dbus_value.split)
next
  case (ListReply k reply)
  assume "port_ok opts s"
  then show ?thesis
    by (auto simp: ListReply sms_step_def intro!: port_ok_list_reply port_ok_end_task split: option.split sms_task.split)
next
  case (ReadReply k reply)
  assume "port_ok opts s"
  then show ?thesis
    by (auto simp: ReadReply sms_step_def intro!: port_ok_read_reply port_ok_end_task dest: port_ok_task
        split: option.split sms_task.split)
qed (auto simp: sms_step_def sms_observe_def port_ok_list, simp_all add: port_ok_def)

text \<open>The SMS port only reads: in every order of calls, signals and replies each call it makes on the bus is the List of its modem or the GetAll of one message, and every resync it hands to a consumer is sorted newest first and no longer than the cap.\<close>

theorem sms_port_only_reads:
  "list_all (read_only_call opts) (sp_calls (sms_run opts events)) \<and>
   list_all (good_delivery opts \<circ> snd) (sp_delivered (sms_run opts events))"
proof -
  have "port_ok opts (fold (sms_step opts) events s)" if "port_ok opts s" for s
    using that by (induction events arbitrary: s) (simp_all add: port_ok_step)
  from this [of new_sms_port] show ?thesis
    by (simp add: sms_run_def) (simp add: port_ok_def new_sms_port_def)
qed

section \<open>Orders that lose or keep a message\<close>

definition sample_opts :: sms_options where
  "sample_opts = \<lparr>so_modemPath = ''/m'', so_destination = ''mm'', so_cap = 50, so_dates = (\<lambda>_. None)\<rparr>"

definition sms_at :: "nat \<Rightarrow> dbus_value" where
  "sms_at n = DStr (SMS_PATH_PREFIX @ show_nat n)"

definition sms_body :: "decoded_props option option" where
  "sms_body = Some (Some [(''Text'', \<lparr>v_signature = ''s'', v_value = DStr ''hi''\<rparr>)])"

definition wired_events :: "sms_event list" where
  "wired_events = [Observe 0, Subscribed True, Subscribed True, ListReply 0 (Inr [DArr []])]"

definition inbox_of :: "sms_event list \<Rightarrow> string list" where
  "inbox_of events = map fst (inbox_run (map snd (sp_delivered (sms_run sample_opts events))))"

text \<open>
  A message that arrives while a resync reads: the list was answered before it came, its own event is
  delivered, and the resync that follows replaces it away. No later event brings it back.
\<close>

lemma arrival_during_resync_is_lost:
  "inbox_of (wired_events @ [Reconnected, ListReply 1 (Inr [DArr [sms_at 1]]), AddedSignal [sms_at 2],
     ReadReply 3 sms_body]) = [''2''] \<and>
   inbox_of (wired_events @ [Reconnected, ListReply 1 (Inr [DArr [sms_at 1]]), AddedSignal [sms_at 2],
     ReadReply 3 sms_body, ReadReply 2 sms_body]) = [''1'']"
  by code_simp

text \<open>A deletion that overtakes the read of the arrival: the deleted message stays.\<close>

lemma deletion_overtakes_arrival:
  "inbox_of (wired_events @ [AddedSignal [sms_at 4], DeletedSignal [sms_at 4], ReadReply 1 sms_body]) = [''4'']"
  by code_simp

text \<open>A stop while the wiring runs: the wiring registers for reconnects afterwards, and nothing takes it back.\<close>

lemma stop_during_wiring_leaks:
  "sp_stopped (sms_run sample_opts [Observe 0, Subscribed True, StopCall, Subscribed True, ListReply 0 (Inr [DArr []])]) \<and>
   sp_reconnected (sms_run sample_opts [Observe 0, Subscribed True, StopCall, Subscribed True, ListReply 0 (Inr [DArr []])]) \<and>
   sp_addedSub (sms_run sample_opts [Observe 0, Subscribed True, Subscribed False, StopCall])"
  by code_simp

end
