(* ===== verification/Mmcli_Sms.thy ===== *)
theory Mmcli_Sms
  imports Sms_Inbox
begin

text \<open>
  The \<open>mmcli -K\<close> grammar of SMS listings and records (\<open>sms/mmcli-parse.ts\<close>). \<open>mmcli\<close> prints every
  value through \<open>g_strescape\<close>; that function is written out from its documentation as the reference
  the decoder is proved against.
\<close>

section \<open>Values\<close>

definition SIMPLE_ESCAPES :: "(char \<times> char) list" where
  "SIMPLE_ESCAPES =
     [(CHR ''b'', CHR 0x08), (CHR ''f'', CHR 0x0C), (CHR ''n'', CHR 0x0A), (CHR ''r'', CHR 0x0D), (CHR ''t'', CHR 0x09),
      (CHR ''v'', CHR 0x0B), (QUOTE, QUOTE), (BACKSLASH, BACKSLASH)]"

definition is_octal :: "char \<Rightarrow> bool" where
  "is_octal c \<longleftrightarrow> 48 \<le> (of_char c :: nat) \<and> (of_char c :: nat) \<le> 55"

text \<open>The bytes of a value. An octal triplet above 255 wraps in the \<open>Uint8Array\<close>.\<close>

fun unescape_bytes :: "string \<Rightarrow> string" where
  "unescape_bytes [] = []"
| "unescape_bytes (c # s) =
     (if c = BACKSLASH then
        (if length (take 3 s) = 3 \<and> list_all is_octal (take 3 s)
         then char_of ((64 * digit_val (s ! 0) + 8 * digit_val (s ! 1) + digit_val (s ! 2)) mod 256) # unescape_bytes (drop 3 s)
         else case s of
           [] \<Rightarrow> [c]
         | d # r \<Rightarrow> (case map_of SIMPLE_ESCAPES d of Some b \<Rightarrow> b # unescape_bytes r | None \<Rightarrow> c # unescape_bytes s))
      else c # unescape_bytes s)"

definition unescapeMmcliValue :: "string \<Rightarrow> string" where
  "unescapeMmcliValue v = (if BACKSLASH \<in> set v then text_decode (unescape_bytes v) else v)"

section \<open>Lines\<close>

text \<open>The key and the raw value of a line, both trimmed; \<open>None\<close> for a line with no colon after its start.\<close>

definition key_value :: "string \<Rightarrow> (string \<times> string) option" where
  "key_value line =
     (let key = takeWhile (\<lambda>c. c \<noteq> CHR '':'') line in
      if key = [] \<or> key = line then None else Some (js_trim key, js_trim (drop (Suc (length key)) line)))"

fun keep_some :: "('a \<Rightarrow> 'b option) \<Rightarrow> 'a list \<Rightarrow> 'b list" where
  "keep_some f [] = []"
| "keep_some f (x # xs) = (case f x of None \<Rightarrow> keep_some f xs | Some y \<Rightarrow> y # keep_some f xs)"

definition raw_pairs :: "string \<Rightarrow> (string \<times> string) list" where
  "raw_pairs raw = keep_some key_value (js_split NL raw)"

definition SMS_LIST_KEY :: string where "SMS_LIST_KEY = ''modem.messaging.sms''"

text \<open>\<open>modem.messaging.sms.value[n]\<close>.\<close>

definition list_value_key :: "string \<Rightarrow> bool" where
  "list_value_key key \<longleftrightarrow>
     (let head = SMS_LIST_KEY @ ''.value['' in
      prefix head key \<and> suffix '']'' key \<and> length head < length key - 1 \<and>
      list_all is_digit (butlast (drop (length head) key)))"

record list_entries =
  le_scalar :: "string option"
  le_array :: "string list"
  le_sawArray :: bool

definition collect_step :: "list_entries \<Rightarrow> string \<times> string \<Rightarrow> list_entries" where
  "collect_step acc = (\<lambda>(key, raw_value).
     let v = unescapeMmcliValue raw_value in
     if v = ''--'' then acc
     else if key = SMS_LIST_KEY @ ''.length'' then acc\<lparr>le_sawArray := True\<rparr>
     else if list_value_key key then acc\<lparr>le_sawArray := True, le_array := le_array acc @ [v]\<rparr>
     else if key = SMS_LIST_KEY then acc\<lparr>le_scalar := Some v\<rparr>
     else acc)"

definition collectListEntries :: "string \<Rightarrow> string list option" where
  "collectListEntries raw =
     (let acc = foldl collect_step \<lparr>le_scalar = None, le_array = [], le_sawArray = False\<rparr> (raw_pairs raw) in
      if le_sawArray acc then Some (le_array acc) else map_option (\<lambda>v. [v]) (le_scalar acc))"

record parse_failure =
  pf_reason :: string
  pf_detail :: string

type_synonym 'a sms_parse = "parse_failure + 'a"

definition parse_fail :: "string \<Rightarrow> string \<Rightarrow> 'a sms_parse" where
  "parse_fail reason detail = Inl \<lparr>pf_reason = reason, pf_detail = detail\<rparr>"

definition parseSmsListOutput :: "string \<Rightarrow> string list sms_parse" where
  "parseSmsListOutput raw =
     (case collectListEntries raw of
        None \<Rightarrow>
          if \<not> js_includes SMS_LIST_KEY raw then parse_fail ''no modem.messaging.sms key in the mmcli output'' ''no-key''
          else Inr []
      | Some entries \<Rightarrow>
          (let paths = filter (\<lambda>e. smsPathIndex e \<noteq> None) entries in
           if entries \<noteq> [] \<and> paths = [] then parse_fail ''no SMS paths matched the ModemManager path grammar'' ''no-path-match''
           else Inr paths))"

definition sms_fields :: "string \<Rightarrow> (string \<times> string) list" where
  "sms_fields raw =
     foldl (\<lambda>m (key, v). if \<not> prefix ''sms.'' key \<or> v = [] \<or> v = ''--'' then m
                          else AList.update key (unescapeMmcliValue v) m) [] (raw_pairs raw)"

definition parseSmsRecordOutput :: "string \<Rightarrow> sms_message sms_parse" where
  "parseSmsRecordOutput raw =
     (let fields = sms_fields raw; keyNames = js_join '', '' (map fst fields) in
      case map_of fields ''sms.dbus-path'' of
        None \<Rightarrow> parse_fail ''no sms.dbus-path key in the mmcli output'' keyNames
      | Some dbusPath \<Rightarrow>
          (case smsPathIndex dbusPath of
             None \<Rightarrow> parse_fail ''sms.dbus-path did not match the ModemManager path grammar'' keyNames
           | Some n \<Rightarrow>
               Inr \<lparr>ms_id = show_nat n, ms_from = map_of fields ''sms.content.number'',
                    ms_timestamp = map_of fields ''sms.properties.timestamp'',
                    ms_text = (case map_of fields ''sms.content.text'' of Some t \<Rightarrow> t | None \<Rightarrow> []),
                    ms_state = normalizeSmsState (map_of fields ''sms.properties.state'')\<rparr>))"

section \<open>What mmcli prints\<close>

definition octal_char :: "nat \<Rightarrow> char" where
  "octal_char n = char_of (48 + n)"

definition strescape_char :: "char \<Rightarrow> string" where
  "strescape_char c =
     (let n = (of_char c :: nat) in
      if n = 8 then [BACKSLASH, CHR ''b''] else if n = 12 then [BACKSLASH, CHR ''f'']
      else if n = 10 then [BACKSLASH, CHR ''n''] else if n = 13 then [BACKSLASH, CHR ''r'']
      else if n = 9 then [BACKSLASH, CHR ''t''] else if n = 11 then [BACKSLASH, CHR ''v'']
      else if c = BACKSLASH then [BACKSLASH, BACKSLASH] else if c = QUOTE then [BACKSLASH, QUOTE]
      else if n < 32 \<or> 127 \<le> n
      then [BACKSLASH, octal_char (n div 64), octal_char (n div 8 mod 8), octal_char (n mod 8)]
      else [c])"

definition g_strescape :: "string \<Rightarrow> string" where
  "g_strescape s = concat (map strescape_char s)"

definition mmcli_line :: "string \<times> string \<Rightarrow> string" where
  "mmcli_line = (\<lambda>(key, v). key @ '' : '' @ g_strescape v)"

definition mmcli_print :: "(string \<times> string) list \<Rightarrow> string" where
  "mmcli_print pairs = js_join [NL] (map mmcli_line pairs)"

section \<open>Unescaping inverts the writer\<close>

lemma of_char_octal: "n < 8 \<Longrightarrow> (of_char (octal_char n) :: nat) = 48 + n"
  by (simp add: octal_char_def)

lemma octal_value: "(n :: nat) < 256 \<Longrightarrow> 64 * (n div 64) + 8 * (n div 8 mod 8) + n mod 8 = n"
proof -
  have "n div 64 = n div 8 div 8" by (simp add: div_mult2_eq [symmetric])
  then show ?thesis using div_mult_mod_eq [of n 8] div_mult_mod_eq [of "n div 8" 8] by linarith
qed

lemma not_octal_letters:
  "\<not> is_octal CHR ''b''" "\<not> is_octal CHR ''f''" "\<not> is_octal CHR ''n''" "\<not> is_octal CHR ''r''" "\<not> is_octal CHR ''t''"
  "\<not> is_octal CHR ''v''" "\<not> is_octal QUOTE" "\<not> is_octal BACKSLASH"
  by (simp_all add: is_octal_def QUOTE_def BACKSLASH_def)

lemma unescape_simple:
  assumes "map_of SIMPLE_ESCAPES d = Some b" and "\<not> is_octal d"
  shows "unescape_bytes (BACKSLASH # d # r) = b # unescape_bytes r"
  using assms by simp

lemma unescape_octal:
  assumes "n < 256"
  shows "unescape_bytes (BACKSLASH # octal_char (n div 64) # octal_char (n div 8 mod 8) # octal_char (n mod 8) # r) =
    char_of n # unescape_bytes r"
proof -
  have small: "n div 64 < 8" "n div 8 mod 8 < 8" "n mod 8 < 8" using assms by auto
  have val: "digit_val (octal_char k) = k" "is_octal (octal_char k)" if "k < 8" for k
    using of_char_octal [OF that] that by (simp_all add: digit_val_def is_octal_def)
  have "(64 * digit_val (octal_char (n div 64)) + 8 * digit_val (octal_char (n div 8 mod 8)) + digit_val (octal_char (n mod 8))) mod 256 = n"
    using octal_value [OF assms] assms by (simp only: val small) simp
  then show ?thesis using val [OF small(1)] val [OF small(2)] val [OF small(3)] by simp
qed

lemma strescape_controls:
  "strescape_char CHR 0x08 = [BACKSLASH, CHR ''b'']" "strescape_char CHR 0x09 = [BACKSLASH, CHR ''t'']"
  "strescape_char CHR 0x0A = [BACKSLASH, CHR ''n'']" "strescape_char CHR 0x0B = [BACKSLASH, CHR ''v'']"
  "strescape_char CHR 0x0C = [BACKSLASH, CHR ''f'']" "strescape_char CHR 0x0D = [BACKSLASH, CHR ''r'']"
  "strescape_char BACKSLASH = [BACKSLASH, BACKSLASH]" "strescape_char QUOTE = [BACKSLASH, QUOTE]"
  by (simp_all add: strescape_char_def BACKSLASH_def QUOTE_def)

lemma simple_escapes:
  "map_of SIMPLE_ESCAPES CHR ''b'' = Some CHR 0x08" "map_of SIMPLE_ESCAPES CHR ''t'' = Some CHR 0x09"
  "map_of SIMPLE_ESCAPES CHR ''n'' = Some CHR 0x0A" "map_of SIMPLE_ESCAPES CHR ''v'' = Some CHR 0x0B"
  "map_of SIMPLE_ESCAPES CHR ''f'' = Some CHR 0x0C" "map_of SIMPLE_ESCAPES CHR ''r'' = Some CHR 0x0D"
  "map_of SIMPLE_ESCAPES BACKSLASH = Some BACKSLASH" "map_of SIMPLE_ESCAPES QUOTE = Some QUOTE"
  by (simp_all add: SIMPLE_ESCAPES_def BACKSLASH_def QUOTE_def)

lemma unescape_strescape_char: "unescape_bytes (strescape_char c @ r) = c # unescape_bytes r"
proof -
  let ?n = "of_char c :: nat"
  have n: "?n < 256" by simp
  consider "c \<in> {CHR 0x08, CHR 0x09, CHR 0x0A, CHR 0x0B, CHR 0x0C, CHR 0x0D, BACKSLASH, QUOTE}"
    | "?n \<notin> {8, 9, 10, 11, 12, 13}" "c \<noteq> BACKSLASH" "c \<noteq> QUOTE" "?n < 32 \<or> 127 \<le> ?n"
    | "?n \<notin> {8, 9, 10, 11, 12, 13}" "c \<noteq> BACKSLASH" "c \<noteq> QUOTE" "\<not> (?n < 32 \<or> 127 \<le> ?n)"
  proof -
    have "c \<in> {CHR 0x08, CHR 0x09, CHR 0x0A, CHR 0x0B, CHR 0x0C, CHR 0x0D}" if "?n \<in> {8, 9, 10, 11, 12, 13}"
    proof -
      have code: "c = d" if "?n = of_char d" for d using that by simp
      show ?thesis using that code [of "CHR 0x08"] code [of "CHR 0x09"] code [of "CHR 0x0A"] code [of "CHR 0x0B"]
          code [of "CHR 0x0C"] code [of "CHR 0x0D"] by auto
    qed
    with that show thesis by blast
  qed
  then show ?thesis
  proof cases
    case 1
    then show ?thesis
      using unescape_simple [OF simple_escapes(1) not_octal_letters(1)] unescape_simple [OF simple_escapes(2) not_octal_letters(5)]
        unescape_simple [OF simple_escapes(3) not_octal_letters(3)] unescape_simple [OF simple_escapes(4) not_octal_letters(6)]
        unescape_simple [OF simple_escapes(5) not_octal_letters(2)] unescape_simple [OF simple_escapes(6) not_octal_letters(4)]
        unescape_simple [OF simple_escapes(7) not_octal_letters(8)] unescape_simple [OF simple_escapes(8) not_octal_letters(7)]
      by (auto simp only: strescape_controls append_Cons append_Nil insert_iff empty_iff)
  next
    case 2
    then have "strescape_char c = [BACKSLASH, octal_char (?n div 64), octal_char (?n div 8 mod 8), octal_char (?n mod 8)]"
      by (auto simp: strescape_char_def Let_def)
    with unescape_octal [OF n, of r] show ?thesis by (simp del: unescape_bytes.simps)
  next
    case 3
    then have "strescape_char c = [c]" by (auto simp: strescape_char_def Let_def)
    with 3 show ?thesis by simp
  qed
qed

lemma unescape_strescape: "unescape_bytes (g_strescape s) = s"
  by (induction s) (simp_all add: g_strescape_def unescape_strescape_char)

text \<open>A value of the writer: valid UTF-8, not marked with a byte order mark.\<close>

definition plain_text :: "string \<Rightarrow> bool" where
  "plain_text s \<longleftrightarrow> utf8_valid s \<and> \<not> prefix BOM s"

lemma strescape_id: "BACKSLASH \<notin> set (g_strescape s) \<Longrightarrow> g_strescape s = s"
proof (induction s)
  case (Cons c s)
  have "strescape_char c = [c]" using Cons.prems
    by (auto simp: g_strescape_def strescape_char_def Let_def split: if_splits)
  with Cons show ?case by (simp add: g_strescape_def)
qed (simp add: g_strescape_def)

lemma value_roundtrip: "plain_text s \<Longrightarrow> unescapeMmcliValue (g_strescape s) = s"
  by (simp add: unescapeMmcliValue_def unescape_strescape strescape_id text_decode_def utf8_lossy_valid plain_text_def)

declare utf8_valid.simps [simp del]

section \<open>Lines survive\<close>

lemma trim_edges: "s = [] \<or> \<not> is_space (hd s) \<and> \<not> is_space (last s) \<Longrightarrow> js_trim s = s"
proof -
  assume edges: "s = [] \<or> \<not> is_space (hd s) \<and> \<not> is_space (last s)"
  then have front: "dropWhile is_space s = s" by (cases s) auto
  have "dropWhile is_space (rev s) = rev s" using edges by (cases "rev s") (auto simp: hd_rev [symmetric])
  with front show ?thesis by (simp add: js_trim_def)
qed

lemma trim_space_front: "js_trim (CHR '' '' # s) = js_trim s"
  by (simp add: js_trim_def is_space_def)

lemma trim_space_end: "\<forall>c \<in> set s. \<not> is_space c \<Longrightarrow> js_trim (s @ '' '') = s"
proof -
  assume s: "\<forall>c \<in> set s. \<not> is_space c"
  have space: "is_space CHR '' ''" by (simp add: is_space_def)
  show ?thesis
  proof (cases s)
    case (Cons c u)
    have "dropWhile is_space (rev (s @ '' '')) = rev s"
      using s space by (cases "rev s") (auto simp: list_all_iff dest: arg_cong [of _ _ set])
    then show ?thesis using Cons s by (simp add: js_trim_def)
  qed (simp add: js_trim_def space)
qed

lemma strescape_clean: "c \<in> set (g_strescape s) \<Longrightarrow> 32 \<le> (of_char c :: nat)"
proof -
  have "32 \<le> (of_char (octal_char k) :: nat)" if "k < 8" for k using of_char_octal [OF that] by simp
  moreover have "(of_char d :: nat) div 64 < 8" for d :: char
  proof (rule less_mult_imp_div_less)
    have "(of_char d :: nat) < 256" by simp
    then show "(of_char d :: nat) < 8 * 64" by (rule less_le_trans) simp
  qed
  ultimately have "32 \<le> (of_char c :: nat)" if "c \<in> set (strescape_char d)" for c d
    using that by (auto simp: strescape_char_def Let_def BACKSLASH_def QUOTE_def split: if_splits)
  then show "c \<in> set (g_strescape s) \<Longrightarrow> 32 \<le> (of_char c :: nat)" by (auto simp: g_strescape_def)
qed

lemma strescape_spaces:
  assumes "s = [] \<or> hd s \<noteq> CHR '' '' \<and> last s \<noteq> CHR '' ''"
  shows "js_trim (g_strescape s) = g_strescape s"
proof (cases "g_strescape s = []")
  case ne: False
  have only: "\<not> is_space c" if "32 \<le> (of_char c :: nat)" "c \<noteq> CHR '' ''" for c
    using that by (auto simp: is_space_def)
  have char_ne: "strescape_char c \<noteq> []" for c by (simp add: strescape_char_def Let_def)
  have octal: "octal_char k \<noteq> CHR '' ''" if "k < 8" for k
  proof
    assume "octal_char k = CHR '' ''"
    then have "(of_char (octal_char k) :: nat) = 32" by simp
    with of_char_octal [OF that] show False by simp
  qed
  have edge: "hd (strescape_char c) \<noteq> CHR '' '' \<and> last (strescape_char c) \<noteq> CHR '' ''" if "c \<noteq> CHR '' ''" for c
    using that octal by (simp add: strescape_char_def Let_def BACKSLASH_def QUOTE_def)
  have s: "s \<noteq> []" using ne by (auto simp: g_strescape_def)
  have app: "g_strescape (x @ y) = g_strescape x @ g_strescape y" for x y by (simp add: g_strescape_def)
  have one: "g_strescape [c] = strescape_char c" for c by (simp add: g_strescape_def)
  have "hd (g_strescape s) = hd (strescape_char (hd s))"
    using s app [of "[hd s]" "tl s"] one char_ne by (simp add: hd_append)
  moreover have "last (g_strescape s) = last (strescape_char (last s))"
    using s app [of "butlast s" "[last s]"] one char_ne by (simp add: last_append)
  ultimately have ends: "hd (g_strescape s) = hd (strescape_char (hd s))" "last (g_strescape s) = last (strescape_char (last s))"
    by simp_all
  from edge assms s ends have "hd (g_strescape s) \<noteq> CHR '' ''" "last (g_strescape s) \<noteq> CHR '' ''" by auto
  with only strescape_clean ne have "\<not> is_space (hd (g_strescape s)) \<and> \<not> is_space (last (g_strescape s))"
    by (meson hd_in_set last_in_set)
  then show ?thesis by (simp add: trim_edges)
qed (simp add: js_trim_def)

lemma split_join: "ls \<noteq> [] \<Longrightarrow> \<forall>l \<in> set ls. c \<notin> set l \<Longrightarrow> js_split c (js_join [c] ls) = ls"
proof (induction ls)
  case (Cons l ls)
  then show ?case by (cases ls) (simp_all add: string_simps)
qed simp

text \<open>A key of the record: no colon, no white space.\<close>

definition key_ok :: "string \<Rightarrow> bool" where
  "key_ok k \<longleftrightarrow> prefix ''sms.'' k \<and> CHR '':'' \<notin> set k \<and> NL \<notin> set k \<and> (\<forall>c \<in> set k. \<not> is_space c)"

definition value_ok :: "string \<Rightarrow> bool" where
  "value_ok v \<longleftrightarrow> plain_text v \<and> v \<noteq> [] \<and> v \<noteq> ''--'' \<and> hd v \<noteq> CHR '' '' \<and> last v \<noteq> CHR '' ''"

lemma key_value_line:
  assumes "key_ok k" and "value_ok v"
  shows "key_value (mmcli_line (k, v)) = Some (k, g_strescape v)"
proof -
  let ?line = "k @ '' : '' @ g_strescape v"
  have "takeWhile (\<lambda>c. c \<noteq> CHR '':'') ?line = k @ '' ''"
    using assms(1) by (subst takeWhile_append2) (auto simp: key_ok_def)
  moreover have "js_trim (k @ '' '') = k" using assms(1) trim_space_end by (simp add: key_ok_def)
  moreover have "drop (Suc (length (k @ '' ''))) ?line = CHR '' '' # g_strescape v" by simp
  moreover have "js_trim (g_strescape v) = g_strescape v" using assms(2) strescape_spaces by (simp add: value_ok_def)
  ultimately show ?thesis by (simp add: key_value_def mmcli_line_def Let_def trim_space_front)
qed

lemma line_no_NL: "key_ok k \<Longrightarrow> NL \<notin> set (mmcli_line (k, v))"
  using strescape_clean [of NL v] by (auto simp: mmcli_line_def key_ok_def NL_def)

lemma pairs_printed:
  assumes "ps \<noteq> []" and "\<forall>(k, v) \<in> set ps. key_ok k \<and> value_ok v"
  shows "raw_pairs (mmcli_print ps) = map (apsnd g_strescape) ps"
proof -
  have "js_split NL (mmcli_print ps) = map mmcli_line ps"
    unfolding mmcli_print_def by (rule split_join) (use assms line_no_NL in auto)
  moreover have "keep_some key_value (map mmcli_line ps) = map (apsnd g_strescape) ps"
    using assms(2) key_value_line by (induction ps) auto
  ultimately show ?thesis by (simp add: raw_pairs_def)
qed

lemma strescape_dashes: "g_strescape v = ''--'' \<longleftrightarrow> v = ''--''"
proof
  assume "g_strescape v = ''--''"
  then have "BACKSLASH \<notin> set (g_strescape v)" by (simp add: BACKSLASH_def)
  from strescape_id [OF this] \<open>g_strescape v = ''--''\<close> show "v = ''--''" by metis
qed (simp add: g_strescape_def strescape_char_def BACKSLASH_def QUOTE_def)

lemma strescape_Nil: "g_strescape v = [] \<longleftrightarrow> v = []"
  by (cases v) (auto simp: g_strescape_def strescape_char_def Let_def split: if_splits)

lemma update_new: "k \<notin> fst ` set m \<Longrightarrow> AList.update k v m = m @ [(k, v)]"
  by (induction m) auto

lemma fields_printed:
  assumes "ps \<noteq> []" and "\<forall>(k, v) \<in> set ps. key_ok k \<and> value_ok v" and "distinct (map fst ps)"
  shows "sms_fields (mmcli_print ps) = ps"
proof -
  let ?f = "\<lambda>m (key, v). if \<not> prefix ''sms.'' key \<or> v = [] \<or> v = ''--'' then m
                          else AList.update key (unescapeMmcliValue v) m"
  have "foldl ?f acc (map (apsnd g_strescape) qs) = acc @ qs"
    if "\<forall>(k, v) \<in> set qs. key_ok k \<and> value_ok v" "distinct (map fst (acc @ qs))" for acc qs
    using that
  proof (induction qs arbitrary: acc)
    case (Cons q qs)
    obtain k v where q: "q = (k, v)" by fastforce
    have ok: "key_ok k" "value_ok v" and new: "k \<notin> fst ` set acc" using Cons.prems q by auto
    have "?f acc (k, g_strescape v) = acc @ [(k, v)]"
      using ok update_new [OF new] value_roundtrip by (simp add: key_ok_def value_ok_def strescape_dashes strescape_Nil)
    with Cons q show ?case by simp
  qed simp
  from this [of ps "[]"] assms pairs_printed [OF assms(1,2)] show ?thesis by (simp add: sms_fields_def)
qed

section \<open>Records survive\<close>

definition state_name :: "sms_state \<Rightarrow> string" where
  "state_name st = (case st of SmsUnknown \<Rightarrow> ''unknown'' | Stored \<Rightarrow> ''stored'' | Receiving \<Rightarrow> ''receiving''
     | Received \<Rightarrow> ''received'' | Sending \<Rightarrow> ''sending'' | Sent \<Rightarrow> ''sent'')"

definition opt_pair :: "string \<Rightarrow> string option \<Rightarrow> (string \<times> string) list" where
  "opt_pair k v = (case v of None \<Rightarrow> [] | Some x \<Rightarrow> [(k, x)])"

definition record_pairs :: "nat \<Rightarrow> sms_message \<Rightarrow> (string \<times> string) list" where
  "record_pairs n m =
     [(''sms.dbus-path'', SMS_PATH_PREFIX @ show_nat n)] @ opt_pair ''sms.content.number'' (ms_from m) @
     opt_pair ''sms.content.text'' (if ms_text m = [] then None else Some (ms_text m)) @
     [(''sms.properties.state'', state_name (ms_state m))] @ opt_pair ''sms.properties.timestamp'' (ms_timestamp m)"

lemma path_index_printed: "smsPathIndex (SMS_PATH_PREFIX @ show_nat n) = Some n"
proof -
  have digits: "digits_of (show_nat n) = show_nat n"
    using show_nat_digits by (auto simp: digits_of_def takeWhile_eq_all_conv)
  obtain c s where cs: "SMS_PATH_PREFIX @ show_nat n = c # s" by (cases "SMS_PATH_PREFIX @ show_nat n") auto
  have "drop (length SMS_PATH_PREFIX) (c # s) = show_nat n" "prefix SMS_PATH_PREFIX (c # s)"
    unfolding cs [symmetric] by simp_all
  with digits show ?thesis unfolding cs by (simp add: Let_def)
qed

lemma path_value_ok: "value_ok (SMS_PATH_PREFIX @ show_nat n)"
proof -
  have ascii: "(of_char c :: nat) < 128" if "c \<in> set (SMS_PATH_PREFIX @ show_nat n)" for c
    using that show_nat_digits [of c n] by (auto simp: SMS_PATH_PREFIX_def is_digit_def)
  have "last (SMS_PATH_PREFIX @ show_nat n) \<noteq> CHR '' ''"
    using show_nat_digits [of "last (show_nat n)" n] by (auto simp: is_digit_def)
  then show ?thesis
    using ascii_valid [of "SMS_PATH_PREFIX @ show_nat n"] ascii
    by (simp add: value_ok_def plain_text_def) (simp add: SMS_PATH_PREFIX_def BOM_def)
qed

lemma state_value: "value_ok (state_name st) \<and> normalizeSmsState (Some (state_name st)) = st"
  by (cases st)
     (simp_all add: state_name_def value_ok_def plain_text_def ascii_valid BOM_def normalizeSmsState_def KNOWN_SMS_STATES_def)

lemma record_keys:
  "key_ok ''sms.dbus-path''" "key_ok ''sms.content.number''" "key_ok ''sms.content.text''"
  "key_ok ''sms.properties.state''" "key_ok ''sms.properties.timestamp''"
  by (simp_all add: key_ok_def NL_def is_space_def)

text \<open>A record survives mmcli's writer: whatever bytes a message's text, sender and timestamp hold (valid UTF-8, no byte order mark, no blank at an end, not the writer's own sign for nothing), parsing the record that mmcli prints of it, with every value through g_strescape, gives the message back.\<close>

theorem mmcli_record_roundtrip:
  assumes "ms_id m = show_nat n" and "pred_option value_ok (ms_from m)" and "pred_option value_ok (ms_timestamp m)"
    and "ms_text m = [] \<or> value_ok (ms_text m)"
  shows "parseSmsRecordOutput (mmcli_print (record_pairs n m)) = Inr m"
proof -
  have ok: "\<forall>(k, v) \<in> set (record_pairs n m). key_ok k \<and> value_ok v"
    using assms(2-4) path_value_ok state_value record_keys
    by (cases "ms_from m"; cases "ms_timestamp m") (auto simp: record_pairs_def opt_pair_def)
  have d: "distinct (map fst (record_pairs n m))"
    by (auto simp: record_pairs_def opt_pair_def split: option.splits)
  have fields: "sms_fields (mmcli_print (record_pairs n m)) = record_pairs n m"
    by (rule fields_printed [OF _ ok d]) (simp add: record_pairs_def)
  have look: "map_of (record_pairs n m) ''sms.dbus-path'' = Some (SMS_PATH_PREFIX @ show_nat n)"
    "map_of (record_pairs n m) ''sms.content.number'' = ms_from m"
    "map_of (record_pairs n m) ''sms.content.text'' = (if ms_text m = [] then None else Some (ms_text m))"
    "map_of (record_pairs n m) ''sms.properties.state'' = Some (state_name (ms_state m))"
    "map_of (record_pairs n m) ''sms.properties.timestamp'' = ms_timestamp m"
    by (simp_all add: record_pairs_def opt_pair_def split: option.split)
  show ?thesis unfolding parseSmsRecordOutput_def fields Let_def look
    using assms(1) state_value by (cases m) (simp add: path_index_printed)
qed

definition sample_message :: sms_message where
  "sample_message = \<lparr>ms_id = ''36'', ms_from = Some ''+34600'', ms_timestamp = None,
     ms_text = [CHR 0xC2, CHR 0xA1, CHR 0x0A, CHR 0x22, CHR 0x5C], ms_state = Received\<rparr>"

theorem mmcli_record_roundtrip_witness:
  "parseSmsRecordOutput (mmcli_print (record_pairs 36 sample_message)) = Inr sample_message"
proof (rule mmcli_record_roundtrip)
  have "value_ok ''+34600''" by code_simp
  then show "pred_option value_ok (ms_from sample_message)" by (simp add: sample_message_def)
  show "pred_option value_ok (ms_timestamp sample_message)" by (simp add: sample_message_def)
  show "ms_id sample_message = show_nat 36" by code_simp
  show "ms_text sample_message = [] \<or> value_ok (ms_text sample_message)" by code_simp
qed

text \<open>A parse that fails names keys only.\<close>

lemma failure_is_content_free:
  "parseSmsRecordOutput raw = Inl e \<Longrightarrow> pf_detail e = js_join '', '' (map fst (sms_fields raw))"
  by (auto simp: parseSmsRecordOutput_def parse_fail_def Let_def split: option.splits)

end
