(* ===== verification/Usage.thy ===== *)
theory Usage
  imports Domain_State Billing_Cycle
begin

text \<open>
  Usage accounting (\<open>backend/usage\<close>): the reducer per slot, one sampling pass, the policy writes, the
  projection, the persisted document, and the sampler that ties them to a counter source and a
  store. Byte counts are integers, a rate is the exact quotient, and the clock is never negative.
\<close>

section \<open>The reducer\<close>

record baseline_key =
  bk_logicalSlotId :: string
  bk_mappingGeneration :: int
  bk_ifname :: string
  bk_bootId :: string

record slot_account =
  sa_cycleBytes :: int
  sa_cycleStartMs :: int
  sa_paused :: bool
  sa_key :: "baseline_key option"
  sa_lastObserved :: "int option"

record sample_input =
  si_key :: baseline_key
  si_current :: int
  si_confidence :: identity_confidence
  si_cycleStartMs :: int

definition initialAccount :: "int \<Rightarrow> slot_account" where
  "initialAccount start = \<lparr>sa_cycleBytes = 0, sa_cycleStartMs = start, sa_paused = False,
     sa_key = None, sa_lastObserved = None\<rparr>"

definition sameBaselineKey :: "baseline_key \<Rightarrow> baseline_key \<Rightarrow> bool" where
  "sameBaselineKey a b \<longleftrightarrow> bk_logicalSlotId a = bk_logicalSlotId b \<and>
     bk_mappingGeneration a = bk_mappingGeneration b \<and> bk_ifname a = bk_ifname b \<and> bk_bootId a = bk_bootId b"

definition rollCycle :: "slot_account \<Rightarrow> int \<Rightarrow> slot_account" where
  "rollCycle account start =
     (if start > sa_cycleStartMs account then account\<lparr>sa_cycleBytes := 0, sa_cycleStartMs := start\<rparr> else account)"

definition rebase :: "slot_account \<Rightarrow> sample_input \<Rightarrow> slot_account" where
  "rebase base input = base\<lparr>sa_paused := False, sa_key := Some (si_key input),
     sa_lastObserved := Some (si_current input)\<rparr>"

definition applySample :: "slot_account option \<Rightarrow> sample_input \<Rightarrow> slot_account" where
  "applySample prior input =
     (let base = rollCycle (case prior of Some a \<Rightarrow> a | None \<Rightarrow> initialAccount (si_cycleStartMs input))
                   (si_cycleStartMs input) in
      if si_confidence input = ConfLow
      then \<lparr>sa_cycleBytes = sa_cycleBytes base, sa_cycleStartMs = sa_cycleStartMs base, sa_paused = True,
            sa_key = None, sa_lastObserved = None\<rparr>
      else case (sa_paused base, sa_key base, sa_lastObserved base) of
        (False, Some key, Some lastObserved) \<Rightarrow>
          if \<not> sameBaselineKey key (si_key input) then rebase base input
          else if si_current input < lastObserved then rebase base input
          else (rebase base input)\<lparr>sa_cycleBytes := sa_cycleBytes base + (si_current input - lastObserved)\<rparr>
      | _ \<Rightarrow> rebase base input)"

section \<open>One sampling pass\<close>

record slot_rate =
  rt_sampledAtMs :: int
  rt_bytesPerSecond :: "rat option"

record usage_observation =
  uo_logicalSlotId :: string
  uo_mappingGeneration :: int
  uo_ifname :: string
  uo_confidence :: identity_confidence
  uo_usage :: desired_usage

record sampling_state =
  ss_bootId :: string
  ss_defaultCycleDay :: int
  ss_accounts :: "(string \<times> slot_account) list"
  ss_policies :: "(string \<times> desired_usage) list"
  ss_policyOverrides :: "(string \<times> desired_usage) list"
  ss_rates :: "(string \<times> slot_rate) list"

definition measureRate ::
  "slot_account option \<Rightarrow> slot_rate option \<Rightarrow> baseline_key \<Rightarrow> int \<Rightarrow> identity_confidence \<Rightarrow> int \<Rightarrow> slot_rate" where
  "measureRate prior priorRate key current confidence now =
     (let unmeasured = \<lparr>rt_sampledAtMs = now, rt_bytesPerSecond = None\<rparr> in
      if confidence = ConfLow then unmeasured
      else case prior of None \<Rightarrow> unmeasured
      | Some a \<Rightarrow>
         (case (sa_paused a, sa_key a, sa_lastObserved a) of
            (False, Some k, Some lastObserved) \<Rightarrow>
              if \<not> sameBaselineKey k key then unmeasured
              else (case priorRate of None \<Rightarrow> unmeasured
                | Some pr \<Rightarrow>
                    if current < lastObserved then unmeasured
                    else let elapsedMs = now - rt_sampledAtMs pr in
                      if elapsedMs \<le> 0 then unmeasured
                      else \<lparr>rt_sampledAtMs = now,
                            rt_bytesPerSecond = Some (of_int ((current - lastObserved) * 1000) / of_int elapsedMs)\<rparr>)
          | _ \<Rightarrow> unmeasured))"

definition cycle_day :: "sampling_state \<Rightarrow> desired_usage \<Rightarrow> int" where
  "cycle_day state usage = (case du_cycleDay usage of Some d \<Rightarrow> d | None \<Rightarrow> ss_defaultCycleDay state)"

definition applyObservation ::
  "(string \<times> int) list \<Rightarrow> int \<Rightarrow> usage_observation \<Rightarrow> sampling_state \<Rightarrow> sampling_state" where
  "applyObservation counters now obs state =
     (let slotId = uo_logicalSlotId obs;
          usage = (case map_of (ss_policyOverrides state) slotId of Some u \<Rightarrow> u | None \<Rightarrow> uo_usage obs);
          state1 = state\<lparr>ss_policies := AList.update slotId usage (ss_policies state)\<rparr>;
          start = cycleStart now (cycle_day state usage)
      in case map_of counters (uo_ifname obs) of
           None \<Rightarrow>
             state1\<lparr>ss_accounts := (if map_of (ss_accounts state) slotId = None
                                    then AList.update slotId (initialAccount start) (ss_accounts state)
                                    else ss_accounts state),
                    ss_rates := AList.delete slotId (ss_rates state)\<rparr>
         | Some current \<Rightarrow>
             (let key = \<lparr>bk_logicalSlotId = slotId, bk_mappingGeneration = uo_mappingGeneration obs,
                         bk_ifname = uo_ifname obs, bk_bootId = ss_bootId state\<rparr>;
                  prior = map_of (ss_accounts state) slotId;
                  next_acc = applySample prior \<lparr>si_key = key, si_current = current,
                    si_confidence = uo_confidence obs, si_cycleStartMs = start\<rparr>
              in state1\<lparr>ss_rates := AList.update slotId
                          (measureRate prior (map_of (ss_rates state) slotId) key current (uo_confidence obs) now)
                          (ss_rates state),
                        ss_accounts := AList.update slotId next_acc (ss_accounts state)\<rparr>))"

definition applyUsageSamples ::
  "usage_observation list \<Rightarrow> (string \<times> int) list \<Rightarrow> int \<Rightarrow> sampling_state \<Rightarrow> sampling_state" where
  "applyUsageSamples observations counters now state = fold (applyObservation counters now) observations state"

section \<open>Policy and projection\<close>

record policy_application =
  pa_cycleStartMs :: int
  pa_cycleReset :: bool
  pa_dirty :: bool

definition applyPolicy ::
  "string \<Rightarrow> desired_usage \<Rightarrow> int \<Rightarrow> sampling_state \<Rightarrow> policy_application \<times> sampling_state" where
  "applyPolicy slotId usage now state =
     (let state1 = state\<lparr>ss_policyOverrides := AList.update slotId usage (ss_policyOverrides state),
                         ss_policies := AList.update slotId usage (ss_policies state)\<rparr>;
          start = cycleStart now (cycle_day state usage);
          out = (\<lambda>reset dirty. \<lparr>pa_cycleStartMs = start, pa_cycleReset = reset, pa_dirty = dirty\<rparr>)
      in case map_of (ss_accounts state) slotId of
           None \<Rightarrow> (out False True,
             state1\<lparr>ss_accounts := AList.update slotId (initialAccount start) (ss_accounts state)\<rparr>)
         | Some account \<Rightarrow>
             if sa_cycleStartMs account = start then (out False False, state1)
             else (out True True, state1\<lparr>ss_accounts := AList.update slotId
                     (account\<lparr>sa_cycleBytes := 0, sa_cycleStartMs := start\<rparr>) (ss_accounts state)\<rparr>))"

record slot_usage_snapshot =
  su_logicalSlotId :: string
  su_cycleBytes :: int
  su_cycleStartMs :: int
  su_paused :: bool
  su_cycleDay :: "int option"
  su_thresholdBytes :: "int option"
  su_thresholdExceeded :: bool
  su_rateBytesPerSecond :: "rat option"

record usage_snapshot =
  us_bootId :: string
  us_generatedAtMs :: int
  us_slots :: "slot_usage_snapshot list"

definition project_slot :: "sampling_state \<Rightarrow> string \<times> slot_account \<Rightarrow> slot_usage_snapshot" where
  "project_slot state = (\<lambda>(slotId, account).
     let policy = map_of (ss_policies state) slotId;
         threshold = Option.bind policy du_thresholdBytes
     in \<lparr>su_logicalSlotId = slotId, su_cycleBytes = sa_cycleBytes account,
         su_cycleStartMs = sa_cycleStartMs account, su_paused = sa_paused account,
         su_cycleDay = Option.bind policy du_cycleDay, su_thresholdBytes = threshold,
         su_thresholdExceeded = (case threshold of None \<Rightarrow> False | Some t \<Rightarrow> sa_cycleBytes account > t),
         su_rateBytesPerSecond = Option.bind (map_of (ss_rates state) slotId) rt_bytesPerSecond\<rparr>)"

definition projectUsageSnapshot :: "sampling_state \<Rightarrow> int \<Rightarrow> usage_snapshot" where
  "projectUsageSnapshot state at_ms = \<lparr>us_bootId = ss_bootId state, us_generatedAtMs = at_ms,
     us_slots = map (project_slot state) (ss_accounts state)\<rparr>"

section \<open>The persisted document\<close>

text \<open>A document in memory holds integers; what a file holds is any finite number.\<close>

record 'n persisted_slot =
  ps_logicalSlotId :: string
  ps_cycleBytes :: 'n
  ps_cycleStartMs :: 'n
  ps_mappingGeneration :: "'n option"
  ps_ifname :: "string option"
  ps_lastObserved :: "'n option"

record 'n persisted_usage =
  pu_schemaVersion :: int
  pu_bootId :: string
  pu_savedAtMs :: 'n
  pu_slots :: "'n persisted_slot list"

definition USAGE_SCHEMA_VERSION :: int where "USAGE_SCHEMA_VERSION = 1"

definition freshState :: "string \<Rightarrow> int \<Rightarrow> int persisted_usage" where
  "freshState bootId now = \<lparr>pu_schemaVersion = USAGE_SCHEMA_VERSION, pu_bootId = bootId,
     pu_savedAtMs = now, pu_slots = []\<rparr>"

definition persist_slot :: "string \<times> slot_account \<Rightarrow> int persisted_slot" where
  "persist_slot = (\<lambda>(slotId, account).
     \<lparr>ps_logicalSlotId = slotId, ps_cycleBytes = sa_cycleBytes account, ps_cycleStartMs = sa_cycleStartMs account,
      ps_mappingGeneration = map_option bk_mappingGeneration (sa_key account),
      ps_ifname = map_option bk_ifname (sa_key account), ps_lastObserved = sa_lastObserved account\<rparr>)"

definition persistedUsageState :: "string \<Rightarrow> int \<Rightarrow> (string \<times> slot_account) list \<Rightarrow> int persisted_usage" where
  "persistedUsageState bootId savedAt accounts = \<lparr>pu_schemaVersion = USAGE_SCHEMA_VERSION, pu_bootId = bootId,
     pu_savedAtMs = savedAt, pu_slots = map persist_slot accounts\<rparr>"

definition hydrate_slot :: "bool \<Rightarrow> string \<Rightarrow> int persisted_slot \<Rightarrow> slot_account" where
  "hydrate_slot sameBoot bootId s =
     (let bare = initialAccount (ps_cycleStartMs s)\<lparr>sa_cycleBytes := ps_cycleBytes s\<rparr> in
      if \<not> sameBoot then bare
      else case (ps_ifname s, ps_mappingGeneration s, ps_lastObserved s) of
        (Some ifname, Some generation, Some lastObserved) \<Rightarrow>
          bare\<lparr>sa_key := Some \<lparr>bk_logicalSlotId = ps_logicalSlotId s, bk_mappingGeneration = generation,
                 bk_ifname = ifname, bk_bootId = bootId\<rparr>,
               sa_lastObserved := Some lastObserved\<rparr>
      | _ \<Rightarrow> bare)"

definition hydrateUsageAccounts :: "int persisted_usage \<Rightarrow> string \<Rightarrow> (string \<times> slot_account) list" where
  "hydrateUsageAccounts initial bootId =
     fold (\<lambda>s m. AList.update (ps_logicalSlotId s) (hydrate_slot (pu_bootId initial = bootId) bootId s) m)
       (pu_slots initial) []"

section \<open>The sampler\<close>

record 'w sampler_env =
  sv_read :: "('w, (string \<times> int) list) io"
  sv_load :: "string \<Rightarrow> int \<Rightarrow> ('w, int persisted_usage) io"
  sv_save :: "int persisted_usage \<Rightarrow> ('w, unit) io"
  sv_clock :: "'w \<Rightarrow> int"
  sv_bootId :: string
  sv_persistIntervalMs :: int
  sv_defaultCycleDay :: int

definition DEFAULT_PERSIST_INTERVAL_MS :: int where "DEFAULT_PERSIST_INTERVAL_MS = 60000"
definition DEFAULT_CYCLE_DAY :: int where "DEFAULT_CYCLE_DAY = 1"

record 'w sampler =
  sm_state :: sampling_state
  sm_lastPersistMs :: int
  sm_dirty :: bool
  sm_world :: 'w

definition on_sworld :: "('w, 'a) io \<Rightarrow> ('w sampler, 'a) io" where
  "on_sworld m s = (case m (sm_world s) of (r, w) \<Rightarrow> (r, s\<lparr>sm_world := w\<rparr>))"

definition sampler_create :: "'w sampler_env \<Rightarrow> 'w \<Rightarrow> (string + 'w sampler) \<times> 'w" where
  "sampler_create env w =
     (case sv_load env (sv_bootId env) (sv_clock env w) w of
        (Inl e, w1) \<Rightarrow> (Inl e, w1)
      | (Inr initial, w1) \<Rightarrow>
          (Inr \<lparr>sm_state = \<lparr>ss_bootId = sv_bootId env, ss_defaultCycleDay = sv_defaultCycleDay env,
                  ss_accounts = hydrateUsageAccounts initial (sv_bootId env), ss_policies = [],
                  ss_policyOverrides = [], ss_rates = []\<rparr>,
                sm_lastPersistMs = sv_clock env w1, sm_dirty = False, sm_world = w1\<rparr>, w1))"

definition sampler_persist :: "'w sampler_env \<Rightarrow> int \<Rightarrow> ('w sampler, unit) io" where
  "sampler_persist env now s =
     (case on_sworld (sv_save env (persistedUsageState (ss_bootId (sm_state s)) now (ss_accounts (sm_state s)))) s of
        (Inl e, s1) \<Rightarrow> (Inl e, s1)
      | (Inr _, s1) \<Rightarrow> (Inr (), s1\<lparr>sm_lastPersistMs := now, sm_dirty := False\<rparr>))"

definition maybePersist :: "'w sampler_env \<Rightarrow> int \<Rightarrow> ('w sampler, unit) io" where
  "maybePersist env now s =
     (if now - sm_lastPersistMs s \<ge> sv_persistIntervalMs env then sampler_persist env now s else (Inr (), s))"

definition sampler_sample :: "'w sampler_env \<Rightarrow> usage_observation list \<Rightarrow> ('w sampler, unit) io" where
  "sampler_sample env observations s =
     (case on_sworld (sv_read env) s of
        (Inl e, s1) \<Rightarrow> (Inl e, s1)
      | (Inr counters, s1) \<Rightarrow>
          (let now = sv_clock env (sm_world s1) in
           maybePersist env now
             (s1\<lparr>sm_state := applyUsageSamples observations counters now (sm_state s1), sm_dirty := True\<rparr>)))"

definition sampler_snapshot :: "'w sampler_env \<Rightarrow> 'w sampler \<Rightarrow> usage_snapshot" where
  "sampler_snapshot env s = projectUsageSnapshot (sm_state s) (sv_clock env (sm_world s))"

definition applyUsagePolicy ::
  "'w sampler_env \<Rightarrow> string \<Rightarrow> desired_usage \<Rightarrow> int option \<Rightarrow> 'w sampler \<Rightarrow> (int \<times> bool) \<times> 'w sampler" where
  "applyUsagePolicy env slotId usage atMs s =
     (case applyPolicy slotId usage (case atMs of Some t \<Rightarrow> t | None \<Rightarrow> sv_clock env (sm_world s)) (sm_state s) of
        (result, st) \<Rightarrow> ((pa_cycleStartMs result, pa_cycleReset result),
           s\<lparr>sm_state := st, sm_dirty := sm_dirty s \<or> pa_dirty result\<rparr>))"

definition sampler_flush :: "'w sampler_env \<Rightarrow> ('w sampler, unit) io" where
  "sampler_flush env s =
     (if sm_dirty s then sampler_persist env (sv_clock env (sm_world s)) s else (Inr (), s))"

section \<open>What the reducer attributes\<close>

text \<open>
  The abstract account of a list of samples: the cycle is the latest one seen, and its bytes are
  the sum of the increases between adjacent samples that are both confident, under one key, and
  do not go backwards, from the first sample of that cycle on.
\<close>

definition increase :: "sample_input \<Rightarrow> sample_input \<Rightarrow> int" where
  "increase a b =
     (if si_confidence a \<noteq> ConfLow \<and> si_confidence b \<noteq> ConfLow \<and> sameBaselineKey (si_key a) (si_key b) \<and>
         si_current a \<le> si_current b
      then si_current b - si_current a else 0)"

definition latest_cycle :: "sample_input list \<Rightarrow> int" where
  "latest_cycle xs = Max (set (map si_cycleStartMs xs))"

definition cycle_first :: "sample_input list \<Rightarrow> nat" where
  "cycle_first xs = length (takeWhile (\<lambda>x. si_cycleStartMs x < latest_cycle xs) xs)"

definition attributed :: "sample_input list \<Rightarrow> int" where
  "attributed xs = (\<Sum>i \<leftarrow> [max 1 (cycle_first xs)..<length xs]. increase (xs ! (i - 1)) (xs ! i))"

definition account_of :: "sample_input list \<Rightarrow> slot_account option" where
  "account_of xs = fold (\<lambda>x a. Some (applySample a x)) xs None"

lemma account_of_snoc: "account_of (xs @ [x]) = Some (applySample (account_of xs) x)"
  by (simp add: account_of_def)

lemma increase_nonneg: "0 \<le> increase a b"
  by (simp add: increase_def)

lemma latest_cycle_snoc: "xs \<noteq> [] \<Longrightarrow> latest_cycle (xs @ [x]) = max (si_cycleStartMs x) (latest_cycle xs)"
  by (simp add: latest_cycle_def)

lemma latest_cycle_ge: "x \<in> set xs \<Longrightarrow> si_cycleStartMs x \<le> latest_cycle xs"
  by (simp add: latest_cycle_def)

lemma latest_cycle_in: "xs \<noteq> [] \<Longrightarrow> \<exists>x \<in> set xs. si_cycleStartMs x = latest_cycle xs"
proof -
  assume "xs \<noteq> []"
  then have "Max (si_cycleStartMs ` set xs) \<in> si_cycleStartMs ` set xs" by (intro Max_in) auto
  then show ?thesis by (auto simp: latest_cycle_def)
qed

lemma cycle_first_less: "xs \<noteq> [] \<Longrightarrow> cycle_first xs < length xs"
proof -
  assume "xs \<noteq> []"
  then obtain x where "x \<in> set xs" "si_cycleStartMs x = latest_cycle xs" using latest_cycle_in by blast
  then have "takeWhile (\<lambda>x. si_cycleStartMs x < latest_cycle xs) xs \<noteq> xs"
    by (metis less_irrefl set_takeWhileD)
  then show ?thesis
    by (metis cycle_first_def length_takeWhile_le le_neq_implies_less takeWhile_eq_take take_all_iff order_refl)
qed

lemma cycle_first_same:
  assumes "xs \<noteq> []" and "si_cycleStartMs x \<le> latest_cycle xs"
  shows "cycle_first (xs @ [x]) = cycle_first xs"
proof -
  have l: "latest_cycle (xs @ [x]) = latest_cycle xs" using assms by (simp add: latest_cycle_snoc)
  obtain y where "y \<in> set xs" "\<not> si_cycleStartMs y < latest_cycle xs" using latest_cycle_in [OF assms(1)] by auto
  then show ?thesis by (simp add: cycle_first_def l takeWhile_append1)
qed

lemma cycle_first_new:
  assumes "xs \<noteq> []" and "latest_cycle xs < si_cycleStartMs x"
  shows "cycle_first (xs @ [x]) = length xs"
proof -
  have l: "latest_cycle (xs @ [x]) = si_cycleStartMs x" using assms by (simp add: latest_cycle_snoc)
  have "\<forall>y \<in> set xs. si_cycleStartMs y < si_cycleStartMs x"
    using latest_cycle_ge assms(2) by (auto intro: le_less_trans)
  then show ?thesis by (simp add: cycle_first_def l takeWhile_append2)
qed

lemma attributed_same:
  assumes "xs \<noteq> []" and "si_cycleStartMs x \<le> latest_cycle xs"
  shows "attributed (xs @ [x]) = attributed xs + increase (last xs) x"
proof -
  let ?a = "max 1 (cycle_first xs)"
  have a: "?a \<le> length xs" using cycle_first_less [OF assms(1)] assms(1) by (cases xs) auto
  have "(\<Sum>i \<leftarrow> [?a..<length xs]. increase ((xs @ [x]) ! (i - 1)) ((xs @ [x]) ! i)) =
      (\<Sum>i \<leftarrow> [?a..<length xs]. increase (xs ! (i - 1)) (xs ! i))"
    by (intro arg_cong [where f = sum_list] map_cong refl) (auto simp: nth_append)
  moreover have "(xs @ [x]) ! (length xs - 1) = last xs"
    using assms(1) by (simp add: nth_append last_conv_nth)
  ultimately show ?thesis
    using a by (simp add: attributed_def cycle_first_same [OF assms] upt_Suc_append nth_append)
qed

lemma attributed_new:
  assumes "xs \<noteq> []" and "latest_cycle xs < si_cycleStartMs x"
  shows "attributed (xs @ [x]) = increase (last xs) x"
proof -
  have "max 1 (length xs) = length xs" using assms(1) by (cases xs) auto
  then show ?thesis
    using assms(1) by (simp add: attributed_def cycle_first_new [OF assms] nth_append last_conv_nth)
qed

text \<open>The account after a list of samples.\<close>

definition account_shape :: "sample_input list \<Rightarrow> slot_account \<Rightarrow> bool" where
  "account_shape xs a \<longleftrightarrow> sa_cycleBytes a = attributed xs \<and> sa_cycleStartMs a = latest_cycle xs \<and>
     (if si_confidence (last xs) = ConfLow
      then sa_paused a \<and> sa_key a = None \<and> sa_lastObserved a = None
      else \<not> sa_paused a \<and> sa_key a = Some (si_key (last xs)) \<and> sa_lastObserved a = Some (si_current (last xs)))"

lemma applySample_shape:
  assumes shape: "account_shape xs a" and ne: "xs \<noteq> []"
  shows "account_shape (xs @ [x]) (applySample (Some a) x)"
proof (cases "si_cycleStartMs x > latest_cycle xs")
  case True
  then have roll: "rollCycle a (si_cycleStartMs x) = a\<lparr>sa_cycleBytes := 0, sa_cycleStartMs := si_cycleStartMs x\<rparr>"
    using shape by (simp add: rollCycle_def account_shape_def)
  have l: "latest_cycle (xs @ [x]) = si_cycleStartMs x" using True ne by (simp add: latest_cycle_snoc)
  show ?thesis
    using shape
    by (auto simp: account_shape_def applySample_def Let_def roll rebase_def l attributed_new [OF ne True] increase_def
        split: if_splits)
next
  case False
  then have roll: "rollCycle a (si_cycleStartMs x) = a"
    using shape by (simp add: rollCycle_def account_shape_def)
  have l: "latest_cycle (xs @ [x]) = latest_cycle xs" using False ne by (simp add: latest_cycle_snoc)
  have at: "attributed (xs @ [x]) = attributed xs + increase (last xs) x" using attributed_same [OF ne] False by simp
  show ?thesis
    using shape
    by (auto simp: account_shape_def applySample_def Let_def roll rebase_def l at increase_def split: if_splits)
qed

lemma account_shape_of: "xs \<noteq> [] \<Longrightarrow> \<exists>a. account_of xs = Some a \<and> account_shape xs a"
proof (induction xs rule: rev_induct)
  case Nil
  then show ?case by simp
next
  case (snoc x xs)
  show ?case
  proof (cases "xs = []")
    case True
    then show ?thesis
      by (auto simp: account_of_def account_shape_def applySample_def Let_def rollCycle_def initialAccount_def
          rebase_def attributed_def latest_cycle_def cycle_first_def)
  next
    case False
    with snoc.IH obtain a where a: "account_of xs = Some a" "account_shape xs a" by blast
    from applySample_shape [OF a(2) False, of x] a(1) show ?thesis by (simp add: account_of_snoc)
  qed
qed

section \<open>Persisting and resuming\<close>

lemma resumed_slot:
  assumes "sa_paused a = False \<or> sa_key a = None" and "\<forall>k. sa_key a = Some k \<longrightarrow> bk_logicalSlotId k = slotId \<and> bk_bootId k = bootId"
    and "sa_key a = None \<longleftrightarrow> sa_lastObserved a = None"
  shows "hydrate_slot True bootId (persist_slot (slotId, a)) = a\<lparr>sa_paused := False\<rparr>"
  using assms
  by (cases "sa_key a"; cases "sa_lastObserved a")
     (auto simp: hydrate_slot_def persist_slot_def initialAccount_def Let_def)

lemma hydrated_list:
  assumes "distinct (map ps_logicalSlotId slots)"
  shows "map_of (fold (\<lambda>s m. AList.update (ps_logicalSlotId s) (f s) m) slots m) k =
    (case find (\<lambda>s. ps_logicalSlotId s = k) slots of Some s \<Rightarrow> Some (f s) | None \<Rightarrow> map_of m k)"
  using assms
proof (induction slots arbitrary: m)
  case (Cons s slots)
  have "find (\<lambda>s. ps_logicalSlotId s = k) slots = None" if "ps_logicalSlotId s = k"
  proof -
    from Cons.prems that have "\<not> (\<exists>s'. s' \<in> set slots \<and> ps_logicalSlotId s' = k)" by (auto simp: image_iff)
    then show ?thesis by (simp add: find_None_iff)
  qed
  moreover have "distinct (map ps_logicalSlotId slots)" using Cons.prems by simp
  note IH = Cons.IH [OF this]
  ultimately show ?case by (simp add: IH map_get_set del: map_of_eq_Some_iff split: option.split)
qed simp

lemma find_persisted:
  "find (\<lambda>s. ps_logicalSlotId s = k) (map persist_slot accounts) =
     map_option (\<lambda>a. persist_slot (k, a)) (map_of accounts k)"
  by (induction accounts) (auto simp: persist_slot_def)

lemma hydrated_account:
  assumes "distinct (map fst accounts)"
  shows "map_of (hydrateUsageAccounts (persistedUsageState savedBoot at_ms accounts) bootId) k =
    map_option (\<lambda>a. hydrate_slot (savedBoot = bootId) bootId (persist_slot (k, a))) (map_of accounts k)"
proof -
  have "map ps_logicalSlotId (map persist_slot accounts) = map fst accounts"
    by (induction accounts) (auto simp: persist_slot_def)
  with assms have d: "distinct (map ps_logicalSlotId (map persist_slot accounts))" by presburger
  show ?thesis
    unfolding hydrateUsageAccounts_def persistedUsageState_def persisted_usage.simps hydrated_list [OF d] find_persisted
    by (simp split: option.split)
qed

text \<open>The accounts a sampler keeps: one row a slot, each baseline under its own slot and boot.\<close>

definition account_ok :: "string \<Rightarrow> string \<Rightarrow> slot_account \<Rightarrow> bool" where
  "account_ok bootId slotId a \<longleftrightarrow>
     (\<forall>k. sa_key a = Some k \<longrightarrow> bk_logicalSlotId k = slotId \<and> bk_bootId k = bootId) \<and>
     (sa_key a = None \<longleftrightarrow> sa_lastObserved a = None) \<and> (sa_paused a \<longrightarrow> sa_key a = None)"

definition accounts_ok :: "sampling_state \<Rightarrow> bool" where
  "accounts_ok st \<longleftrightarrow> distinct (map fst (ss_accounts st)) \<and>
     (\<forall>k a. map_of (ss_accounts st) k = Some a \<longrightarrow> account_ok (ss_bootId st) k a)"

lemma account_ok_initial: "account_ok b k (initialAccount start)"
  by (simp add: account_ok_def initialAccount_def)

lemma account_ok_applySample:
  assumes "case prior of None \<Rightarrow> True | Some a \<Rightarrow> account_ok b k a"
    and "bk_logicalSlotId (si_key x) = k" "bk_bootId (si_key x) = b"
  shows "account_ok b k (applySample prior x)"
  using assms
  by (auto simp: account_ok_def applySample_def Let_def rollCycle_def initialAccount_def rebase_def
      split: option.splits bool.splits if_splits)

lemma accounts_ok_update:
  assumes "accounts_ok st" and "account_ok (ss_bootId st) k a"
  shows "accounts_ok (st\<lparr>ss_accounts := AList.update k a (ss_accounts st)\<rparr>)"
  unfolding accounts_ok_def
proof (intro conjI allI impI)
  show "distinct (map fst (ss_accounts (st\<lparr>ss_accounts := AList.update k a (ss_accounts st)\<rparr>)))"
    using assms(1) by (simp add: accounts_ok_def distinct_keys_set)
next
  fix k' a'
  assume "map_of (ss_accounts (st\<lparr>ss_accounts := AList.update k a (ss_accounts st)\<rparr>)) k' = Some a'"
  then have "if k = k' then a = a' else map_of (ss_accounts st) k' = Some a'" by (simp add: map_get_set split: if_splits)
  with assms show "account_ok (ss_bootId (st\<lparr>ss_accounts := AList.update k a (ss_accounts st)\<rparr>)) k' a'"
    unfolding accounts_ok_def by (cases "k = k'") auto
qed

text \<open>Only the boot and the accounts matter.\<close>

lemma accounts_ok_frame:
  "accounts_ok st \<Longrightarrow> ss_accounts st' = ss_accounts st \<Longrightarrow> ss_bootId st' = ss_bootId st \<Longrightarrow> accounts_ok st'"
  by (simp add: accounts_ok_def)

lemma accounts_ok_set:
  assumes "accounts_ok st" and "account_ok (ss_bootId st) k a"
    and "ss_accounts st' = AList.update k a (ss_accounts st)" and "ss_bootId st' = ss_bootId st"
  shows "accounts_ok st'"
  using accounts_ok_frame [OF accounts_ok_update [OF assms(1,2)]] assms(3,4) by simp

lemma applyObservation_ok:
  assumes "accounts_ok st"
  shows "accounts_ok (applyObservation counters now obs st) \<and>
    ss_bootId (applyObservation counters now obs st) = ss_bootId st"
proof
  let ?k = "uo_logicalSlotId obs" and ?st' = "applyObservation counters now obs st"
  show boot: "ss_bootId ?st' = ss_bootId st"
    by (simp add: applyObservation_def Let_def split: option.split)
  show "accounts_ok ?st'"
  proof (cases "map_of counters (uo_ifname obs)")
    case None
    have "\<exists>start. ss_accounts ?st' = AList.update ?k (initialAccount start) (ss_accounts st)"
      if "map_of (ss_accounts st) ?k = None"
      using that None by (simp add: applyObservation_def Let_def) blast
    moreover have "ss_accounts ?st' = ss_accounts st" if "map_of (ss_accounts st) ?k \<noteq> None"
      using that None by (auto simp: applyObservation_def Let_def)
    ultimately show ?thesis
      using accounts_ok_set [OF assms account_ok_initial _ boot] accounts_ok_frame [OF assms _ boot] by blast
  next
    case (Some c)
    have prior: "case map_of (ss_accounts st) ?k of None \<Rightarrow> True | Some a \<Rightarrow> account_ok (ss_bootId st) ?k a"
      using assms unfolding accounts_ok_def by (metis option.case_eq_if option.collapse)
    have "\<exists>x. bk_logicalSlotId (si_key x) = ?k \<and> bk_bootId (si_key x) = ss_bootId st \<and>
        ss_accounts ?st' = AList.update ?k (applySample (map_of (ss_accounts st) ?k) x) (ss_accounts st)"
      using Some by (simp add: applyObservation_def Let_def) (metis baseline_key.select_convs(1,4) sample_input.select_convs(1))
    then show ?thesis
      using accounts_ok_set [OF assms account_ok_applySample [OF prior] _ boot] by blast
  qed
qed

lemma applyUsageSamples_ok:
  "accounts_ok st \<Longrightarrow> accounts_ok (applyUsageSamples obs counters now st) \<and>
     ss_bootId (applyUsageSamples obs counters now st) = ss_bootId st"
  unfolding applyUsageSamples_def
  by (induction obs arbitrary: st) (use applyObservation_ok in auto)

lemma account_ok_reset:
  "account_ok b k a \<Longrightarrow> account_ok b k (a\<lparr>sa_cycleBytes := n, sa_cycleStartMs := start\<rparr>)"
  by (simp add: account_ok_def)

lemma applyPolicy_ok:
  assumes "accounts_ok st"
  shows "accounts_ok (snd (applyPolicy slotId usage now st)) \<and>
     ss_bootId (snd (applyPolicy slotId usage now st)) = ss_bootId st"
proof
  let ?st' = "snd (applyPolicy slotId usage now st)"
  show boot: "ss_bootId ?st' = ss_bootId st"
    by (simp add: applyPolicy_def Let_def split: option.split)
  show "accounts_ok ?st'"
  proof (cases "map_of (ss_accounts st) slotId")
    case None
    then have "ss_accounts ?st' =
        AList.update slotId (initialAccount (cycleStart now (cycle_day st usage))) (ss_accounts st)"
      by (simp add: applyPolicy_def Let_def)
    then show ?thesis by (rule accounts_ok_set [OF assms account_ok_initial _ boot])
  next
    case (Some a)
    then have ok: "account_ok (ss_bootId st) slotId a" using assms unfolding accounts_ok_def by blast
    show ?thesis
    proof (cases "sa_cycleStartMs a = cycleStart now (cycle_day st usage)")
      case True
      with Some have "ss_accounts ?st' = ss_accounts st" by (simp add: applyPolicy_def Let_def)
      then show ?thesis by (rule accounts_ok_frame [OF assms _ boot])
    next
      case False
      with Some have "ss_accounts ?st' = AList.update slotId
          (a\<lparr>sa_cycleBytes := 0, sa_cycleStartMs := cycleStart now (cycle_day st usage)\<rparr>) (ss_accounts st)"
        by (simp add: applyPolicy_def Let_def)
      then show ?thesis by (rule accounts_ok_set [OF assms account_ok_reset [OF ok] _ boot])
    qed
  qed
qed

text \<open>What a sampler owes the store: nothing, or at most what moved within one interval.\<close>

definition saved_by :: "'w sampler_env \<Rightarrow> 'w sampler \<Rightarrow> bool" where
  "saved_by env s \<longleftrightarrow>
     (\<exists>w. sv_save env (persistedUsageState (ss_bootId (sm_state s)) (sm_lastPersistMs s) (ss_accounts (sm_state s))) w =
        (Inr (), sm_world s))"

lemma persist_saves: "sampler_persist env now s = (Inr (), s') \<Longrightarrow> \<not> sm_dirty s' \<and> saved_by env s' \<and> sm_state s' = sm_state s"
  by (auto simp: sampler_persist_def on_sworld_def saved_by_def split: prod.splits sum.splits)

section \<open>Properties\<close>

text \<open>C20: the reducer implements its specification: after any samples of one slot, the account holds the latest cycle seen and, as its bytes, exactly the sum of the increases between adjacent confident samples under one baseline key since that cycle began; a remap, a reboot, a counter reset and a pause add nothing, and the count is never negative.\<close>

theorem account_implements_attribution:
  assumes "xs \<noteq> []"
  shows "\<exists>a. account_of xs = Some a \<and> sa_cycleBytes a = attributed xs \<and> sa_cycleStartMs a = latest_cycle xs \<and>
    0 \<le> sa_cycleBytes a \<and> (sa_paused a \<longleftrightarrow> si_confidence (last xs) = ConfLow)"
proof -
  obtain a where a: "account_of xs = Some a" "account_shape xs a" using account_shape_of [OF assms] by blast
  moreover have "0 \<le> attributed xs"
    unfolding attributed_def by (rule sum_list_nonneg) (auto simp: increase_nonneg)
  ultimately show ?thesis by (auto simp: account_shape_def split: if_splits)
qed

definition sample_key :: baseline_key where
  "sample_key = \<lparr>bk_logicalSlotId = ''s'', bk_mappingGeneration = 1, bk_ifname = ''wwan0'', bk_bootId = ''b''\<rparr>"

definition sample_at :: "int \<Rightarrow> int \<Rightarrow> identity_confidence \<Rightarrow> sample_input" where
  "sample_at start current conf = \<lparr>si_key = sample_key, si_current = current, si_confidence = conf, si_cycleStartMs = start\<rparr>"

definition sample_inputs :: "sample_input list" where
  "sample_inputs = [sample_at 0 100 ConfHigh, sample_at 0 150 ConfHigh, sample_at 0 20 ConfHigh,
     sample_at 0 25 ConfMedium, sample_at 0 90 ConfLow, sample_at 0 95 ConfHigh, sample_at 5 99 ConfHigh]"

lemma sample_attributed: "attributed (butlast sample_inputs) = 55 \<and> attributed sample_inputs = 4"
  by code_simp

lemma account_implements_attribution_witness:
  "\<exists>a. account_of sample_inputs = Some a \<and> sa_cycleBytes a = 4"
  using account_implements_attribution [of sample_inputs] sample_attributed by (auto simp: sample_inputs_def)


definition sample_sampler :: "unit sampler" where
  "sample_sampler = \<lparr>sm_state = \<lparr>ss_bootId = ''b'', ss_defaultCycleDay = 1,
      ss_accounts = [(''s'', applySample None (sample_at 0 100 ConfHigh))], ss_policies = [],
      ss_policyOverrides = [], ss_rates = []\<rparr>, sm_lastPersistMs = 0, sm_dirty = True, sm_world = ()\<rparr>"


end
