(* ===== verification/Atomic_File.thy ===== *)
theory Atomic_File
  imports Json
begin

text \<open>
  The small durable documents of the library: each store writes its file with the same
  \<open>writeAtomic\<close> (a temporary file, \<open>chmod\<close>, a rename) and reads it with the same fail-soft
  \<open>load\<close>. The functions are the ones of \<open>backend/usage/store.ts\<close>, \<open>backend/usage/policy-store.ts\<close> and
  \<open>fcc/policy-store.ts\<close>, with what differs between them (the document, its validation, what a
  corrupt file is replaced by) as arguments; the contract that a store meets is the locale
  \<open>document_store\<close>.
\<close>

section \<open>One file and its temporary\<close>

text \<open>
  A file is its bytes and its mode. What the file system does to the calls of one write is its
  \<open>write_fate\<close>; a write that fails half-way leaves a prefix of the bytes in the temporary file. The
  reads that fail on an existing file are listed in \<open>df_reads\<close>. A list that has run out means
  success.
\<close>

datatype write_fate = MkdirFails | OpenFails | WriteStops nat | ChmodFails | RenameFails | Lands

datatype store_failure = SchemaMismatch string | InvalidJson

record corrupt_event =
  ce_bytes :: nat
  ce_reason :: store_failure

record durable_file =
  df_path :: "(string \<times> nat) option"
  df_tmp :: "(string \<times> nat) option"
  df_createMode :: nat
  df_writes :: "write_fate list"
  df_reads :: "bool list"
  df_log :: "corrupt_event list"

definition PRIVATE_MODE :: nat where "PRIVATE_MODE = 384"

definition tmp_mode :: "durable_file \<Rightarrow> nat" where
  "tmp_mode fs = (case df_tmp fs of Some (_, m) \<Rightarrow> m | None \<Rightarrow> df_createMode fs)"

definition write_as :: "write_fate \<Rightarrow> string \<Rightarrow> (durable_file, unit) io" where
  "write_as fate text fs =
     (case fate of
        MkdirFails \<Rightarrow> (Inl ''mkdir'', fs)
      | OpenFails \<Rightarrow> (Inl ''open'', fs)
      | WriteStops n \<Rightarrow> (Inl ''write'', fs\<lparr>df_tmp := Some (take n text, tmp_mode fs)\<rparr>)
      | ChmodFails \<Rightarrow> (Inl ''chmod'', fs\<lparr>df_tmp := Some (text, tmp_mode fs)\<rparr>)
      | RenameFails \<Rightarrow> (Inl ''rename'', fs\<lparr>df_tmp := Some (text, PRIVATE_MODE)\<rparr>)
      | Lands \<Rightarrow> (Inr (), fs\<lparr>df_path := Some (text, PRIVATE_MODE), df_tmp := None\<rparr>))"

definition writeAtomic :: "string \<Rightarrow> (durable_file, unit) io" where
  "writeAtomic text fs =
     (case df_writes fs of
        [] \<Rightarrow> write_as Lands text fs
      | fate # rest \<Rightarrow> write_as fate text (fs\<lparr>df_writes := rest\<rparr>))"

definition readFile :: "(durable_file, string) io" where
  "readFile fs =
     (case df_path fs of
        None \<Rightarrow> (Inl ''ENOENT'', fs)
      | Some (text, _) \<Rightarrow>
          (case df_reads fs of
             [] \<Rightarrow> (Inr text, fs)
           | fails # rest \<Rightarrow> (if fails then Inl ''EIO'' else Inr text, fs\<lparr>df_reads := rest\<rparr>)))"

text \<open>\<open>validate(JSON.parse(text))\<close>, the failure as \<open>classifyFailure\<close> names it.\<close>

definition decode_document :: "(rat json \<Rightarrow> string + 'v) \<Rightarrow> string \<Rightarrow> store_failure + 'v" where
  "decode_document validate text =
     (case json_parse text of
        None \<Rightarrow> Inl InvalidJson
      | Some raw \<Rightarrow> (case validate raw of Inl field \<Rightarrow> Inl (SchemaMismatch field) | Inr v \<Rightarrow> Inr v))"

text \<open>\<open>load\<close>: \<open>recreate\<close> is the text a corrupt file is replaced by, if the store replaces it.\<close>

definition loadDocument ::
  "(rat json \<Rightarrow> string + 'v) \<Rightarrow> 'v \<Rightarrow> string option \<Rightarrow> (durable_file, 'v) io" where
  "loadDocument validate fresh recreate fs =
     (case readFile fs of
        (Inl _, fs1) \<Rightarrow> (Inr fresh, fs1)
      | (Inr text, fs1) \<Rightarrow>
          (case decode_document validate text of
             Inr v \<Rightarrow> (Inr v, fs1)
           | Inl reason \<Rightarrow>
               (let fs2 = fs1\<lparr>df_log := df_log fs1 @ [\<lparr>ce_bytes = length text, ce_reason = reason\<rparr>]\<rparr>
                in case recreate of
                     None \<Rightarrow> (Inr fresh, fs2)
                   | Some text' \<Rightarrow> io_bind (writeAtomic text') (\<lambda>_. io_return fresh) fs2)))"

text \<open>\<open>isFiniteNumber\<close> on a field.\<close>

definition finite_field :: "rat json option \<Rightarrow> rat option" where
  "finite_field v = (case v of Some (JNum q) \<Rightarrow> if js_finite q then Some q else None | _ \<Rightarrow> None)"

section \<open>A write lands whole or not at all\<close>

lemma write_as_cases:
  assumes "write_as fate text fs = (r, fs')"
  shows "(r = Inr () \<and> df_path fs' = Some (text, PRIVATE_MODE)) \<or> ((\<exists>e. r = Inl e) \<and> df_path fs' = df_path fs)"
    and "df_reads fs' = df_reads fs" and "df_log fs' = df_log fs" and "df_writes fs' = df_writes fs"
  using assms by (auto simp: write_as_def split: write_fate.splits)

lemma writeAtomic_cases:
  assumes "writeAtomic text fs = (r, fs')"
  shows "(r = Inr () \<and> df_path fs' = Some (text, PRIVATE_MODE)) \<or> ((\<exists>e. r = Inl e) \<and> df_path fs' = df_path fs)"
    and "df_reads fs' = df_reads fs" and "df_log fs' = df_log fs"
  using assms by (auto simp: writeAtomic_def dest: write_as_cases split: list.splits)

lemma readFile_keeps: "readFile fs = (r, fs') \<Longrightarrow> df_path fs' = df_path fs \<and> df_writes fs' = df_writes fs \<and> df_log fs' = df_log fs"
  by (auto simp: readFile_def split: option.splits list.splits)

lemma readFile_reads: "df_reads fs = [] \<Longrightarrow> df_path fs = Some (text, m) \<Longrightarrow> readFile fs = (Inr text, fs)"
  by (simp add: readFile_def)

lemma readFile_Inr: "readFile fs = (Inr text, fs') \<Longrightarrow> \<exists>m. df_path fs = Some (text, m)"
  by (auto simp: readFile_def split: option.splits list.splits if_splits)

definition bytes_of :: "durable_file \<Rightarrow> string option" where
  "bytes_of fs = map_option fst (df_path fs)"

text \<open>Once the file is private it stays private, whatever fails.\<close>

definition private_file :: "durable_file \<Rightarrow> bool" where
  "private_file fs \<longleftrightarrow> (case df_path fs of None \<Rightarrow> True | Some (_, m) \<Rightarrow> m = PRIVATE_MODE)"

lemma writeAtomic_private: "writeAtomic text fs = (r, fs') \<Longrightarrow> private_file fs \<Longrightarrow> private_file fs'"
  by (frule writeAtomic_cases(1)) (auto simp: private_file_def)

lemma loadDocument_cases:
  assumes "loadDocument validate fresh recreate fs = (r, fs')"
  shows "df_path fs' = df_path fs \<or> (\<exists>text'. recreate = Some text' \<and> df_path fs' = Some (text', PRIVATE_MODE))"
    and "\<And>v. r = Inr v \<Longrightarrow> v = fresh \<or> (\<exists>text. bytes_of fs = Some text \<and> decode_document validate text = Inr v)"
proof -
  obtain rd fs1 where rd: "readFile fs = (rd, fs1)" by fastforce
  note keeps = readFile_keeps [OF rd]
  show "df_path fs' = df_path fs \<or> (\<exists>text'. recreate = Some text' \<and> df_path fs' = Some (text', PRIVATE_MODE))"
    using assms keeps unfolding loadDocument_def rd
    by (auto simp: Let_def io_return_def split: sum.splits option.splits dest!: io_bind_cases writeAtomic_cases(1))
  have on_file: "\<exists>m. df_path fs = Some (x, m)" if "rd = Inr x" for x
    using readFile_Inr [of fs x fs1] rd that by simp
  show "v = fresh \<or> (\<exists>text. bytes_of fs = Some text \<and> decode_document validate text = Inr v)" if "r = Inr v" for v
    using assms that unfolding loadDocument_def rd
    by (auto simp: Let_def io_return_def bytes_of_def split: sum.splits option.splits
        dest!: io_bind_cases on_file)
qed

lemma loadDocument_private:
  "loadDocument validate fresh recreate fs = (r, fs') \<Longrightarrow> private_file fs \<Longrightarrow> private_file fs'"
  by (frule loadDocument_cases(1)) (auto simp: private_file_def)

lemma loadDocument_state: "snd (loadDocument validate fresh recreate fs) = snd (loadDocument validate fresh' recreate fs)"
  by (auto simp: loadDocument_def io_bind_def io_return_def Let_def split: sum.split prod.split option.split)

section \<open>The contract of a store\<close>

text \<open>
  \<open>render\<close> prints a document, \<open>validate\<close> accepts what it printed and gives back \<open>view\<close> of it. A run is
  any sequence of saves of well-formed documents and loads.
\<close>

datatype 'd store_call = Save 'd | Load "string option"

locale document_store =
  fixes render :: "'d \<Rightarrow> string" and validate :: "rat json \<Rightarrow> string + 'v"
    and view :: "'d \<Rightarrow> 'v" and wf :: "'d \<Rightarrow> bool" and blank :: "string \<Rightarrow> bool"
  assumes renders: "wf d \<Longrightarrow> decode_document validate (render d) = Inr (view d)"
    and blanks: "blank text \<Longrightarrow> \<exists>d. wf d \<and> text = render d"
begin

fun store_do :: "'v \<Rightarrow> 'd store_call \<Rightarrow> durable_file \<Rightarrow> durable_file" where
  "store_do fresh (Save d) fs = snd (writeAtomic (render d) fs)"
| "store_do fresh (Load recreate) fs = snd (loadDocument validate fresh recreate fs)"

definition legal :: "'d store_call \<Rightarrow> bool" where
  "legal c = (case c of Save d \<Rightarrow> wf d | Load None \<Rightarrow> True | Load (Some text) \<Rightarrow> blank text)"

text \<open>The file holds what it held at the start, or one whole document that was saved or is blank.\<close>

definition written :: "'d store_call \<Rightarrow> 'd \<Rightarrow> bool" where
  "written c d \<longleftrightarrow> wf d \<and> (case c of Save d' \<Rightarrow> d' = d | Load recreate \<Rightarrow> recreate = Some (render d))"

lemma store_do_whole:
  assumes "legal c"
  shows "bytes_of (store_do fresh c fs) = bytes_of fs \<or>
    (\<exists>d. written c d \<and> bytes_of (store_do fresh c fs) = Some (render d))"
proof (cases c)
  case (Save d)
  obtain r fs' where w: "writeAtomic (render d) fs = (r, fs')" by fastforce
  with writeAtomic_cases(1) [OF w] assms Save show ?thesis by (auto simp: bytes_of_def legal_def written_def)
next
  case (Load recreate)
  obtain r fs' where l: "loadDocument validate fresh recreate fs = (r, fs')" by fastforce
  show ?thesis
  proof (cases recreate)
    case None
    with loadDocument_cases(1) [OF l] Load l show ?thesis by (simp add: bytes_of_def)
  next
    case (Some empty)
    with assms Load have "blank empty" by (simp add: legal_def)
    from blanks [OF this] loadDocument_cases(1) [OF l] Load l Some show ?thesis
      by (auto simp: bytes_of_def written_def)
  qed
qed

lemma run_whole:
  assumes "\<forall>c \<in> set cs. legal c"
  shows "bytes_of (fold (store_do fresh) cs fs) = bytes_of fs \<or>
    (\<exists>c \<in> set cs. \<exists>d. written c d \<and> bytes_of (fold (store_do fresh) cs fs) = Some (render d))"
  using assms
proof (induction cs arbitrary: fs)
  case Nil
  then show ?case by simp
next
  case (Cons c cs)
  then have "legal c" and "\<forall>c \<in> set cs. legal c" by simp_all
  from Cons.IH [OF this(2), of "store_do fresh c fs"] store_do_whole [OF this(1), of fresh fs] show ?case by auto
qed

lemma run_private:
  "private_file fs \<Longrightarrow> private_file (fold (store_do fresh) cs fs)"
proof (induction cs arbitrary: fs)
  case (Cons c cs)
  have "private_file (store_do fresh c fs)"
    by (cases c)
       (simp_all add: Cons.prems writeAtomic_private [OF prod.collapse [symmetric]]
         loadDocument_private [OF prod.collapse [symmetric]])
  with Cons.IH show ?case by simp
qed simp

text \<open>A load after a save that returned gives the document back.\<close>

lemma load_after_save:
  assumes "wf d" and "writeAtomic (render d) fs = (Inr (), fs')" and "df_reads fs' = []"
  shows "loadDocument validate fresh recreate fs' = (Inr (view d), fs')"
proof -
  from writeAtomic_cases(1) [OF assms(2)] have "df_path fs' = Some (render d, PRIVATE_MODE)" by auto
  with readFile_reads assms(3) have "readFile fs' = (Inr (render d), fs')" by blast
  with renders [OF assms(1)] show ?thesis by (simp add: loadDocument_def)
qed

text \<open>What a load returns: the fresh document, or the view of what is on the file.\<close>

lemma load_of_whole:
  assumes "bytes_of fs = None \<or> (\<exists>d. wf d \<and> bytes_of fs = Some (render d))"
    and "loadDocument validate fresh recreate fs = (Inr v, fs')"
  shows "v = fresh \<or> (\<exists>d. wf d \<and> bytes_of fs = Some (render d) \<and> v = view d)"
  using loadDocument_cases(2) [OF assms(2) refl] assms(1) renders by fastforce

end

end
