(* ===== verification/Usage_Store.thy ===== *)
theory Usage_Store
  imports Usage Atomic_File
begin

text \<open>
  The durable side of usage accounting: the counter document (\<open>backend/usage/store.ts\<close>), the policy
  document (\<open>backend/usage/policy-store.ts\<close>), the policy write (\<open>backend/usage/policy-write.ts\<close>) and the
  counters of the kernel (\<open>backend/usage/proc-net-dev.ts\<close>). Both documents are stores in the sense of
  theory \<open>Atomic_File\<close>.
\<close>

section \<open>Fields of a parsed document\<close>

fun is_object :: "'n json \<Rightarrow> bool" where
  "is_object (JObj _) = True"
| "is_object (JArr _) = True"
| "is_object _ = False"

fun json_array :: "'n json option \<Rightarrow> 'n json list option" where
  "json_array (Some (JArr xs)) = Some xs"
| "json_array _ = None"

fun string_field :: "'n json option \<Rightarrow> string option" where
  "string_field (Some (JStr s)) = Some s"
| "string_field _ = None"

text \<open>\<open>xs.map(f)\<close> where \<open>f\<close> may throw.\<close>

fun sum_map :: "('a \<Rightarrow> 'e + 'b) \<Rightarrow> 'a list \<Rightarrow> 'e + 'b list" where
  "sum_map f [] = Inr []"
| "sum_map f (x # xs) = sum_bind (f x) (\<lambda>y. sum_bind (sum_map f xs) (\<lambda>ys. Inr (y # ys)))"

lemma sum_map_all: "(\<And>x. x \<in> set xs \<Longrightarrow> f (g x) = Inr (h x)) \<Longrightarrow> sum_map f (map g xs) = Inr (map h xs)"
  by (induction xs) simp_all

section \<open>The counter document\<close>

definition usage_validateSlot :: "rat json \<Rightarrow> string + rat persisted_slot" where
  "usage_validateSlot raw =
     (if \<not> is_object raw then Inl ''slot''
      else case string_field (json_field raw ''logicalSlotId'') of
        None \<Rightarrow> Inl ''logicalSlotId''
      | Some slotId \<Rightarrow>
          (case (finite_field (json_field raw ''cycleBytes''), finite_field (json_field raw ''cycleStartMs'')) of
             (Some bytes, Some start) \<Rightarrow>
               Inr \<lparr>ps_logicalSlotId = slotId, ps_cycleBytes = bytes, ps_cycleStartMs = start,
                    ps_mappingGeneration = finite_field (json_field raw ''mappingGeneration''),
                    ps_ifname = string_field (json_field raw ''ifname''),
                    ps_lastObserved = finite_field (json_field raw ''lastObserved'')\<rparr>
           | _ \<Rightarrow> Inl ''cycleBytes|cycleStartMs''))"

definition usage_validate :: "rat json \<Rightarrow> string + rat persisted_usage" where
  "usage_validate raw =
     (if \<not> is_object raw then Inl ''document''
      else if json_field raw ''schemaVersion'' \<noteq> Some (JNum (of_int USAGE_SCHEMA_VERSION)) then Inl ''schemaVersion''
      else case (string_field (json_field raw ''bootId''), finite_field (json_field raw ''savedAtMs'')) of
        (Some bootId, Some savedAt) \<Rightarrow>
          (case json_array (json_field raw ''slots'') of
             None \<Rightarrow> Inl ''slots''
           | Some slots \<Rightarrow>
               sum_bind (sum_map usage_validateSlot slots) (\<lambda>slots.
               Inr \<lparr>pu_schemaVersion = USAGE_SCHEMA_VERSION, pu_bootId = bootId, pu_savedAtMs = savedAt,
                    pu_slots = slots\<rparr>))
      | _ \<Rightarrow> Inl ''bootId|savedAtMs'')"

text \<open>\<open>JSON.stringify\<close> of the document: an absent field is not printed.\<close>

definition opt_member :: "string \<Rightarrow> ('a \<Rightarrow> 'n json) \<Rightarrow> 'a option \<Rightarrow> (string \<times> 'n json) list" where
  "opt_member k f v = (case v of None \<Rightarrow> [] | Some x \<Rightarrow> [(k, f x)])"

definition usage_slot_json :: "int persisted_slot \<Rightarrow> int json" where
  "usage_slot_json s =
     JObj ([(''logicalSlotId'', JStr (ps_logicalSlotId s)), (''cycleBytes'', JNum (ps_cycleBytes s)),
            (''cycleStartMs'', JNum (ps_cycleStartMs s))] @
           opt_member ''mappingGeneration'' JNum (ps_mappingGeneration s) @
           opt_member ''ifname'' JStr (ps_ifname s) @
           opt_member ''lastObserved'' JNum (ps_lastObserved s))"

definition usage_json :: "int persisted_usage \<Rightarrow> int json" where
  "usage_json d =
     JObj [(''schemaVersion'', JNum (pu_schemaVersion d)), (''bootId'', JStr (pu_bootId d)),
           (''savedAtMs'', JNum (pu_savedAtMs d)), (''slots'', JArr (map usage_slot_json (pu_slots d)))]"

definition usage_render :: "int persisted_usage \<Rightarrow> string" where
  "usage_render d = json_print (usage_json d)"

definition of_int_slot :: "int persisted_slot \<Rightarrow> rat persisted_slot" where
  "of_int_slot s = \<lparr>ps_logicalSlotId = ps_logicalSlotId s, ps_cycleBytes = of_int (ps_cycleBytes s),
     ps_cycleStartMs = of_int (ps_cycleStartMs s), ps_mappingGeneration = map_option of_int (ps_mappingGeneration s),
     ps_ifname = ps_ifname s, ps_lastObserved = map_option of_int (ps_lastObserved s)\<rparr>"

definition of_int_usage :: "int persisted_usage \<Rightarrow> rat persisted_usage" where
  "of_int_usage d = \<lparr>pu_schemaVersion = pu_schemaVersion d, pu_bootId = pu_bootId d,
     pu_savedAtMs = of_int (pu_savedAtMs d), pu_slots = map of_int_slot (pu_slots d)\<rparr>"

definition usage_save :: "int persisted_usage \<Rightarrow> (durable_file, unit) io" where
  "usage_save d = writeAtomic (usage_render d)"

definition usage_load :: "string \<Rightarrow> int \<Rightarrow> (durable_file, rat persisted_usage) io" where
  "usage_load bootId now =
     loadDocument usage_validate (of_int_usage (freshState bootId now)) (Some (usage_render (freshState bootId now)))"

text \<open>Every number of the document is a finite double.\<close>

definition finite_int :: "int \<Rightarrow> bool" where
  "finite_int i \<longleftrightarrow> \<bar>i\<bar> < 2 ^ 1024 - 2 ^ 970"

definition finite_slot :: "int persisted_slot \<Rightarrow> bool" where
  "finite_slot s \<longleftrightarrow> finite_int (ps_cycleBytes s) \<and> finite_int (ps_cycleStartMs s) \<and>
     pred_option finite_int (ps_mappingGeneration s) \<and> pred_option finite_int (ps_lastObserved s)"

definition usage_wf :: "int persisted_usage \<Rightarrow> bool" where
  "usage_wf d \<longleftrightarrow> pu_schemaVersion d = USAGE_SCHEMA_VERSION \<and> finite_int (pu_savedAtMs d) \<and>
     list_all finite_slot (pu_slots d)"

lemma finite_int_js: "finite_int i \<longleftrightarrow> js_finite (of_int i)"
proof -
  have "js_finite (of_int i) \<longleftrightarrow> (of_int \<bar>i\<bar> :: rat) < of_int (2 ^ 1024 - 2 ^ 970)"
    unfolding js_finite_def by (simp only: of_int_abs)
  then show ?thesis unfolding finite_int_def by (simp only: of_int_less_iff)
qed

lemma finite_field_JNum [simp]: "finite_int i \<Longrightarrow> finite_field (Some (JNum (of_int i))) = Some (of_int i)"
  by (simp add: finite_field_def finite_int_js)

lemma finite_field_None [simp]: "finite_field None = None"
  by (simp add: finite_field_def)

lemma slot_survives:
  assumes "finite_slot s"
  shows "usage_validateSlot (parsed (usage_slot_json s)) = Inr (of_int_slot s)"
proof -
  from assms have fin: "finite_int (ps_cycleBytes s)" "finite_int (ps_cycleStartMs s)"
    by (simp_all add: finite_slot_def)
  have gen: "ps_mappingGeneration s = None \<or> (\<exists>g. ps_mappingGeneration s = Some g \<and> finite_int g)"
    using assms by (cases "ps_mappingGeneration s") (simp_all add: finite_slot_def)
  have obs: "ps_lastObserved s = None \<or> (\<exists>g. ps_lastObserved s = Some g \<and> finite_int g)"
    using assms by (cases "ps_lastObserved s") (simp_all add: finite_slot_def)
  have ifn: "ps_ifname s = None \<or> (\<exists>g. ps_ifname s = Some g)" by (cases "ps_ifname s") simp_all
  from fin gen obs ifn show ?thesis
    by (elim disjE exE conjE)
       (simp_all add: usage_validateSlot_def usage_slot_json_def opt_member_def of_int_slot_def)
qed

lemma usage_survives:
  assumes "usage_wf d"
  shows "usage_validate (parsed (usage_json d)) = Inr (of_int_usage d)"
proof -
  have "sum_map usage_validateSlot (map (parsed \<circ> usage_slot_json) (pu_slots d)) = Inr (map of_int_slot (pu_slots d))"
    by (rule sum_map_all) (use assms slot_survives in \<open>auto simp: usage_wf_def list_all_iff\<close>)
  then show ?thesis using assms
    by (simp add: usage_validate_def usage_json_def usage_wf_def of_int_usage_def USAGE_SCHEMA_VERSION_def)
qed

lemma slot_json_unique: "json_unique (usage_slot_json s)"
  by (cases "ps_mappingGeneration s"; cases "ps_ifname s"; cases "ps_lastObserved s")
     (simp_all add: usage_slot_json_def opt_member_def)

lemma json_unique_all_iff: "json_unique_all xs \<longleftrightarrow> list_all json_unique xs"
  by (induction xs) simp_all

lemma usage_json_unique: "json_unique (usage_json d)"
  by (simp add: usage_json_def json_unique_all_iff list_all_iff slot_json_unique)

lemma fresh_usage_wf: "finite_int now \<Longrightarrow> usage_wf (freshState bootId now)"
  by (simp add: usage_wf_def freshState_def)

interpretation us: document_store usage_render usage_validate of_int_usage usage_wf
    "\<lambda>text. \<exists>bootId now. finite_int now \<and> text = usage_render (freshState bootId now)"
proof unfold_locales
  fix d assume "usage_wf d"
  then show "decode_document usage_validate (usage_render d) = Inr (of_int_usage d)"
    by (simp add: decode_document_def usage_render_def json_parse_print usage_json_unique usage_survives)
next
  fix t assume "\<exists>bootId now. finite_int now \<and> t = usage_render (freshState bootId now)"
  then show "\<exists>d. usage_wf d \<and> t = usage_render d"
    using fresh_usage_wf by blast
qed

section \<open>A crash never leaves half a document\<close>

datatype usage_call = SaveUsage "int persisted_usage" | LoadUsage string int

fun usage_do :: "usage_call \<Rightarrow> durable_file \<Rightarrow> durable_file" where
  "usage_do (SaveUsage d) fs = snd (usage_save d fs)"
| "usage_do (LoadUsage bootId now) fs = snd (usage_load bootId now fs)"

definition legal_usage :: "usage_call \<Rightarrow> bool" where
  "legal_usage c = (case c of SaveUsage d \<Rightarrow> usage_wf d | LoadUsage _ now \<Rightarrow> finite_int now)"

text \<open>What a call may leave on the file: the saved document, or the empty one of its load.\<close>

definition usage_written :: "usage_call \<Rightarrow> int persisted_usage" where
  "usage_written c = (case c of SaveUsage d \<Rightarrow> d | LoadUsage bootId now \<Rightarrow> freshState bootId now)"

fun usage_store_call :: "usage_call \<Rightarrow> int persisted_usage store_call" where
  "usage_store_call (SaveUsage d) = Save d"
| "usage_store_call (LoadUsage bootId now) = Load (Some (usage_render (freshState bootId now)))"

lemma usage_do_store: "usage_do c = us.store_do fresh (usage_store_call c)"
  by (cases c) (auto simp: fun_eq_iff usage_save_def usage_load_def intro: loadDocument_state)

lemma usage_run_store: "fold usage_do cs fs = fold (us.store_do fresh) (map usage_store_call cs) fs"
  by (induction cs arbitrary: fs) (simp_all add: usage_do_store [of _ fresh])

lemma usage_legal: "legal_usage c \<Longrightarrow> us.legal (usage_store_call c)"
  by (cases c) (auto simp: legal_usage_def us.legal_def)

lemma usage_written_store:
  assumes "us.written (usage_store_call c) d" and "legal_usage c"
  shows "usage_render d = usage_render (usage_written c) \<and> usage_wf (usage_written c)"
  using assms by (cases c) (auto simp: us.written_def usage_written_def legal_usage_def fresh_usage_wf)


definition torn_calls :: "usage_call list" where
  "torn_calls = [SaveUsage (persistedUsageState ''b'' 7 []), SaveUsage (freshState ''c'' 9)]"

definition torn_file :: durable_file where
  "torn_file = \<lparr>df_path = None, df_tmp = None, df_createMode = 420, df_writes = [Lands, WriteStops 3], df_reads = [], df_log = []\<rparr>"


end
