(* ===== verification/Fcc_Policy.thy ===== *)
theory Fcc_Policy
  imports Usage_Store "HOL-Library.List_Lexorder" "HOL-Library.Char_ord"
begin

text \<open>
  FCC auto-unlock: the coverage catalog (\<open>fcc/coverage.ts\<close>), the policy document and its file store
  (\<open>fcc/policy-store.ts\<close>) and the write (\<open>fcc/policy-write.ts\<close>). The store is the third of the
  document stores of theory \<open>Atomic_File\<close>; unlike the other two it leaves a corrupt file alone.
\<close>

section \<open>Coverage\<close>

definition MM_FCC_UNLOCK_VENDOR_SCRIPTS :: "(string \<times> string) list" where
  "MM_FCC_UNLOCK_VENDOR_SCRIPTS =
     [(''105b'', ''mbimcli''), (''1199'', ''qmicli''), (''14c3'', ''mbimcli''), (''2c7c'', ''qmicli'')]"

definition MM_FCC_UNLOCK_COVERAGE :: "(string \<times> string) list" where
  "MM_FCC_UNLOCK_COVERAGE =
     [(''03f0:4e1d'', ''1199''), (''105b:e0ab'', ''105b''), (''105b:e0c3'', ''105b''), (''1199:9079'', ''1199''),
      (''14c3:4d75'', ''14c3''), (''1eac:1001'', ''2c7c''), (''1eac:1004'', ''2c7c''), (''1eac:1007'', ''2c7c''),
      (''2c7c:030a'', ''2c7c''), (''2c7c:0313'', ''2c7c''), (''2c7c:0314'', ''2c7c''), (''2c7c:0801'', ''2c7c''),
      (''413c:81a3'', ''1199''), (''413c:81a8'', ''1199'')]"

text \<open>\<open>VID_PID_RE\<close>.\<close>

definition isFccUnlockKey :: "string \<Rightarrow> bool" where
  "isFccUnlockKey s \<longleftrightarrow> hex_pair s"

definition fold_id :: "string \<Rightarrow> string" where
  "fold_id raw = (let s = js_lower (js_trim raw) in if prefix ''0x'' s then drop 2 s else s)"

definition normalizeVidPid :: "string \<Rightarrow> string \<Rightarrow> string option" where
  "normalizeVidPid vid pid =
     (let key = fold_id vid @ '':'' @ fold_id pid in if isFccUnlockKey key then Some key else None)"

datatype coverage = CoveragePresent | CoverageAbsent | CoverageUnknown

definition resolveFccUnlockCoverage :: "string option \<Rightarrow> string option \<Rightarrow> coverage" where
  "resolveFccUnlockCoverage vid pid =
     (case (vid, pid) of
        (Some v, Some p) \<Rightarrow>
          (case normalizeVidPid v p of
             None \<Rightarrow> CoverageUnknown
           | Some key \<Rightarrow> if key \<in> fst ` set MM_FCC_UNLOCK_COVERAGE then CoveragePresent else CoverageAbsent)
      | _ \<Rightarrow> CoverageUnknown)"

definition fccUnlockVendorScript :: "string \<Rightarrow> string option" where
  "fccUnlockVendorScript key = map_of MM_FCC_UNLOCK_COVERAGE key"

definition fccUnlockRuntimeBinary :: "string \<Rightarrow> string option" where
  "fccUnlockRuntimeBinary key = Option.bind (fccUnlockVendorScript key) (map_of MM_FCC_UNLOCK_VENDOR_SCRIPTS)"

section \<open>The policy document\<close>

record 'n fcc_policy =
  fp_savedAtMs :: 'n
  fp_unlock :: "(string \<times> bool) list"

definition FCC_UNLOCK_SCHEMA_VERSION :: int where "FCC_UNLOCK_SCHEMA_VERSION = 1"

definition fcc_emptyState :: "'n \<Rightarrow> 'n fcc_policy" where
  "fcc_emptyState now = \<lparr>fp_savedAtMs = now, fp_unlock = []\<rparr>"

text \<open>
  The entries of \<open>unlock\<close> come in the order of \<open>Object.entries\<close>, array indices first: an index is
  not a model, so a document with one is refused for its key before any value is looked at.
\<close>

fun validate_entries :: "(string \<times> rat json) list \<Rightarrow> string + (string \<times> bool) list" where
  "validate_entries [] = Inr []"
| "validate_entries ((k, v) # entries) =
     (if \<not> isFccUnlockKey k then Inl ''unlock.key''
      else case v of
        JBool b \<Rightarrow> sum_bind (validate_entries entries) (\<lambda>rest. Inr ((k, b) # rest))
      | _ \<Rightarrow> Inl ''unlock.value'')"

definition fcc_validate :: "rat json \<Rightarrow> string + rat fcc_policy" where
  "fcc_validate raw =
     (if \<not> is_object raw then Inl ''document''
      else if json_field raw ''schemaVersion'' \<noteq> Some (JNum (of_int FCC_UNLOCK_SCHEMA_VERSION)) then Inl ''schemaVersion''
      else case finite_field (json_field raw ''savedAtMs'') of
        None \<Rightarrow> Inl ''savedAtMs''
      | Some savedAt \<Rightarrow>
          (case json_field raw ''unlock'' of
             Some (JObj ms) \<Rightarrow>
               sum_bind (validate_entries (object_entries ms)) (\<lambda>unlock. Inr \<lparr>fp_savedAtMs = savedAt, fp_unlock = unlock\<rparr>)
           | _ \<Rightarrow> Inl ''unlock''))"

definition enabledFccUnlockKeys :: "'n fcc_policy \<Rightarrow> string list" where
  "enabledFccUnlockKeys d = sort (map fst (filter snd (fp_unlock d)))"

definition isFccUnlockEnabled :: "'n fcc_policy \<Rightarrow> string \<Rightarrow> bool" where
  "isFccUnlockEnabled d key \<longleftrightarrow> map_of (fp_unlock d) key = Some True"

definition fcc_json :: "int fcc_policy \<Rightarrow> int json" where
  "fcc_json d =
     JObj [(''schemaVersion'', JNum FCC_UNLOCK_SCHEMA_VERSION), (''savedAtMs'', JNum (fp_savedAtMs d)),
           (''unlock'', JObj (map (map_prod id JBool) (fp_unlock d)))]"

definition fcc_render :: "int fcc_policy \<Rightarrow> string" where
  "fcc_render d = json_print (fcc_json d) @ [NL]"

definition fcc_save :: "int fcc_policy \<Rightarrow> (durable_file, unit) io" where
  "fcc_save d = writeAtomic (fcc_render d)"

definition fcc_load :: "int \<Rightarrow> (durable_file, rat fcc_policy) io" where
  "fcc_load now = loadDocument fcc_validate (fcc_emptyState (of_int now)) None"

section \<open>The write\<close>

record fcc_request =
  fr_vid :: string
  fr_pid :: string
  fr_enabled :: bool

datatype fcc_rejection = InvalidVidPid | NotCovered

datatype fcc_result = FccApplied string bool "int fcc_policy" bool | FccRejected fcc_rejection

definition setFccUnlockPolicy :: "fcc_request \<Rightarrow> int \<Rightarrow> (durable_file, fcc_result) io" where
  "setFccUnlockPolicy req now =
     (case normalizeVidPid (fr_vid req) (fr_pid req) of
        None \<Rightarrow> io_return (FccRejected InvalidVidPid)
      | Some key \<Rightarrow>
          if fr_enabled req \<and> resolveFccUnlockCoverage (Some (fr_vid req)) (Some (fr_pid req)) \<noteq> CoveragePresent
          then io_return (FccRejected NotCovered)
          else io_bind (fcc_load now) (\<lambda>current.
            let changed = ((map_of (fp_unlock current) key = Some True) \<noteq> fr_enabled req);
                next_doc = \<lparr>fp_savedAtMs = now, fp_unlock = AList.update key (fr_enabled req) (fp_unlock current)\<rparr>
            in io_bind (fcc_save next_doc) (\<lambda>_. io_return (FccApplied key (fr_enabled req) next_doc changed))))"

section \<open>The document survives its file\<close>

definition fcc_wf :: "int fcc_policy \<Rightarrow> bool" where
  "fcc_wf d \<longleftrightarrow> finite_int (fp_savedAtMs d) \<and> distinct (map fst (fp_unlock d)) \<and>
     list_all (isFccUnlockKey \<circ> fst) (fp_unlock d)"

definition of_int_fcc :: "int fcc_policy \<Rightarrow> rat fcc_policy" where
  "of_int_fcc d = \<lparr>fp_savedAtMs = of_int (fp_savedAtMs d), fp_unlock = fp_unlock d\<rparr>"

lemma key_no_index: "isFccUnlockKey k \<Longrightarrow> \<not> is_array_index k"
proof
  assume k: "isFccUnlockKey k" and i: "is_array_index k"
  then have "4 < length k" "k ! 4 = CHR '':''" by (simp_all add: isFccUnlockKey_def hex_pair_def)
  with i have "is_digit CHR '':''" by (metis is_array_index_def list_all_length)
  then show False by (simp add: is_digit_def)
qed

lemma validated_entries:
  "list_all (isFccUnlockKey \<circ> fst) es \<Longrightarrow> validate_entries (map (map_prod id JBool) es) = Inr es"
  by (induction es) auto

lemma entries_kept: "list_all (isFccUnlockKey \<circ> fst) es \<Longrightarrow> object_entries (map (map_prod id f) es) = map (map_prod id f) es"
proof -
  assume keys: "list_all (isFccUnlockKey \<circ> fst) es"
  have none: "filter (\<lambda>(k, _). is_array_index k) (map (map_prod id f) es) = []"
    using keys key_no_index by (auto simp: filter_empty_conv list_all_iff)
  have all: "filter (\<lambda>(k, _). \<not> is_array_index k) (map (map_prod id f) es) = map (map_prod id f) es"
    using keys key_no_index by (auto simp: filter_id_conv list_all_iff)
  show ?thesis by (simp only: object_entries_def none all) simp
qed

lemma fcc_survives:
  assumes "fcc_wf d"
  shows "fcc_validate (parsed (fcc_json d)) = Inr (of_int_fcc d)"
proof -
  have ents: "map (map_prod id parsed) (map (map_prod id JBool) (fp_unlock d)) = map (map_prod id JBool) (fp_unlock d)"
    by (simp add: map_prod_def case_prod_beta)
  from assms have keys: "list_all (isFccUnlockKey \<circ> fst) (fp_unlock d)" by (simp add: fcc_wf_def)
  show ?thesis
    using assms entries_kept [OF keys, of "JBool :: bool \<Rightarrow> rat json"] validated_entries [OF keys]
    by (simp add: fcc_validate_def fcc_json_def fcc_wf_def of_int_fcc_def FCC_UNLOCK_SCHEMA_VERSION_def
        del: map_map prod.map_comp add: ents)
qed

lemma bool_members_unique: "json_unique_members (map (map_prod id JBool) es)"
  by (induction es) auto

lemma json_parse_line: "json_unique j \<Longrightarrow> json_parse (json_print j @ [NL]) = Some (parsed j)"
  using parse_print(1) [of j "2 * length (json_print j @ [NL])" "[NL]"]
  by (simp add: json_parse_def skip_ws_def stops_def is_digit_def NL_def json_ws_def)

interpretation fcs: document_store fcc_render fcc_validate of_int_fcc fcc_wf "\<lambda>_. False"
proof unfold_locales
  fix d assume wf: "fcc_wf d"
  then have "json_unique (fcc_json d)"
    by (simp add: fcc_json_def fcc_wf_def bool_members_unique)
  with wf show "decode_document fcc_validate (fcc_render d) = Inr (of_int_fcc d)"
    by (simp add: decode_document_def fcc_render_def json_parse_line fcc_survives)
qed simp

section \<open>Only a covered model is ever enabled\<close>

definition unlock_on :: "durable_file \<Rightarrow> (string \<times> bool) list" where
  "unlock_on fs =
     (case bytes_of fs of
        None \<Rightarrow> []
      | Some bytes \<Rightarrow> (case decode_document fcc_validate bytes of Inl _ \<Rightarrow> [] | Inr d \<Rightarrow> fp_unlock d))"

definition whole_file :: "durable_file \<Rightarrow> bool" where
  "whole_file fs \<longleftrightarrow> bytes_of fs = None \<or> (\<exists>d. fcc_wf d \<and> bytes_of fs = Some (fcc_render d))"

lemma unlock_on_whole: "fcc_wf d \<Longrightarrow> bytes_of fs = Some (fcc_render d) \<Longrightarrow> unlock_on fs = fp_unlock d"
  using fcs.renders [of d] by (simp add: unlock_on_def of_int_fcc_def)

lemma fcc_loaded:
  assumes "fcc_load now fs = (r, fs')" and "whole_file fs"
  shows "df_path fs' = df_path fs \<and> (\<exists>d. r = Inr d \<and> (fp_unlock d = [] \<or> fp_unlock d = unlock_on fs) \<and>
    distinct (map fst (fp_unlock d)) \<and> list_all (isFccUnlockKey \<circ> fst) (fp_unlock d) \<and>
    (df_reads fs = [] \<longrightarrow> fp_unlock d = unlock_on fs))"
proof -
  note cases = loadDocument_cases [OF assms(1) [unfolded fcc_load_def]]
  have returns: "\<exists>d. r = Inr d"
    using assms(1) by (auto simp: fcc_load_def loadDocument_def Let_def split: prod.splits sum.splits)
  then obtain d where r: "r = Inr d" by blast
  have path: "df_path fs' = df_path fs" using cases(1) by simp
  from fcs.load_of_whole [OF assms(2) [unfolded whole_file_def] assms(1) [unfolded fcc_load_def r]]
  have d: "d = fcc_emptyState (of_int now) \<or> (\<exists>d'. fcc_wf d' \<and> bytes_of fs = Some (fcc_render d') \<and> d = of_int_fcc d')" .
  then have rows: "(fp_unlock d = [] \<or> fp_unlock d = unlock_on fs) \<and> distinct (map fst (fp_unlock d)) \<and>
      list_all (isFccUnlockKey \<circ> fst) (fp_unlock d)"
    using unlock_on_whole [of _ fs] by (auto simp: fcc_emptyState_def of_int_fcc_def fcc_wf_def)
  have "fp_unlock d = unlock_on fs" if "df_reads fs = []"
  proof (cases "df_path fs")
    case None
    with assms(1) that r show ?thesis
      by (auto simp: fcc_load_def loadDocument_def readFile_def unlock_on_def bytes_of_def fcc_emptyState_def)
  next
    case (Some entry)
    then obtain d' m where d': "fcc_wf d'" "df_path fs = Some (fcc_render d', m)"
      using assms(2) by (cases entry) (auto simp: whole_file_def bytes_of_def)
    with readFile_reads [OF that d'(2)] fcs.renders [OF d'(1)] assms(1) r unlock_on_whole [OF d'(1), of fs] show ?thesis
      by (auto simp: fcc_load_def loadDocument_def bytes_of_def of_int_fcc_def)
  qed
  with path r rows show ?thesis by blast
qed

lemma normalized_key: "normalizeVidPid vid pid = Some key \<Longrightarrow> isFccUnlockKey key"
  by (auto simp: normalizeVidPid_def Let_def split: if_splits)

lemma present_covered:
  "resolveFccUnlockCoverage (Some vid) (Some pid) = CoveragePresent \<Longrightarrow> normalizeVidPid vid pid = Some key \<Longrightarrow>
    key \<in> fst ` set MM_FCC_UNLOCK_COVERAGE"
  by (simp add: resolveFccUnlockCoverage_def split: if_splits)

text \<open>What one write does to the rows on the file, whatever the file system does.\<close>

definition fcc_step :: "fcc_request \<Rightarrow> durable_file \<Rightarrow> string + fcc_result \<Rightarrow> durable_file \<Rightarrow> bool" where
  "fcc_step req fs r fs' \<longleftrightarrow>
     (case r of
        Inl _ \<Rightarrow> unlock_on fs' = unlock_on fs
      | Inr (FccRejected _) \<Rightarrow> fs' = fs
      | Inr (FccApplied key enabled doc changed) \<Rightarrow>
          enabled = fr_enabled req \<and> unlock_on fs' = fp_unlock doc \<and>
          (enabled \<longrightarrow> key \<in> fst ` set MM_FCC_UNLOCK_COVERAGE) \<and>
          (fp_unlock doc = AList.update key enabled (unlock_on fs) \<and>
             changed = ((map_of (unlock_on fs) key = Some True) \<noteq> enabled) \<or>
           df_reads fs \<noteq> [] \<and> fp_unlock doc = [(key, enabled)]))"

lemma fcc_write_step:
  assumes "setFccUnlockPolicy req now fs = (r, fs')" and "whole_file fs" and "finite_int now"
  shows "whole_file fs' \<and> fcc_step req fs r fs'"
proof (cases "normalizeVidPid (fr_vid req) (fr_pid req)")
  case None
  with assms show ?thesis by (auto simp: setFccUnlockPolicy_def io_return_def fcc_step_def)
next
  case (Some key)
  show ?thesis
  proof (cases "fr_enabled req \<and> resolveFccUnlockCoverage (Some (fr_vid req)) (Some (fr_pid req)) \<noteq> CoveragePresent")
    case True
    with Some assms show ?thesis by (auto simp: setFccUnlockPolicy_def io_return_def fcc_step_def)
  next
    case False
    obtain lr fs1 where load: "fcc_load now fs = (lr, fs1)" by fastforce
    from fcc_loaded [OF load assms(2)] obtain d where d: "lr = Inr d" "df_path fs1 = df_path fs"
      "fp_unlock d = [] \<or> fp_unlock d = unlock_on fs" "distinct (map fst (fp_unlock d))"
      "list_all (isFccUnlockKey \<circ> fst) (fp_unlock d)" "df_reads fs = [] \<longrightarrow> fp_unlock d = unlock_on fs" by blast
    let ?doc = "\<lparr>fp_savedAtMs = now, fp_unlock = AList.update key (fr_enabled req) (fp_unlock d)\<rparr> :: int fcc_policy"
    let ?changed = "(map_of (fp_unlock d) key = Some True) \<noteq> fr_enabled req"
    have "list_all (isFccUnlockKey \<circ> fst) (AList.update key (fr_enabled req) (fp_unlock d))"
      using d(5) normalized_key [OF Some] set_keys_update [of key "fr_enabled req" "fp_unlock d"]
      by (force simp: list_all_iff)
    then have wf: "fcc_wf ?doc" using d(4) assms(3) by (simp add: fcc_wf_def distinct_keys_set)
    obtain sr fs2 where save: "fcc_save ?doc fs1 = (sr, fs2)" by fastforce
    note saved = writeAtomic_cases(1) [OF save [unfolded fcc_save_def]]
    have out: "fs' = fs2" "r = (case sr of Inl e \<Rightarrow> Inl e | Inr _ \<Rightarrow> Inr (FccApplied key (fr_enabled req) ?doc ?changed))"
      using assms(1) Some False load d(1) save
      by (auto simp: setFccUnlockPolicy_def io_bind_def io_return_def Let_def split: sum.splits if_splits)
    show ?thesis
    proof (cases sr)
      case (Inl e)
      with saved d(2) have "bytes_of fs2 = bytes_of fs" by (simp add: bytes_of_def)
      with Inl out assms(2) show ?thesis by (simp add: whole_file_def fcc_step_def unlock_on_def)
    next
      case (Inr u)
      with saved have bytes: "bytes_of fs2 = Some (fcc_render ?doc)" by (simp add: bytes_of_def)
      have "fr_enabled req \<longrightarrow> key \<in> fst ` set MM_FCC_UNLOCK_COVERAGE"
        using False present_covered Some by blast
      moreover have "df_reads fs \<noteq> []" if "fp_unlock d \<noteq> unlock_on fs" using d(6) that by blast
      moreover have "fp_unlock ?doc = [(key, fr_enabled req)]" if "fp_unlock d \<noteq> unlock_on fs"
        using d(3) that by auto
      moreover have "whole_file fs2" using wf bytes by (auto simp: whole_file_def)
      ultimately show ?thesis
        using out Inr unlock_on_whole [OF wf bytes]
        by (cases "fp_unlock d = unlock_on fs") (simp_all add: fcc_step_def)
    qed
  qed
qed

text \<open>A run of writes, with the consent each model had last.\<close>

fun fcc_run :: "(fcc_request \<times> int) list \<Rightarrow> durable_file \<Rightarrow> fcc_result list \<times> durable_file" where
  "fcc_run [] fs = ([], fs)"
| "fcc_run ((req, now) # reqs) fs =
     (case setFccUnlockPolicy req now fs of
        (Inl _, fs1) \<Rightarrow> fcc_run reqs fs1
      | (Inr r, fs1) \<Rightarrow> (case fcc_run reqs fs1 of (rs, fs2) \<Rightarrow> (r # rs, fs2)))"

definition consent_after :: "fcc_result \<Rightarrow> (string \<rightharpoonup> bool) \<Rightarrow> string \<rightharpoonup> bool" where
  "consent_after r m = (case r of FccApplied key enabled _ _ \<Rightarrow> m(key \<mapsto> enabled) | FccRejected _ \<Rightarrow> m)"

definition consented :: "durable_file \<Rightarrow> (string \<rightharpoonup> bool) \<Rightarrow> bool" where
  "consented fs m \<longleftrightarrow> (\<forall>k. map_of (unlock_on fs) k = Some True \<longrightarrow> m k = Some True \<and> k \<in> fst ` set MM_FCC_UNLOCK_COVERAGE)"

lemma step_consented:
  assumes "fcc_step req fs (Inr r) fs'" and "consented fs m"
  shows "consented fs' (consent_after r m)"
  using assms by (cases r) (auto simp: fcc_step_def consented_def consent_after_def map_simps)

lemma run_consented:
  assumes "whole_file fs" and "consented fs m" and "\<forall>(_, now) \<in> set reqs. finite_int now"
    and "fcc_run reqs fs = (rs, fs')"
  shows "consented fs' (fold consent_after rs m)"
  using assms
proof (induction reqs arbitrary: fs m rs)
  case Nil
  then show ?case by simp
next
  case (Cons rn reqs)
  obtain req now where rn: "rn = (req, now)" by fastforce
  obtain r fs1 where w: "setFccUnlockPolicy req now fs = (r, fs1)" by fastforce
  from Cons.prems(3) rn have fin: "finite_int now" "\<forall>(_, now) \<in> set reqs. finite_int now" by auto
  from fcc_write_step [OF w Cons.prems(1) fin(1)] have step: "whole_file fs1" "fcc_step req fs r fs1" by simp_all
  show ?case
  proof (cases r)
    case (Inl e)
    with step(2) Cons.prems(2) have "consented fs1 m" by (simp add: fcc_step_def consented_def)
    with Cons.IH [OF step(1) _ fin(2)] Cons.prems(4) rn w Inl show ?thesis by simp
  next
    case (Inr res)
    obtain rs1 where rs: "fcc_run reqs fs1 = (rs1, fs')" "rs = res # rs1"
      using Cons.prems(4) rn w Inr by (auto split: prod.splits)
    from step_consented [OF step(2) [unfolded Inr] Cons.prems(2)] Cons.IH [OF step(1) _ fin(2) rs(1)] rs(2)
    show ?thesis by simp
  qed
qed

text \<open>C26: no model is unlocked without consent: after any run of policy writes on a device that never opted in, whatever reads and writes of the file fail on the way, a model that the file enables is one ModemManager ships a procedure for, and the last applied request that named it asked to enable it.\<close>

theorem fcc_unlock_needs_consent_and_coverage:
  assumes "bytes_of fs = None" and "\<forall>(_, now) \<in> set reqs. finite_int now"
    and "fcc_run reqs fs = (rs, fs')" and "map_of (unlock_on fs') key = Some True"
  shows "key \<in> fst ` set MM_FCC_UNLOCK_COVERAGE \<and> fold consent_after rs Map.empty key = Some True"
proof -
  have "whole_file fs" "consented fs Map.empty"
    using assms(1) by (simp_all add: whole_file_def consented_def unlock_on_def)
  from run_consented [OF this assms(2,3)] assms(4) show ?thesis by (simp add: consented_def)
qed

definition optin_request :: fcc_request where
  "optin_request = \<lparr>fr_vid = '' 0x2C7C'', fr_pid = ''0801'', fr_enabled = True\<rparr>"

definition blank_file :: durable_file where
  "blank_file = \<lparr>df_path = None, df_tmp = None, df_createMode = 420, df_writes = [], df_reads = [], df_log = []\<rparr>"

lemma optin_key: "normalizeVidPid (fr_vid optin_request) (fr_pid optin_request) = Some ''2c7c:0801''"
  by code_simp

lemma optin_covered: "resolveFccUnlockCoverage (Some (fr_vid optin_request)) (Some (fr_pid optin_request)) = CoveragePresent"
  by code_simp

definition optin_doc :: "int fcc_policy" where
  "optin_doc = \<lparr>fp_savedAtMs = 5, fp_unlock = [(''2c7c:0801'', True)]\<rparr>"

lemma optin_run:
  "fcc_run [(optin_request, 5)] blank_file =
     ([FccApplied ''2c7c:0801'' True optin_doc True],
      blank_file\<lparr>df_path := Some (fcc_render optin_doc, PRIVATE_MODE)\<rparr>)"
  using optin_key optin_covered
  by (simp add: setFccUnlockPolicy_def io_bind_def io_return_def fcc_load_def loadDocument_def readFile_def fcc_save_def
      writeAtomic_def write_as_def blank_file_def fcc_emptyState_def Let_def optin_doc_def)
     (simp add: optin_request_def)

theorem fcc_unlock_needs_consent_and_coverage_witness:
  "''2c7c:0801'' \<in> fst ` set MM_FCC_UNLOCK_COVERAGE \<and>
   unlock_on (snd (fcc_run [(optin_request, 5)] blank_file)) = [(''2c7c:0801'', True)]"
proof -
  have wf: "fcc_wf optin_doc"
    by (simp add: fcc_wf_def optin_doc_def finite_int_def isFccUnlockKey_def hex_pair_def is_lower_hex_def)
  have rows: "unlock_on (blank_file\<lparr>df_path := Some (fcc_render optin_doc, PRIVATE_MODE)\<rparr>) = fp_unlock optin_doc"
    by (rule unlock_on_whole [OF wf]) (simp add: bytes_of_def)
  have "bytes_of blank_file = None" "\<forall>(_, now) \<in> set [(optin_request, 5)]. finite_int now"
    by (simp_all add: bytes_of_def blank_file_def finite_int_def)
  from fcc_unlock_needs_consent_and_coverage [OF this optin_run, of "''2c7c:0801''"] rows
  have "''2c7c:0801'' \<in> fst ` set MM_FCC_UNLOCK_COVERAGE" by (simp add: optin_doc_def)
  then show ?thesis unfolding optin_run snd_conv rows by (simp add: optin_doc_def)
qed

end
