(* ===== verification/Usage_Policy_Store.thy ===== *)
theory Usage_Policy_Store
  imports Usage_Store
begin

text \<open>
  The operator's usage policy: the policy document and its file store
  (\<open>backend/usage/policy-store.ts\<close>) and the write that merges a request into it
  (\<open>backend/usage/policy-write.ts\<close>). A write refines one update of the map from slots to policies.
\<close>

section \<open>The policy document\<close>

record policy_slot =
  up_logicalSlotId :: string
  up_cycleDay :: "int option"
  up_thresholdBytes :: "int option"

record 'n usage_policy =
  up_savedAtMs :: 'n
  up_slots :: "policy_slot list"

definition NO_USAGE :: desired_usage where
  "NO_USAGE = \<lparr>du_cycleDay = None, du_thresholdBytes = None\<rparr>"

definition is_integer :: "rat \<Rightarrow> bool" where
  "is_integer q \<longleftrightarrow> of_int \<lfloor>q\<rfloor> = q \<and> js_finite q"

definition isValidCycleDay :: "rat \<Rightarrow> bool" where
  "isValidCycleDay q \<longleftrightarrow> is_integer q \<and> 1 \<le> q \<and> q \<le> 31"

definition isValidThresholdBytes :: "rat \<Rightarrow> bool" where
  "isValidThresholdBytes q \<longleftrightarrow> is_integer q \<and> 0 \<le> q"

text \<open>An optional number that must pass a check: \<open>Inl\<close> names the field.\<close>

definition optional_checked :: "string \<Rightarrow> (rat \<Rightarrow> bool) \<Rightarrow> rat json option \<Rightarrow> string + int option" where
  "optional_checked field ok v =
     (case v of
        None \<Rightarrow> Inr None
      | Some (JNum q) \<Rightarrow> if ok q then Inr (Some \<lfloor>q\<rfloor>) else Inl field
      | Some _ \<Rightarrow> Inl field)"

definition policy_validateSlot :: "rat json \<Rightarrow> string + policy_slot" where
  "policy_validateSlot raw =
     (if \<not> is_object raw then Inl ''slot''
      else case string_field (json_field raw ''logicalSlotId'') of
        None \<Rightarrow> Inl ''logicalSlotId''
      | Some slotId \<Rightarrow>
          if slotId = [] then Inl ''logicalSlotId''
          else sum_bind (optional_checked ''cycleDay'' isValidCycleDay (json_field raw ''cycleDay'')) (\<lambda>day.
               sum_bind (optional_checked ''thresholdBytes'' isValidThresholdBytes (json_field raw ''thresholdBytes'')) (\<lambda>threshold.
               Inr \<lparr>up_logicalSlotId = slotId, up_cycleDay = day, up_thresholdBytes = threshold\<rparr>)))"

definition USAGE_POLICY_SCHEMA_VERSION :: int where "USAGE_POLICY_SCHEMA_VERSION = 1"

definition policy_validate :: "rat json \<Rightarrow> string + rat usage_policy" where
  "policy_validate raw =
     (if \<not> is_object raw then Inl ''document''
      else if json_field raw ''schemaVersion'' \<noteq> Some (JNum (of_int USAGE_POLICY_SCHEMA_VERSION)) then Inl ''schemaVersion''
      else case finite_field (json_field raw ''savedAtMs'') of
        None \<Rightarrow> Inl ''savedAtMs''
      | Some savedAt \<Rightarrow>
          (case json_array (json_field raw ''slots'') of
             None \<Rightarrow> Inl ''slots''
           | Some slots \<Rightarrow>
               sum_bind (sum_map policy_validateSlot slots) (\<lambda>slots. Inr \<lparr>up_savedAtMs = savedAt, up_slots = slots\<rparr>)))"

definition policy_slot_json :: "policy_slot \<Rightarrow> int json" where
  "policy_slot_json s =
     JObj ([(''logicalSlotId'', JStr (up_logicalSlotId s))] @ opt_member ''cycleDay'' JNum (up_cycleDay s) @
           opt_member ''thresholdBytes'' JNum (up_thresholdBytes s))"

definition policy_json :: "int usage_policy \<Rightarrow> int json" where
  "policy_json d =
     JObj [(''schemaVersion'', JNum USAGE_POLICY_SCHEMA_VERSION), (''savedAtMs'', JNum (up_savedAtMs d)),
           (''slots'', JArr (map policy_slot_json (up_slots d)))]"

definition policy_render :: "int usage_policy \<Rightarrow> string" where
  "policy_render d = json_print (policy_json d)"

definition fresh_policy :: "'n \<Rightarrow> 'n usage_policy" where
  "fresh_policy now = \<lparr>up_savedAtMs = now, up_slots = []\<rparr>"

definition selectUsagePolicy :: "'n usage_policy \<Rightarrow> string \<Rightarrow> desired_usage" where
  "selectUsagePolicy d slotId =
     (case find (\<lambda>s. up_logicalSlotId s = slotId) (up_slots d) of
        None \<Rightarrow> NO_USAGE
      | Some s \<Rightarrow> \<lparr>du_cycleDay = up_cycleDay s, du_thresholdBytes = up_thresholdBytes s\<rparr>)"

definition policy_save :: "int usage_policy \<Rightarrow> (durable_file, unit) io" where
  "policy_save d = writeAtomic (policy_render d)"

definition policy_load :: "int \<Rightarrow> (durable_file, rat usage_policy) io" where
  "policy_load now =
     loadDocument policy_validate (fresh_policy (of_int now)) (Some (policy_render (fresh_policy now)))"

section \<open>The write\<close>

text \<open>A field of the request: \<open>undefined\<close>, \<open>null\<close>, or a number.\<close>

datatype change = Leave | Clear | Put rat

record policy_request =
  pr_logicalSlotId :: string
  pr_cycleDay :: change
  pr_thresholdBytes :: change

datatype policy_rejection = InvalidSlotId | InvalidCycleDay | InvalidThresholdBytes

datatype 'a policy_result =
    PolicyApplied desired_usage "'a option"
  | PolicyRejected policy_rejection
  | PolicyFailed string

definition bad_change :: "(rat \<Rightarrow> bool) \<Rightarrow> change \<Rightarrow> bool" where
  "bad_change ok c = (case c of Put q \<Rightarrow> \<not> ok q | _ \<Rightarrow> False)"

definition validateRequest :: "policy_request \<Rightarrow> policy_rejection option" where
  "validateRequest req =
     (if pr_logicalSlotId req = [] then Some InvalidSlotId
      else if bad_change isValidCycleDay (pr_cycleDay req) then Some InvalidCycleDay
      else if bad_change isValidThresholdBytes (pr_thresholdBytes req) then Some InvalidThresholdBytes
      else None)"

definition merged :: "int option \<Rightarrow> change \<Rightarrow> int option" where
  "merged current c = (case c of Leave \<Rightarrow> current | Clear \<Rightarrow> None | Put q \<Rightarrow> Some \<lfloor>q\<rfloor>)"

definition mergePolicy :: "desired_usage \<Rightarrow> policy_request \<Rightarrow> desired_usage" where
  "mergePolicy current req =
     \<lparr>du_cycleDay = merged (du_cycleDay current) (pr_cycleDay req),
      du_thresholdBytes = merged (du_thresholdBytes current) (pr_thresholdBytes req)\<rparr>"

definition toSlot :: "string \<Rightarrow> desired_usage \<Rightarrow> policy_slot" where
  "toSlot slotId usage = \<lparr>up_logicalSlotId = slotId, up_cycleDay = du_cycleDay usage, up_thresholdBytes = du_thresholdBytes usage\<rparr>"

definition next_slots :: "policy_slot list \<Rightarrow> string \<Rightarrow> desired_usage \<Rightarrow> policy_slot list" where
  "next_slots slots slotId usage =
     (let others = filter (\<lambda>s. up_logicalSlotId s \<noteq> slotId) slots in
      if du_cycleDay usage = None \<and> du_thresholdBytes usage = None then others else others @ [toSlot slotId usage])"

record ('w, 'a) policy_deps =
  pd_load :: "int \<Rightarrow> ('w, rat usage_policy) io"
  pd_save :: "int usage_policy \<Rightarrow> ('w, unit) io"
  pd_sampler :: "(string \<Rightarrow> desired_usage \<Rightarrow> int \<Rightarrow> ('w, 'a) io) option"
  pd_now :: int

definition persist_policy :: "('w, 'a) policy_deps \<Rightarrow> policy_request \<Rightarrow> ('w, desired_usage) io" where
  "persist_policy deps req =
     io_bind (pd_load deps (pd_now deps)) (\<lambda>d.
       let usage = mergePolicy (selectUsagePolicy d (pr_logicalSlotId req)) req in
       io_bind (pd_save deps \<lparr>up_savedAtMs = pd_now deps, up_slots = next_slots (up_slots d) (pr_logicalSlotId req) usage\<rparr>)
         (\<lambda>_. io_return usage))"

definition setUsagePolicy :: "('w, 'a) policy_deps \<Rightarrow> policy_request \<Rightarrow> 'w \<Rightarrow> 'a policy_result \<times> 'w" where
  "setUsagePolicy deps req w =
     (case validateRequest req of
        Some reason \<Rightarrow> (PolicyRejected reason, w)
      | None \<Rightarrow>
          (case persist_policy deps req w of
             (Inl message, w1) \<Rightarrow> (PolicyFailed message, w1)
           | (Inr usage, w1) \<Rightarrow>
               (case pd_sampler deps of
                  None \<Rightarrow> (PolicyApplied usage None, w1)
                | Some target \<Rightarrow>
                    (case target (pr_logicalSlotId req) usage (pd_now deps) w1 of
                       (Inr applied, w2) \<Rightarrow> (PolicyApplied usage (Some applied), w2)
                     | (Inl message, w2) \<Rightarrow> (PolicyFailed message, w2)))))"

definition getUsagePolicy :: "('w, 'a) policy_deps \<Rightarrow> string \<Rightarrow> ('w, desired_usage) io" where
  "getUsagePolicy deps slotId =
     io_bind (pd_load deps (pd_now deps)) (\<lambda>d. io_return (selectUsagePolicy d slotId))"

section \<open>The document survives its file\<close>

definition policy_slot_wf :: "policy_slot \<Rightarrow> bool" where
  "policy_slot_wf s \<longleftrightarrow> up_logicalSlotId s \<noteq> [] \<and> pred_option (\<lambda>d. isValidCycleDay (of_int d)) (up_cycleDay s) \<and>
     pred_option (\<lambda>t. isValidThresholdBytes (of_int t)) (up_thresholdBytes s)"

definition policy_wf :: "int usage_policy \<Rightarrow> bool" where
  "policy_wf d \<longleftrightarrow> finite_int (up_savedAtMs d) \<and> list_all policy_slot_wf (up_slots d)"

definition of_int_policy :: "int usage_policy \<Rightarrow> rat usage_policy" where
  "of_int_policy d = \<lparr>up_savedAtMs = of_int (up_savedAtMs d), up_slots = up_slots d\<rparr>"

lemma policy_slot_survives:
  assumes "policy_slot_wf s"
  shows "policy_validateSlot (parsed (policy_slot_json s)) = Inr s"
  using assms
  by (cases "up_cycleDay s"; cases "up_thresholdBytes s"; cases s)
     (simp_all add: policy_validateSlot_def policy_slot_json_def policy_slot_wf_def opt_member_def optional_checked_def)

lemma policy_survives:
  assumes "policy_wf d"
  shows "policy_validate (parsed (policy_json d)) = Inr (of_int_policy d)"
proof -
  have "sum_map policy_validateSlot (map (parsed \<circ> policy_slot_json) (up_slots d)) = Inr (map id (up_slots d))"
    by (rule sum_map_all) (use assms policy_slot_survives in \<open>auto simp: policy_wf_def list_all_iff\<close>)
  then show ?thesis using assms
    by (simp add: policy_validate_def policy_json_def policy_wf_def of_int_policy_def USAGE_POLICY_SCHEMA_VERSION_def)
qed

lemma policy_json_unique: "json_unique (policy_json d)"
proof -
  have "json_unique (policy_slot_json s)" for s
    by (cases "up_cycleDay s"; cases "up_thresholdBytes s") (simp_all add: policy_slot_json_def opt_member_def)
  then show ?thesis by (simp add: policy_json_def json_unique_all_iff list_all_iff)
qed

lemma fresh_policy_wf: "finite_int now \<Longrightarrow> policy_wf (fresh_policy now)"
  by (simp add: policy_wf_def fresh_policy_def)

interpretation ups: document_store policy_render policy_validate of_int_policy policy_wf
    "\<lambda>text. \<exists>now. finite_int now \<and> text = policy_render (fresh_policy now)"
proof unfold_locales
  fix d assume "policy_wf d"
  then show "decode_document policy_validate (policy_render d) = Inr (of_int_policy d)"
    by (simp add: decode_document_def policy_render_def json_parse_print policy_json_unique policy_survives)
next
  fix t assume "\<exists>now. finite_int now \<and> t = policy_render (fresh_policy now)"
  then show "\<exists>d. policy_wf d \<and> t = policy_render d"
    using fresh_policy_wf by blast
qed

section \<open>A write is one update of the map\<close>

text \<open>The abstract state: the policy of every slot, as the file gives it.\<close>

definition policies_on :: "durable_file \<Rightarrow> string \<Rightarrow> desired_usage" where
  "policies_on fs slotId =
     (case bytes_of fs of
        None \<Rightarrow> NO_USAGE
      | Some bytes \<Rightarrow>
          (case decode_document policy_validate bytes of Inl _ \<Rightarrow> NO_USAGE | Inr d \<Rightarrow> selectUsagePolicy d slotId))"

text \<open>The write beside a running sampler: the file and the sampler are the two halves of the world.\<close>

type_synonym 'w policy_world = "durable_file \<times> 'w sampler"

definition on_file :: "(durable_file, 'a) io \<Rightarrow> ('w policy_world, 'a) io" where
  "on_file m w = (case m (fst w) of (r, fs) \<Rightarrow> (r, (fs, snd w)))"

definition live_deps :: "'w sampler_env \<Rightarrow> int \<Rightarrow> ('w policy_world, int \<times> bool) policy_deps" where
  "live_deps env now =
     \<lparr>pd_load = (\<lambda>t. on_file (policy_load t)), pd_save = (\<lambda>d. on_file (policy_save d)),
      pd_sampler = Some (\<lambda>slotId usage t w.
        (case applyUsagePolicy env slotId usage (Some t) (snd w) of (applied, s) \<Rightarrow> (Inr applied, (fst w, s)))),
      pd_now = now\<rparr>"

lemma select_next:
  "selectUsagePolicy \<lparr>up_savedAtMs = at_ms, up_slots = next_slots slots slotId usage\<rparr> =
     (selectUsagePolicy \<lparr>up_savedAtMs = at_ms', up_slots = slots\<rparr>)(slotId := usage)"
proof
  fix k
  have others: "find (\<lambda>s. up_logicalSlotId s = k) (filter (\<lambda>s. up_logicalSlotId s \<noteq> slotId) slots) =
      (if k = slotId then None else find (\<lambda>s. up_logicalSlotId s = k) slots)" for k
    by (induction slots) auto
  have snoc: "find P (xs @ [x]) = (case find P xs of None \<Rightarrow> if P x then Some x else None | Some y \<Rightarrow> Some y)"
    for P :: "policy_slot \<Rightarrow> bool" and xs x by (induction xs) auto
  show "selectUsagePolicy \<lparr>up_savedAtMs = at_ms, up_slots = next_slots slots slotId usage\<rparr> k =
      ((selectUsagePolicy \<lparr>up_savedAtMs = at_ms', up_slots = slots\<rparr>)(slotId := usage)) k"
    by (cases usage; cases "k = slotId")
       (simp_all add: selectUsagePolicy_def next_slots_def Let_def others snoc toSlot_def NO_USAGE_def split: option.split)
qed

lemma select_slots: "selectUsagePolicy d = selectUsagePolicy \<lparr>up_savedAtMs = at_ms, up_slots = up_slots d\<rparr>"
  by (simp add: selectUsagePolicy_def fun_eq_iff)

lemma sum_map_list_all:
  assumes "sum_map f xs = Inr ys" and "\<And>x y. f x = Inr y \<Longrightarrow> P y"
  shows "list_all P ys"
  using assms(1) by (induction xs arbitrary: ys) (auto simp: sum_bind_Inr assms(2))

lemma checked_integer: "ok q \<Longrightarrow> (\<And>q. ok q \<Longrightarrow> is_integer q) \<Longrightarrow> ok (of_int \<lfloor>q\<rfloor>)"
  using is_integer_def by metis

lemma valid_is_integer: "isValidCycleDay q \<Longrightarrow> is_integer q" "isValidThresholdBytes q \<Longrightarrow> is_integer q"
  by (simp_all add: isValidCycleDay_def isValidThresholdBytes_def)

lemma optional_checked_ok:
  assumes "optional_checked field ok v = Inr r" and "\<And>q. ok q \<Longrightarrow> is_integer q"
  shows "pred_option (\<lambda>i. ok (of_int i)) r"
proof -
  have "ok (of_int \<lfloor>q\<rfloor>)" if "ok q" for q by (rule checked_integer [of ok, OF that]) (rule assms(2))
  with assms(1) show ?thesis by (auto simp: optional_checked_def split: option.splits json.splits if_splits)
qed

lemma validated_slot_wf: "policy_validateSlot raw = Inr s \<Longrightarrow> policy_slot_wf s"
  by (auto simp: policy_validateSlot_def policy_slot_wf_def sum_bind_Inr split: if_splits option.splits
      dest: optional_checked_ok [OF _ valid_is_integer(1)] optional_checked_ok [OF _ valid_is_integer(2)])

lemma decoded_slots_wf:
  assumes "decode_document policy_validate bytes = Inr d"
  shows "list_all policy_slot_wf (up_slots d)"
proof -
  from assms obtain raw where "policy_validate raw = Inr d"
    by (auto simp: decode_document_def split: option.splits sum.splits)
  then obtain slots where "sum_map policy_validateSlot slots = Inr (up_slots d)"
    by (auto simp: policy_validate_def sum_bind_Inr split: if_splits option.splits)
  then show ?thesis by (rule sum_map_list_all) (rule validated_slot_wf)
qed

text \<open>A load on a readable file changes no policy, and an answer is the policies of the file.\<close>

lemma loaded_policies:
  assumes "policy_load now fs = (r, fs')" and "df_reads fs = []" and "finite_int now"
  shows "policies_on fs' = policies_on fs" and "df_reads fs' = []"
    and "\<And>d. r = Inr d \<Longrightarrow> selectUsagePolicy d = policies_on fs \<and> list_all policy_slot_wf (up_slots d)"
proof -
  let ?fresh = "fresh_policy (of_int now) :: rat usage_policy" and ?text = "policy_render (fresh_policy now)"
  have fresh: "selectUsagePolicy (fresh_policy n :: 'n usage_policy) k = NO_USAGE" for n :: 'n and k
    by (simp add: selectUsagePolicy_def fresh_policy_def)
  have recreated: "decode_document policy_validate ?text = Inr (of_int_policy (fresh_policy now))"
    by (rule ups.renders) (rule fresh_policy_wf [OF assms(3)])
  have blank: "selectUsagePolicy (of_int_policy (fresh_policy now)) k = NO_USAGE" for k
    by (simp add: selectUsagePolicy_def of_int_policy_def fresh_policy_def)
  have all: "policies_on fs' = policies_on fs \<and> df_reads fs' = [] \<and>
      (\<forall>d. r = Inr d \<longrightarrow> selectUsagePolicy d = policies_on fs \<and> list_all policy_slot_wf (up_slots d))"
  proof (cases "df_path fs")
    case None
    with assms show ?thesis
      by (auto simp: policy_load_def loadDocument_def readFile_def policies_on_def bytes_of_def fun_eq_iff fresh)
         (simp_all add: fresh_policy_def)
  next
    case (Some entry)
    obtain bytes m where on: "df_path fs = Some (bytes, m)" using Some by (cases entry) auto
    note read = readFile_reads [OF assms(2) on]
    show ?thesis
    proof (cases "decode_document policy_validate bytes")
      case (Inr d)
      with assms read on show ?thesis
        by (auto simp: policy_load_def loadDocument_def policies_on_def bytes_of_def fun_eq_iff decoded_slots_wf)
    next
      case (Inl reason)
      then have before: "policies_on fs = (\<lambda>_. NO_USAGE)" by (simp add: policies_on_def bytes_of_def on fun_eq_iff)
      let ?logged = "fs\<lparr>df_log := df_log fs @ [\<lparr>ce_bytes = length bytes, ce_reason = reason\<rparr>]\<rparr>"
      obtain wr fs2 where wr: "writeAtomic ?text ?logged = (wr, fs2)" by fastforce
      from assms(1) read Inl wr have out: "fs' = fs2" "r = Inl e \<or> r = Inr ?fresh \<or> True" for e
        by (auto simp: policy_load_def loadDocument_def Let_def io_bind_def io_return_def split: sum.splits)
      have res: "r = (case wr of Inl e \<Rightarrow> Inl e | Inr _ \<Rightarrow> Inr ?fresh)"
        using assms(1) read Inl wr by (auto simp: policy_load_def loadDocument_def Let_def io_bind_def io_return_def split: sum.splits)
      have "policies_on fs2 = (\<lambda>_. NO_USAGE)"
        using writeAtomic_cases(1) [OF wr] Inl on recreated blank
        by (auto simp: policies_on_def bytes_of_def fun_eq_iff)
      with before out(1) res writeAtomic_cases(2) [OF wr] assms(2) fresh show ?thesis
        by (auto simp: fun_eq_iff fresh_policy_def split: sum.splits)
    qed
  qed
  from all show "policies_on fs' = policies_on fs" "df_reads fs' = []" by simp_all
  show "selectUsagePolicy d = policies_on fs \<and> list_all policy_slot_wf (up_slots d)" if "r = Inr d" for d
    using all that by simp
qed

text \<open>A save of well-formed rows makes its rows the policies of the file, or leaves them.\<close>

lemma saved_policies:
  assumes "policy_save d fs = (r, fs')" and "policy_wf d"
  shows "r = Inr () \<Longrightarrow> policies_on fs' = selectUsagePolicy d"
    and "r = Inl e \<Longrightarrow> policies_on fs' = policies_on fs"
  using writeAtomic_cases(1) [of "policy_render d" fs r fs'] assms ups.renders [OF assms(2)]
  by (auto simp: policy_save_def policies_on_def bytes_of_def fun_eq_iff of_int_policy_def selectUsagePolicy_def)

lemma merged_wf:
  assumes "\<not> bad_change ok c" and "\<And>q. ok q \<Longrightarrow> is_integer q" and "pred_option (\<lambda>i. ok (of_int i)) current"
  shows "pred_option (\<lambda>i. ok (of_int i)) (merged current c)"
proof -
  have "ok (of_int \<lfloor>q\<rfloor>)" if "ok q" for q by (rule checked_integer [of ok, OF that]) (rule assms(2))
  with assms show ?thesis by (auto simp: merged_def bad_change_def split: change.splits)
qed

lemma selected_wf:
  assumes "list_all policy_slot_wf (up_slots d)"
  shows "pred_option (\<lambda>i. isValidCycleDay (of_int i)) (du_cycleDay (selectUsagePolicy d k)) \<and>
    pred_option (\<lambda>i. isValidThresholdBytes (of_int i)) (du_thresholdBytes (selectUsagePolicy d k))"
  using assms by (auto simp: selectUsagePolicy_def NO_USAGE_def list_all_iff policy_slot_wf_def find_Some_iff
      split: option.splits dest!: nth_mem)

lemma next_slots_wf:
  assumes "list_all policy_slot_wf (up_slots d)" and "validateRequest req = None"
  shows "list_all policy_slot_wf
    (next_slots (up_slots d) (pr_logicalSlotId req) (mergePolicy (selectUsagePolicy d (pr_logicalSlotId req)) req))"
proof -
  let ?u = "mergePolicy (selectUsagePolicy d (pr_logicalSlotId req)) req"
  from assms(2) have req: "pr_logicalSlotId req \<noteq> []" "\<not> bad_change isValidCycleDay (pr_cycleDay req)"
      "\<not> bad_change isValidThresholdBytes (pr_thresholdBytes req)"
    by (auto simp: validateRequest_def split: if_splits)
  have "policy_slot_wf (toSlot (pr_logicalSlotId req) ?u)"
    using selected_wf [OF assms(1), of "pr_logicalSlotId req"] merged_wf [OF req(2) valid_is_integer(1)]
      merged_wf [OF req(3) valid_is_integer(2)] req(1)
    by (simp add: policy_slot_wf_def toSlot_def mergePolicy_def)
  with assms(1) show ?thesis by (auto simp: next_slots_def Let_def list_all_iff)
qed

lemma persist_refines:
  fixes w :: "'w policy_world"
  assumes "persist_policy (live_deps env now) req w = (r, w')"
    and "df_reads (fst w) = []" and "finite_int now" and "validateRequest req = None"
  shows "snd w' = snd w" and "r = Inl e \<Longrightarrow> policies_on (fst w') = policies_on (fst w)"
    and "r = Inr usage \<Longrightarrow> usage = mergePolicy (policies_on (fst w) (pr_logicalSlotId req)) req \<and>
      policies_on (fst w') = (policies_on (fst w))(pr_logicalSlotId req := usage)"
proof -
  let ?k = "pr_logicalSlotId req"
  obtain lr fs1 where load: "policy_load now (fst w) = (lr, fs1)" by fastforce
  note loaded = loaded_policies [OF load assms(2,3)]
  have all: "snd w' = snd w \<and> (\<forall>e. r = Inl e \<longrightarrow> policies_on (fst w') = policies_on (fst w)) \<and>
      (\<forall>usage. r = Inr usage \<longrightarrow> usage = mergePolicy (policies_on (fst w) ?k) req \<and>
        policies_on (fst w') = (policies_on (fst w))(?k := usage))"
  proof (cases lr)
    case (Inl e)
    with assms(1) load loaded(1) show ?thesis
      by (auto simp: persist_policy_def live_deps_def on_file_def io_bind_def)
  next
    case (Inr d)
    note d = loaded(3) [OF Inr]
    let ?usage = "mergePolicy (selectUsagePolicy d ?k) req"
    let ?next = "\<lparr>up_savedAtMs = now, up_slots = next_slots (up_slots d) ?k ?usage\<rparr> :: int usage_policy"
    obtain sr fs2 where save: "policy_save ?next fs1 = (sr, fs2)" by fastforce
    have wf: "policy_wf ?next" using d next_slots_wf [OF _ assms(4), of d] assms(3) by (simp add: policy_wf_def)
    note saved = saved_policies [OF save wf]
    have out: "w' = (fs2, snd w)" "r = (case sr of Inl e \<Rightarrow> Inl e | Inr _ \<Rightarrow> Inr ?usage)"
      using assms(1) load Inr save
      by (auto simp: persist_policy_def live_deps_def on_file_def io_bind_def io_return_def Let_def split: sum.splits)
    have "selectUsagePolicy ?next = (policies_on (fst w))(?k := ?usage)"
      using select_next [of now "up_slots d" ?k ?usage now] d select_slots [of d "now"] by simp
    with out saved loaded(1) d show ?thesis by (auto split: sum.splits)
  qed
  from all show "snd w' = snd w" "r = Inl e \<Longrightarrow> policies_on (fst w') = policies_on (fst w)"
    "r = Inr usage \<Longrightarrow> usage = mergePolicy (policies_on (fst w) ?k) req \<and>
      policies_on (fst w') = (policies_on (fst w))(?k := usage)" by blast+
qed

lemma applied_live:
  assumes "applyUsagePolicy env slotId usage at_ms s = (out, s')"
  shows "map_of (ss_policies (sm_state s')) slotId = Some usage"
    and "map_of (ss_policyOverrides (sm_state s')) slotId = Some usage"
  using assms
  by (auto simp: applyUsagePolicy_def applyPolicy_def Let_def map_simps split: prod.splits option.splits if_splits)

text \<open>Writing a usage policy is one update of the map from slots to policies, on disk and in the running sampler alike: an applied write leaves on the file exactly the merge of the request with what the slot had, touches no other slot, and the sampler then accounts the slot by that same policy; a rejected request changes nothing at all, and a write that fails leaves the policies on the file and the sampler as they were.\<close>

theorem policy_write_updates_one_slot:
  fixes env :: "'w sampler_env"
  assumes "df_reads fs = []" and "finite_int now"
  shows "case setUsagePolicy (live_deps env now) req (fs, s) of
      (PolicyApplied usage _, fs', s') \<Rightarrow>
        usage = mergePolicy (policies_on fs (pr_logicalSlotId req)) req \<and>
        policies_on fs' = (policies_on fs)(pr_logicalSlotId req := usage) \<and>
        map_of (ss_policyOverrides (sm_state s')) (pr_logicalSlotId req) = Some (policies_on fs' (pr_logicalSlotId req))
    | (PolicyRejected reason, fs', s') \<Rightarrow> fs' = fs \<and> s' = s \<and> validateRequest req = Some reason
    | (PolicyFailed _, fs', s') \<Rightarrow> policies_on fs' = policies_on fs \<and> s' = s"
proof (cases "validateRequest req")
  case (Some reason)
  then show ?thesis by (simp add: setUsagePolicy_def)
next
  case None
  obtain r w' where persist: "persist_policy (live_deps env now) req (fs, s) = (r, w')" by (metis surj_pair)
  note refines = persist_refines [OF persist _ assms(2) None, unfolded fst_conv snd_conv, OF assms(1)]
  show ?thesis
  proof (cases r)
    case (Inl e)
    with None persist refines(1) refines(2) [OF Inl] show ?thesis by (cases w') (simp add: setUsagePolicy_def)
  next
    case (Inr usage)
    obtain out s' where live: "applyUsagePolicy env (pr_logicalSlotId req) usage (Some now) s = (out, s')" by fastforce
    from None persist refines(1) refines(3) [OF Inr] Inr live applied_live(2) [OF live] show ?thesis
      by (cases w') (simp add: setUsagePolicy_def live_deps_def)
  qed
qed

definition sample_env :: "unit sampler_env" where
  "sample_env = \<lparr>sv_read = (\<lambda>w. (Inr [], w)), sv_load = (\<lambda>bootId now w. (Inr (freshState bootId now), w)),
     sv_save = (\<lambda>_ w. (Inr (), w)), sv_clock = (\<lambda>_. 0), sv_bootId = ''b'', sv_persistIntervalMs = 60000,
     sv_defaultCycleDay = 1\<rparr>"

definition policy_file :: "write_fate list \<Rightarrow> bool list \<Rightarrow> durable_file" where
  "policy_file writes reads =
     \<lparr>df_path = Some (policy_render \<lparr>up_savedAtMs = 1, up_slots = [\<lparr>up_logicalSlotId = ''a'', up_cycleDay = Some 5,
        up_thresholdBytes = None\<rparr>]\<rparr>, PRIVATE_MODE), df_tmp = None, df_createMode = 420, df_writes = writes,
      df_reads = reads, df_log = []\<rparr>"

definition day_request :: "string \<Rightarrow> policy_request" where
  "day_request slotId = \<lparr>pr_logicalSlotId = slotId, pr_cycleDay = Put 9, pr_thresholdBytes = Leave\<rparr>"

definition write_run :: "write_fate list \<Rightarrow> bool list \<Rightarrow> (int \<times> bool) policy_result \<times> unit policy_world" where
  "write_run writes reads = setUsagePolicy (live_deps sample_env 2) (day_request ''b'') (policy_file writes reads, sample_sampler)"

lemma policy_file_policies:
  "policies_on (policy_file writes reads) = (\<lambda>_. NO_USAGE)(''a'' := \<lparr>du_cycleDay = Some 5, du_thresholdBytes = None\<rparr>)"
proof -
  let ?d = "\<lparr>up_savedAtMs = 1, up_slots = [\<lparr>up_logicalSlotId = ''a'', up_cycleDay = Some 5, up_thresholdBytes = None\<rparr>]\<rparr> :: int usage_policy"
  have "policy_wf ?d"
    by (simp add: policy_wf_def policy_slot_wf_def finite_int_def isValidCycleDay_def is_integer_def js_finite_def)
  from ups.renders [OF this] show ?thesis
    by (simp add: policies_on_def policy_file_def bytes_of_def of_int_policy_def selectUsagePolicy_def fun_eq_iff)
qed

lemma save_lands: "df_writes fs = [] \<Longrightarrow> \<exists>fs'. policy_save d fs = (Inr (), fs')"
  by (simp add: policy_save_def writeAtomic_def write_as_def)

text \<open>A write whose file lets every call succeed is applied.\<close>

lemma write_applied:
  assumes "policy_load now fs = (Inr d, fs1)" and "df_writes fs1 = []" and "validateRequest req = None"
  shows "\<exists>usage out w. setUsagePolicy (live_deps env now) req (fs, s) = (PolicyApplied usage (Some out), w)"
proof -
  let ?k = "pr_logicalSlotId req"
  let ?usage = "mergePolicy (selectUsagePolicy d ?k) req"
  obtain fs2 where save: "policy_save \<lparr>up_savedAtMs = now, up_slots = next_slots (up_slots d) ?k ?usage\<rparr> fs1 = (Inr (), fs2)"
    using save_lands [OF assms(2)] by blast
  obtain out s' where "applyUsagePolicy env ?k ?usage (Some now) s = (out, s')" by fastforce
  with assms(1,3) save show ?thesis
    by (simp add: setUsagePolicy_def persist_policy_def live_deps_def on_file_def io_bind_def io_return_def Let_def)
qed

theorem policy_write_updates_one_slot_witness:
  "policies_on (fst (snd (write_run [] []))) =
     (\<lambda>_. NO_USAGE)(''a'' := \<lparr>du_cycleDay = Some 5, du_thresholdBytes = None\<rparr>,
                    ''b'' := \<lparr>du_cycleDay = Some 9, du_thresholdBytes = None\<rparr>)"
proof -
  have valid: "validateRequest (day_request ''b'') = None"
    by (simp add: validateRequest_def day_request_def bad_change_def isValidCycleDay_def is_integer_def js_finite_def)
  have reads: "df_reads (policy_file [] []) = []" and fin: "finite_int 2" and slot: "pr_logicalSlotId (day_request ''b'') = ''b''"
    by (simp_all add: policy_file_def finite_int_def day_request_def)
  have "\<exists>d. policy_load 2 (policy_file [] []) = (Inr d, policy_file [] [])"
    using policy_file_policies [of "[]" "[]"]
    by (auto simp: policy_load_def loadDocument_def readFile_def policy_file_def policies_on_def bytes_of_def
        fun_eq_iff NO_USAGE_def split: sum.splits dest: spec [of _ "''a''"])
  moreover have "df_writes (policy_file [] []) = []" by (simp add: policy_file_def)
  ultimately obtain usage out fs' s' where
    "setUsagePolicy (live_deps sample_env 2) (day_request ''b'') (policy_file [] [], sample_sampler) = (PolicyApplied usage (Some out), fs', s')"
    using write_applied valid by (metis surj_pair)
  with policy_write_updates_one_slot [OF reads fin, where env = sample_env and req = "day_request ''b''" and s = sample_sampler] slot policy_file_policies
  show ?thesis
    by (simp add: write_run_def mergePolicy_def merged_def day_request_def NO_USAGE_def)
qed

text \<open>
  A transient failure to read the file is taken for an absent file: the write that follows drops
  the policy of every other slot.
\<close>

lemma unread_file_loses_policies:
  assumes "df_path fs = Some entry" and "df_reads fs = [True]" and "df_writes fs = []"
    and "validateRequest req = None" and "finite_int now"
  shows "policies_on (fst (snd (setUsagePolicy (live_deps env now) req (fs, s)))) =
    (\<lambda>_. NO_USAGE)(pr_logicalSlotId req := mergePolicy NO_USAGE req)"
proof -
  let ?k = "pr_logicalSlotId req" and ?fs1 = "fs\<lparr>df_reads := []\<rparr>"
  let ?d = "fresh_policy (of_int now) :: rat usage_policy"
  have load: "policy_load now fs = (Inr ?d, ?fs1)"
    using assms(1,2) by (cases entry) (simp add: policy_load_def loadDocument_def readFile_def)
  have none: "selectUsagePolicy ?d = (\<lambda>_. NO_USAGE)" by (simp add: selectUsagePolicy_def fresh_policy_def fun_eq_iff)
  let ?next = "\<lparr>up_savedAtMs = now, up_slots = next_slots (up_slots ?d) ?k (mergePolicy (selectUsagePolicy ?d ?k) req)\<rparr> :: int usage_policy"
  obtain fs2 where save: "policy_save ?next ?fs1 = (Inr (), fs2)" using save_lands [of ?fs1] assms(3) by auto
  have "list_all policy_slot_wf (up_slots ?d)" by (simp add: fresh_policy_def)
  then have wf: "policy_wf ?next" using next_slots_wf [OF _ assms(4), of ?d] assms(5) by (simp add: policy_wf_def)
  have "policies_on fs2 = selectUsagePolicy ?next" by (rule saved_policies(1) [OF save wf refl])
  also have "\<dots> = (\<lambda>_. NO_USAGE)(?k := mergePolicy NO_USAGE req)"
    unfolding usage_policy.select_convs select_next [of now "up_slots ?d" ?k _ now] select_slots [of ?d now, symmetric]
    by (simp add: none)
  finally show ?thesis
    using assms(4) load save
    by (simp add: setUsagePolicy_def persist_policy_def live_deps_def on_file_def io_bind_def io_return_def Let_def
        split: prod.split)
qed

end
