(* ===== verification/Ussd_Adapter.thy ===== *)
theory Ussd_Adapter
  imports Ussd
begin

text \<open>
  The USSD adapter of one stable key (\<open>ussd/mm-ussd.ts\<close>) and its properties: no verb leaves a call
  in flight behind, an open session is always bounded, a refused verb does nothing.
\<close>

section \<open>The adapter\<close>

text \<open>
  The stored session, the armed timer (the modem it was armed for), the expiries whose timer has
  fired and that wait for the actor, the changes a UI was told.
\<close>

record 'w mm_ussd =
  us_session :: "session_snapshot option"
  us_timer :: "string option"
  us_expiring :: "string list"
  us_changes :: "session_snapshot list"
  us_world :: 'w

record verb_result =
  vr_ok :: bool
  vr_snapshot :: session_snapshot
  vr_ussdReply :: "string option"
  vr_refusal :: "ussd_refusal option"

definition new_ussd :: "'w \<Rightarrow> 'w mm_ussd" where
  "new_ussd w = \<lparr>us_session = None, us_timer = None, us_expiring = [], us_changes = [], us_world = w\<rparr>"

definition ussd_snapshot :: "'w mm_ussd \<Rightarrow> session_snapshot" where
  "ussd_snapshot s = (case us_session s of Some x \<Rightarrow> x | None \<Rightarrow> IDLE_SESSION)"

definition clearTimer :: "'w mm_ussd \<Rightarrow> 'w mm_ussd" where
  "clearTimer s = s\<lparr>us_timer := None\<rparr>"

definition ussd_store :: "session_snapshot \<Rightarrow> 'w mm_ussd \<Rightarrow> 'w mm_ussd" where
  "ussd_store snap s =
     (clearTimer s)\<lparr>us_session := (if sn_state snap = Closed then None else Some snap),
                    us_changes := us_changes s @ [snap]\<rparr>"

definition armIdleTimeout :: "string \<Rightarrow> 'w mm_ussd \<Rightarrow> 'w mm_ussd" where
  "armIdleTimeout modem s = (clearTimer s)\<lparr>us_timer := Some modem\<rparr>"

definition ussd_gate :: "session_event \<Rightarrow> 'w mm_ussd \<Rightarrow> verb_result option \<times> 'w mm_ussd" where
  "ussd_gate event s =
     (case reduceUssdSession (ussd_snapshot s) event of
        Inl refusal \<Rightarrow>
          (Some \<lparr>vr_ok = False, vr_snapshot = ussd_snapshot s, vr_ussdReply = None, vr_refusal = Some refusal\<rparr>, s)
      | Inr snap \<Rightarrow> (None, ussd_store snap s))"

definition ussd_settle :: "session_event \<Rightarrow> 'w mm_ussd \<Rightarrow> verb_result \<times> 'w mm_ussd" where
  "ussd_settle event s =
     (case reduceUssdSession (ussd_snapshot s) event of
        Inl refusal \<Rightarrow>
          (\<lparr>vr_ok = False, vr_snapshot = ussd_snapshot s, vr_ussdReply = None, vr_refusal = Some refusal\<rparr>, s)
      | Inr snap \<Rightarrow>
          (\<lparr>vr_ok = (sn_refusal snap = None), vr_snapshot = snap, vr_ussdReply = None, vr_refusal = sn_refusal snap\<rparr>,
           ussd_store snap s))"

definition ussd_fail :: "'w ussd_env \<Rightarrow> string \<Rightarrow> call_error \<Rightarrow> 'w mm_ussd \<Rightarrow> verb_result \<times> 'w mm_ussd" where
  "ussd_fail env modem error s =
     (case readUssdRegistrationFacts env modem (us_world s) of
        (registration, w) \<Rightarrow> ussd_settle (CallFailed (classifyUssdFailure error registration)) (s\<lparr>us_world := w\<rparr>))"

definition runVerb ::
  "'w ussd_env \<Rightarrow> string \<Rightarrow> session_event \<Rightarrow> ('w \<Rightarrow> (call_error + string) \<times> 'w) \<Rightarrow> 'w mm_ussd \<Rightarrow>
     verb_result \<times> 'w mm_ussd" where
  "runVerb env modem event dispatch s =
     (case ussd_gate event s of
        (Some refused, s1) \<Rightarrow> (refused, s1)
      | (None, s1) \<Rightarrow>
          (case dispatch (us_world s1) of
             (Inl error, w) \<Rightarrow> ussd_fail env modem error (s1\<lparr>us_world := w\<rparr>)
           | (Inr ussdReply, w) \<Rightarrow>
               (case readUssdState env modem w of
                  (st, w1) \<Rightarrow>
                    (let sessionState = decodeRepliedState st in
                     case ussd_settle (Replied sessionState) (s1\<lparr>us_world := w1\<rparr>) of
                       (settled, s2) \<Rightarrow>
                         (settled\<lparr>vr_ussdReply := Some ussdReply\<rparr>,
                          if sessionState \<noteq> RepliedReleased then armIdleTimeout modem s2 else s2)))))"

definition ussd_initiate :: "'w ussd_env \<Rightarrow> string \<Rightarrow> string \<Rightarrow> 'w mm_ussd \<Rightarrow> verb_result \<times> 'w mm_ussd" where
  "ussd_initiate env modem ussdCommand = runVerb env modem Initiate (callInitiate env modem ussdCommand)"

definition ussd_respond :: "'w ussd_env \<Rightarrow> string \<Rightarrow> string \<Rightarrow> 'w mm_ussd \<Rightarrow> verb_result \<times> 'w mm_ussd" where
  "ussd_respond env modem ussdResponse = runVerb env modem Respond (callRespond env modem ussdResponse)"

definition ussd_cancel :: "'w ussd_env \<Rightarrow> string \<Rightarrow> 'w mm_ussd \<Rightarrow> verb_result \<times> 'w mm_ussd" where
  "ussd_cancel env modem s =
     (case ussd_gate Cancel s of
        (Some refused, s1) \<Rightarrow> (refused, s1)
      | (None, s1) \<Rightarrow>
          (case callCancel env modem (us_world s1) of
             (Inr _, w) \<Rightarrow> ussd_settle CancelConfirmed (s1\<lparr>us_world := w\<rparr>)
           | (Inl error, w) \<Rightarrow> ussd_fail env modem error (s1\<lparr>us_world := w\<rparr>)))"

text \<open>The timer fires: its expiry waits for the actor (the handle stays in the map until it is cleared).\<close>

definition timer_fires :: "'w mm_ussd \<Rightarrow> 'w mm_ussd" where
  "timer_fires s = (case us_timer s of None \<Rightarrow> s | Some modem \<Rightarrow> s\<lparr>us_timer := None, us_expiring := us_expiring s @ [modem]\<rparr>)"

definition ussd_expire :: "'w ussd_env \<Rightarrow> 'w mm_ussd \<Rightarrow> 'w mm_ussd" where
  "ussd_expire env s =
     (case us_expiring s of
        [] \<Rightarrow> s
      | modem # rest \<Rightarrow>
          (let s1 = s\<lparr>us_expiring := rest\<rparr> in
           if us_session s1 = None then s1
           else (let s2 = snd (ussd_settle Timeout s1)
                 in s2\<lparr>us_world := snd (callCancel env modem (us_world s2))\<rparr>)))"

definition ussd_stop :: "'w mm_ussd \<Rightarrow> 'w mm_ussd" where
  "ussd_stop s = s\<lparr>us_timer := None\<rparr>"

datatype adapter_job = JobInitiate string string | JobRespond string string | JobCancel string | JobFire | JobExpire

fun ussd_do :: "'w ussd_env \<Rightarrow> adapter_job \<Rightarrow> 'w mm_ussd \<Rightarrow> 'w mm_ussd" where
  "ussd_do env (JobInitiate modem cmd) s = snd (ussd_initiate env modem cmd s)"
| "ussd_do env (JobRespond modem answer) s = snd (ussd_respond env modem answer s)"
| "ussd_do env (JobCancel modem) s = snd (ussd_cancel env modem s)"
| "ussd_do env JobFire s = timer_fires s"
| "ussd_do env JobExpire s = ussd_expire env s"

definition ussd_jobs :: "'w ussd_env \<Rightarrow> adapter_job list \<Rightarrow> 'w mm_ussd \<Rightarrow> 'w mm_ussd" where
  "ussd_jobs env jobs s = fold (ussd_do env) jobs s"

section \<open>The machine\<close>

lemma closed_refuses: "sn_state snap = Closed \<Longrightarrow> reduceUssdSession snap event = Inl NoSession"
  by (simp add: reduceUssdSession_def refuse_session_def Let_def)

lemma one_session_opened:
  "reduceUssdSession snap Initiate = Inr snap' \<longleftrightarrow> sn_state snap = Idle \<and> open_session Initiating = Inr snap'"
  by (auto simp: reduceUssdSession_def refuse_session_def ACCEPTS_INITIATE_def open_session_def Let_def)

text \<open>A snapshot is coherent: an outcome exactly when closed, a refusal exactly with a failure.\<close>

definition coherent :: "session_snapshot \<Rightarrow> bool" where
  "coherent snap \<longleftrightarrow> (sn_outcome snap \<noteq> None \<longleftrightarrow> sn_state snap = Closed) \<and>
     (sn_refusal snap \<noteq> None \<longleftrightarrow> sn_outcome snap = Some FailedSession)"

lemma reduce_coherent: "reduceUssdSession snap event = Inr snap' \<Longrightarrow> coherent snap' \<and> sn_state snap' \<noteq> Idle"
  by (cases event)
     (auto simp: reduceUssdSession_def refuse_session_def open_session_def close_session_def coherent_def Let_def
       ACCEPTS_INITIATE_def ACCEPTS_RESPOND_def ACCEPTS_CANCEL_def split: if_splits elim: replied_session.elims)

section \<open>The adapter between jobs\<close>

text \<open>An open session waits for the operator and is bounded by a timer or by an expiry on its way.\<close>

definition ussd_ok :: "'w mm_ussd \<Rightarrow> bool" where
  "ussd_ok s \<longleftrightarrow> (case us_session s of
     None \<Rightarrow> us_timer s = None
   | Some snap \<Rightarrow> sn_state snap \<in> {ActiveSession, AwaitingReply} \<and> coherent snap \<and>
       (us_timer s \<noteq> None \<or> us_expiring s \<noteq> []))"

lemma ussd_fail_ok:
  assumes "\<exists>snap. us_session s = Some snap \<and> sn_state snap \<notin> {Idle, Closed}"
  shows "ussd_ok (snd (ussd_fail env modem error s)) \<and> us_session (snd (ussd_fail env modem error s)) = None"
  using assms
  by (auto simp: ussd_fail_def ussd_settle_def ussd_snapshot_def reduceUssdSession_def close_session_def
      ussd_store_def clearTimer_def ussd_ok_def Let_def split: prod.split)

lemma gate_refused: "ussd_gate event s = (Some refused, s1) \<Longrightarrow> s1 = s \<and> \<not> vr_ok refused \<and> vr_snapshot refused = ussd_snapshot s"
  by (auto simp: ussd_gate_def split: sum.splits)

lemma gate_passed:
  assumes "ussd_gate event s = (None, s1)" and "event \<in> {Initiate, Respond, Cancel}"
  shows "\<exists>snap. us_session s1 = Some snap \<and> us_timer s1 = None \<and>
    sn_state snap = (if event = Initiate then Initiating else if event = Respond then Responding else Cancelling)"
  using assms
  by (auto simp: ussd_gate_def ussd_store_def clearTimer_def reduceUssdSession_def refuse_session_def open_session_def Let_def
      split: sum.splits if_splits)

lemma settle_replied:
  assumes "us_session s = Some snap" and "sn_state snap \<in> {Initiating, Responding}"
  shows "snd (ussd_settle (Replied r) s) =
    ussd_store \<lparr>sn_state = replied_session r, sn_outcome = (if r = RepliedReleased then Some Completed else None),
                sn_refusal = None\<rparr> s"
  using assms
  by (cases r) (auto simp: ussd_settle_def ussd_snapshot_def reduceUssdSession_def IN_FLIGHT_def open_session_def
      close_session_def Let_def)

lemma runVerb_ok:
  assumes "ussd_ok s" and "event \<in> {Initiate, Respond}"
  shows "ussd_ok (snd (runVerb env modem event dispatch s))"
proof (cases "ussd_gate event s")
  case (Pair refused s1)
  show ?thesis
  proof (cases refused)
    case (Some result)
    with gate_refused Pair assms(1) show ?thesis by (auto simp: runVerb_def)
  next
    case None
    from gate_passed [of event s s1] Pair None assms(2) obtain snap
      where snap: "us_session s1 = Some snap" "sn_state snap \<in> {Initiating, Responding}" by auto
    show ?thesis
    proof (cases "dispatch (us_world s1)")
      case out: (Pair r w)
      show ?thesis
      proof (cases r)
        case (Inl error)
        from ussd_fail_ok [of "s1\<lparr>us_world := w\<rparr>" env modem error] snap have
          "ussd_ok (snd (ussd_fail env modem error (s1\<lparr>us_world := w\<rparr>)))" by auto
        with Pair None out Inl show ?thesis by (simp add: runVerb_def)
      next
        case (Inr reply)
        obtain st w1 where st: "readUssdState env modem w = (st, w1)" by fastforce
        obtain settled s2 where settled: "ussd_settle (Replied (decodeRepliedState st)) (s1\<lparr>us_world := w1\<rparr>) = (settled, s2)"
          by fastforce
        from settle_replied [of "s1\<lparr>us_world := w1\<rparr>" snap "decodeRepliedState st"] snap settled
        have s2: "s2 = ussd_store \<lparr>sn_state = replied_session (decodeRepliedState st),
            sn_outcome = (if decodeRepliedState st = RepliedReleased then Some Completed else None),
            sn_refusal = None\<rparr> (s1\<lparr>us_world := w1\<rparr>)" by simp
        from Pair None out Inr st settled
        have run: "snd (runVerb env modem event dispatch s) =
            (if decodeRepliedState st \<noteq> RepliedReleased then armIdleTimeout modem s2 else s2)"
          by (simp add: runVerb_def Let_def)
        show ?thesis
          unfolding run s2
          by (cases "decodeRepliedState st")
             (simp_all add: armIdleTimeout_def ussd_store_def clearTimer_def ussd_ok_def coherent_def)
      qed
    qed
  qed
qed

lemma cancel_ok:
  assumes "ussd_ok s"
  shows "ussd_ok (snd (ussd_cancel env modem s))"
proof (cases "ussd_gate Cancel s")
  case (Pair refused s1)
  show ?thesis
  proof (cases refused)
    case (Some result)
    with gate_refused Pair assms show ?thesis by (auto simp: ussd_cancel_def)
  next
    case None
    from gate_passed [of Cancel s s1] Pair None obtain snap
      where snap: "us_session s1 = Some snap" "sn_state snap = Cancelling" by auto
    from ussd_fail_ok [of "s1\<lparr>us_world := w\<rparr>" env modem error for w error] snap
    have "ussd_ok (snd (ussd_fail env modem error (s1\<lparr>us_world := w\<rparr>)))" for w error by auto
    moreover have "ussd_ok (snd (ussd_settle CancelConfirmed (s1\<lparr>us_world := w\<rparr>)))" for w
      using snap by (simp add: ussd_settle_def ussd_snapshot_def reduceUssdSession_def close_session_def ussd_store_def
          clearTimer_def ussd_ok_def Let_def)
    ultimately show ?thesis using Pair None by (simp add: ussd_cancel_def split: prod.split sum.split)
  qed
qed

lemma expire_ok:
  assumes "ussd_ok s"
  shows "ussd_ok (ussd_expire env s)"
  using assms
  by (auto simp: ussd_expire_def ussd_ok_def ussd_settle_def ussd_snapshot_def reduceUssdSession_def close_session_def
      ussd_store_def clearTimer_def Let_def split: list.split option.splits)

lemma ussd_do_ok: "ussd_ok s \<Longrightarrow> ussd_ok (ussd_do env job s)"
proof (cases job)
  case JobFire
  assume "ussd_ok s"
  then show ?thesis unfolding JobFire by (auto simp: timer_fires_def ussd_ok_def split: option.splits)
qed (simp_all add: ussd_initiate_def ussd_respond_def runVerb_ok cancel_ok expire_ok)

lemma ussd_jobs_ok:
  assumes "ussd_ok s"
  shows "ussd_ok (ussd_jobs env jobs s)"
  using assms unfolding ussd_jobs_def by (induction jobs arbitrary: s) (simp_all add: ussd_do_ok)

lemma new_ussd_ok: "ussd_ok (new_ussd w)"
  by (simp add: ussd_ok_def new_ussd_def)

text \<open>One firing and one expiry end an open session, whatever the modem answers to the release.\<close>

lemma fire_and_expire:
  assumes "ussd_ok s" and "us_session s = Some snap"
  shows "us_session (ussd_expire env (timer_fires s)) = None"
proof (cases "timer_fires s")
  case (fields sess tm ex ch w)
  from assms have "us_session (timer_fires s) = Some snap" "us_expiring (timer_fires s) \<noteq> []"
    by (auto simp: timer_fires_def ussd_ok_def split: option.splits)
  with assms show ?thesis
    by (auto simp: ussd_expire_def ussd_ok_def ussd_settle_def ussd_snapshot_def reduceUssdSession_def close_session_def
        ussd_store_def clearTimer_def Let_def split: list.split)
qed

definition refused_result :: "ussd_refusal \<Rightarrow> session_snapshot \<Rightarrow> verb_result" where
  "refused_result reason snap = \<lparr>vr_ok = False, vr_snapshot = snap, vr_ussdReply = None, vr_refusal = Some reason\<rparr>"

lemma initiate_on_open_refused:
  assumes "us_session s = Some snap" and "sn_state snap \<in> {ActiveSession, AwaitingReply}"
  shows "ussd_initiate env modem cmd s = (refused_result SessionBusy snap, s)"
  using assms by (auto simp: ussd_initiate_def runVerb_def ussd_gate_def ussd_snapshot_def reduceUssdSession_def
      refuse_session_def ACCEPTS_INITIATE_def refused_result_def Let_def)

lemma respond_unasked_refused:
  assumes "us_session s = Some snap" and "sn_state snap = ActiveSession"
  shows "ussd_respond env modem answer s = (refused_result InvalidState snap, s)"
  using assms by (auto simp: ussd_respond_def runVerb_def ussd_gate_def ussd_snapshot_def reduceUssdSession_def
      refuse_session_def ACCEPTS_RESPOND_def refused_result_def Let_def)

text \<open>Between jobs a stored USSD session is never in flight: it is active or awaits a reply; a
  second initiate is refused as busy and changes nothing, neither the state nor the bus; and the
  session is bounded: one firing of its timer and one expiry close it, whatever the modem answers.\<close>

theorem ussd_open_session_is_bounded:
  fixes env :: "'w ussd_env"
  assumes "us_session (ussd_jobs env jobs (new_ussd w)) = Some snap"
  shows "(sn_state snap = ActiveSession \<or> sn_state snap = AwaitingReply) \<and>
    ussd_initiate env modem cmd (ussd_jobs env jobs (new_ussd w)) =
      (refused_result SessionBusy snap, ussd_jobs env jobs (new_ussd w)) \<and>
    us_session (ussd_expire env (timer_fires (ussd_jobs env jobs (new_ussd w)))) = None"
proof (intro conjI)
  have ok: "ussd_ok (ussd_jobs env jobs (new_ussd w))" by (rule ussd_jobs_ok [OF new_ussd_ok])
  with assms have st: "sn_state snap \<in> {ActiveSession, AwaitingReply}" by (simp add: ussd_ok_def)
  then show "sn_state snap = ActiveSession \<or> sn_state snap = AwaitingReply" by simp
  show "ussd_initiate env modem cmd (ussd_jobs env jobs (new_ussd w)) =
      (refused_result SessionBusy snap, ussd_jobs env jobs (new_ussd w))"
    by (rule initiate_on_open_refused [OF assms st])
  show "us_session (ussd_expire env (timer_fires (ussd_jobs env jobs (new_ussd w)))) = None"
    by (rule fire_and_expire [OF ok assms])
qed

definition asking_env :: "unit ussd_env" where
  "asking_env = \<lparr>ue_transport = (\<lambda>c w. (Inr [DNum 3], w)), ue_fetchTree = (\<lambda>w. (Inr [], w)),
                 ue_destination = ''mm'', ue_callTimeoutMs = 25000\<rparr>"

lemma asking_env_session:
  "us_session (ussd_jobs asking_env [JobInitiate ''m'' ''*100#''] (new_ussd ())) =
     Some \<lparr>sn_state = AwaitingReply, sn_outcome = None, sn_refusal = None\<rparr>"
  by code_simp

theorem ussd_open_session_is_bounded_witness:
  "us_session (ussd_expire asking_env (timer_fires (ussd_jobs asking_env [JobInitiate ''m'' ''*100#''] (new_ussd ())))) = None"
  using ussd_open_session_is_bounded [OF asking_env_session] by simp

text \<open>
  A timer that fires before a queued \<open>respond\<close> runs leaves its expiry behind: the expiry does not
  check that its timer is still the current one, so it closes the session the response just renewed.
\<close>

lemma stale_expiry_closes_renewed_session:
  "us_session (ussd_jobs asking_env [JobInitiate ''m'' ''*100#'', JobFire, JobRespond ''m'' ''1''] (new_ussd ())) =
     Some \<lparr>sn_state = AwaitingReply, sn_outcome = None, sn_refusal = None\<rparr> \<and>
   us_timer (ussd_jobs asking_env [JobInitiate ''m'' ''*100#'', JobFire, JobRespond ''m'' ''1''] (new_ussd ())) = Some ''m'' \<and>
   us_session (ussd_jobs asking_env [JobInitiate ''m'' ''*100#'', JobFire, JobRespond ''m'' ''1'', JobExpire] (new_ussd ())) = None"
  by code_simp

end
