(* ===== verification/Snapshot.thy ===== *)
theory Snapshot
  imports Domain_State
begin

text \<open>
  The snapshot of one modem (\<open>domain/snapshot.ts\<close>) and the guards of \<open>domain/guards.ts\<close>.
  Each check returns the first violated rule with its detail, \<open>checkSnapshot\<close> runs the six
  checks in order. \<open>possible_snapshot\<close> is the specification the guards implement, one line per
  rule; the main lemma is that the checks report nothing exactly when it holds. A run of
  transitions is the inductive relation \<open>snapshot_step\<close>.
\<close>

record snapshot =
  identity :: modem_identity
  presence :: presence
  sourceHealth :: source_health
  simSlots :: "sim_slot list"
  radioPower :: radio_power
  mmState :: mm_state
  registration :: registration
  nmActivation :: nm_activation
  dataInterface :: data_interface
  reconcileStatus :: reconcile_status
  recoveryState :: recovery_state
  revision :: int

fun reg_text :: "registration_status \<Rightarrow> string" where
  "reg_text RegIdle = ''idle''"
| "reg_text RegHome = ''home''"
| "reg_text RegSearching = ''searching''"
| "reg_text RegDenied = ''denied''"
| "reg_text RegUnknown = ''unknown''"
| "reg_text RegRoaming = ''roaming''"

fun mm_text :: "mm_state \<Rightarrow> string" where
  "mm_text MmFailed = ''failed''"
| "mm_text MmUnknown = ''unknown''"
| "mm_text MmInitializing = ''initializing''"
| "mm_text MmLocked = ''locked''"
| "mm_text MmDisabled = ''disabled''"
| "mm_text MmDisabling = ''disabling''"
| "mm_text MmEnabling = ''enabling''"
| "mm_text MmEnabled = ''enabled''"
| "mm_text MmSearching = ''searching''"
| "mm_text MmRegistered = ''registered''"
| "mm_text MmDisconnecting = ''disconnecting''"
| "mm_text MmConnecting = ''connecting''"
| "mm_text MmConnected = ''connected''"

fun lock_text :: "sim_lock \<Rightarrow> string" where
  "lock_text LockUnknown = ''unknown''"
| "lock_text LockNone = ''none''"
| "lock_text SimPin = ''sim-pin''"
| "lock_text SimPuk = ''sim-puk''"
| "lock_text SimPin2 = ''sim-pin2''"
| "lock_text SimPuk2 = ''sim-puk2''"
| "lock_text NetPers = ''net-pers''"
| "lock_text PermanentlyBlocked = ''permanently-blocked''"

fun stage_text :: "recovery_stage \<Rightarrow> string" where
  "stage_text StageIdle = ''idle''"
| "stage_text StageAttributing = ''attributing''"
| "stage_text StageNmCycle = ''nm-cycle''"
| "stage_text StageMmCycle = ''mm-cycle''"
| "stage_text StageReset = ''reset''"
| "stage_text StagePowerCycle = ''power-cycle''"
| "stage_text StageCooldown = ''cooldown''"
| "stage_text StageExhausted = ''exhausted''"

type_synonym violation = "(impossible_state_code \<times> string) option"

definition checkRegistration :: "snapshot \<Rightarrow> violation" where
  "checkRegistration s =
     (let status = reg_status (registration s); detail = ''status='' @ reg_text status in
      if \<not> isRegistered status then None
      else if presence s = Absent then Some (RegisteredWhileAbsent, detail)
      else if radioPower s = PowerOff then Some (RegisteredRadioOff, detail)
      else if reg_activeRats (registration s) = {} then Some (RegisteredEmptyRatSet, detail)
      else None)"

definition radioIsOnTheAir :: "snapshot \<Rightarrow> bool" where
  "radioIsOnTheAir s \<longleftrightarrow>
     mmState s \<in> MM_STATES_REQUIRING_RADIO \<or>
     reg_status (registration s) = RegSearching \<or>
     nmActivation s = NmActivating \<or>
     nmActivation s = NmActivated"

definition checkRadioAndPresence :: "snapshot \<Rightarrow> violation" where
  "checkRadioAndPresence s =
     (if mmState s \<in> MM_STATES_REQUIRING_RADIO \<and> presence s = Absent
      then Some (ActiveStateWhileAbsent, ''mmState='' @ mm_text (mmState s))
      else if radioPower s = PowerOff \<and> radioIsOnTheAir s
      then Some (RadioOffWhileActive, ''mmState='' @ mm_text (mmState s))
      else None)"

definition checkNmActivation :: "snapshot \<Rightarrow> violation" where
  "checkNmActivation s =
     (if nmActivation s \<noteq> NmActivated then None
      else if presence s = Absent then Some (NmActivatedWhileAbsent, ''nmActivation=activated'')
      else if \<not> di_present (dataInterface s) then Some (NmActivatedWithoutInterface, ''nmActivation=activated'')
      else if mmState s \<noteq> MmConnected
      then Some (NmActivatedWithoutMmConnected, ''mmState='' @ mm_text (mmState s))
      else None)"

text \<open>
  The loop of \<open>checkSimSlots\<close> with its two accumulators: \<open>Inl\<close> is the early return, \<open>Inr\<close> the
  values of \<open>activeCount\<close> and \<open>hasLockedCard\<close> after the loop.
\<close>

fun scan_slots :: "sim_slot list \<Rightarrow> nat \<Rightarrow> bool \<Rightarrow> (impossible_state_code \<times> string) + (nat \<times> bool)" where
  "scan_slots [] activeCount hasLockedCard = Inr (activeCount, hasLockedCard)"
| "scan_slots (slot # rest) activeCount hasLockedCard =
     (let activeCount' = (if slot_active slot then activeCount + 1 else activeCount) in
      if \<not> slot_occupied slot \<and> slot_lock slot \<in> SIM_LOCK_REQUIRES_CARD
      then Inl (LockedSimInEmptySlot,
                ''slot='' @ show_int (slot_index slot) @ '' lock='' @ lock_text (slot_lock slot))
      else scan_slots rest activeCount'
             (hasLockedCard \<or> (slot_occupied slot \<and> slot_lock slot \<in> SIM_LOCK_REQUIRES_CARD)))"

definition checkSimSlots :: "snapshot \<Rightarrow> violation" where
  "checkSimSlots s =
     (case scan_slots (simSlots s) 0 False of
        Inl v \<Rightarrow> Some v
      | Inr (activeCount, hasLockedCard) \<Rightarrow>
          if activeCount > 1 then Some (MultipleActiveSimSlots, ''active='' @ show_nat activeCount)
          else if mmState s = MmLocked \<and> \<not> hasLockedCard
          then Some (MmLockedWithoutSimLock, ''mmState=locked'')
          else None)"

definition checkDataInterface :: "snapshot \<Rightarrow> violation" where
  "checkDataInterface s =
     (case di_name (dataInterface s) of
        Some name \<Rightarrow> if \<not> di_present (dataInterface s)
                      then Some (DataInterfaceNameWithoutPresence, ''name='' @ name) else None
      | None \<Rightarrow> None)"

definition checkRecovery :: "snapshot \<Rightarrow> violation" where
  "checkRecovery s =
     (let stage = rec_stage (recoveryState s); attempts = rec_attempts (recoveryState s);
          cooldownUntil = rec_cooldownUntil (recoveryState s) in
      if \<not> isSafeInteger attempts \<or> attempts < 0
      then Some (RecoveryAttemptsNegative, ''attempts='' @ show_int attempts)
      else if (cooldownUntil \<noteq> None) \<noteq> (stage = StageCooldown)
      then Some (RecoveryCooldownStageMismatch, ''stage='' @ stage_text stage)
      else if stage = StageIdle \<and> attempts \<noteq> 0
      then Some (RecoveryIdleWithAttempts, ''attempts='' @ show_int attempts)
      else None)"

definition CHECKS :: "(snapshot \<Rightarrow> violation) list" where
  "CHECKS = [checkRegistration, checkRadioAndPresence, checkNmActivation, checkSimSlots,
             checkDataInterface, checkRecovery]"

fun first_violation :: "(snapshot \<Rightarrow> violation) list \<Rightarrow> snapshot \<Rightarrow> violation" where
  "first_violation [] s = None"
| "first_violation (check # rest) s =
     (case check s of None \<Rightarrow> first_violation rest s | Some v \<Rightarrow> Some v)"

definition checkSnapshot :: "snapshot \<Rightarrow> impossible_state_code option" where
  "checkSnapshot s = map_option fst (first_violation CHECKS s)"

definition assertSnapshot :: "snapshot \<Rightarrow> domain_error + unit" where
  "assertSnapshot s =
     (case first_violation CHECKS s of
        None \<Rightarrow> Inr ()
      | Some (code, detail) \<Rightarrow> Inl (ImpossibleStateError code detail))"

section \<open>Construction and transitions\<close>

definition make_revision :: "int \<Rightarrow> domain_error + int" where
  "make_revision value = nonNegativeInteger value ''revision''"

definition INITIAL_REVISION :: int where
  "INITIAL_REVISION = 0"

definition nextRevision :: "int \<Rightarrow> int" where
  "nextRevision current = current + 1"

text \<open>A \<open>SnapshotPatch\<close>: every field but the revision, each present or absent.\<close>

record snapshot_patch =
  p_identity :: "modem_identity option"
  p_presence :: "presence option"
  p_sourceHealth :: "source_health option"
  p_simSlots :: "sim_slot list option"
  p_radioPower :: "radio_power option"
  p_mmState :: "mm_state option"
  p_registration :: "registration option"
  p_nmActivation :: "nm_activation option"
  p_dataInterface :: "data_interface option"
  p_reconcileStatus :: "reconcile_status option"
  p_recoveryState :: "recovery_state option"

definition empty_patch :: snapshot_patch where
  "empty_patch =
     \<lparr>p_identity = None, p_presence = None, p_sourceHealth = None, p_simSlots = None,
      p_radioPower = None, p_mmState = None, p_registration = None, p_nmActivation = None,
      p_dataInterface = None, p_reconcileStatus = None, p_recoveryState = None\<rparr>"

definition or_else :: "'a option \<Rightarrow> 'a \<Rightarrow> 'a" where
  "or_else x d = (case x of Some v \<Rightarrow> v | None \<Rightarrow> d)"

definition patched :: "snapshot \<Rightarrow> snapshot_patch \<Rightarrow> snapshot" where
  "patched prev patch =
     \<lparr>identity = or_else (p_identity patch) (identity prev),
      presence = or_else (p_presence patch) (presence prev),
      sourceHealth = or_else (p_sourceHealth patch) (sourceHealth prev),
      simSlots = or_else (p_simSlots patch) (simSlots prev),
      radioPower = or_else (p_radioPower patch) (radioPower prev),
      mmState = or_else (p_mmState patch) (mmState prev),
      registration = or_else (p_registration patch) (registration prev),
      nmActivation = or_else (p_nmActivation patch) (nmActivation prev),
      dataInterface = or_else (p_dataInterface patch) (dataInterface prev),
      reconcileStatus = or_else (p_reconcileStatus patch) (reconcileStatus prev),
      recoveryState = or_else (p_recoveryState patch) (recoveryState prev),
      revision = nextRevision (revision prev)\<rparr>"

definition createSnapshot :: "snapshot \<Rightarrow> domain_error + snapshot" where
  "createSnapshot candidate = (case assertSnapshot candidate of Inl e \<Rightarrow> Inl e | Inr _ \<Rightarrow> Inr candidate)"

definition initialSnapshot :: "modem_identity \<Rightarrow> snapshot" where
  "initialSnapshot ident =
     \<lparr>identity = ident, presence = Absent, sourceHealth = Live, simSlots = [],
      radioPower = PowerUnknown, mmState = MmUnknown,
      registration = \<lparr>reg_status = RegUnknown, reg_activeRats = {}\<rparr>,
      nmActivation = NmUnavailable, dataInterface = \<lparr>di_present = False, di_name = None\<rparr>,
      reconcileStatus = PendingReconcile,
      recoveryState = \<lparr>rec_stage = StageIdle, rec_attempts = 0, rec_cooldownUntil = None\<rparr>,
      revision = INITIAL_REVISION\<rparr>"

definition applyTransition :: "snapshot \<Rightarrow> snapshot_patch \<Rightarrow> domain_error + snapshot" where
  "applyTransition prev patch =
     (let next = patched prev patch in
      case assertSnapshot next of Inl e \<Rightarrow> Inl e | Inr _ \<Rightarrow> Inr next)"

definition supersede :: "snapshot \<Rightarrow> snapshot \<Rightarrow> domain_error + snapshot" where
  "supersede prev next =
     (if revision next \<le> revision prev then Inl (RevisionMonotonicityError (revision prev) (revision next))
      else case assertSnapshot next of Inl e \<Rightarrow> Inl e | Inr _ \<Rightarrow> Inr next)"

definition markSourceUnavailable :: "snapshot \<Rightarrow> domain_error + snapshot" where
  "markSourceUnavailable prev =
     applyTransition prev (empty_patch\<lparr>p_sourceHealth := Some SourceUnavailable\<rparr>)"

section \<open>What the guards promise\<close>

text \<open>A SIM slot is locked when it holds a card that needs unlocking.\<close>

definition slot_locked :: "sim_slot \<Rightarrow> bool" where
  "slot_locked slot \<longleftrightarrow> slot_lock slot \<notin> {LockUnknown, LockNone}"

definition possible_snapshot :: "snapshot \<Rightarrow> bool" where
  "possible_snapshot s \<longleftrightarrow>
     (isRegistered (reg_status (registration s)) \<longrightarrow>
        presence s = Present \<and> radioPower s \<noteq> PowerOff \<and> reg_activeRats (registration s) \<noteq> {}) \<and>
     (mmState s \<in> MM_STATES_REQUIRING_RADIO \<longrightarrow> presence s = Present) \<and>
     (radioIsOnTheAir s \<longrightarrow> radioPower s \<noteq> PowerOff) \<and>
     (nmActivation s = NmActivated \<longrightarrow>
        presence s = Present \<and> di_present (dataInterface s) \<and> mmState s = MmConnected) \<and>
     (\<forall>slot \<in> set (simSlots s). slot_locked slot \<longrightarrow> slot_occupied slot) \<and>
     length (filter slot_active (simSlots s)) \<le> 1 \<and>
     (mmState s = MmLocked \<longrightarrow> (\<exists>slot \<in> set (simSlots s). slot_locked slot)) \<and>
     (di_name (dataInterface s) \<noteq> None \<longrightarrow> di_present (dataInterface s)) \<and>
     (0 \<le> rec_attempts (recoveryState s) \<and> rec_attempts (recoveryState s) \<le> MAX_SAFE_INTEGER) \<and>
     (rec_cooldownUntil (recoveryState s) \<noteq> None \<longleftrightarrow> rec_stage (recoveryState s) = StageCooldown) \<and>
     (rec_stage (recoveryState s) = StageIdle \<longrightarrow> rec_attempts (recoveryState s) = 0)"

lemma not_Present [simp]: "p \<noteq> Present \<longleftrightarrow> p = Absent"
  by (cases p) auto

lemma slot_locked_iff: "slot_locked slot \<longleftrightarrow> slot_lock slot \<in> SIM_LOCK_REQUIRES_CARD"
  by (cases "slot_lock slot") (auto simp: slot_locked_def SIM_LOCK_REQUIRES_CARD_def)

lemma scan_slots_Inr:
  "scan_slots slots n b = Inr r \<longleftrightarrow>
     (\<forall>slot \<in> set slots. slot_locked slot \<longrightarrow> slot_occupied slot) \<and>
     r = (n + length (filter slot_active slots),
          b \<or> (\<exists>slot \<in> set slots. slot_occupied slot \<and> slot_locked slot))"
  by (induction slots arbitrary: n b) (auto simp: Let_def slot_locked_iff)

lemma checkRegistration_None:
  "checkRegistration s = None \<longleftrightarrow>
     (isRegistered (reg_status (registration s)) \<longrightarrow>
        presence s = Present \<and> radioPower s \<noteq> PowerOff \<and> reg_activeRats (registration s) \<noteq> {})"
  by (cases "presence s") (auto simp: checkRegistration_def Let_def)

lemma checkRadioAndPresence_None:
  "checkRadioAndPresence s = None \<longleftrightarrow>
     (mmState s \<in> MM_STATES_REQUIRING_RADIO \<longrightarrow> presence s = Present) \<and>
     (radioIsOnTheAir s \<longrightarrow> radioPower s \<noteq> PowerOff)"
  by (cases "presence s") (auto simp: checkRadioAndPresence_def)

lemma checkNmActivation_None:
  "checkNmActivation s = None \<longleftrightarrow>
     (nmActivation s = NmActivated \<longrightarrow>
        presence s = Present \<and> di_present (dataInterface s) \<and> mmState s = MmConnected)"
  by (cases "presence s") (auto simp: checkNmActivation_def)

lemma checkSimSlots_None:
  "checkSimSlots s = None \<longleftrightarrow>
     (\<forall>slot \<in> set (simSlots s). slot_locked slot \<longrightarrow> slot_occupied slot) \<and>
     length (filter slot_active (simSlots s)) \<le> 1 \<and>
     (mmState s = MmLocked \<longrightarrow> (\<exists>slot \<in> set (simSlots s). slot_locked slot))"
proof (cases "\<forall>slot \<in> set (simSlots s). slot_locked slot \<longrightarrow> slot_occupied slot")
  case True
  then have eq: "scan_slots (simSlots s) 0 False =
      Inr (length (filter slot_active (simSlots s)), \<exists>slot \<in> set (simSlots s). slot_occupied slot \<and> slot_locked slot)"
    by (simp add: scan_slots_Inr)
  from True have ex: "(\<exists>slot \<in> set (simSlots s). slot_occupied slot \<and> slot_locked slot) \<longleftrightarrow>
      (\<exists>slot \<in> set (simSlots s). slot_locked slot)" by blast
  show ?thesis unfolding checkSimSlots_def eq ex using True by simp
next
  case False
  then obtain v where "scan_slots (simSlots s) 0 False = Inl v"
    using scan_slots_Inr [of "simSlots s" 0 False] by (cases "scan_slots (simSlots s) 0 False") auto
  with False show ?thesis unfolding checkSimSlots_def by simp
qed

lemma checkDataInterface_None:
  "checkDataInterface s = None \<longleftrightarrow> (di_name (dataInterface s) \<noteq> None \<longrightarrow> di_present (dataInterface s))"
  by (auto simp: checkDataInterface_def split: option.splits)

lemma checkRecovery_None:
  "checkRecovery s = None \<longleftrightarrow>
     (0 \<le> rec_attempts (recoveryState s) \<and> rec_attempts (recoveryState s) \<le> MAX_SAFE_INTEGER) \<and>
     (rec_cooldownUntil (recoveryState s) \<noteq> None \<longleftrightarrow> rec_stage (recoveryState s) = StageCooldown) \<and>
     (rec_stage (recoveryState s) = StageIdle \<longrightarrow> rec_attempts (recoveryState s) = 0)"
  by (auto simp: checkRecovery_def Let_def isSafeInteger_def)

lemmas checks_None = checkRegistration_None checkRadioAndPresence_None checkNmActivation_None
  checkSimSlots_None checkDataInterface_None checkRecovery_None

lemma first_violation_None: "first_violation cs s = None \<longleftrightarrow> (\<forall>c \<in> set cs. c s = None)"
  by (induction cs) (auto split: option.splits)

lemma first_violation_possible: "first_violation CHECKS s = None \<longleftrightarrow> possible_snapshot s"
  unfolding first_violation_None CHECKS_def possible_snapshot_def by (simp add: checks_None)

lemma assertSnapshot_ok: "possible_snapshot s \<Longrightarrow> assertSnapshot s = Inr ()"
  by (simp add: assertSnapshot_def first_violation_possible [symmetric])

lemma assertSnapshot_refused:
  "\<not> possible_snapshot s \<Longrightarrow>
     \<exists>code detail. first_violation CHECKS s = Some (code, detail) \<and>
                   assertSnapshot s = Inl (ImpossibleStateError code detail)"
  by (auto simp: assertSnapshot_def first_violation_possible [symmetric])

lemma assert_then_Inr:
  "(case assertSnapshot t of Inl e \<Rightarrow> Inl e | Inr _ \<Rightarrow> Inr t) = Inr s \<longleftrightarrow> s = t \<and> possible_snapshot t"
  using assertSnapshot_ok [of t] assertSnapshot_refused [of t] by (cases "possible_snapshot t") auto

lemma revision_patched [simp]: "revision (patched prev patch) = revision prev + 1"
  by (simp add: patched_def nextRevision_def)

lemma applyTransition_Inr:
  "applyTransition prev patch = Inr s \<longleftrightarrow> s = patched prev patch \<and> possible_snapshot s"
  by (auto simp: applyTransition_def Let_def assert_then_Inr)

lemma supersede_Inr:
  "supersede prev next = Inr s \<longleftrightarrow> s = next \<and> revision prev < revision next \<and> possible_snapshot next"
  by (auto simp: supersede_def assert_then_Inr)

lemma initialSnapshot_possible: "possible_snapshot (initialSnapshot ident)"
  by (simp add: possible_snapshot_def initialSnapshot_def isRegistered_def radioIsOnTheAir_def
      MM_STATES_REQUIRING_RADIO_def MAX_SAFE_INTEGER_def)

lemma possible_sourceHealth:
  "possible_snapshot (s\<lparr>sourceHealth := h, revision := r\<rparr>) \<longleftrightarrow> possible_snapshot s"
  by (simp add: possible_snapshot_def radioIsOnTheAir_def)

lemma patched_sourceUnavailable:
  "patched s (empty_patch\<lparr>p_sourceHealth := Some SourceUnavailable\<rparr>) =
     s\<lparr>sourceHealth := SourceUnavailable, revision := revision s + 1\<rparr>"
  by (simp add: patched_def empty_patch_def or_else_def nextRevision_def)

section \<open>Runs\<close>

text \<open>
  One published change of a modem's snapshot: a patch, a newer snapshot taking over, or the loss
  of the source.
\<close>

inductive snapshot_step :: "snapshot \<Rightarrow> snapshot \<Rightarrow> bool" where
  transition: "applyTransition s patch = Inr t \<Longrightarrow> snapshot_step s t"
| supersession: "supersede s n = Inr t \<Longrightarrow> snapshot_step s t"
| source_lost: "markSourceUnavailable s = Inr t \<Longrightarrow> snapshot_step s t"

inductive snapshot_run :: "snapshot \<Rightarrow> snapshot \<Rightarrow> nat \<Rightarrow> bool" where
  run_start: "snapshot_run (initialSnapshot ident) (initialSnapshot ident) 0"
| run_step: "snapshot_run s0 s n \<Longrightarrow> snapshot_step s t \<Longrightarrow> snapshot_run s0 t (Suc n)"

inductive_cases snapshot_stepE: "snapshot_step s t"

lemma snapshot_step_possible: "snapshot_step s t \<Longrightarrow> possible_snapshot t \<and> revision s < revision t"
  by (auto elim!: snapshot_stepE simp: applyTransition_Inr supersede_Inr markSourceUnavailable_def)

text \<open>C17: the guards accept a snapshot exactly when it satisfies the specification of a possible
  snapshot, and otherwise assertSnapshot throws the impossible-state error whose code
  checkSnapshot reports.\<close>

theorem guards_decide_possible_snapshots:
  "(checkSnapshot s = None \<longleftrightarrow> possible_snapshot s) \<and>
   (case checkSnapshot s of
      None \<Rightarrow> createSnapshot s = Inr s
    | Some code \<Rightarrow> \<exists>detail. createSnapshot s = Inl (ImpossibleStateError code detail))"
proof (cases "possible_snapshot s")
  case True
  then show ?thesis
    by (simp add: checkSnapshot_def createSnapshot_def assertSnapshot_ok first_violation_possible [THEN iffD2])
next
  case False
  from assertSnapshot_refused [OF this] False show ?thesis
    by (auto simp: checkSnapshot_def createSnapshot_def)
qed



text \<open>Losing the source never fails on a possible snapshot: it changes the source health and
  the revision and nothing else, so no stale guard can block the report of an outage.\<close>

theorem mark_source_unavailable_total:
  assumes "possible_snapshot s"
  shows "markSourceUnavailable s = Inr (s\<lparr>sourceHealth := SourceUnavailable, revision := revision s + 1\<rparr>)"
  using assms
  by (simp add: markSourceUnavailable_def applyTransition_Inr patched_sourceUnavailable possible_sourceHealth)

theorem mark_source_unavailable_total_witness:
  "\<exists>s. possible_snapshot s \<and>
     markSourceUnavailable s = Inr (s\<lparr>sourceHealth := SourceUnavailable, revision := revision s + 1\<rparr>)"
proof -
  define i :: modem_identity where
    "i = \<lparr>id_logicalSlotId = None, id_equipmentId = NoEquipment, id_subscriptionId = None,
          id_ownNumbers = None, id_runtimePath = ''/m/0''\<rparr>"
  show ?thesis
    by (rule exI [of _ "initialSnapshot i"])
       (rule conjI [OF initialSnapshot_possible mark_source_unavailable_total [OF initialSnapshot_possible]])
qed

end
