(* ===== verification/Mm_Mapping.thy ===== *)
theory Mm_Mapping
  imports Snapshot Managed_Objects
begin

text \<open>
  From a decoded ModemManager tree to the dimensions of a snapshot (\<open>backend/mapping.ts\<close>). A mapped
  modem is a snapshot without a revision: the field holds \<open>INITIAL_REVISION\<close> until the row store
  stamps it. The fingerprint is the object that the code prints as JSON, compared for equality only.
\<close>

fun mapMmState :: "int option \<Rightarrow> mm_state" where
  "mapMmState None = MmUnknown"
| "mapMmState (Some n) =
     (if n = -1 then MmFailed else if n = 1 then MmInitializing else if n = 2 then MmLocked
      else if n = 3 then MmDisabled else if n = 4 then MmDisabling else if n = 5 then MmEnabling
      else if n = 6 then MmEnabled else if n = 7 then MmSearching else if n = 8 then MmRegistered
      else if n = 9 then MmDisconnecting else if n = 10 then MmConnecting else if n = 11 then MmConnected
      else MmUnknown)"

fun mapRadioPower :: "int option \<Rightarrow> radio_power" where
  "mapRadioPower None = PowerUnknown"
| "mapRadioPower (Some n) =
     (if n = 1 then PowerOff else if n = 2 then PowerLow else if n = 3 then PowerOn else PowerUnknown)"

definition reconcilePower :: "radio_power \<Rightarrow> mm_state \<Rightarrow> radio_power" where
  "reconcilePower pw state =
     (let onTheAir = (state = MmEnabled \<or> state = MmSearching \<or> state = MmRegistered \<or>
                      state = MmConnecting \<or> state = MmConnected \<or> state = MmDisconnecting)
      in if onTheAir \<and> (pw = PowerUnknown \<or> pw = PowerOff) then PowerOn else pw)"

definition makeSubscriptionId :: "string \<Rightarrow> domain_error + string" where
  "makeSubscriptionId value = nonEmptyString value ''subscriptionId''"

definition makeSubscriberNumber :: "string \<Rightarrow> domain_error + string" where
  "makeSubscriberNumber value = nonEmptyString value ''subscriberNumber''"

definition readSubscriptionId :: "managed_objects \<Rightarrow> string \<Rightarrow> domain_error + string option" where
  "readSubscriptionId tree modemPath =
     (let modem = findInterface tree modemPath MODEM_IFACE;
          sim = followObjectPath tree modem ''Sim'' SIM_IFACE
      in case stringProp sim ''SimIdentifier'' of
           None \<Rightarrow> Inr None
         | Some iccid \<Rightarrow> if length iccid > 0 then sum_bind (makeSubscriptionId iccid) (\<lambda>s. Inr (Some s)) else Inr None)"

fun all_numbers :: "string list \<Rightarrow> domain_error + string list" where
  "all_numbers [] = Inr []"
| "all_numbers (v # vs) = sum_bind (makeSubscriberNumber v) (\<lambda>n. sum_bind (all_numbers vs) (\<lambda>ns. Inr (n # ns)))"

definition readOwnNumbers :: "decoded_props option \<Rightarrow> domain_error + string list option" where
  "readOwnNumbers modem =
     (case stringArrayProp modem ''OwnNumbers'' of
        None \<Rightarrow> Inr None
      | Some raw \<Rightarrow>
          sum_bind (all_numbers (filter (\<lambda>v. length v > 0) (map js_trim raw))) (\<lambda>numbers.
            Inr (if length numbers > 0 then Some numbers else None)))"

definition mapModem :: "managed_objects \<Rightarrow> string \<Rightarrow> domain_error + snapshot" where
  "mapModem tree modemPath =
     (let modem = findInterface tree modemPath MODEM_IFACE;
          mm_state = mapMmState (numberProp modem ''State'');
          radio = reconcilePower (mapRadioPower (numberProp modem ''PowerState'')) mm_state
      in sum_bind (readSubscriptionId tree modemPath) (\<lambda>sub.
         sum_bind (readOwnNumbers modem) (\<lambda>numbers.
         sum_bind (runtimePath modemPath) (\<lambda>path.
         Inr \<lparr>identity = \<lparr>id_logicalSlotId = None, id_equipmentId = imeiEquipmentId (equipment_of_tree modem (findInterface tree modemPath MODEM3GPP_IFACE)),
                id_subscriptionId = sub, id_ownNumbers = numbers, id_runtimePath = path\<rparr>,
              presence = Present, sourceHealth = Live, simSlots = [], radioPower = radio, mmState = mm_state,
              registration = \<lparr>reg_status = RegUnknown, reg_activeRats = {}\<rparr>,
              nmActivation = NmUnavailable, dataInterface = \<lparr>di_present = False, di_name = None\<rparr>,
              reconcileStatus = PendingReconcile,
              recoveryState = \<lparr>rec_stage = StageIdle, rec_attempts = 0, rec_cooldownUntil = None\<rparr>,
              revision = INITIAL_REVISION\<rparr>))))"

definition modemPaths :: "managed_objects \<Rightarrow> string list" where
  "modemPaths tree = pathsWithInterface tree MODEM_IFACE"

record modem_fingerprint =
  fp_id :: equipment_id
  fp_sub :: "string option"
  fp_own :: "string list option"
  fp_path :: string
  fp_presence :: presence
  fp_radioPower :: radio_power
  fp_mmState :: mm_state
  fp_registration :: registration
  fp_nmActivation :: nm_activation
  fp_dataInterface :: data_interface
  fp_reconcileStatus :: reconcile_status

definition fingerprint :: "snapshot \<Rightarrow> modem_fingerprint" where
  "fingerprint mapped =
     \<lparr>fp_id = id_equipmentId (identity mapped), fp_sub = id_subscriptionId (identity mapped),
      fp_own = id_ownNumbers (identity mapped), fp_path = id_runtimePath (identity mapped),
      fp_presence = presence mapped, fp_radioPower = radioPower mapped, fp_mmState = mmState mapped,
      fp_registration = registration mapped, fp_nmActivation = nmActivation mapped,
      fp_dataInterface = dataInterface mapped, fp_reconcileStatus = reconcileStatus mapped\<rparr>"

section \<open>The mapping never throws, and what it maps\<close>

lemma all_numbers_total: "\<forall>v \<in> set vs. v \<noteq> [] \<Longrightarrow> all_numbers vs = Inr vs"
  by (induction vs) (auto simp: makeSubscriberNumber_def nonEmptyString_def)

lemma readOwnNumbers_total: "\<exists>ns. readOwnNumbers modem = Inr ns"
  by (auto simp: readOwnNumbers_def all_numbers_total split: option.split)

lemma readSubscriptionId_total: "\<exists>s. readSubscriptionId tree path = Inr s"
  by (auto simp: readSubscriptionId_def Let_def makeSubscriptionId_def nonEmptyString_def split: option.split)

text \<open>The mapped modem, by its identity, radio power and state.\<close>

definition mapped_snapshot :: "modem_identity \<Rightarrow> radio_power \<Rightarrow> mm_state \<Rightarrow> snapshot" where
  "mapped_snapshot i pw st =
     \<lparr>identity = i, presence = Present, sourceHealth = Live, simSlots = [], radioPower = reconcilePower pw st,
      mmState = st, registration = \<lparr>reg_status = RegUnknown, reg_activeRats = {}\<rparr>,
      nmActivation = NmUnavailable, dataInterface = \<lparr>di_present = False, di_name = None\<rparr>,
      reconcileStatus = PendingReconcile,
      recoveryState = \<lparr>rec_stage = StageIdle, rec_attempts = 0, rec_cooldownUntil = None\<rparr>,
      revision = INITIAL_REVISION\<rparr>"

lemma mapModem_Inr:
  "mapModem tree path = Inr m \<longleftrightarrow>
     path \<noteq> [] \<and> (\<exists>sub numbers.
       readSubscriptionId tree path = Inr sub \<and>
       readOwnNumbers (findInterface tree path MODEM_IFACE) = Inr numbers \<and>
       m = mapped_snapshot
         \<lparr>id_logicalSlotId = None, id_equipmentId = imeiEquipmentId (equipment_of_tree (findInterface tree path MODEM_IFACE)
            (findInterface tree path MODEM3GPP_IFACE)), id_subscriptionId = sub, id_ownNumbers = numbers, id_runtimePath = path\<rparr>
         (mapRadioPower (numberProp (findInterface tree path MODEM_IFACE) ''PowerState''))
         (mapMmState (numberProp (findInterface tree path MODEM_IFACE) ''State'')))"
  unfolding mapModem_def Let_def sum_bind_Inr runtimePath_def nonEmptyString_def mapped_snapshot_def
  by auto

lemma mapModem_total: "path \<noteq> [] \<Longrightarrow> \<exists>m. mapModem tree path = Inr m"
  unfolding mapModem_Inr
  using readSubscriptionId_total [of tree path] readOwnNumbers_total [of "findInterface tree path MODEM_IFACE"] by blast

lemma mapModem_fields:
  assumes "mapModem tree path = Inr m"
  shows "path \<noteq> [] \<and> id_runtimePath (identity m) = path \<and> id_logicalSlotId (identity m) = None \<and> sourceHealth m = Live \<and>
    presence m = Present \<and> mmState m = mapMmState (numberProp (findInterface tree path MODEM_IFACE) ''State'')"
proof -
  from assms obtain i pw st where "path \<noteq> []" "m = mapped_snapshot i pw st" "id_runtimePath i = path"
      "id_logicalSlotId i = None" "st = mapMmState (numberProp (findInterface tree path MODEM_IFACE) ''State'')"
    unfolding mapModem_Inr by force
  then show ?thesis by (simp add: mapped_snapshot_def)
qed

lemma reconcilePower_on_air: "st \<in> MM_STATES_REQUIRING_RADIO \<Longrightarrow> reconcilePower pw st \<noteq> PowerOff"
  by (auto simp: reconcilePower_def Let_def MM_STATES_REQUIRING_RADIO_def)

text \<open>A mapped modem passes the guards unless it is locked: it lists no SIM slot, and a locked modem needs one.\<close>

lemma mapped_snapshot_possible:
  "possible_snapshot (mapped_snapshot i pw st\<lparr>revision := r\<rparr>) \<longleftrightarrow> st \<noteq> MmLocked"
proof -
  have "possible_snapshot (mapped_snapshot i pw st\<lparr>revision := r\<rparr>) \<longleftrightarrow>
      (st \<in> MM_STATES_REQUIRING_RADIO \<longrightarrow> reconcilePower pw st \<noteq> PowerOff) \<and> st \<noteq> MmLocked"
    by (simp add: possible_snapshot_def mapped_snapshot_def isRegistered_def radioIsOnTheAir_def MAX_SAFE_INTEGER_def)
  then show ?thesis using reconcilePower_on_air by blast
qed

lemma mapped_possible:
  assumes "mapModem tree path = Inr m"
  shows "possible_snapshot (m\<lparr>revision := r\<rparr>) \<longleftrightarrow> mmState m \<noteq> MmLocked"
proof -
  from assms obtain i pw st where m: "m = mapped_snapshot i pw st" unfolding mapModem_Inr by blast
  show ?thesis unfolding m mapped_snapshot_possible by (simp add: mapped_snapshot_def)
qed

lemma createSnapshot_Inr: "createSnapshot s = Inr t \<longleftrightarrow> t = s \<and> possible_snapshot s"
  by (auto simp: createSnapshot_def assert_then_Inr)

end
