(* ===== verification/Observer.thy ===== *)
theory Observer
  imports Mm_Mapping
begin

text \<open>
  The epoch-scoped ModemManager observer: its row bookkeeping (\<open>backend/row-store.ts\<close>) and its
  handlers (\<open>backend/observer.ts\<close> and \<open>backend/observer/\<close>). Each handler runs to its next \<open>await\<close>; what it
  waits for is a task, and the answer to a task is an event like a signal, so every order of
  answers and signals is a list of events. Listeners and the refresh hook only record what they
  are given (a hook that throws is swallowed by the code; a listener is assumed not to throw).
\<close>

section \<open>Rows\<close>

datatype failure_reason = NotStarted | SourceGone | BusError

datatype observation_list = ListOk "snapshot list" | ListFailed failure_reason "snapshot list"

record observed_row =
  or_snapshot :: snapshot
  or_fingerprint :: modem_fingerprint

type_synonym observed_rows = "(string \<times> observed_row) list"

record row_store =
  rs_rows :: observed_rows
  rs_revCounter :: int
  rs_sourceHealthy :: bool
  rs_failureReason :: failure_reason

definition new_row_store :: row_store where
  "new_row_store = \<lparr>rs_rows = [], rs_revCounter = 0, rs_sourceHealthy = False, rs_failureReason = NotStarted\<rparr>"

definition rows_upsert :: "string \<Rightarrow> snapshot \<Rightarrow> row_store \<Rightarrow> (domain_error + bool) \<times> row_store" where
  "rows_upsert path mapped s =
     (let fp = fingerprint mapped in
      if (case map_of (rs_rows s) path of
            Some existing \<Rightarrow> or_fingerprint existing = fp \<and> sourceHealth (or_snapshot existing) = Live
          | None \<Rightarrow> False)
      then (Inr False, s)
      else (let s1 = s\<lparr>rs_revCounter := rs_revCounter s + 1\<rparr> in
            case sum_bind (make_revision (rs_revCounter s1)) (\<lambda>r. createSnapshot (mapped\<lparr>revision := r\<rparr>)) of
              Inl e \<Rightarrow> (Inl e, s1)
            | Inr snap \<Rightarrow>
                (Inr True, s1\<lparr>rs_rows := AList.update path \<lparr>or_snapshot = snap, or_fingerprint = fp\<rparr> (rs_rows s1)\<rparr>)))"

fun upsert_all ::
  "managed_objects \<Rightarrow> string list \<Rightarrow> bool \<Rightarrow> row_store \<Rightarrow> (domain_error + bool) \<times> row_store" where
  "upsert_all tree [] changed s = (Inr changed, s)"
| "upsert_all tree (path # paths) changed s =
     (case mapModem tree path of
        Inl e \<Rightarrow> (Inl e, s)
      | Inr mapped \<Rightarrow>
          (case rows_upsert path mapped s of
             (Inl e, s1) \<Rightarrow> (Inl e, s1)
           | (Inr new, s1) \<Rightarrow> upsert_all tree paths (changed \<or> new) s1))"

definition rows_reconcile :: "managed_objects \<Rightarrow> row_store \<Rightarrow> (domain_error + bool) \<times> row_store" where
  "rows_reconcile tree s =
     (case upsert_all tree (modemPaths tree) False s of
        (Inl e, s1) \<Rightarrow> (Inl e, s1)
      | (Inr changed, s1) \<Rightarrow>
          (let seen = modemPaths tree;
               kept = filter (\<lambda>(path, _). path \<in> set seen) (rs_rows s1)
           in (Inr (changed \<or> length kept \<noteq> length (rs_rows s1)), s1\<lparr>rs_rows := kept\<rparr>)))"

definition rows_markHealthy :: "row_store \<Rightarrow> bool \<times> row_store" where
  "rows_markHealthy s = (\<not> rs_sourceHealthy s, s\<lparr>rs_sourceHealthy := True\<rparr>)"

fun mark_rows :: "observed_rows \<Rightarrow> (domain_error + bool) \<times> observed_rows" where
  "mark_rows [] = (Inr False, [])"
| "mark_rows ((path, row) # rows) =
     (if sourceHealth (or_snapshot row) = SourceUnavailable
      then (case mark_rows rows of (r, rows') \<Rightarrow> (r, (path, row) # rows'))
      else (case markSourceUnavailable (or_snapshot row) of
              Inl e \<Rightarrow> (Inl e, (path, row) # rows)
            | Inr snap \<Rightarrow>
                (case mark_rows rows of
                   (Inl e, rows') \<Rightarrow> (Inl e, (path, row\<lparr>or_snapshot := snap\<rparr>) # rows')
                 | (Inr _, rows') \<Rightarrow> (Inr True, (path, row\<lparr>or_snapshot := snap\<rparr>) # rows'))))"

definition rows_markUnavailable :: "failure_reason \<Rightarrow> row_store \<Rightarrow> (domain_error + bool) \<times> row_store" where
  "rows_markUnavailable reason s =
     (case mark_rows (rs_rows s) of
        (Inl e, rows) \<Rightarrow> (Inl e, s\<lparr>rs_rows := rows\<rparr>)
      | (Inr changed, rows) \<Rightarrow>
          (Inr (changed \<or> rs_sourceHealthy s),
           s\<lparr>rs_rows := rows, rs_sourceHealthy := False, rs_failureReason := reason\<rparr>))"

definition rows_list :: "row_store \<Rightarrow> observation_list" where
  "rows_list s =
     (let rows = map (\<lambda>(_, row). or_snapshot row) (rs_rows s) in
      if rs_sourceHealthy s then ListOk rows else ListFailed (rs_failureReason s) rows)"

section \<open>The observer\<close>

text \<open>
  What a handler waits for: the connection and subscriptions of \<open>start\<close>, the owner of the bus name,
  a tree read for an epoch (the flag: on behalf of \<open>start\<close>), the end of the subscriptions.
\<close>

datatype observer_task = Connecting | OwnerQuery bool | TreeRead string bool | Unsubscribing

record observer =
  ob_store :: row_store
  ob_listeners :: "nat list"
  ob_currentOwner :: "string option"
  ob_started :: bool
  ob_stopped :: bool
  ob_priming :: bool
  ob_refreshDuringPrime :: bool
  ob_refreshing :: bool
  ob_refreshQueued :: bool
  ob_tasks :: "observer_task list"
  ob_emitted :: "(nat \<times> observation_list) list"
  ob_hooked :: "(string \<times> managed_objects) list"

definition new_observer :: observer where
  "new_observer = \<lparr>ob_store = new_row_store, ob_listeners = [], ob_currentOwner = None, ob_started = False,
     ob_stopped = False, ob_priming = False, ob_refreshDuringPrime = False, ob_refreshing = False,
     ob_refreshQueued = False, ob_tasks = [], ob_emitted = [], ob_hooked = []\<rparr>"

record signal_event =
  se_sender :: "string option"
  se_body :: "dbus_value list"

datatype owner_signal = Unrelated | OwnerLost | Owned string

definition routeOwnerSignal :: "signal_event \<Rightarrow> owner_signal" where
  "routeOwnerSignal event =
     (if length (se_body event) = 0 \<or> se_body event ! 0 \<noteq> DStr MM_BUS_NAME then Unrelated
      else case (if length (se_body event) > 2 then se_body event ! 2 else DArr []) of
             DStr (c # cs) \<Rightarrow> Owned (c # cs)
           | _ \<Rightarrow> OwnerLost)"

definition isCurrentOwnerSignal :: "signal_event \<Rightarrow> string option \<Rightarrow> bool" where
  "isCurrentOwnerSignal event currentOwner \<longleftrightarrow> currentOwner \<noteq> None \<and> se_sender event = currentOwner"

text \<open>\<open>GetNameOwner\<close>: a rejected call is no owner.\<close>

definition queryModemManagerOwner :: "dbus_value list option \<Rightarrow> string option" where
  "queryModemManagerOwner reply =
     (case reply of Some (DStr (c # cs) # _) \<Rightarrow> Some (c # cs) | _ \<Rightarrow> None)"

text \<open>\<open>GetManagedObjects\<close>: a rejected call, a payload that is not an array, or a tree.\<close>

datatype tree_reply = CallRejected | NotAnArray | ManagedTree managed_objects

fun readAuthoritativeTree :: "tree_reply \<Rightarrow> string + managed_objects" where
  "readAuthoritativeTree CallRejected = Inl ''rejected''"
| "readAuthoritativeTree NotAnArray = Inl ''managed-objects payload is not an array''"
| "readAuthoritativeTree (ManagedTree tree) = Inr tree"

definition ob_emit :: "observer \<Rightarrow> observer" where
  "ob_emit s = s\<lparr>ob_emitted := ob_emitted s @ map (\<lambda>l. (l, rows_list (ob_store s))) (ob_listeners s)\<rparr>"

definition ob_markUnavailable :: "failure_reason \<Rightarrow> observer \<Rightarrow> (domain_error + unit) \<times> observer" where
  "ob_markUnavailable reason s =
     (case rows_markUnavailable reason (ob_store s) of
        (Inl e, st) \<Rightarrow> (Inl e, s\<lparr>ob_store := st\<rparr>)
      | (Inr due, st) \<Rightarrow> (Inr (), if due then ob_emit (s\<lparr>ob_store := st\<rparr>) else s\<lparr>ob_store := st\<rparr>))"

definition handleSourceGone :: "failure_reason \<Rightarrow> observer \<Rightarrow> (domain_error + unit) \<times> observer" where
  "handleSourceGone reason s = ob_markUnavailable reason (s\<lparr>ob_currentOwner := None\<rparr>)"

text \<open>\<open>runRefresh\<close> up to its \<open>await\<close>.\<close>

definition begin_refresh :: "string \<Rightarrow> bool \<Rightarrow> observer \<Rightarrow> observer" where
  "begin_refresh epochOwner starting s =
     s\<lparr>ob_refreshing := True, ob_tasks := ob_tasks s @ [TreeRead epochOwner starting]\<rparr>"

definition scheduleRefresh :: "observer \<Rightarrow> observer" where
  "scheduleRefresh s =
     (case ob_currentOwner s of
        None \<Rightarrow> s
      | Some owner \<Rightarrow>
          if ob_stopped s then s
          else if ob_refreshing s then s\<lparr>ob_refreshQueued := True\<rparr>
          else begin_refresh owner False s)"

definition finish_start :: "observer \<Rightarrow> observer" where
  "finish_start s =
     (let s1 = s\<lparr>ob_priming := False\<rparr> in
      if ob_refreshDuringPrime s1 then scheduleRefresh (s1\<lparr>ob_refreshDuringPrime := False\<rparr>) else s1)"

text \<open>\<open>runRefresh\<close> after its \<open>await\<close>: the body, the handler of its \<open>catch\<close>, its \<open>finally\<close>.\<close>

definition refresh_caught :: "string \<Rightarrow> observer \<Rightarrow> (domain_error + unit) \<times> observer" where
  "refresh_caught epochOwner s =
     (if ob_currentOwner s = Some epochOwner \<and> \<not> ob_stopped s then ob_markUnavailable BusError s else (Inr (), s))"

definition refresh_body :: "string \<Rightarrow> tree_reply \<Rightarrow> observer \<Rightarrow> (domain_error + unit) \<times> observer" where
  "refresh_body epochOwner reply s =
     (case readAuthoritativeTree reply of
        Inl _ \<Rightarrow> refresh_caught epochOwner s
      | Inr tree \<Rightarrow>
          if ob_currentOwner s \<noteq> Some epochOwner \<or> ob_stopped s then (Inr (), s)
          else (case rows_reconcile tree (ob_store s) of
                  (Inl e, st) \<Rightarrow> refresh_caught epochOwner (s\<lparr>ob_store := st\<rparr>)
                | (Inr rowsChanged, st) \<Rightarrow>
                    (case rows_markHealthy st of (healthChanged, st1) \<Rightarrow>
                       (let s1 = s\<lparr>ob_store := st1, ob_hooked := ob_hooked s @ [(epochOwner, tree)]\<rparr>
                        in (Inr (), if rowsChanged \<or> healthChanged then ob_emit s1 else s1)))))"

definition refresh_finally :: "observer \<Rightarrow> observer" where
  "refresh_finally s =
     (let s1 = s\<lparr>ob_refreshing := False\<rparr> in
      if ob_refreshQueued s1 \<and> \<not> ob_stopped s1 then scheduleRefresh (s1\<lparr>ob_refreshQueued := False\<rparr>) else s1)"

definition onTreeReply :: "string \<Rightarrow> bool \<Rightarrow> tree_reply \<Rightarrow> observer \<Rightarrow> observer" where
  "onTreeReply epochOwner starting reply s =
     (case refresh_body epochOwner reply s of
        (r, s1) \<Rightarrow> let s2 = refresh_finally s1 in if starting \<and> \<not> isl r then finish_start s2 else s2)"

text \<open>\<open>adoptCurrentOwner\<close> after the owner is known.\<close>

definition onOwnerReply :: "bool \<Rightarrow> string option \<Rightarrow> observer \<Rightarrow> observer" where
  "onOwnerReply starting owner s =
     (case owner of
        None \<Rightarrow> (case handleSourceGone SourceGone s of
                   (r, s1) \<Rightarrow> if starting \<and> \<not> isl r then finish_start s1 else s1)
      | Some name \<Rightarrow> begin_refresh name starting (s\<lparr>ob_currentOwner := Some name\<rparr>))"

definition onNameOwnerChanged :: "signal_event \<Rightarrow> observer \<Rightarrow> observer" where
  "onNameOwnerChanged event s =
     (case routeOwnerSignal event of
        Unrelated \<Rightarrow> s
      | OwnerLost \<Rightarrow> snd (handleSourceGone SourceGone s)
      | Owned owner \<Rightarrow>
          if Some owner = ob_currentOwner s then s
          else (case ob_markUnavailable SourceGone s of
                  (Inl e, s1) \<Rightarrow> s1
                | (Inr _, s1) \<Rightarrow> scheduleRefresh (s1\<lparr>ob_currentOwner := Some owner\<rparr>)))"

definition onObjectSignal :: "signal_event \<Rightarrow> observer \<Rightarrow> observer" where
  "onObjectSignal event s =
     (if \<not> isCurrentOwnerSignal event (ob_currentOwner s) then s
      else if ob_priming s then s\<lparr>ob_refreshDuringPrime := True\<rparr>
      else scheduleRefresh s)"

definition ob_start :: "observer \<Rightarrow> observer" where
  "ob_start s =
     (if ob_started s then s
      else s\<lparr>ob_started := True, ob_priming := True, ob_tasks := ob_tasks s @ [Connecting]\<rparr>)"

definition ob_stop :: "observer \<Rightarrow> observer" where
  "ob_stop s = (if ob_stopped s then s else s\<lparr>ob_stopped := True, ob_tasks := ob_tasks s @ [Unsubscribing]\<rparr>)"

definition ob_observe :: "nat \<Rightarrow> observer \<Rightarrow> observer" where
  "ob_observe l s = (if l \<in> set (ob_listeners s) then s else s\<lparr>ob_listeners := ob_listeners s @ [l]\<rparr>)"

section \<open>Events\<close>

datatype observer_event =
    EvStart | EvConnected bool | EvOwnerReply bool "dbus_value list option" | EvTreeReply string bool tree_reply
  | EvUnsubscribed | EvNameOwnerChanged signal_event | EvObjectSignal signal_event
  | EvDisconnected | EvReconnected | EvStop | EvObserve nat | EvUnobserve nat

definition answered :: "observer_task \<Rightarrow> (observer \<Rightarrow> observer) \<Rightarrow> observer \<Rightarrow> observer" where
  "answered t k s = (if t \<in> set (ob_tasks s) then k (s\<lparr>ob_tasks := remove1 t (ob_tasks s)\<rparr>) else s)"

fun observer_step :: "observer_event \<Rightarrow> observer \<Rightarrow> observer" where
  "observer_step EvStart s = ob_start s"
| "observer_step (EvConnected ok) s =
     answered Connecting (\<lambda>s1. if ok then s1\<lparr>ob_tasks := ob_tasks s1 @ [OwnerQuery True]\<rparr> else s1) s"
| "observer_step (EvOwnerReply starting reply) s =
     answered (OwnerQuery starting) (onOwnerReply starting (queryModemManagerOwner reply)) s"
| "observer_step (EvTreeReply owner starting reply) s =
     answered (TreeRead owner starting) (onTreeReply owner starting reply) s"
| "observer_step EvUnsubscribed s = answered Unsubscribing (\<lambda>s1. s1\<lparr>ob_listeners := []\<rparr>) s"
| "observer_step (EvNameOwnerChanged event) s = onNameOwnerChanged event s"
| "observer_step (EvObjectSignal event) s = onObjectSignal event s"
| "observer_step EvDisconnected s = snd (handleSourceGone SourceGone s)"
| "observer_step EvReconnected s = s\<lparr>ob_tasks := ob_tasks s @ [OwnerQuery False]\<rparr>"
| "observer_step EvStop s = ob_stop s"
| "observer_step (EvObserve l) s = ob_observe l s"
| "observer_step (EvUnobserve l) s = s\<lparr>ob_listeners := removeAll l (ob_listeners s)\<rparr>"

definition observer_after :: "observer_event list \<Rightarrow> observer" where
  "observer_after events = fold observer_step events new_observer"

end
