(* ===== verification/Observer_Rows.thy ===== *)
theory Observer_Rows
  imports Observer
begin

text \<open>
  The rows of the observer: what a row keeps, what losing the source does to it, and what a
  reconcile with a tree leaves, whether it throws or runs to the end.
\<close>

section \<open>What the rows keep\<close>

declare map_of_eq_Some_iff [simp del]

definition row_ok :: "string \<Rightarrow> observed_row \<Rightarrow> bool" where
  "row_ok path row \<longleftrightarrow> path \<noteq> [] \<and> possible_snapshot (or_snapshot row) \<and> simSlots (or_snapshot row) = [] \<and>
     id_runtimePath (identity (or_snapshot row)) = path \<and> or_fingerprint row = fingerprint (or_snapshot row) \<and>
     sourceHealth (or_snapshot row) \<in> {Live, SourceUnavailable}"

definition rows_ok :: "observed_rows \<Rightarrow> bool" where
  "rows_ok rows \<longleftrightarrow> distinct (map fst rows) \<and> (\<forall>path row. map_of rows path = Some row \<longrightarrow> row_ok path row)"

definition row_live :: "observed_row \<Rightarrow> bool" where
  "row_live row \<longleftrightarrow> sourceHealth (or_snapshot row) = Live"

definition all_rows :: "(observed_row \<Rightarrow> bool) \<Rightarrow> observed_rows \<Rightarrow> bool" where
  "all_rows P rows \<longleftrightarrow> (\<forall>path row. map_of rows path = Some row \<longrightarrow> P row)"

definition store_ok :: "row_store \<Rightarrow> bool" where
  "store_ok s \<longleftrightarrow> rows_ok (rs_rows s) \<and> 0 \<le> rs_revCounter s \<and>
     (if rs_sourceHealthy s then all_rows row_live (rs_rows s)
      else all_rows (\<lambda>row. sourceHealth (or_snapshot row) = SourceUnavailable) (rs_rows s))"

text \<open>A row whose source is gone: the facts stay, the health and the revision change.\<close>

definition stale_row :: "observed_row \<Rightarrow> observed_row" where
  "stale_row row =
     (if sourceHealth (or_snapshot row) = SourceUnavailable then row
      else row\<lparr>or_snapshot := (or_snapshot row)\<lparr>sourceHealth := SourceUnavailable,
              revision := revision (or_snapshot row) + 1\<rparr>\<rparr>)"

lemma markSourceUnavailable_possible:
  "possible_snapshot s \<Longrightarrow>
     markSourceUnavailable s = Inr (s\<lparr>sourceHealth := SourceUnavailable, revision := revision s + 1\<rparr>)"
  by (simp add: markSourceUnavailable_def applyTransition_Inr patched_sourceUnavailable possible_sourceHealth)

lemma mark_rows_possible:
  "\<forall>(path, row) \<in> set rows. possible_snapshot (or_snapshot row) \<Longrightarrow>
     mark_rows rows = (Inr (\<exists>(path, row) \<in> set rows. sourceHealth (or_snapshot row) \<noteq> SourceUnavailable),
                       map (\<lambda>(path, row). (path, stale_row row)) rows)"
  by (induction rows rule: mark_rows.induct)
     (auto simp: markSourceUnavailable_possible stale_row_def split: prod.splits sum.splits)

lemma fingerprint_frame [simp]: "fingerprint (s\<lparr>sourceHealth := h, revision := r\<rparr>) = fingerprint s"
  by (simp add: fingerprint_def)

lemma row_ok_stale: "row_ok path row \<Longrightarrow> row_ok path (stale_row row)"
  by (auto simp: row_ok_def stale_row_def possible_sourceHealth)

lemma map_of_rows: "map_of (map (\<lambda>(path, row). (path, f row)) rows) path = map_option f (map_of rows path)"
  by (induction rows) auto

lemma keys_of_rows: "map fst (map (\<lambda>(path, row). (path, f row)) rows) = map fst rows"
  by (induction rows) auto

lemma stale_row_gone: "sourceHealth (or_snapshot (stale_row row)) = SourceUnavailable"
  by (simp add: stale_row_def)

lemma rows_ok_stale: "rows_ok rows \<Longrightarrow> rows_ok (map (\<lambda>(path, row). (path, stale_row row)) rows)"
  unfolding rows_ok_def map_of_rows keys_of_rows using row_ok_stale by auto

lemma rows_markUnavailable_ok:
  assumes "rows_ok (rs_rows s)" and "0 \<le> rs_revCounter s"
  obtains due s' where "rows_markUnavailable reason s = (Inr due, s')" and "store_ok s'"
    and "rs_rows s' = map (\<lambda>(path, row). (path, stale_row row)) (rs_rows s)"
    and "\<not> rs_sourceHealthy s'" and "rs_failureReason s' = reason" and "rs_revCounter s' = rs_revCounter s"
proof -
  have "\<forall>(path, row) \<in> set (rs_rows s). possible_snapshot (or_snapshot row)"
    using assms(1) map_of_is_SomeI unfolding rows_ok_def row_ok_def by fast
  note mark = mark_rows_possible [OF this]
  have "all_rows (\<lambda>row. sourceHealth (or_snapshot row) = SourceUnavailable)
      (map (\<lambda>(path, row). (path, stale_row row)) (rs_rows s))"
    unfolding all_rows_def map_of_rows using stale_row_gone by auto
  with rows_ok_stale [OF assms(1)] assms(2) show ?thesis
    by (intro that [where s' = "s\<lparr>rs_rows := map (\<lambda>(path, row). (path, stale_row row)) (rs_rows s),
          rs_sourceHealthy := False, rs_failureReason := reason\<rparr>"])
       (simp_all add: rows_markUnavailable_def mark store_ok_def)
qed

section \<open>What a reconcile does\<close>

text \<open>A locked modem never passes, any other mapped modem does while the revision is a safe integer.\<close>

lemma row_ok_unlocked: "row_ok path row \<Longrightarrow> mmState (or_snapshot row) \<noteq> MmLocked"
  by (auto simp: row_ok_def possible_snapshot_def)

lemma fingerprint_state: "fingerprint s = fingerprint t \<Longrightarrow> mmState s = mmState t"
  by (simp add: fingerprint_def)

lemma row_ok_mapped:
  assumes "mapModem tree path = Inr m" and "mmState m \<noteq> MmLocked"
  shows "row_ok path \<lparr>or_snapshot = m\<lparr>revision := r\<rparr>, or_fingerprint = fingerprint m\<rparr>"
proof -
  have "simSlots m = []" using assms(1) by (auto simp: mapModem_Inr mapped_snapshot_def)
  with mapModem_fields [OF assms(1)] assms mapped_possible [OF assms(1)] show ?thesis
    by (simp add: row_ok_def fingerprint_def)
qed

lemma rows_ok_update:
  "rows_ok rows \<Longrightarrow> row_ok path row \<Longrightarrow> rows_ok (AList.update path row rows)"
  by (auto simp: rows_ok_def distinct_keys_set map_get_set)

lemma rows_upsert_ok:
  assumes ok: "rows_ok (rs_rows s)" and m: "mapModem tree path = Inr m"
  shows "case rows_upsert path m s of
      (Inl e, s') \<Rightarrow> rs_rows s' = rs_rows s \<and> rs_sourceHealthy s' = rs_sourceHealthy s \<and>
        rs_revCounter s \<le> rs_revCounter s'
    | (Inr new, s') \<Rightarrow> rs_revCounter s \<le> rs_revCounter s' \<and> rows_ok (rs_rows s') \<and> (\<exists>row. map_of (rs_rows s') path = Some row \<and> row_live row) \<and>
        (\<forall>p. p \<noteq> path \<longrightarrow> map_of (rs_rows s') p = map_of (rs_rows s) p) \<and>
        rs_sourceHealthy s' = rs_sourceHealthy s \<and> mmState m \<noteq> MmLocked"
proof (cases "\<exists>row. map_of (rs_rows s) path = Some row \<and> or_fingerprint row = fingerprint m \<and> row_live row")
  case True
  then obtain row where row: "map_of (rs_rows s) path = Some row" "or_fingerprint row = fingerprint m" "row_live row"
    by blast
  with ok have rok: "row_ok path row" by (simp add: rows_ok_def)
  with row(2) have "mmState m = mmState (or_snapshot row)" by (intro fingerprint_state) (simp add: row_ok_def)
  with row_ok_unlocked [OF rok] row ok show ?thesis by (simp add: rows_upsert_def row_live_def)
next
  case False
  then have miss: "\<not> (case map_of (rs_rows s) path of
      Some existing \<Rightarrow> or_fingerprint existing = fingerprint m \<and> sourceHealth (or_snapshot existing) = Live
    | None \<Rightarrow> False)"
    by (auto simp: row_live_def split: option.splits)
  let ?made = "sum_bind (make_revision (rs_revCounter s + 1)) (\<lambda>r. createSnapshot (m\<lparr>revision := r\<rparr>))"
  show ?thesis
  proof (cases ?made)
    case (Inl e)
    with miss show ?thesis by (simp add: rows_upsert_def Let_def)
  next
    case (Inr snap)
    then obtain r where snap: "snap = m\<lparr>revision := r\<rparr>" "possible_snapshot (m\<lparr>revision := r\<rparr>)"
      by (auto simp: sum_bind_Inr createSnapshot_Inr)
    then have unlocked: "mmState m \<noteq> MmLocked" using mapped_possible [OF m] by blast
    have live: "sourceHealth m = Live" using mapModem_fields [OF m] by blast
    from miss Inr rows_ok_update [OF ok row_ok_mapped [OF m unlocked]] unlocked live show ?thesis
      by (simp add: rows_upsert_def Let_def snap map_get_set row_live_def)
  qed
qed

text \<open>The loop over the paths: a throw leaves sound rows and loses none, a full pass leaves a live row for each path.\<close>

definition live_at :: "string \<Rightarrow> row_store \<Rightarrow> bool" where
  "live_at path s \<longleftrightarrow> (\<exists>row. map_of (rs_rows s) path = Some row \<and> row_live row)"

definition locked_at :: "managed_objects \<Rightarrow> string \<Rightarrow> bool" where
  "locked_at tree path \<longleftrightarrow> mapMmState (numberProp (findInterface tree path MODEM_IFACE) ''State'') = MmLocked"

lemma rows_upsert_frame:
  assumes "rows_ok (rs_rows s)" and "mapModem tree path = Inr m" and "rows_upsert path m s = (r, s')"
  shows "rows_ok (rs_rows s') \<and> rs_revCounter s \<le> rs_revCounter s' \<and> rs_sourceHealthy s' = rs_sourceHealthy s \<and>
    (\<forall>p. map_of (rs_rows s) p \<noteq> None \<longrightarrow> map_of (rs_rows s') p \<noteq> None) \<and>
    (\<forall>p. live_at p s \<longrightarrow> live_at p s') \<and>
    (\<not> isl r \<longrightarrow> live_at path s' \<and> \<not> locked_at tree path \<and>
       (\<forall>p. p \<noteq> path \<longrightarrow> map_of (rs_rows s') p = map_of (rs_rows s) p))"
proof (cases r)
  case (Inl e)
  then show ?thesis using rows_upsert_ok [OF assms(1,2)] assms(1,3) by (simp add: live_at_def)
next
  case (Inr new)
  with rows_upsert_ok [OF assms(1,2)] assms(3)
  have out: "rows_ok (rs_rows s')" "rs_revCounter s \<le> rs_revCounter s'" "live_at path s'" "rs_sourceHealthy s' = rs_sourceHealthy s" "mmState m \<noteq> MmLocked"
    and other: "\<And>p. p \<noteq> path \<Longrightarrow> map_of (rs_rows s') p = map_of (rs_rows s) p"
    by (simp_all add: live_at_def)
  have "map_of (rs_rows s') p \<noteq> None" if "map_of (rs_rows s) p \<noteq> None" for p
    using that other [of p] out(3) by (cases "p = path") (auto simp: live_at_def)
  moreover have "live_at p s'" if "live_at p s" for p
    using that other [of p] out(3) by (cases "p = path") (auto simp: live_at_def)
  moreover have "\<not> locked_at tree path" using out(5) mapModem_fields [OF assms(2)] by (simp add: locked_at_def)
  ultimately show ?thesis using out other by simp
qed

lemma upsert_all_ok:
  assumes "rows_ok (rs_rows s)" and "upsert_all tree paths changed s = (r, s')"
  shows "rows_ok (rs_rows s') \<and> rs_revCounter s \<le> rs_revCounter s' \<and> rs_sourceHealthy s' = rs_sourceHealthy s \<and>
    (\<forall>p. map_of (rs_rows s) p \<noteq> None \<longrightarrow> map_of (rs_rows s') p \<noteq> None) \<and>
    (\<forall>p. live_at p s \<longrightarrow> live_at p s') \<and>
    (\<not> isl r \<longrightarrow> (\<forall>p \<in> set paths. live_at p s' \<and> \<not> locked_at tree p))"
  using assms
proof (induction paths arbitrary: changed s)
  case (Cons path paths)
  show ?case
  proof (cases "mapModem tree path")
    case (Inl e)
    then show ?thesis using Cons.prems by auto
  next
    case (Inr m)
    obtain r1 s1 where up: "rows_upsert path m s = (r1, s1)" by fastforce
    note frame = rows_upsert_frame [OF Cons.prems(1) Inr up]
    show ?thesis
    proof (cases r1)
      case (Inl e)
      then show ?thesis using Cons.prems(2) up \<open>mapModem tree path = Inr m\<close> frame by auto
    next
      case (Inr new)
      then have "upsert_all tree paths (changed \<or> new) s1 = (r, s')"
        using Cons.prems(2) up \<open>mapModem tree path = Inr m\<close> by simp
      from Cons.IH [OF _ this] frame Inr show ?thesis by simp
    qed
  qed
qed simp

lemma rows_reconcile_thrown:
  assumes "rows_ok (rs_rows s)" and "rows_reconcile tree s = (Inl e, s')"
  shows "rows_ok (rs_rows s') \<and> rs_revCounter s \<le> rs_revCounter s' \<and>
    (\<forall>p. map_of (rs_rows s) p \<noteq> None \<longrightarrow> map_of (rs_rows s') p \<noteq> None)"
  using assms upsert_all_ok [OF assms(1)]
  by (fastforce simp: rows_reconcile_def Let_def split: prod.splits sum.splits)

lemma map_of_filter_keys: "map_of (filter (\<lambda>(k, _). P k) m) k = (if P k then map_of m k else None)"
  by (induction m) auto

lemma distinct_keys_filter: "distinct (map fst m) \<Longrightarrow> distinct (map fst (filter P m))"
  by (induction m) auto

lemma rows_reconcile_done:
  assumes "rows_ok (rs_rows s)" and "rows_reconcile tree s = (Inr c, s')"
  shows "rows_ok (rs_rows s') \<and> rs_revCounter s \<le> rs_revCounter s' \<and> all_rows row_live (rs_rows s') \<and>
    (\<forall>p. map_of (rs_rows s') p \<noteq> None \<longleftrightarrow> p \<in> set (modemPaths tree)) \<and>
    (\<forall>p \<in> set (modemPaths tree). \<not> locked_at tree p)"
proof -
  obtain r s1 where up: "upsert_all tree (modemPaths tree) False s = (r, s1)" by fastforce
  with assms(2) obtain changed where r: "r = Inr changed"
      and s': "s' = s1\<lparr>rs_rows := filter (\<lambda>(path, _). path \<in> set (modemPaths tree)) (rs_rows s1)\<rparr>"
    by (cases r) (auto simp: rows_reconcile_def Let_def)
  note all = upsert_all_ok [OF assms(1) up]
  have get: "map_of (rs_rows s') p = (if p \<in> set (modemPaths tree) then map_of (rs_rows s1) p else None)" for p
    by (simp add: s' map_of_filter_keys)
  have live: "\<exists>row. map_of (rs_rows s1) p = Some row \<and> row_live row" if "p \<in> set (modemPaths tree)" for p
    using all r that by (auto simp: live_at_def)
  have "rows_ok (rs_rows s')"
    using all unfolding rows_ok_def get by (auto simp: s' distinct_keys_filter split: if_splits)
  moreover have "all_rows row_live (rs_rows s')"
    unfolding all_rows_def
  proof (intro allI impI)
    fix p row assume "map_of (rs_rows s') p = Some row"
    then have "p \<in> set (modemPaths tree)" "map_of (rs_rows s1) p = Some row" by (simp_all add: get split: if_splits)
    with live [of p] show "row_live row" by simp
  qed
  moreover have "map_of (rs_rows s') p \<noteq> None \<longleftrightarrow> p \<in> set (modemPaths tree)" for p
    unfolding get using live [of p] by (cases "p \<in> set (modemPaths tree)") auto
  ultimately show ?thesis using all r by (simp add: s')
qed

text \<open>A reconcile succeeds when no modem is locked and the revisions stay safe integers.\<close>

lemma rows_upsert_succeeds:
  assumes "mapModem tree path = Inr m" and "mmState m \<noteq> MmLocked"
    and "0 \<le> rs_revCounter s" and "rs_revCounter s < MAX_SAFE_INTEGER"
  shows "\<exists>new s'. rows_upsert path m s = (Inr new, s') \<and> 0 \<le> rs_revCounter s' \<and>
    rs_revCounter s' \<le> rs_revCounter s + 1"
proof -
  have "make_revision (rs_revCounter s + 1) = Inr (rs_revCounter s + 1)"
    using assms(3,4) by (simp add: make_revision_def nonNegativeInteger_Inr)
  moreover have "createSnapshot (m\<lparr>revision := rs_revCounter s + 1\<rparr>) = Inr (m\<lparr>revision := rs_revCounter s + 1\<rparr>)"
    using mapped_possible [OF assms(1)] assms(2) by (simp add: createSnapshot_Inr)
  ultimately show ?thesis using assms(3) by (auto simp: rows_upsert_def Let_def)
qed

lemma upsert_all_succeeds:
  assumes "\<forall>p \<in> set paths. p \<noteq> [] \<and> \<not> locked_at tree p"
    and "0 \<le> rs_revCounter s" and "rs_revCounter s + int (length paths) \<le> MAX_SAFE_INTEGER"
  shows "\<exists>c s'. upsert_all tree paths changed s = (Inr c, s')"
  using assms
proof (induction paths arbitrary: changed s)
  case (Cons path paths)
  then obtain m where m: "mapModem tree path = Inr m" using mapModem_total [of path tree] by auto
  with mapModem_fields [OF m] Cons.prems(1) have "mmState m \<noteq> MmLocked" by (simp add: locked_at_def)
  from rows_upsert_succeeds [OF m this, of s] Cons.prems(2,3) obtain new s1
    where up: "rows_upsert path m s = (Inr new, s1)" "0 \<le> rs_revCounter s1" "rs_revCounter s1 \<le> rs_revCounter s + 1"
    by auto
  with Cons.IH [of s1 "changed \<or> new"] Cons.prems m show ?case by auto
qed simp

lemma rows_reconcile_succeeds:
  assumes "\<forall>p \<in> set (modemPaths tree). p \<noteq> [] \<and> \<not> locked_at tree p"
    and "0 \<le> rs_revCounter s" and "rs_revCounter s + int (length (modemPaths tree)) \<le> MAX_SAFE_INTEGER"
  shows "\<exists>c s'. rows_reconcile tree s = (Inr c, s')"
  using upsert_all_succeeds [OF assms, of False] by (auto simp: rows_reconcile_def Let_def)

end
