(* ===== verification/Observer_Epochs.thy ===== *)
theory Observer_Epochs
  imports Observer_Rows
begin

text \<open>
  The invariant of the observer over every order of signals and replies, and its properties: a
  published list tells the truth about its source, a row goes only with a reply of the current
  epoch, no signal of the current owner is lost, and a locked modem fails the whole read.
\<close>

declare map_of_eq_Some_iff [simp del]

section \<open>The invariant of the observer\<close>

fun list_truthful :: "observation_list \<Rightarrow> bool" where
  "list_truthful (ListOk rows) \<longleftrightarrow> (\<forall>s \<in> set rows. possible_snapshot s \<and> sourceHealth s = Live)"
| "list_truthful (ListFailed reason rows) \<longleftrightarrow> (\<forall>s \<in> set rows. possible_snapshot s \<and> sourceHealth s = SourceUnavailable)"

definition observer_ok :: "observer \<Rightarrow> bool" where
  "observer_ok s \<longleftrightarrow> store_ok (ob_store s) \<and>
     (rs_sourceHealthy (ob_store s) \<longrightarrow> ob_currentOwner s \<noteq> None) \<and>
     (\<forall>(l, xs) \<in> set (ob_emitted s). list_truthful xs)"

lemma rows_list_truthful:
  assumes "store_ok s"
  shows "list_truthful (rows_list s)"
proof -
  have d: "distinct (map fst (rs_rows s))" using assms by (simp add: store_ok_def rows_ok_def)
  have row: "possible_snapshot (or_snapshot row) \<and>
      sourceHealth (or_snapshot row) = (if rs_sourceHealthy s then Live else SourceUnavailable)"
    if "(p, row) \<in> set (rs_rows s)" for p row
    using map_of_is_SomeI [OF d that] assms
    by (auto simp: store_ok_def rows_ok_def row_ok_def all_rows_def row_live_def split: if_splits)
  show ?thesis using row by (auto simp: rows_list_def Let_def split: if_splits)
qed

text \<open>The parts of a step: each keeps the invariant, and says what it does to the rows.\<close>

definition rows_of :: "observer \<Rightarrow> observed_rows" where
  "rows_of s = rs_rows (ob_store s)"

lemma emit_ok: "observer_ok s \<Longrightarrow> observer_ok (ob_emit s)"
  using rows_list_truthful by (auto simp: observer_ok_def ob_emit_def)

lemma emit_fields [simp]:
  "ob_store (ob_emit s) = ob_store s" "ob_currentOwner (ob_emit s) = ob_currentOwner s"
  "ob_stopped (ob_emit s) = ob_stopped s" "ob_tasks (ob_emit s) = ob_tasks s"
  "ob_refreshing (ob_emit s) = ob_refreshing s" "ob_refreshQueued (ob_emit s) = ob_refreshQueued s"
  "ob_priming (ob_emit s) = ob_priming s"
  by (simp_all add: ob_emit_def)

lemma markUnavailable_step:
  assumes "rows_ok (rows_of s)" and "0 \<le> rs_revCounter (ob_store s)" and "\<forall>(l, xs) \<in> set (ob_emitted s). list_truthful xs"
  obtains s' where "ob_markUnavailable reason s = (Inr (), s')" and "observer_ok s'"
    and "rows_of s' = map (\<lambda>(path, row). (path, stale_row row)) (rows_of s)"
    and "ob_currentOwner s' = ob_currentOwner s" and "ob_stopped s' = ob_stopped s" and "ob_tasks s' = ob_tasks s"
    and "rows_list (ob_store s') = ListFailed reason (map (\<lambda>(_, row). or_snapshot (stale_row row)) (rows_of s))"
proof -
  from rows_markUnavailable_ok [OF assms(1) [unfolded rows_of_def] assms(2), of reason] obtain due st where
    st: "rows_markUnavailable reason (ob_store s) = (Inr due, st)" "store_ok st"
      "rs_rows st = map (\<lambda>(path, row). (path, stale_row row)) (rs_rows (ob_store s))"
      "\<not> rs_sourceHealthy st" "rs_failureReason st = reason" by blast
  have base: "observer_ok (s\<lparr>ob_store := st\<rparr>)" using st assms(3) by (simp add: observer_ok_def)
  have l: "rows_list st = ListFailed reason (map (\<lambda>(_, row). or_snapshot (stale_row row)) (rs_rows (ob_store s)))"
    using st by (auto simp: rows_list_def Let_def)
  show ?thesis
    by (rule that [of "if due then ob_emit (s\<lparr>ob_store := st\<rparr>) else s\<lparr>ob_store := st\<rparr>"])
       (use st base l in \<open>simp_all add: ob_markUnavailable_def rows_of_def emit_ok\<close>)
qed

text \<open>What a step other than a tree's reply does to the rows: nothing, or every row goes stale.\<close>

definition rows_kept :: "observer \<Rightarrow> observer \<Rightarrow> bool" where
  "rows_kept s s' \<longleftrightarrow> rows_of s' = rows_of s \<or> rows_of s' = map (\<lambda>(path, row). (path, stale_row row)) (rows_of s)"

lemma observer_ok_frame:
  "observer_ok s \<Longrightarrow> ob_store s' = ob_store s \<Longrightarrow> ob_emitted s' = ob_emitted s \<Longrightarrow>
     ob_currentOwner s' = ob_currentOwner s \<Longrightarrow> observer_ok s' \<and> rows_kept s s'"
  by (simp add: observer_ok_def rows_kept_def rows_of_def)

lemma schedule_fields [simp]:
  "ob_store (scheduleRefresh s) = ob_store s" "ob_emitted (scheduleRefresh s) = ob_emitted s"
  "ob_currentOwner (scheduleRefresh s) = ob_currentOwner s"
  by (auto simp: scheduleRefresh_def begin_refresh_def split: option.split)

lemma finish_start_fields [simp]:
  "ob_store (finish_start s) = ob_store s" "ob_emitted (finish_start s) = ob_emitted s"
  "ob_currentOwner (finish_start s) = ob_currentOwner s"
  by (auto simp: finish_start_def Let_def)

lemma finally_fields [simp]:
  "ob_store (refresh_finally s) = ob_store s" "ob_emitted (refresh_finally s) = ob_emitted s"
  "ob_currentOwner (refresh_finally s) = ob_currentOwner s"
  by (auto simp: refresh_finally_def Let_def)

lemma observer_ok_rows: "observer_ok s \<Longrightarrow> rows_ok (rows_of s) \<and> 0 \<le> rs_revCounter (ob_store s)"
  by (simp add: observer_ok_def store_ok_def rows_of_def)

lemma markUnavailable_ok:
  assumes "observer_ok s"
  obtains s' where "ob_markUnavailable reason s = (Inr (), s')" and "observer_ok s'"
    and "rows_of s' = map (\<lambda>(path, row). (path, stale_row row)) (rows_of s)"
    and "ob_currentOwner s' = ob_currentOwner s" and "ob_stopped s' = ob_stopped s" and "ob_tasks s' = ob_tasks s"
proof -
  have "\<forall>(l, xs) \<in> set (ob_emitted s). list_truthful xs" using assms by (simp add: observer_ok_def)
  from markUnavailable_step [OF conjunct1 [OF observer_ok_rows [OF assms]] conjunct2 [OF observer_ok_rows [OF assms]] this]
  show ?thesis using that by metis
qed

lemma sourceGone_ok:
  assumes "observer_ok s"
  obtains s' where "handleSourceGone reason s = (Inr (), s')" and "observer_ok s'" and "rows_kept s s'"
proof -
  have "\<forall>(l, xs) \<in> set (ob_emitted (s\<lparr>ob_currentOwner := None\<rparr>)). list_truthful xs"
    and "rows_ok (rows_of (s\<lparr>ob_currentOwner := None\<rparr>))" "0 \<le> rs_revCounter (ob_store (s\<lparr>ob_currentOwner := None\<rparr>))"
    using assms observer_ok_rows [OF assms] by (simp_all add: observer_ok_def rows_of_def)
  from markUnavailable_step [OF this(2,3,1), of reason] obtain s' where
    "ob_markUnavailable reason (s\<lparr>ob_currentOwner := None\<rparr>) = (Inr (), s')" "observer_ok s'"
    "rows_of s' = map (\<lambda>(path, row). (path, stale_row row)) (rows_of (s\<lparr>ob_currentOwner := None\<rparr>))" by metis
  then show ?thesis by (intro that [of s']) (simp_all add: handleSourceGone_def rows_kept_def rows_of_def)
qed

definition has_row :: "observer \<Rightarrow> string \<Rightarrow> bool" where
  "has_row s path \<longleftrightarrow> map_of (rows_of s) path \<noteq> None"

lemma kept_has_row: "rows_kept s s' \<Longrightarrow> has_row s' path = has_row s path"
  by (auto simp: rows_kept_def has_row_def map_of_rows)

text \<open>
  A tree's reply: the outcomes of the body. A superseded reply does nothing; a failed read or a
  throw leaves every row stale and drops none; a full pass leaves exactly the tree's modems.
\<close>

definition refresh_failed :: "observer \<Rightarrow> observer \<Rightarrow> bool" where
  "refresh_failed s s' \<longleftrightarrow> (\<forall>p. has_row s p \<longrightarrow> has_row s' p) \<and>
     (\<exists>snaps. rows_list (ob_store s') = ListFailed BusError snaps)"

definition refresh_done :: "managed_objects \<Rightarrow> observer \<Rightarrow> bool" where
  "refresh_done tree s' \<longleftrightarrow> (\<forall>p. has_row s' p \<longleftrightarrow> p \<in> set (modemPaths tree)) \<and>
     (\<exists>snaps. rows_list (ob_store s') = ListOk snaps)"

lemma refresh_caught_current:
  assumes "rows_ok (rows_of s1)" and "0 \<le> rs_revCounter (ob_store s1)"
    and "\<forall>(l, xs) \<in> set (ob_emitted s1). list_truthful xs"
    and "ob_currentOwner s1 = Some owner" and "\<not> ob_stopped s1"
    and "\<forall>p. has_row s p \<longrightarrow> has_row s1 p"
  obtains s' where "refresh_caught owner s1 = (Inr (), s')" and "observer_ok s'" and "refresh_failed s s'"
proof -
  from markUnavailable_step [OF assms(1,2,3), of BusError] obtain s' where
    m: "ob_markUnavailable BusError s1 = (Inr (), s')" "observer_ok s'"
       "rows_of s' = map (\<lambda>(path, row). (path, stale_row row)) (rows_of s1)"
       "rows_list (ob_store s') = ListFailed BusError (map (\<lambda>(_, row). or_snapshot (stale_row row)) (rows_of s1))"
    by metis
  have "refresh_failed s s'" using m(3,4) assms(6) by (auto simp: refresh_failed_def has_row_def map_of_rows)
  with m assms(4,5) show ?thesis by (intro that [of s']) (simp_all add: refresh_caught_def)
qed

lemma refresh_body_current:
  assumes ok: "observer_ok s" and cur: "ob_currentOwner s = Some owner" "\<not> ob_stopped s"
  obtains s' where "refresh_body owner reply s = (Inr (), s')" and "observer_ok s'"
    and "refresh_failed s s' \<and> (\<forall>tree. reply = ManagedTree tree \<longrightarrow> (\<exists>e st. rows_reconcile tree (ob_store s) = (Inl e, st))) \<or>
         (\<exists>tree. reply = ManagedTree tree \<and> refresh_done tree s' \<and> (\<forall>p \<in> set (modemPaths tree). \<not> locked_at tree p))"
proof -
  have rows: "rows_ok (rows_of s)" "0 \<le> rs_revCounter (ob_store s)" using observer_ok_rows [OF ok] by auto
  have em: "\<forall>(l, xs) \<in> set (ob_emitted s). list_truthful xs" using ok by (simp add: observer_ok_def)
  show ?thesis
  proof (cases "readAuthoritativeTree reply")
    case (Inl e)
    then have notree: "reply \<noteq> ManagedTree tree" for tree by auto
    from refresh_caught_current [OF rows em cur, of s] obtain s'
      where "refresh_caught owner s = (Inr (), s')" "observer_ok s'" "refresh_failed s s'" by blast
    with Inl notree show ?thesis by (intro that [of s']) (auto simp: refresh_body_def)
  next
    case (Inr tree)
    then have reply: "reply = ManagedTree tree" by (cases reply) auto
    obtain r st where rec: "rows_reconcile tree (ob_store s) = (r, st)" by fastforce
    show ?thesis
    proof (cases r)
      case (Inl e)
      let ?s1 = "s\<lparr>ob_store := st\<rparr>"
      from rows_reconcile_thrown [OF rows(1) [unfolded rows_of_def], of tree e st] rec Inl rows(2)
      have "rows_ok (rows_of ?s1)" "0 \<le> rs_revCounter (ob_store ?s1)" "\<forall>p. has_row s p \<longrightarrow> has_row ?s1 p"
        by (auto simp: rows_of_def has_row_def)
      from refresh_caught_current [OF this(1,2) _ _ _ this(3), of owner] em cur obtain s'
        where "refresh_caught owner ?s1 = (Inr (), s')" "observer_ok s'" "refresh_failed s s'" by auto
      with reply rec Inl cur show ?thesis by (intro that [of s']) (auto simp: refresh_body_def)
    next
      case (Inr c)
      note pass = rows_reconcile_done [OF rows(1) [unfolded rows_of_def], of tree c st]
      let ?st = "st\<lparr>rs_sourceHealthy := True\<rparr>"
      let ?s1 = "s\<lparr>ob_store := ?st, ob_hooked := ob_hooked s @ [(owner, tree)]\<rparr>"
      let ?s' = "if c \<or> \<not> rs_sourceHealthy st then ob_emit ?s1 else ?s1"
      have ok1: "observer_ok ?s1"
        using pass rec Inr em cur rows(2) by (auto simp: observer_ok_def store_ok_def)
      then have "observer_ok ?s'" using emit_ok [OF ok1] by simp
      moreover have "refresh_done tree ?s'"
        using pass rec Inr by (auto simp: refresh_done_def has_row_def rows_of_def rows_list_def Let_def)
      moreover have "refresh_body owner reply s = (Inr (), ?s')"
        using reply rec Inr cur by (simp add: refresh_body_def rows_markHealthy_def Let_def)
      moreover have "\<forall>p \<in> set (modemPaths tree). \<not> locked_at tree p" using pass rec Inr by simp
      ultimately show ?thesis using reply by (intro that [of ?s']) auto
    qed
  qed
qed

lemma refresh_body_superseded:
  assumes "\<not> (ob_currentOwner s = Some owner \<and> \<not> ob_stopped s)"
  shows "refresh_body owner reply s = (Inr (), s)"
  using assms by (auto simp: refresh_body_def refresh_caught_def split: sum.split)

section \<open>Steps\<close>

text \<open>The one step that may drop a row: the reply of the current epoch, whose tree omits it.\<close>

definition current_epoch_reply :: "observer \<Rightarrow> observer_event \<Rightarrow> managed_objects \<Rightarrow> bool" where
  "current_epoch_reply s event tree \<longleftrightarrow>
     (\<exists>owner starting. event = EvTreeReply owner starting (ManagedTree tree) \<and>
        TreeRead owner starting \<in> set (ob_tasks s) \<and> ob_currentOwner s = Some owner \<and> \<not> ob_stopped s)"

lemma answered_cases:
  assumes "\<And>s1. ob_store s1 = ob_store s \<Longrightarrow> ob_emitted s1 = ob_emitted s \<Longrightarrow> ob_currentOwner s1 = ob_currentOwner s \<Longrightarrow>
     ob_stopped s1 = ob_stopped s \<Longrightarrow> t \<in> set (ob_tasks s) \<Longrightarrow> P (k s1)" and "P s"
  shows "P (answered t k s)"
  using assms by (simp add: answered_def)

lemma observer_ok_same:
  "observer_ok s \<Longrightarrow> ob_store s1 = ob_store s \<Longrightarrow> ob_emitted s1 = ob_emitted s \<Longrightarrow>
     ob_currentOwner s1 = ob_currentOwner s \<Longrightarrow> observer_ok s1"
  by (simp add: observer_ok_def)

lemma has_row_same: "ob_store s1 = ob_store s \<Longrightarrow> has_row s1 = has_row s"
  by (simp add: has_row_def rows_of_def fun_eq_iff)

lemma rows_kept_same: "ob_store s1 = ob_store s \<Longrightarrow> rows_kept s1 s' \<Longrightarrow> rows_kept s s'"
  by (simp add: rows_kept_def rows_of_def)

lemma rows_kept_refl: "ob_store s1 = ob_store s \<Longrightarrow> rows_kept s s1"
  by (simp add: rows_kept_def rows_of_def)

lemma sourceGone_step:
  assumes "observer_ok s"
  shows "observer_ok (snd (handleSourceGone reason s)) \<and> rows_kept s (snd (handleSourceGone reason s))"
  using sourceGone_ok [OF assms, of reason] by (metis snd_conv)

lemma ownerReply_step:
  assumes "observer_ok s"
  shows "observer_ok (onOwnerReply starting owner s) \<and> rows_kept s (onOwnerReply starting owner s)"
proof (cases owner)
  case None
  from sourceGone_ok [OF assms, of SourceGone] obtain s1
    where s1: "handleSourceGone SourceGone s = (Inr (), s1)" "observer_ok s1" "rows_kept s s1" .
  have "observer_ok (finish_start s1)" using s1(2) by (rule observer_ok_same) simp_all
  moreover have "rows_kept s (finish_start s1)" using s1(3) by (simp add: rows_kept_def rows_of_def)
  ultimately show ?thesis using None s1 by (simp add: onOwnerReply_def)
next
  case (Some name)
  with assms show ?thesis by (simp add: onOwnerReply_def begin_refresh_def observer_ok_def rows_kept_def rows_of_def)
qed

lemma nameOwnerChanged_step:
  assumes "observer_ok s"
  shows "observer_ok (onNameOwnerChanged event s) \<and> rows_kept s (onNameOwnerChanged event s)"
proof (cases "routeOwnerSignal event")
  case Unrelated
  then show ?thesis using assms by (simp add: onNameOwnerChanged_def rows_kept_refl)
next
  case OwnerLost
  then show ?thesis using sourceGone_step [OF assms] by (simp add: onNameOwnerChanged_def)
next
  case (Owned owner)
  show ?thesis
  proof (cases "Some owner = ob_currentOwner s")
    case True
    then show ?thesis using assms Owned by (simp add: onNameOwnerChanged_def rows_kept_refl)
  next
    case False
    from markUnavailable_ok [OF assms, of SourceGone] obtain s1 where s1: "ob_markUnavailable SourceGone s = (Inr (), s1)"
        "observer_ok s1" "rows_of s1 = map (\<lambda>(path, row). (path, stale_row row)) (rows_of s)" by metis
    have step: "onNameOwnerChanged event s = scheduleRefresh (s1\<lparr>ob_currentOwner := Some owner\<rparr>)"
      using Owned False s1(1) by (simp add: onNameOwnerChanged_def)
    have "observer_ok (scheduleRefresh (s1\<lparr>ob_currentOwner := Some owner\<rparr>))" using s1(2) by (simp add: observer_ok_def)
    with s1(3) show ?thesis unfolding step by (simp add: rows_kept_def rows_of_def)
  qed
qed

lemma treeReply_outcome:
  assumes "observer_ok s"
  obtains s1 where "refresh_body owner reply s = (Inr (), s1)" and "observer_ok s1"
    and "observer_ok (onTreeReply owner starting reply s)"
    and "ob_store (onTreeReply owner starting reply s) = ob_store s1"
proof -
  obtain s1 where s1: "refresh_body owner reply s = (Inr (), s1)" "observer_ok s1"
  proof (cases "ob_currentOwner s = Some owner \<and> \<not> ob_stopped s")
    case True
    with refresh_body_current [OF assms] that show ?thesis by metis
  next
    case False
    with refresh_body_superseded [OF False] assms that show ?thesis by metis
  qed
  have "observer_ok (onTreeReply owner starting reply s)"
    using s1(2) by (rule observer_ok_same) (simp_all add: onTreeReply_def s1(1) Let_def)
  moreover have "ob_store (onTreeReply owner starting reply s) = ob_store s1"
    by (simp add: onTreeReply_def s1(1) Let_def)
  ultimately show ?thesis using that s1 by blast
qed

lemma observer_step_ok:
  assumes "observer_ok s"
  shows "observer_ok (observer_step event s)"
proof (cases event)
  case (EvOwnerReply starting reply)
  show ?thesis unfolding EvOwnerReply observer_step.simps
  proof (rule answered_cases)
    fix s1 :: observer assume "ob_store s1 = ob_store s" "ob_emitted s1 = ob_emitted s" "ob_currentOwner s1 = ob_currentOwner s"
    then have "observer_ok s1" by (rule observer_ok_same [OF assms])
    then show "observer_ok (onOwnerReply starting (queryModemManagerOwner reply) s1)"
      by (rule ownerReply_step [THEN conjunct1])
  qed (rule assms)
next
  case (EvTreeReply owner starting reply)
  show ?thesis unfolding EvTreeReply observer_step.simps
  proof (rule answered_cases)
    fix s1 :: observer assume "ob_store s1 = ob_store s" "ob_emitted s1 = ob_emitted s" "ob_currentOwner s1 = ob_currentOwner s"
    then have "observer_ok s1" by (rule observer_ok_same [OF assms])
    then show "observer_ok (onTreeReply owner starting reply s1)" by (rule treeReply_outcome)
  qed (rule assms)
next
  case (EvNameOwnerChanged ev)
  then show ?thesis using nameOwnerChanged_step [OF assms] by simp
next
  case EvDisconnected
  then show ?thesis using sourceGone_step [OF assms] by simp
next
  case (EvObjectSignal ev)
  show ?thesis by (rule observer_ok_same [OF assms]) (simp_all add: EvObjectSignal onObjectSignal_def)
qed (rule observer_ok_same [OF assms]; simp add: answered_def ob_start_def ob_stop_def ob_observe_def)+

lemma observer_after_ok: "observer_ok (observer_after events)"
proof (induction events rule: rev_induct)
  case Nil
  show ?case
    by (simp add: observer_after_def observer_ok_def new_observer_def new_row_store_def store_ok_def rows_ok_def all_rows_def)
next
  case (snoc event events)
  then show ?case using observer_step_ok by (simp add: observer_after_def)
qed

section \<open>Properties\<close>

lemma tree_reply_rows:
  assumes ok: "observer_ok s"
  shows "rows_kept s (onTreeReply owner starting reply s) \<or>
    (ob_currentOwner s = Some owner \<and> \<not> ob_stopped s \<and> (\<exists>tree. reply = ManagedTree tree \<and>
      (\<forall>p. has_row s p \<and> \<not> has_row (onTreeReply owner starting reply s) p \<longrightarrow> p \<notin> set (modemPaths tree))))"
proof -
  from treeReply_outcome [OF ok, of owner reply starting] obtain s1
    where out: "refresh_body owner reply s = (Inr (), s1)" "ob_store (onTreeReply owner starting reply s) = ob_store s1"
    by metis
  have rows: "has_row (onTreeReply owner starting reply s) = has_row s1" by (rule has_row_same [OF out(2)])
  show ?thesis
  proof (cases "ob_currentOwner s = Some owner \<and> \<not> ob_stopped s")
    case False
    with refresh_body_superseded [OF False] out have "ob_store (onTreeReply owner starting reply s) = ob_store s" by simp
    then show ?thesis by (simp add: rows_kept_def rows_of_def)
  next
    case True
    show ?thesis
    proof (cases reply)
      case (ManagedTree tree)
      from refresh_body_current [OF ok, of owner reply] True out(1) obtain s2
        where "refresh_body owner reply s = (Inr (), s2)" "refresh_failed s s2 \<or> (\<exists>t. reply = ManagedTree t \<and> refresh_done t s2)"
        by metis
      with out(1) ManagedTree True show ?thesis unfolding rows by (auto simp: refresh_failed_def refresh_done_def)
    next
      case CallRejected
      with True have "refresh_body owner reply s = ob_markUnavailable BusError s"
        by (simp add: refresh_body_def refresh_caught_def)
      with markUnavailable_ok [OF ok, of BusError] out have "rows_of s1 = map (\<lambda>(path, row). (path, stale_row row)) (rows_of s)"
        by (metis prod.inject)
      with out(2) show ?thesis by (simp add: rows_kept_def rows_of_def)
    next
      case NotAnArray
      with True have "refresh_body owner reply s = ob_markUnavailable BusError s"
        by (simp add: refresh_body_def refresh_caught_def)
      with markUnavailable_ok [OF ok, of BusError] out have "rows_of s1 = map (\<lambda>(path, row). (path, stale_row row)) (rows_of s)"
        by (metis prod.inject)
      with out(2) show ?thesis by (simp add: rows_kept_def rows_of_def)
    qed
  qed
qed

lemma step_rows:
  assumes ok: "observer_ok s"
  shows "rows_kept s (observer_step event s) \<or>
    (\<exists>tree. current_epoch_reply s event tree \<and>
      (\<forall>p. has_row s p \<and> \<not> has_row (observer_step event s) p \<longrightarrow> p \<notin> set (modemPaths tree)))"
proof (cases event)
  case (EvTreeReply owner starting reply)
  show ?thesis
  proof (cases "TreeRead owner starting \<in> set (ob_tasks s)")
    case False
    then show ?thesis by (simp add: EvTreeReply answered_def rows_kept_refl)
  next
    case True
    let ?s1 = "s\<lparr>ob_tasks := remove1 (TreeRead owner starting) (ob_tasks s)\<rparr>"
    have "observer_ok ?s1" by (rule observer_ok_same [OF ok]) simp_all
    from tree_reply_rows [OF this, of owner starting reply] True show ?thesis
      by (auto simp: EvTreeReply answered_def current_epoch_reply_def rows_kept_def rows_of_def has_row_def)
  qed
next
  case (EvOwnerReply starting reply)
  have "rows_kept s (observer_step event s)" unfolding EvOwnerReply observer_step.simps
  proof (rule answered_cases)
    fix s1 :: observer
    assume s1: "ob_store s1 = ob_store s" "ob_emitted s1 = ob_emitted s" "ob_currentOwner s1 = ob_currentOwner s"
    then have "observer_ok s1" by (rule observer_ok_same [OF ok])
    then show "rows_kept s (onOwnerReply starting (queryModemManagerOwner reply) s1)"
      by (intro rows_kept_same [OF s1(1)] ownerReply_step [THEN conjunct2])
  qed (simp add: rows_kept_refl)
  then show ?thesis ..
next
  case (EvNameOwnerChanged ev)
  then show ?thesis using nameOwnerChanged_step [OF ok] by simp
next
  case EvDisconnected
  then show ?thesis using sourceGone_step [OF ok] by simp
qed (rule disjI1, rule rows_kept_refl;
     simp add: answered_def onObjectSignal_def ob_start_def ob_stop_def ob_observe_def)+

text \<open>C12: a modem is removed by the epoch's own word only: in every order of signals, replies, disconnects and reconnects, the one event after which a row is gone is the reply to a tree read of the epoch that owns the bus name, on an observer that is not stopped, whose tree omits that modem; every other event leaves the rows as they are or marks each one stale, with all its facts.\<close>

theorem epoch_scoped_removal:
  assumes "s = observer_after events" and "s' = observer_step event s"
  shows "(has_row s path \<and> \<not> has_row s' path \<longrightarrow>
      (\<exists>tree. current_epoch_reply s event tree \<and> path \<notin> set (modemPaths tree))) \<and>
    ((\<nexists>tree. current_epoch_reply s event tree) \<longrightarrow> rows_kept s s')"
proof -
  have "observer_ok s" using observer_after_ok assms(1) by blast
  from step_rows [OF this, of event] show ?thesis using kept_has_row assms(2) by blast
qed

definition sample_modem :: "int \<Rightarrow> managed_objects" where
  "sample_modem st = [(''/m/0'', [(MODEM_IFACE, [(''State'', \<lparr>v_signature = ''i'', v_value = DNum st\<rparr>)])])]"

definition sample_owner :: "string \<Rightarrow> signal_event" where
  "sample_owner name = \<lparr>se_sender = Some ''org.freedesktop.DBus'', se_body = [DStr MM_BUS_NAME, DStr [], DStr name]\<rparr>"

definition sample_events :: "int \<Rightarrow> observer_event list" where
  "sample_events st = [EvObserve 0, EvStart, EvConnected True, EvOwnerReply True (Some [DStr '':1.5'']),
     EvTreeReply '':1.5'' True (ManagedTree (sample_modem st))]"

lemma epoch_scoped_removal_witness:
  "rows_kept (observer_after (sample_events 8)) (observer_step (EvNameOwnerChanged (sample_owner [])) (observer_after (sample_events 8)))"
  using epoch_scoped_removal [OF refl refl, where events = "sample_events 8" and event = "EvNameOwnerChanged (sample_owner [])"]
  by (auto simp: current_epoch_reply_def)

text \<open>C13: a published list tells the truth about its source: in every order of events, the list the observer returns and every list a listener was given holds possible snapshots only, all live when it is an answer and all marked unavailable when it is a failure, and the source counts as healthy only while the bus name has an owner.\<close>

theorem observer_lists_truthful:
  "list_truthful (rows_list (ob_store (observer_after events))) \<and>
   (\<forall>(l, xs) \<in> set (ob_emitted (observer_after events)). list_truthful xs) \<and>
   (rs_sourceHealthy (ob_store (observer_after events)) \<longrightarrow> ob_currentOwner (observer_after events) \<noteq> None)"
  using observer_after_ok [of events] rows_list_truthful by (simp add: observer_ok_def)

lemma observer_lists_truthful_witness:
  "ob_currentOwner (observer_after (sample_events 8)) \<noteq> None \<and>
   list_truthful (rows_list (ob_store (observer_after (sample_events 8))))"
proof -
  have "rs_sourceHealthy (ob_store (observer_after (sample_events 8)))" by code_simp
  with observer_lists_truthful [of "sample_events 8"] show ?thesis by blast
qed

text \<open>C23: what a read of the current epoch publishes: when no modem of the tree is locked, an answer with exactly the tree's modems; when one is locked, no answer at all, for the mapper gives a locked modem no SIM slot, the guards refuse it, and the whole read counts as a bus error: every row is kept stale and no new modem appears in a list that is an answer.\<close>

theorem read_publishes_tree_unless_locked:
  assumes "s = observer_after events" and "current_epoch_reply s (EvTreeReply owner starting (ManagedTree tree)) tree"
    and "[] \<notin> set (modemPaths tree)"
    and "rs_revCounter (ob_store s) + int (length (modemPaths tree)) \<le> MAX_SAFE_INTEGER"
  shows "let s' = observer_step (EvTreeReply owner starting (ManagedTree tree)) s in
    if list_ex (locked_at tree) (modemPaths tree)
    then (\<exists>snaps. rows_list (ob_store s') = ListFailed BusError snaps) \<and> (\<forall>p. has_row s p \<longrightarrow> has_row s' p)
    else (\<exists>snaps. rows_list (ob_store s') = ListOk snaps) \<and> (\<forall>p. has_row s' p \<longleftrightarrow> p \<in> set (modemPaths tree))"
proof -
  let ?s1 = "s\<lparr>ob_tasks := remove1 (TreeRead owner starting) (ob_tasks s)\<rparr>"
  have ok: "observer_ok s" using observer_after_ok assms(1) by blast
  then have ok1: "observer_ok ?s1" by (rule observer_ok_same) simp_all
  have cur: "ob_currentOwner ?s1 = Some owner" "\<not> ob_stopped ?s1" "TreeRead owner starting \<in> set (ob_tasks s)"
    using assms(2) by (auto simp: current_epoch_reply_def)
  let ?s' = "observer_step (EvTreeReply owner starting (ManagedTree tree)) s"
  have step: "?s' = onTreeReply owner starting (ManagedTree tree) ?s1" using cur(3) by (simp add: answered_def)
  from refresh_body_current [OF ok1 cur(1,2), of "ManagedTree tree"] obtain s2
    where body: "refresh_body owner (ManagedTree tree) ?s1 = (Inr (), s2)"
      and out: "refresh_failed ?s1 s2 \<and> (\<exists>e st. rows_reconcile tree (ob_store ?s1) = (Inl e, st)) \<or>
        refresh_done tree s2 \<and> (\<forall>p \<in> set (modemPaths tree). \<not> locked_at tree p)"
    by (metis tree_reply.inject)
  have store: "ob_store ?s' = ob_store s2" unfolding step by (simp add: onTreeReply_def body Let_def)
  note rows = has_row_same [OF store]
  show ?thesis
  proof (cases "list_ex (locked_at tree) (modemPaths tree)")
    case True
    with out have "refresh_failed ?s1 s2" by (auto simp: list_ex_iff)
    with True show ?thesis unfolding Let_def store rows by (simp add: refresh_failed_def has_row_def rows_of_def)
  next
    case False
    with assms(3) have "\<forall>p \<in> set (modemPaths tree). p \<noteq> [] \<and> \<not> locked_at tree p" by (auto simp: list_ex_iff)
    from rows_reconcile_succeeds [OF this, of "ob_store ?s1"] observer_ok_rows [OF ok1] assms(4) out
    have "refresh_done tree s2" by auto
    with False show ?thesis unfolding Let_def store rows by (simp add: refresh_done_def)
  qed
qed

lemma read_publishes_tree_unless_locked_witness:
  "(\<exists>snaps. rows_list (ob_store (observer_after (sample_events 8))) = ListOk snaps) \<and>
   (\<exists>snaps. rows_list (ob_store (observer_after (sample_events 2))) = ListFailed BusError snaps)"
proof -
  define s where "s = observer_after (butlast (sample_events 8))"
  have s: "s = observer_after (butlast (sample_events 2))" by (simp add: s_def sample_events_def)
  have fields: "rs_revCounter (ob_store s) = 0" "ob_tasks s = [TreeRead '':1.5'' True]"
      "ob_currentOwner s = Some '':1.5''" "\<not> ob_stopped s"
    unfolding s_def by code_simp+
  then have cur: "current_epoch_reply s (EvTreeReply '':1.5'' True (ManagedTree tree)) tree" for tree
    by (auto simp: current_epoch_reply_def)
  have paths: "modemPaths (sample_modem st) = [''/m/0'']" for st
    by (simp add: modemPaths_def pathsWithInterface_def sample_modem_def)
  have locked: "\<not> locked_at (sample_modem 8) ''/m/0''" "locked_at (sample_modem 2) ''/m/0''" by code_simp+
  have last: "observer_after (sample_events st) =
      observer_step (EvTreeReply '':1.5'' True (ManagedTree (sample_modem st))) (observer_after (butlast (sample_events st)))" for st
    by (simp add: sample_events_def observer_after_def)
  note read = read_publishes_tree_unless_locked [OF _ cur, unfolded paths]
  show ?thesis
    using read [OF s_def, of "sample_modem 8"] read [OF s, of "sample_modem 2"] fields locked
    by (simp add: Let_def last s_def [symmetric] s [symmetric] paths MAX_SAFE_INTEGER_def del: observer_step.simps)
qed

text \<open>
  The revision of a row does not grow with every change: losing the source adds one to the row's
  own revision, and the counter of the store, which stamps the next live row, does not know.
\<close>

definition revisions_of :: "observation_list \<Rightarrow> int list" where
  "revisions_of xs = (case xs of ListOk rows \<Rightarrow> map revision rows | ListFailed _ rows \<Rightarrow> map revision rows)"

lemma restored_row_repeats_revision:
  "map (\<lambda>(_, xs). revisions_of xs) (ob_emitted (observer_after (sample_events 8 @
     [EvDisconnected, EvReconnected, EvOwnerReply False (Some [DStr '':1.6'']),
      EvTreeReply '':1.6'' False (ManagedTree (sample_modem 8))]))) = [[1], [2], [2]]"
  by code_simp

end
