(* ===== verification/Usb_Transition_Safety.thy ===== *)
theory Usb_Transition_Safety
  imports Usb_Transition
begin

text \<open>
  Safety of the USB-mode transition: what it takes it gives back on every path, it sends only
  allowlisted commands, it reports success only on proof, and its polling loops end.
\<close>

section \<open>What a run has taken, given back and sent\<close>

definition taken :: "resource \<Rightarrow> 'h tx_call list \<Rightarrow> 'h list" where
  "taken res cs = concat (map (\<lambda>c. case c of Acquired r h \<Rightarrow> if r = res then [h] else [] | _ \<Rightarrow> []) cs)"

definition given :: "resource \<Rightarrow> 'h tx_call list \<Rightarrow> 'h list" where
  "given res cs = concat (map (\<lambda>c. case c of Released r h \<Rightarrow> if r = res then [h] else [] | _ \<Rightarrow> []) cs)"

definition sent :: "'h tx_call list \<Rightarrow> string list" where
  "sent cs = concat (map (\<lambda>c. case c of Sent s \<Rightarrow> [s] | _ \<Rightarrow> []) cs)"

lemma taken_simps [simp]:
  "taken res [] = []" "taken res (a @ b) = taken res a @ taken res b"
  "taken res (Acquired r h # cs) = (if r = res then h # taken res cs else taken res cs)"
  "taken res (Released r h # cs) = taken res cs" "taken res (Sent c # cs) = taken res cs"
  "taken res (Enumerated # cs) = taken res cs" "taken res (Activated n # cs) = taken res cs"
  by (simp_all add: taken_def)

lemma given_simps [simp]:
  "given res [] = []" "given res (a @ b) = given res a @ given res b"
  "given res (Released r h # cs) = (if r = res then h # given res cs else given res cs)"
  "given res (Acquired r h # cs) = given res cs" "given res (Sent c # cs) = given res cs"
  "given res (Enumerated # cs) = given res cs" "given res (Activated n # cs) = given res cs"
  by (simp_all add: given_def)

lemma sent_simps [simp]:
  "sent [] = []" "sent (a @ b) = sent a @ sent b"
  "sent (Released r h # cs) = sent cs" "sent (Acquired r h # cs) = sent cs" "sent (Sent c # cs) = c # sent cs"
  "sent (Enumerated # cs) = sent cs" "sent (Activated n # cs) = sent cs"
  by (simp_all add: sent_def)

record 'h holdings =
  hg_holds :: "'h list \<times> 'h list"
  hg_quiesces :: "'h list \<times> 'h list"

definition tx_inv :: "string set \<Rightarrow> 'h holdings \<Rightarrow> ('w, 'h) tx \<Rightarrow> bool" where
  "tx_inv allow b s \<longleftrightarrow>
     taken InhibitLease (tx_calls s) =
       given InhibitLease (tx_calls s) @ (case tx_inhibit s of None \<Rightarrow> [] | Some l \<Rightarrow> [l]) \<and>
     hg_holds b = (taken InterlockHold (tx_calls s), given InterlockHold (tx_calls s)) \<and>
     hg_quiesces b = (taken QuiesceLease (tx_calls s), given QuiesceLease (tx_calls s)) \<and>
     set (sent (tx_calls s)) \<subseteq> allow"

abbreviation preserves :: "('s \<Rightarrow> bool) \<Rightarrow> ('s, 'a) io \<Rightarrow> bool" where
  "preserves P m \<equiv> triple P m (\<lambda>_. P) (\<lambda>_. P)"

lemma keeps_triple: "keeps P m \<Longrightarrow> preserves P m"
  by (auto simp: triple_def split: prod.split sum.split dest: keepsD)

lemma triple_keeps: "preserves P m \<Longrightarrow> keeps P m"
  by (rule keepsI) (auto simp: triple_def split: prod.splits sum.splits, metis prod.collapse sum.exhaust)

lemma triple_catch [triple_intros]:
  assumes "triple P m Q F" and "\<And>e. triple (F e) (handler e) Q E"
  shows "triple P (io_catch m handler) Q E"
  using assms by (fastforce simp: triple_def io_catch_def split: prod.splits sum.splits)

lemma triple_throw [triple_intros]: "(\<And>w. P w \<Longrightarrow> E e w) \<Longrightarrow> triple P (io_throw e) Q E"
  by (simp add: triple_def io_throw_def)

lemma preserves_bind [triple_intros]: "preserves P m \<Longrightarrow> (\<And>a. triple P (f a) Q (\<lambda>_. P)) \<Longrightarrow> triple P (io_bind m f) Q (\<lambda>_. P)"
  by (rule triple_bind)

lemma preserves_ignore: "preserves P m \<Longrightarrow> preserves P (io_ignore m)"
  by (auto simp: triple_def io_ignore_def split: prod.splits sum.splits)
     (metis prod.collapse sum.exhaust)

section \<open>Every part of the transaction\<close>

text \<open>The part of the state the invariants read, besides the calls.\<close>

definition body_inv :: "string set \<Rightarrow> 'h holdings \<Rightarrow> ('w, 'h) tx \<Rightarrow> bool" where
  "body_inv allow b s \<longleftrightarrow> tx_inv allow b s \<and> \<not> tx_reactivated s"

definition harmless :: "string set \<Rightarrow> 'h tx_call list \<Rightarrow> bool" where
  "harmless allow cs \<longleftrightarrow> (\<forall>res. taken res cs = [] \<and> given res cs = []) \<and> set (sent cs) \<subseteq> allow"

lemma preserves_push: "preserves (body_inv allow b) (push_step name)"
  by (simp add: triple_def push_step_def body_inv_def tx_inv_def)

lemma preserves_do:
  assumes "\<And>r. harmless allow (note r)"
  shows "preserves (body_inv allow b) (tx_do note env m)"
  using assms
  by (auto simp: triple_def tx_do_def body_inv_def tx_inv_def harmless_def split: prod.split sum.split)

lemma harmless_notes [simp]:
  "harmless allow (silent r)" "harmless allow (always Enumerated r)" "harmless allow (always (Activated n) r)"
  by (simp_all add: harmless_def silent_def always_def)

lemma releaseInhibit_holds:
  assumes "tx_inv allow b (s\<lparr>tx_inhibit := l\<rparr>)" and "tx_inhibit s = None"
  shows "case releaseInhibit env l s of (r, s') \<Rightarrow> tx_inv allow b s' \<and> tx_inhibit s' = None \<and>
    tx_reactivated s' = tx_reactivated s \<and> r = Inr ()"
  using assms
  by (auto simp: releaseInhibit_def io_bind_def io_return_def push_step_def io_ignore_def tx_do_def always_def
      tx_inv_def split: option.splits prod.split)

lemma forceUninhibit_holds:
  assumes "tx_inv allow b s"
  shows "case forceUninhibit env s of (r, s') \<Rightarrow> tx_inv allow b s' \<and> tx_inhibit s' = None \<and>
    tx_reactivated s' = tx_reactivated s \<and> r = Inr ()"
  using releaseInhibit_holds [where s = "s\<lparr>tx_inhibit := None\<rparr>" and l = "tx_inhibit s", of allow b env] assms
  by (simp add: forceUninhibit_def)

lemma preserves_forceUninhibit:
  fixes env :: "('w, 'h) tx_env"
  shows "preserves (body_inv allow b) (forceUninhibit env)"
  unfolding triple_def
proof (intro allI impI)
  fix s :: "('w, 'h) tx" assume "body_inv allow b s"
  with forceUninhibit_holds [of allow b s env]
  show "case forceUninhibit env s of (Inr a, s') \<Rightarrow> body_inv allow b s' | (Inl e, s') \<Rightarrow> body_inv allow b s'"
    by (auto simp: body_inv_def split: prod.splits)
qed

lemma preserves_lease:
  assumes "set (computeAtAllowlist cmds) \<subseteq> allow"
  shows "preserves (body_inv allow b) (lease_run (createTransitionAtLease env cmds) command ctx)"
proof (rule keeps_triple, rule lease_run_keeps)
  have sink: "keeps (body_inv allow b) (tx_do silent env m)" for m
    by (rule triple_keeps, rule preserves_do) simp
  have hook: "keeps (body_inv allow b) (forceUninhibit env)"
    by (rule triple_keeps, rule preserves_forceUninhibit)
  show "lease_keeps (body_inv allow b) (createTransitionAtLease env cmds)"
    using assms sink hook
    by (auto simp: lease_keeps_def createTransitionAtLease_def tx_send_def body_inv_def tx_inv_def split: prod.split)
qed

lemma preserves_sleep: "body_inv allow b s \<Longrightarrow> body_inv allow b (tx_sleep env s)"
  by (simp add: body_inv_def tx_inv_def tx_sleep_def Let_def)

lemma preserves_enumerate: "preserves (body_inv allow b) (tx_enumerate env)"
  unfolding tx_enumerate_def by (rule preserves_do) simp

lemma preserves_poll_state:
  "body_inv allow b s \<Longrightarrow> body_inv allow b (snd (await_poll env found deadline message s))"
proof (induction env found deadline message s rule: await_poll.induct)
  case (1 env found deadline message s)
  obtain r s1 where e: "tx_enumerate env s = (r, s1)" by force
  have s1: "body_inv allow b s1"
    using keepsD [OF triple_keeps [OF preserves_enumerate] 1(2) e] .
  show ?case
  proof (cases "tx_clock s < deadline \<and> (\<exists>devices. r = Inr devices \<and> found devices = None)")
    case True
    then obtain devices where d: "r = Inr devices" "found devices = None" by blast
    with 1(1) [OF _ e [symmetric] d(1)] True e s1 preserves_sleep [OF s1] show ?thesis
      by (subst await_poll.simps) simp
  next
    case False
    with e s1 1(2) show ?thesis
      by (subst await_poll.simps) (auto split: sum.split option.split)
  qed
qed

lemma preserves_poll: "preserves (body_inv allow b) (await_poll env found deadline message)"
  by (rule keeps_triple, rule keepsI) (rule preserves_poll_state)

lemma preserves_waits:
  "preserves (body_inv allow b) (awaitPortDrop env uid)" "preserves (body_inv allow b) (awaitDevice env uid)"
  unfolding awaitPortDrop_def awaitDevice_def
  by (rule triple_fun_of_state [where f = "\<lambda>s. tx_clock s"], rule preserves_poll)+

lemma preserves_uninhibit_step: "preserves (body_inv allow b) (uninhibit_step env)"
  by (auto simp: triple_def uninhibit_step_def tx_do_def always_def body_inv_def tx_inv_def
      split: option.split prod.split sum.split)

lemma inhibit_step_triple:
  "triple (\<lambda>s. body_inv allow b s \<and> tx_inhibit s = None) (inhibit_step env uid)
     (\<lambda>_. body_inv allow b) (\<lambda>_. body_inv allow b)"
  by (auto simp: triple_def inhibit_step_def tx_do_def acquires_def body_inv_def tx_inv_def
      split: prod.split sum.split)

lemmas preserves_parts = preserves_push preserves_lease preserves_waits preserves_uninhibit_step
  preserves_forceUninhibit preserves_enumerate

text \<open>The transaction, its outcome told by the flag it sets.\<close>

definition after_body :: "string set \<Rightarrow> 'h holdings \<Rightarrow> transition_result \<Rightarrow> ('w, 'h) tx \<Rightarrow> bool" where
  "after_body allow b result s \<longleftrightarrow> tx_inv allow b s \<and>
     (tx_reactivated s \<longleftrightarrow> (\<exists>n. result = TransitionSucceeded n)) \<and> (\<forall>st r. result \<noteq> TransitionRefused st r)"

lemma switch_triple:
  assumes "set (computeAtAllowlist cmds) \<subseteq> allow"
  shows "triple (\<lambda>s. body_inv allow b s \<and> tx_inhibit s = None)
    (switch_steps env request plan (createTransitionAtLease env cmds))
    (\<lambda>_. body_inv allow b) (\<lambda>_. body_inv allow b)"
  unfolding switch_steps_def
proof (rule triple_bind)
  show "triple (\<lambda>s. body_inv allow b s \<and> tx_inhibit s = None) (push_step ''inhibit'')
      (\<lambda>_ s. body_inv allow b s \<and> tx_inhibit s = None) (\<lambda>_. body_inv allow b)"
    by (simp add: triple_def push_step_def body_inv_def tx_inv_def)
next
  fix u :: unit
  have apply_part: "preserves (body_inv allow b)
      (case tp_applyCommand plan of None \<Rightarrow> io_return ()
       | Some c \<Rightarrow> io_bind (push_step ''apply-command'') (\<lambda>_. io_bind
           (lease_run (createTransitionAtLease env cmds) c (uid_context (um_inhibitUid request))) (\<lambda>_. io_return ())))"
    by (cases "tp_applyCommand plan")
       (auto intro!: preserves_bind preserves_push preserves_lease [OF assms] triple_return)
  show "triple (\<lambda>s. body_inv allow b s \<and> tx_inhibit s = None)
     (io_bind (inhibit_step env (um_inhibitUid request)) (\<lambda>_.
     io_bind (push_step ''at-command'') (\<lambda>_.
     io_bind (lease_run (createTransitionAtLease env cmds) (tp_atCommand plan) (uid_context (um_inhibitUid request))) (\<lambda>_.
     io_bind (case tp_applyCommand plan of None \<Rightarrow> io_return ()
       | Some c \<Rightarrow> io_bind (push_step ''apply-command'') (\<lambda>_. io_bind
           (lease_run (createTransitionAtLease env cmds) c (uid_context (um_inhibitUid request))) (\<lambda>_. io_return ()))) (\<lambda>_.
     io_bind (push_step ''await-port-drop'') (\<lambda>_.
     io_bind (awaitPortDrop env (um_cachedPhysicalUid request)) (\<lambda>_.
     io_bind (push_step ''uninhibit'') (\<lambda>_.
     io_bind (uninhibit_step env) (\<lambda>_.
     io_bind (push_step ''await-reenumeration'') (\<lambda>_.
     awaitDevice env (um_cachedPhysicalUid request))))))))))) (\<lambda>_. body_inv allow b) (\<lambda>_. body_inv allow b)"
    by (rule triple_bind [OF inhibit_step_triple])
       (intro preserves_bind preserves_push preserves_lease [OF assms] apply_part preserves_waits preserves_uninhibit_step)
qed

lemma preserves_postcondition:
  assumes "set (computeAtAllowlist cmds) \<subseteq> allow"
  shows "preserves (body_inv allow b)
    (transitionPostconditionFailure plan device (createTransitionAtLease env cmds) uid)"
  unfolding transitionPostconditionFailure_def Let_def
  by (cases "tp_proof plan")
     (auto intro!: preserves_bind preserves_push preserves_lease [OF assms] triple_return)

lemma after_body_failed: "body_inv allow b s \<Longrightarrow> after_body allow b (TransitionFailed d r) s"
  by (simp add: after_body_def body_inv_def)

lemma reactivate_triple:
  "triple (body_inv allow b) (reactivate_step env request n)
     (\<lambda>_ s. after_body allow b (TransitionSucceeded n) s) (\<lambda>_. body_inv allow b)"
  by (auto simp: triple_def reactivate_step_def tx_do_def always_def body_inv_def after_body_def tx_inv_def
      split: prod.split sum.split)

lemma finish_triple:
  assumes "set (computeAtAllowlist cmds) \<subseteq> allow"
  shows "triple (body_inv allow b)
    (finish_steps env request plan (createTransitionAtLease env cmds) device)
    (after_body allow b) (\<lambda>_. body_inv allow b)"
  unfolding finish_steps_def
proof (intro preserves_bind preserves_push preserves_postcondition [OF assms])
  fix u :: unit and failure
  show "triple (body_inv allow b) (case failure of
       Some reason \<Rightarrow> io_return (TransitionFailed True reason)
     | None \<Rightarrow> io_bind (push_step ''resolve-ifname'') (\<lambda>_.
         case te_resolveIfname env device of
           None \<Rightarrow> io_return (TransitionFailed True ''could not resolve new ifname'')
         | Some newIfname \<Rightarrow> io_bind (push_step ''reactivate'') (\<lambda>_.
             io_bind (reactivate_step env request newIfname) (\<lambda>_. io_return (TransitionSucceeded newIfname)))))
     (after_body allow b) (\<lambda>_. body_inv allow b)"
    by (cases failure; cases "te_resolveIfname env device")
       (auto intro!: preserves_bind preserves_push triple_return after_body_failed
          triple_bind [OF reactivate_triple])
qed

lemma cleanup_holds:
  assumes "after_body allow b result s" and "hg_quiesces b = (tq, gq)"
  shows "case cleanup_steps env q s of (r, s') \<Rightarrow> r = Inr () \<and> tx_inhibit s' = None \<and>
    tx_inv allow (b\<lparr>hg_quiesces := (tq, if \<exists>n. result = TransitionSucceeded n then gq else gq @ [q])\<rparr>) s'"
proof -
  obtain r s1 where f: "forceUninhibit env s = (r, s1)" by force
  with forceUninhibit_holds [of allow b s env] assms
  have s1: "tx_inv allow b s1" "tx_inhibit s1 = None" "tx_reactivated s1 = tx_reactivated s" "r = Inr ()"
    by (auto simp: after_body_def)
  with f assms show ?thesis
    by (auto simp: cleanup_steps_def io_bind_def push_step_def io_ignore_def tx_do_def always_def after_body_def
        tx_inv_def split: prod.split)
qed

section \<open>The whole run\<close>

lemma attempt_triple:
  assumes "set (computeAtAllowlist cmds) \<subseteq> allow"
  shows "triple (\<lambda>s. body_inv allow b s \<and> tx_inhibit s = None)
    (io_catch
      (io_bind (switch_steps env request plan (createTransitionAtLease env cmds))
        (\<lambda>device. finish_steps env request plan (createTransitionAtLease env cmds) device))
      (\<lambda>e. io_bind (forceUninhibit env) (\<lambda>_. io_bind (reprobe env) (\<lambda>_. io_return (TransitionFailed True e)))))
    (after_body allow b) (\<lambda>_. body_inv allow b)"
proof (rule triple_catch)
  show "triple (\<lambda>s. body_inv allow b s \<and> tx_inhibit s = None)
      (io_bind (switch_steps env request plan (createTransitionAtLease env cmds))
        (\<lambda>device. finish_steps env request plan (createTransitionAtLease env cmds) device))
      (after_body allow b) (\<lambda>_. body_inv allow b)"
    by (rule triple_bind [OF switch_triple [OF assms]]) (rule finish_triple [OF assms])
next
  fix e
  show "triple (body_inv allow b)
      (io_bind (forceUninhibit env) (\<lambda>_. io_bind (reprobe env) (\<lambda>_. io_return (TransitionFailed True e))))
      (after_body allow b) (\<lambda>_. body_inv allow b)"
    unfolding reprobe_def
    by (intro preserves_bind preserves_forceUninhibit preserves_ignore preserves_enumerate)
       (auto intro!: triple_return after_body_failed)
qed

lemma catch_total: "(\<And>e s. \<exists>a s'. handler e s = (Inr a, s')) \<Longrightarrow> \<exists>a s'. io_catch m handler s = (Inr a, s')"
  by (simp add: io_catch_def split: prod.split sum.split)

lemma recovery_total:
  "\<exists>a s'. io_bind (forceUninhibit env) (\<lambda>_. io_bind (reprobe env) (\<lambda>_. io_return (TransitionFailed True e))) s = (Inr a, s')"
  by (auto simp: io_bind_def forceUninhibit_def releaseInhibit_def reprobe_def io_ignore_def io_return_def push_step_def
      split: option.split prod.split sum.split)

definition balanced :: "string + transition_result \<Rightarrow> 'h tx_call list \<Rightarrow> bool" where
  "balanced r cs \<longleftrightarrow>
     taken InhibitLease cs = given InhibitLease cs \<and>
     taken InterlockHold cs = given InterlockHold cs \<and>
     (if \<exists>n. r = Inr (TransitionSucceeded n)
      then (\<exists>q. taken QuiesceLease cs = given QuiesceLease cs @ [q])
      else taken QuiesceLease cs = given QuiesceLease cs)"

lemma runTransaction_holds:
  assumes inv: "tx_inv allow b (s\<lparr>tx_inhibit := None\<rparr>)" and allow: "set (computeAtAllowlist cmds) \<subseteq> allow"
    and q: "hg_quiesces b = (tq, tq)"
  shows "case runTransaction env request cmds plan s of (r, s') \<Rightarrow>
    tx_inhibit s' = None \<and> (\<forall>st x. r \<noteq> Inr (TransitionRefused st x)) \<and>
    (\<exists>tq' gq'. tx_inv allow (b\<lparr>hg_quiesces := (tq', gq')\<rparr>) s' \<and>
       (if \<exists>n. r = Inr (TransitionSucceeded n) then \<exists>h. tq' = gq' @ [h] else tq' = gq'))"
proof -
  let ?s = "s\<lparr>tx_inhibit := None, tx_reactivated := False, tx_steps := tx_steps s @ [''nm-quiesce'']\<rparr>"
  let ?lease = "createTransitionAtLease env cmds"
  let ?body = "io_catch
      (io_bind (switch_steps env request plan ?lease) (\<lambda>device. finish_steps env request plan ?lease device))
      (\<lambda>e. io_bind (forceUninhibit env) (\<lambda>_. io_bind (reprobe env) (\<lambda>_. io_return (TransitionFailed True e))))"
  obtain rq s1 where a: "tx_do (acquires QuiesceLease) env
      (te_acquireQuiesce env (um_connectionId request) (um_deviceIfname request)) ?s = (rq, s1)" by force
  have run: "runTransaction env request cmds plan s = io_bind (tx_do (acquires QuiesceLease) env
      (te_acquireQuiesce env (um_connectionId request) (um_deviceIfname request)))
      (\<lambda>quiesce. io_finally ?body (cleanup_steps env quiesce)) ?s"
    by (simp add: runTransaction_def Let_def push_step_def io_bind_def)
  show ?thesis
  proof (cases rq)
    case (Inl e)
    with a run have "runTransaction env request cmds plan s = (Inl e, s1)" by (simp add: io_bind_def)
    moreover have "tx_inv allow b s1 \<and> tx_inhibit s1 = None"
      using a Inl inv by (auto simp: tx_do_def acquires_def tx_inv_def split: prod.splits)
    ultimately show ?thesis using q by (auto intro!: exI [of _ tq] simp flip: q)
  next
    case (Inr h)
    let ?b = "b\<lparr>hg_quiesces := (tq @ [h], tq)\<rparr>"
    have s1: "body_inv allow ?b s1 \<and> tx_inhibit s1 = None"
      using a Inr inv q by (auto simp: tx_do_def acquires_def tx_inv_def body_inv_def split: prod.splits)
    obtain result s2 where body: "?body s1 = (Inr result, s2)"
      using catch_total [of "\<lambda>e. io_bind (forceUninhibit env) (\<lambda>_. io_bind (reprobe env) (\<lambda>_. io_return (TransitionFailed True e)))"]
        recovery_total by blast
    have after: "after_body allow ?b result s2"
      using tripleD_Inr [OF attempt_triple [OF allow] s1 body] .
    obtain rc s3 where c: "cleanup_steps env h s2 = (rc, s3)" by force
    with cleanup_holds [OF after, where env = env and q = h and tq = "tq @ [h]" and gq = tq] have s3: "rc = Inr ()" "tx_inhibit s3 = None"
        "tx_inv allow (b\<lparr>hg_quiesces := (tq @ [h], if \<exists>n. result = TransitionSucceeded n then tq else tq @ [h])\<rparr>) s3"
      by auto
    have "runTransaction env request cmds plan s = (Inr result, s3)"
      using run a Inr body c s3(1) by (simp add: io_bind_def io_finally_def)
    with s3 after show ?thesis
      by (auto simp: after_body_def split: if_splits)
  qed
qed

lemma admission_calls:
  assumes "checkTransitionAdmission env request s = (r, s')"
  shows "tx_calls s' = tx_calls s"
  using assms by (auto simp: checkTransitionAdmission_def tx_do_def silent_def split: prod.splits)

lemma admission_static:
  assumes "checkTransitionAdmission env request s = (Inr (Inr a), s')"
  shows "staticPlan (te_catalog env) (um_strategy request) = Inr a"
  using assms checkTransitionPreconditions_Inr
  by (fastforce simp: checkTransitionAdmission_def tx_do_def split: prod.splits)

lemma inActor_holds:
  assumes start: "tx_calls s = []"
    and plan: "\<And>a. staticPlan (te_catalog env) (um_strategy request) = Inr a \<Longrightarrow>
      set (computeAtAllowlist (ad_allowlistedCommands a)) \<subseteq> allow"
    and run: "inActor env request s = (r, s')"
  shows "balanced r (tx_calls s') \<and> set (sent (tx_calls s')) \<subseteq> allow \<and>
    ((\<exists>st x. r = Inr (TransitionRefused st x)) \<longrightarrow> tx_calls s' = [])"
proof -
  let ?s = "s\<lparr>tx_steps := tx_steps s @ [''actor-enter'']\<rparr>"
  obtain rc s1 where c: "checkTransitionAdmission env request ?s = (rc, s1)" by force
  have s1: "tx_calls s1 = []" using admission_calls [OF c] start by simp
  consider (none) "\<forall>a. rc \<noteq> Inr (Inr a)" | (ok) a where "rc = Inr (Inr a)" by blast
  then show ?thesis
  proof cases
    case none
    with run c s1 show ?thesis
      by (cases rc) (auto simp: inActor_def io_bind_def push_step_def io_return_def balanced_def split: sum.splits)
  next
    case ok
    let ?rel = "\<lambda>h. io_bind (push_step ''release-interlock'')
        (\<lambda>_. io_ignore (tx_do (always (Released InterlockHold h)) env (te_releaseHold env h)))"
    obtain rh s2 where h: "tx_do (acquires InterlockHold) env (te_hold env (um_stableKey request)) s1 = (rh, s2)" by force
    show ?thesis
    proof (cases rh)
      case (Inl e)
      with h s1 have "tx_calls s2 = []" by (auto simp: tx_do_def acquires_def split: prod.splits)
      with run c ok h Inl show ?thesis
        by (auto simp: inActor_def io_bind_def push_step_def balanced_def)
    next
      case (Inr hold)
      from h s1 Inr have s2: "tx_calls s2 = [Acquired InterlockHold hold]"
        by (auto simp: tx_do_def acquires_def split: prod.splits)
      obtain rt s3 where t: "runTransaction env request (ad_allowlistedCommands a) (ad_plan a) s2 = (rt, s3)" by force
      have "tx_inv allow \<lparr>hg_holds = ([hold], []), hg_quiesces = ([], [])\<rparr> (s2\<lparr>tx_inhibit := None\<rparr>)"
        by (simp add: tx_inv_def s2)
      from runTransaction_holds [OF this plan, of a "[]" env request "ad_plan a"] t admission_static [OF c [unfolded ok]]
      obtain tq gq where s3: "tx_inhibit s3 = None" "\<forall>st x. rt \<noteq> Inr (TransitionRefused st x)"
          "tx_inv allow \<lparr>hg_holds = ([hold], []), hg_quiesces = (tq, gq)\<rparr> s3"
          "if \<exists>n. rt = Inr (TransitionSucceeded n) then \<exists>h. tq = gq @ [h] else tq = gq"
        by auto
      obtain u s4 where rel: "?rel hold s3 = (Inr u, s4)" "tx_calls s4 = tx_calls s3 @ [Released InterlockHold hold]"
        by (auto simp: io_bind_def push_step_def io_ignore_def tx_do_def always_def split: prod.split)
      have "inActor env request s = (rt, s4)"
        using c ok h Inr t rel(1) by (simp add: inActor_def io_bind_def push_step_def io_finally_def)
      with run s3 rel(2) show ?thesis
        by (auto simp: balanced_def tx_inv_def split: if_splits)
    qed
  qed
qed

section \<open>What a success rests on\<close>

lemma io_bind_InrE:
  assumes "io_bind m f s = (Inr b, s')"
  obtains a s1 where "m s = (Inr a, s1)" and "f a s1 = (Inr b, s')"
  using assms by (auto simp: io_bind_def split: prod.splits sum.splits)

lemma io_catch_InrE:
  assumes "io_catch m handler s = (Inr b, s')"
  obtains "m s = (Inr b, s')" | e s1 where "m s = (Inl e, s1)" "handler e s1 = (Inr b, s')"
  using assms by (auto simp: io_catch_def split: prod.splits sum.splits)

lemma io_finally_InrE:
  assumes "io_finally m fin s = (Inr b, s')"
  obtains s1 u where "m s = (Inr b, s1)" "fin s1 = (Inr u, s')"
  using assms by (auto simp: io_finally_def split: prod.splits sum.splits)

lemma await_poll_found:
  "await_poll env found deadline message s = (Inr a, s') \<Longrightarrow> \<exists>devices. found devices = Some a"
proof (induction env found deadline message s rule: await_poll.induct)
  case (1 env found deadline message s)
  obtain r s1 where e: "tx_enumerate env s = (r, s1)" by force
  from 1(2) have "tx_clock s < deadline" by (subst (asm) await_poll.simps) (auto split: if_splits)
  with 1(1) [OF this e [symmetric]] 1(2) e show ?case
    by (subst (asm) (2) await_poll.simps) (cases r; auto split: option.splits)
qed

definition proof_held :: "('w, 'h) tx_env \<Rightarrow> transition_proof \<Rightarrow> usb_device \<Rightarrow> bool" where
  "proof_held env prf device \<longleftrightarrow>
     (case prf of
        CatalogDescriptors t \<Rightarrow>
          detectUsbMode device = Some (pt_to t) \<and> descriptorsMatch device (pt_expectedDescriptors t)
      | RuntimeRequery vendor target query \<Rightarrow>
          \<exists>w response w'. te_send env query w = (SendReplied response, w') \<and>
            readRuntimeCompositionCurrent (vendor_text vendor) (ar_raw response) = Some target)"

lemma postcondition_proof:
  assumes "transitionPostconditionFailure plan device (createTransitionAtLease env cmds) uid s = (Inr None, s')"
  shows "proof_held env (tp_proof plan) device"
proof (cases "tp_proof plan")
  case (CatalogDescriptors t)
  with assms show ?thesis
    by (auto simp: transitionPostconditionFailure_def proof_held_def Let_def io_return_def split: if_splits)
next
  case (RuntimeRequery vendor target query)
  with assms obtain s1 response s2 where
    "lease_run (createTransitionAtLease env cmds) query (uid_context uid) s1 = (Inr response, s2)"
    "readRuntimeCompositionCurrent (vendor_text vendor) (ar_raw response) = Some target"
    by (auto simp: transitionPostconditionFailure_def Let_def io_return_def elim!: io_bind_InrE split: if_splits)
  moreover from lease_run_Inr [OF this(1)] obtain s3 where "tx_send env query s1 = (SendReplied response, s3)"
    by (auto simp: createTransitionAtLease_def)
  ultimately show ?thesis
    using RuntimeRequery by (auto simp: proof_held_def tx_send_def split: prod.splits)
qed

lemma finish_success:
  assumes "finish_steps env request plan (createTransitionAtLease env cmds) device s = (Inr (TransitionSucceeded n), s')"
  shows "proof_held env (tp_proof plan) device \<and> te_resolveIfname env device = Some n"
  using assms postcondition_proof
  by (fastforce simp: finish_steps_def io_return_def elim!: io_bind_InrE split: option.splits)

lemma switch_device:
  assumes "switch_steps env request plan lease s = (Inr device, s')"
  shows "ud_physicalUid device = Some (um_cachedPhysicalUid request)"
  using assms
  by (auto simp: switch_steps_def awaitDevice_def elim!: io_bind_InrE dest!: await_poll_found find_SomeD)

lemma runTransaction_success:
  assumes "runTransaction env request cmds plan s = (Inr (TransitionSucceeded n), s')"
  shows "\<exists>device. ud_physicalUid device = Some (um_cachedPhysicalUid request) \<and>
    proof_held env (tp_proof plan) device \<and> te_resolveIfname env device = Some n"
  using assms
  by (auto simp: runTransaction_def Let_def io_return_def
      elim!: io_bind_InrE io_finally_InrE io_catch_InrE dest!: switch_device finish_success)

lemma inActor_success:
  assumes "inActor env request s = (Inr (TransitionSucceeded n), s')"
  shows "\<exists>a device. staticPlan (te_catalog env) (um_strategy request) = Inr a \<and>
    ud_physicalUid device = Some (um_cachedPhysicalUid request) \<and>
    proof_held env (tp_proof (ad_plan a)) device \<and> te_resolveIfname env device = Some n"
proof -
  obtain a cmds plan s1 s2 where "staticPlan (te_catalog env) (um_strategy request) = Inr a"
      "cmds = ad_allowlistedCommands a" "plan = ad_plan a"
      "runTransaction env request cmds plan s1 = (Inr (TransitionSucceeded n), s2)"
    using assms
    by (auto simp: inActor_def io_return_def elim!: io_bind_InrE io_finally_InrE split: sum.splits
        dest!: admission_static)
  with runTransaction_success show ?thesis by blast
qed

section \<open>The loops end in time\<close>

lemma await_poll_count:
  assumes "0 < te_pollMs env"
  shows "length (tx_calls (snd (await_poll env found deadline message s))) * te_pollMs env \<le>
    length (tx_calls s) * te_pollMs env +
      (if tx_clock s < deadline then deadline - tx_clock s + te_pollMs env - 1 else 0)"
proof (induction env found deadline message s rule: await_poll.induct)
  case (1 env found deadline message s)
  let ?p = "te_pollMs env"
  show ?case
  proof (cases "tx_clock s < deadline")
    case False
    then show ?thesis by (subst await_poll.simps) simp
  next
    case True
    obtain r s1 where e: "tx_enumerate env s = (r, s1)" by force
    then have l: "length (tx_calls s1) = Suc (length (tx_calls s))" "tx_clock s \<le> tx_clock s1"
      by (auto simp: tx_enumerate_def tx_do_def always_def split: prod.splits)
    show ?thesis
    proof (cases "\<exists>devices. r = Inr devices \<and> found devices = None")
      case False
      with True e l assms show ?thesis by (subst await_poll.simps) (auto split: sum.split option.split)
    next
      case again: True
      then obtain devices where d: "r = Inr devices" "found devices = None" by blast
      let ?s2 = "tx_sleep env s1"
      have s2: "length (tx_calls ?s2) = Suc (length (tx_calls s))" "tx_clock s + ?p \<le> tx_clock ?s2"
        using l by (auto simp: tx_sleep_def Let_def)
      have "await_poll env found deadline message s = await_poll env found deadline message ?s2"
        using True e d by (subst await_poll.simps) simp
      moreover have "length (tx_calls (snd (await_poll env found deadline message ?s2))) * ?p \<le>
          length (tx_calls ?s2) * ?p + (if tx_clock ?s2 < deadline then deadline - tx_clock ?s2 + ?p - 1 else 0)"
        using 1 [OF True e [symmetric] d] .
      moreover have "?p + (if tx_clock ?s2 < deadline then deadline - tx_clock ?s2 + ?p - 1 else 0) \<le>
          deadline - tx_clock s + ?p - 1"
        using s2(2) True assms by auto
      ultimately show ?thesis using s2(1) True by simp
    qed
  qed
qed

end
