(* ===== verification/Usb_Transition_Properties.thy ===== *)
theory Usb_Transition_Properties
  imports Usb_Transition_Safety
begin

text \<open>The properties of the USB-mode transition, with a run on a scripted device.\<close>

definition result_of :: "string + transition_outcome \<Rightarrow> string + transition_result" where
  "result_of r = (case r of Inl e \<Rightarrow> Inl e | Inr out \<Rightarrow> Inr (to_result out))"

lemma execute_cases:
  assumes "execute_transition env request s = (r, s')"
  obtains (early) "tx_calls s' = tx_calls s" "\<forall>n. result_of r \<noteq> Inr (TransitionSucceeded n)"
  | (run) a s1 where "staticPlan (te_catalog env) (um_strategy request) = Inr a"
      "tx_calls s1 = tx_calls s" "inActor env request s1 = (result_of r, s')"
proof -
  obtain rc s1 where c: "checkTransitionAdmission env request (s\<lparr>tx_steps := []\<rparr>) = (rc, s1)" by force
  have s1: "tx_calls s1 = tx_calls s" using admission_calls [OF c] by simp
  consider (none) "\<forall>a. rc \<noteq> Inr (Inr a)" | (ok) a where "rc = Inr (Inr a)" by blast
  then show thesis
  proof cases
    case none
    with assms c s1 show thesis
      by (intro early) (auto simp: execute_transition_def Let_def result_of_def split: sum.splits)
  next
    case ok
    with assms c have "inActor env request (s1\<lparr>tx_world := te_turn env (tx_world s1)\<rparr>) = (result_of r, s')"
      by (auto simp: execute_transition_def Let_def result_of_def split: prod.splits sum.splits)
    with s1 ok admission_static [OF c [unfolded ok]] show thesis by (intro run) auto
  qed
qed

section \<open>A scripted run\<close>

text \<open>The device is gone at the first enumeration and back in its new mode from the second on.\<close>

definition script_catalog :: certified_catalog where
  "script_catalog = \<lparr>cc_schemaVersion = 1, cc_entries = [
     \<lparr>ce_vidPid = ''2c7c:0125'', ce_model = ''M'', ce_firmwarePrefix = ''F'', ce_canonicalMode = Qmi,
      ce_permittedTransitions = [shipped_transition Qmi Mbim ''Q'' [triple_of 2 14 0]]\<rparr>]\<rparr>"

definition script_env :: "(nat, string) tx_env" where
  "script_env = \<lparr>te_lag = (\<lambda>_. 1), te_turn = id, te_wait = (\<lambda>_ w. w),
     te_canDisrupt = (\<lambda>_. io_return InterlockAllow),
     te_hold = (\<lambda>_. io_return ''hold''), te_releaseHold = (\<lambda>_. io_throw ''gone''),
     te_acquireQuiesce = (\<lambda>_ _. io_return ''quiesce''), te_releaseQuiesce = (\<lambda>_. io_return ()),
     te_activate = (\<lambda>_ _. io_return ()),
     te_inhibit = (\<lambda>_. io_return ''inhibit''), te_uninhibit = (\<lambda>_. io_return ()),
     te_send = (\<lambda>_ w. (SendReplied \<lparr>ar_ok = True, ar_raw = ''OK''\<rparr>, w)),
     te_enumerate = (\<lambda>w. (Inr (if w = 0 then [] else [sample_device]), Suc w)),
     te_audit = None, te_resolveIfname = defaultResolveIfname, te_catalog = script_catalog,
     te_watchdogMs = 3, te_reenumMs = 5, te_pollMs = 2\<rparr>"

definition script_request :: "nat usb_mode_request" where
  "script_request = \<lparr>um_stableKey = ''slot'', um_connectionId = ''c'', um_deviceIfname = ''wwan0'',
     um_cachedPhysicalUid = ''usb-1-2'', um_inhibitUid = ''/dev'', um_confirm = True, um_maintenance = True,
     um_now = 0, um_probeReadiness = io_return ConfHigh,
     um_strategy = CatalogStrategy \<lparr>sku_vidPid = ''2c7c:0125'', sku_model = ''M'',
       sku_firmwarePrefix = ''F''\<rparr> Qmi Mbim\<rparr>"

definition script_start :: "(nat, string) tx" where
  "script_start = \<lparr>tx_world = 0, tx_clock = 0, tx_steps = [], tx_inhibit = None, tx_reactivated = False, tx_calls = []\<rparr>"

lemma script_plan:
  "staticPlan script_catalog (um_strategy script_request) =
     Inr \<lparr>ad_entry = Some (cc_entries script_catalog ! 0),
          ad_plan = catalog_plan (shipped_transition Qmi Mbim ''Q'' [triple_of 2 14 0]),
          ad_allowlistedCommands = [''Q'']\<rparr>"
  by code_simp

lemma script_device:
  "detectUsbMode sample_device = Some Mbim"
  "descriptorsMatch sample_device \<lparr>ed_deviceClass = 0, ed_interfaces = [triple_of 2 14 0]\<rparr>"
  "ud_physicalUid sample_device = Some ''usb-1-2''" "defaultResolveIfname sample_device = Some ''wwan0''"
  by code_simp+

lemmas transition_eval = execute_transition_def inActor_def checkTransitionAdmission_def
  checkTransitionPreconditions_def runTransaction_def switch_steps_def finish_steps_def cleanup_steps_def
  inhibit_step_def uninhibit_step_def reactivate_step_def forceUninhibit_def releaseInhibit_def
  awaitPortDrop_def awaitDevice_def await_poll.simps tx_enumerate_def transitionPostconditionFailure_def
  createTransitionAtLease_def lease_run_def lease_note_def lease_record_def tx_send_def tx_do_def push_step_def

lemmas io_eval = io_bind_def io_return_def io_throw_def io_finally_def io_catch_def io_ignore_def

lemma script_result:
  "fst (execute_transition script_env script_request script_start) =
     Inr \<lparr>to_result = TransitionSucceeded ''wwan0'',
          to_steps = [''actor-enter'', ''nm-quiesce'', ''inhibit'', ''at-command'', ''await-port-drop'',
            ''uninhibit'', ''await-reenumeration'', ''postcondition'', ''resolve-ifname'', ''reactivate'',
            ''release-interlock'']\<rparr>"
  using script_plan
  by (simp add: transition_eval io_eval script_env_def script_request_def script_start_def silent_def
      acquires_def always_def Let_def catalog_plan_def shipped_transition_def script_device)

lemma script_run:
  "execute_transition script_env script_request script_start =
     (Inr (projr (fst (execute_transition script_env script_request script_start))),
      snd (execute_transition script_env script_request script_start))"
  using script_result by (metis prod.collapse sum.sel(2))

lemma poll_count_bound:
  assumes "0 < te_pollMs env"
  shows "(length (tx_calls (snd (await_poll env found (tx_clock s + te_reenumMs env) message s))) - length (tx_calls s)) *
      te_pollMs env \<le> te_reenumMs env + te_pollMs env - 1"
  using await_poll_count [OF assms, of found "tx_clock s + te_reenumMs env" message s] assms
  by (simp add: diff_mult_distrib split: if_splits)

section \<open>Properties\<close>

text \<open>C8: what a transition takes it gives back, on every path (a refusal, a throw of any collaborator, a timeout, a failed postcondition, a success): the ModemManager inhibit and the interlock hold have been released when it ends, and so has the NetworkManager quiesce lease, except that after a success the one lease taken is superseded by the new activation.\<close>

theorem transition_gives_back:
  assumes "execute_transition env request s = (r, s')" and "tx_calls s = []"
  shows "balanced (result_of r) (tx_calls s')"
  using assms(1)
proof (cases rule: execute_cases)
  case early
  with assms(2) show ?thesis by (simp add: balanced_def)
next
  case (run a s1)
  have "balanced (result_of r) (tx_calls s') \<and> set (sent (tx_calls s')) \<subseteq> UNIV \<and>
      ((\<exists>st x. result_of r = Inr (TransitionRefused st x)) \<longrightarrow> tx_calls s' = [])"
    by (rule inActor_holds [OF _ _ run(3)]) (use assms(2) run in auto)
  then show ?thesis by blast
qed

lemma transition_gives_back_witness:
  "balanced (result_of (fst (execute_transition script_env script_request script_start)))
     (tx_calls (snd (execute_transition script_env script_request script_start)))"
  by (rule transition_gives_back [of script_env script_request script_start])
     (simp_all add: script_start_def)

text \<open>C9: a transition sends only certified commands: every AT command it sends is in the allowlist of the plan the request was admitted with, the commands of the plan are in that allowlist, and a refused transition has taken nothing, sent nothing and activated nothing.\<close>

theorem transition_sends_only_certified:
  assumes "execute_transition env request s = (r, s')" and "tx_calls s = []"
  shows "(\<forall>command \<in> set (sent (tx_calls s')). \<exists>a.
      staticPlan (te_catalog env) (um_strategy request) = Inr a \<and>
      command \<in> set AT_BASELINE_ALLOWLIST \<union> set (ad_allowlistedCommands a) \<and>
      plan_commands (ad_plan a) \<subseteq> set (ad_allowlistedCommands a)) \<and>
    ((\<exists>st x. result_of r = Inr (TransitionRefused st x)) \<longrightarrow> tx_calls s' = [])"
  using assms(1)
proof (cases rule: execute_cases)
  case early
  with assms(2) show ?thesis by simp
next
  case (run a s1)
  have "balanced (result_of r) (tx_calls s') \<and>
      set (sent (tx_calls s')) \<subseteq> set (computeAtAllowlist (ad_allowlistedCommands a)) \<and>
      ((\<exists>st x. result_of r = Inr (TransitionRefused st x)) \<longrightarrow> tx_calls s' = [])"
    by (rule inActor_holds [OF _ _ run(3)]) (use assms(2) run in auto)
  with run(1) staticPlan_sound(1) [OF run(1)] show ?thesis by auto
qed

lemma transition_sends_only_certified_witness:
  "set (sent (tx_calls (snd (execute_transition script_env script_request script_start))))
     \<subseteq> insert ''Q'' (set AT_BASELINE_ALLOWLIST)"
proof -
  have "tx_calls script_start = []" "te_catalog script_env = script_catalog"
    by (simp_all add: script_start_def script_env_def)
  with transition_sends_only_certified [of script_env script_request script_start, OF surjective_pairing]
  show ?thesis using script_plan by auto
qed



text \<open>The waits for the port drop and for the new device end: with a poll interval p of at least a millisecond and a timeout t, a wait enumerates at most (t + p - 1) / p times, whatever the enumerations answer and however long they take.\<close>

theorem waits_terminate:
  assumes "0 < te_pollMs env"
  shows "(length (tx_calls (snd (awaitPortDrop env uid s))) - length (tx_calls s)) * te_pollMs env \<le>
      te_reenumMs env + te_pollMs env - 1 \<and>
    (length (tx_calls (snd (awaitDevice env uid s))) - length (tx_calls s)) * te_pollMs env \<le>
      te_reenumMs env + te_pollMs env - 1"
  unfolding awaitPortDrop_def awaitDevice_def by (intro conjI poll_count_bound assms)

lemma waits_terminate_witness:
  "(length (tx_calls (snd (awaitDevice script_env ''usb-1-2'' script_start))) - 0) * 2 \<le> 5 + 2 - 1"
  using waits_terminate [of script_env "''usb-1-2''" script_start] by (simp add: script_env_def script_start_def)

end
