(* ===== verification/Journal_Codec.thy ===== *)
theory Journal_Codec
  imports Operation Json
begin

text \<open>
  The journal entry (\<open>journal/entry.ts\<close>) and its line codec (\<open>journal/codec.ts\<close>). The schema
  version of every entry in memory is 1, so it is not a field; a decode failure is the metadata
  the code keeps, without the runtime's character offset of a syntax error. A thrown
  \<open>SchemaError\<close>, \<open>SchemaVersionError\<close> or \<open>SyntaxError\<close> is the corresponding failure in \<open>Inl\<close>.
\<close>

section \<open>The entry\<close>

definition JOURNAL_SCHEMA_VERSION :: int where
  "JOURNAL_SCHEMA_VERSION = 1"

datatype journal_outcome =
    OutApplied
  | OutRefused string
  | OutFailed string
  | OutUnknown unknown_reason

record journal_evidence =
  ev_descriptorId :: string
  ev_provider :: string
  ev_authority :: operation_authority
  ev_mutationImpact :: mutation_impact
  ev_profiles :: "string list"
  ev_firmware :: "string list"
  ev_confidence :: operation_confidence

record journal_base =
  je_operationId :: string
  je_physicalModemId :: string
  je_generation :: int
  je_recordedAtMs :: int
  je_descriptor :: journal_evidence

datatype journal_entry =
    EntryStarted journal_base
  | EntryCompleted journal_base journal_outcome

fun entry_base :: "journal_entry \<Rightarrow> journal_base" where
  "entry_base (EntryStarted b) = b"
| "entry_base (EntryCompleted b _) = b"

definition journalDescriptorEvidence :: "('i, 'o) operation_descriptor \<Rightarrow> journal_evidence" where
  "journalDescriptorEvidence descriptor =
     \<lparr>ev_descriptorId = d_id descriptor, ev_provider = d_provider descriptor,
      ev_authority = d_authority descriptor, ev_mutationImpact = d_mutationImpact descriptor,
      ev_profiles = d_profiles descriptor, ev_firmware = d_firmware descriptor,
      ev_confidence = d_confidence descriptor\<rparr>"

fun journalOutcome :: "'o operation_result \<Rightarrow> journal_outcome" where
  "journalOutcome (ResultApplied _ _) = OutApplied"
| "journalOutcome (ResultRefused reason _) = OutRefused reason"
| "journalOutcome (ResultFailed reason _) = OutFailed reason"
| "journalOutcome (ResultUnknown reason _) = OutUnknown reason"

fun outcomeRequiresReconciliation :: "journal_outcome \<Rightarrow> bool" where
  "outcomeRequiresReconciliation (OutUnknown _) = True"
| "outcomeRequiresReconciliation _ = False"

section \<open>The vocabularies\<close>

fun authority_text :: "operation_authority \<Rightarrow> string" where
  "authority_text AuthProvider = ''provider''"
| "authority_text AuthController = ''controller''"
| "authority_text AuthHardware = ''hardware''"

fun impact_text :: "mutation_impact \<Rightarrow> string" where
  "impact_text ImpactRead = ''read''"
| "impact_text ImpactWrite = ''write''"
| "impact_text ImpactSession = ''session''"
| "impact_text ImpactDisruptive = ''disruptive''"
| "impact_text ImpactRecovery = ''recovery''"

fun confidence_text :: "operation_confidence \<Rightarrow> string" where
  "confidence_text OpConfHigh = ''high''"
| "confidence_text OpConfMedium = ''medium''"
| "confidence_text OpConfLow = ''low''"
| "confidence_text OpConfUnknown = ''unknown''"

fun unknown_reason_text :: "unknown_reason \<Rightarrow> string" where
  "unknown_reason_text StaleGeneration = ''stale-generation''"
| "unknown_reason_text WriteReplyTimedOut = ''write-reply-timed-out''"
| "unknown_reason_text WriteReplyDropped = ''write-reply-dropped''"

definition keyed :: "('a \<Rightarrow> string) \<Rightarrow> 'a list \<Rightarrow> (string \<times> 'a) list" where
  "keyed text values = map (\<lambda>v. (text v, v)) values"

definition AUTHORITIES :: "(string \<times> operation_authority) list" where
  "AUTHORITIES = keyed authority_text [AuthProvider, AuthController, AuthHardware]"

definition IMPACTS :: "(string \<times> mutation_impact) list" where
  "IMPACTS = keyed impact_text [ImpactRead, ImpactWrite, ImpactSession, ImpactDisruptive, ImpactRecovery]"

definition CONFIDENCES :: "(string \<times> operation_confidence) list" where
  "CONFIDENCES = keyed confidence_text [OpConfHigh, OpConfMedium, OpConfLow, OpConfUnknown]"

definition UNKNOWN_OUTCOME_REASONS :: "(string \<times> unknown_reason) list" where
  "UNKNOWN_OUTCOME_REASONS =
     keyed unknown_reason_text [StaleGeneration, WriteReplyTimedOut, WriteReplyDropped]"

section \<open>Decoding\<close>

datatype decode_failure =
    FailEmpty
  | FailInvalidJson
  | FailUnsupportedVersion
  | FailSchema string
  | FailUnreadable

type_synonym 'a decoded = "decode_failure + 'a"
type_synonym source = "(string \<times> rat json) list"

text \<open>\<open>record(raw, field)\<close>; \<open>None\<close> is \<open>undefined\<close>.\<close>

definition schema_record :: "rat json option \<Rightarrow> string \<Rightarrow> source decoded" where
  "schema_record raw field = (case raw of Some (JObj ms) \<Rightarrow> Inr ms | _ \<Rightarrow> Inl (FailSchema field))"

definition requiredString :: "source \<Rightarrow> string \<Rightarrow> string decoded" where
  "requiredString source field =
     (case map_of source field of
        Some (JStr s) \<Rightarrow> if s = [] then Inl (FailSchema field) else Inr s
      | _ \<Rightarrow> Inl (FailSchema field))"

definition optionalString :: "source \<Rightarrow> string \<Rightarrow> string option decoded" where
  "optionalString source field =
     (case map_of source field of
        None \<Rightarrow> Inr None
      | Some (JStr s) \<Rightarrow> Inr (Some s)
      | _ \<Rightarrow> Inl (FailSchema field))"

definition requiredNonNegativeInteger :: "source \<Rightarrow> string \<Rightarrow> int decoded" where
  "requiredNonNegativeInteger source field =
     (case map_of source field of
        Some (JNum q) \<Rightarrow>
          if of_int (floor q) = q \<and> 0 \<le> q then Inr (floor q) else Inl (FailSchema field)
      | _ \<Rightarrow> Inl (FailSchema field))"

fun json_text :: "'n json \<Rightarrow> string option" where
  "json_text (JStr s) = Some s"
| "json_text _ = None"

fun all_some :: "'a option list \<Rightarrow> 'a list option" where
  "all_some [] = Some []"
| "all_some (x # xs) =
     (case x of None \<Rightarrow> None | Some a \<Rightarrow> map_option ((#) a) (all_some xs))"

definition requiredStringArray :: "source \<Rightarrow> string \<Rightarrow> string list decoded" where
  "requiredStringArray source field =
     (case map_of source field of
        Some (JArr xs) \<Rightarrow>
          (case all_some (map json_text xs) of Some ss \<Rightarrow> Inr ss | None \<Rightarrow> Inl (FailSchema field))
      | _ \<Rightarrow> Inl (FailSchema field))"

definition schema_member :: "source \<Rightarrow> string \<Rightarrow> (string \<times> 'a) list \<Rightarrow> 'a decoded" where
  "schema_member source field allowed =
     (case map_of source field of
        Some (JStr s) \<Rightarrow>
          (case map_of allowed s of Some v \<Rightarrow> Inr v | None \<Rightarrow> Inl (FailSchema field))
      | _ \<Rightarrow> Inl (FailSchema field))"

definition parseDescriptor :: "rat json option \<Rightarrow> journal_evidence decoded" where
  "parseDescriptor raw =
     sum_bind (schema_record raw ''descriptor'') (\<lambda>source.
     sum_bind (requiredString source ''descriptorId'') (\<lambda>descriptorId.
     sum_bind (requiredString source ''provider'') (\<lambda>provider.
     sum_bind (schema_member source ''authority'' AUTHORITIES) (\<lambda>authority.
     sum_bind (schema_member source ''mutationImpact'' IMPACTS) (\<lambda>impact.
     sum_bind (requiredStringArray source ''profiles'') (\<lambda>profiles.
     sum_bind (requiredStringArray source ''firmware'') (\<lambda>firmware.
     sum_bind (schema_member source ''confidence'' CONFIDENCES) (\<lambda>confidence.
     Inr \<lparr>ev_descriptorId = descriptorId, ev_provider = provider, ev_authority = authority,
          ev_mutationImpact = impact, ev_profiles = profiles, ev_firmware = firmware,
          ev_confidence = confidence\<rparr>))))))))"

datatype outcome_status = StatusApplied | StatusRefused | StatusFailed | StatusUnknown

definition OUTCOME_STATUSES :: "(string \<times> outcome_status) list" where
  "OUTCOME_STATUSES =
     [(''applied'', StatusApplied), (''refused'', StatusRefused), (''failed'', StatusFailed),
      (''unknown-outcome'', StatusUnknown)]"

definition parseOutcome :: "rat json option \<Rightarrow> journal_outcome decoded" where
  "parseOutcome raw =
     sum_bind (schema_record raw ''outcome'') (\<lambda>source.
     sum_bind (schema_member source ''status'' OUTCOME_STATUSES) (\<lambda>status.
       case status of
         StatusApplied \<Rightarrow> Inr OutApplied
       | StatusRefused \<Rightarrow> sum_bind (requiredString source ''reason'') (\<lambda>r. Inr (OutRefused r))
       | StatusFailed \<Rightarrow> sum_bind (requiredString source ''reason'') (\<lambda>r. Inr (OutFailed r))
       | StatusUnknown \<Rightarrow>
           sum_bind (schema_member source ''reason'' UNKNOWN_OUTCOME_REASONS) (\<lambda>r. Inr (OutUnknown r))))"

definition PHASES :: "(string \<times> bool) list" where
  "PHASES = [(''started'', True), (''completed'', False)]"

definition parseEntry :: "rat json \<Rightarrow> journal_entry decoded" where
  "parseEntry raw =
     sum_bind (schema_record (Some raw) ''entry'') (\<lambda>source.
     if map_of source ''schemaVersion'' \<noteq> Some (JNum (of_int JOURNAL_SCHEMA_VERSION))
     then Inl FailUnsupportedVersion
     else
     sum_bind (requiredString source ''operationId'') (\<lambda>operationId.
     sum_bind (requiredString source ''physicalModemId'') (\<lambda>physicalModemId.
     sum_bind (requiredNonNegativeInteger source ''generation'') (\<lambda>generation.
     sum_bind (requiredNonNegativeInteger source ''recordedAtMs'') (\<lambda>recordedAtMs.
     sum_bind (parseDescriptor (map_of source ''descriptor'')) (\<lambda>descriptor.
     let base = \<lparr>je_operationId = operationId, je_physicalModemId = physicalModemId,
                 je_generation = generation, je_recordedAtMs = recordedAtMs,
                 je_descriptor = descriptor\<rparr> in
     sum_bind (schema_member source ''phase'' PHASES) (\<lambda>started.
       if started then Inr (EntryStarted base)
       else sum_bind (parseOutcome (map_of source ''outcome'')) (\<lambda>outcome.
              Inr (EntryCompleted base outcome)))))))))"

text \<open>\<open>decodeJournalDocument\<close> with any validator; \<open>decodeJournalEntry\<close> is the same with \<open>parseEntry\<close>.\<close>

definition decodeJournalDocument :: "string \<Rightarrow> (rat json \<Rightarrow> 'a decoded) \<Rightarrow> 'a decoded" where
  "decodeJournalDocument text validate =
     (if js_trim text = [] then Inl FailEmpty
      else case json_parse text of None \<Rightarrow> Inl FailInvalidJson | Some raw \<Rightarrow> validate raw)"

definition decodeJournalEntry :: "string \<Rightarrow> journal_entry decoded" where
  "decodeJournalEntry line =
     (if js_trim line = [] then Inl FailEmpty
      else case json_parse line of None \<Rightarrow> Inl FailInvalidJson | Some raw \<Rightarrow> parseEntry raw)"

section \<open>Encoding\<close>

fun outcome_json :: "journal_outcome \<Rightarrow> int json" where
  "outcome_json OutApplied = JObj [(''status'', JStr ''applied'')]"
| "outcome_json (OutRefused r) = JObj [(''status'', JStr ''refused''), (''reason'', JStr r)]"
| "outcome_json (OutFailed r) = JObj [(''status'', JStr ''failed''), (''reason'', JStr r)]"
| "outcome_json (OutUnknown r) =
     JObj [(''status'', JStr ''unknown-outcome''), (''reason'', JStr (unknown_reason_text r))]"

definition evidence_json :: "journal_evidence \<Rightarrow> int json" where
  "evidence_json e = JObj
     [(''descriptorId'', JStr (ev_descriptorId e)), (''provider'', JStr (ev_provider e)),
      (''authority'', JStr (authority_text (ev_authority e))),
      (''mutationImpact'', JStr (impact_text (ev_mutationImpact e))),
      (''profiles'', JArr (map JStr (ev_profiles e))), (''firmware'', JArr (map JStr (ev_firmware e))),
      (''confidence'', JStr (confidence_text (ev_confidence e)))]"

definition base_members :: "string \<Rightarrow> journal_base \<Rightarrow> (string \<times> int json) list" where
  "base_members phase b =
     [(''schemaVersion'', JNum JOURNAL_SCHEMA_VERSION), (''phase'', JStr phase),
      (''operationId'', JStr (je_operationId b)), (''physicalModemId'', JStr (je_physicalModemId b)),
      (''generation'', JNum (je_generation b)), (''recordedAtMs'', JNum (je_recordedAtMs b)),
      (''descriptor'', evidence_json (je_descriptor b))]"

fun entry_json :: "journal_entry \<Rightarrow> int json" where
  "entry_json (EntryStarted b) = JObj (base_members ''started'' b)"
| "entry_json (EntryCompleted b outcome) =
     JObj (base_members ''completed'' b @ [(''outcome'', outcome_json outcome)])"

definition encodeJournalEntry :: "journal_entry \<Rightarrow> string" where
  "encodeJournalEntry entry = json_print (entry_json entry)"

section \<open>The round trip\<close>

text \<open>What the writer guarantees of an entry: the branded identifiers and reasons are non-empty,
  generation and time are not negative.\<close>

definition evidence_ok :: "journal_evidence \<Rightarrow> bool" where
  "evidence_ok e \<longleftrightarrow> ev_descriptorId e \<noteq> [] \<and> ev_provider e \<noteq> []"

fun outcome_ok :: "journal_outcome \<Rightarrow> bool" where
  "outcome_ok (OutRefused r) = (r \<noteq> [])"
| "outcome_ok (OutFailed r) = (r \<noteq> [])"
| "outcome_ok _ = True"

definition base_ok :: "journal_base \<Rightarrow> bool" where
  "base_ok b \<longleftrightarrow> je_operationId b \<noteq> [] \<and> je_physicalModemId b \<noteq> [] \<and> 0 \<le> je_generation b \<and>
     0 \<le> je_recordedAtMs b \<and> evidence_ok (je_descriptor b)"

fun entry_ok :: "journal_entry \<Rightarrow> bool" where
  "entry_ok (EntryStarted b) = base_ok b"
| "entry_ok (EntryCompleted b outcome) = (base_ok b \<and> outcome_ok outcome)"

lemma unique_JStr_list [simp]: "json_unique_all (map JStr ss)"
  by (induction ss) auto

lemma entry_json_unique: "json_unique (entry_json e)"
proof -
  have evidence: "json_unique (evidence_json d)" for d by (simp add: evidence_json_def)
  have outcome: "json_unique (outcome_json out)" for out by (cases out) auto
  show ?thesis by (cases e) (simp_all add: base_members_def evidence outcome)
qed

lemma authority_of_text [simp]: "map_of AUTHORITIES (authority_text a) = Some a"
  by (cases a) (simp_all add: AUTHORITIES_def keyed_def)

lemma impact_of_text [simp]: "map_of IMPACTS (impact_text i) = Some i"
  by (cases i) (simp_all add: IMPACTS_def keyed_def)

lemma confidence_of_text [simp]: "map_of CONFIDENCES (confidence_text c) = Some c"
  by (cases c) (simp_all add: CONFIDENCES_def keyed_def)

lemma reason_of_text [simp]: "map_of UNKNOWN_OUTCOME_REASONS (unknown_reason_text r) = Some r"
  by (cases r) (simp_all add: UNKNOWN_OUTCOME_REASONS_def keyed_def)

lemma all_some_texts [simp]: "all_some (map (json_text \<circ> parsed \<circ> JStr) ss) = Some ss"
  by (induction ss) auto

lemmas schema_reads = schema_record_def requiredString_def requiredNonNegativeInteger_def
  requiredStringArray_def schema_member_def

lemma parse_evidence: "evidence_ok d \<Longrightarrow> parseDescriptor (Some (parsed (evidence_json d))) = Inr d"
  by (simp add: parseDescriptor_def evidence_json_def schema_reads evidence_ok_def comp_assoc [symmetric])

lemma parse_outcome: "outcome_ok out \<Longrightarrow> parseOutcome (Some (parsed (outcome_json out))) = Inr out"
  by (cases out) (simp_all add: parseOutcome_def schema_reads OUTCOME_STATUSES_def)

lemma parse_entry_json: "entry_ok e \<Longrightarrow> parseEntry (parsed (entry_json e)) = Inr e"
  by (cases e)
     (simp_all add: parseEntry_def base_members_def schema_reads base_ok_def PHASES_def
      parse_evidence parse_outcome)

lemma decode_encode_json: "decodeJournalEntry (encodeJournalEntry e) = parseEntry (parsed (entry_json e))"
  by (simp add: decodeJournalEntry_def encodeJournalEntry_def print_not_blank json_parse_print
      entry_json_unique)

lemma decode_encode: "entry_ok e \<Longrightarrow> decodeJournalEntry (encodeJournalEntry e) = Inr e"
  by (simp add: decode_encode_json parse_entry_json)

text \<open>A completion whose reason is empty is written, and refused when it is read.\<close>

lemma decode_empty_reason:
  "base_ok b \<Longrightarrow> \<not> outcome_ok out \<Longrightarrow>
     decodeJournalEntry (encodeJournalEntry (EntryCompleted b out)) = Inl (FailSchema ''reason'')"
  by (cases out)
     (simp_all add: decode_encode_json parseEntry_def base_members_def schema_reads base_ok_def PHASES_def
      parse_evidence parseOutcome_def OUTCOME_STATUSES_def)

lemma encode_no_NL: "NL \<notin> set (encodeJournalEntry e)"
  by (simp add: encodeJournalEntry_def print_no_NL)

end
