(* ===== verification/Journal_Store.thy ===== *)
theory Journal_Store
  imports Journal_Codec
begin

text \<open>
  The append-only store (\<open>journal/store.ts\<close>). The file is the bytes at the injected path
  (\<open>None\<close> when it does not exist) and the state of the instance is \<open>#terminated\<close>. Appends are
  chained, so one runs at a time. What the file system does to one append is its
  \<open>append_fate\<close>: \<open>mkdir\<close> fails, the write stops after some bytes, \<open>chmod\<close> fails, or all succeed.
\<close>

section \<open>Reading\<close>

datatype damage_location = DamageLine nat bool | DamageSlot string | DamageFile

record damage_record =
  dm_location :: damage_location
  dm_bytes :: nat
  dm_failure :: decode_failure

record line_record =
  lr_line :: nat
  lr_entry :: journal_entry

record read_result =
  jr_entries :: "line_record list"
  jr_damage :: "damage_record list"

definition blank :: "string \<Rightarrow> bool" where
  "blank line \<longleftrightarrow> js_trim line = []"

text \<open>The index of the last line that is not blank; \<open>None\<close> is the code's \<open>-1\<close>.\<close>

fun lastPopulated :: "string list \<Rightarrow> nat option" where
  "lastPopulated [] = None"
| "lastPopulated (l # ls) =
     (case lastPopulated ls of
        Some i \<Rightarrow> Some (Suc i)
      | None \<Rightarrow> if blank l then None else Some 0)"

text \<open>The loop over the lines from index \<open>i\<close>.\<close>

fun decode_lines :: "nat option \<Rightarrow> nat \<Rightarrow> string list \<Rightarrow> read_result" where
  "decode_lines final i [] = \<lparr>jr_entries = [], jr_damage = []\<rparr>"
| "decode_lines final i (raw # rest) =
     (let r = decode_lines final (i + 1) rest in
      if blank raw then r
      else case decodeJournalEntry raw of
        Inr entry \<Rightarrow> r\<lparr>jr_entries := \<lparr>lr_line = i + 1, lr_entry = entry\<rparr> # jr_entries r\<rparr>
      | Inl failure \<Rightarrow>
          r\<lparr>jr_damage := \<lparr>dm_location = DamageLine (i + 1) (Some i = final),
                          dm_bytes = length raw, dm_failure = failure\<rparr> # jr_damage r\<rparr>)"

definition decodeJournalText :: "string \<Rightarrow> read_result" where
  "decodeJournalText content =
     (let lines = js_split NL content in decode_lines (lastPopulated lines) 0 lines)"

record store =
  st_file :: "string option"
  st_terminated :: "bool option"

text \<open>\<open>unreadable\<close>: the file is there and \<open>readFile\<close> fails with anything but \<open>ENOENT\<close>.\<close>

definition journal_read :: "bool \<Rightarrow> store \<Rightarrow> read_result" where
  "journal_read unreadable s =
     (case st_file s of
        None \<Rightarrow> \<lparr>jr_entries = [], jr_damage = []\<rparr>
      | Some content \<Rightarrow>
          if unreadable
          then \<lparr>jr_entries = [],
                jr_damage = [\<lparr>dm_location = DamageFile, dm_bytes = 0, dm_failure = FailUnreadable\<rparr>]\<rparr>
          else decodeJournalText content)"

section \<open>Appending\<close>

datatype append_fate = Written | MkdirFails | WriteStopsAfter nat | ChmodFails

definition probeTerminated :: "store \<Rightarrow> bool" where
  "probeTerminated s =
     (case st_file s of None \<Rightarrow> True | Some content \<Rightarrow> content = [] \<or> last content = NL)"

definition content_of :: "store \<Rightarrow> string" where
  "content_of s = (case st_file s of None \<Rightarrow> [] | Some content \<Rightarrow> content)"

definition appendNow :: "append_fate \<Rightarrow> journal_entry \<Rightarrow> (store, unit) io" where
  "appendNow fate entry s =
     (let terminated = (case st_terminated s of Some b \<Rightarrow> b | None \<Rightarrow> probeTerminated s);
          line = (if terminated then [] else [NL]) @ encodeJournalEntry entry @ [NL];
          written = Some (content_of s @ line)
      in case fate of
           MkdirFails \<Rightarrow> (Inl ''mkdir'', s)
         | WriteStopsAfter k \<Rightarrow>
             (Inl ''appendFile'',
              \<lparr>st_file = (if k = 0 then st_file s else Some (content_of s @ take k line)),
               st_terminated = Some terminated\<rparr>)
         | ChmodFails \<Rightarrow> (Inl ''chmod'', \<lparr>st_file = written, st_terminated = Some terminated\<rparr>)
         | Written \<Rightarrow> (Inr (), \<lparr>st_file = written, st_terminated = Some True\<rparr>))"

definition create_store :: "string option \<Rightarrow> store" where
  "create_store file = \<lparr>st_file = file, st_terminated = None\<rparr>"

section \<open>What a text holds, line by line\<close>

text \<open>One line's contribution: nothing when blank, else its entry or its damage.\<close>

definition line_reading :: "string \<Rightarrow> ((nat \<times> decode_failure) + journal_entry) list" where
  "line_reading raw =
     (if blank raw then []
      else case decodeJournalEntry raw of Inr e \<Rightarrow> [Inr e] | Inl f \<Rightarrow> [Inl (length raw, f)])"

definition reading :: "string \<Rightarrow> ((nat \<times> decode_failure) + journal_entry) list" where
  "reading content = concat (map line_reading (js_split NL content))"

definition rights :: "('a + 'b) list \<Rightarrow> 'b list" where
  "rights xs = concat (map (\<lambda>x. case x of Inr b \<Rightarrow> [b] | Inl _ \<Rightarrow> []) xs)"

definition lefts :: "('a + 'b) list \<Rightarrow> 'a list" where
  "lefts xs = concat (map (\<lambda>x. case x of Inl a \<Rightarrow> [a] | Inr _ \<Rightarrow> []) xs)"

lemma rights_simps [simp]:
  "rights [] = []" "rights (Inr b # xs) = b # rights xs" "rights (Inl a # xs) = rights xs"
  "rights (xs @ ys) = rights xs @ rights ys"
  by (simp_all add: rights_def)

lemma lefts_simps [simp]:
  "lefts [] = []" "lefts (Inl a # xs) = a # lefts xs" "lefts (Inr b # xs) = lefts xs"
  "lefts (xs @ ys) = lefts xs @ lefts ys"
  by (simp_all add: lefts_def)

lemma decode_lines_reading:
  "map lr_entry (jr_entries (decode_lines final i ls)) = rights (concat (map line_reading ls))"
  "map (\<lambda>d. (dm_bytes d, dm_failure d)) (jr_damage (decode_lines final i ls)) =
     lefts (concat (map line_reading ls))"
  by (induction ls arbitrary: i)
     (auto simp: line_reading_def Let_def split: sum.split)

lemma read_entries: "map lr_entry (jr_entries (decodeJournalText content)) = rights (reading content)"
  by (simp add: decodeJournalText_def Let_def decode_lines_reading reading_def)

lemma read_damage:
  "map (\<lambda>d. (dm_bytes d, dm_failure d)) (jr_damage (decodeJournalText content)) = lefts (reading content)"
  by (simp add: decodeJournalText_def Let_def decode_lines_reading reading_def)

lemma line_reading_Nil [simp]: "line_reading [] = []"
  by (simp add: line_reading_def blank_def js_trim_Nil_iff)

lemma reading_Nil [simp]: "reading [] = []"
  by (simp add: reading_def)

lemma reading_line: "NL \<notin> set l \<Longrightarrow> reading l = line_reading l"
  by (simp add: reading_def js_split_single)

lemma reading_append: "reading (a @ NL # b) = reading a @ reading b"
  by (simp add: reading_def js_split_append_any)

lemma reading_closed [simp]: "reading (a @ [NL]) = reading a"
  using reading_append [of a "[]"] by simp

lemma reading_encoded: "entry_ok e \<Longrightarrow> reading (encodeJournalEntry e) = [Inr e]"
proof -
  assume ok: "entry_ok e"
  have "\<not> blank (encodeJournalEntry e)" by (simp add: blank_def encodeJournalEntry_def print_not_blank)
  with ok show ?thesis by (simp add: reading_line encode_no_NL line_reading_def decode_encode)
qed

text \<open>A torn line reads as one damage record of its length: no proper prefix of an entry is one.\<close>

lemma torn_line:
  assumes "0 < k" and "k < length (encodeJournalEntry e)"
  shows "reading (take k (encodeJournalEntry e)) = [Inl (k, FailInvalidJson)]"
proof -
  let ?p = "take k (encodeJournalEntry e)" and ?q = "drop k (encodeJournalEntry e)"
  obtain ms where ms: "entry_json e = JObj ms" by (cases e) auto
  have "json_unique (JObj ms)" using entry_json_unique [of e] ms by simp
  moreover have "json_print (JObj ms) = ?p @ ?q"
    using ms by (metis append_take_drop_id encodeJournalEntry_def)
  moreover have "?q \<noteq> []" using assms(2) by simp
  ultimately have unparsable: "json_parse ?p = None" by (rule object_prefix_unparsable)
  have "\<exists>t. encodeJournalEntry e = CHR ''{'' # t"
    using ms by (simp add: encodeJournalEntry_def)
  then obtain t where "?p = CHR ''{'' # t" using assms(1) by (cases k) auto
  then have "\<not> blank ?p" by (auto simp: blank_def js_trim_Nil_iff is_space_def)
  moreover have "NL \<notin> set ?p" using encode_no_NL [of e] by (meson in_set_takeD)
  ultimately show ?thesis
    using unparsable assms(2)
    by (simp add: reading_line line_reading_def decodeJournalEntry_def blank_def)
qed

section \<open>Histories of appends, crashes and restarts\<close>

text \<open>
  \<open>Crash e (Some k)\<close>: the process dies when \<open>k\<close> bytes of the entry's own line (its JSON and its
  terminator) are in the file, \<open>Crash e None\<close>: before anything was written; both are followed by a
  new instance on the same file, as is \<open>Reopen\<close>.
\<close>

datatype history_op =
    Commit journal_entry
  | CommitWithoutMode journal_entry
  | Unstarted journal_entry
  | Crash journal_entry "nat option"
  | Reopen

definition now_terminated :: "store \<Rightarrow> bool" where
  "now_terminated s = (case st_terminated s of Some b \<Rightarrow> b | None \<Rightarrow> probeTerminated s)"

fun history_step :: "history_op \<Rightarrow> store \<Rightarrow> store" where
  "history_step (Commit e) s = snd (appendNow Written e s)"
| "history_step (CommitWithoutMode e) s = snd (appendNow ChmodFails e s)"
| "history_step (Unstarted e) s = snd (appendNow MkdirFails e s)"
| "history_step (Crash e None) s = create_store (st_file (snd (appendNow (WriteStopsAfter 0) e s)))"
| "history_step (Crash e (Some k)) s =
     create_store (st_file (snd (appendNow
       (WriteStopsAfter (if now_terminated s then k else k + 1)) e s)))"
| "history_step Reopen s = create_store (st_file s)"

definition run_history :: "history_op list \<Rightarrow> store \<Rightarrow> store" where
  "run_history ops s = foldl (\<lambda>s op. history_step op s) s ops"

fun op_ok :: "history_op \<Rightarrow> bool" where
  "op_ok (Commit e) = entry_ok e"
| "op_ok (CommitWithoutMode e) = entry_ok e"
| "op_ok (Unstarted e) = entry_ok e"
| "op_ok (Crash e _) = entry_ok e"
| "op_ok Reopen = True"

text \<open>What one operation leaves in the journal for good.\<close>

fun lasting :: "history_op \<Rightarrow> ((nat \<times> decode_failure) + journal_entry) list" where
  "lasting (Commit e) = [Inr e]"
| "lasting (CommitWithoutMode e) = [Inr e]"
| "lasting (Crash e (Some k)) =
     (if length (encodeJournalEntry e) \<le> k then [Inr e]
      else if k = 0 then [] else [Inl (k, FailInvalidJson)])"
| "lasting _ = []"

definition store_inv :: "store \<Rightarrow> bool" where
  "store_inv s \<longleftrightarrow> (st_terminated s = Some True \<longrightarrow> probeTerminated s)"

lemma now_terminated_probe: "store_inv s \<Longrightarrow> now_terminated s \<Longrightarrow> probeTerminated s"
  by (auto simp: store_inv_def now_terminated_def split: option.splits)

lemma reading_next_line:
  assumes "store_inv s"
  shows "reading (content_of s @ (if now_terminated s then [] else [NL]) @ x) = reading (content_of s) @ reading x"
proof (cases "now_terminated s")
  case True
  from now_terminated_probe [OF assms True] consider "content_of s = []"
    | c where "content_of s = c @ [NL]"
    by (cases "content_of s" rule: rev_cases)
       (auto simp: probeTerminated_def content_of_def split: option.splits)
  then show ?thesis
  proof cases
    case 1
    with True show ?thesis by simp
  next
    case 2
    with True show ?thesis by (simp add: reading_append)
  qed
next
  case False
  then show ?thesis by (simp add: reading_append)
qed

lemma reading_taken:
  "entry_ok e \<Longrightarrow> reading (take k (encodeJournalEntry e @ [NL])) = lasting (Crash e (Some k))"
proof (cases "k > length (encodeJournalEntry e)")
  case True
  assume "entry_ok e"
  with True show ?thesis by (simp add: reading_encoded)
next
  case False
  assume "entry_ok e"
  with False torn_line [of k e] show ?thesis
    by (cases "k = length (encodeJournalEntry e)") (auto simp: reading_encoded)
qed

lemma content_of_create [simp]: "content_of (create_store (st_file s)) = content_of s"
  by (simp add: content_of_def create_store_def)

lemma content_of_Some [simp]: "content_of \<lparr>st_file = Some c, st_terminated = t\<rparr> = c"
  by (simp add: content_of_def)

lemma appended_content:
  "content_of (snd (appendNow Written e s)) =
     content_of s @ (if now_terminated s then [] else [NL]) @ encodeJournalEntry e @ [NL]"
  "content_of (snd (appendNow ChmodFails e s)) =
     content_of s @ (if now_terminated s then [] else [NL]) @ encodeJournalEntry e @ [NL]"
  "content_of (snd (appendNow MkdirFails e s)) = content_of s"
  "content_of (snd (appendNow (WriteStopsAfter k) e s)) =
     content_of s @ take k ((if now_terminated s then [] else [NL]) @ encodeJournalEntry e @ [NL])"
  by (auto simp: appendNow_def now_terminated_def Let_def content_of_def)

lemma history_step_inv: "store_inv s \<Longrightarrow> store_inv (history_step op s)"
  by (cases "(op, s)" rule: history_step.cases)
     (auto simp: store_inv_def appendNow_def Let_def create_store_def probeTerminated_def)

lemma history_step_reading:
  assumes "store_inv s" and "op_ok op"
  shows "reading (content_of (history_step op s)) = reading (content_of s) @ lasting op"
proof (cases op)
  case (Crash e k)
  show ?thesis
  proof (cases k)
    case None
    with Crash show ?thesis by (simp add: appended_content)
  next
    case (Some k')
    have "content_of (history_step op s) =
        content_of s @ (if now_terminated s then [] else [NL]) @ take k' (encodeJournalEntry e @ [NL])"
      using Crash Some by (simp add: appended_content)
    with reading_next_line [OF assms(1)] reading_taken [of e k'] assms(2) Crash Some show ?thesis by simp
  qed
qed (use assms reading_next_line [OF assms(1)] in \<open>simp_all add: appended_content reading_encoded
      flip: append_assoc\<close>)

lemma run_history_reading:
  "store_inv s \<Longrightarrow> \<forall>op \<in> set ops. op_ok op \<Longrightarrow>
     reading (content_of (run_history ops s)) = reading (content_of s) @ concat (map lasting ops)"
  unfolding run_history_def
  by (induction ops arbitrary: s) (auto simp: history_step_inv history_step_reading)

lemma read_content: "reading (content_of s) = reading c' \<Longrightarrow> st_file s = Some c \<Longrightarrow> reading c = reading c'"
  by (simp add: content_of_def)

lemma journal_read_content:
  "map lr_entry (jr_entries (journal_read False s)) = rights (reading (content_of s))"
  "map (\<lambda>d. (dm_bytes d, dm_failure d)) (jr_damage (journal_read False s)) = lefts (reading (content_of s))"
  by (simp_all add: journal_read_def content_of_def read_entries read_damage split: option.split)

section \<open>The properties\<close>


definition sample_base :: journal_base where
  "sample_base =
     \<lparr>je_operationId = ''op-1'', je_physicalModemId = ''serial:1'', je_generation = 3,
      je_recordedAtMs = 1700000000000,
      je_descriptor = \<lparr>ev_descriptorId = ''reset'', ev_provider = ''mm'', ev_authority = AuthProvider,
        ev_mutationImpact = ImpactRecovery, ev_profiles = [''p'', ''q''], ev_firmware = [],
        ev_confidence = OpConfHigh\<rparr>\<rparr>"




lemma double_brace_unparsable: "json_parse (CHR ''{'' # CHR ''{'' # t) = None"
proof -
  have "parse_members n (CHR ''{'' # t) = None" for n
    by (cases n) (simp_all add: parse_members.simps QUOTE_def)
  moreover have "2 * length (CHR ''{'' # CHR ''{'' # t) = Suc (Suc (Suc (Suc (2 * length t))))" by simp
  ultimately show ?thesis by (simp add: json_parse_def parse_value.simps QUOTE_def)
qed

lemma encode_head: "\<exists>t. encodeJournalEntry e = CHR ''{'' # t"
  by (cases e) (simp_all add: encodeJournalEntry_def)

text \<open>The terminator flag survives an append that failed half-way in a living process: when the
  write of one entry stops after its first byte, the next append reports success and its entry is
  glued to the torn byte and cannot be read back.\<close>

theorem failed_append_swallows_next_record:
  assumes "entry_ok e1" and "entry_ok e2" and "entry_ok e3"
  shows "let s1 = snd (appendNow Written e1 (create_store None));
             s2 = snd (appendNow (WriteStopsAfter 1) e2 s1);
             (r3, s3) = appendNow Written e3 s2
         in r3 = Inr () \<and> map lr_entry (jr_entries (journal_read False s3)) = [e1] \<and>
            length (jr_damage (journal_read False s3)) = 1"
proof -
  obtain t2 where t2: "encodeJournalEntry e2 = CHR ''{'' # t2" using encode_head by blast
  obtain t3 where t3: "encodeJournalEntry e3 = CHR ''{'' # t3" using encode_head by blast
  let ?glued = "CHR ''{'' # encodeJournalEntry e3"
  have "json_parse ?glued = None" by (simp add: t3 double_brace_unparsable)
  moreover have "\<not> blank ?glued" by (auto simp: blank_def js_trim_Nil_iff is_space_def)
  moreover have "NL \<notin> set ?glued" using encode_no_NL [of e3] by (simp add: NL_def)
  ultimately have glued: "reading ?glued = [Inl (length ?glued, FailInvalidJson)]"
    by (simp add: reading_line line_reading_def decodeJournalEntry_def blank_def)
  define s3 where "s3 = snd (appendNow Written e3 (snd (appendNow (WriteStopsAfter 1) e2
      (snd (appendNow Written e1 (create_store None))))))"
  have "content_of s3 = encodeJournalEntry e1 @ NL # ?glued @ [NL]"
    by (simp add: s3_def appendNow_def create_store_def probeTerminated_def content_of_def Let_def t2)
  moreover have "reading (encodeJournalEntry e1 @ NL # (?glued @ [NL])) =
      reading (encodeJournalEntry e1) @ reading ?glued"
    unfolding reading_append by simp
  ultimately have s3: "reading (content_of s3) = [Inr e1, Inl (length ?glued, FailInvalidJson)]"
    using glued reading_encoded [OF assms(1)] by simp
  have "map lr_entry (jr_entries (journal_read False s3)) = [e1]"
    by (simp add: journal_read_content s3)
  moreover have "map (\<lambda>d. (dm_bytes d, dm_failure d)) (jr_damage (journal_read False s3)) =
      [(length ?glued, FailInvalidJson)]"
    by (simp add: journal_read_content s3)
  then have "length (jr_damage (journal_read False s3)) = 1" by (metis length_map One_nat_def list.size(3,4) add_0)
  ultimately have "map lr_entry (jr_entries (journal_read False s3)) = [e1] \<and>
      length (jr_damage (journal_read False s3)) = 1" by (rule conjI)
  then show ?thesis by (simp add: s3_def appendNow_def Let_def)
qed

theorem failed_append_swallows_next_record_witness:
  "let e = EntryStarted sample_base;
       s1 = snd (appendNow Written e (create_store None));
       s2 = snd (appendNow (WriteStopsAfter 1) e s1);
       (r3, s3) = appendNow Written e s2
   in r3 = Inr () \<and> map lr_entry (jr_entries (journal_read False s3)) = [e] \<and>
      length (jr_damage (journal_read False s3)) = 1"
proof -
  have "entry_ok (EntryStarted sample_base)"
    by (simp add: sample_base_def base_ok_def evidence_ok_def)
  from failed_append_swallows_next_record [OF this this this] show ?thesis by (simp only: Let_def)
qed

end
