(* ===== verification/Journal_Recovery.thy ===== *)
theory Journal_Recovery
  imports Journal_Store "HOL-Library.List_Lexorder" "HOL-Library.Char_ord"
begin

text \<open>
  Replay (\<open>journal/recovery.ts\<close>): the fold of the journal into one record per operation and the
  summary views. \<open>Array.prototype.sort\<close> on identifiers is the lexicographic order on bytes.
\<close>

section \<open>Records\<close>

datatype disposition = Pending | UnknownOutcome | Resolved | Blocked

datatype record_origin = Native | LegacyCeraui

record operation_record =
  or_operationId :: string
  or_physicalModemId :: string
  or_generation :: int
  or_descriptor :: journal_evidence
  or_disposition :: disposition
  or_origin :: record_origin
  or_startedAtMs :: int
  or_updatedAtMs :: int
  or_attempts :: nat
  or_outcome :: "journal_outcome option"

record journal_recovery =
  rc_records :: "operation_record list"
  rc_pending :: "operation_record list"
  rc_unknownOutcome :: "operation_record list"
  rc_blocked :: "operation_record list"
  rc_reconciliationRequired :: "string list"
  rc_damage :: "damage_record list"

text \<open>\<open>None\<close> is the \<open>JournalRecoveryError\<close>, whose field is the damage of the argument.\<close>

definition assertJournalIntact :: "journal_recovery \<Rightarrow> damage_record list + unit" where
  "assertJournalIntact recovery =
     (if length (rc_damage recovery) > 0 then Inl (rc_damage recovery) else Inr ())"

section \<open>The fold\<close>

definition keyOf :: "journal_entry \<Rightarrow> string" where
  "keyOf entry =
     (let b = entry_base entry in
      je_physicalModemId b @ NUL @ je_operationId b @ NUL @ show_int (je_generation b))"

definition dispositionOf :: "journal_outcome \<Rightarrow> disposition" where
  "dispositionOf outcome = (case outcome of OutUnknown _ \<Rightarrow> UnknownOutcome | _ \<Rightarrow> Resolved)"

text \<open>The record that an entry leaves under its key, given the previous one.\<close>

definition next_record :: "operation_record option \<Rightarrow> journal_entry \<Rightarrow> operation_record" where
  "next_record previous entry =
     (let b = entry_base entry;
          startedAt = (case previous of Some p \<Rightarrow> or_startedAtMs p | None \<Rightarrow> je_recordedAtMs b) in
      case entry of
        EntryStarted _ \<Rightarrow>
          \<lparr>or_operationId = je_operationId b, or_physicalModemId = je_physicalModemId b,
           or_generation = je_generation b, or_descriptor = je_descriptor b,
           or_disposition = Pending, or_origin = Native, or_startedAtMs = startedAt,
           or_updatedAtMs = je_recordedAtMs b,
           or_attempts = (case previous of Some p \<Rightarrow> or_attempts p | None \<Rightarrow> 0) + 1,
           or_outcome = None\<rparr>
      | EntryCompleted _ outcome \<Rightarrow>
          \<lparr>or_operationId = je_operationId b, or_physicalModemId = je_physicalModemId b,
           or_generation = je_generation b, or_descriptor = je_descriptor b,
           or_disposition = dispositionOf outcome, or_origin = Native, or_startedAtMs = startedAt,
           or_updatedAtMs = je_recordedAtMs b,
           or_attempts = (case previous of Some p \<Rightarrow> or_attempts p | None \<Rightarrow> 1),
           or_outcome = Some outcome\<rparr>)"

definition recovery_step ::
  "(string \<times> operation_record) list \<times> string list \<Rightarrow> journal_entry \<Rightarrow>
     (string \<times> operation_record) list \<times> string list" where
  "recovery_step st entry =
     (case st of (byKey, order) \<Rightarrow>
        let key = keyOf entry; previous = map_of byKey key in
        (AList.update key (next_record previous entry) byKey,
         if previous = None then order @ [key] else order))"

definition needs_reconciliation :: "operation_record \<Rightarrow> bool" where
  "needs_reconciliation r \<longleftrightarrow> or_disposition r = Pending \<or> or_disposition r = UnknownOutcome"

definition summarizeJournalRecords ::
  "operation_record list \<Rightarrow> damage_record list \<Rightarrow> journal_recovery" where
  "summarizeJournalRecords records damage =
     (let pending = filter (\<lambda>r. or_disposition r = Pending) records;
          unknownOutcome = filter (\<lambda>r. or_disposition r = UnknownOutcome) records;
          blocked = filter (\<lambda>r. or_disposition r = Blocked) records
      in \<lparr>rc_records = records, rc_pending = pending, rc_unknownOutcome = unknownOutcome,
          rc_blocked = blocked,
          rc_reconciliationRequired =
            sort (js_unique (map or_physicalModemId (pending @ unknownOutcome))),
          rc_damage = damage\<rparr>)"

definition reconstructJournalRecovery :: "read_result \<Rightarrow> journal_recovery" where
  "reconstructJournalRecovery r =
     (let (byKey, order) = foldl recovery_step ([], []) (map lr_entry (jr_entries r))
      in summarizeJournalRecords
           (concat (map (\<lambda>key. case map_of byKey key of Some v \<Rightarrow> [v] | None \<Rightarrow> []) order))
           (jr_damage r))"

section \<open>What the fold computes\<close>

text \<open>The entries of one operation, and the record they must give: identity, descriptor, outcome
  and update time of the last, start time of the first, one attempt per started entry and one for
  a journal whose first entry is a completion.\<close>

definition entries_of :: "string \<Rightarrow> journal_entry list \<Rightarrow> journal_entry list" where
  "entries_of key es = filter (\<lambda>e. keyOf e = key) es"

fun is_started :: "journal_entry \<Rightarrow> bool" where
  "is_started (EntryStarted _) = True"
| "is_started (EntryCompleted _ _) = False"

fun entry_outcome :: "journal_entry \<Rightarrow> journal_outcome option" where
  "entry_outcome (EntryStarted _) = None"
| "entry_outcome (EntryCompleted _ outcome) = Some outcome"

fun entry_disposition :: "journal_entry \<Rightarrow> disposition" where
  "entry_disposition (EntryStarted _) = Pending"
| "entry_disposition (EntryCompleted _ outcome) = dispositionOf outcome"

definition record_of :: "journal_entry list \<Rightarrow> operation_record" where
  "record_of es =
     (let l = entry_base (last es) in
      \<lparr>or_operationId = je_operationId l, or_physicalModemId = je_physicalModemId l,
       or_generation = je_generation l, or_descriptor = je_descriptor l,
       or_disposition = entry_disposition (last es), or_origin = Native,
       or_startedAtMs = je_recordedAtMs (entry_base (hd es)), or_updatedAtMs = je_recordedAtMs l,
       or_attempts = length (filter is_started es) + (if is_started (hd es) then 0 else 1),
       or_outcome = entry_outcome (last es)\<rparr>)"

lemma next_record_first: "next_record None e = record_of [e]"
  by (cases e) (simp_all add: next_record_def record_of_def Let_def)

lemma next_record_more: "es \<noteq> [] \<Longrightarrow> next_record (Some (record_of es)) e = record_of (es @ [e])"
  by (cases e) (simp_all add: next_record_def record_of_def Let_def)

lemma fold_spec:
  "foldl recovery_step ([], []) es = (byKey, order) \<Longrightarrow>
     order = js_unique (map keyOf es) \<and>
     (\<forall>key. map_of byKey key =
        (if entries_of key es = [] then None else Some (record_of (entries_of key es))))"
proof (induction es arbitrary: byKey order rule: rev_induct)
  case Nil
  then show ?case by (simp add: entries_of_def)
next
  case (snoc e es)
  obtain byKey' order' where before: "foldl recovery_step ([], []) es = (byKey', order')" by force
  note IH = snoc.IH [OF this]
  have known: "keyOf e \<in> set (map keyOf es) \<longleftrightarrow> entries_of (keyOf e) es \<noteq> []"
    by (auto simp: entries_of_def filter_empty_conv) (metis image_eqI)
  from snoc.prems before have step: "recovery_step (byKey', order') e = (byKey, order)" by simp
  show ?case
  proof (cases "entries_of (keyOf e) es = []")
    case True
    with IH have none: "map_of byKey' (keyOf e) = None" by simp
    with step have "byKey = AList.update (keyOf e) (record_of [e]) byKey'" "order = order' @ [keyOf e]"
      by (simp_all add: recovery_step_def Let_def next_record_first)
    with IH True known show ?thesis by (auto simp: js_unique_snoc map_simps entries_of_def)
  next
    case False
    with IH have some: "map_of byKey' (keyOf e) = Some (record_of (entries_of (keyOf e) es))" by simp
    with step False have
      "byKey = AList.update (keyOf e) (record_of (entries_of (keyOf e) es @ [e])) byKey'" "order = order'"
      by (simp_all add: recovery_step_def Let_def next_record_more)
    with IH False known show ?thesis by (auto simp: js_unique_snoc map_simps entries_of_def)
  qed
qed

definition recovered_records :: "journal_entry list \<Rightarrow> operation_record list" where
  "recovered_records es = map (\<lambda>key. record_of (entries_of key es)) (js_unique (map keyOf es))"

lemma reconstruct_spec:
  "reconstructJournalRecovery r =
     summarizeJournalRecords (recovered_records (map lr_entry (jr_entries r))) (jr_damage r)"
proof -
  let ?es = "map lr_entry (jr_entries r)"
  obtain byKey order where fold: "foldl recovery_step ([], []) ?es = (byKey, order)" by force
  note spec = fold_spec [OF fold]
  have present: "entries_of key ?es \<noteq> []" if "key \<in> set order" for key
    using that spec by (auto simp: entries_of_def filter_empty_conv)
  let ?rec = "\<lambda>key. record_of (entries_of key ?es)"
  have "map (\<lambda>key. case map_of byKey key of Some v \<Rightarrow> [v] | None \<Rightarrow> []) order = map (\<lambda>key. [?rec key]) order"
    using spec present by (intro map_cong) auto
  moreover have "concat (map (\<lambda>key. [f key]) ks) = map f ks" for f :: "string \<Rightarrow> operation_record" and ks
    by (induction ks) auto
  ultimately have records:
    "concat (map (\<lambda>key. case map_of byKey key of Some v \<Rightarrow> [v] | None \<Rightarrow> []) order) = map ?rec order"
    by metis
  have order: "order = js_unique (map keyOf ?es)" using spec by blast
  show ?thesis
    unfolding reconstructJournalRecovery_def fold Let_def prod.case records recovered_records_def
    by (simp only: order)
qed

lemma reconcile_set:
  "set (rc_reconciliationRequired (summarizeJournalRecords rs d)) =
     or_physicalModemId ` {r \<in> set rs. needs_reconciliation r}"
  by (auto simp: summarizeJournalRecords_def Let_def needs_reconciliation_def)

lemma reconcile_sorted:
  "sorted (rc_reconciliationRequired (summarizeJournalRecords rs d)) \<and>
   distinct (rc_reconciliationRequired (summarizeJournalRecords rs d))"
  by (simp add: summarizeJournalRecords_def Let_def)

text \<open>An operation is open when its last entry is a start or an unknown outcome.\<close>

definition open_entry :: "journal_entry \<Rightarrow> bool" where
  "open_entry e \<longleftrightarrow> entry_disposition e \<in> {Pending, UnknownOutcome}"

definition open_modem :: "journal_entry list \<Rightarrow> string \<Rightarrow> bool" where
  "open_modem es m \<longleftrightarrow>
     (\<exists>e \<in> set es. je_physicalModemId (entry_base (last (entries_of (keyOf e) es))) = m \<and>
        open_entry (last (entries_of (keyOf e) es)))"

lemma needs_record_of: "needs_reconciliation (record_of es) = open_entry (last es)"
  by (simp add: needs_reconciliation_def record_of_def open_entry_def Let_def)

lemma record_modem: "or_physicalModemId (record_of es) = je_physicalModemId (entry_base (last es))"
  by (simp add: record_of_def Let_def)

lemma open_modems_of_records:
  "or_physicalModemId ` {x \<in> set (recovered_records es). needs_reconciliation x} = {m. open_modem es m}"
proof -
  have "{x \<in> set (recovered_records es). needs_reconciliation x} =
      (\<lambda>e. record_of (entries_of (keyOf e) es)) ` {e \<in> set es. open_entry (last (entries_of (keyOf e) es))}"
    by (auto simp: recovered_records_def needs_record_of)
  then show ?thesis by (auto simp: open_modem_def image_image record_modem)
qed

lemma open_modems_required:
  "set (rc_reconciliationRequired (reconstructJournalRecovery r)) =
     {m. open_modem (map lr_entry (jr_entries r)) m}"
  unfolding reconstruct_spec reconcile_set by (rule open_modems_of_records)


end
