(* ===== verification/Operation_Engine.thy ===== *)
theory Operation_Engine
  imports Operation
begin

text \<open>
  The operation engine (\<open>operations/operation-engine.ts\<close>, \<open>operations/contracts.ts\<close>,
  \<open>ports/mutation-admission.ts\<close>). The engine keeps one set, the modems that must be reconciled
  before their next mutation; every collaborator (the provider's \<open>execute\<close>, \<open>readback\<close> and
  \<open>rollback\<close>, the journal hook, the precondition and admission ports, the live generation) is a
  callback on a world \<open>'w\<close> that may throw. A result \<open>Inl e\<close> is the rejection of the promise.
  The per-modem actor runs one mutation of a modem at a time (theory \<open>Modem_Actor\<close>), so an
  invocation is one step of the state (the set, the world).
\<close>

section \<open>The contracts\<close>

record attempt_context =
  at_operationId :: string
  at_generation :: int
  at_attempt :: nat

record precondition_request =
  pr_operationId :: string
  pr_physicalModemId :: string
  pr_generation :: int
  pr_descriptorId :: string
  pr_preconditions :: "string list"

datatype precondition_result = PreSatisfied | PreRefused string

datatype ('i, 'o) journal_event =
    JournalStarted string string int "('i, 'o) operation_descriptor" "'i operand"
  | JournalCompleted string string int "('i, 'o) operation_descriptor" "'o operation_result"

record ('i, 'o, 'w) operation_execution =
  ex_operationId :: string
  ex_physicalModemId :: string
  ex_descriptor :: "('i, 'o) operation_descriptor"
  ex_input :: "'i operand"
  ex_execute :: "attempt_context \<Rightarrow> ('w, 'o operation_completion) io"
  ex_readback :: "(attempt_context \<Rightarrow> ('w, 'o operation_completion) io) option"
  ex_rollback :: "(attempt_context \<Rightarrow> ('w, unit operation_completion) io) option"
  ex_journal :: "(('i, 'o) journal_event \<Rightarrow> ('w, unit) io) option"

datatype reconcile_run_result = RunReconciled | RunFailed string

record 'w reconciliation_execution =
  rx_physicalModemId :: string
  rx_generation :: int
  rx_run :: "('w, reconcile_run_result) io"

datatype reconciliation_result =
    Reconciled int
  | NotRequiredResult int
  | ReconcileFailed string int

section \<open>Admission\<close>

record admission_request =
  ar_operationId :: string
  ar_physicalModemId :: string
  ar_impact :: mutation_impact
  ar_requirement :: operation_requirement

datatype admission_refusal = AdmissionPortMissing | AdmissionRefused

fun admission_refusal_text :: "admission_refusal \<Rightarrow> string" where
  "admission_refusal_text AdmissionPortMissing = ''admission-port-missing''"
| "admission_refusal_text AdmissionRefused = ''admission-refused''"

text \<open>An admitted decision carries its lease, whose only operation is \<open>release\<close>.\<close>

datatype 'w admission_decision =
    Admitted "'w \<Rightarrow> (string + unit) \<times> 'w"
  | AdmissionDenied admission_refusal "string option"

datatype 'w admission_result =
    AdmissionNotRequired
  | AdmissionDecided "'w admission_decision"

type_synonym 'w admission_port = "admission_request \<Rightarrow> ('w, 'w admission_decision) io"

definition acquireMutationAdmission ::
  "admission_request \<Rightarrow> 'w admission_port option \<Rightarrow> ('w, 'w admission_result) io" where
  "acquireMutationAdmission request port =
     (case ar_requirement request of
        NotRequired \<Rightarrow> io_return AdmissionNotRequired
      | Required _ \<Rightarrow>
          (case port of
             None \<Rightarrow> io_return (AdmissionDecided (AdmissionDenied AdmissionPortMissing None))
           | Some acquire \<Rightarrow> io_bind (acquire request) (\<lambda>d. io_return (AdmissionDecided d))))"

section \<open>The engine\<close>

record 'w engine_options =
  eo_admission :: "'w admission_port"
  eo_currentGeneration :: "string \<Rightarrow> 'w \<Rightarrow> int"
  eo_preconditions :: "precondition_request \<Rightarrow> ('w, precondition_result) io"

record 'w engine =
  reconciliationRequired :: "string set"
  world :: 'w

definition on_world :: "('w, 'a) io \<Rightarrow> ('w engine, 'a) io" where
  "on_world m e = (case m (world e) of (r, w') \<Rightarrow> (r, e\<lparr>world := w'\<rparr>))"

definition MAX_IDEMPOTENT_READ_ATTEMPTS :: nat where
  "MAX_IDEMPOTENT_READ_ATTEMPTS = 2"

definition refused :: "string \<Rightarrow> int \<Rightarrow> 'o operation_result" where
  "refused reason generation = ResultRefused reason generation"

definition failed_result :: "string \<Rightarrow> int \<Rightarrow> 'o operation_result" where
  "failed_result reason generation = ResultFailed reason generation"

text \<open>The remainder test \<open>(input - min) % step === 0\<close>; a zero step gives NaN, which is not 0.\<close>

definition multiple_of :: "rat \<Rightarrow> rat \<Rightarrow> bool" where
  "multiple_of step d \<longleftrightarrow> step \<noteq> 0 \<and> of_int (floor (d / step)) = d / step"

fun inputAllowed :: "'i operation_constraints \<Rightarrow> 'i operand \<Rightarrow> bool" where
  "inputAllowed Unconstrained input = True"
| "inputAllowed (AllowedValues values) input = (\<exists>v \<in> set values. v = input)"
| "inputAllowed (NumericRange lo hi step) input =
     (case input of
        NumberOperand n \<Rightarrow>
          n \<ge> lo \<and> n \<le> hi \<and> (case step of None \<Rightarrow> True | Some s \<Rightarrow> multiple_of s (n - lo))
      | OtherOperand _ \<Rightarrow> False)"

fun is_required :: "operation_requirement \<Rightarrow> bool" where
  "is_required NotRequired = False"
| "is_required (Required _) = True"

fun readback_required :: "('i, 'o) operation_readback \<Rightarrow> bool" where
  "readback_required NoReadback = False"
| "readback_required (ReadbackRequired _ _) = True"

definition descriptorRefusalReason :: "('i, 'o, 'w) operation_execution \<Rightarrow> string option" where
  "descriptorRefusalReason x =
     (let descriptor = ex_descriptor x;
          support = (if d_mutationImpact descriptor = ImpactRead
                     then d_supportRead descriptor else d_supportWrite descriptor)
      in case support of
           NotSupported reason \<Rightarrow> Some reason
         | Supported \<Rightarrow>
             (case d_availability descriptor of
                Unavailable reason \<Rightarrow> Some reason
              | RefusedAvailability reason \<Rightarrow> Some reason
              | Available \<Rightarrow>
                  if \<not> inputAllowed (d_constraints descriptor) (ex_input x) then Some ''constraint-refused''
                  else if readback_required (d_readback descriptor) \<and> ex_readback x = None
                  then Some ''readback-hook-missing''
                  else if is_required (d_rollback descriptor) \<and> ex_rollback x = None
                  then Some ''rollback-hook-missing''
                  else if is_required (d_journal descriptor) \<and> ex_journal x = None
                  then Some ''journal-hook-missing''
                  else None))"

definition kind_of_impact :: "mutation_impact \<Rightarrow> operation_kind" where
  "kind_of_impact impact = (if impact = ImpactRead then KindRead else KindWrite)"

text \<open>
  The retry loop, by the number of attempts left: attempt \<open>MAX_IDEMPOTENT_READ_ATTEMPTS - n\<close> is
  the one made when \<open>n + 1\<close> are left.
\<close>

fun executeWithRetry ::
  "'w engine_options \<Rightarrow> ('i, 'o, 'w) operation_execution \<Rightarrow> int \<Rightarrow> operation_kind \<Rightarrow> nat \<Rightarrow>
     ('w engine, 'o operation_result) io" where
  "executeWithRetry opts x generation kind 0 =
     io_return (refused ''retry-budget-exhausted'' generation)"
| "executeWithRetry opts x generation kind (Suc left) =
     io_bind (on_world (ex_execute x
                \<lparr>at_operationId = ex_operationId x, at_generation = generation,
                 at_attempt = MAX_IDEMPOTENT_READ_ATTEMPTS - left\<rparr>))
       (\<lambda>completion e.
          let result = classifyOperationCompletion kind generation
                         (eo_currentGeneration opts (ex_physicalModemId x) (world e)) completion
          in if \<not> canAutoRetry (ex_descriptor x) result \<or> left = 0
             then io_return result e
             else executeWithRetry opts x generation kind left e)"

definition run_rollback ::
  "('i, 'o, 'w) operation_execution \<Rightarrow> attempt_context \<Rightarrow> ('w engine, unit) io" where
  "run_rollback x ctx =
     (case ex_rollback x of
        None \<Rightarrow> io_return ()
      | Some rollback \<Rightarrow> io_bind (on_world (rollback ctx)) (\<lambda>_. io_return ()))"

text \<open>The part of \<open>#runCompletionHooks\<close> after a completed readback.\<close>

definition judge_readback ::
  "('i, 'o, 'w) operation_execution \<Rightarrow> ('i operand \<Rightarrow> 'o \<Rightarrow> bool) \<Rightarrow> attempt_context \<Rightarrow> int \<Rightarrow>
     'o operation_result \<Rightarrow> 'o operation_result \<Rightarrow> ('w engine, 'o operation_result) io" where
  "judge_readback x matches ctx generation result readback =
     (case readback of
        ResultApplied value _ \<Rightarrow>
          if matches (ex_input x) value then io_return result
          else io_bind (run_rollback x ctx) (\<lambda>_. io_return (failed_result ''readback-mismatch'' generation))
      | ResultUnknown _ _ \<Rightarrow> io_return readback
      | ResultRefused reason _ \<Rightarrow>
          io_bind (run_rollback x ctx) (\<lambda>_. io_return (failed_result (''readback-'' @ reason) generation))
      | ResultFailed reason _ \<Rightarrow>
          io_bind (run_rollback x ctx) (\<lambda>_. io_return (failed_result (''readback-'' @ reason) generation)))"

definition runCompletionHooks ::
  "'w engine_options \<Rightarrow> ('i, 'o, 'w) operation_execution \<Rightarrow> 'o operation_result \<Rightarrow> int \<Rightarrow>
     ('w engine, 'o operation_result) io" where
  "runCompletionHooks opts x result generation =
     (let ctx = \<lparr>at_operationId = ex_operationId x, at_generation = generation, at_attempt = 1\<rparr> in
      case result of
        ResultApplied value g \<Rightarrow>
          (case d_readback (ex_descriptor x) of
             NoReadback \<Rightarrow> io_return result
           | ReadbackRequired _ matches \<Rightarrow>
               (case ex_readback x of
                  None \<Rightarrow> io_return (refused ''readback-hook-missing'' generation)
                | Some readback \<Rightarrow>
                    io_bind (on_world (readback ctx))
                      (\<lambda>completion e.
                         judge_readback x matches ctx generation result
                           (classifyOperationCompletion KindRead generation
                              (eo_currentGeneration opts (ex_physicalModemId x) (world e)) completion) e)))
      | ResultFailed _ _ \<Rightarrow>
          if is_required (d_rollback (ex_descriptor x))
          then io_bind (run_rollback x ctx) (\<lambda>_. io_return result)
          else io_return result
      | _ \<Rightarrow> io_return result)"

definition record_event ::
  "('i, 'o, 'w) operation_execution \<Rightarrow> ('i, 'o) journal_event \<Rightarrow> ('w engine, unit) io" where
  "record_event x event =
     (case ex_journal x of None \<Rightarrow> io_return () | Some hook \<Rightarrow> on_world (hook event))"

definition mark_unknown :: "string \<Rightarrow> 'o operation_result \<Rightarrow> ('w engine, unit) io" where
  "mark_unknown modem result e =
     (Inr (), case result of
        ResultUnknown _ _ \<Rightarrow> e\<lparr>reconciliationRequired := insert modem (reconciliationRequired e)\<rparr>
      | _ \<Rightarrow> e)"

definition releaseAdmission :: "'w admission_result \<Rightarrow> ('w engine, unit) io" where
  "releaseAdmission admission =
     (case admission of
        AdmissionDecided (Admitted release) \<Rightarrow> on_world release
      | _ \<Rightarrow> io_return ())"

text \<open>The body of the \<open>try\<close> block of \<open>#invokeNow\<close>.\<close>

definition admitted_body ::
  "'w engine_options \<Rightarrow> ('i, 'o, 'w) operation_execution \<Rightarrow> int \<Rightarrow> operation_kind \<Rightarrow>
     ('w engine, 'o operation_result) io" where
  "admitted_body opts x generation kind =
     io_bind (record_event x (JournalStarted (ex_operationId x) (ex_physicalModemId x) generation
                                (ex_descriptor x) (ex_input x)))
       (\<lambda>_. io_bind (executeWithRetry opts x generation kind MAX_IDEMPOTENT_READ_ATTEMPTS)
         (\<lambda>result. io_bind (runCompletionHooks opts x result generation)
           (\<lambda>withHooks. io_bind (mark_unknown (ex_physicalModemId x) withHooks)
             (\<lambda>_. io_bind (record_event x (JournalCompleted (ex_operationId x) (ex_physicalModemId x)
                                             generation (ex_descriptor x) withHooks))
               (\<lambda>_. io_return withHooks)))))"

definition precondition_request_of ::
  "('i, 'o, 'w) operation_execution \<Rightarrow> int \<Rightarrow> precondition_request" where
  "precondition_request_of x generation =
     \<lparr>pr_operationId = ex_operationId x, pr_physicalModemId = ex_physicalModemId x,
      pr_generation = generation, pr_descriptorId = d_id (ex_descriptor x),
      pr_preconditions = d_livePreconditions (ex_descriptor x)\<rparr>"

definition admission_request_of :: "('i, 'o, 'w) operation_execution \<Rightarrow> admission_request" where
  "admission_request_of x =
     \<lparr>ar_operationId = ex_operationId x, ar_physicalModemId = ex_physicalModemId x,
      ar_impact = d_mutationImpact (ex_descriptor x), ar_requirement = d_admission (ex_descriptor x)\<rparr>"

definition invokeNow ::
  "'w engine_options \<Rightarrow> ('i, 'o, 'w) operation_execution \<Rightarrow> ('w engine, 'o operation_result) io" where
  "invokeNow opts x e =
     (let generation = eo_currentGeneration opts (ex_physicalModemId x) (world e);
          kind = kind_of_impact (d_mutationImpact (ex_descriptor x))
      in if kind = KindWrite \<and> ex_physicalModemId x \<in> reconciliationRequired e
         then io_return (refused ''reconciliation-required'' generation) e
         else case descriptorRefusalReason x of
           Some reason \<Rightarrow> io_return (refused reason generation) e
         | None \<Rightarrow>
             io_bind (on_world (eo_preconditions opts (precondition_request_of x generation)))
               (\<lambda>precondition. case precondition of
                  PreRefused reason \<Rightarrow> io_return (refused reason generation)
                | PreSatisfied \<Rightarrow>
                    io_bind (on_world (acquireMutationAdmission (admission_request_of x)
                               (if kind = KindWrite then Some (eo_admission opts) else None)))
                      (\<lambda>admission. case admission of
                         AdmissionDecided (AdmissionDenied reason _) \<Rightarrow>
                           io_return (refused (admission_refusal_text reason) generation)
                       | _ \<Rightarrow> io_finally (admitted_body opts x generation kind)
                                         (releaseAdmission admission))) e)"

text \<open>Reads run at once, mutations through the actor of the modem; both run \<open>#invokeNow\<close>.\<close>

definition invoke ::
  "'w engine_options \<Rightarrow> ('i, 'o, 'w) operation_execution \<Rightarrow> ('w engine, 'o operation_result) io" where
  "invoke opts x = invokeNow opts x"

definition reconcile ::
  "'w engine_options \<Rightarrow> 'w reconciliation_execution \<Rightarrow> ('w engine, reconciliation_result) io" where
  "reconcile opts x e =
     (let modem = rx_physicalModemId x; current = eo_currentGeneration opts modem (world e) in
      if modem \<notin> reconciliationRequired e then io_return (NotRequiredResult current) e
      else if current \<noteq> rx_generation x then io_return (ReconcileFailed ''stale-generation'' current) e
      else io_bind (on_world (rx_run x))
             (\<lambda>result e1.
                let completedGeneration = eo_currentGeneration opts modem (world e1) in
                if completedGeneration \<noteq> rx_generation x
                then io_return (ReconcileFailed ''stale-generation'' completedGeneration) e1
                else case result of
                  RunFailed reason \<Rightarrow> io_return (ReconcileFailed reason completedGeneration) e1
                | RunReconciled \<Rightarrow>
                    io_return (Reconciled completedGeneration)
                      (e1\<lparr>reconciliationRequired := reconciliationRequired e1 - {modem}\<rparr>)) e)"

end
