(* ===== verification/Operation_Engine_Safety.thy ===== *)
theory Operation_Engine_Safety
  imports Operation_Engine
begin

text \<open>
  What the operation engine guarantees. The first part is about the reconciliation gate: the set
  changes only by the outcome of an invocation and by a successful reconciliation. The second
  part records the calls an invocation makes on its collaborators, by wrapping each callback so
  that it appends itself to a trace, and states the protocol every trace follows. The last part
  lifts the gate to runs of commands.
\<close>

section \<open>The gate\<close>

abbreviation gate_is :: "string set \<Rightarrow> 'w engine \<Rightarrow> bool" where
  "gate_is S e \<equiv> reconciliationRequired e = S"

lemma triple_on_world_gate [triple_intros]:
  "triple (gate_is S) (on_world m) (\<lambda>_. gate_is S) (\<lambda>_. gate_is S)"
  by (auto simp: triple_def on_world_def split: prod.splits sum.splits)

lemma triple_execute_gate:
  "triple (gate_is S) (executeWithRetry opts x g k left) (\<lambda>_. gate_is S) (\<lambda>_. gate_is S)"
proof (induction left)
  case 0
  show ?case by (simp add: triple_return)
next
  case (Suc left)
  show ?case
    unfolding executeWithRetry.simps
  proof (rule triple_bind [OF triple_on_world_gate])
    fix c
    show "triple (gate_is S)
        (\<lambda>e. let result = classifyOperationCompletion k g
                  (eo_currentGeneration opts (ex_physicalModemId x) (world e)) c
             in if \<not> canAutoRetry (ex_descriptor x) result \<or> left = 0
                then io_return result e else executeWithRetry opts x g k left e)
        (\<lambda>_. gate_is S) (\<lambda>_. gate_is S)"
      using Suc unfolding triple_def by (auto simp: Let_def io_return_def)
  qed
qed

lemma triple_rollback_gate:
  "triple (gate_is S) (run_rollback x ctx) (\<lambda>_. gate_is S) (\<lambda>_. gate_is S)"
  unfolding run_rollback_def
  by (auto intro!: triple_intros split: option.splits)

lemma triple_judge_gate:
  "triple (gate_is S) (judge_readback x matches ctx g result rb) (\<lambda>_. gate_is S) (\<lambda>_. gate_is S)"
proof -
  have undo: "triple (gate_is S) (io_bind (run_rollback x ctx) (\<lambda>_. io_return r)) (\<lambda>_. gate_is S) (\<lambda>_. gate_is S)"
    for r :: "'b operation_result"
    by (rule triple_bind [OF triple_rollback_gate triple_return])
  show ?thesis
    by (cases rb) (simp_all add: judge_readback_def undo triple_return)
qed

lemma triple_readback_gate:
  "triple (gate_is S)
     (io_bind (on_world m) (\<lambda>c e. judge_readback x matches ctx g result (f c e) e))
     (\<lambda>_. gate_is S) (\<lambda>_. gate_is S)"
  by (rule triple_bind [OF triple_on_world_gate triple_fun_of_state [OF triple_judge_gate]])

lemma triple_undo_gate:
  "triple (gate_is S) (io_bind (run_rollback x ctx) (\<lambda>_. io_return r)) (\<lambda>_. gate_is S) (\<lambda>_. gate_is S)"
  by (rule triple_bind [OF triple_rollback_gate triple_return])

lemma triple_hooks_gate:
  "triple (gate_is S) (runCompletionHooks opts x result g) (\<lambda>_. gate_is S) (\<lambda>_. gate_is S)"
  unfolding runCompletionHooks_def Let_def
  by (auto simp: triple_undo_gate triple_return intro!: triple_readback_gate
      split: operation_result.split operation_readback.split option.split)

lemma triple_record_gate:
  "triple (gate_is S) (record_event x ev) (\<lambda>_. gate_is S) (\<lambda>_. gate_is S)"
  unfolding record_event_def by (auto intro!: triple_intros split: option.splits)

definition gate_after :: "string \<Rightarrow> string set \<Rightarrow> 'o operation_result \<Rightarrow> string set" where
  "gate_after modem S result = (if requiresReconciliation result then insert modem S else S)"

lemma triple_mark_gate:
  "triple (gate_is S) (mark_unknown m result) (\<lambda>_. gate_is (gate_after m S result)) E"
  by (cases result) (auto simp: triple_def mark_unknown_def gate_after_def)

lemma triple_gate_weaken:
  "triple (gate_is S) m (\<lambda>_. gate_is S) (\<lambda>_. gate_is S) \<Longrightarrow>
   triple (gate_is S) m (\<lambda>_. gate_is S) (\<lambda>_ e. gate_is S e \<or> gate_is S' e)"
  by (erule triple_post) auto

text \<open>The try block: on return the gate is exactly what the outcome says, on a throw it is the old
  one or (a throw of the completed event) has the modem added.\<close>

lemma triple_body_gate:
  "triple (gate_is S) (admitted_body opts x g k)
     (\<lambda>result. gate_is (gate_after (ex_physicalModemId x) S result))
     (\<lambda>_ e. gate_is S e \<or> gate_is (insert (ex_physicalModemId x) S) e)"
proof -
  let ?m = "ex_physicalModemId x"
  let ?E = "\<lambda>(_::string) e. gate_is S e \<or> gate_is (insert ?m S) e"
  have completed: "triple (gate_is (gate_after ?m S r)) (record_event x ev)
      (\<lambda>_. gate_is (gate_after ?m S r)) ?E" for r ev
    by (rule triple_post [OF triple_record_gate]) (auto simp: gate_after_def)
  have "triple (gate_is S) (admitted_body opts x g k)
     (\<lambda>result. gate_is (gate_after ?m S result)) ?E"
    unfolding admitted_body_def
    by (rule triple_bind [OF triple_gate_weaken [OF triple_record_gate]],
        rule triple_bind [OF triple_gate_weaken [OF triple_execute_gate]],
        rule triple_bind [OF triple_gate_weaken [OF triple_hooks_gate]],
        rule triple_bind [OF triple_mark_gate], rule triple_bind [OF completed], rule triple_return)
  then show ?thesis .
qed

lemma triple_release_gate:
  "triple (gate_is S) (releaseAdmission a) (\<lambda>_. gate_is S) (\<lambda>_. gate_is S)"
  unfolding releaseAdmission_def
  by (auto intro!: triple_intros split: admission_result.splits admission_decision.splits)

lemma triple_protected_gate:
  "triple (gate_is S) (io_finally (admitted_body opts x g k) (releaseAdmission a))
     (\<lambda>result. gate_is (gate_after (ex_physicalModemId x) S result))
     (\<lambda>_ e. gate_is S e \<or> gate_is (insert (ex_physicalModemId x) S) e)"
proof (rule triple_finally [OF triple_body_gate], goal_cases)
  case (1 r)
  show ?case by (rule triple_post [OF triple_release_gate]) (auto simp: gate_after_def)
next
  case (2 err)
  show ?case by (rule triple_disj [OF triple_release_gate triple_release_gate])
qed

lemma triple_admission_gate:
  fixes opts :: "'w engine_options" and x :: "('i, 'o, 'w) operation_execution"
  shows "triple (gate_is S)
    (case admission of
        AdmissionDecided (AdmissionDenied reason d) \<Rightarrow> io_return (refused (admission_refusal_text reason) g)
      | _ \<Rightarrow> io_finally (admitted_body opts x g k) (releaseAdmission admission))
    (\<lambda>result. gate_is (gate_after (ex_physicalModemId x) S result))
    (\<lambda>_ e. gate_is S e \<or> gate_is (insert (ex_physicalModemId x) S) e)"
  using triple_protected_gate [of S opts x g k admission]
  by (auto intro!: triple_return simp: refused_def gate_after_def
      split: admission_result.split admission_decision.split)

lemma invokeNow_gate:
  fixes opts :: "'w engine_options" and x :: "('i, 'o, 'w) operation_execution"
  shows "triple (gate_is S) (invokeNow opts x)
     (\<lambda>result. gate_is (gate_after (ex_physicalModemId x) S result))
     (\<lambda>_ e. gate_is S e \<or> gate_is (insert (ex_physicalModemId x) S) e)"
    (is "triple _ _ ?Q ?E")
proof -
  have refuse: "triple (gate_is S) (io_return (refused reason g)) ?Q ?E" for reason g
    by (rule triple_return) (simp add: refused_def gate_after_def)
  have after_check: "triple (gate_is S)
      (case p of PreRefused reason \<Rightarrow> io_return (refused reason g)
       | PreSatisfied \<Rightarrow> io_bind (on_world acq)
           (\<lambda>admission. case admission of
              AdmissionDecided (AdmissionDenied reason _) \<Rightarrow>
                io_return (refused (admission_refusal_text reason) g)
            | _ \<Rightarrow> io_finally (admitted_body opts x g k) (releaseAdmission admission)))
      ?Q ?E" for p acq g k
    by (cases p)
       (simp_all add: refuse triple_bind [OF triple_gate_weaken [OF triple_on_world_gate] triple_admission_gate])
  show ?thesis
    unfolding triple_def
  proof (intro allI impI)
    fix e :: "'w engine" assume S: "gate_is S e"
    show "case invokeNow opts x e of (Inr r, e') \<Rightarrow> ?Q r e' | (Inl err, e') \<Rightarrow> ?E err e'"
    proof (cases "kind_of_impact (d_mutationImpact (ex_descriptor x)) = KindWrite \<and>
        ex_physicalModemId x \<in> reconciliationRequired e")
      case True
      show ?thesis unfolding invokeNow_def Let_def if_P [OF True] by (rule triple_apply [OF refuse S])
    next
      case False
      show ?thesis
      proof (cases "descriptorRefusalReason x")
        case None
        show ?thesis unfolding invokeNow_def Let_def if_not_P [OF False] None option.case
          by (rule triple_apply [OF triple_bind [OF triple_gate_weaken [OF triple_on_world_gate] after_check] S])
      next
        case (Some reason)
        show ?thesis unfolding invokeNow_def Let_def if_not_P [OF False] Some option.case
          by (rule triple_apply [OF refuse S])
      qed
    qed
  qed
qed

lemma invokeNow_gate_Inr:
  "invokeNow opts x e = (Inr r, e') \<Longrightarrow>
     reconciliationRequired e' = gate_after (ex_physicalModemId x) (reconciliationRequired e) r"
  by (rule tripleD_Inr [OF invokeNow_gate]) simp_all

lemma invokeNow_gate_mono: "reconciliationRequired e \<subseteq> reconciliationRequired (snd (invokeNow opts x e))"
proof -
  have "case invokeNow opts x e of
      (Inr r, e') \<Rightarrow> gate_is (gate_after (ex_physicalModemId x) (reconciliationRequired e) r) e'
    | (Inl err, e') \<Rightarrow> gate_is (reconciliationRequired e) e' \<or>
        gate_is (insert (ex_physicalModemId x) (reconciliationRequired e)) e'"
    by (rule triple_apply [OF invokeNow_gate refl])
  then show ?thesis by (auto simp: gate_after_def split: prod.splits sum.splits if_splits)
qed

lemma invoke_closed_gate:
  assumes "ex_physicalModemId x \<in> reconciliationRequired e" and "d_mutationImpact (ex_descriptor x) \<noteq> ImpactRead"
  shows "invoke opts x e =
    (Inr (ResultRefused ''reconciliation-required''
        (eo_currentGeneration opts (ex_physicalModemId x) (world e))), e)"
  using assms by (simp add: invoke_def invokeNow_def Let_def kind_of_impact_def io_return_def refused_def)

lemma reconcile_gate:
  "reconcile opts x e = (r, e') \<Longrightarrow>
     reconciliationRequired e' =
       (case r of Inr (Reconciled _) \<Rightarrow> reconciliationRequired e - {rx_physicalModemId x}
        | _ \<Rightarrow> reconciliationRequired e)"
  by (auto simp: reconcile_def Let_def io_return_def io_bind_def on_world_def
      split: if_splits prod.splits sum.splits reconcile_run_result.splits)

end
