(* ===== verification/Operation_Engine_Trace.thy ===== *)
theory Operation_Engine_Trace
  imports Operation_Engine_Safety
begin

text \<open>
  The calls of one invocation. \<open>traced\<close> wraps every collaborator of an execution so that it
  appends its name to a trace kept beside the world; the engine itself is unchanged. The lemmas
  follow the stages of \<open>#invokeNow\<close> and give the trace each stage can add; the property at the
  end is the protocol of a whole invocation.
\<close>

datatype engine_call =
    CallPrecheck | CallAcquire | CallRelease | CallStarted | CallExecute nat
  | CallReadback | CallRollback | CallCompleted

definition trace_call :: "engine_call \<Rightarrow> ('w, 'a) io \<Rightarrow> (engine_call list \<times> 'w, 'a) io" where
  "trace_call c m tw = (case m (snd tw) of (r, w') \<Rightarrow> (r, (fst tw @ [c], w')))"

fun traced_decision :: "'w admission_decision \<Rightarrow> (engine_call list \<times> 'w) admission_decision" where
  "traced_decision (Admitted release) = Admitted (trace_call CallRelease release)"
| "traced_decision (AdmissionDenied reason detail) = AdmissionDenied reason detail"

definition traced_port :: "'w admission_port \<Rightarrow> (engine_call list \<times> 'w) admission_port" where
  "traced_port acquire request tw =
     (case acquire request (snd tw) of (r, w') \<Rightarrow> (map_sum id traced_decision r, (fst tw @ [CallAcquire], w')))"

definition traced_options :: "'w engine_options \<Rightarrow> (engine_call list \<times> 'w) engine_options" where
  "traced_options opts =
     \<lparr>eo_admission = traced_port (eo_admission opts),
      eo_currentGeneration = (\<lambda>m tw. eo_currentGeneration opts m (snd tw)),
      eo_preconditions = (\<lambda>r. trace_call CallPrecheck (eo_preconditions opts r))\<rparr>"

fun call_of_event :: "('i, 'o) journal_event \<Rightarrow> engine_call" where
  "call_of_event (JournalStarted _ _ _ _ _) = CallStarted"
| "call_of_event (JournalCompleted _ _ _ _ _) = CallCompleted"

definition traced :: "('i, 'o, 'w) operation_execution \<Rightarrow> ('i, 'o, engine_call list \<times> 'w) operation_execution" where
  "traced x =
     \<lparr>ex_operationId = ex_operationId x, ex_physicalModemId = ex_physicalModemId x,
      ex_descriptor = ex_descriptor x, ex_input = ex_input x,
      ex_execute = (\<lambda>ctx. trace_call (CallExecute (at_attempt ctx)) (ex_execute x ctx)),
      ex_readback = map_option (\<lambda>f ctx. trace_call CallReadback (f ctx)) (ex_readback x),
      ex_rollback = map_option (\<lambda>f ctx. trace_call CallRollback (f ctx)) (ex_rollback x),
      ex_journal = map_option (\<lambda>f ev. trace_call (call_of_event ev) (f ev)) (ex_journal x)\<rparr>"

lemma traced_simps [simp]:
  "ex_operationId (traced x) = ex_operationId x"
  "ex_physicalModemId (traced x) = ex_physicalModemId x"
  "ex_descriptor (traced x) = ex_descriptor x"
  "ex_input (traced x) = ex_input x"
  "ex_execute (traced x) = (\<lambda>ctx. trace_call (CallExecute (at_attempt ctx)) (ex_execute x ctx))"
  "ex_readback (traced x) = map_option (\<lambda>f ctx. trace_call CallReadback (f ctx)) (ex_readback x)"
  "ex_rollback (traced x) = map_option (\<lambda>f ctx. trace_call CallRollback (f ctx)) (ex_rollback x)"
  "ex_journal (traced x) = map_option (\<lambda>f ev. trace_call (call_of_event ev) (f ev)) (ex_journal x)"
  by (simp_all add: traced_def)

abbreviation tr :: "(engine_call list \<times> 'w) engine \<Rightarrow> engine_call list" where
  "tr e \<equiv> fst (world e)"

lemma triple_traced_call:
  "triple (\<lambda>e. tr e = T) (on_world (trace_call c m)) (\<lambda>_ e. tr e = T @ [c]) (\<lambda>_ e. tr e = T @ [c])"
  by (auto simp: triple_def on_world_def trace_call_def split: prod.splits sum.splits)

text \<open>Triples that only say what the trace became, the same on return and on throw.\<close>

definition adds :: "engine_call list \<Rightarrow> ((engine_call list \<times> 'w) engine, 'a) io \<Rightarrow> (engine_call list \<Rightarrow> bool) \<Rightarrow> bool" where
  "adds T m L \<longleftrightarrow> triple (\<lambda>e. tr e = T) m (\<lambda>_ e. \<exists>t. L t \<and> tr e = T @ t) (\<lambda>_ e. \<exists>t. L t \<and> tr e = T @ t)"

lemma adds_weaken: "adds T m L \<Longrightarrow> (\<And>t. L t \<Longrightarrow> L' t) \<Longrightarrow> adds T m L'"
  unfolding adds_def by (erule triple_post) blast+

lemma adds_return: "L [] \<Longrightarrow> adds T (io_return a) L"
  unfolding adds_def by (rule triple_return) (auto intro: exI [of _ "[]"])

lemma adds_call: "L [c] \<Longrightarrow> adds T (on_world (trace_call c m)) L"
  unfolding adds_def by (rule triple_post [OF triple_traced_call]) blast+

lemma adds_fun_of_state: "(\<And>y. adds T (m y) L) \<Longrightarrow> adds T (\<lambda>e. m (f e) e) L"
  unfolding adds_def by (rule triple_fun_of_state)

lemma adds_return_state: "L [] \<Longrightarrow> adds T (\<lambda>e. io_return (f e) e) L"
  by (rule adds_fun_of_state [where m = io_return]) (rule adds_return)

lemma adds_bind:
  assumes "adds T m L1" and "\<And>t. L1 t \<Longrightarrow> L t"
    and "\<And>a t. L1 t \<Longrightarrow> adds (T @ t) (f a) (\<lambda>u. L (t @ u))"
  shows "adds T (io_bind m f) L"
  unfolding adds_def
proof (rule triple_bind)
  show "triple (\<lambda>e. tr e = T) m (\<lambda>_ e. \<exists>t. L1 t \<and> tr e = T @ t) (\<lambda>_ e. \<exists>t. L t \<and> tr e = T @ t)"
    using assms(1) unfolding adds_def by (rule triple_post) (use assms(2) in blast)+
next
  fix a
  show "triple (\<lambda>e. \<exists>t. L1 t \<and> tr e = T @ t) (f a)
      (\<lambda>_ e. \<exists>t. L t \<and> tr e = T @ t) (\<lambda>_ e. \<exists>t. L t \<and> tr e = T @ t)"
  proof (rule triple_ex, rule triple_pure)
    fix t assume "L1 t"
    from assms(3) [OF this, of a]
    have "triple (\<lambda>e. tr e = T @ t) (f a)
        (\<lambda>_ e. \<exists>u. L (t @ u) \<and> tr e = (T @ t) @ u) (\<lambda>_ e. \<exists>u. L (t @ u) \<and> tr e = (T @ t) @ u)"
      by (simp add: adds_def)
    then show "triple (\<lambda>e. tr e = T @ t) (f a)
        (\<lambda>_ e. \<exists>t. L t \<and> tr e = T @ t) (\<lambda>_ e. \<exists>t. L t \<and> tr e = T @ t)"
      by (rule triple_post) auto
  qed
qed

lemma adds_finally:
  assumes "\<And>T. adds T body L1" and "\<And>T. adds T fin L2" and "\<And>t u. L1 t \<Longrightarrow> L2 u \<Longrightarrow> L (t @ u)"
  shows "adds T (io_finally body fin) L"
proof -
  have fin: "triple (\<lambda>e. \<exists>t. L1 t \<and> tr e = T @ t) fin
      (\<lambda>_ e. \<exists>t. L t \<and> tr e = T @ t) (\<lambda>_ e. \<exists>t. L t \<and> tr e = T @ t)"
  proof (rule triple_ex, rule triple_pure)
    fix t assume "L1 t"
    from assms(2) [of "T @ t"] show "triple (\<lambda>e. tr e = T @ t) fin
        (\<lambda>_ e. \<exists>t. L t \<and> tr e = T @ t) (\<lambda>_ e. \<exists>t. L t \<and> tr e = T @ t)"
      unfolding adds_def by (rule triple_post) (use assms(3) [OF \<open>L1 t\<close>] in \<open>metis append.assoc\<close>)+
  qed
  show ?thesis
    unfolding adds_def by (rule triple_finally [OF _ fin fin]) (use assms(1) in \<open>simp add: adds_def\<close>)
qed

section \<open>The stages\<close>

definition attempts :: "nat \<Rightarrow> nat \<Rightarrow> engine_call list" where
  "attempts first n = map CallExecute [first ..< first + n]"

text \<open>Whether the descriptor lets the engine try again.\<close>

definition retryable :: "('i, 'o) operation_descriptor \<Rightarrow> bool" where
  "retryable d \<longleftrightarrow> d_mutationImpact d = ImpactRead \<and> d_supportRead d = Supported \<and> d_retryClass d = RetryIdempotentRead"

lemma canAutoRetry_retryable: "canAutoRetry d r \<Longrightarrow> retryable d"
  by (simp add: canAutoRetry_def retryable_def)

definition execute_trace :: "('i, 'o) operation_descriptor \<Rightarrow> engine_call list \<Rightarrow> bool" where
  "execute_trace d t \<longleftrightarrow> (\<exists>n. t = attempts 1 n \<and> 1 \<le> n \<and> n \<le> (if retryable d then MAX_IDEMPOTENT_READ_ATTEMPTS else 1))"

lemma attempts_Suc: "attempts a (Suc n) = CallExecute a # attempts (Suc a) n"
  by (simp add: attempts_def upt_rec)

lemma adds_execute_from:
  "left < MAX_IDEMPOTENT_READ_ATTEMPTS \<Longrightarrow>
   adds T (executeWithRetry opts (traced x) g k (Suc left))
     (\<lambda>t. \<exists>n. t = attempts (MAX_IDEMPOTENT_READ_ATTEMPTS - left) n \<and> 1 \<le> n \<and>
            n \<le> (if retryable (ex_descriptor x) then Suc left else 1))"
  (is "_ \<Longrightarrow> adds T _ (?L left)")
proof (induction left arbitrary: T)
  case (0 T)
  have call: "?L 0 [CallExecute MAX_IDEMPOTENT_READ_ATTEMPTS]"
    by (rule exI [of _ 1]) (simp add: attempts_def)
  show ?case
    unfolding executeWithRetry.simps Let_def
  proof (rule adds_bind [where ?L1.0 = "\<lambda>t. t = [CallExecute MAX_IDEMPOTENT_READ_ATTEMPTS]"], goal_cases)
    case 1
    show ?case by (auto intro!: adds_call)
  next
    case (2 t)
    with call show ?case by simp
  next
    case (3 a t)
    with call have "?L 0 (t @ [])" by simp
    then show ?case by (simp add: adds_return_state)
  qed
next
  case (Suc left)
  let ?first = "MAX_IDEMPOTENT_READ_ATTEMPTS - Suc left"
  have one: "?L (Suc left) [CallExecute ?first]"
    by (rule exI [of _ 1]) (simp add: attempts_def)
  have more: "?L (Suc left) (CallExecute ?first # u)" if "?L left u" "retryable (ex_descriptor x)" for u
  proof -
    from that obtain n where "u = attempts (MAX_IDEMPOTENT_READ_ATTEMPTS - left) n" "n \<le> Suc left"
      by auto
    moreover have "MAX_IDEMPOTENT_READ_ATTEMPTS - left = Suc ?first" using Suc.prems by simp
    ultimately show ?thesis using that(2) by (intro exI [of _ "Suc n"]) (simp add: attempts_Suc)
  qed
  have next_try: "adds (T @ [CallExecute ?first])
      (\<lambda>e. if \<not> canAutoRetry (ex_descriptor x) (res e) \<or> Suc left = 0
           then io_return (res e) e else executeWithRetry opts (traced x) g k (Suc left) e)
      (\<lambda>u. ?L (Suc left) ([CallExecute ?first] @ u))" for res
  proof (rule adds_fun_of_state [where f = res], goal_cases)
    case (1 y)
    show ?case
    proof (cases "canAutoRetry (ex_descriptor x) y")
      case True
      then have r: "retryable (ex_descriptor x)" by (rule canAutoRetry_retryable)
      have "adds (T @ [CallExecute ?first]) (executeWithRetry opts (traced x) g k (Suc left)) (?L left)"
        by (rule Suc.IH) (use Suc.prems in simp)
      then have "adds (T @ [CallExecute ?first]) (executeWithRetry opts (traced x) g k (Suc left))
          (\<lambda>u. ?L (Suc left) ([CallExecute ?first] @ u))"
        by (rule adds_weaken) (use more [OF _ r] in simp)
      with True show ?thesis by simp
    next
      case False
      with one show ?thesis by (simp add: adds_return)
    qed
  qed
  show ?case
    unfolding executeWithRetry.simps(2) [of _ _ _ _ "Suc left"] Let_def
  proof (rule adds_bind [where ?L1.0 = "\<lambda>t. t = [CallExecute ?first]"], goal_cases)
    case 1
    show ?case by (auto intro!: adds_call)
  next
    case (2 t)
    with one show ?case by simp
  next
    case (3 a t)
    show ?case unfolding 3 traced_simps by (rule next_try)
  qed
qed

lemma adds_execute:
  "adds T (executeWithRetry opts (traced x) g k MAX_IDEMPOTENT_READ_ATTEMPTS) (execute_trace (ex_descriptor x))"
proof -
  have max: "MAX_IDEMPOTENT_READ_ATTEMPTS = Suc 1" by (simp add: MAX_IDEMPOTENT_READ_ATTEMPTS_def)
  have "adds T (executeWithRetry opts (traced x) g k (Suc 1))
     (\<lambda>t. \<exists>n. t = attempts (MAX_IDEMPOTENT_READ_ATTEMPTS - 1) n \<and> 1 \<le> n \<and>
            n \<le> (if retryable (ex_descriptor x) then Suc 1 else 1))"
    by (rule adds_execute_from) (simp add: MAX_IDEMPOTENT_READ_ATTEMPTS_def)
  then show ?thesis unfolding max
    by (rule adds_weaken) (auto simp: execute_trace_def max)
qed

text \<open>At most one readback, then at most one rollback.\<close>

definition hooks_trace :: "engine_call list \<Rightarrow> bool" where
  "hooks_trace t \<longleftrightarrow> t \<in> {[], [CallReadback], [CallRollback], [CallReadback, CallRollback]}"

definition rollback_trace :: "engine_call list \<Rightarrow> bool" where
  "rollback_trace t \<longleftrightarrow> t \<in> {[], [CallRollback]}"

lemma adds_rollback: "adds T (run_rollback (traced x) ctx) rollback_trace"
proof (cases "ex_rollback x")
  case None
  then show ?thesis by (simp add: run_rollback_def adds_return rollback_trace_def)
next
  case (Some rb)
  then show ?thesis
    by (auto simp: run_rollback_def rollback_trace_def
        intro!: adds_bind [where ?L1.0 = "\<lambda>t. t = [CallRollback]"] adds_call adds_return)
qed

lemma adds_undo: "adds T (io_bind (run_rollback (traced x) ctx) (\<lambda>_. io_return r)) rollback_trace"
  by (rule adds_bind [OF adds_rollback]) (auto intro: adds_return)

lemma adds_judge: "adds T (judge_readback (traced x) matches ctx g result rb) rollback_trace"
proof -
  have "rollback_trace []" by (simp add: rollback_trace_def)
  then show ?thesis
    by (cases rb) (simp_all add: judge_readback_def adds_undo adds_return)
qed

lemma adds_readback:
  "adds T (io_bind (on_world (trace_call CallReadback m)) (\<lambda>c e. judge_readback (traced x) matches ctx g result (f c e) e))
     hooks_trace"
proof (rule adds_bind [where ?L1.0 = "\<lambda>t. t = [CallReadback]"], goal_cases)
  case 1
  show ?case by (simp add: adds_call)
next
  case (2 t)
  then show ?case by (simp add: hooks_trace_def)
next
  case (3 a t)
  have "adds (T @ t) (\<lambda>e. judge_readback (traced x) matches ctx g result (f a e) e) rollback_trace"
    by (rule adds_fun_of_state [OF adds_judge])
  then show ?case by (rule adds_weaken) (use 3 in \<open>auto simp: hooks_trace_def rollback_trace_def\<close>)
qed

lemma adds_hooks: "adds T (runCompletionHooks opts (traced x) result g) hooks_trace"
proof -
  have ret: "adds T (io_return r) hooks_trace" for r :: "'b operation_result"
    by (rule adds_return) (simp add: hooks_trace_def)
  have undo: "adds T (io_bind (run_rollback (traced x) ctx) (\<lambda>_. io_return r)) hooks_trace"
    for r :: "'b operation_result" and ctx
    by (rule adds_weaken [OF adds_undo]) (auto simp: hooks_trace_def rollback_trace_def)
  show ?thesis
    unfolding runCompletionHooks_def Let_def
    by (auto simp: undo ret intro!: adds_readback
        split: operation_result.split operation_readback.split option.split)
qed

definition journal_trace :: "('i, 'o, 'w) operation_execution \<Rightarrow> engine_call \<Rightarrow> engine_call list" where
  "journal_trace x c = (if ex_journal x = None then [] else [c])"

lemma adds_record:
  "adds T (record_event (traced x) ev) (\<lambda>t. t = journal_trace x (call_of_event ev))"
proof (cases "ex_journal x")
  case None
  then show ?thesis by (simp add: record_event_def journal_trace_def adds_return)
next
  case (Some hook)
  then show ?thesis by (simp add: record_event_def journal_trace_def adds_call)
qed

lemma adds_mark: "L [] \<Longrightarrow> adds T (mark_unknown m result) L"
  by (auto simp: adds_def triple_def mark_unknown_def intro!: exI [of _ "[]"] split: operation_result.split)

text \<open>The calls of the try block: the started event, then the dispatches, the hooks and the completed event;
  a throw cuts the list short.\<close>

definition body_trace :: "('i, 'o, 'w) operation_execution \<Rightarrow> engine_call list \<Rightarrow> bool" where
  "body_trace x t \<longleftrightarrow>
     t = journal_trace x CallStarted \<or>
     (\<exists>e h c. t = journal_trace x CallStarted @ e @ h @ c \<and> execute_trace (ex_descriptor x) e \<and>
        hooks_trace h \<and> c \<in> {[], journal_trace x CallCompleted})"

lemma body_traceI:
  "execute_trace (ex_descriptor x) e \<Longrightarrow> hooks_trace h \<Longrightarrow> c \<in> {[], journal_trace x CallCompleted} \<Longrightarrow>
     body_trace x (journal_trace x CallStarted @ e @ h @ c)"
  unfolding body_trace_def by blast

lemma hooks_trace_Nil: "hooks_trace []" by (simp add: hooks_trace_def)

lemma adds_body: "adds T (admitted_body opts (traced x) g k) (body_trace x)"
  unfolding admitted_body_def traced_simps
proof (rule adds_bind [OF adds_record], goal_cases)
  case (1 t)
  then show ?case by (simp add: body_trace_def)
next
  case (2 a t)
  then have t: "t = journal_trace x CallStarted" by simp
  show ?case
  proof (rule adds_bind [OF adds_execute], goal_cases)
    case (1 e)
    from body_traceI [OF this hooks_trace_Nil, of "[]"] show ?case by (simp add: t)
  next
    case (2 r e)
    note e = this
    show ?case
    proof (rule adds_bind [OF adds_hooks], goal_cases)
      case (1 h)
      from body_traceI [OF e this, of "[]"] show ?case by (simp add: t)
    next
      case (2 r' h)
      note h = this
      have finished: "body_trace x (t @ e @ h @ [] @ c)" if "c \<in> {[], journal_trace x CallCompleted}" for c
        using body_traceI [OF e h that] by (simp add: t)
      show ?case
      proof (rule adds_bind [OF adds_mark [of "\<lambda>u. u = []"]], goal_cases)
        case 1
        show ?case by simp
      next
        case (2 u)
        with finished [of "[]"] show ?case by simp
      next
        case (3 a u)
        then have u: "u = []" by simp
        show ?case
        proof (rule adds_bind [OF adds_record], goal_cases)
          case (1 c)
          with finished [of c] u show ?case by simp
        next
          case (2 b c)
          with finished [of c] u show ?case by (auto intro!: adds_return)
        qed
      qed
    qed
  qed
qed

end
