(* ===== verification/Operation_Engine_Properties.thy ===== *)
theory Operation_Engine_Properties
  imports Operation_Engine_Trace
begin

text \<open>
  The properties of the operation engine: the protocol of one invocation, the bound on dispatches,
  and the reconciliation fence over runs of commands.
\<close>

section \<open>One invocation\<close>

definition leased :: "('i, 'o) operation_descriptor \<Rightarrow> engine_call \<Rightarrow> engine_call list" where
  "leased d c = (if is_required (d_admission d) then [c] else [])"

text \<open>
  The protocol: nothing at all (a closed gate or a refused descriptor); a precondition check;
  the check and an admission that was denied or threw; or the check, the admission, the calls of
  the try block and, last, the release of the lease.
\<close>

definition invocation_trace :: "('i, 'o, 'w) operation_execution \<Rightarrow> engine_call list \<Rightarrow> bool" where
  "invocation_trace x t \<longleftrightarrow>
     t = [] \<or> t = [CallPrecheck] \<or> t = CallPrecheck # leased (ex_descriptor x) CallAcquire \<or>
     (\<exists>b. body_trace x b \<and>
        t = CallPrecheck # leased (ex_descriptor x) CallAcquire @ b @ leased (ex_descriptor x) CallRelease)"

lemma on_world_return: "on_world (io_return a) = io_return a"
  by (simp add: fun_eq_iff on_world_def io_return_def)

lemma io_bind_return: "io_bind (io_return a) f = f a"
  by (simp add: fun_eq_iff io_bind_def io_return_def)

lemma adds_bind_result:
  assumes "triple (\<lambda>e. tr e = T) m (\<lambda>a e. R a \<and> tr e = T @ t) (\<lambda>_ e. tr e = T @ t)"
    and "L t" and "\<And>a. R a \<Longrightarrow> adds (T @ t) (f a) (\<lambda>u. L (t @ u))"
  shows "adds T (io_bind m f) L"
  unfolding adds_def
proof (rule triple_bind)
  show "triple (\<lambda>e. tr e = T) m (\<lambda>a e. R a \<and> tr e = T @ t) (\<lambda>_ e. \<exists>t. L t \<and> tr e = T @ t)"
    by (rule triple_post [OF assms(1)]) (use assms(2) in auto)
next
  fix a
  show "triple (\<lambda>e. R a \<and> tr e = T @ t) (f a)
      (\<lambda>_ e. \<exists>t. L t \<and> tr e = T @ t) (\<lambda>_ e. \<exists>t. L t \<and> tr e = T @ t)"
  proof (rule triple_pure)
    assume "R a"
    from assms(3) [OF this] show "triple (\<lambda>e. tr e = T @ t) (f a)
        (\<lambda>_ e. \<exists>t. L t \<and> tr e = T @ t) (\<lambda>_ e. \<exists>t. L t \<and> tr e = T @ t)"
      unfolding adds_def by (rule triple_post) (metis append.assoc)+
  qed
qed

fun traced_lease :: "(engine_call list \<times> 'w) admission_result \<Rightarrow> bool" where
  "traced_lease (AdmissionDecided (Admitted release)) = (\<exists>m. release = trace_call CallRelease m)"
| "traced_lease (AdmissionDecided (AdmissionDenied _ _)) = True"
| "traced_lease AdmissionNotRequired = False"

lemma triple_traced_port:
  "triple (\<lambda>e. tr e = T)
     (on_world (io_bind (traced_port acquire request) (\<lambda>d. io_return (AdmissionDecided d))))
     (\<lambda>a e. traced_lease a \<and> tr e = T @ [CallAcquire]) (\<lambda>_ e. tr e = T @ [CallAcquire])"
proof -
  have lease: "traced_lease (AdmissionDecided (traced_decision d))" for d :: "'a admission_decision"
    by (cases d) auto
  have lease': "map_sum id traced_decision s = Inr d \<Longrightarrow> traced_lease (AdmissionDecided d)"
    for s :: "string + 'a admission_decision" and d
    by (cases s) (auto simp: lease)
  show ?thesis
    unfolding triple_def on_world_def io_bind_def traced_port_def io_return_def
    by (auto dest: lease' split: prod.splits sum.splits)
qed

lemma adds_release:
  "adds T (releaseAdmission (AdmissionDecided (Admitted (trace_call CallRelease m)))) (\<lambda>t. t = [CallRelease])"
  by (simp add: releaseAdmission_def adds_call)

definition admission_continuation ::
  "'w engine_options \<Rightarrow> ('i, 'o, 'w) operation_execution \<Rightarrow> int \<Rightarrow> operation_kind \<Rightarrow>
     'w admission_result \<Rightarrow> ('w engine, 'o operation_result) io" where
  "admission_continuation opts x g k admission =
     (case admission of
        AdmissionDecided (AdmissionDenied reason _) \<Rightarrow> io_return (refused (admission_refusal_text reason) g)
      | _ \<Rightarrow> io_finally (admitted_body opts x g k) (releaseAdmission admission))"

lemma adds_admission:
  "adds T (io_bind (on_world (acquireMutationAdmission (admission_request_of (traced x))
                     (if k = KindWrite then Some (eo_admission (traced_options opts)) else None)))
             (admission_continuation (traced_options opts) (traced x) g k))
     (\<lambda>t. invocation_trace x (CallPrecheck # t))"
proof (cases "d_admission (ex_descriptor x)")
  case NotRequired
  then have none: "leased (ex_descriptor x) c = []" for c by (simp add: leased_def)
  have "adds T (io_finally (admitted_body (traced_options opts) (traced x) g k)
      (releaseAdmission AdmissionNotRequired)) (\<lambda>t. invocation_trace x (CallPrecheck # t))"
    by (rule adds_finally [OF adds_body, where ?L2.0 = "\<lambda>t. t = []"])
       (auto simp: releaseAdmission_def adds_return invocation_trace_def none)
  with NotRequired show ?thesis
    by (simp add: acquireMutationAdmission_def admission_request_of_def admission_continuation_def
        on_world_return io_bind_return)
next
  case (Required reason)
  then have lease: "leased (ex_descriptor x) c = [c]" for c by (simp add: leased_def)
  have denied: "adds T' (io_return r) (\<lambda>t. invocation_trace x (CallPrecheck # T'' @ t))"
    if "T'' \<in> {[], [CallAcquire]}" for T' T'' and r :: "'b operation_result"
    using that by (intro adds_return) (auto simp: invocation_trace_def lease)
  show ?thesis
  proof (cases "k = KindWrite")
    case False
    with Required denied [of "[]"] show ?thesis
      by (simp add: acquireMutationAdmission_def admission_request_of_def admission_continuation_def
          on_world_return io_bind_return)
  next
    case True
    have "adds T (io_bind
        (on_world (io_bind (traced_port (eo_admission opts) request) (\<lambda>d. io_return (AdmissionDecided d))))
        (admission_continuation (traced_options opts) (traced x) g k))
        (\<lambda>t. invocation_trace x (CallPrecheck # t))" for request
    proof (rule adds_bind_result [OF triple_traced_port], goal_cases)
      case 1
      show ?case by (simp add: invocation_trace_def lease)
    next
      case (2 a)
      then consider m where "a = AdmissionDecided (Admitted (trace_call CallRelease m))"
        | r d where "a = AdmissionDecided (AdmissionDenied r d)"
        by (cases a rule: traced_lease.cases) auto
      then show ?case
      proof cases
        case 1
        show ?thesis
          unfolding 1 admission_continuation_def admission_result.case admission_decision.case
          by (rule adds_finally [OF adds_body adds_release]) (auto simp: invocation_trace_def lease)
      next
        case 2
        with denied [of "[CallAcquire]"] show ?thesis by (simp add: admission_continuation_def)
      qed
    qed
    with True Required show ?thesis
      by (simp add: acquireMutationAdmission_def traced_options_def admission_request_of_def)
  qed
qed

lemma adds_at:
  fixes n :: "((engine_call list \<times> 'w) engine, 'a) io"
  assumes "\<And>e. tr e = T \<Longrightarrow> \<exists>m. adds T m L \<and> n e = m e"
  shows "adds T n L"
  unfolding adds_def triple_def
proof (intro allI impI)
  fix e :: "(engine_call list \<times> 'w) engine" assume start: "tr e = T"
  with assms obtain m where m: "adds T m L" and "n e = m e" by blast
  with triple_apply [OF m [unfolded adds_def] start]
  show "case n e of (Inr a, w') \<Rightarrow> \<exists>t. L t \<and> tr w' = T @ t
      | (Inl err, w') \<Rightarrow> \<exists>t. L t \<and> tr w' = T @ t" by simp
qed

lemma adds_invoke: "adds [] (invoke (traced_options opts) (traced x)) (invocation_trace x)"
proof -
  let ?o = "traced_options opts" and ?x = "traced x"
  let ?k = "kind_of_impact (d_mutationImpact (ex_descriptor ?x))"
  have quiet: "adds [] (io_return r) (invocation_trace x)" for r :: "'b operation_result"
    by (rule adds_return) (simp add: invocation_trace_def)
  have checked: "adds [] (io_bind (on_world (eo_preconditions ?o request))
      (\<lambda>precondition. case precondition of
          PreRefused reason \<Rightarrow> io_return (refused reason g)
        | PreSatisfied \<Rightarrow> io_bind (on_world (acquireMutationAdmission (admission_request_of ?x)
                     (if ?k = KindWrite then Some (eo_admission ?o) else None)))
             (admission_continuation ?o ?x g ?k))) (invocation_trace x)" for request g
  proof (rule adds_bind [where ?L1.0 = "\<lambda>t. t = [CallPrecheck]"], goal_cases)
    case 1
    show ?case by (simp add: traced_options_def adds_call)
  next
    case (2 t)
    then show ?case by (simp add: invocation_trace_def)
  next
    case (3 p t)
    show ?case
    proof (cases p)
      case PreSatisfied
      from adds_admission [of "[] @ t" x ?k opts g] 3 PreSatisfied show ?thesis by simp
    next
      case (PreRefused reason)
      with 3 show ?thesis by (simp add: adds_return invocation_trace_def)
    qed
  qed
  show ?thesis
  proof (rule adds_at)
    fix e :: "(engine_call list \<times> 'a) engine"
    let ?g = "eo_currentGeneration ?o (ex_physicalModemId ?x) (world e)"
    show "\<exists>m. adds [] m (invocation_trace x) \<and> invoke ?o ?x e = m e"
    proof (cases "?k = KindWrite \<and> ex_physicalModemId ?x \<in> reconciliationRequired e")
      case True
      have "invoke ?o ?x e = io_return (refused ''reconciliation-required'' ?g) e"
        unfolding invoke_def invokeNow_def Let_def if_P [OF True] ..
      with quiet [of "refused ''reconciliation-required'' ?g"] show ?thesis by blast
    next
      case False
      show ?thesis
      proof (cases "descriptorRefusalReason ?x")
        case None
        have "invoke ?o ?x e = io_bind (on_world (eo_preconditions ?o (precondition_request_of ?x ?g)))
            (\<lambda>precondition. case precondition of
                PreRefused reason \<Rightarrow> io_return (refused reason ?g)
              | PreSatisfied \<Rightarrow> io_bind (on_world (acquireMutationAdmission (admission_request_of ?x)
                     (if ?k = KindWrite then Some (eo_admission ?o) else None)))
                  (admission_continuation ?o ?x ?g ?k)) e"
          unfolding invoke_def invokeNow_def Let_def if_not_P [OF False] None option.case
            admission_continuation_def ..
        with checked [of "precondition_request_of ?x ?g" ?g] show ?thesis by blast
      next
        case (Some reason)
        have "invoke ?o ?x e = io_return (refused reason ?g) e"
          unfolding invoke_def invokeNow_def Let_def if_not_P [OF False] Some option.case ..
        with quiet [of "refused reason ?g"] show ?thesis by blast
      qed
    qed
  qed
qed

text \<open>The trace of an invocation from a fresh trace.\<close>

definition invocation_calls ::
  "'w engine_options \<Rightarrow> ('i, 'o, 'w) operation_execution \<Rightarrow> string set \<Rightarrow> 'w \<Rightarrow> engine_call list" where
  "invocation_calls opts x S w =
     tr (snd (invoke (traced_options opts) (traced x) \<lparr>reconciliationRequired = S, world = ([], w)\<rparr>))"

lemma invocation_calls_protocol: "invocation_trace x (invocation_calls opts x S w)"
proof -
  have "case invoke (traced_options opts) (traced x) \<lparr>reconciliationRequired = S, world = ([], w)\<rparr> of
      (Inr a, w') \<Rightarrow> \<exists>t. invocation_trace x t \<and> tr w' = [] @ t
    | (Inl err, w') \<Rightarrow> \<exists>t. invocation_trace x t \<and> tr w' = [] @ t"
    by (rule triple_apply [OF adds_invoke [unfolded adds_def]]) simp
  then show ?thesis
    unfolding invocation_calls_def by (auto split: prod.splits sum.splits)
qed

fun is_dispatch :: "engine_call \<Rightarrow> bool" where
  "is_dispatch (CallExecute _) = True"
| "is_dispatch _ = False"

lemma is_dispatch_leased [simp]: "filter is_dispatch (leased d CallAcquire) = []" "filter is_dispatch (leased d CallRelease) = []"
  by (auto simp: leased_def)

lemma is_dispatch_journal [simp]:
  "filter is_dispatch (journal_trace x CallStarted) = []" "filter is_dispatch (journal_trace x CallCompleted) = []"
  by (auto simp: journal_trace_def)

lemma is_dispatch_hooks: "hooks_trace h \<Longrightarrow> filter is_dispatch h = []"
  by (auto simp: hooks_trace_def)

lemma is_dispatch_execute:
  "execute_trace d e \<Longrightarrow> length (filter is_dispatch e) \<le> (if retryable d then MAX_IDEMPOTENT_READ_ATTEMPTS else 1)"
  by (auto simp: execute_trace_def attempts_def intro: order_trans [OF length_filter_le])

lemma is_dispatch_body:
  "body_trace x b \<Longrightarrow>
     length (filter is_dispatch b) \<le> (if retryable (ex_descriptor x) then MAX_IDEMPOTENT_READ_ATTEMPTS else 1)"
  by (auto simp: body_trace_def is_dispatch_hooks dest: is_dispatch_execute)


text \<open>The provider is dispatched at most twice, and at most once unless the descriptor is a
  supported idempotent read; in particular no mutation is ever dispatched twice by the engine.\<close>

theorem dispatch_bound:
  "length (filter is_dispatch (invocation_calls opts x S w)) \<le>
     (if d_mutationImpact (ex_descriptor x) = ImpactRead \<and> d_supportRead (ex_descriptor x) = Supported \<and>
         d_retryClass (ex_descriptor x) = RetryIdempotentRead then 2 else 1)"
  using invocation_calls_protocol [of x opts S w]
  by (auto simp: invocation_trace_def retryable_def MAX_IDEMPOTENT_READ_ATTEMPTS_def
      dest!: is_dispatch_body split: if_splits)

section \<open>Runs of commands\<close>

text \<open>A run is a sequence of invocations and reconciliations, with changes of the world by anyone
  else (\<open>Elapse\<close>) between them; it is recorded as what each command returned and left.\<close>

datatype ('i, 'o, 'w) command =
    Invoke "('i, 'o, 'w) operation_execution"
  | Reconcile "'w reconciliation_execution"
  | Elapse "'w \<Rightarrow> 'w"

datatype 'o observation =
    Invoked "string + 'o operation_result"
  | ReconcileSeen "string + reconciliation_result"
  | Elapsed

fun run_command :: "'w engine_options \<Rightarrow> ('i, 'o, 'w) command \<Rightarrow> 'w engine \<Rightarrow> 'o observation \<times> 'w engine" where
  "run_command opts (Invoke x) e = (case invoke opts x e of (r, e') \<Rightarrow> (Invoked r, e'))"
| "run_command opts (Reconcile x) e = (case reconcile opts x e of (r, e') \<Rightarrow> (ReconcileSeen r, e'))"
| "run_command opts (Elapse f) e = (Elapsed, e\<lparr>world := f (world e)\<rparr>)"

type_synonym ('i, 'o, 'w) run_step = "('i, 'o, 'w) command \<times> 'o observation \<times> 'w engine"

fun run_commands ::
  "'w engine_options \<Rightarrow> ('i, 'o, 'w) command list \<Rightarrow> 'w engine \<Rightarrow> ('i, 'o, 'w) run_step list" where
  "run_commands opts [] e = []"
| "run_commands opts (c # cs) e =
     (case run_command opts c e of (obs, e') \<Rightarrow> (c, obs, e') # run_commands opts cs e')"

text \<open>The state before step \<open>k\<close> of a run from \<open>e\<close>.\<close>

definition state_before :: "'w engine \<Rightarrow> ('i, 'o, 'w) run_step list \<Rightarrow> nat \<Rightarrow> 'w engine" where
  "state_before e run k = (if k = 0 then e else snd (snd (run ! (k - 1))))"

fun reconciles :: "string \<Rightarrow> ('i, 'o, 'w) run_step \<Rightarrow> bool" where
  "reconciles m (Reconcile x, ReconcileSeen (Inr (Reconciled _)), _) \<longleftrightarrow> rx_physicalModemId x = m"
| "reconciles m _ \<longleftrightarrow> False"

fun leaves_unknown :: "string \<Rightarrow> ('i, 'o, 'w) run_step \<Rightarrow> bool" where
  "leaves_unknown m (Invoke x, Invoked (Inr (ResultUnknown _ _)), _) \<longleftrightarrow> ex_physicalModemId x = m"
| "leaves_unknown m _ \<longleftrightarrow> False"

lemma run_step:
  "k < length cs \<Longrightarrow>
     run_commands opts cs e ! k =
       (cs ! k, run_command opts (cs ! k) (state_before e (run_commands opts cs e) k))"
proof (induction cs arbitrary: e k)
  case Nil
  then show ?case by simp
next
  case (Cons c cs)
  obtain obs e' where step: "run_command opts c e = (obs, e')" by force
  show ?case
  proof (cases k)
    case 0
    with step show ?thesis by (simp add: state_before_def)
  next
    case (Suc i)
    with Cons.prems Cons.IH [of i e'] step show ?thesis by (cases i) (simp_all add: state_before_def)
  qed
qed

lemma length_run_commands [simp]: "length (run_commands opts cs e) = length cs"
  by (induction cs arbitrary: e) (auto split: prod.split)

text \<open>One command opens the gate of a modem only by a successful reconciliation of it.\<close>

lemma command_keeps_gate:
  assumes "run_command opts c e = (obs, e')" and "m \<in> reconciliationRequired e"
    and "\<not> reconciles m (c, obs, e')"
  shows "m \<in> reconciliationRequired e'"
proof (cases c)
  case (Invoke x)
  with assms invokeNow_gate_mono [of e opts x] show ?thesis
    by (auto simp: invoke_def split: prod.splits)
next
  case (Reconcile x)
  then obtain r where "reconcile opts x e = (r, e')" "obs = ReconcileSeen r"
    using assms(1) by (auto split: prod.splits)
  with assms Reconcile reconcile_gate [of opts x e r e'] show ?thesis
    by (auto split: sum.splits reconciliation_result.splits)
next
  case (Elapse f)
  with assms show ?thesis by auto
qed

lemma unknown_closes_gate:
  assumes "run_command opts c e = (obs, e')" and "leaves_unknown m (c, obs, e')"
  shows "m \<in> reconciliationRequired e'"
  using assms(2)
proof (cases "(m, (c, obs, e'))" rule: leaves_unknown.cases)
  case (1 m' x r g e'')
  with assms have "invokeNow opts x e = (Inr (ResultUnknown r g), e')"
    by (auto simp: invoke_def split: prod.splits)
  from invokeNow_gate_Inr [OF this] 1 assms(2) show ?thesis by (simp add: gate_after_def)
qed simp_all

lemma run_keeps_gate:
  assumes "i \<le> j" and "j \<le> length cs" and "m \<in> reconciliationRequired (state_before e run i)"
    and "\<forall>k. i \<le> k \<and> k < j \<longrightarrow> \<not> reconciles m (run ! k)" and run: "run = run_commands opts cs e"
  shows "m \<in> reconciliationRequired (state_before e run j)"
  using assms(1-4)
proof (induction j rule: dec_induct)
  case base
  then show ?case by simp
next
  case (step j)
  obtain obs e' where now: "run_command opts (cs ! j) (state_before e run j) = (obs, e')" by force
  with step.prems run_step [of j cs opts e] run have at: "run ! j = (cs ! j, obs, e')" by simp
  have "m \<in> reconciliationRequired e'"
    by (rule command_keeps_gate [OF now]) (use step at in \<open>auto simp: less_Suc_eq\<close>)
  with at show ?case by (simp add: state_before_def)
qed

text \<open>C1: the reconciliation fence over whole runs: once an invocation of a modem has returned an
  unknown outcome, every later mutation of that modem, whatever happened in between on this or
  other modems, is refused with reconciliation-required and leaves engine and world untouched,
  until a reconciliation of that modem has succeeded.\<close>

theorem unknown_outcome_fences_mutations:
  assumes "i < j" and "j < length cs"
    and "leaves_unknown m (run_commands opts cs e ! i)"
    and "cs ! j = Invoke x" and "ex_physicalModemId x = m"
    and "d_mutationImpact (ex_descriptor x) \<noteq> ImpactRead"
    and "\<forall>k. i < k \<and> k < j \<longrightarrow> \<not> reconciles m (run_commands opts cs e ! k)"
  shows "let before = state_before e (run_commands opts cs e) j in
     run_commands opts cs e ! j =
       (Invoke x, Invoked (Inr (ResultRefused ''reconciliation-required''
                            (eo_currentGeneration opts m (world before)))), before)"
proof -
  let ?run = "run_commands opts cs e"
  obtain obs e' where now: "run_command opts (cs ! i) (state_before e ?run i) = (obs, e')" by force
  with assms(1,2) run_step [of i cs opts e] have at: "?run ! i = (cs ! i, obs, e')" by simp
  with unknown_closes_gate [OF now, of m] assms(3)
  have "m \<in> reconciliationRequired (state_before e ?run (Suc i))" by (simp add: state_before_def)
  from run_keeps_gate [OF _ _ this, of j cs opts] assms
  have "m \<in> reconciliationRequired (state_before e ?run j)" by simp
  with invoke_closed_gate [of x "state_before e ?run j" opts] assms(2,4,5,6) run_step [of j cs opts e]
  show ?thesis by (simp add: Let_def)
qed

text \<open>The concrete run of the witness: a write whose reply times out, then the same write.\<close>

definition sample_options :: "unit engine_options" where
  "sample_options =
     \<lparr>eo_admission = (\<lambda>_. io_return (Admitted (io_return ()))),
      eo_currentGeneration = (\<lambda>_ _. 1), eo_preconditions = (\<lambda>_. io_return PreSatisfied)\<rparr>"

definition sample_write :: "(unit, unit, unit) operation_execution" where
  "sample_write =
     \<lparr>ex_operationId = ''op'', ex_physicalModemId = ''modem'',
      ex_descriptor =
        \<lparr>d_id = ''reset'', d_supportRead = NotSupported ''n/a'', d_supportWrite = Supported,
         d_authority = AuthProvider, d_provider = ''mm'', d_constraints = Unconstrained,
         d_livePreconditions = [], d_availability = Available, d_mutationImpact = ImpactWrite,
         d_retryClass = RetryNever, d_readback = NoReadback, d_rollback = NotRequired,
         d_journal = NotRequired, d_admission = Required ''serialise'', d_profiles = [],
         d_firmware = [], d_confidence = OpConfHigh\<rparr>,
      ex_input = OtherOperand (), ex_execute = (\<lambda>_. io_return CompletionTimedOut),
      ex_readback = None, ex_rollback = None, ex_journal = None\<rparr>"

lemma sample_write_unknown:
  "invoke sample_options sample_write \<lparr>reconciliationRequired = {}, world = ()\<rparr> =
     (Inr (ResultUnknown WriteReplyTimedOut 1), \<lparr>reconciliationRequired = {''modem''}, world = ()\<rparr>)"
  by (simp add: invoke_def invokeNow_def Let_def sample_options_def sample_write_def kind_of_impact_def
      descriptorRefusalReason_def io_bind_def on_world_def io_return_def acquireMutationAdmission_def
      admission_request_of_def admitted_body_def record_event_def runCompletionHooks_def
      mark_unknown_def releaseAdmission_def io_finally_def canAutoRetry_def
      classifyOperationCompletion.simps MAX_IDEMPOTENT_READ_ATTEMPTS_def numeral_2_eq_2)

theorem unknown_outcome_fences_mutations_witness:
  "let run = run_commands sample_options [Invoke sample_write, Elapse id, Invoke sample_write]
               \<lparr>reconciliationRequired = {}, world = ()\<rparr>
   in run ! 2 = (Invoke sample_write, Invoked (Inr (ResultRefused ''reconciliation-required'' 1)),
                 \<lparr>reconciliationRequired = {''modem''}, world = ()\<rparr>)"
proof -
  let ?cs = "[Invoke sample_write, Elapse id, Invoke sample_write]"
  let ?e = "\<lparr>reconciliationRequired = {}, world = ()\<rparr>"
  let ?run = "run_commands sample_options ?cs ?e"
  let ?closed = "\<lparr>reconciliationRequired = {''modem''}, world = ()\<rparr>"
  have first: "?run ! 0 = (Invoke sample_write, Invoked (Inr (ResultUnknown WriteReplyTimedOut 1)), ?closed)"
    and second: "?run ! 1 = (Elapse id, Elapsed, ?closed)"
    by (simp_all add: sample_write_unknown)
  have sample: "ex_physicalModemId sample_write = ''modem''"
    "d_mutationImpact (ex_descriptor sample_write) \<noteq> ImpactRead"
    by (simp_all add: sample_write_def)
  have between: "\<forall>k. 0 < k \<and> k < 2 \<longrightarrow> \<not> reconciles ''modem'' (?run ! k)"
  proof (intro allI impI)
    fix k :: nat assume "0 < k \<and> k < 2"
    then have "k = 1" by simp
    then show "\<not> reconciles ''modem'' (?run ! k)" using second by simp
  qed
  have unknown: "leaves_unknown ''modem'' (?run ! 0)" unfolding first by (simp add: sample)
  have "state_before ?e ?run 2 = ?closed" using second by (simp add: state_before_def)
  with unknown_outcome_fences_mutations [OF _ _ unknown _ sample between] show ?thesis
    by (simp add: Let_def sample_options_def)
qed

end
