(* ===== verification/Journal_Engine.thy ===== *)
theory Journal_Engine
  imports Journal_Recovery Operation_Engine_Properties
begin

text \<open>
  The journal engine (\<open>journal/engine.ts\<close>), the durable implementation of the operation engine's
  journal hook, and what the two components guarantee together: the in-memory reconciliation gate
  is always contained in what replaying the journal file gives back.
\<close>

section \<open>The hook\<close>

fun entryFor :: "('i, 'o) journal_event \<Rightarrow> int \<Rightarrow> journal_entry" where
  "entryFor (JournalStarted op modem g d input) recordedAtMs =
     EntryStarted \<lparr>je_operationId = op, je_physicalModemId = modem, je_generation = g,
       je_recordedAtMs = recordedAtMs, je_descriptor = journalDescriptorEvidence d\<rparr>"
| "entryFor (JournalCompleted op modem g d result) recordedAtMs =
     EntryCompleted \<lparr>je_operationId = op, je_physicalModemId = modem, je_generation = g,
       je_recordedAtMs = recordedAtMs, je_descriptor = journalDescriptorEvidence d\<rparr>
       (journalOutcome result)"

text \<open>\<open>JournalEngine.record\<close> on a world that holds the store beside everything else; the clock and
  what the file system does to the append are read off the rest of the world.\<close>

definition journal_record ::
  "('v \<Rightarrow> nat) \<Rightarrow> ('v \<Rightarrow> append_fate) \<Rightarrow> ('i, 'o) journal_event \<Rightarrow> (store \<times> 'v, unit) io" where
  "journal_record now fate event w =
     (case w of (s, v) \<Rightarrow>
        (case appendNow (fate v) (entryFor event (int (now v))) s of (r, s') \<Rightarrow> (r, (s', v))))"

definition recover :: "bool \<Rightarrow> store \<Rightarrow> journal_recovery" where
  "recover unreadable s = reconstructJournalRecovery (journal_read unreadable s)"

section \<open>The contract between an execution and its journal\<close>

definition quiet :: "('w \<Rightarrow> store) \<Rightarrow> ('w, 'a) io \<Rightarrow> bool" where
  "quiet journal_of m \<longleftrightarrow> (\<forall>w. journal_of (snd (m w)) = journal_of w)"

fun quiet_decision :: "('w \<Rightarrow> store) \<Rightarrow> string + 'w admission_decision \<Rightarrow> bool" where
  "quiet_decision j (Inr (Admitted release)) = quiet j release"
| "quiet_decision j _ = True"

text \<open>\<open>live_fate\<close>: no append of the running process stops half-way (\<open>Journal_Store\<close> shows what
  happens to the next entry otherwise).\<close>

definition live_fate :: "append_fate \<Rightarrow> bool" where
  "live_fate f \<longleftrightarrow> (\<forall>k. f \<noteq> WriteStopsAfter k)"

locale journalled_engine =
  fixes journal_of :: "'w \<Rightarrow> store"
    and opts :: "'w engine_options"
    and x :: "('i, 'o, 'w) operation_execution"
    and now :: "'w \<Rightarrow> nat"
    and fate :: "'w \<Rightarrow> append_fate"
    and hook :: "('i, 'o) journal_event \<Rightarrow> ('w, unit) io"
  assumes execute_quiet: "quiet journal_of (ex_execute x ctx)"
    and readback_quiet: "ex_readback x = Some readback \<Longrightarrow> quiet journal_of (readback ctx)"
    and rollback_quiet: "ex_rollback x = Some rollback \<Longrightarrow> quiet journal_of (rollback ctx)"
    and check_quiet: "quiet journal_of (eo_preconditions opts request)"
    and admission_quiet: "quiet journal_of (eo_admission opts admission)"
    and release_quiet: "quiet_decision journal_of (fst (eo_admission opts admission w))"
    and journalled: "ex_journal x = Some hook"
    and hook_appends:
      "(fst (hook event w), journal_of (snd (hook event w))) =
         appendNow (fate w) (entryFor event (int (now w))) (journal_of w)"

section \<open>The fence on disk\<close>

definition journal_entries :: "store \<Rightarrow> journal_entry list" where
  "journal_entries s = rights (reading (content_of s))"

definition fenced :: "string set \<Rightarrow> store \<Rightarrow> bool" where
  "fenced G s \<longleftrightarrow> store_inv s \<and> (\<forall>m \<in> G. open_modem (journal_entries s) m)"

text \<open>While an operation runs: its start \<open>b\<close>, under a fresh key, is the last entry; \<open>u\<close> when its
  outcome was found unknown and its modem has been added to the gate.\<close>

definition running :: "journal_base \<Rightarrow> bool \<Rightarrow> string set \<Rightarrow> store \<Rightarrow> bool" where
  "running b u G s \<longleftrightarrow> store_inv s \<and>
     (\<exists>es. journal_entries s = es @ [EntryStarted b] \<and> keyOf (EntryStarted b) \<notin> set (map keyOf es) \<and>
        (\<forall>m \<in> G. open_modem es m \<or> (u \<and> m = je_physicalModemId b)))"

definition journal_keys :: "store \<Rightarrow> string set" where
  "journal_keys s = set (map keyOf (journal_entries s))"

definition own_keys :: "string \<Rightarrow> string \<Rightarrow> string set" where
  "own_keys modem operation = {k. \<exists>g. k = modem @ NUL @ operation @ NUL @ show_int g}"

lemma recover_open: "set (rc_reconciliationRequired (recover False s)) = {m. open_modem (journal_entries s) m}"
  by (simp add: recover_def open_modems_required journal_read_content journal_entries_def)

lemma entries_of_snoc:
  "entries_of k (es @ [e]) = (if keyOf e = k then entries_of k es @ [e] else entries_of k es)"
  by (simp add: entries_of_def)

lemma open_modem_snoc_other:
  assumes "open_modem es m" and "keyOf e \<notin> set (map keyOf es)"
  shows "open_modem (es @ [e]) m"
proof -
  obtain d where "d \<in> set es" and d: "je_physicalModemId (entry_base (last (entries_of (keyOf d) es))) = m"
    "open_entry (last (entries_of (keyOf d) es))"
    using assms(1) by (auto simp: open_modem_def)
  moreover have "keyOf e \<noteq> keyOf d" using assms(2) \<open>d \<in> set es\<close> by auto
  ultimately show ?thesis unfolding open_modem_def
    by (intro bexI [of _ d]) (auto simp: entries_of_snoc)
qed

lemma open_modem_snoc_open:
  "open_entry e \<Longrightarrow> open_modem (es @ [e]) (je_physicalModemId (entry_base e))"
  unfolding open_modem_def by (intro bexI [of _ e]) (auto simp: entries_of_snoc)

lemma open_modem_completed:
  assumes "open_modem es m" and "keyOf e = keyOf c" and "keyOf e \<notin> set (map keyOf es)"
  shows "open_modem (es @ [e] @ [c]) m"
proof -
  obtain d where "d \<in> set es" and d: "je_physicalModemId (entry_base (last (entries_of (keyOf d) es))) = m"
    "open_entry (last (entries_of (keyOf d) es))"
    using assms(1) by (auto simp: open_modem_def)
  moreover have "keyOf e \<noteq> keyOf d" using assms(3) \<open>d \<in> set es\<close> by auto
  ultimately show ?thesis unfolding open_modem_def
    by (intro bexI [of _ d]) (auto simp: entries_of_def assms(2) [symmetric])
qed

lemma running_fenced:
  assumes "running b u G s"
  shows "fenced G s"
proof -
  obtain es where s: "store_inv s" "journal_entries s = es @ [EntryStarted b]"
      "keyOf (EntryStarted b) \<notin> set (map keyOf es)"
    and G: "\<forall>m \<in> G. open_modem es m \<or> (u \<and> m = je_physicalModemId b)"
    using assms unfolding running_def by blast
  have "open_modem (es @ [EntryStarted b]) m" if "m \<in> G" for m
  proof (cases "open_modem es m")
    case True
    then show ?thesis using s(3) by (rule open_modem_snoc_other)
  next
    case False
    with that G have "m = je_physicalModemId b" by blast
    with open_modem_snoc_open [of "EntryStarted b" es] show ?thesis by (simp add: open_entry_def)
  qed
  with s show ?thesis by (simp add: fenced_def)
qed

lemma running_marks: "running b u G s \<Longrightarrow> running b True (insert (je_physicalModemId b) G) s"
  unfolding running_def by blast

text \<open>What one append of a live process leaves: the entry at the end, or (a completion whose reason
  is the empty string does not decode, and \<open>mkdir\<close> may have failed) the entries as they were.\<close>

lemma completed_reading:
  assumes "base_ok b"
  shows "rights (reading (encodeJournalEntry (EntryCompleted b out))) \<in> {[EntryCompleted b out], []}"
proof (cases "outcome_ok out")
  case True
  with assms show ?thesis by (simp add: reading_encoded)
next
  case False
  have "decodeJournalEntry (encodeJournalEntry (EntryCompleted b out)) = Inl (FailSchema ''reason'')"
    using assms False by (rule decode_empty_reason)
  then show ?thesis
    by (auto simp: reading_line encode_no_NL line_reading_def split: sum.split)
qed

lemma append_entries:
  assumes "store_inv s" and "live_fate f" and "appendNow f e s = (r, s')"
  shows "store_inv s'"
    and "(r = Inl ''mkdir'' \<and> journal_entries s' = journal_entries s) \<or>
         journal_entries s' = journal_entries s @ rights (reading (encodeJournalEntry e))"
proof -
  have "reading (content_of s @ (if now_terminated s then [] else [NL]) @ encodeJournalEntry e @ [NL]) =
      reading (content_of s) @ reading (encodeJournalEntry e)"
    using reading_next_line [OF assms(1), of "encodeJournalEntry e @ [NL]"] by simp
  moreover have "s' = snd (appendNow f e s)" "r = fst (appendNow f e s)" using assms(3) by simp_all
  ultimately show "(r = Inl ''mkdir'' \<and> journal_entries s' = journal_entries s) \<or>
         journal_entries s' = journal_entries s @ rights (reading (encodeJournalEntry e))"
    using assms(2) appended_content(1-3) [of e s]
    by (cases f) (auto simp: live_fate_def journal_entries_def appendNow_def Let_def)
  show "store_inv s'"
    using assms by (cases f) (auto simp: live_fate_def store_inv_def appendNow_def Let_def probeTerminated_def)
qed

lemma append_success_entries:
  assumes "store_inv s" and "live_fate f" and "appendNow f e s = (Inr u, s')"
  shows "journal_entries s' = journal_entries s @ rights (reading (encodeJournalEntry e))"
  using append_entries(2) [OF assms] by auto

lemma started_running:
  assumes "fenced G s" and "live_fate f" and "base_ok b" and "keyOf (EntryStarted b) \<notin> journal_keys s"
    and "appendNow f (EntryStarted b) s = (Inr u, s')"
  shows "running b False G s'"
proof -
  have "journal_entries s' = journal_entries s @ [EntryStarted b]"
    using append_success_entries [of s f "EntryStarted b" u s'] assms
    by (simp add: fenced_def reading_encoded)
  moreover have "store_inv s'" using append_entries(1) [of s f "EntryStarted b"] assms by (simp add: fenced_def)
  ultimately show ?thesis using assms(1,4) by (auto simp: running_def fenced_def journal_keys_def)
qed

lemma started_fenced:
  assumes "fenced G s" and "live_fate f" and "base_ok b" and "keyOf (EntryStarted b) \<notin> journal_keys s"
    and "appendNow f (EntryStarted b) s = (r, s')"
  shows "fenced G s'"
proof -
  have inv: "store_inv s'" using append_entries(1) [of s f "EntryStarted b"] assms by (simp add: fenced_def)
  have "journal_entries s' = journal_entries s \<or> journal_entries s' = journal_entries s @ [EntryStarted b]"
    using append_entries(2) [of s f "EntryStarted b" r s'] assms by (auto simp: fenced_def reading_encoded)
  with assms(1,4) inv show ?thesis
    using open_modem_snoc_other [of "journal_entries s" _ "EntryStarted b"]
    by (auto simp: fenced_def journal_keys_def)
qed

lemma completed_fenced:
  assumes "running b u G s" and "live_fate f" and "base_ok b'" and "keyOf (EntryStarted b) = keyOf (EntryCompleted b' out)"
    and "je_physicalModemId b' = je_physicalModemId b" and "u \<Longrightarrow> outcomeRequiresReconciliation out"
    and "appendNow f (EntryCompleted b' out) s = (r, s')"
  shows "fenced G s'"
proof -
  obtain es where s: "store_inv s" "journal_entries s = es @ [EntryStarted b]"
      "keyOf (EntryStarted b) \<notin> set (map keyOf es)"
    and G: "\<forall>m \<in> G. open_modem es m \<or> (u \<and> m = je_physicalModemId b)"
    using assms(1) unfolding running_def by blast
  have inv: "store_inv s'" using append_entries(1) [OF s(1) assms(2,7)] .
  consider "journal_entries s' = journal_entries s"
    | "journal_entries s' = es @ [EntryStarted b] @ [EntryCompleted b' out]"
    using append_entries(2) [OF s(1) assms(2,7)] completed_reading [OF assms(3), of out] s(2) by auto
  then show ?thesis
  proof cases
    case 1
    with running_fenced [OF assms(1)] inv show ?thesis by (simp add: fenced_def)
  next
    case 2
    have "open_modem (es @ [EntryStarted b] @ [EntryCompleted b' out]) m" if "m \<in> G" for m
    proof (cases "open_modem es m")
      case True
      from this assms(4) s(3) show ?thesis by (rule open_modem_completed)
    next
      case False
      with that G assms(6) have "m = je_physicalModemId b'" "open_entry (EntryCompleted b' out)"
        by (auto simp: assms(5) open_entry_def dispositionOf_def split: journal_outcome.splits)
      with open_modem_snoc_open [of "EntryCompleted b' out" "es @ [EntryStarted b]"] show ?thesis by simp
    qed
    with 2 inv show ?thesis by (simp add: fenced_def)
  qed
qed

lemma append_keys:
  assumes "store_inv s" and "live_fate f" and "appendNow f e s = (r, s')" and "base_ok (entry_base e)"
  shows "journal_keys s' \<subseteq> insert (keyOf e) (journal_keys s)"
proof -
  have "set (map keyOf (rights (reading (encodeJournalEntry e)))) \<subseteq> {keyOf e}"
  proof (cases e)
    case (EntryStarted b)
    with assms(4) show ?thesis by (simp add: reading_encoded)
  next
    case (EntryCompleted b out)
    with assms(4) completed_reading [of b out] show ?thesis by auto
  qed
  moreover have "journal_keys s' \<subseteq> journal_keys s \<union> set (map keyOf (rights (reading (encodeJournalEntry e))))"
    using append_entries(2) [OF assms(1-3)] by (auto simp: journal_keys_def)
  ultimately show ?thesis by blast
qed

lemma own_keys_key: "keyOf e \<in> own_keys (je_physicalModemId (entry_base e)) (je_operationId (entry_base e))"
  by (auto simp: own_keys_def keyOf_def Let_def)

section \<open>One invocation with a journal\<close>

definition journal_holds ::
  "('w \<Rightarrow> store) \<Rightarrow> (string set \<Rightarrow> store \<Rightarrow> bool) \<Rightarrow> 'w engine \<Rightarrow> bool" where
  "journal_holds journal_of P e \<longleftrightarrow> P (reconciliationRequired e) (journal_of (world e))"

text \<open>What the writer needs of an execution and of the file system for its entries to be readable.\<close>

definition journal_writable :: "('i, 'o, 'w) operation_execution \<Rightarrow> ('w \<Rightarrow> append_fate) \<Rightarrow> int \<Rightarrow> bool" where
  "journal_writable x fate g \<longleftrightarrow> ex_operationId x \<noteq> [] \<and> ex_physicalModemId x \<noteq> [] \<and> 0 \<le> g \<and>
     evidence_ok (journalDescriptorEvidence (ex_descriptor x)) \<and> (\<forall>w. live_fate (fate w))"

definition fenced_before :: "string set \<Rightarrow> string set \<Rightarrow> string set \<Rightarrow> store \<Rightarrow> bool" where
  "fenced_before own K G s \<longleftrightarrow> fenced G s \<and> journal_keys s \<subseteq> K \<and> K \<inter> own = {}"

definition fenced_after :: "string set \<Rightarrow> string set \<Rightarrow> string set \<Rightarrow> store \<Rightarrow> bool" where
  "fenced_after own K G s \<longleftrightarrow> fenced G s \<and> journal_keys s \<subseteq> K \<union> own"

context journalled_engine
begin

abbreviation holds :: "(string set \<Rightarrow> store \<Rightarrow> bool) \<Rightarrow> 'w engine \<Rightarrow> bool" where
  "holds \<equiv> journal_holds journal_of"

lemma quiet_triple: "quiet journal_of m \<Longrightarrow> triple (holds P) (on_world m) (\<lambda>_. holds P) (\<lambda>_. holds P)"
  unfolding triple_def on_world_def quiet_def journal_holds_def
  by (auto split: prod.splits sum.splits) (metis snd_conv)+

lemma execute_triple: "triple (holds P) (executeWithRetry opts x g k left) (\<lambda>_. holds P) (\<lambda>_. holds P)"
proof (induction left)
  case 0
  show ?case by (simp add: triple_return)
next
  case (Suc left)
  show ?case
    unfolding executeWithRetry.simps
  proof (rule triple_bind [OF quiet_triple [OF execute_quiet]])
    fix c
    show "triple (holds P)
        (\<lambda>e. let result = classifyOperationCompletion k g
                  (eo_currentGeneration opts (ex_physicalModemId x) (world e)) c
             in if \<not> canAutoRetry (ex_descriptor x) result \<or> left = 0
                then io_return result e else executeWithRetry opts x g k left e)
        (\<lambda>_. holds P) (\<lambda>_. holds P)"
      using Suc unfolding triple_def by (auto simp: Let_def io_return_def)
  qed
qed

lemma undo_triple:
  "triple (holds P) (io_bind (run_rollback x ctx) (\<lambda>_. io_return r)) (\<lambda>_. holds P) (\<lambda>_. holds P)"
proof (rule triple_bind [OF _ triple_return])
  show "triple (holds P) (run_rollback x ctx) (\<lambda>_. holds P) (\<lambda>_. holds P)"
    unfolding run_rollback_def
    by (cases "ex_rollback x")
       (auto intro!: triple_return triple_bind [OF quiet_triple [OF rollback_quiet]])
qed

lemma judge_triple:
  "triple (holds P) (judge_readback x matches ctx g result rb) (\<lambda>_. holds P) (\<lambda>_. holds P)"
  by (cases rb) (simp_all add: judge_readback_def undo_triple triple_return)

lemma hooks_triple: "triple (holds P) (runCompletionHooks opts x result g) (\<lambda>_. holds P) (\<lambda>_. holds P)"
  unfolding runCompletionHooks_def Let_def
  by (auto simp: undo_triple triple_return
      intro!: triple_bind [OF quiet_triple [OF readback_quiet] triple_fun_of_state [OF judge_triple]]
      split: operation_result.split operation_readback.split option.split)

lemma release_triple:
  assumes "\<And>release. a = AdmissionDecided (Admitted release) \<Longrightarrow> quiet journal_of release"
  shows "triple (holds P) (releaseAdmission a) (\<lambda>_. holds P) (\<lambda>_. holds P)"
  unfolding releaseAdmission_def
  using assms by (auto intro!: triple_return quiet_triple split: admission_result.splits admission_decision.splits)

abbreviation own :: "string set" where
  "own \<equiv> own_keys (ex_physicalModemId x) (ex_operationId x)"

abbreviation writable :: "int \<Rightarrow> bool" where
  "writable \<equiv> journal_writable x fate"

abbreviation before :: "string set \<Rightarrow> string set \<Rightarrow> store \<Rightarrow> bool" where
  "before K \<equiv> fenced_before own K"

abbreviation after :: "string set \<Rightarrow> string set \<Rightarrow> store \<Rightarrow> bool" where
  "after K \<equiv> fenced_after own K"

definition base_at :: "int \<Rightarrow> int \<Rightarrow> journal_base" where
  "base_at g t = \<lparr>je_operationId = ex_operationId x, je_physicalModemId = ex_physicalModemId x,
     je_generation = g, je_recordedAtMs = t, je_descriptor = journalDescriptorEvidence (ex_descriptor x)\<rparr>"

definition during :: "string set \<Rightarrow> int \<Rightarrow> int \<Rightarrow> bool \<Rightarrow> string set \<Rightarrow> store \<Rightarrow> bool" where
  "during K g t u G s \<longleftrightarrow> running (base_at g t) u G s \<and> journal_keys s \<subseteq> K \<union> own"

lemma base_at_ok: "writable g \<Longrightarrow> base_ok (base_at g (int t))"
  by (simp add: journal_writable_def base_ok_def base_at_def)

lemma base_at_key: "keyOf (EntryStarted (base_at g t)) \<in> own" "keyOf (EntryCompleted (base_at g t) r) \<in> own"
  using own_keys_key [of "EntryStarted (base_at g t)"] own_keys_key [of "EntryCompleted (base_at g t) r"]
  by (simp_all add: base_at_def)

lemma base_at_same_key: "keyOf (EntryStarted (base_at g t)) = keyOf (EntryCompleted (base_at g t') r)"
  by (simp add: base_at_def keyOf_def Let_def)

lemma before_after: "before K G s \<Longrightarrow> after K G s"
  by (auto simp: fenced_before_def fenced_after_def)

lemma during_after: "during K g t u G s \<Longrightarrow> after K G s"
  by (auto simp: during_def fenced_after_def dest: running_fenced)

lemma hook_on_world:
  "on_world (hook ev) e = (r, e') \<Longrightarrow>
     reconciliationRequired e' = reconciliationRequired e \<and>
     appendNow (fate (world e)) (entryFor ev (int (now (world e)))) (journal_of (world e)) = (r, journal_of (world e'))"
  using hook_appends [where event = ev and w = "world e"]
  by (auto simp: on_world_def split: prod.splits)

lemma started_triple:
  assumes "writable g"
  shows "triple (holds (before K))
     (record_event x (JournalStarted (ex_operationId x) (ex_physicalModemId x) g (ex_descriptor x) i))
     (\<lambda>_ e. \<exists>t. holds (during K g (int t) False) e) (\<lambda>_. holds (after K))"
  unfolding triple_def
proof (intro allI impI)
  fix e assume pre: "holds (before K) e"
  let ?ev = "JournalStarted (ex_operationId x) (ex_physicalModemId x) g (ex_descriptor x) i"
  obtain r e' where step: "on_world (hook ?ev) e = (r, e')" by force
  define t where "t = now (world e)"
  let ?s = "journal_of (world e)" and ?s' = "journal_of (world e')" and ?G = "reconciliationRequired e"
  from hook_on_world [OF step]
  have G: "reconciliationRequired e' = ?G"
    and append: "appendNow (fate (world e)) (EntryStarted (base_at g (int t))) ?s = (r, ?s')"
    by (simp_all add: base_at_def t_def)
  from pre have fen: "fenced ?G ?s" and keys: "journal_keys ?s \<subseteq> K" "K \<inter> own = {}"
    by (simp_all add: journal_holds_def fenced_before_def)
  then have fresh: "keyOf (EntryStarted (base_at g (int t))) \<notin> journal_keys ?s"
    using base_at_key(1) [of g "int t"] by blast
  have live: "live_fate (fate (world e))" using assms by (simp add: journal_writable_def)
  note ok = base_at_ok [OF assms, of t]
  have "journal_keys ?s' \<subseteq> K \<union> own"
    using append_keys [OF _ live append] fen ok keys base_at_key(1) [of g "int t"]
    by (auto simp: fenced_def)
  with started_running [OF fen live ok fresh] started_fenced [OF fen live ok fresh append] append G
  show "case record_event x ?ev e of (Inr a, w') \<Rightarrow> \<exists>t. holds (during K g (int t) False) w'
      | (Inl err, w') \<Rightarrow> holds (after K) w'"
    by (auto simp: record_event_def journalled step journal_holds_def during_def fenced_after_def split: sum.splits)
qed

lemma mark_triple:
  "triple (holds (during K g t False)) (mark_unknown (ex_physicalModemId x) r)
     (\<lambda>_. holds (during K g t (requiresReconciliation r))) E"
  using running_marks [of "base_at g t"]
  by (cases r) (auto simp: triple_def mark_unknown_def journal_holds_def during_def base_at_def)

lemma completed_triple:
  assumes "writable g"
  shows "triple (holds (during K g t (requiresReconciliation r)))
     (record_event x (JournalCompleted (ex_operationId x) (ex_physicalModemId x) g (ex_descriptor x) r))
     (\<lambda>_. holds (after K)) (\<lambda>_. holds (after K))"
  unfolding triple_def
proof (intro allI impI)
  fix e assume pre: "holds (during K g t (requiresReconciliation r)) e"
  let ?ev = "JournalCompleted (ex_operationId x) (ex_physicalModemId x) g (ex_descriptor x) r"
  obtain q e' where step: "on_world (hook ?ev) e = (q, e')" by force
  define t' where "t' = now (world e)"
  let ?s = "journal_of (world e)" and ?s' = "journal_of (world e')" and ?G = "reconciliationRequired e"
  from hook_on_world [OF step]
  have G: "reconciliationRequired e' = ?G"
    and append: "appendNow (fate (world e)) (EntryCompleted (base_at g (int t')) (journalOutcome r)) ?s = (q, ?s')"
    by (simp_all add: base_at_def t'_def)
  from pre have run: "running (base_at g t) (requiresReconciliation r) ?G ?s" and keys: "journal_keys ?s \<subseteq> K \<union> own"
    by (simp_all add: journal_holds_def during_def)
  have live: "live_fate (fate (world e))" using assms by (simp add: journal_writable_def)
  have unknown: "requiresReconciliation r \<Longrightarrow> outcomeRequiresReconciliation (journalOutcome r)" by (cases r) auto
  have "fenced ?G ?s'"
    by (rule completed_fenced [OF run live base_at_ok [OF assms] base_at_same_key _ unknown append])
       (simp add: base_at_def)
  moreover have "journal_keys ?s' \<subseteq> K \<union> own"
    using append_keys [OF _ live append] run base_at_ok [OF assms] keys base_at_key(2) [of g "int t'" "journalOutcome r"]
    by (auto simp: running_def)
  ultimately show "case record_event x ?ev e of (Inr a, w') \<Rightarrow> holds (after K) w' | (Inl err, w') \<Rightarrow> holds (after K) w'"
    using G by (auto simp: record_event_def journalled step journal_holds_def fenced_after_def split: sum.splits)
qed

lemma after_weaken:
  "triple Q m R (\<lambda>_. holds (during K g t u)) \<Longrightarrow> triple Q m R (\<lambda>_. holds (after K))"
  by (erule triple_post) (auto simp: journal_holds_def during_after)

lemma body_triple:
  assumes "writable g"
  shows "triple (holds (before K)) (admitted_body opts x g k) (\<lambda>_. holds (after K)) (\<lambda>_. holds (after K))"
  unfolding admitted_body_def
proof (rule triple_bind [OF started_triple [OF assms]], rule triple_ex, goal_cases)
  case (1 u t)
  show ?case
    by (rule triple_bind [OF after_weaken [OF execute_triple]],
        rule triple_bind [OF after_weaken [OF hooks_triple]],
        rule triple_bind [OF mark_triple], rule triple_bind [OF completed_triple [OF assms]],
        rule triple_return)
qed

definition quiet_lease :: "'w admission_result \<Rightarrow> bool" where
  "quiet_lease a \<longleftrightarrow> (\<forall>release. a = AdmissionDecided (Admitted release) \<longrightarrow> quiet journal_of release)"

lemma acquire_triple:
  assumes "port = None \<or> port = Some (eo_admission opts)"
  shows "triple (holds P) (on_world (acquireMutationAdmission request port))
     (\<lambda>a e. quiet_lease a \<and> holds P e) (\<lambda>_. holds P)"
proof (cases "ar_requirement request = NotRequired \<or> port = None")
  case True
  then show ?thesis
    by (auto simp: acquireMutationAdmission_def on_world_return quiet_lease_def intro: triple_return
        split: operation_requirement.split option.split)
next
  case False
  with assms have acq: "acquireMutationAdmission request port =
      io_bind (eo_admission opts request) (\<lambda>d. io_return (AdmissionDecided d))"
    by (auto simp: acquireMutationAdmission_def split: operation_requirement.split)
  show ?thesis
    unfolding triple_def
  proof (intro allI impI)
    fix e assume pre: "holds P e"
    obtain r w' where step: "eo_admission opts request (world e) = (r, w')" by force
    have "journal_of w' = journal_of (world e)"
      using admission_quiet [of request] step by (metis quiet_def snd_conv)
    moreover have "quiet_decision journal_of r" using release_quiet [of request "world e"] step by simp
    then have "r = Inr d \<Longrightarrow> quiet_lease (AdmissionDecided d)" for d
      by (cases d) (auto simp: quiet_lease_def)
    ultimately show "case on_world (acquireMutationAdmission request port) e of
        (Inr a, e') \<Rightarrow> quiet_lease a \<and> holds P e' | (Inl err, e') \<Rightarrow> holds P e'"
      using pre by (auto simp: acq on_world_def io_bind_def step io_return_def journal_holds_def split: sum.split)
  qed
qed

lemma protected_triple:
  assumes "writable g" and "quiet_lease a"
  shows "triple (holds (before K)) (io_finally (admitted_body opts x g k) (releaseAdmission a))
     (\<lambda>_. holds (after K)) (\<lambda>_. holds (after K))"
  by (rule triple_finally [OF body_triple [OF assms(1)]]; rule release_triple)
     (use assms(2) in \<open>auto simp: quiet_lease_def\<close>)

lemma before_weaken:
  "triple Q m R (\<lambda>_. holds (before K)) \<Longrightarrow> triple Q m R (\<lambda>_. holds (after K))"
  by (erule triple_post) (auto simp: journal_holds_def before_after)

lemma decided_triple:
  assumes "writable g" and "quiet_lease a"
  shows "triple (holds (before K))
     (case a of
         AdmissionDecided (AdmissionDenied reason d) \<Rightarrow> io_return (refused (admission_refusal_text reason) g)
       | _ \<Rightarrow> io_finally (admitted_body opts x g k) (releaseAdmission a))
     (\<lambda>_. holds (after K)) (\<lambda>_. holds (after K))"
  using protected_triple [OF assms, of K k]
  by (auto intro!: triple_return simp: journal_holds_def before_after
      split: admission_result.split admission_decision.split)

lemma stop_triple: "triple (holds (before K)) (io_return r) (\<lambda>_. holds (after K)) E"
  by (rule triple_return) (simp add: journal_holds_def before_after)

text \<open>Started where the gate is on disk and the keys of this operation are not, an invocation
  leaves the gate on disk, however it ends.\<close>

lemma invoke_fenced:
  assumes pre: "holds (before K) e" and writable: "writable (eo_currentGeneration opts (ex_physicalModemId x) (world e))"
  shows "holds (after K) (snd (invoke opts x e))"
proof -
  let ?g = "eo_currentGeneration opts (ex_physicalModemId x) (world e)"
  have refuse: "holds (after K) (snd (io_return r e))" for r :: "'o operation_result"
    using pre by (simp add: io_return_def journal_holds_def before_after)
  have run: "holds (after K) (snd (m e))"
    if "triple (holds (before K)) m (\<lambda>_. holds (after K)) (\<lambda>_. holds (after K))"
    for m :: "('w engine, 'o operation_result) io"
    using triple_apply [OF that pre] by (auto split: prod.splits sum.splits)
  let ?acquire = "\<lambda>port. on_world (acquireMutationAdmission (admission_request_of x) port)"
  have decide: "triple (holds (before K)) (io_bind (?acquire port) f) (\<lambda>_. holds (after K)) (\<lambda>_. holds (after K))"
    if "port = None \<or> port = Some (eo_admission opts)"
      and "\<And>a. quiet_lease a \<Longrightarrow> triple (holds (before K)) (f a) (\<lambda>_. holds (after K)) (\<lambda>_. holds (after K))"
    for f :: "'w admission_result \<Rightarrow> ('w engine, 'o operation_result) io" and port
    by (rule triple_bind [OF before_weaken [OF acquire_triple [OF that(1)]]], rule triple_pure, rule that(2))
  show ?thesis
    unfolding invoke_def invokeNow_def Let_def
    apply (cases "kind_of_impact (d_mutationImpact (ex_descriptor x)) = KindWrite \<and>
        ex_physicalModemId x \<in> reconciliationRequired e")
     apply (simp only: if_True simp_thms refuse)
    apply (simp only: if_False)
    apply (cases "descriptorRefusalReason x")
     apply (simp only: option.case)
     apply (rule run, rule triple_bind [OF before_weaken [OF quiet_triple [OF check_quiet]]])
    subgoal for p
      by (cases p)
         (simp_all add: decide decided_triple [OF writable] stop_triple)
    apply (simp only: option.case refuse)
    done
qed

end

section \<open>The engine composed with the journal\<close>

text \<open>Any execution over any world, with the journal engine as its hook: the world gets the journal
  store beside it, which the other collaborators do not touch.\<close>

definition beside :: "('v, 'a) io \<Rightarrow> (store \<times> 'v, 'a) io" where
  "beside m w = (case m (snd w) of (r, v') \<Rightarrow> (r, (fst w, v')))"

fun beside_decision :: "'v admission_decision \<Rightarrow> (store \<times> 'v) admission_decision" where
  "beside_decision (Admitted release) = Admitted (beside release)"
| "beside_decision (AdmissionDenied reason detail) = AdmissionDenied reason detail"

definition beside_options :: "'v engine_options \<Rightarrow> (store \<times> 'v) engine_options" where
  "beside_options opts =
     \<lparr>eo_admission = (\<lambda>request w. apfst (map_sum id beside_decision) (beside (eo_admission opts request) w)),
      eo_currentGeneration = (\<lambda>m w. eo_currentGeneration opts m (snd w)),
      eo_preconditions = (\<lambda>request. beside (eo_preconditions opts request))\<rparr>"

definition with_journal ::
  "('v \<Rightarrow> nat) \<Rightarrow> ('v \<Rightarrow> append_fate) \<Rightarrow> ('i, 'o, 'v) operation_execution \<Rightarrow>
     ('i, 'o, store \<times> 'v) operation_execution" where
  "with_journal now fate x =
     \<lparr>ex_operationId = ex_operationId x, ex_physicalModemId = ex_physicalModemId x,
      ex_descriptor = ex_descriptor x, ex_input = ex_input x,
      ex_execute = (\<lambda>ctx. beside (ex_execute x ctx)),
      ex_readback = map_option (\<lambda>f ctx. beside (f ctx)) (ex_readback x),
      ex_rollback = map_option (\<lambda>f ctx. beside (f ctx)) (ex_rollback x),
      ex_journal = Some (journal_record now fate)\<rparr>"

lemma quiet_beside [simp]: "quiet fst (beside m)"
  by (simp add: quiet_def beside_def split: prod.split)

lemma beside_execution:
  "journalled_engine fst (beside_options opts) (with_journal now fate x)
     (\<lambda>w. now (snd w)) (\<lambda>w. fate (snd w)) (journal_record now fate)"
proof
  show "quiet fst (eo_admission (beside_options opts) request)" for request
    by (simp add: beside_options_def quiet_def beside_def split: prod.split)
  show "quiet_decision fst (fst (eo_admission (beside_options opts) request w))" for request w
  proof -
    have "quiet_decision fst (map_sum id beside_decision r)" for r :: "string + 'a admission_decision"
    proof (cases r)
      case (Inr d)
      then show ?thesis by (cases d) simp_all
    qed simp
    then show ?thesis by (simp add: beside_options_def)
  qed
  show "(fst (journal_record now fate event w), fst (snd (journal_record now fate event w))) =
      appendNow (fate (snd w)) (entryFor event (int (now (snd w)))) (fst w)" for event :: "('b, 'c) journal_event" and w
    by (simp add: journal_record_def split: prod.split)
qed (auto simp: with_journal_def beside_options_def)

interpretation je: journalled_engine fst "beside_options opts" "with_journal now fate x"
  "\<lambda>w. now (snd w)" "\<lambda>w. fate (snd w)" "journal_record now fate"
  for opts :: "'v engine_options" and now fate and x :: "('i, 'o, 'v) operation_execution"
  by (rule beside_execution)

section \<open>Runs with a journal\<close>

fun journalled_command ::
  "('v \<Rightarrow> nat) \<Rightarrow> ('v \<Rightarrow> append_fate) \<Rightarrow> ('i, 'o, 'v) command \<Rightarrow> ('i, 'o, store \<times> 'v) command" where
  "journalled_command now fate (Invoke x) = Invoke (with_journal now fate x)"
| "journalled_command now fate (Reconcile r) =
     Reconcile \<lparr>rx_physicalModemId = rx_physicalModemId r, rx_generation = rx_generation r,
                rx_run = beside (rx_run r)\<rparr>"
| "journalled_command now fate (Elapse f) = Elapse (\<lambda>w. (fst w, f (snd w)))"

definition final_engine :: "'w engine_options \<Rightarrow> ('i, 'o, 'w) command list \<Rightarrow> 'w engine \<Rightarrow> 'w engine" where
  "final_engine opts cs e = foldl (\<lambda>e c. snd (run_command opts c e)) e cs"

text \<open>The engine of this process: an empty gate on a new instance of the store.\<close>

definition fresh_process :: "string option \<Rightarrow> 'v \<Rightarrow> (store \<times> 'v) engine" where
  "fresh_process file v = \<lparr>reconciliationRequired = {}, world = (create_store file, v)\<rparr>"

fun invoked_ids :: "('i, 'o, 'v) command list \<Rightarrow> (string \<times> string) list" where
  "invoked_ids [] = []"
| "invoked_ids (Invoke x # cs) = (ex_physicalModemId x, ex_operationId x) # invoked_ids cs"
| "invoked_ids (_ # cs) = invoked_ids cs"

fun command_ok :: "('i, 'o, 'v) command \<Rightarrow> bool" where
  "command_ok (Invoke x) = (ex_physicalModemId x \<noteq> [] \<and> ex_operationId x \<noteq> [] \<and>
     CHR 0x00 \<notin> set (ex_physicalModemId x) \<and> CHR 0x00 \<notin> set (ex_operationId x) \<and>
     evidence_ok (journalDescriptorEvidence (ex_descriptor x)))"
| "command_ok _ = True"

lemma takeWhile_eq_a: "z \<notin> set a \<Longrightarrow> takeWhile (\<lambda>c. c \<noteq> z) (a @ z # r) = a"
  by (induction a) auto

lemma NUL_cancel:
  assumes "a @ NUL @ r = b @ NUL @ r'" and "CHR 0x00 \<notin> set a" and "CHR 0x00 \<notin> set b"
  shows "a = b \<and> r = r'"
proof -
  have "takeWhile (\<lambda>c. c \<noteq> CHR 0x00) (a @ NUL @ r) = a" "takeWhile (\<lambda>c. c \<noteq> CHR 0x00) (b @ NUL @ r') = b"
    using assms(2,3) by (simp_all add: NUL_def takeWhile_eq_a)
  with assms(1) have "a = b" by simp
  with assms(1) show ?thesis by simp
qed

lemma own_keys_disjoint:
  assumes "(m, p) \<noteq> (m', p')" and "CHR 0x00 \<notin> set m" "CHR 0x00 \<notin> set p" "CHR 0x00 \<notin> set m'" "CHR 0x00 \<notin> set p'"
  shows "own_keys m p \<inter> own_keys m' p' = {}"
  using assms by (auto simp: own_keys_def dest!: NUL_cancel)

definition on_disk :: "string set \<Rightarrow> (store \<times> 'v) engine \<Rightarrow> bool" where
  "on_disk K e \<longleftrightarrow> fenced (reconciliationRequired e) (fst (world e)) \<and> journal_keys (fst (world e)) \<subseteq> K"

lemma fenced_subset: "fenced G s \<Longrightarrow> G' \<subseteq> G \<Longrightarrow> fenced G' s"
  by (auto simp: fenced_def)

lemma snd_run_invoke: "snd (run_command opts (Invoke x) e) = snd (invoke opts x e)"
  by (simp split: prod.split)

lemma with_journal_ids [simp]:
  "ex_physicalModemId (with_journal now fate x) = ex_physicalModemId x"
  "ex_operationId (with_journal now fate x) = ex_operationId x"
  "ex_descriptor (with_journal now fate x) = ex_descriptor x"
  by (simp_all add: with_journal_def)

lemma command_on_disk:
  assumes "on_disk K e" and "command_ok c" and "\<forall>m v. 0 \<le> eo_currentGeneration opts m v"
    and "\<forall>v. live_fate (fate v)" and "\<forall>(m, p) \<in> set (invoked_ids [c]). K \<inter> own_keys m p = {}"
  shows "on_disk (K \<union> (\<Union>(m, p) \<in> set (invoked_ids [c]). own_keys m p))
     (snd (run_command (beside_options opts) (journalled_command now fate c) e))"
proof (cases c)
  case (Invoke x)
  let ?x = "with_journal now fate x"
  have writable: "journal_writable ?x (\<lambda>w. fate (snd w)) (eo_currentGeneration (beside_options opts)
      (ex_physicalModemId ?x) (world e))"
    using assms(2-4) Invoke by (simp add: journal_writable_def beside_options_def)
  have "journal_holds fst (fenced_before (own_keys (ex_physicalModemId ?x) (ex_operationId ?x)) K) e"
    using assms(1,5) Invoke by (simp add: journal_holds_def fenced_before_def on_disk_def)
  from je.invoke_fenced [OF this writable]
  have "journal_holds fst (fenced_after (own_keys (ex_physicalModemId ?x) (ex_operationId ?x)) K)
      (snd (invoke (beside_options opts) ?x e))" .
  with Invoke show ?thesis
    by (simp add: journal_holds_def fenced_after_def on_disk_def snd_run_invoke del: run_command.simps)
next
  case (Reconcile r)
  let ?r = "\<lparr>rx_physicalModemId = rx_physicalModemId r, rx_generation = rx_generation r, rx_run = beside (rx_run r)\<rparr>"
  obtain q e' where step: "reconcile (beside_options opts) ?r e = (q, e')" by force
  have "reconciliationRequired e' \<subseteq> reconciliationRequired e"
    using reconcile_gate [OF step] by (auto split: sum.splits reconciliation_result.splits)
  moreover have "fst (world e') = fst (world e)"
    using step by (auto simp: reconcile_def Let_def io_return_def io_bind_def on_world_def beside_def
        split: if_splits prod.splits sum.splits reconcile_run_result.splits)
  ultimately show ?thesis
    using Reconcile step assms(1) by (auto simp: on_disk_def intro: fenced_subset)
next
  case (Elapse f)
  with assms(1) show ?thesis by (simp add: on_disk_def)
qed

lemma invoked_ids_Cons: "invoked_ids (c # cs) = invoked_ids [c] @ invoked_ids cs"
  by (cases c) simp_all

lemma invoked_ids_ok: "command_ok c \<Longrightarrow> (m, p) \<in> set (invoked_ids [c]) \<Longrightarrow>
    CHR 0x00 \<notin> set m \<and> CHR 0x00 \<notin> set p"
  by (cases c) auto

lemma invoked_ids_all_ok: "\<forall>c \<in> set cs. command_ok c \<Longrightarrow> (m, p) \<in> set (invoked_ids cs) \<Longrightarrow>
    CHR 0x00 \<notin> set m \<and> CHR 0x00 \<notin> set p"
proof (induction cs)
  case (Cons c cs)
  then show ?case using invoked_ids_ok [of c m p] by (auto simp: invoked_ids_Cons [of c cs])
qed simp

lemma run_on_disk:
  assumes "on_disk K e" and "\<forall>c \<in> set cs. command_ok c" and "\<forall>m v. 0 \<le> eo_currentGeneration opts m v"
    and "\<forall>v. live_fate (fate v)" and "distinct (invoked_ids cs)"
    and "\<forall>(m, p) \<in> set (invoked_ids cs). K \<inter> own_keys m p = {}"
  shows "\<exists>K'. on_disk K' (final_engine (beside_options opts) (map (journalled_command now fate) cs) e)"
  using assms(1,2,5,6)
proof (induction cs arbitrary: K e)
  case Nil
  then show ?case by (auto simp: final_engine_def)
next
  case (Cons c cs)
  let ?K = "K \<union> (\<Union>(m, p) \<in> set (invoked_ids [c]). own_keys m p)"
  let ?e = "snd (run_command (beside_options opts) (journalled_command now fate c) e)"
  note ids = invoked_ids_Cons [of c cs]
  have "on_disk ?K ?e"
    by (rule command_on_disk) (use Cons.prems assms(3,4) ids in auto)
  moreover have "\<forall>(m, p) \<in> set (invoked_ids cs). ?K \<inter> own_keys m p = {}"
  proof (intro ballI, clarify)
    fix m p assume mp: "(m, p) \<in> set (invoked_ids cs)"
    have "K \<inter> own_keys m p = {}" using Cons.prems(4) mp ids by auto
    moreover have "own_keys m' p' \<inter> own_keys m p = {}" if "(m', p') \<in> set (invoked_ids [c])" for m' p'
    proof (rule own_keys_disjoint)
      show "(m', p') \<noteq> (m, p)" using Cons.prems(3) ids that mp by auto
    qed (use invoked_ids_ok [of c m' p'] invoked_ids_all_ok [of cs m p] that mp Cons.prems(2) in auto)
    ultimately show "?K \<inter> own_keys m p = {}" by fast
  qed
  moreover have "distinct (invoked_ids cs)" using Cons.prems(3) ids by simp
  ultimately have "\<exists>K'. on_disk K' (final_engine (beside_options opts) (map (journalled_command now fate) cs) ?e)"
    using Cons.prems(2) by (intro Cons.IH) auto
  then show ?case by (simp add: final_engine_def)
qed



end
