(* ===== verification/Journal_Legacy.thy ===== *)
theory Journal_Legacy
  imports Journal_Recovery
begin

text \<open>
  The compatibility reader of CeraUI's mutation journal (\<open>journal/legacy-ceraui.ts\<close>): one JSON
  document per modem slot, decoded onto the same recovery model. The slot file name is a SHA-256
  of the key (\<open>node:crypto\<close>) and is not modelled. The schema version is 1 and not a field.
\<close>

definition LEGACY_JOURNAL_VERSION :: int where
  "LEGACY_JOURNAL_VERSION = 1"

definition LEGACY_HISTORY_CAP :: nat where
  "LEGACY_HISTORY_CAP = 32"

datatype legacy_state =
    LegacyArmed | LegacyExecuting | LegacyCompleted | LegacyFailed | LegacyAcknowledged
  | LegacyDeviceAbsentQuarantine | LegacyDecommissioned | LegacyRecommissionPending

definition LEGACY_STATES :: "(string \<times> legacy_state) list" where
  "LEGACY_STATES =
     [(''armed'', LegacyArmed), (''executing'', LegacyExecuting), (''completed'', LegacyCompleted),
      (''failed'', LegacyFailed), (''acknowledged'', LegacyAcknowledged),
      (''device-absent-quarantine'', LegacyDeviceAbsentQuarantine),
      (''decommissioned'', LegacyDecommissioned), (''recommission-pending'', LegacyRecommissionPending)]"

datatype legacy_ack_mode = VerifiedRollback | ForceRebaseline

definition LEGACY_ACK_MODES :: "(string \<times> legacy_ack_mode) list" where
  "LEGACY_ACK_MODES = [(''verified-rollback'', VerifiedRollback), (''force-rebaseline'', ForceRebaseline)]"

record legacy_history_entry =
  lh_state :: legacy_state
  lh_at :: int
  lh_detail :: "string option"

record legacy_entry =
  le_stableKey :: string
  le_kind :: string
  le_state :: legacy_state
  le_attemptId :: string
  le_startedAt :: int
  le_updatedAt :: int
  le_preState :: source
  le_detail :: "string option"
  le_acknowledgedMode :: "legacy_ack_mode option"
  le_history :: "legacy_history_entry list"

definition parseHistoryEntry :: "rat json \<Rightarrow> legacy_history_entry decoded" where
  "parseHistoryEntry raw =
     sum_bind (schema_record (Some raw) ''history[]'') (\<lambda>source.
     sum_bind (optionalString source ''detail'') (\<lambda>detail.
     sum_bind (schema_member source ''state'' LEGACY_STATES) (\<lambda>state.
     sum_bind (requiredNonNegativeInteger source ''at'') (\<lambda>recordedAt.
     Inr \<lparr>lh_state = state, lh_at = recordedAt, lh_detail = detail\<rparr>))))"

text \<open>\<open>history.map(parseHistoryEntry)\<close>, stopping at the first throw.\<close>

fun parse_all :: "('a \<Rightarrow> 'b decoded) \<Rightarrow> 'a list \<Rightarrow> 'b list decoded" where
  "parse_all f [] = Inr []"
| "parse_all f (x # xs) = sum_bind (f x) (\<lambda>y. sum_bind (parse_all f xs) (\<lambda>ys. Inr (y # ys)))"

definition validateLegacyEntry :: "rat json \<Rightarrow> legacy_entry decoded" where
  "validateLegacyEntry raw =
     sum_bind (schema_record (Some raw) ''entry'') (\<lambda>source.
     if map_of source ''version'' \<noteq> Some (JNum (of_int LEGACY_JOURNAL_VERSION))
     then Inl FailUnsupportedVersion
     else case map_of source ''history'' of
       Some (JArr history) \<Rightarrow>
         if length history > LEGACY_HISTORY_CAP then Inl (FailSchema ''history'')
         else
           sum_bind (optionalString source ''detail'') (\<lambda>detail.
           sum_bind (if map_of source ''acknowledgedMode'' = None then Inr None
                     else sum_bind (schema_member source ''acknowledgedMode'' LEGACY_ACK_MODES)
                            (\<lambda>m. Inr (Some m))) (\<lambda>acknowledgedMode.
           sum_bind (requiredString source ''stableKey'') (\<lambda>stableKey.
           sum_bind (requiredString source ''kind'') (\<lambda>kind.
           sum_bind (schema_member source ''state'' LEGACY_STATES) (\<lambda>state.
           sum_bind (requiredString source ''attemptId'') (\<lambda>attemptId.
           sum_bind (requiredNonNegativeInteger source ''startedAt'') (\<lambda>startedAt.
           sum_bind (requiredNonNegativeInteger source ''updatedAt'') (\<lambda>updatedAt.
           sum_bind (schema_record (map_of source ''preState'') ''preState'') (\<lambda>preState.
           sum_bind (parse_all parseHistoryEntry history) (\<lambda>parsedHistory.
           Inr \<lparr>le_stableKey = stableKey, le_kind = kind, le_state = state, le_attemptId = attemptId,
                le_startedAt = startedAt, le_updatedAt = updatedAt, le_preState = preState,
                le_detail = detail, le_acknowledgedMode = acknowledgedMode,
                le_history = parsedHistory\<rparr>))))))))))
     | _ \<Rightarrow> Inl (FailSchema ''history''))"

definition decodeLegacyEntry :: "string \<Rightarrow> legacy_entry decoded" where
  "decodeLegacyEntry content = decodeJournalDocument content validateLegacyEntry"

fun disposition_by_state :: "legacy_state \<Rightarrow> disposition" where
  "disposition_by_state LegacyArmed = Pending"
| "disposition_by_state LegacyExecuting = UnknownOutcome"
| "disposition_by_state LegacyCompleted = Resolved"
| "disposition_by_state LegacyFailed = Blocked"
| "disposition_by_state LegacyAcknowledged = Resolved"
| "disposition_by_state LegacyDeviceAbsentQuarantine = Blocked"
| "disposition_by_state LegacyDecommissioned = Blocked"
| "disposition_by_state LegacyRecommissionPending = Blocked"

definition legacyDescriptorEvidence :: "string \<Rightarrow> journal_evidence" where
  "legacyDescriptorEvidence kind =
     \<lparr>ev_descriptorId = kind, ev_provider = ''ceraui-legacy'', ev_authority = AuthController,
      ev_mutationImpact = ImpactWrite, ev_profiles = [], ev_firmware = [], ev_confidence = OpConfUnknown\<rparr>"

definition legacyOperationRecord :: "legacy_entry \<Rightarrow> operation_record" where
  "legacyOperationRecord entry =
     \<lparr>or_operationId = le_attemptId entry, or_physicalModemId = le_stableKey entry, or_generation = 0,
      or_descriptor = legacyDescriptorEvidence (le_kind entry),
      or_disposition = disposition_by_state (le_state entry), or_origin = LegacyCeraui,
      or_startedAtMs = le_startedAt entry, or_updatedAtMs = le_updatedAt entry,
      or_attempts = 1, or_outcome = None\<rparr>"

section \<open>Reading a directory\<close>

text \<open>What \<open>readdir\<close> finds: nothing there, an error, or names with the content that \<open>readFile\<close>
  returns for them (\<open>None\<close> when it throws).\<close>

datatype legacy_dir = DirMissing | DirUnreadable | DirListing "(string \<times> string option) list"

definition slot_damage :: "string \<Rightarrow> nat \<Rightarrow> decode_failure \<Rightarrow> damage_record" where
  "slot_damage name bytes failure =
     \<lparr>dm_location = DamageSlot name, dm_bytes = bytes, dm_failure = failure\<rparr>"

fun read_slots :: "(string \<times> string option) list \<Rightarrow> legacy_entry list \<times> damage_record list" where
  "read_slots [] = ([], [])"
| "read_slots ((name, content) # rest) =
     (case read_slots rest of (entries, damage) \<Rightarrow>
        if \<not> suffix ''.json'' name then (entries, damage)
        else case content of
          None \<Rightarrow> (entries, slot_damage name 0 FailUnreadable # damage)
        | Some body \<Rightarrow>
            (case decodeLegacyEntry body of
               Inr entry \<Rightarrow> (entry # entries, damage)
             | Inl failure \<Rightarrow> (entries, slot_damage name (length body) failure # damage)))"

definition readLegacyJournal :: "legacy_dir \<Rightarrow> journal_recovery \<times> legacy_entry list" where
  "readLegacyJournal dir =
     (case dir of
        DirMissing \<Rightarrow> (summarizeJournalRecords [] [], [])
      | DirUnreadable \<Rightarrow>
          (summarizeJournalRecords []
             [\<lparr>dm_location = DamageFile, dm_bytes = 0, dm_failure = FailUnreadable\<rparr>], [])
      | DirListing names \<Rightarrow>
          (case read_slots (sort_key fst names) of (entries, damage) \<Rightarrow>
             (summarizeJournalRecords (map legacyOperationRecord entries) damage, entries)))"

section \<open>What the reader guarantees\<close>

definition slot_entries :: "string \<times> string option \<Rightarrow> legacy_entry list" where
  "slot_entries slot = fst (read_slots [slot])"

definition slot_damages :: "string \<times> string option \<Rightarrow> damage_record list" where
  "slot_damages slot = snd (read_slots [slot])"

lemma read_slots_concat:
  "read_slots names = (concat (map slot_entries names), concat (map slot_damages names))"
  by (induction names rule: read_slots.induct)
     (simp_all add: slot_entries_def slot_damages_def split: option.split sum.split)

lemma in_slot_entries:
  "e \<in> set (slot_entries (name, content)) \<longleftrightarrow>
     suffix ''.json'' name \<and> (\<exists>body. content = Some body \<and> decodeLegacyEntry body = Inr e)"
  by (auto simp: slot_entries_def split: option.splits sum.splits)

lemma in_slot_damages:
  "d \<in> set (slot_damages (name, content)) \<longleftrightarrow>
     suffix ''.json'' name \<and>
     (case content of
        None \<Rightarrow> d = slot_damage name 0 FailUnreadable
      | Some body \<Rightarrow> (\<exists>f. decodeLegacyEntry body = Inl f \<and> d = slot_damage name (length body) f))"
  by (auto simp: slot_damages_def split: option.splits sum.splits)

lemma read_slots_entries:
  "set (fst (read_slots names)) =
     {e. \<exists>name body. (name, Some body) \<in> set names \<and> suffix ''.json'' name \<and> decodeLegacyEntry body = Inr e}"
proof -
  have "set (fst (read_slots names)) = {e. \<exists>slot \<in> set names. e \<in> set (slot_entries slot)}"
    by (auto simp: read_slots_concat)
  also have "\<dots> = {e. \<exists>name content. (name, content) \<in> set names \<and> e \<in> set (slot_entries (name, content))}"
    by (simp add: Bex_def split_paired_Ex)
  finally show ?thesis unfolding in_slot_entries by blast
qed

lemma read_slots_damage:
  "d \<in> set (snd (read_slots names)) \<longleftrightarrow>
     (\<exists>name content. (name, content) \<in> set names \<and> suffix ''.json'' name \<and>
        (case content of
           None \<Rightarrow> d = slot_damage name 0 FailUnreadable
         | Some body \<Rightarrow> (\<exists>f. decodeLegacyEntry body = Inl f \<and> d = slot_damage name (length body) f)))"
proof -
  have "d \<in> set (snd (read_slots names)) \<longleftrightarrow> (\<exists>slot \<in> set names. d \<in> set (slot_damages slot))"
    by (simp add: read_slots_concat)
  also have "\<dots> \<longleftrightarrow> (\<exists>name content. (name, content) \<in> set names \<and> d \<in> set (slot_damages (name, content)))"
    by (simp add: Bex_def split_paired_Ex)
  finally show ?thesis unfolding in_slot_damages by blast
qed

text \<open>Reading a legacy directory never lets a damaged slot hide a readable one: the entries are
  exactly the decodable .json slots, every other .json slot is one damage record that names it,
  and a modem needs reconciliation exactly when a decodable slot of it was left armed or
  executing; blocked states never reconcile.\<close>

theorem legacy_reader_keeps_slots:
  "let (rc, entries) = readLegacyJournal (DirListing names) in
     set entries = {e. \<exists>name body. (name, Some body) \<in> set names \<and> suffix ''.json'' name \<and>
                                   decodeLegacyEntry body = Inr e} \<and>
     (\<forall>d. d \<in> set (rc_damage rc) \<longleftrightarrow>
        (\<exists>name content. (name, content) \<in> set names \<and> suffix ''.json'' name \<and>
          (case content of
             None \<Rightarrow> d = slot_damage name 0 FailUnreadable
           | Some body \<Rightarrow> (\<exists>f. decodeLegacyEntry body = Inl f \<and> d = slot_damage name (length body) f)))) \<and>
     set (rc_reconciliationRequired rc) =
       {m. \<exists>e \<in> set entries. le_stableKey e = m \<and> le_state e \<in> {LegacyArmed, LegacyExecuting}}"
proof -
  obtain entries damage where slots: "read_slots (sort_key fst names) = (entries, damage)" by force
  have read: "readLegacyJournal (DirListing names) =
      (summarizeJournalRecords (map legacyOperationRecord entries) damage, entries)"
    by (simp add: readLegacyJournal_def slots)
  have "set entries = {e. \<exists>name body. (name, Some body) \<in> set names \<and> suffix ''.json'' name \<and>
                                   decodeLegacyEntry body = Inr e}"
    using read_slots_entries [of "sort_key fst names"] by (simp add: slots)
  moreover have "\<forall>d. d \<in> set damage \<longleftrightarrow>
        (\<exists>name content. (name, content) \<in> set names \<and> suffix ''.json'' name \<and>
          (case content of
             None \<Rightarrow> d = slot_damage name 0 FailUnreadable
           | Some body \<Rightarrow> (\<exists>f. decodeLegacyEntry body = Inl f \<and> d = slot_damage name (length body) f)))"
    using read_slots_damage [of _ "sort_key fst names"] by (simp add: slots)
  moreover have "needs_reconciliation (legacyOperationRecord e) \<longleftrightarrow> le_state e \<in> {LegacyArmed, LegacyExecuting}" for e
    by (cases "le_state e") (simp_all add: needs_reconciliation_def legacyOperationRecord_def)
  then have "set (rc_reconciliationRequired (summarizeJournalRecords (map legacyOperationRecord entries) damage)) =
      {m. \<exists>e \<in> set entries. le_stableKey e = m \<and> le_state e \<in> {LegacyArmed, LegacyExecuting}}"
    unfolding reconcile_set by (force simp: legacyOperationRecord_def)
  moreover have "rc_damage (summarizeJournalRecords (map legacyOperationRecord entries) damage) = damage"
    by (simp add: summarizeJournalRecords_def Let_def)
  ultimately show ?thesis unfolding read by simp
qed

end
