(* ===== verification/Recovery_Budget.thy ===== *)
theory Recovery_Budget
  imports Snapshot
begin

text \<open>
  What may authorise a recovery: fault attribution (\<open>backend/recovery-attribution.ts\<close>) and the attempt
  budget (\<open>backend/recovery-budget.ts\<close>), a pure reducer over the time the caller supplies. The
  contract of a budget is the locale \<open>attempt_budget\<close>; the reducer is its interpretation.
\<close>

section \<open>Attribution\<close>

datatype fault_attribution = ModemFault | NetworkFault | Indeterminate

record fault_symptoms =
  fs_sourceHealth :: source_health
  fs_presence :: presence
  fs_mmState :: mm_state
  fs_registration :: registration_status
  fs_nmActivation :: nm_activation

definition attributeFault :: "fault_symptoms \<Rightarrow> fault_attribution" where
  "attributeFault s =
     (if fs_sourceHealth s \<noteq> Live then Indeterminate
      else if fs_presence s = Absent then Indeterminate
      else if fs_mmState s = MmFailed then ModemFault
      else if fs_registration s = RegDenied then NetworkFault
      else if isRegistered (fs_registration s) \<and> fs_nmActivation s \<noteq> NmActivated then NetworkFault
      else Indeterminate)"

definition symptomsFromSnapshot :: "snapshot \<Rightarrow> fault_symptoms" where
  "symptomsFromSnapshot s =
     \<lparr>fs_sourceHealth = sourceHealth s, fs_presence = presence s, fs_mmState = mmState s,
      fs_registration = reg_status (registration s), fs_nmActivation = nmActivation s\<rparr>"

definition attributeSnapshot :: "snapshot \<Rightarrow> fault_attribution" where
  "attributeSnapshot s = attributeFault (symptomsFromSnapshot s)"

lemma modem_fault_iff:
  "attributeSnapshot s = ModemFault \<longleftrightarrow> sourceHealth s = Live \<and> presence s = Present \<and> mmState s = MmFailed"
  by (cases "presence s") (auto simp: attributeSnapshot_def attributeFault_def symptomsFromSnapshot_def)

section \<open>The budget\<close>

record recovery_budget =
  bud_maxAttempts :: int
  bud_cooldownMs :: int

definition DEFAULT_RECOVERY_BUDGET :: recovery_budget where
  "DEFAULT_RECOVERY_BUDGET = \<lparr>bud_maxAttempts = 2, bud_cooldownMs = 30000\<rparr>"

record budget_state =
  bs_attempts :: int
  bs_degraded :: bool
  bs_lastAttemptAt :: "int option"

definition INITIAL_BUDGET_STATE :: budget_state where
  "INITIAL_BUDGET_STATE = \<lparr>bs_attempts = 0, bs_degraded = False, bs_lastAttemptAt = None\<rparr>"

datatype budget_decision =
    Proceed budget_state
  | Cooldown budget_state int
  | LoopStop budget_state

definition beginAttempt :: "budget_state \<Rightarrow> recovery_budget \<Rightarrow> int \<Rightarrow> budget_decision" where
  "beginAttempt state budget now =
     (if bs_degraded state then LoopStop state
      else case bs_lastAttemptAt state of
        Some lastAt \<Rightarrow>
          if now - lastAt < bud_cooldownMs budget
          then Cooldown state (lastAt + bud_cooldownMs budget)
          else if bs_attempts state \<ge> bud_maxAttempts budget
          then LoopStop (state\<lparr>bs_degraded := True\<rparr>)
          else Proceed \<lparr>bs_attempts = bs_attempts state + 1, bs_degraded = False, bs_lastAttemptAt = Some now\<rparr>
      | None \<Rightarrow>
          if bs_attempts state \<ge> bud_maxAttempts budget
          then LoopStop (state\<lparr>bs_degraded := True\<rparr>)
          else Proceed \<lparr>bs_attempts = bs_attempts state + 1, bs_degraded = False, bs_lastAttemptAt = Some now\<rparr>)"

definition markRecovered :: budget_state where
  "markRecovered = INITIAL_BUDGET_STATE"

fun decision_state :: "budget_decision \<Rightarrow> budget_state" where
  "decision_state (Proceed s) = s"
| "decision_state (Cooldown s _) = s"
| "decision_state (LoopStop s) = s"

fun is_proceed :: "budget_decision \<Rightarrow> bool" where
  "is_proceed (Proceed _) = True"
| "is_proceed _ = False"

fun is_loop_stop :: "budget_decision \<Rightarrow> bool" where
  "is_loop_stop (LoopStop _) = True"
| "is_loop_stop _ = False"

section \<open>The contract of a budget\<close>

text \<open>
  \<open>attempt\<close> decides at a time and gives the next state; \<open>spent\<close> counts the attempts of a state,
  \<open>latched\<close> is the loop stop and \<open>last_at\<close> the time of the last attempt. The laws: an attempt is
  admitted only below the limit, unlatched and a cooldown after the last one, and is counted; a
  refusal counts nothing and never unlatches.
\<close>

locale attempt_budget =
  fixes attempt :: "'s \<Rightarrow> int \<Rightarrow> bool \<times> 's"
    and spent :: "'s \<Rightarrow> int" and latched :: "'s \<Rightarrow> bool" and last_at :: "'s \<Rightarrow> int option"
    and limit :: int and cooldown :: int
  assumes admitted: "attempt s t = (True, s') \<Longrightarrow> \<not> latched s \<and> spent s < limit \<and> spent s' = spent s + 1 \<and>
      \<not> latched s' \<and> last_at s' = Some t"
    and spaced: "attempt s t = (True, s') \<Longrightarrow> last_at s = Some u \<Longrightarrow> cooldown \<le> t - u"
    and denied: "attempt s t = (False, s') \<Longrightarrow> spent s' = spent s \<and> last_at s' = last_at s \<and>
      (latched s \<longrightarrow> latched s')"
begin

fun attempts_run :: "'s \<Rightarrow> int list \<Rightarrow> (int \<times> bool) list \<times> 's" where
  "attempts_run s [] = ([], s)"
| "attempts_run s (t # ts) =
     (case attempt s t of (ok, s1) \<Rightarrow> case attempts_run s1 ts of (hist, s2) \<Rightarrow> ((t, ok) # hist, s2))"

definition admitted_times :: "(int \<times> bool) list \<Rightarrow> int list" where
  "admitted_times hist = map fst (filter snd hist)"

lemma admitted_times_simps [simp]:
  "admitted_times [] = []"
  "admitted_times ((t, ok) # hist) = (if ok then t # admitted_times hist else admitted_times hist)"
  by (simp_all add: admitted_times_def)

lemma run_spent:
  "attempts_run s ts = (hist, s') \<Longrightarrow> spent s' = spent s + int (length (admitted_times hist))"
proof (induction ts arbitrary: s hist)
  case (Cons t ts)
  obtain ok s1 where one: "attempt s t = (ok, s1)" by force
  with Cons.prems obtain hist1 where rest: "attempts_run s1 ts = (hist1, s')" "hist = (t, ok) # hist1"
    by (auto split: prod.splits)
  from Cons.IH [OF rest(1)] rest(2) one admitted [of s t s1] denied [of s t s1] show ?case
    by (cases ok) auto
qed simp

lemma run_bound:
  "attempts_run s ts = (hist, s') \<Longrightarrow> spent s + int (length (admitted_times hist)) \<le> max (spent s) limit"
proof (induction ts arbitrary: s hist)
  case (Cons t ts)
  obtain ok s1 where one: "attempt s t = (ok, s1)" by force
  with Cons.prems obtain hist1 where rest: "attempts_run s1 ts = (hist1, s')" "hist = (t, ok) # hist1"
    by (auto split: prod.splits)
  from Cons.IH [OF rest(1)] rest(2) one admitted [of s t s1] denied [of s t s1] show ?case
    by (cases ok) auto
qed simp

lemma run_latched:
  "latched s \<Longrightarrow> attempts_run s ts = (hist, s') \<Longrightarrow> admitted_times hist = [] \<and> latched s'"
proof (induction ts arbitrary: s hist)
  case (Cons t ts)
  obtain ok s1 where one: "attempt s t = (ok, s1)" by force
  with Cons.prems obtain hist1 where rest: "attempts_run s1 ts = (hist1, s')" "hist = (t, ok) # hist1"
    by (auto split: prod.splits)
  from Cons.prems(1) one admitted [of s t s1] have "\<not> ok" by (cases ok) auto
  with denied [of s t s1] one Cons.prems(1) have "latched s1" by simp
  from Cons.IH [OF this rest(1)] \<open>\<not> ok\<close> rest(2) show ?case by simp
qed simp

fun apart :: "int option \<Rightarrow> int list \<Rightarrow> bool" where
  "apart u [] = True"
| "apart None (t # ts) = apart (Some t) ts"
| "apart (Some u) (t # ts) = (cooldown \<le> t - u \<and> apart (Some t) ts)"

lemma run_apart: "attempts_run s ts = (hist, s') \<Longrightarrow> apart (last_at s) (admitted_times hist)"
proof (induction ts arbitrary: s hist)
  case (Cons t ts)
  obtain ok s1 where one: "attempt s t = (ok, s1)" by force
  with Cons.prems obtain hist1 where rest: "attempts_run s1 ts = (hist1, s')" "hist = (t, ok) # hist1"
    by (auto split: prod.splits)
  show ?case
  proof (cases ok)
    case True
    with Cons.IH [OF rest(1)] admitted [of s t s1] one spaced [of s t s1] rest(2) show ?thesis
      by (cases "last_at s") auto
  next
    case False
    with Cons.IH [OF rest(1)] denied [of s t s1] one rest(2) show ?thesis by simp
  qed
qed simp

end

definition budget_attempt :: "recovery_budget \<Rightarrow> budget_state \<Rightarrow> int \<Rightarrow> bool \<times> budget_state" where
  "budget_attempt budget s now =
     (let d = beginAttempt s budget now in (is_proceed d, decision_state d))"

interpretation rb: attempt_budget "budget_attempt budget" bs_attempts bs_degraded bs_lastAttemptAt
    "bud_maxAttempts budget" "bud_cooldownMs budget" for budget
  by unfold_locales
     (auto simp: budget_attempt_def beginAttempt_def Let_def split: if_splits option.splits)

text \<open>However often recovery is asked for, the budget admits at most maxAttempts attempts until it
  is reset, each at least the cooldown after the one before, and once the loop stop has latched
  it admits none.\<close>

theorem budget_bounds_attempts:
  assumes "0 \<le> bud_maxAttempts budget"
    and "rb.attempts_run budget INITIAL_BUDGET_STATE ts = (hist, s)"
  shows "int (length (rb.admitted_times hist)) \<le> bud_maxAttempts budget \<and>
     rb.apart budget None (rb.admitted_times hist) \<and>
     (bs_degraded s \<longrightarrow> (\<forall>later. rb.admitted_times (fst (rb.attempts_run budget s later)) = []))"
  using rb.run_bound [OF assms(2)] rb.run_apart [OF assms(2)] rb.run_latched [of s budget] assms(1)
  by (auto simp: INITIAL_BUDGET_STATE_def) (metis prod.collapse)

theorem budget_bounds_attempts_witness:
  "\<exists>hist s. rb.attempts_run DEFAULT_RECOVERY_BUDGET INITIAL_BUDGET_STATE [0, 10, 30000, 70000, 90000] = (hist, s) \<and>
     int (length (rb.admitted_times hist)) \<le> 2 \<and> bs_degraded s"
proof -
  let ?ts = "[0, 10, 30000, 70000, 90000] :: int list"
  obtain hist s where run: "rb.attempts_run DEFAULT_RECOVERY_BUDGET INITIAL_BUDGET_STATE ?ts = (hist, s)"
    by (cases "rb.attempts_run DEFAULT_RECOVERY_BUDGET INITIAL_BUDGET_STATE ?ts") blast
  have "bs_degraded s"
    using run by (auto simp: budget_attempt_def beginAttempt_def Let_def DEFAULT_RECOVERY_BUDGET_def
        INITIAL_BUDGET_STATE_def)
  with budget_bounds_attempts [OF _ run] run show ?thesis by (auto simp: DEFAULT_RECOVERY_BUDGET_def)
qed

end
