(* ===== verification/Recovery_Ladder.thy ===== *)
theory Recovery_Ladder
  imports Recovery_Budget Lifecycle_Interlock
begin

text \<open>
  The evidence-gated recovery ladder (\<open>backend/recovery-ladder.ts\<close>) with its interlock
  (\<open>backend/lifecycle-interlock.ts\<close>) and power hook (\<open>backend/power-contract.ts\<close>). The state is the
  budget map; the steps, the hook, the interlock and the health probe act on a world and may
  throw. The actor runs one disruptive step of a modem at a time, so a step is a call.
\<close>

section \<open>Collaborators\<close>

datatype recovery_rung = NmCycle | MmCycle | ResetRung | PowerCycle

fun rung_text :: "recovery_rung \<Rightarrow> string" where
  "rung_text NmCycle = ''nmCycle''"
| "rung_text MmCycle = ''mmCycle''"
| "rung_text ResetRung = ''reset''"
| "rung_text PowerCycle = ''powerCycle''"

fun attribution_text :: "fault_attribution \<Rightarrow> string" where
  "attribution_text ModemFault = ''modem-fault''"
| "attribution_text NetworkFault = ''network-fault''"
| "attribution_text Indeterminate = ''indeterminate''"

definition LADDER_ORDER :: "recovery_rung list" where
  "LADDER_ORDER = [NmCycle, MmCycle, ResetRung, PowerCycle]"

datatype step_status = StepApplied | StepUnsupported | StepFailed | StepSkipped | StepBlocked

record step_context =
  cx_stableKey :: string
  cx_modem :: string
  cx_at :: int

record step_outcome =
  so_applied :: bool
  so_reason :: string

datatype power_status = PowerApplied | PowerUnsupported | PowerFailed

record power_cycle_result =
  pw_status :: power_status
  pw_reason :: string

datatype power_capability_kind = PowerKindNone | GpioCut | PwrkeyPulse | UsbHubPortCycle

fun power_kind_text :: "power_capability_kind \<Rightarrow> string" where
  "power_kind_text PowerKindNone = ''none''"
| "power_kind_text GpioCut = ''gpio-cut''"
| "power_kind_text PwrkeyPulse = ''pwrkey-pulse''"
| "power_kind_text UsbHubPortCycle = ''usb-hub-port-cycle''"

text \<open>The hook of a capability that is only declared.\<close>

definition unsupportedPowerHook :: "power_capability_kind \<Rightarrow> string \<Rightarrow> int \<Rightarrow> ('w, power_cycle_result) io" where
  "unsupportedPowerHook kind stableKey at_time =
     io_return \<lparr>pw_status = PowerUnsupported,
       pw_reason =
         (if kind = PowerKindNone
          then ''power capability '' @ APOS @ ''none'' @ APOS @ '' '' @ EM_DASH @ '' no board power control exists''
          else ''power capability '' @ APOS @ power_kind_text kind @ APOS @
               '' is declared but not implemented in Phase A'')\<rparr>"

section \<open>The ladder\<close>

record ladder_config =
  lc_allow :: "recovery_rung \<Rightarrow> bool"
  lc_budget :: recovery_budget

definition DEFAULT_LADDER_CONFIG :: ladder_config where
  "DEFAULT_LADDER_CONFIG = \<lparr>lc_allow = (\<lambda>_. True), lc_budget = DEFAULT_RECOVERY_BUDGET\<rparr>"

record step_report =
  sr_rung :: recovery_rung
  sr_status :: step_status
  sr_reason :: string

datatype recovery_outcome_kind =
  OutcomeDisabled | OutcomeNotAttributed | OutcomeCooldown | OutcomeLoopStop
  | OutcomeInterlockBlocked | OutcomeRecovered | OutcomeExhausted

record recovery_outcome =
  ro_kind :: recovery_outcome_kind
  ro_attribution :: fault_attribution
  ro_steps :: "step_report list"
  ro_degraded :: bool
  ro_reason :: string

record 'w recovery_request =
  rq_stableKey :: string
  rq_modem :: string
  rq_attribution :: fault_attribution
  rq_now :: int
  rq_probeHealthy :: "('w, bool) io"

record 'w ladder_deps =
  ld_step :: "recovery_rung \<Rightarrow> step_context \<Rightarrow> ('w, step_outcome) io"
  ld_power :: "string \<Rightarrow> int \<Rightarrow> ('w, power_cycle_result) io"
  ld_interlock :: "string \<Rightarrow> ('w, interlock_decision) io"
  ld_config :: ladder_config

record 'w ladder =
  lad_states :: "(string \<times> budget_state) list"
  lad_world :: 'w

definition on_lworld :: "('w, 'a) io \<Rightarrow> ('w ladder, 'a) io" where
  "on_lworld m l = (case m (lad_world l) of (r, w') \<Rightarrow> (r, l\<lparr>lad_world := w'\<rparr>))"

definition budgetStateFor :: "string \<Rightarrow> 'w ladder \<Rightarrow> budget_state" where
  "budgetStateFor key l =
     (case map_of (lad_states l) key of Some s \<Rightarrow> s | None \<Rightarrow> INITIAL_BUDGET_STATE)"

definition set_budget :: "string \<Rightarrow> budget_state \<Rightarrow> 'w ladder \<Rightarrow> 'w ladder" where
  "set_budget key s l = l\<lparr>lad_states := AList.update key s (lad_states l)\<rparr>"

definition ladder_clear :: "string \<Rightarrow> 'w ladder \<Rightarrow> 'w ladder" where
  "ladder_clear key l = l\<lparr>lad_states := AList.delete key (lad_states l)\<rparr>"

text \<open>\<open>#end\<close>.\<close>

definition ladder_end ::
  "recovery_outcome_kind \<Rightarrow> 'w recovery_request \<Rightarrow> step_report list \<Rightarrow> string \<Rightarrow>
     ('w ladder, recovery_outcome) io" where
  "ladder_end kind request steps reason l =
     (Inr \<lparr>ro_kind = kind, ro_attribution = rq_attribution request, ro_steps = steps,
           ro_degraded = bs_degraded (budgetStateFor (rq_stableKey request) l),
           ro_reason = reason\<rparr>, l)"

fun power_step_status :: "power_status \<Rightarrow> step_status" where
  "power_step_status PowerApplied = StepApplied"
| "power_step_status PowerUnsupported = StepUnsupported"
| "power_step_status PowerFailed = StepFailed"

definition runRung ::
  "'w ladder_deps \<Rightarrow> recovery_rung \<Rightarrow> step_context \<Rightarrow> ('w ladder, step_report) io" where
  "runRung deps rung ctx =
     (if rung = PowerCycle
      then io_bind (on_lworld (ld_power deps (cx_stableKey ctx) (cx_at ctx)))
             (\<lambda>r. io_return \<lparr>sr_rung = rung, sr_status = power_step_status (pw_status r),
                             sr_reason = pw_reason r\<rparr>)
      else io_bind (on_lworld (ld_step deps rung ctx))
             (\<lambda>r. io_return \<lparr>sr_rung = rung,
                             sr_status = (if so_applied r then StepApplied else StepFailed),
                             sr_reason = so_reason r\<rparr>))"

text \<open>The loop of \<open>#runRungs\<close> over the rungs that are left.\<close>

fun runRungs ::
  "'w ladder_deps \<Rightarrow> 'w recovery_request \<Rightarrow> step_context \<Rightarrow> step_report list \<Rightarrow> recovery_rung list \<Rightarrow>
     ('w ladder, recovery_outcome) io" where
  "runRungs deps request ctx steps [] = ladder_end OutcomeExhausted request steps
     ''ladder exhausted without restoring health''"
| "runRungs deps request ctx steps (rung # rungs) =
     (if \<not> lc_allow (ld_config deps) rung
      then runRungs deps request ctx
             (steps @ [\<lparr>sr_rung = rung, sr_status = StepSkipped, sr_reason = ''allowDisruptive is false''\<rparr>])
             rungs
      else io_bind (on_lworld (ld_interlock deps (rq_stableKey request)))
        (\<lambda>verdict. case verdict of
           InterlockDeny reason \<Rightarrow>
             ladder_end OutcomeInterlockBlocked request
               (steps @ [\<lparr>sr_rung = rung, sr_status = StepBlocked, sr_reason = reason\<rparr>])
               (''interlock blocked '' @ APOS @ rung_text rung @ APOS @ '': '' @ reason)
         | InterlockAllow \<Rightarrow>
             io_bind (runRung deps rung ctx)
               (\<lambda>report. if sr_status report = StepApplied
                  then io_bind (on_lworld (rq_probeHealthy request))
                    (\<lambda>healthy l. if healthy
                       then ladder_end OutcomeRecovered request (steps @ [report])
                              (''recovered at rung '' @ APOS @ rung_text rung @ APOS)
                              (set_budget (rq_stableKey request) markRecovered l)
                       else runRungs deps request ctx (steps @ [report]) rungs l)
                  else runRungs deps request ctx (steps @ [report]) rungs)))"

definition ladder_run ::
  "'w ladder_deps \<Rightarrow> desired_recovery \<Rightarrow> 'w recovery_request \<Rightarrow> ('w ladder, recovery_outcome) io" where
  "ladder_run deps recovery request l =
     (if \<not> recovery_enabled recovery then ladder_end OutcomeDisabled request [] ''recovery disabled by policy'' l
      else if rq_attribution request \<noteq> ModemFault then ladder_end OutcomeNotAttributed request []
          (''attribution '' @ APOS @ attribution_text (rq_attribution request) @ APOS @ '' is never disruptive'') l
      else case beginAttempt (budgetStateFor (rq_stableKey request) l) (lc_budget (ld_config deps))
                  (rq_now request) of
        LoopStop s \<Rightarrow> ladder_end OutcomeLoopStop request []
          (''recovery budget exhausted '' @ EM_DASH @ '' modem marked degraded'') (set_budget (rq_stableKey request) s l)
      | Cooldown s retryAfter \<Rightarrow> ladder_end OutcomeCooldown request []
          (''within cooldown window '' @ EM_DASH @ '' attempt refused'') l
      | Proceed s \<Rightarrow>
          runRungs deps request
            \<lparr>cx_stableKey = rq_stableKey request, cx_modem = rq_modem request, cx_at = rq_now request\<rparr>
            [] LADDER_ORDER (set_budget (rq_stableKey request) s l))"

section \<open>What a run of the rungs does\<close>

lemma lad_states_on_lworld [simp]: "lad_states (snd (on_lworld m l)) = lad_states l"
  by (simp add: on_lworld_def split: prod.split)

lemma on_lworld_states: "on_lworld m l = (r, l') \<Longrightarrow> lad_states l' = lad_states l"
  by (auto simp: on_lworld_def split: prod.splits)

lemma runRung_states: "runRung deps rung ctx l = (r, l') \<Longrightarrow> lad_states l' = lad_states l"
  by (auto simp: runRung_def io_bind_def io_return_def split: if_splits prod.splits sum.splits
      dest: on_lworld_states)

lemma runRung_rung: "runRung deps rung ctx l = (Inr report, l') \<Longrightarrow> sr_rung report = rung"
  by (auto simp: runRung_def io_bind_def io_return_def split: if_splits prod.splits sum.splits)

lemma runRung_status: "runRung deps rung ctx l = (Inr report, l') \<Longrightarrow> sr_status report \<notin> {StepSkipped, StepBlocked}"
  by (auto simp: runRung_def io_bind_def io_return_def split: if_splits prod.splits sum.splits)
     (metis power_step_status.elims step_status.distinct)+

text \<open>The shape of an outcome: the rungs tried, in order, and how they ended.\<close>

definition rungs_done ::
  "ladder_config \<Rightarrow> step_report list \<Rightarrow> recovery_rung list \<Rightarrow> recovery_outcome \<Rightarrow> bool" where
  "rungs_done cfg steps rungs out \<longleftrightarrow>
     (\<exists>more n. ro_steps out = steps @ more \<and> map sr_rung more = take n rungs \<and>
        (\<forall>r \<in> set more. (sr_status r = StepSkipped) = (\<not> lc_allow cfg (sr_rung r))) \<and>
        (\<forall>r \<in> set more. sr_status r = StepBlocked \<longrightarrow> r = last more) \<and>
        (case ro_kind out of
           OutcomeExhausted \<Rightarrow> n = length rungs \<and> (\<forall>r \<in> set more. sr_status r \<noteq> StepBlocked)
         | OutcomeRecovered \<Rightarrow> more \<noteq> [] \<and> sr_status (last more) = StepApplied
         | OutcomeInterlockBlocked \<Rightarrow> more \<noteq> [] \<and> sr_status (last more) = StepBlocked
         | _ \<Rightarrow> False))"

lemma rungs_done_more:
  assumes "rungs_done cfg (steps @ [r]) rungs out" and "sr_rung r = rung"
    and "(sr_status r = StepSkipped) = (\<not> lc_allow cfg rung)" and "sr_status r \<noteq> StepBlocked"
  shows "rungs_done cfg steps (rung # rungs) out"
proof -
  obtain more n where more: "ro_steps out = (steps @ [r]) @ more" "map sr_rung more = take n rungs"
      "\<forall>r \<in> set more. (sr_status r = StepSkipped) = (\<not> lc_allow cfg (sr_rung r))"
      "\<forall>r \<in> set more. sr_status r = StepBlocked \<longrightarrow> r = last more"
    and kind: "case ro_kind out of
           OutcomeExhausted \<Rightarrow> n = length rungs \<and> (\<forall>r \<in> set more. sr_status r \<noteq> StepBlocked)
         | OutcomeRecovered \<Rightarrow> more \<noteq> [] \<and> sr_status (last more) = StepApplied
         | OutcomeInterlockBlocked \<Rightarrow> more \<noteq> [] \<and> sr_status (last more) = StepBlocked
         | _ \<Rightarrow> False"
    using assms(1) unfolding rungs_done_def by blast
  have "map sr_rung (r # more) = take (Suc n) (rung # rungs)" using more(2) assms(2) by simp
  moreover have "\<forall>q \<in> set (r # more). sr_status q = StepBlocked \<longrightarrow> q = last (r # more)"
    using more(4) assms(4) by auto
  ultimately show ?thesis
    unfolding rungs_done_def using more(1,3) kind assms(2-4)
    by (intro exI [of _ "r # more"] exI [of _ "Suc n"]) (auto split: recovery_outcome_kind.splits)
qed

lemma rungs_done_now:
  assumes "ro_steps out = steps @ [r]" and "sr_rung r = rung" and "lc_allow cfg rung"
    and "sr_status r \<noteq> StepSkipped"
    and "ro_kind out = OutcomeRecovered \<and> sr_status r = StepApplied \<or>
         ro_kind out = OutcomeInterlockBlocked \<and> sr_status r = StepBlocked"
  shows "rungs_done cfg steps (rung # rungs) out"
  unfolding rungs_done_def
  by (rule exI [of _ "[r]"], rule exI [of _ 1]) (use assms in auto)

lemma runRungs_outcome:
  "runRungs deps request ctx steps rungs l = (q, l') \<Longrightarrow>
     (case q of
        Inl _ \<Rightarrow> lad_states l' = lad_states l
      | Inr out \<Rightarrow> rungs_done (ld_config deps) steps rungs out \<and>
          lad_states l' =
            (if ro_kind out = OutcomeRecovered
             then AList.update (rq_stableKey request) markRecovered (lad_states l) else lad_states l))"
proof (induction rungs arbitrary: steps l)
  case Nil
  have "rungs_done (ld_config deps) steps [] \<lparr>ro_kind = OutcomeExhausted,
      ro_attribution = rq_attribution request, ro_steps = steps,
      ro_degraded = bs_degraded (budgetStateFor (rq_stableKey request) l),
      ro_reason = ''ladder exhausted without restoring health''\<rparr>"
    unfolding rungs_done_def by (rule exI [of _ "[]"], rule exI [of _ 0]) simp
  with Nil show ?case by (auto simp: ladder_end_def)
next
  case (Cons rung rungs)
  show ?case
  proof (cases "lc_allow (ld_config deps) rung")
    case False
    with Cons.prems Cons.IH [of "steps @ [\<lparr>sr_rung = rung, sr_status = StepSkipped, sr_reason = ''allowDisruptive is false''\<rparr>]" l] show ?thesis
      by (auto split: sum.splits intro: rungs_done_more)
  next
    case True
    obtain v l1 where v: "on_lworld (ld_interlock deps (rq_stableKey request)) l = (v, l1)" by force
    note l1 = on_lworld_states [OF v]
    show ?thesis
    proof (cases "v = Inr InterlockAllow")
      case False
      with Cons.prems True v l1 show ?thesis
        by (cases v)
           (auto simp: io_bind_def ladder_end_def split: interlock_decision.splits
            intro!: rungs_done_now [where r = "\<lparr>sr_rung = rung, sr_status = StepBlocked, sr_reason = _\<rparr>"])
    next
      case allowed: True
      obtain p l2 where p: "runRung deps rung ctx l1 = (p, l2)" by force
      note l2 = runRung_states [OF p]
      show ?thesis
      proof (cases p)
        case (Inl err)
        with Cons.prems True v allowed p l1 l2 show ?thesis by (auto simp: io_bind_def)
      next
        case (Inr report)
        note report = runRung_rung [OF p [unfolded Inr]] runRung_status [OF p [unfolded Inr]]
        show ?thesis
        proof (cases "sr_status report = StepApplied")
          case False
          with Cons.prems True v allowed p Inr have
            "runRungs deps request ctx (steps @ [report]) rungs l2 = (q, l')"
            by (simp add: io_bind_def)
          from Cons.IH [OF this] report True l1 l2 show ?thesis
            by (auto split: sum.splits intro: rungs_done_more [of _ _ report])
        next
          case applied: True
          obtain h l3 where h: "on_lworld (rq_probeHealthy request) l2 = (h, l3)" by force
          note l3 = on_lworld_states [OF h]
          consider err where "h = Inl err" | "h = Inr True" | "h = Inr False" by (cases h) auto
          then show ?thesis
          proof cases
            case 1
            with Cons.prems True v allowed p Inr applied h l1 l2 l3 show ?thesis by (auto simp: io_bind_def)
          next
            case 2
            with Cons.prems True v allowed p Inr applied h l1 l2 l3 report show ?thesis
              by (auto simp: io_bind_def ladder_end_def set_budget_def
                  intro!: rungs_done_now [of _ _ report])
          next
            case 3
            with Cons.prems True v allowed p Inr applied h have
              "runRungs deps request ctx (steps @ [report]) rungs l3 = (q, l')"
              by (simp add: io_bind_def)
            from Cons.IH [OF this] report True applied l1 l2 l3 show ?thesis
              by (auto split: sum.splits intro: rungs_done_more [of _ _ report])
          qed
        qed
      qed
    qed
  qed
qed

section \<open>Evidence, order and interlock\<close>

lemma budget_after_set: "budgetStateFor k (set_budget k' s l) = (if k = k' then s else budgetStateFor k l)"
  by (simp add: budgetStateFor_def set_budget_def update_conv')

lemma world_after_set [simp]: "lad_world (set_budget k s l) = lad_world l"
  by (simp add: set_budget_def)

text \<open>Not one side effect without evidence: unless recovery is enabled, the snapshot the request
  was attributed from is live, present and terminally failed, and the budget lets an attempt
  proceed, a ladder run makes no call at all: it returns with no step, leaves the world and the
  budgets of all other modems as they are, and counts no attempt.\<close>

theorem ladder_needs_evidence:
  assumes "rq_attribution request = attributeSnapshot s"
    and "\<not> (recovery_enabled recovery \<and> sourceHealth s = Live \<and> presence s = Present \<and> mmState s = MmFailed \<and>
            is_proceed (beginAttempt (budgetStateFor (rq_stableKey request) l) (lc_budget (ld_config deps)) (rq_now request)))"
  shows "\<exists>out l'. ladder_run deps recovery request l = (Inr out, l') \<and> ro_steps out = [] \<and>
     lad_world l' = lad_world l \<and>
     (\<forall>k. bs_attempts (budgetStateFor k l') = bs_attempts (budgetStateFor k l) \<and>
          (k \<noteq> rq_stableKey request \<longrightarrow> budgetStateFor k l' = budgetStateFor k l))"
proof (cases "recovery_enabled recovery \<and> rq_attribution request = ModemFault")
  case False
  then show ?thesis by (auto simp: ladder_run_def ladder_end_def)
next
  case True
  let ?d = "beginAttempt (budgetStateFor (rq_stableKey request) l) (lc_budget (ld_config deps)) (rq_now request)"
  from True assms have "\<not> is_proceed ?d" by (simp add: modem_fault_iff)
  moreover have "bs_attempts b = bs_attempts (budgetStateFor (rq_stableKey request) l)" if "?d = LoopStop b" for b
    using that by (auto simp: beginAttempt_def split: if_splits option.splits)
  ultimately show ?thesis
    using True by (cases ?d) (auto simp: ladder_run_def ladder_end_def budget_after_set)
qed

text \<open>An attempt tries the rungs in the fixed order, each at most once, skipping exactly those
  whose policy forbids disruption: an exhausted ladder has tried all four, a recovery ends at an
  applied rung, and a denial of the interlock is the last thing that happens.\<close>

theorem ladder_climbs_in_order:
  assumes "ladder_run deps recovery request l = (Inr out, l')"
  shows "prefix (map sr_rung (ro_steps out)) LADDER_ORDER \<and>
     (\<forall>r \<in> set (ro_steps out).
        (sr_status r = StepSkipped) = (\<not> lc_allow (ld_config deps) (sr_rung r)) \<and>
        (sr_status r = StepBlocked \<longrightarrow> r = last (ro_steps out) \<and> ro_kind out = OutcomeInterlockBlocked)) \<and>
     (ro_kind out = OutcomeExhausted \<longrightarrow> map sr_rung (ro_steps out) = LADDER_ORDER) \<and>
     (ro_kind out = OutcomeRecovered \<longrightarrow> sr_status (last (ro_steps out)) = StepApplied \<and>
        budgetStateFor (rq_stableKey request) l' = INITIAL_BUDGET_STATE)"
proof -
  let ?d = "beginAttempt (budgetStateFor (rq_stableKey request) l) (lc_budget (ld_config deps)) (rq_now request)"
  show ?thesis
  proof (cases "recovery_enabled recovery \<and> rq_attribution request = ModemFault \<and> is_proceed ?d")
    case False
    with assms have "ro_steps out = [] \<and> ro_kind out \<notin> {OutcomeExhausted, OutcomeRecovered}"
      by (cases ?d) (auto simp: ladder_run_def ladder_end_def split: if_splits)
    then show ?thesis by simp
  next
    case True
    then obtain b where "?d = Proceed b" by (cases ?d) auto
    with True assms obtain ctx l0 where run: "runRungs deps request ctx [] LADDER_ORDER l0 = (Inr out, l')"
      by (auto simp: ladder_run_def)
    note out = runRungs_outcome [OF run]
    then have "rungs_done (ld_config deps) [] LADDER_ORDER out" by simp
    then obtain n where steps: "map sr_rung (ro_steps out) = take n LADDER_ORDER"
        "\<forall>r \<in> set (ro_steps out). (sr_status r = StepSkipped) = (\<not> lc_allow (ld_config deps) (sr_rung r))"
        "\<forall>r \<in> set (ro_steps out). sr_status r = StepBlocked \<longrightarrow> r = last (ro_steps out)"
      and kind: "case ro_kind out of
           OutcomeExhausted \<Rightarrow> n = length LADDER_ORDER \<and> (\<forall>r \<in> set (ro_steps out). sr_status r \<noteq> StepBlocked)
         | OutcomeRecovered \<Rightarrow> ro_steps out \<noteq> [] \<and> sr_status (last (ro_steps out)) = StepApplied
         | OutcomeInterlockBlocked \<Rightarrow> ro_steps out \<noteq> [] \<and> sr_status (last (ro_steps out)) = StepBlocked
         | _ \<Rightarrow> False"
      unfolding rungs_done_def by auto
    have blocked: "ro_kind out = OutcomeInterlockBlocked" if "r \<in> set (ro_steps out)" "sr_status r = StepBlocked" for r
      using kind steps(3) that by (auto split: recovery_outcome_kind.splits)
    have "ro_kind out = OutcomeRecovered \<Longrightarrow> budgetStateFor (rq_stableKey request) l' = INITIAL_BUDGET_STATE"
      using out by (simp add: budgetStateFor_def markRecovered_def update_conv')
    moreover have "ro_kind out = OutcomeExhausted \<Longrightarrow> map sr_rung (ro_steps out) = LADDER_ORDER"
      using kind steps(1) by simp
    moreover have "ro_kind out = OutcomeRecovered \<Longrightarrow> sr_status (last (ro_steps out)) = StepApplied"
      using kind by simp
    ultimately show ?thesis
      using steps blocked by (auto simp: take_is_prefix)
  qed
qed

text \<open>The steps with an assertion in front: a step called when \<open>safe\<close> does not hold throws.\<close>

definition guarded :: "(string \<Rightarrow> 'w \<Rightarrow> bool) \<Rightarrow> 'w ladder_deps \<Rightarrow> 'w ladder_deps" where
  "guarded safe deps = deps
     \<lparr>ld_step := (\<lambda>rung ctx w. if safe (cx_stableKey ctx) w then ld_step deps rung ctx w else (Inl ''unsafe'', w)),
      ld_power := (\<lambda>key t w. if safe key w then ld_power deps key t w else (Inl ''unsafe'', w))\<rparr>"

lemma runRung_guarded:
  "safe (cx_stableKey ctx) (lad_world l) \<Longrightarrow> runRung (guarded safe deps) rung ctx l = runRung deps rung ctx l"
  by (simp add: runRung_def guarded_def io_bind_def on_lworld_def)

lemma runRungs_guarded:
  assumes sound: "\<And>key w w'. ld_interlock deps key w = (Inr InterlockAllow, w') \<Longrightarrow> safe key w'"
    and key: "cx_stableKey ctx = rq_stableKey request"
  shows "runRungs (guarded safe deps) request ctx steps rungs l = runRungs deps request ctx steps rungs l"
proof (induction rungs arbitrary: steps l)
  case (Cons rung rungs)
  obtain v l1 where v: "on_lworld (ld_interlock deps (rq_stableKey request)) l = (v, l1)" by force
  have "safe (cx_stableKey ctx) (lad_world l1)" if "v = Inr InterlockAllow"
    using v that by (auto simp: on_lworld_def key split: prod.splits intro: sound)
  then have rung: "runRung (guarded safe deps) rung ctx l1 = runRung deps rung ctx l1" if "v = Inr InterlockAllow"
    using that by (simp add: runRung_guarded)
  have deps: "ld_config (guarded safe deps) = ld_config deps" "ld_interlock (guarded safe deps) = ld_interlock deps"
    by (simp_all add: guarded_def)
  have IH: "runRungs (guarded safe deps) request ctx st rungs = runRungs deps request ctx st rungs" for st
    using Cons.IH by (simp add: fun_eq_iff)
  show ?case
    using rung by (auto simp: deps IH io_bind_def v split: sum.split prod.split interlock_decision.split)
qed (simp add: guarded_def)


section \<open>Attempts over a run of the ladder\<close>

datatype 'w ladder_command = LadderRun desired_recovery "'w recovery_request" | LadderClear string

type_synonym ladder_result = "(string + recovery_outcome) option"

fun ladder_step :: "'w ladder_deps \<Rightarrow> 'w ladder_command \<Rightarrow> 'w ladder \<Rightarrow> ladder_result \<times> 'w ladder" where
  "ladder_step deps (LadderRun recovery request) l =
     (case ladder_run deps recovery request l of (q, l') \<Rightarrow> (Some q, l'))"
| "ladder_step deps (LadderClear key) l = (None, ladder_clear key l)"

fun ladder_steps ::
  "'w ladder_deps \<Rightarrow> 'w ladder_command list \<Rightarrow> 'w ladder \<Rightarrow> ('w ladder_command \<times> ladder_result) list" where
  "ladder_steps deps [] l = []"
| "ladder_steps deps (c # cs) l =
     (case ladder_step deps c l of (q, l') \<Rightarrow> (c, q) # ladder_steps deps cs l')"

text \<open>A result that reached the rungs: a throw of a collaborator, a denial or an exhausted ladder.\<close>

fun reached_rungs :: "ladder_result \<Rightarrow> bool" where
  "reached_rungs (Some (Inl _)) = True"
| "reached_rungs (Some (Inr out)) = (ro_kind out \<in> {OutcomeInterlockBlocked, OutcomeExhausted})"
| "reached_rungs None = False"

fun attempt_for :: "string \<Rightarrow> 'w ladder_command \<times> ladder_result \<Rightarrow> bool" where
  "attempt_for k (LadderRun recovery request, q) = (rq_stableKey request = k \<and> reached_rungs q)"
| "attempt_for k (LadderClear _, q) = False"

text \<open>What gives a modem a fresh budget: an operator clearing it, or a recovery of it.\<close>

fun renews :: "string \<Rightarrow> 'w ladder_command \<times> ladder_result \<Rightarrow> bool" where
  "renews k (LadderClear key, q) = (key = k)"
| "renews k (LadderRun recovery request, q) =
     (rq_stableKey request = k \<and> (\<exists>out. q = Some (Inr out) \<and> ro_kind out = OutcomeRecovered))"

lemma run_attempts:
  assumes "ladder_run deps recovery request l = (q, l')" and "\<not> renews k (LadderRun recovery request, Some q)"
  shows "bs_attempts (budgetStateFor k l') = bs_attempts (budgetStateFor k l) +
           (if attempt_for k (LadderRun recovery request, Some q) then 1 else 0) \<and>
     (attempt_for k (LadderRun recovery request, Some q) \<longrightarrow>
        bs_attempts (budgetStateFor k l) < bud_maxAttempts (lc_budget (ld_config deps)))"
proof -
  let ?d = "beginAttempt (budgetStateFor (rq_stableKey request) l) (lc_budget (ld_config deps)) (rq_now request)"
  have stop: "bs_attempts b = bs_attempts (budgetStateFor (rq_stableKey request) l)" if "?d = LoopStop b" for b
    using that by (auto simp: beginAttempt_def split: if_splits option.splits)
  show ?thesis
  proof (cases "recovery_enabled recovery \<and> rq_attribution request = ModemFault \<and> is_proceed ?d")
    case False
    with assms(1) stop show ?thesis
      by (cases ?d) (auto simp: ladder_run_def ladder_end_def budget_after_set split: if_splits)
  next
    case True
    then obtain b where b: "?d = Proceed b" by (cases ?d) auto
    then have count: "bs_attempts b = bs_attempts (budgetStateFor (rq_stableKey request) l) + 1"
        "bs_attempts (budgetStateFor (rq_stableKey request) l) < bud_maxAttempts (lc_budget (ld_config deps))"
      by (auto simp: beginAttempt_def split: if_splits option.splits)
    from True b assms(1) obtain ctx where
      run: "runRungs deps request ctx [] LADDER_ORDER (set_budget (rq_stableKey request) b l) = (q, l')"
      by (auto simp: ladder_run_def)
    note out = runRungs_outcome [OF run]
    show ?thesis
    proof (cases "\<exists>out. q = Inr out \<and> ro_kind out = OutcomeRecovered")
      case True
      with assms(2) out show ?thesis
        by (auto simp: budgetStateFor_def set_budget_def update_conv')
    next
      case False
      with out have "lad_states l' = lad_states (set_budget (rq_stableKey request) b l)"
        by (auto split: sum.splits)
      then have after: "budgetStateFor k l' = (if k = rq_stableKey request then b else budgetStateFor k l)"
        by (simp add: budgetStateFor_def set_budget_def update_conv')
      have "reached_rungs (Some q)"
      proof (cases q)
        case (Inr ro)
        with out have "rungs_done (ld_config deps) [] LADDER_ORDER ro" by simp
        with Inr False show ?thesis by (cases "ro_kind ro") (auto simp: rungs_done_def)
      qed simp
      with after count show ?thesis by (cases "k = rq_stableKey request") simp_all
    qed
  qed
qed

lemma steps_attempts:
  "\<forall>s \<in> set (ladder_steps deps cs l). \<not> renews k s \<Longrightarrow>
     bs_attempts (budgetStateFor k l) + int (length (filter (attempt_for k) (ladder_steps deps cs l))) \<le>
       max (bs_attempts (budgetStateFor k l)) (bud_maxAttempts (lc_budget (ld_config deps)))"
proof (induction cs arbitrary: l)
  case (Cons c cs)
  obtain q l' where step: "ladder_step deps c l = (q, l')" by force
  from Cons.prems step have "\<forall>s \<in> set (ladder_steps deps cs l'). \<not> renews k s" and now: "\<not> renews k (c, q)" by simp_all
  note IH = Cons.IH [OF this(1)]
  show ?case
  proof (cases c)
    case (LadderRun recovery request)
    then obtain p where p: "ladder_run deps recovery request l = (p, l')" "q = Some p"
      using step by (auto split: prod.splits)
    with now LadderRun have "\<not> renews k (LadderRun recovery request, Some p)" by simp
    from run_attempts [OF p(1) this] IH step LadderRun p(2) show ?thesis by auto
  next
    case (LadderClear key)
    with step now have "budgetStateFor k l' = budgetStateFor k l" "q = None"
      by (auto simp: ladder_clear_def budgetStateFor_def delete_conv')
    with IH step LadderClear show ?thesis by simp
  qed
qed simp

text \<open>C6: a broken modem is not recovered for ever: over any sequence of requests for any modems, a modem
  that is neither cleared by the operator nor found recovered reaches the rungs at most
  maxAttempts times, however the attempts end.\<close>

theorem ladder_attempts_bounded:
  assumes "0 \<le> bud_maxAttempts (lc_budget (ld_config deps))"
    and "\<forall>s \<in> set (ladder_steps deps cs \<lparr>lad_states = [], lad_world = w\<rparr>). \<not> renews k s"
  shows "int (length (filter (attempt_for k) (ladder_steps deps cs \<lparr>lad_states = [], lad_world = w\<rparr>)))
     \<le> bud_maxAttempts (lc_budget (ld_config deps))"
  using steps_attempts [OF assms(2)] assms(1)
  by (simp add: budgetStateFor_def INITIAL_BUDGET_STATE_def)

section \<open>Concrete runs\<close>

definition sample_deps :: "nat ladder_deps" where
  "sample_deps =
     \<lparr>ld_step = (\<lambda>_ _ n. (Inr \<lparr>so_applied = True, so_reason = ''ok''\<rparr>, n + 1)),
      ld_power = unsupportedPowerHook PowerKindNone, ld_interlock = ALLOW_ALL_INTERLOCK,
      ld_config = DEFAULT_LADDER_CONFIG\<rparr>"

definition sample_request :: "fault_attribution \<Rightarrow> int \<Rightarrow> nat recovery_request" where
  "sample_request fault now =
     \<lparr>rq_stableKey = ''m'', rq_modem = ''/m/0'', rq_attribution = fault, rq_now = now,
      rq_probeHealthy = (\<lambda>n. (Inr (n \<ge> 2 \<and> n < 5), n))\<rparr>"

definition sample_snapshot :: "source_health \<Rightarrow> snapshot" where
  "sample_snapshot health =
     (initialSnapshot \<lparr>id_logicalSlotId = None, id_equipmentId = NoEquipment, id_subscriptionId = None,
        id_ownNumbers = None, id_runtimePath = ''/m/0''\<rparr>)
     \<lparr>sourceHealth := health, presence := Present, mmState := MmFailed\<rparr>"

lemmas sample_run = ladder_run_def LADDER_ORDER_def io_bind_def on_lworld_def runRung_def io_return_def
  ladder_end_def sample_deps_def sample_request_def ALLOW_ALL_INTERLOCK_def DEFAULT_LADDER_CONFIG_def
  budgetStateFor_def INITIAL_BUDGET_STATE_def beginAttempt_def DEFAULT_RECOVERY_BUDGET_def set_budget_def
  unsupportedPowerHook_def markRecovered_def

theorem ladder_needs_evidence_witness:
  "\<exists>out l'. ladder_run sample_deps \<lparr>recovery_enabled = True\<rparr>
       (sample_request (attributeSnapshot (sample_snapshot Stale)) 0) \<lparr>lad_states = [], lad_world = 0\<rparr> = (Inr out, l') \<and>
     ro_steps out = [] \<and> lad_world l' = 0"
  using ladder_needs_evidence [of "sample_request (attributeSnapshot (sample_snapshot Stale)) 0"
      "sample_snapshot Stale" "\<lparr>recovery_enabled = True\<rparr>" "\<lparr>lad_states = [], lad_world = 0\<rparr>" sample_deps]
  by (auto simp: sample_request_def sample_snapshot_def)

lemma sample_recovers:
  "\<exists>out l'. ladder_run sample_deps \<lparr>recovery_enabled = True\<rparr> (sample_request ModemFault 0)
       \<lparr>lad_states = [], lad_world = 0\<rparr> = (Inr out, l') \<and>
     ro_kind out = OutcomeRecovered \<and> map sr_rung (ro_steps out) = [NmCycle, MmCycle]"
  by (simp add: sample_run)

theorem ladder_climbs_in_order_witness:
  "\<exists>out l'. ladder_run sample_deps \<lparr>recovery_enabled = True\<rparr> (sample_request ModemFault 0)
       \<lparr>lad_states = [], lad_world = 0\<rparr> = (Inr out, l') \<and>
     prefix (map sr_rung (ro_steps out)) LADDER_ORDER \<and> map sr_rung (ro_steps out) = [NmCycle, MmCycle]"
proof -
  from sample_recovers obtain out l' where out: "ladder_run sample_deps \<lparr>recovery_enabled = True\<rparr>
      (sample_request ModemFault 0) \<lparr>lad_states = [], lad_world = 0\<rparr> = (Inr out, l')"
    "map sr_rung (ro_steps out) = [NmCycle, MmCycle]" by (elim exE conjE) (rule that)
  have "prefix (map sr_rung (ro_steps out)) LADDER_ORDER" using ladder_climbs_in_order [OF out(1)] by simp
  with out show ?thesis by (intro exI [of _ out] exI [of _ l'] conjI)
qed


theorem ladder_attempts_bounded_witness:
  "let cs = [LadderRun \<lparr>recovery_enabled = True\<rparr> (sample_request ModemFault 0)];
       steps = ladder_steps sample_deps cs \<lparr>lad_states = [], lad_world = 5\<rparr>
   in filter (attempt_for ''m'') steps = steps \<and> int (length (filter (attempt_for ''m'') steps)) \<le> 2"
proof -
  let ?cs = "[LadderRun \<lparr>recovery_enabled = True\<rparr> (sample_request ModemFault 0)]"
  have reached: "\<exists>out l'. ladder_run sample_deps \<lparr>recovery_enabled = True\<rparr> (sample_request ModemFault 0)
       \<lparr>lad_states = [], lad_world = 5\<rparr> = (Inr out, l') \<and> ro_kind out = OutcomeExhausted"
    by (simp add: sample_run)
  then obtain out where steps: "ladder_steps sample_deps ?cs \<lparr>lad_states = [], lad_world = 5\<rparr> =
      [(LadderRun \<lparr>recovery_enabled = True\<rparr> (sample_request ModemFault 0), Some (Inr out))]"
    and kind: "ro_kind out = OutcomeExhausted" by auto
  have key: "rq_stableKey (sample_request ModemFault 0) = ''m''" by (simp add: sample_request_def)
  have budget: "lc_budget (ld_config sample_deps) = DEFAULT_RECOVERY_BUDGET"
    by (simp add: sample_deps_def DEFAULT_LADDER_CONFIG_def)
  have "\<forall>s \<in> set (ladder_steps sample_deps ?cs \<lparr>lad_states = [], lad_world = 5\<rparr>). \<not> renews ''m'' s"
    using steps kind by simp
  from ladder_attempts_bounded [OF _ this] steps kind key show ?thesis
    by (simp add: Let_def budget DEFAULT_RECOVERY_BUDGET_def)
qed

end
